(* ===== verification/Prelude.thy ===== *)
theory Prelude
  imports "HOL-Library.Word" "HOL-Library.Monad_Syntax"
begin

text \<open>
  Vocabulary shared by every theory of the development: the fixed-width integers of the C++
  sources, byte buffers with the two memory primitives the code uses on them (reading a range and
  overwriting a range), and the \<open>esp_err_t\<close> codes the public and internal operations return.

  A buffer of the program (\<open>uint8_t *buf, size_t buf_len\<close>) is a \<open>bytes\<close> value whose length is
  \<open>buf_len\<close>; a \<open>size_t\<close> offset is a \<open>nat\<close>. \<open>memcpy\<close>/\<open>memset\<close> into a buffer is
  \<open>put\<close>, a bounded view of a buffer is \<open>get\<close>. Null pointers do not exist in the model: an
  operation whose arguments may be null is modelled on the non-null case.
\<close>

unbundle bit_operations_syntax

type_synonym u8 = "8 word"
type_synonym u16 = "16 word"
type_synonym u32 = "32 word"
type_synonym u64 = "64 word"
type_synonym bytes = "u8 list"

named_theorems buffer_simps \<open>reading back what was written into a buffer\<close>
named_theorems format_consts \<open>numeric constants of the on-media format\<close>

text \<open>The error codes of ESP-IDF that the sources return; \<open>ESP_OK\<close> is success.\<close>

datatype esp_err =
    ESP_OK
  | ESP_FAIL
  | ESP_ERR_NO_MEM
  | ESP_ERR_INVALID_ARG
  | ESP_ERR_INVALID_STATE
  | ESP_ERR_INVALID_SIZE
  | ESP_ERR_NOT_FOUND
  | ESP_ERR_NOT_SUPPORTED
  | ESP_ERR_TIMEOUT
  | ESP_ERR_INVALID_RESPONSE
  | ESP_ERR_INVALID_CRC
  | ESP_ERR_INVALID_VERSION
  | ESP_ERR_NOT_ALLOWED

section \<open>Byte buffers\<close>

definition get :: "bytes \<Rightarrow> nat \<Rightarrow> nat \<Rightarrow> bytes" where
  "get b off n = take n (drop off b)"

definition put :: "bytes \<Rightarrow> nat \<Rightarrow> bytes \<Rightarrow> bytes" where
  "put b off xs =
     (if off + length xs \<le> length b then take off b @ xs @ drop (off + length xs) b else b)"

definition zeroes :: "nat \<Rightarrow> bytes" where
  "zeroes n = replicate n 0"

lemma length_zeroes [simp]: "length (zeroes n) = n"
  by (simp add: zeroes_def)

lemma length_put [simp]: "length (put b off xs) = length b"
  by (simp add: put_def)

lemma length_get [simp]: "off + n \<le> length b \<Longrightarrow> length (get b off n) = n"
  by (simp add: get_def)

lemma length_get_le: "length (get b off n) \<le> n"
  by (simp add: get_def)

lemma get_0 [simp]: "get b off 0 = []"
  by (simp add: get_def)

lemma get_all [simp]: "n = length b \<Longrightarrow> get b 0 n = b"
  by (simp add: get_def)

lemma get_prefix: "get b 0 n = take n b"
  by (simp add: get_def)

lemma get_get: "i + m \<le> n \<Longrightarrow> get (get b off n) i m = get b (off + i) m"
  by (simp add: get_def drop_take min_def add.commute)

lemma get_Suc: "off < length b \<Longrightarrow> get b off (Suc n) = b ! off # get b (Suc off) n"
  by (simp add: get_def Cons_nth_drop_Suc [symmetric])

lemma get_append: "off + n + m \<le> length b \<Longrightarrow> get b off (n + m) = get b off n @ get b (off + n) m"
  by (simp add: get_def take_add) (simp add: add.commute)

lemma get_put_same [buffer_simps]:
  "n = length xs \<Longrightarrow> off + n \<le> length b \<Longrightarrow> get (put b off xs) off n = xs"
  by (simp add: get_def put_def)

lemma get_put_before [buffer_simps]:
  "i + n \<le> off \<Longrightarrow> get (put b off xs) i n = get b i n"
  by (auto simp: get_def put_def min_def drop_take)

lemma get_put_after [buffer_simps]:
  "off + length xs \<le> i \<Longrightarrow> get (put b off xs) i n = get b i n"
  by (auto simp: get_def put_def)

lemma get_put_inside [buffer_simps]:
  "off \<le> i \<Longrightarrow> i + n \<le> off + length xs \<Longrightarrow> off + length xs \<le> length b \<Longrightarrow>
     get (put b off xs) i n = get xs (i - off) n"
  by (auto simp: get_def put_def)

lemma get_zeroes [buffer_simps]: "i + n \<le> m \<Longrightarrow> get (zeroes m) i n = zeroes n"
  by (simp add: get_def zeroes_def)

lemma nth_zeroes [buffer_simps]: "i < n \<Longrightarrow> zeroes n ! i = 0"
  by (simp add: zeroes_def)

lemma put_get_id: "off + n \<le> length b \<Longrightarrow> put b off (get b off n) = b"
  by (simp add: get_def put_def min_def)
     (metis add.commute append_take_drop_id drop_drop)

lemma nth_get: "i < n \<Longrightarrow> off + n \<le> length b \<Longrightarrow> get b off n ! i = b ! (off + i)"
  by (simp add: get_def add.commute)

lemma nth_put:
  "off + length xs \<le> length b \<Longrightarrow> i < length b \<Longrightarrow>
     put b off xs ! i = (if off \<le> i \<and> i < off + length xs then xs ! (i - off) else b ! i)"
  by (auto simp: put_def nth_append not_less)

lemma put_nth_get: "off < length b \<Longrightarrow> [b ! off] = get b off 1"
  by (simp add: get_Suc)

text \<open>Single-byte accesses \<open>buf[off]\<close> on top of \<open>put\<close>.\<close>

lemma nth_put_same [buffer_simps]:
  "off < length b \<Longrightarrow> put b off [x] ! off = x"
  by (simp add: nth_put)

lemma nth_put_before [buffer_simps]:
  "i < off \<Longrightarrow> put b off xs ! i = b ! i"
  by (auto simp: put_def nth_append)

lemma nth_put_after [buffer_simps]:
  "off + length xs \<le> i \<Longrightarrow> put b off xs ! i = b ! i"
  by (auto simp: put_def nth_append)

lemma nth_put_zeroes [buffer_simps]:
  "off \<le> i \<Longrightarrow> i < off + n \<Longrightarrow> off + n \<le> length b \<Longrightarrow> put b off (zeroes n) ! i = 0"
  by (simp add: nth_put zeroes_def)

lemma buffer_eqI:
  assumes "length a = length b" "\<And>i. i < length b \<Longrightarrow> a ! i = b ! i"
  shows "a = b"
  using assms by (simp add: nth_equalityI)

section \<open>Monadic plumbing\<close>

lemma bind_eq_Some [simp]:
  "(m \<bind> f = Some y) \<longleftrightarrow> (\<exists>x. m = Some x \<and> f x = Some y)"
  by (cases m) auto

lemma unat_of_nat_eq [simp]:
  "n < 2 ^ LENGTH('a) \<Longrightarrow> unat (of_nat n :: 'a::len word) = n"
  by (simp add: unat_of_nat take_bit_nat_eq_self)

section \<open>Powers of two as masks\<close>

lemma odd_part: "0 < n \<Longrightarrow> \<exists>k m. n = 2 ^ k * m \<and> odd m" for n :: nat
proof (induction n rule: less_induct)
  case (less n)
  show ?case
  proof (cases "odd n")
    case True
    then show ?thesis by (metis mult_1 power_0)
  next
    case False
    then obtain h where h: "n = 2 * h" by (auto elim: evenE)
    then obtain k m where "h = 2 ^ k * m" "odd m" using less.IH [of h] less.prems by auto
    then have "n = 2 ^ Suc k * m" by (simp add: h)
    then show ?thesis using \<open>odd m\<close> by blast
  qed
qed

lemma pow2_word:
  fixes c :: "'a::len word"
  assumes "c \<noteq> 0" "c AND (c - 1) = 0"
  shows "\<exists>k < LENGTH('a). c = 2 ^ k"
proof -
  have "0 < unat c" using assms(1) by (simp add: unat_gt_0)
  then obtain k m where m: "unat c = 2 ^ k * m" "odd m"
    using odd_part by blast
  then obtain e where e: "m = 2 * e + 1" by (auto elim: oddE)
  have "2 ^ k \<le> unat c" using m by (cases m) auto
  then have "(2 :: nat) ^ k < 2 ^ LENGTH('a)" by (rule le_less_trans [OF _ unsigned_less [of c]])
  then have k: "k < LENGTH('a)" by simp
  obtain K where K: "K = Suc k" by blast
  define d where "d = push_bit K (of_nat e :: 'a word)"
  have "of_nat (unat c) = (of_nat (2 ^ k * m) :: 'a word)" using m by simp
  then have c: "c = d + 2 ^ k"
    by (simp add: e d_def K push_bit_eq_mult algebra_simps)
  have d: "bit d n \<Longrightarrow> k < n" for n unfolding d_def K bit_push_bit_iff by simp
  have "d AND mask k = 0" "d AND 2 ^ k = 0"
    by (rule bit_word_eqI, use d in \<open>fastforce simp: bit_simps\<close>)+
  then have or: "d + mask k = d OR mask k" "c = d OR 2 ^ k"
    unfolding c by (simp_all add: disjunctive_add_eq_or)
  have c1: "c - 1 = d OR mask k"
    using or(1) by (simp add: c mask_eq_exp_minus_1 add_diff_eq)
  have "d = d AND (c AND (c - 1))"
    unfolding c1 by (subst or(2)) (rule bit_word_eqI, auto simp: bit_simps)
  then have "d = 0" using assms(2) by simp
  then show ?thesis using c k by auto
qed

end
