(* ===== verification/Byte_Codec.thy ===== *)
theory Byte_Codec
  imports Prelude
begin

text \<open>
  The numeric ground floor of \<open>on9kvdb_format.cpp\<close>: overflow-checked arithmetic, the
  range-checked little-endian readers and writers every encoder is built from, and the
  generation-checked handle tokens of the public API. A C++ function that returns \<open>bool\<close> and an
  out parameter is an \<open>option\<close>; \<open>false\<close> is \<open>None\<close>.
\<close>

section \<open>Checked arithmetic\<close>

definition checked_add :: "'a::len word \<Rightarrow> 'a word \<Rightarrow> 'a word option" where
  "checked_add lhs rhs = (if rhs > - 1 - lhs then None else Some (lhs + rhs))"

definition checked_mul :: "'a::len word \<Rightarrow> 'a word \<Rightarrow> 'a word option" where
  "checked_mul lhs rhs = (if lhs \<noteq> 0 \<and> rhs > (- 1) div lhs then None else Some (lhs * rhs))"

definition checked_align_up :: "'a::len word \<Rightarrow> 'a word \<Rightarrow> 'a word option" where
  "checked_align_up v alignment =
     (if alignment = 0 \<or> alignment AND (alignment - 1) \<noteq> 0 then None
      else do {
        adjusted \<leftarrow> checked_add v (alignment - 1);
        Some (adjusted AND NOT (alignment - 1)) })"

lemma unat_max_word: "unat (- 1 :: 'a::len word) = 2 ^ LENGTH('a) - 1"
  by (simp add: unsigned_minus_1_eq_mask mask_eq_exp_minus_1)

lemma unat_less_pow: "unat (w :: 'a::len word) < 2 ^ LENGTH('a)"
  by (rule unsigned_less)

lemma unat_max_minus: "unat (- 1 - (a :: 'a::len word)) = 2 ^ LENGTH('a) - 1 - unat a"
proof -
  have "a \<le> - 1" by simp
  then show ?thesis by (simp add: unat_sub unat_max_word)
qed

lemma checked_add_eq:
  "checked_add a b =
     (if unat a + unat b < 2 ^ LENGTH('a) then Some (a + b) else None)" for a b :: "'a::len word"
proof -
  have "(- 1 - a < b) \<longleftrightarrow> \<not> unat a + unat b < 2 ^ LENGTH('a)"
    using unat_less_pow [of a] by (simp only: word_less_nat_alt unat_max_minus) arith
  then show ?thesis by (simp add: checked_add_def)
qed

lemma checked_add_Some:
  "checked_add a b = Some c \<longleftrightarrow> c = a + b \<and> unat a + unat b < 2 ^ LENGTH('a)"
  for a b :: "'a::len word"
  by (auto simp: checked_add_eq)

lemma unat_add_exact: "unat a + unat b < 2 ^ LENGTH('a) \<Longrightarrow> unat (a + b) = unat a + unat b"
  for a b :: "'a::len word"
  by (simp add: unat_word_ariths)

lemma unat_mult_exact: "unat a * unat b < 2 ^ LENGTH('a) \<Longrightarrow> unat (a * b) = unat a * unat b"
  for a b :: "'a::len word"
  by (simp add: unat_word_ariths)

lemma checked_mul_eq:
  "checked_mul a b =
     (if unat a * unat b < 2 ^ LENGTH('a) then Some (a * b) else None)" for a b :: "'a::len word"
proof (cases "a = 0")
  case True
  then show ?thesis by (simp add: checked_mul_def)
next
  case False
  then have pos: "0 < unat a" by (simp add: unat_gt_0)
  have "(- 1 div a < b) \<longleftrightarrow> (2 ^ LENGTH('a) - 1) div unat a < unat b"
    by (simp add: word_less_nat_alt unat_div unat_max_word)
  also have "\<dots> \<longleftrightarrow> 2 ^ LENGTH('a) - 1 < unat b * unat a"
    using pos by (rule div_less_iff_less_mult)
  also have "\<dots> \<longleftrightarrow> \<not> unat a * unat b < 2 ^ LENGTH('a)"
    using zero_less_power [of "2 :: nat" "LENGTH('a)"]
    by (simp only: mult.commute [of "unat b"]) arith
  finally show ?thesis
    using False by (simp add: checked_mul_def)
qed

lemma checked_mul_Some:
  "checked_mul a b = Some c \<longleftrightarrow> c = a * b \<and> unat a * unat b < 2 ^ LENGTH('a)"
  for a b :: "'a::len word"
  by (auto simp: checked_mul_eq)

lemma checked_add_unat: "checked_add a b = Some c \<Longrightarrow> unat c = unat a + unat b"
  by (simp add: checked_add_Some unat_add_exact)

lemma checked_mul_unat: "checked_mul a b = Some c \<Longrightarrow> unat c = unat a * unat b"
  by (simp add: checked_mul_Some unat_mult_exact)

section \<open>Little-endian fields\<close>

definition is_range_valid :: "nat \<Rightarrow> nat \<Rightarrow> nat \<Rightarrow> bool" where
  "is_range_valid buf_len offset len \<longleftrightarrow> offset \<le> buf_len \<and> len \<le> buf_len - offset"

lemma is_range_valid_iff: "is_range_valid n off len \<longleftrightarrow> off + len \<le> n"
  by (auto simp: is_range_valid_def)

text \<open>The bytes a \<open>write_uN_le\<close> stores: byte \<open>idx\<close> is \<open>static_cast<uint8_t>(value >> (idx * 8U))\<close>.\<close>

definition le_bytes :: "nat \<Rightarrow> 'a::len word \<Rightarrow> bytes" where
  "le_bytes n v = map (\<lambda>idx. ucast (drop_bit (idx * 8) v)) [0..<n]"

text \<open>The value a \<open>read_uN_le\<close> assembles: byte \<open>idx\<close> shifted left by \<open>idx * 8U\<close>, or-ed together.\<close>

fun le_value :: "bytes \<Rightarrow> 'a::len word" where
  "le_value [] = 0"
| "le_value (b # bs) = ucast b OR push_bit 8 (le_value bs)"

definition write_u16_le :: "bytes \<Rightarrow> nat \<Rightarrow> u16 \<Rightarrow> bytes option" where
  "write_u16_le buf offset v =
     (if is_range_valid (length buf) offset 2 then Some (put buf offset (le_bytes 2 v)) else None)"

definition write_u32_le :: "bytes \<Rightarrow> nat \<Rightarrow> u32 \<Rightarrow> bytes option" where
  "write_u32_le buf offset v =
     (if is_range_valid (length buf) offset 4 then Some (put buf offset (le_bytes 4 v)) else None)"

definition write_u64_le :: "bytes \<Rightarrow> nat \<Rightarrow> u64 \<Rightarrow> bytes option" where
  "write_u64_le buf offset v =
     (if is_range_valid (length buf) offset 8 then Some (put buf offset (le_bytes 8 v)) else None)"

definition read_u16_le :: "bytes \<Rightarrow> nat \<Rightarrow> u16 option" where
  "read_u16_le buf offset =
     (if is_range_valid (length buf) offset 2 then Some (le_value (get buf offset 2)) else None)"

definition read_u32_le :: "bytes \<Rightarrow> nat \<Rightarrow> u32 option" where
  "read_u32_le buf offset =
     (if is_range_valid (length buf) offset 4 then Some (le_value (get buf offset 4)) else None)"

definition read_u64_le :: "bytes \<Rightarrow> nat \<Rightarrow> u64 option" where
  "read_u64_le buf offset =
     (if is_range_valid (length buf) offset 8 then Some (le_value (get buf offset 8)) else None)"

lemma length_le_bytes [simp]: "length (le_bytes n v) = n"
  by (simp add: le_bytes_def)

lemma le_bytes_0 [simp]: "le_bytes 0 v = []"
  by (simp add: le_bytes_def)

lemma le_bytes_Suc: "le_bytes (Suc n) v = ucast v # le_bytes n (drop_bit 8 v)"
proof -
  have "le_bytes (Suc n) v = ucast v # map (\<lambda>i. ucast (drop_bit (i * 8) v)) [Suc 0..<Suc n]"
    by (simp add: le_bytes_def upt_conv_Cons del: upt_Suc)
  also have "map (\<lambda>i. ucast (drop_bit (i * 8) v) :: u8) [Suc 0..<Suc n]
      = map (\<lambda>i. ucast (drop_bit (i * 8) (drop_bit 8 v))) [0..<n]"
    by (simp add: map_Suc_upt [symmetric] add.commute del: upt_Suc)
  finally show ?thesis by (simp add: le_bytes_def)
qed

lemma le_value_le_bytes_take:
  "le_value (le_bytes n v) = (take_bit (8 * n) v :: 'a::len word)" if "8 \<le> LENGTH('a)"
proof (induction n arbitrary: v)
  case 0
  then show ?case by simp
next
  case (Suc n)
  show ?case
  proof (rule bit_word_eqI)
    fix i assume "i < LENGTH('a)"
    then show "bit (le_value (le_bytes (Suc n) v) :: 'a word) i = bit (take_bit (8 * Suc n) v) i"
      using that by (cases "i < 8") (auto simp: le_bytes_Suc Suc.IH bit_simps)
  qed
qed

lemma le_value_le_bytes [simp]:
  "le_value (le_bytes 2 v) = v" "le_value (le_bytes 4 w) = w" "le_value (le_bytes 8 x) = x"
  for v :: u16 and w :: u32 and x :: u64
  by (simp_all add: le_value_le_bytes_take take_bit_word_eq_self)

lemma le_value_high_bits:
  "8 * length bs \<le> i \<Longrightarrow> \<not> bit (le_value bs :: 'a::len word) i"
proof (induction bs arbitrary: i)
  case (Cons a bs)
  then have "\<not> bit a i" by (auto dest: bit_imp_le_length)
  with Cons show ?case by (auto simp: bit_simps)
qed simp

lemma le_bytes_le_value:
  "length bs = n \<Longrightarrow> 8 * n \<le> LENGTH('a) \<Longrightarrow> le_bytes n (le_value bs :: 'a::len word) = bs"
proof (induction bs arbitrary: n)
  case Nil
  then show ?case by simp
next
  case (Cons b bs)
  then obtain m where n: "n = Suc m" "length bs = m" by auto
  with Cons.prems have len: "8 * m + 8 \<le> LENGTH('a)" by simp
  have "ucast (le_value (b # bs) :: 'a word) = b"
    using len by (intro bit_word_eqI) (auto simp: bit_simps)
  moreover have "drop_bit 8 (le_value (b # bs) :: 'a word) = le_value bs"
  proof (rule bit_word_eqI)
    fix i assume "i < LENGTH('a)"
    have "\<not> bit b (8 + i)" by (auto dest: bit_imp_le_length)
    moreover have "\<not> bit (le_value bs :: 'a word) i" if "LENGTH('a) \<le> 8 + i"
      using that len n by (intro le_value_high_bits) simp
    ultimately show "bit (drop_bit 8 (le_value (b # bs) :: 'a word)) i = bit (le_value bs :: 'a word) i"
      by (cases "LENGTH('a) \<le> 8 + i") (auto simp: bit_simps not_le)
  qed
  ultimately show ?case
    using Cons n len by (simp add: le_bytes_Suc)
qed

lemma le_value_zeroes [buffer_simps]: "le_value (zeroes n) = 0"
  by (induction n) (auto simp: zeroes_def)

lemma write_le [buffer_simps]:
  "off + 2 \<le> length b \<Longrightarrow> write_u16_le b off v = Some (put b off (le_bytes 2 v))"
  "off + 4 \<le> length b \<Longrightarrow> write_u32_le b off w = Some (put b off (le_bytes 4 w))"
  "off + 8 \<le> length b \<Longrightarrow> write_u64_le b off x = Some (put b off (le_bytes 8 x))"
  by (simp_all add: write_u16_le_def write_u32_le_def write_u64_le_def is_range_valid_iff)

lemma read_le [buffer_simps]:
  "off + 2 \<le> length b \<Longrightarrow> read_u16_le b off = Some (le_value (get b off 2))"
  "off + 4 \<le> length b \<Longrightarrow> read_u32_le b off = Some (le_value (get b off 4))"
  "off + 8 \<le> length b \<Longrightarrow> read_u64_le b off = Some (le_value (get b off 8))"
  by (simp_all add: read_u16_le_def read_u32_le_def read_u64_le_def is_range_valid_iff)

definition is_zero_range :: "bytes \<Rightarrow> nat \<Rightarrow> nat \<Rightarrow> bool" where
  "is_zero_range buf offset len \<longleftrightarrow> (\<forall>idx \<in> set [0..<len]. buf ! (offset + idx) = 0)"

lemma is_zero_range_get: "off + n \<le> length b \<Longrightarrow> is_zero_range b off n \<longleftrightarrow> get b off n = zeroes n"
  by (auto simp: is_zero_range_def list_eq_iff_nth_eq nth_get zeroes_def)

section \<open>Round trip and error behaviour of the field accessors\<close>

text \<open>
  Reading a field back yields what was written, at every width; an access that does not fit the
  buffer fails instead of touching memory, and a write leaves every byte outside its field alone.
\<close>

lemma le_read_write:
  "write_u16_le b off v = Some b2 \<Longrightarrow> read_u16_le b2 off = Some v"
  "write_u32_le b off w = Some b4 \<Longrightarrow> read_u32_le b4 off = Some w"
  "write_u64_le b off x = Some b8 \<Longrightarrow> read_u64_le b8 off = Some x"
  by (auto simp: write_u16_le_def write_u32_le_def write_u64_le_def is_range_valid_iff buffer_simps
      split: if_splits)

section \<open>Handle tokens\<close>

definition handle_slot_capacity :: u16 where "handle_slot_capacity = 256"
definition handle_slot_bits :: nat where "handle_slot_bits = 9"
definition handle_slot_mask :: u64 where "handle_slot_mask = push_bit handle_slot_bits 1 - 1"
definition max_handle_generation :: u64 where "max_handle_generation = drop_bit handle_slot_bits (- 1)"

lemmas handle_consts = handle_slot_capacity_def handle_slot_bits_def handle_slot_mask_def
  max_handle_generation_def

definition make_handle_value :: "u16 \<Rightarrow> u64 \<Rightarrow> u64" where
  "make_handle_value slot generation =
     (if slot \<ge> handle_slot_capacity \<or> generation = 0 \<or> generation > max_handle_generation then 0
      else push_bit handle_slot_bits generation OR (ucast slot + 1))"

definition decode_handle_value :: "u64 \<Rightarrow> (u16 \<times> u64) option" where
  "decode_handle_value v =
     (let slot_token = v AND handle_slot_mask; generation = drop_bit handle_slot_bits v in
      if slot_token = 0 \<or> slot_token > ucast handle_slot_capacity \<or> generation = 0 then None
      else Some (ucast (slot_token - 1), generation))"

definition is_handle_value :: "u64 \<Rightarrow> u16 \<Rightarrow> u64 \<Rightarrow> bool" where
  "is_handle_value v slot generation \<longleftrightarrow> v \<noteq> 0 \<and> v = make_handle_value slot generation"

definition valid_handle_parts :: "u16 \<Rightarrow> u64 \<Rightarrow> bool" where
  "valid_handle_parts slot generation \<longleftrightarrow>
     slot < handle_slot_capacity \<and> generation \<noteq> 0 \<and> generation \<le> max_handle_generation"

lemma handle_mask: "v AND handle_slot_mask = take_bit 9 v"
  by (simp add: handle_consts take_bit_eq_mask mask_eq_exp_minus_1)

lemma max_handle_generation_eq: "max_handle_generation = 0x7FFFFFFFFFFFFF"
  by (simp add: handle_consts mask_eq_exp_minus_1)

lemma handle_generation_bits:
  "generation \<le> max_handle_generation \<longleftrightarrow> take_bit 55 generation = generation"
proof -
  have "generation \<le> max_handle_generation \<longleftrightarrow> unat generation < 2 ^ 55"
    by (simp add: max_handle_generation_eq word_le_nat_alt less_Suc_eq_le [symmetric])
  also have "\<dots> \<longleftrightarrow> take_bit 55 (unat generation) = unat generation"
    by (simp add: take_bit_nat_eq_self_iff)
  also have "\<dots> \<longleftrightarrow> take_bit 55 generation = generation"
    by (simp add: word_eq_iff_unsigned [where 'a = nat] unsigned_take_bit_eq)
  finally show ?thesis .
qed

lemma handle_pack:
  fixes t g :: u64
  assumes "take_bit 9 t = t" "take_bit 55 g = g"
  shows "take_bit 9 (push_bit 9 g OR t) = t" "drop_bit 9 (push_bit 9 g OR t) = g"
proof -
  have t: "bit t n \<Longrightarrow> n < 9" for n by (metis assms(1) bit_take_bit_iff)
  have g: "bit g n \<Longrightarrow> n < 55" for n by (metis assms(2) bit_take_bit_iff)
  show "take_bit 9 (push_bit 9 g OR t) = t"
    by (rule bit_word_eqI) (auto simp: bit_simps dest: t)
  show "drop_bit 9 (push_bit 9 g OR t) = g"
    by (rule bit_word_eqI) (auto simp: bit_simps dest: t g)
qed

lemma slot_token:
  assumes "slot < handle_slot_capacity"
  shows "unat (ucast slot + 1 :: u64) = unat slot + 1"
    "take_bit 9 (ucast slot + 1 :: u64) = ucast slot + 1"
proof -
  have "unat slot < 256" using assms by (simp add: handle_consts word_less_nat_alt)
  then show *: "unat (ucast slot + 1 :: u64) = unat slot + 1"
    by (simp add: unat_word_ariths unsigned_ucast_eq take_bit_nat_eq_self)
  then show "take_bit 9 (ucast slot + 1 :: u64) = ucast slot + 1"
    using \<open>unat slot < 256\<close>
    by (simp add: word_eq_iff_unsigned [where 'a = nat] unsigned_take_bit_eq take_bit_nat_eq_self)
qed

lemma make_handle_bits:
  assumes "valid_handle_parts slot generation"
  shows "make_handle_value slot generation AND handle_slot_mask = ucast slot + 1"
    "drop_bit handle_slot_bits (make_handle_value slot generation) = generation"
proof -
  from assms have slot: "slot < handle_slot_capacity" and g: "take_bit 55 generation = generation"
    and eq: "make_handle_value slot generation = push_bit 9 generation OR (ucast slot + 1)"
    by (auto simp: valid_handle_parts_def make_handle_value_def handle_slot_bits_def not_less [symmetric]
        simp flip: handle_generation_bits)
  show "make_handle_value slot generation AND handle_slot_mask = ucast slot + 1"
    by (simp only: handle_mask eq handle_pack [OF slot_token(2) [OF slot] g])
  show "drop_bit handle_slot_bits (make_handle_value slot generation) = generation"
    by (simp only: handle_slot_bits_def eq handle_pack [OF slot_token(2) [OF slot] g])
qed

lemma decode_make_handle:
  assumes "valid_handle_parts slot generation"
  shows "decode_handle_value (make_handle_value slot generation) = Some (slot, generation)"
proof -
  from assms have slot: "slot < handle_slot_capacity" and g: "generation \<noteq> 0"
    by (auto simp: valid_handle_parts_def)
  from slot have lt: "unat slot < 256" by (simp add: handle_consts word_less_nat_alt)
  have "(ucast slot + 1 :: u64) \<noteq> 0" "\<not> (ucast slot + 1 :: u64) > ucast handle_slot_capacity"
    using slot_token(1) [OF slot] lt
    by (auto simp: unat_eq_zero [symmetric] word_less_nat_alt handle_consts)
  moreover have "ucast (ucast slot + 1 - 1 :: u64) = slot"
    by (rule bit_word_eqI) (simp add: bit_simps)
  ultimately show ?thesis
    using make_handle_bits [OF assms] g by (simp add: decode_handle_value_def Let_def)
qed

end
