(* ===== verification/Crc32.thy ===== *)
theory Crc32
  imports Byte_Codec
begin

text \<open>
  The CRC-32 of \<open>on9kvdb_format.cpp\<close>: the look-up table computed bit by bit, the byte-wise
  update loop over it, and the two record checksums that cover a record with its own checksum
  field read as zero. The lemmas show that the table-driven loop computes the bitwise
  polynomial division, that the update is incremental (a checksum may be computed over any split
  of the data, which the streaming paths rely on) and that the checksum of a record changes
  whenever a single byte of it does.
\<close>

definition crc32_polynomial :: u32 where "crc32_polynomial = 0xedb88320"

text \<open>One turn of the loop of \<open>make_crc32_lut_entry\<close>.\<close>

definition crc32_bit_step :: "u32 \<Rightarrow> u32" where
  "crc32_bit_step v = (if v AND 1 \<noteq> 0 then drop_bit 1 v XOR crc32_polynomial else drop_bit 1 v)"

definition make_crc32_lut_entry :: "u32 \<Rightarrow> u32" where
  "make_crc32_lut_entry v = (crc32_bit_step ^^ 8) v"

definition crc32_table :: "u32 list" where
  "crc32_table = map (\<lambda>idx. make_crc32_lut_entry (of_nat idx)) [0..<256]"

definition crc32_step :: "u32 \<Rightarrow> u8 \<Rightarrow> u32" where
  "crc32_step crc b = (let table_idx = ucast (crc XOR ucast b) :: u8 in
     crc32_table ! unat table_idx XOR drop_bit 8 crc)"

definition calc_crc32_update :: "u32 \<Rightarrow> bytes \<Rightarrow> u32" where
  "calc_crc32_update crc buf = foldl crc32_step crc buf"

definition calc_crc32 :: "bytes \<Rightarrow> u32" where
  "calc_crc32 buf = NOT (calc_crc32_update (- 1) buf)"

definition calc_file_prefix_crc :: "bytes \<Rightarrow> u32" where
  "calc_file_prefix_crc buf =
     (let crc = calc_crc32_update (- 1) (get buf 0 24);
          crc = calc_crc32_update crc (zeroes 4)
      in NOT crc)"

definition calc_record_crc :: "bytes \<Rightarrow> nat \<Rightarrow> nat \<Rightarrow> u32" where
  "calc_record_crc buf len checksum_offset =
     (let crc = calc_crc32_update (- 1) (get buf 0 checksum_offset);
          crc = calc_crc32_update crc (zeroes 4);
          suffix_offset = checksum_offset + 4;
          crc = calc_crc32_update crc (get buf suffix_offset (len - suffix_offset))
      in NOT crc)"

section \<open>The table-driven step is eight bitwise steps\<close>

lemma crc32_table_nth: "i < 256 \<Longrightarrow> crc32_table ! i = make_crc32_lut_entry (of_nat i)"
  by (simp add: crc32_table_def)

lemma crc32_bit_step_xor: "crc32_bit_step (a XOR b) = crc32_bit_step a XOR crc32_bit_step b"
proof -
  have odd: "(v AND 1 \<noteq> 0) = bit v 0" for v :: u32
    by (simp add: and_one_eq bit_0 odd_iff_mod_2_eq_one)
  show ?thesis
    by (rule bit_word_eqI) (auto simp: crc32_bit_step_def odd bit_simps)
qed

lemma crc32_bit_steps_xor:
  "(crc32_bit_step ^^ n) (a XOR b) = (crc32_bit_step ^^ n) a XOR (crc32_bit_step ^^ n) b"
  by (induction n) (simp_all add: crc32_bit_step_xor)

lemma crc32_bit_step_even: "\<not> bit v 0 \<Longrightarrow> crc32_bit_step v = drop_bit 1 v"
  by (simp add: crc32_bit_step_def and_one_eq bit_0 odd_iff_mod_2_eq_one)

lemma crc32_bit_steps_low_zero:
  "take_bit n v = 0 \<Longrightarrow> (crc32_bit_step ^^ n) v = drop_bit n v"
proof (induction n)
  case (Suc n)
  have low: "\<not> bit v i" if "i < Suc n" for i
    using Suc.prems that by (metis bit_0_eq bit_take_bit_iff bot_apply bot_bool_def)
  then have "take_bit n v = 0"
    by (intro bit_word_eqI) (auto simp: bit_simps)
  moreover have "\<not> bit (drop_bit n v) 0"
    using low [of n] by (simp add: bit_simps)
  ultimately show ?case
    by (simp add: Suc.IH crc32_bit_step_even)
qed simp

lemma crc32_step_bitwise: "crc32_step crc b = (crc32_bit_step ^^ 8) (crc XOR ucast b)"
proof -
  let ?x = "crc XOR ucast b :: u32"
  let ?low = "take_bit 8 ?x" and ?high = "push_bit 8 (drop_bit 8 ?x)"
  have split: "?x = ?low XOR ?high"
  proof (rule bit_word_eqI)
    fix i assume "i < LENGTH(32)"
    then show "bit ?x i = bit (?low XOR ?high) i"
      by (cases "i < 8") (auto simp: bit_simps)
  qed
  have idx: "unat (ucast ?x :: u8) < 256"
    using unsigned_less [of "ucast ?x :: u8"] by simp
  have "of_nat (unat (ucast ?x :: u8)) = (ucast (ucast ?x :: u8) :: u32)"
    by (rule of_nat_unat)
  also have "\<dots> = ?low"
    by (rule bit_word_eqI) (auto simp: bit_simps)
  finally have low: "crc32_table ! unat (ucast ?x :: u8) = (crc32_bit_step ^^ 8) ?low"
    using idx by (simp add: crc32_table_nth make_crc32_lut_entry_def)
  have "(crc32_bit_step ^^ 8) ?high = drop_bit 8 ?high"
    by (rule crc32_bit_steps_low_zero) (rule bit_word_eqI, auto simp: bit_simps)
  also have "\<dots> = drop_bit 8 crc"
    by (rule bit_word_eqI) (auto simp: bit_simps dest: bit_imp_le_length)
  finally have high: "(crc32_bit_step ^^ 8) ?high = drop_bit 8 crc" .
  show ?thesis
    by (subst split, subst crc32_bit_steps_xor) (simp only: low high crc32_step_def Let_def)
qed

section \<open>Incremental update\<close>

lemma calc_crc32_update_Nil [simp]: "calc_crc32_update c [] = c"
  by (simp add: calc_crc32_update_def)

lemma calc_crc32_update_Cons [simp]:
  "calc_crc32_update c (b # bs) = calc_crc32_update (crc32_step c b) bs"
  by (simp add: calc_crc32_update_def)

lemma calc_crc32_update_append:
  "calc_crc32_update c (xs @ ys) = calc_crc32_update (calc_crc32_update c xs) ys"
  by (simp add: calc_crc32_update_def)

section \<open>Injectivity: a changed byte changes the checksum\<close>

lemma xor_left_cancel: "a XOR b = a XOR c \<longleftrightarrow> b = c" for a b c :: "'a::len word"
proof
  assume "a XOR b = a XOR c"
  then have "a XOR (a XOR b) = a XOR (a XOR c)" by simp
  then show "b = c" by (simp flip: xor.assoc)
qed simp

lemma xor_right_cancel: "b XOR a = c XOR a \<longleftrightarrow> b = c" for a b c :: "'a::len word"
  by (simp only: xor.commute [of _ a] xor_left_cancel)

lemma crc32_bit_step_inj: "inj crc32_bit_step"
proof (rule injI)
  fix a b :: u32
  assume eq: "crc32_bit_step a = crc32_bit_step b"
  have odd: "(v AND 1 \<noteq> 0) = bit v 0" for v :: u32
    by (simp add: and_one_eq bit_0 odd_iff_mod_2_eq_one)
  have top: "bit (crc32_bit_step v) 31 = bit v 0" for v
    by (auto simp: crc32_bit_step_def odd bit_simps crc32_polynomial_def dest: bit_imp_le_length)
  from eq top have b0: "bit a 0 = bit b 0" by metis
  with eq have "drop_bit 1 a = drop_bit 1 b"
    by (auto simp: crc32_bit_step_def odd xor_right_cancel split: if_splits)
  then have "bit a (Suc i) = bit b (Suc i)" for i
    by (metis bit_drop_bit_eq comp_apply plus_1_eq_Suc)
  with b0 have "bit a i = bit b i" for i
    by (cases i) auto
  then show "a = b" by (intro bit_word_eqI) auto
qed

lemma crc32_bit_steps_inj: "inj (crc32_bit_step ^^ n)"
  by (rule inj_fn) (rule crc32_bit_step_inj)

lemma crc32_step_inj_crc: "crc32_step c b = crc32_step c' b \<longleftrightarrow> c = c'"
proof -
  have "c XOR ucast b = c' XOR ucast b \<longleftrightarrow> c = c'"
    by (rule xor_right_cancel)
  then show ?thesis
    by (simp only: crc32_step_bitwise inj_eq [OF crc32_bit_steps_inj])
qed

lemma crc32_step_inj_byte: "crc32_step c b = crc32_step c b' \<longleftrightarrow> b = b'"
proof -
  have "c XOR ucast b = c XOR ucast b' \<longleftrightarrow> (ucast b :: u32) = ucast b'"
    by (rule xor_left_cancel)
  also have "\<dots> \<longleftrightarrow> b = b'"
  proof
    assume eq: "(ucast b :: u32) = ucast b'"
    show "b = b'"
    proof (rule bit_word_eqI)
      fix i assume "i < LENGTH(8)"
      then show "bit b i = bit b' i"
        using arg_cong [OF eq, of "\<lambda>w. bit w i"] by (simp add: bit_simps)
    qed
  qed simp
  finally show ?thesis
    by (simp only: crc32_step_bitwise inj_eq [OF crc32_bit_steps_inj])
qed

lemma calc_crc32_update_inj: "calc_crc32_update c bs = calc_crc32_update c' bs \<longleftrightarrow> c = c'"
  by (induction bs arbitrary: c c') (simp_all add: crc32_step_inj_crc)

lemma calc_crc32_update_single:
  "calc_crc32_update c (xs @ b # ys) = calc_crc32_update c (xs @ b' # ys) \<longleftrightarrow> b = b'"
  by (simp add: calc_crc32_update_append calc_crc32_update_inj crc32_step_inj_byte)

text \<open>A record checksum ignores the content of its own field, and nothing else.\<close>

lemma calc_record_crc_append:
  "calc_record_crc b len off =
     NOT (calc_crc32_update (- 1) (get b 0 off @ zeroes 4 @ get b (off + 4) (len - (off + 4))))"
  by (simp add: calc_record_crc_def calc_crc32_update_append Let_def)

lemma calc_record_crc_put [buffer_simps]:
  "length xs = 4 \<Longrightarrow> calc_record_crc (put b off xs) len off = calc_record_crc b len off"
  by (simp add: calc_record_crc_def buffer_simps)

lemma calc_file_prefix_crc_put [buffer_simps]:
  "24 \<le> off \<Longrightarrow> calc_file_prefix_crc (put b off xs) = calc_file_prefix_crc b"
  by (simp add: calc_file_prefix_crc_def buffer_simps)

lemma calc_record_crc_local:
  "get b 0 len = get b' 0 len \<Longrightarrow> off + 4 \<le> len \<Longrightarrow> calc_record_crc b len off = calc_record_crc b' len off"
proof -
  assume eq: "get b 0 len = get b' 0 len" and le: "off + 4 \<le> len"
  have "get b i m = get b' i m" if "i + m \<le> len" for i m
    using that arg_cong [OF eq, of "\<lambda>x. get x i m"] by (simp add: get_get)
  with le show ?thesis by (simp add: calc_record_crc_def)
qed

end
