(* ===== verification/Format_Defs.thy ===== *)
theory Format_Defs
  imports Crc32
begin

text \<open>
  The constants of \<open>on9kvdb_defs.hpp\<close>, the Kconfig options the sources are compiled with
  (\<open>CONFIG_ON9KVDB_*\<close>, one record that every operation depending on them takes), the status
  codes of the decoders and the two pure size predicates. Sizes and offsets within a record are
  natural numbers; magics, revisions, states and flags have the width of the field they are
  stored in.
\<close>

section \<open>Build configuration\<close>

record config =
  cfg_max_live_data_size :: u32
  cfg_provisioned_database_size :: u32
  cfg_wal_file_size :: u32
  cfg_sstable_file_size :: u32
  cfg_sstable_count :: u32
  cfg_sstable_block_size :: u32
  cfg_value_bank_size :: u32
  cfg_inline_value_size :: u32
  cfg_max_value_readers :: u32
  cfg_max_namespaces :: u32
  cfg_max_open_handles :: u32
  cfg_memtable_entry_count :: u32
  cfg_memtable_data_size :: u32
  cfg_transaction_staging_size :: u32
  cfg_max_transaction_mutations :: u32

text \<open>The configuration of the host tests (\<open>tests/host_stubs/sdkconfig.h\<close>), used by witnesses.\<close>

definition host_config :: config where
  "host_config = \<lparr>
     cfg_max_live_data_size = 65536,
     cfg_provisioned_database_size = 1155072,
     cfg_wal_file_size = 65536,
     cfg_sstable_file_size = 118784,
     cfg_sstable_count = 4,
     cfg_sstable_block_size = 16384,
     cfg_value_bank_size = 270336,
     cfg_inline_value_size = 1024,
     cfg_max_value_readers = 2,
     cfg_max_namespaces = 8,
     cfg_max_open_handles = 4,
     cfg_memtable_entry_count = 16,
     cfg_memtable_data_size = 8192,
     cfg_transaction_staging_size = 8192,
     cfg_max_transaction_mutations = 10\<rparr>"

section \<open>Format constants\<close>

definition max_name_len :: nat where [format_consts]: "max_name_len = 128"
definition max_value_len :: u32 where [format_consts]: "max_value_len = - 1 - 1"
definition max_transaction_mutations :: nat where [format_consts]: "max_transaction_mutations = 10"
definition max_storage_object_size :: u64 where [format_consts]: "max_storage_object_size = 0xFFFFFFFF"
definition format_alignment :: nat where [format_consts]: "format_alignment = 4096"
definition manifest_slot_size :: nat where [format_consts]: "manifest_slot_size = format_alignment"
definition manifest_slot_count :: nat where [format_consts]: "manifest_slot_count = 2"
definition manifest_file_size :: nat where
  [format_consts]: "manifest_file_size = manifest_slot_size * manifest_slot_count"
definition identity_slot_size :: nat where [format_consts]: "identity_slot_size = format_alignment"
definition identity_slot_count :: nat where [format_consts]: "identity_slot_count = 2"
definition identity_region_size :: nat where
  [format_consts]: "identity_region_size = identity_slot_size * identity_slot_count"
definition wal_file_count :: nat where [format_consts]: "wal_file_count = 2"
definition value_bank_count :: nat where [format_consts]: "value_bank_count = 2"
definition wal_header_slot_size :: nat where [format_consts]: "wal_header_slot_size = format_alignment"
definition wal_header_slot_count :: nat where [format_consts]: "wal_header_slot_count = 2"
definition wal_header_region_offset :: nat where
  [format_consts]: "wal_header_region_offset = identity_region_size"
definition wal_header_region_size :: nat where
  [format_consts]: "wal_header_region_size = wal_header_slot_size * wal_header_slot_count"
definition wal_record_region_offset :: nat where
  [format_consts]: "wal_record_region_offset = wal_header_region_offset + wal_header_region_size"
definition wal_frame_size :: nat where [format_consts]: "wal_frame_size = format_alignment"
definition wal_frame_header_size :: nat where [format_consts]: "wal_frame_header_size = 64"
definition wal_frame_payload_capacity :: nat where
  [format_consts]: "wal_frame_payload_capacity = wal_frame_size - wal_frame_header_size"
definition max_table_count :: nat where [format_consts]: "max_table_count = 16"
definition table_header_slot_size :: nat where [format_consts]: "table_header_slot_size = format_alignment"
definition table_header_slot_count :: nat where [format_consts]: "table_header_slot_count = 2"
definition table_header_region_offset :: nat where
  [format_consts]: "table_header_region_offset = identity_region_size"
definition table_header_region_size :: nat where
  [format_consts]: "table_header_region_size = table_header_slot_size * table_header_slot_count"
definition table_data_region_offset :: nat where
  [format_consts]: "table_data_region_offset = table_header_region_offset + table_header_region_size"
definition table_footer_slot_size :: nat where [format_consts]: "table_footer_slot_size = format_alignment"
definition table_block_header_size :: nat where [format_consts]: "table_block_header_size = 64"
definition table_index_header_size :: nat where [format_consts]: "table_index_header_size = 64"
definition table_entry_header_size :: nat where [format_consts]: "table_entry_header_size = 24"
definition value_ref_encoded_size :: nat where [format_consts]: "value_ref_encoded_size = 24"
definition table_index_entry_header_size :: nat where
  [format_consts]: "table_index_entry_header_size = 16"
definition value_chunk_size :: nat where [format_consts]: "value_chunk_size = format_alignment"
definition value_chunk_header_size :: nat where [format_consts]: "value_chunk_header_size = 64"
definition value_chunk_payload_size :: nat where
  [format_consts]: "value_chunk_payload_size = value_chunk_size - value_chunk_header_size"

definition storage_revision :: u16 where [format_consts]: "storage_revision = 7"
definition geometry_revision :: u16 where [format_consts]: "geometry_revision = 2"
definition logical_limits_revision :: u16 where [format_consts]: "logical_limits_revision = 3"
definition wal_header_revision :: u16 where [format_consts]: "wal_header_revision = 1"
definition wal_frame_revision :: u16 where [format_consts]: "wal_frame_revision = 1"
definition table_header_revision :: u16 where [format_consts]: "table_header_revision = 1"
definition table_block_revision :: u16 where [format_consts]: "table_block_revision = 1"
definition table_index_revision :: u16 where [format_consts]: "table_index_revision = 1"
definition table_footer_revision :: u16 where [format_consts]: "table_footer_revision = 1"
definition value_chunk_revision :: u16 where [format_consts]: "value_chunk_revision = 1"
definition manifest_magic :: u32 where [format_consts]: "manifest_magic = 0x394d564b"
definition wal_magic :: u32 where [format_consts]: "wal_magic = 0x3957564b"
definition table_magic :: u32 where [format_consts]: "table_magic = 0x3954564b"
definition wal_header_magic :: u32 where [format_consts]: "wal_header_magic = 0x3948574b"
definition wal_frame_magic :: u32 where [format_consts]: "wal_frame_magic = 0x3946574b"
definition table_header_magic :: u32 where [format_consts]: "table_header_magic = 0x3948544b"
definition table_block_magic :: u32 where [format_consts]: "table_block_magic = 0x3942544b"
definition table_index_magic :: u32 where [format_consts]: "table_index_magic = 0x3949544b"
definition table_footer_magic :: u32 where [format_consts]: "table_footer_magic = 0x3946544b"
definition value_bank_magic :: u32 where [format_consts]: "value_bank_magic = 0x3956424b"
definition value_chunk_magic :: u32 where [format_consts]: "value_chunk_magic = 0x3956434b"
definition manifest_state_provisioning_owned :: u16 where
  [format_consts]: "manifest_state_provisioning_owned = 0x7001"
definition manifest_state_ready :: u16 where [format_consts]: "manifest_state_ready = 0x7002"
definition file_prefix_flag_identity :: u16 where [format_consts]: "file_prefix_flag_identity = 1"
definition wal_header_state_active :: u16 where [format_consts]: "wal_header_state_active = 0x7101"
definition wal_frame_flag_commit :: u16 where [format_consts]: "wal_frame_flag_commit = 1"
definition table_reference_flag_active :: u8 where [format_consts]: "table_reference_flag_active = 1"
definition table_entry_flag_tombstone :: u8 where [format_consts]: "table_entry_flag_tombstone = 1"
definition table_entry_flag_external_value :: u8 where
  [format_consts]: "table_entry_flag_external_value = 2"
definition value_chunk_flag_final :: u16 where [format_consts]: "value_chunk_flag_final = 1"
definition memtable_flag_tombstone :: u8 where [format_consts]: "memtable_flag_tombstone = 1"
definition memtable_flag_external_value :: u8 where [format_consts]: "memtable_flag_external_value = 2"
definition mutation_kind_set :: u8 where [format_consts]: "mutation_kind_set = 1"
definition mutation_kind_tombstone :: u8 where [format_consts]: "mutation_kind_tombstone = 2"

definition manifest_table_reference_size :: nat where
  [format_consts]: "manifest_table_reference_size = 56"
definition manifest_table_reference_offset :: nat where
  [format_consts]: "manifest_table_reference_offset = 224"
definition manifest_record_size :: nat where [format_consts]: "manifest_record_size = manifest_slot_size"
definition manifest_record_checksum_offset :: nat where
  [format_consts]: "manifest_record_checksum_offset = manifest_record_size - 4"
definition file_identity_size :: nat where [format_consts]: "file_identity_size = 56"
definition file_identity_checksum_offset :: nat where
  [format_consts]: "file_identity_checksum_offset = 52"
definition wal_header_size :: nat where [format_consts]: "wal_header_size = 64"
definition wal_header_checksum_offset :: nat where [format_consts]: "wal_header_checksum_offset = 60"
definition wal_frame_checksum_offset :: nat where [format_consts]: "wal_frame_checksum_offset = 60"
definition table_metadata_size :: nat where [format_consts]: "table_metadata_size = 640"
definition table_metadata_checksum_offset :: nat where
  [format_consts]: "table_metadata_checksum_offset = 636"
definition table_block_checksum_offset :: nat where [format_consts]: "table_block_checksum_offset = 60"
definition table_index_checksum_offset :: nat where [format_consts]: "table_index_checksum_offset = 60"

definition file_prefix_size :: nat where [format_consts]: "file_prefix_size = 28"
definition file_prefix_checksum_offset :: nat where [format_consts]: "file_prefix_checksum_offset = 24"

section \<open>Kinds and statuses\<close>

datatype file_kind = kind_invalid | kind_manifest | kind_wal | kind_table | kind_value_bank

fun file_kind_code :: "file_kind \<Rightarrow> u16" where
  "file_kind_code kind_invalid = 0"
| "file_kind_code kind_manifest = 1"
| "file_kind_code kind_wal = 2"
| "file_kind_code kind_table = 3"
| "file_kind_code kind_value_bank = 4"

text \<open>The failures of a decoder; \<open>format_status::ok\<close> is the \<open>Inr\<close> side of its result.\<close>

datatype format_status =
    FS_invalid_argument
  | FS_invalid_size
  | FS_invalid_magic
  | FS_invalid_revision
  | FS_new_version
  | FS_invalid_kind
  | FS_invalid_generation
  | FS_corrupt

fun magic_for_kind :: "file_kind \<Rightarrow> u32" where
  "magic_for_kind kind_manifest = manifest_magic"
| "magic_for_kind kind_wal = wal_magic"
| "magic_for_kind kind_table = table_magic"
| "magic_for_kind kind_value_bank = value_bank_magic"
| "magic_for_kind kind_invalid = 0"

definition validate_bytes :: "bytes \<Rightarrow> nat \<Rightarrow> bool" where
  "validate_bytes data maximum_size \<longleftrightarrow> length data > 0 \<and> length data \<le> maximum_size"

text \<open>A name (namespace or key) of the public API: 1 to 128 bytes.\<close>

definition valid_name :: "bytes \<Rightarrow> bool" where
  "valid_name name \<longleftrightarrow> validate_bytes name max_name_len"

lemma valid_name_length: "valid_name n \<longleftrightarrow> 0 < length n \<and> length n \<le> 128"
  by (auto simp: valid_name_def validate_bytes_def format_consts)

text \<open>Record decoders read all their fields first and fail with \<open>invalid_size\<close> if one does not fit.\<close>

definition decoded_or :: "format_status \<Rightarrow> 'a option \<Rightarrow> ('a \<Rightarrow> format_status + 'b) \<Rightarrow> format_status + 'b" where
  "decoded_or e m f = (case m of None \<Rightarrow> Inl e | Some x \<Rightarrow> f x)"

lemma decoded_or_simps [simp]:
  "decoded_or e None f = Inl e"
  "decoded_or e (Some x) f = f x"
  by (simp_all add: decoded_or_def)

lemma decoded_or_Inr:
  "decoded_or e m f = Inr y \<longleftrightarrow> (\<exists>x. m = Some x \<and> f x = Inr y)"
  by (cases m) auto

definition check :: "bool \<Rightarrow> format_status \<Rightarrow> format_status + 'a \<Rightarrow> format_status + 'a" where
  "check failed e k = (if failed then Inl e else k)"

lemma check_simps [simp]:
  "check False e k = k"
  "check True e k = Inl e"
  by (simp_all add: check_def)

lemma check_Inr [simp]: "check p e k = Inr x \<longleftrightarrow> \<not> p \<and> k = Inr x"
  by (simp add: check_def)

end
