(* ===== verification/File_Format.thy ===== *)
theory File_Format
  imports Format_Defs
begin

text \<open>
  The common file prefix and the file identity record of \<open>on9kvdb_format.cpp\<close>. Every encoder of
  the format follows one pattern, kept here: validate the record, zero its image, write each field
  at its offset, checksum the image and write the checksum; every decoder reads the fields,
  compares the checksum, and then checks magic, revision and content, in the order of the source.
\<close>

section \<open>File prefix\<close>

record decoded_file_prefix =
  fp_magic :: u32
  fp_revision :: u16
  fp_kind :: file_kind
  fp_flags :: u16
  fp_generation :: u64
  fp_payload_size :: u32
  fp_checksum :: u32

definition encode_file_prefix ::
  "bytes \<Rightarrow> u32 \<Rightarrow> file_kind \<Rightarrow> u16 \<Rightarrow> u64 \<Rightarrow> u32 \<Rightarrow> bytes option" where
  "encode_file_prefix buf magic kind flags generation payload_size =
     (if length buf < file_prefix_size \<or> magic = 0 \<or> kind = kind_invalid \<or> generation = 0 then None
      else do {
        buf \<leftarrow> Some (put buf 0 (zeroes file_prefix_size));
        buf \<leftarrow> write_u32_le buf 0 magic;
        buf \<leftarrow> write_u16_le buf 4 storage_revision;
        buf \<leftarrow> write_u16_le buf 6 (of_nat file_prefix_size);
        buf \<leftarrow> write_u16_le buf 8 (file_kind_code kind);
        buf \<leftarrow> write_u16_le buf 10 flags;
        buf \<leftarrow> write_u64_le buf 12 generation;
        buf \<leftarrow> write_u32_le buf 20 payload_size;
        write_u32_le buf file_prefix_checksum_offset (calc_file_prefix_crc buf) })"

definition decode_file_prefix ::
  "bytes \<Rightarrow> u32 \<Rightarrow> file_kind \<Rightarrow> format_status + decoded_file_prefix" where
  "decode_file_prefix buf expected_magic expected_kind =
     check (expected_magic = 0 \<or> expected_kind = kind_invalid) FS_invalid_argument
    (check (length buf < file_prefix_size) FS_invalid_size
    (decoded_or FS_invalid_size (do {
        magic \<leftarrow> read_u32_le buf 0;
        revision \<leftarrow> read_u16_le buf 4;
        size \<leftarrow> read_u16_le buf 6;
        kind_raw \<leftarrow> read_u16_le buf 8;
        flags \<leftarrow> read_u16_le buf 10;
        generation \<leftarrow> read_u64_le buf 12;
        payload_size \<leftarrow> read_u32_le buf 20;
        checksum \<leftarrow> read_u32_le buf file_prefix_checksum_offset;
        Some (magic, revision, size, kind_raw, flags, generation, payload_size, checksum) })
     (\<lambda>(magic, revision, size, kind_raw, flags, generation, payload_size, checksum).
       check (checksum \<noteq> calc_file_prefix_crc buf) FS_corrupt
      (check (magic \<noteq> expected_magic) FS_invalid_magic
      (check (revision > storage_revision) FS_new_version
      (check (revision \<noteq> storage_revision) FS_invalid_revision
      (check (unat size \<noteq> file_prefix_size) FS_invalid_size
      (check (kind_raw \<noteq> file_kind_code expected_kind) FS_invalid_kind
      (check (generation = 0) FS_invalid_generation
      (Inr \<lparr>fp_magic = magic, fp_revision = revision, fp_kind = expected_kind, fp_flags = flags,
            fp_generation = generation, fp_payload_size = payload_size,
            fp_checksum = checksum\<rparr>))))))))))"

lemma decode_file_prefix_cong:
  assumes "get b 0 28 = get b' 0 28" "length b = length b'"
  shows "decode_file_prefix b m k = decode_file_prefix b' m k"
proof -
  have sub: "get b i n = get b' i n" if "i + n \<le> 28" for i n
    using arg_cong [OF assms(1), of "\<lambda>x. get x i n"] that by (simp add: get_get)
  show ?thesis
  proof (cases "28 \<le> length b'")
    case True
    then show ?thesis
      using assms(2)
      by (simp add: decode_file_prefix_def format_consts buffer_simps calc_file_prefix_crc_def sub)
  next
    case False
    then show ?thesis
      using assms(2) by (simp add: decode_file_prefix_def format_consts check_def)
  qed
qed

lemma decode_file_prefix_put [buffer_simps]:
  "28 \<le> off \<Longrightarrow> decode_file_prefix (put b off xs) m k = decode_file_prefix b m k"
  by (rule decode_file_prefix_cong) (simp_all add: buffer_simps)

definition decoded_prefix_of :: "u32 \<Rightarrow> file_kind \<Rightarrow> u16 \<Rightarrow> u64 \<Rightarrow> u32 \<Rightarrow> decoded_file_prefix \<Rightarrow> bool" where
  "decoded_prefix_of magic kind flags generation payload_size p \<longleftrightarrow>
     fp_magic p = magic \<and> fp_kind p = kind \<and> fp_flags p = flags \<and>
     fp_generation p = generation \<and> fp_payload_size p = payload_size"

lemma encode_file_prefix_ok:
  assumes "28 \<le> length buf" "magic \<noteq> 0" "kind \<noteq> kind_invalid" "generation \<noteq> 0"
  obtains b p where "encode_file_prefix buf magic kind flags generation payload_size = Some b"
    "length b = length buf" "decode_file_prefix b magic kind = Inr p"
    "decoded_prefix_of magic kind flags generation payload_size p"
    "\<And>i n. 28 \<le> i \<Longrightarrow> get b i n = get buf i n"
    "\<And>i. 28 \<le> i \<Longrightarrow> b ! i = buf ! i"
proof -
  obtain b where b: "encode_file_prefix buf magic kind flags generation payload_size = Some b"
    using assms by (simp add: encode_file_prefix_def format_consts buffer_simps)
  moreover from b assms have "length b = length buf" "\<And>i n. 28 \<le> i \<Longrightarrow> get b i n = get buf i n"
    "\<And>i. 28 \<le> i \<Longrightarrow> b ! i = buf ! i"
    by (auto simp: encode_file_prefix_def format_consts buffer_simps)
  moreover from b assms obtain p where "decode_file_prefix b magic kind = Inr p"
    "decoded_prefix_of magic kind flags generation payload_size p"
    by (auto simp: encode_file_prefix_def decode_file_prefix_def format_consts buffer_simps
        decoded_prefix_of_def)
  ultimately show thesis using that by blast
qed

lemma decode_file_prefix_InrD:
  assumes "decode_file_prefix b m k = Inr p"
  shows "fp_magic p = m" "fp_kind p = k" "fp_generation p \<noteq> 0" "28 \<le> length b"
    "le_value (get b 0 4) = m" "le_value (get b 8 2) = file_kind_code k"
    "le_value (get b 24 4) = calc_file_prefix_crc b"
  using assms by (auto simp: decode_file_prefix_def decoded_or_Inr format_consts buffer_simps)

section \<open>File identity\<close>

record file_identity =
  fi_generation :: u64
  fi_database_id :: u64
  fi_file_size :: u64
  fi_slot :: u32
  fi_kind :: file_kind

definition encode_file_identity :: "bytes \<Rightarrow> file_identity \<Rightarrow> bytes option" where
  "encode_file_identity buf identity =
     (let magic = magic_for_kind (fi_kind identity) in
      if length buf < file_identity_size \<or> magic = 0 \<or> fi_kind identity = kind_manifest \<or>
         fi_generation identity = 0 \<or> fi_database_id identity = 0 \<or>
         unat (fi_file_size identity) \<le> identity_region_size \<or>
         fi_file_size identity > max_storage_object_size \<or>
         unat (fi_file_size identity) mod format_alignment \<noteq> 0 then None
      else do {
        buf \<leftarrow> Some (put buf 0 (zeroes file_identity_size));
        buf \<leftarrow> encode_file_prefix buf magic (fi_kind identity) file_prefix_flag_identity
                 (fi_generation identity) (of_nat (file_identity_size - file_prefix_size));
        buf \<leftarrow> write_u64_le buf 28 (fi_database_id identity);
        buf \<leftarrow> write_u64_le buf 36 (fi_file_size identity);
        buf \<leftarrow> write_u32_le buf 44 (fi_slot identity);
        write_u32_le buf file_identity_checksum_offset
          (calc_record_crc buf file_identity_size file_identity_checksum_offset) })"

definition decode_file_identity :: "bytes \<Rightarrow> file_kind \<Rightarrow> format_status + file_identity" where
  "decode_file_identity buf expected_kind =
     (let magic = magic_for_kind expected_kind in
      check (magic = 0 \<or> expected_kind = kind_manifest) FS_invalid_argument
     (check (length buf < file_identity_size) FS_invalid_size
     (case decode_file_prefix buf magic expected_kind of
        Inl e \<Rightarrow> Inl e
      | Inr prefix \<Rightarrow>
        check (fp_flags prefix \<noteq> file_prefix_flag_identity \<or>
               unat (fp_payload_size prefix) \<noteq> file_identity_size - file_prefix_size) FS_corrupt
       (decoded_or FS_invalid_size (do {
          database_id \<leftarrow> read_u64_le buf 28;
          file_size \<leftarrow> read_u64_le buf 36;
          slot \<leftarrow> read_u32_le buf 44;
          checksum \<leftarrow> read_u32_le buf file_identity_checksum_offset;
          Some (\<lparr>fi_generation = fp_generation prefix, fi_database_id = database_id,
                 fi_file_size = file_size, fi_slot = slot, fi_kind = expected_kind\<rparr>, checksum) })
        (\<lambda>(identity, checksum).
          check (fi_database_id identity = 0 \<or>
                 unat (fi_file_size identity) \<le> identity_region_size \<or>
                 fi_file_size identity > max_storage_object_size \<or>
                 unat (fi_file_size identity) mod format_alignment \<noteq> 0 \<or>
                 \<not> is_zero_range buf 48 4) FS_corrupt
         (check (checksum \<noteq> calc_record_crc buf file_identity_size file_identity_checksum_offset)
            FS_corrupt
         (Inr identity)))))))"

definition valid_file_identity :: "file_identity \<Rightarrow> bool" where
  "valid_file_identity i \<longleftrightarrow>
     fi_kind i \<in> {kind_wal, kind_table, kind_value_bank} \<and>
     fi_generation i \<noteq> 0 \<and> fi_database_id i \<noteq> 0 \<and> 8192 < unat (fi_file_size i) \<and>
     fi_file_size i \<le> 0xFFFFFFFF \<and> 4096 dvd unat (fi_file_size i)"

lemma data_kind_magic: "k \<in> {kind_wal, kind_table, kind_value_bank} \<Longrightarrow> magic_for_kind k \<noteq> 0"
  by (auto simp: format_consts)

lemma file_identity_roundtrip:
  assumes "valid_file_identity i" "56 \<le> length buf"
  shows "\<exists>b. encode_file_identity buf i = Some b \<and> length b = length buf \<and>
             decode_file_identity b (fi_kind i) = Inr i"
proof -
  from assms(1) have kind: "fi_kind i \<noteq> kind_invalid" "fi_kind i \<noteq> kind_manifest"
    by (auto simp: valid_file_identity_def)
  have magic: "magic_for_kind (fi_kind i) \<noteq> 0"
    using assms(1) by (intro data_kind_magic) (simp add: valid_file_identity_def)
  have fs: "unat (fi_file_size i) \<noteq> 0" "\<not> unat (fi_file_size i) \<le> 8192"
    "unat (fi_file_size i) mod 4096 = 0"
    using assms(1) by (auto simp: valid_file_identity_def)
  let ?z = "put buf 0 (zeroes 56)"
  have z: "28 \<le> length ?z" and gen: "fi_generation i \<noteq> 0"
    using assms by (auto simp: valid_file_identity_def)
  obtain b p where b: "encode_file_prefix ?z (magic_for_kind (fi_kind i)) (fi_kind i) 1
        (fi_generation i) 28 = Some b" "length b = length ?z"
      "decode_file_prefix b (magic_for_kind (fi_kind i)) (fi_kind i) = Inr p"
      "decoded_prefix_of (magic_for_kind (fi_kind i)) (fi_kind i) 1 (fi_generation i) 28 p"
      "\<And>i n. 28 \<le> i \<Longrightarrow> get b i n = get ?z i n" "\<And>i. 28 \<le> i \<Longrightarrow> b ! i = ?z ! i"
    by (rule encode_file_prefix_ok [OF z magic kind(1) gen]) (rule that)
  show ?thesis
    using assms kind magic fs b
    by (cases i) (simp add: encode_file_identity_def decode_file_identity_def format_consts buffer_simps
        valid_file_identity_def decoded_prefix_of_def is_zero_range_get not_le not_less Let_def)
qed

lemma decode_file_identity_InrD:
  assumes "decode_file_identity b k = Inr i"
  shows "valid_file_identity i" "fi_kind i = k" "56 \<le> length b"
proof -
  from assms show "fi_kind i = k" "56 \<le> length b"
    by (auto simp: decode_file_identity_def decoded_or_Inr format_consts buffer_simps Let_def
        split: sum.splits)
  from assms show "valid_file_identity i"
    by (cases k) (auto simp: decode_file_identity_def decoded_or_Inr format_consts buffer_simps
        valid_file_identity_def mod_eq_0_iff_dvd not_le not_less Let_def
        dest: decode_file_prefix_InrD split: sum.splits)
qed

end
