(* ===== verification/Wal_Format.thy ===== *)
theory Wal_Format
  imports File_Format
begin

text \<open>
  The two records of the write-ahead log in \<open>on9kvdb_format.cpp\<close>: the WAL header (kept twice at
  the start of a WAL slot) and the 4096-byte WAL frame that carries a part of a transaction.
\<close>

section \<open>WAL header\<close>

record wal_header =
  wh_database_id :: u64
  wh_generation :: u64
  wh_first_transaction_sequence :: u64
  wh_slot :: u32
  wh_record_region_start :: u32
  wh_record_region_end :: u32
  wh_frame_size :: u32
  wh_state :: u16

text \<open>The content check, written out identically in the encoder and the decoder of the source.\<close>

definition wal_header_invalid :: "wal_header \<Rightarrow> bool" where
  "wal_header_invalid h \<longleftrightarrow>
     wh_database_id h = 0 \<or> wh_generation h = 0 \<or> wh_first_transaction_sequence h = 0 \<or>
     unat (wh_slot h) \<ge> wal_file_count \<or> wh_state h \<noteq> wal_header_state_active \<or>
     unat (wh_record_region_start h) \<noteq> wal_record_region_offset \<or>
     wh_record_region_end h \<le> wh_record_region_start h \<or>
     unat (wh_record_region_end h) mod wal_frame_size \<noteq> 0 \<or>
     unat (wh_frame_size h) \<noteq> wal_frame_size"

definition encode_wal_header :: "bytes \<Rightarrow> wal_header \<Rightarrow> bytes option" where
  "encode_wal_header buf header =
     (if length buf < wal_header_size \<or> wal_header_invalid header then None
      else do {
        buf \<leftarrow> Some (put buf 0 (zeroes wal_header_size));
        buf \<leftarrow> write_u32_le buf 0 wal_header_magic;
        buf \<leftarrow> write_u16_le buf 4 wal_header_revision;
        buf \<leftarrow> write_u16_le buf 6 (of_nat wal_header_size);
        buf \<leftarrow> write_u64_le buf 8 (wh_database_id header);
        buf \<leftarrow> write_u32_le buf 16 (wh_slot header);
        buf \<leftarrow> write_u16_le buf 20 (wh_state header);
        buf \<leftarrow> write_u64_le buf 24 (wh_generation header);
        buf \<leftarrow> write_u32_le buf 32 (wh_record_region_start header);
        buf \<leftarrow> write_u32_le buf 36 (wh_record_region_end header);
        buf \<leftarrow> write_u32_le buf 40 (wh_frame_size header);
        buf \<leftarrow> write_u64_le buf 48 (wh_first_transaction_sequence header);
        write_u32_le buf wal_header_checksum_offset
          (calc_record_crc buf wal_header_size wal_header_checksum_offset) })"

definition decode_wal_header :: "bytes \<Rightarrow> format_status + wal_header" where
  "decode_wal_header buf =
     check (length buf < wal_header_size) FS_invalid_size
    (decoded_or FS_invalid_size (do {
        magic \<leftarrow> read_u32_le buf 0;
        revision \<leftarrow> read_u16_le buf 4;
        size \<leftarrow> read_u16_le buf 6;
        database_id \<leftarrow> read_u64_le buf 8;
        slot \<leftarrow> read_u32_le buf 16;
        state \<leftarrow> read_u16_le buf 20;
        reserved16 \<leftarrow> read_u16_le buf 22;
        generation \<leftarrow> read_u64_le buf 24;
        record_region_start \<leftarrow> read_u32_le buf 32;
        record_region_end \<leftarrow> read_u32_le buf 36;
        frame_size \<leftarrow> read_u32_le buf 40;
        first_transaction_sequence \<leftarrow> read_u64_le buf 48;
        checksum \<leftarrow> read_u32_le buf wal_header_checksum_offset;
        Some (\<lparr>wh_database_id = database_id, wh_generation = generation,
               wh_first_transaction_sequence = first_transaction_sequence, wh_slot = slot,
               wh_record_region_start = record_region_start,
               wh_record_region_end = record_region_end, wh_frame_size = frame_size,
               wh_state = state\<rparr>, magic, revision, size, reserved16, checksum) })
     (\<lambda>(header, magic, revision, size, reserved16, checksum).
       check (checksum \<noteq> calc_record_crc buf wal_header_size wal_header_checksum_offset) FS_corrupt
      (check (magic \<noteq> wal_header_magic) FS_invalid_magic
      (check (revision > wal_header_revision) FS_new_version
      (check (revision \<noteq> wal_header_revision) FS_invalid_revision
      (check (unat size \<noteq> wal_header_size) FS_invalid_size
      (check (wal_header_invalid header \<or> reserved16 \<noteq> 0 \<or>
              \<not> is_zero_range buf 44 4 \<or> \<not> is_zero_range buf 56 4) FS_corrupt
      (Inr header))))))))"

definition wal_header_equal :: "wal_header \<Rightarrow> wal_header \<Rightarrow> bool" where
  "wal_header_equal lhs rhs \<longleftrightarrow>
     wh_database_id lhs = wh_database_id rhs \<and> wh_generation lhs = wh_generation rhs \<and>
     wh_first_transaction_sequence lhs = wh_first_transaction_sequence rhs \<and>
     wh_slot lhs = wh_slot rhs \<and>
     wh_record_region_start lhs = wh_record_region_start rhs \<and>
     wh_record_region_end lhs = wh_record_region_end rhs \<and>
     wh_frame_size lhs = wh_frame_size rhs \<and> wh_state lhs = wh_state rhs"

lemma wal_header_equal_iff: "wal_header_equal a b \<longleftrightarrow> a = (b :: wal_header)"
  by (cases a, cases b) (auto simp: wal_header_equal_def)

lemma wal_header_roundtrip:
  assumes "\<not> wal_header_invalid h" "64 \<le> length buf"
  shows "\<exists>b. encode_wal_header buf h = Some b \<and> length b = length buf \<and> decode_wal_header b = Inr h"
  using assms
  by (cases h) (simp add: encode_wal_header_def decode_wal_header_def format_consts buffer_simps
      is_zero_range_get)

lemma decode_wal_header_InrD:
  assumes "decode_wal_header b = Inr h"
  shows "\<not> wal_header_invalid h"
  using assms by (auto simp: decode_wal_header_def decoded_or_Inr)

section \<open>WAL frame\<close>

record wal_frame_header =
  wf_database_id :: u64
  wf_wal_generation :: u64
  wf_transaction_sequence :: u64
  wf_frame_index :: u16
  wf_frame_count :: u16
  wf_mutation_count :: u16
  wf_flags :: u16
  wf_payload_size :: u32
  wf_transaction_payload_size :: u32
  wf_transaction_checksum :: u32
  wf_payload_checksum :: u32

definition wal_final_frame :: "wal_frame_header \<Rightarrow> bool" where
  "wal_final_frame h \<longleftrightarrow>
     wf_frame_count h > 0 \<and> unat (wf_frame_index h) + 1 = unat (wf_frame_count h)"

text \<open>The content check shared by the encoder and the decoder of the source.\<close>

definition wal_frame_invalid :: "wal_frame_header \<Rightarrow> bool" where
  "wal_frame_invalid h \<longleftrightarrow>
     wf_database_id h = 0 \<or> wf_wal_generation h = 0 \<or> wf_transaction_sequence h = 0 \<or>
     wf_frame_count h = 0 \<or> wf_frame_index h \<ge> wf_frame_count h \<or> wf_mutation_count h = 0 \<or>
     unat (wf_mutation_count h) > max_transaction_mutations \<or>
     wf_transaction_payload_size h = 0 \<or>
     wf_payload_size h > wf_transaction_payload_size h \<or>
     wf_flags h AND NOT wal_frame_flag_commit \<noteq> 0 \<or>
     wal_final_frame h \<noteq> (wf_flags h AND wal_frame_flag_commit \<noteq> 0)"

definition encode_wal_frame :: "bytes \<Rightarrow> wal_frame_header \<Rightarrow> bytes \<Rightarrow> bytes option" where
  "encode_wal_frame frame header payload =
     (if length frame < wal_frame_size \<or> length payload \<noteq> unat (wf_payload_size header) \<or>
         length payload > wal_frame_payload_capacity \<or> wal_frame_invalid header then None
      else do {
        frame \<leftarrow> Some (put frame 0 (zeroes wal_frame_size));
        frame \<leftarrow> write_u32_le frame 0 wal_frame_magic;
        frame \<leftarrow> write_u16_le frame 4 wal_frame_revision;
        frame \<leftarrow> write_u16_le frame 6 (of_nat wal_frame_header_size);
        frame \<leftarrow> write_u64_le frame 8 (wf_database_id header);
        frame \<leftarrow> write_u64_le frame 16 (wf_wal_generation header);
        frame \<leftarrow> write_u64_le frame 24 (wf_transaction_sequence header);
        frame \<leftarrow> write_u16_le frame 32 (wf_frame_index header);
        frame \<leftarrow> write_u16_le frame 34 (wf_frame_count header);
        frame \<leftarrow> write_u16_le frame 36 (wf_mutation_count header);
        frame \<leftarrow> write_u16_le frame 38 (wf_flags header);
        frame \<leftarrow> write_u32_le frame 40 (wf_payload_size header);
        frame \<leftarrow> write_u32_le frame 44 (wf_transaction_payload_size header);
        frame \<leftarrow> write_u32_le frame 48 (wf_transaction_checksum header);
        frame \<leftarrow> Some (put frame wal_frame_header_size payload);
        frame \<leftarrow> write_u32_le frame 52 (calc_crc32 payload);
        write_u32_le frame wal_frame_checksum_offset
          (calc_record_crc frame wal_frame_size wal_frame_checksum_offset) })"

definition decode_wal_frame :: "bytes \<Rightarrow> format_status + wal_frame_header \<times> bytes" where
  "decode_wal_frame frame =
     check (length frame < wal_frame_size) FS_invalid_size
    (decoded_or FS_invalid_size (do {
        magic \<leftarrow> read_u32_le frame 0;
        revision \<leftarrow> read_u16_le frame 4;
        header_size \<leftarrow> read_u16_le frame 6;
        database_id \<leftarrow> read_u64_le frame 8;
        wal_generation \<leftarrow> read_u64_le frame 16;
        transaction_sequence \<leftarrow> read_u64_le frame 24;
        frame_index \<leftarrow> read_u16_le frame 32;
        frame_count \<leftarrow> read_u16_le frame 34;
        mutation_count \<leftarrow> read_u16_le frame 36;
        flags \<leftarrow> read_u16_le frame 38;
        payload_size \<leftarrow> read_u32_le frame 40;
        transaction_payload_size \<leftarrow> read_u32_le frame 44;
        transaction_checksum \<leftarrow> read_u32_le frame 48;
        payload_checksum \<leftarrow> read_u32_le frame 52;
        reserved \<leftarrow> read_u32_le frame 56;
        frame_checksum \<leftarrow> read_u32_le frame wal_frame_checksum_offset;
        Some (\<lparr>wf_database_id = database_id, wf_wal_generation = wal_generation,
               wf_transaction_sequence = transaction_sequence, wf_frame_index = frame_index,
               wf_frame_count = frame_count, wf_mutation_count = mutation_count,
               wf_flags = flags, wf_payload_size = payload_size,
               wf_transaction_payload_size = transaction_payload_size,
               wf_transaction_checksum = transaction_checksum,
               wf_payload_checksum = payload_checksum\<rparr>,
              magic, revision, header_size, reserved, frame_checksum) })
     (\<lambda>(header, magic, revision, header_size, reserved, frame_checksum).
       check (frame_checksum \<noteq> calc_record_crc frame wal_frame_size wal_frame_checksum_offset)
         FS_corrupt
      (check (magic \<noteq> wal_frame_magic) FS_invalid_magic
      (check (revision > wal_frame_revision) FS_new_version
      (check (revision \<noteq> wal_frame_revision) FS_invalid_revision
      (check (unat header_size \<noteq> wal_frame_header_size \<or>
              unat (wf_payload_size header) > wal_frame_payload_capacity) FS_invalid_size
      (check (wal_frame_invalid header \<or> reserved \<noteq> 0 \<or>
              \<not> is_zero_range frame (wal_frame_header_size + unat (wf_payload_size header))
                  (wal_frame_payload_capacity - unat (wf_payload_size header))) FS_corrupt
      (let payload = get frame wal_frame_header_size (unat (wf_payload_size header)) in
       check (wf_payload_checksum header \<noteq> calc_crc32 payload) FS_corrupt
      (Inr (header, payload))))))))))"

lemma wal_frame_roundtrip:
  assumes valid: "\<not> wal_frame_invalid h" and size: "length payload = unat (wf_payload_size h)"
    "length payload \<le> 4032" and buf: "4096 \<le> length frame"
  shows "\<exists>b. encode_wal_frame frame h payload = Some b \<and> length b = length frame \<and>
     decode_wal_frame b = Inr (h\<lparr>wf_payload_checksum := calc_crc32 payload\<rparr>, payload)"
proof -
  have "\<not> wal_frame_invalid (h\<lparr>wf_payload_checksum := c\<rparr>)" for c
    using valid by (simp add: wal_frame_invalid_def wal_final_frame_def)
  then show ?thesis
    using valid size buf
    by (cases h) (simp add: encode_wal_frame_def decode_wal_frame_def format_consts buffer_simps
        is_zero_range_get)
qed

lemma decode_wal_frame_InrD:
  assumes "decode_wal_frame b = Inr (h, payload)"
  shows "\<not> wal_frame_invalid h" "length payload = unat (wf_payload_size h)"
    "unat (wf_payload_size h) \<le> 4032" "payload = get b 64 (unat (wf_payload_size h))"
    "wf_payload_checksum h = calc_crc32 payload" "4096 \<le> length b"
  using assms by (auto simp: decode_wal_frame_def decoded_or_Inr Let_def format_consts)

text \<open>Both decoders see only the bytes of their record.\<close>

lemma decode_wal_frame_cong:
  assumes "get b 0 4096 = get b' 0 4096" "length b = length b'"
  shows "decode_wal_frame b = decode_wal_frame b'"
proof (cases "4096 \<le> length b'")
  case True
  have sub: "get b i n = get b' i n" if "i + n \<le> 4096" for i n
    using arg_cong [OF assms(1), of "\<lambda>x. get x i n"] that by (simp add: get_get)
  have nth: "b ! i = b' ! i" if "i < 4096" for i
    using arg_cong [OF sub [of i 1], of hd] that assms(2) True by (simp add: get_Suc)
  have crc: "calc_record_crc b 4096 60 = calc_record_crc b' 4096 60"
    by (rule calc_record_crc_local) (simp_all add: assms)
  show ?thesis
    using True assms(2)
    by (simp add: decode_wal_frame_def format_consts buffer_simps sub crc)
       (auto simp: check_def is_zero_range_get sub)
qed (use assms(2) in \<open>simp add: decode_wal_frame_def format_consts check_def\<close>)

end
