(* ===== verification/Geometry.thy ===== *)
theory Geometry
  imports Format_Defs
begin

text \<open>
  The fixed geometry of the raw range and the logical limits, with the validation the manifest
  codec and \<open>init()\<close> apply to them (\<open>on9kvdb_format.cpp\<close>), the geometry a build is
  configured with (\<open>on9kvdb.cpp\<close>) and the compile-time assertions on the configuration.
  Arithmetic keeps the widths of the source: 32-bit sums wrap, 64-bit products are checked.
\<close>

record storage_geometry =
  sg_provisioned_size :: u64
  sg_max_live_bytes :: u64
  sg_manifest_size :: u32
  sg_wal_size :: u32
  sg_wal_count :: u32
  sg_table_size :: u32
  sg_table_count :: u32
  sg_value_bank_size :: u32
  sg_value_bank_count :: u32
  sg_alignment :: u32

record logical_limits =
  ll_wal_frame_bytes :: u32
  ll_max_namespaces :: u32
  ll_max_open_handles :: u32
  ll_memtable_entries :: u32
  ll_memtable_data_bytes :: u32
  ll_max_transaction_mutations :: u32
  ll_transaction_staging_bytes :: u32
  ll_sstable_block_bytes :: u32
  ll_inline_value_bytes :: u32

definition validate_storage_geometry :: "storage_geometry \<Rightarrow> bool" where
  "validate_storage_geometry g =
     (if sg_provisioned_size g = 0 \<or> sg_max_live_bytes g = 0 \<or>
         sg_max_live_bytes g > sg_provisioned_size g \<or>
         unat (sg_manifest_size g) \<noteq> manifest_file_size \<or>
         unat (sg_wal_size g) < wal_record_region_offset + wal_frame_size \<or>
         unat (sg_wal_count g) \<noteq> wal_file_count \<or>
         unat (sg_table_size g) \<le> identity_region_size \<or> unat (sg_table_count g) < 4 \<or>
         unat (sg_table_count g) > max_table_count \<or> sg_table_count g AND 1 \<noteq> 0 \<or>
         unat (sg_value_bank_size g) \<le> identity_region_size \<or>
         unat (sg_value_bank_count g) \<noteq> value_bank_count \<or>
         unat (sg_alignment g) \<noteq> format_alignment \<or>
         unat (sg_manifest_size g) mod format_alignment \<noteq> 0 \<or>
         unat (sg_wal_size g) mod format_alignment \<noteq> 0 \<or>
         unat (sg_table_size g) mod format_alignment \<noteq> 0 \<or>
         unat (sg_value_bank_size g) mod format_alignment \<noteq> 0 then False
      else
        (case do {
           wal_bytes \<leftarrow> checked_mul (ucast (sg_wal_size g) :: u64) (ucast (sg_wal_count g));
           table_bytes \<leftarrow> checked_mul (ucast (sg_table_size g) :: u64) (ucast (sg_table_count g));
           value_bank_bytes \<leftarrow>
             checked_mul (ucast (sg_value_bank_size g) :: u64) (ucast (sg_value_bank_count g));
           table_payload_bytes \<leftarrow>
             checked_mul (ucast (sg_table_size g - of_nat identity_region_size) :: u64)
               (ucast (sg_table_count g));
           calculated_size \<leftarrow> checked_add (ucast (sg_manifest_size g)) wal_bytes;
           calculated_size \<leftarrow> checked_add calculated_size table_bytes;
           calculated_size \<leftarrow> checked_add calculated_size value_bank_bytes;
           Some (calculated_size, table_payload_bytes) }
         of None \<Rightarrow> False
         | Some (calculated_size, table_payload_bytes) \<Rightarrow>
             calculated_size = sg_provisioned_size g \<and>
             sg_max_live_bytes g \<le> table_payload_bytes))"

definition storage_geometry_equal :: "storage_geometry \<Rightarrow> storage_geometry \<Rightarrow> bool" where
  "storage_geometry_equal lhs rhs \<longleftrightarrow>
     sg_provisioned_size lhs = sg_provisioned_size rhs \<and>
     sg_max_live_bytes lhs = sg_max_live_bytes rhs \<and>
     sg_manifest_size lhs = sg_manifest_size rhs \<and> sg_wal_size lhs = sg_wal_size rhs \<and>
     sg_wal_count lhs = sg_wal_count rhs \<and> sg_table_size lhs = sg_table_size rhs \<and>
     sg_table_count lhs = sg_table_count rhs \<and>
     sg_value_bank_size lhs = sg_value_bank_size rhs \<and>
     sg_value_bank_count lhs = sg_value_bank_count rhs \<and> sg_alignment lhs = sg_alignment rhs"

definition validate_logical_limits :: "config \<Rightarrow> logical_limits \<Rightarrow> bool" where
  "validate_logical_limits cfg limits =
     (let maximum_entry_size =
            of_nat table_entry_header_size + 2 * of_nat max_name_len + cfg_inline_value_size cfg :: u32
      in unat (ll_wal_frame_bytes limits) = wal_frame_size \<and>
         ll_max_namespaces limits > 0 \<and> ll_max_namespaces limits \<le> 0xFFFF \<and>
         ll_max_open_handles limits > 0 \<and> ll_max_open_handles limits \<le> 0xFFFF \<and>
         ll_memtable_entries limits \<ge> 16 \<and>
         ll_memtable_entries limits AND (ll_memtable_entries limits - 1) = 0 \<and>
         ll_memtable_data_bytes limits \<ge> cfg_inline_value_size cfg \<and>
         ll_max_transaction_mutations limits > 0 \<and>
         unat (ll_max_transaction_mutations limits) \<le> max_transaction_mutations \<and>
         ll_transaction_staging_bytes limits \<ge> cfg_inline_value_size cfg \<and>
         ll_inline_value_bytes limits = cfg_inline_value_size cfg \<and>
         unat (ll_sstable_block_bytes limits) mod format_alignment = 0 \<and>
         ll_sstable_block_bytes limits > of_nat table_block_header_size + maximum_entry_size)"

definition logical_limits_equal :: "logical_limits \<Rightarrow> logical_limits \<Rightarrow> bool" where
  "logical_limits_equal lhs rhs \<longleftrightarrow>
     ll_wal_frame_bytes lhs = ll_wal_frame_bytes rhs \<and>
     ll_max_namespaces lhs = ll_max_namespaces rhs \<and>
     ll_max_open_handles lhs = ll_max_open_handles rhs \<and>
     ll_memtable_entries lhs = ll_memtable_entries rhs \<and>
     ll_memtable_data_bytes lhs = ll_memtable_data_bytes rhs \<and>
     ll_max_transaction_mutations lhs = ll_max_transaction_mutations rhs \<and>
     ll_transaction_staging_bytes lhs = ll_transaction_staging_bytes rhs \<and>
     ll_sstable_block_bytes lhs = ll_sstable_block_bytes rhs \<and>
     ll_inline_value_bytes lhs = ll_inline_value_bytes rhs"

definition validate_compaction_capacity :: "config \<Rightarrow> storage_geometry \<Rightarrow> logical_limits \<Rightarrow> bool" where
  "validate_compaction_capacity cfg g limits =
     (let block = ll_sstable_block_bytes limits in
      if \<not> validate_storage_geometry g \<or> \<not> validate_logical_limits cfg limits \<or>
         sg_table_size g \<le> of_nat table_data_region_offset + block + of_nat table_footer_slot_size
      then False
      else
        let data_region_bytes = ucast (sg_table_size g - of_nat table_data_region_offset - block -
                                       of_nat table_footer_slot_size) :: u64 in
        if data_region_bytes mod ucast block \<noteq> 0 then False
        else
          let data_blocks_per_table = data_region_bytes div ucast block;
              maximum_index_entry_size =
                of_nat (table_index_entry_header_size + 2 * max_name_len + 3) AND NOT 3 :: u64
          in (case do {
                bank_block_count \<leftarrow>
                  checked_mul data_blocks_per_table (ucast (sg_table_count g div 2));
                maximum_index_bytes \<leftarrow> checked_mul data_blocks_per_table maximum_index_entry_size;
                Some (bank_block_count, maximum_index_bytes) }
              of None \<Rightarrow> False
              | Some (bank_block_count, maximum_index_bytes) \<Rightarrow>
                if maximum_index_bytes > ucast (block - of_nat table_index_header_size) then False
                else
                  let block_payload_bytes = ucast (block - of_nat table_block_header_size) :: u64;
                      minimum_external_value = ucast (ll_inline_value_bytes limits) + 1 :: u64;
                      minimum_external_record =
                        (of_nat (table_entry_header_size + 2) + minimum_external_value + 7) AND NOT 7;
                      chunks_per_minimum_value =
                        (minimum_external_value + of_nat value_chunk_payload_size - 1) div
                        of_nat value_chunk_payload_size
                  in (case do {
                        rounded_live_bytes \<leftarrow>
                          checked_add (sg_max_live_bytes g) (minimum_external_record - 1);
                        physical_bytes_per_record \<leftarrow>
                          checked_mul chunks_per_minimum_value (of_nat value_chunk_size);
                        record_count_ceiling \<leftarrow> Some (rounded_live_bytes div minimum_external_record);
                        required_value_bytes \<leftarrow>
                          checked_mul record_count_ceiling physical_bytes_per_record;
                        checked_add required_value_bytes (of_nat identity_region_size) }
                      of None \<Rightarrow> False
                      | Some required_value_bytes \<Rightarrow>
                        if required_value_bytes > ucast (sg_value_bank_size g) then False
                        else
                          let guaranteed_logical_bytes = bank_block_count div 2 * block_payload_bytes
                          in sg_max_live_bytes g \<le> guaranteed_logical_bytes)))"

section \<open>The geometry and limits of a build\<close>

definition get_build_geometry :: "config \<Rightarrow> storage_geometry" where
  "get_build_geometry cfg = \<lparr>
     sg_provisioned_size = ucast (cfg_provisioned_database_size cfg),
     sg_max_live_bytes = ucast (cfg_max_live_data_size cfg),
     sg_manifest_size = of_nat manifest_file_size,
     sg_wal_size = cfg_wal_file_size cfg,
     sg_wal_count = of_nat wal_file_count,
     sg_table_size = cfg_sstable_file_size cfg,
     sg_table_count = cfg_sstable_count cfg,
     sg_value_bank_size = cfg_value_bank_size cfg,
     sg_value_bank_count = of_nat value_bank_count,
     sg_alignment = of_nat format_alignment\<rparr>"

definition get_build_limits :: "config \<Rightarrow> logical_limits" where
  "get_build_limits cfg = \<lparr>
     ll_wal_frame_bytes = of_nat wal_frame_size,
     ll_max_namespaces = cfg_max_namespaces cfg,
     ll_max_open_handles = cfg_max_open_handles cfg,
     ll_memtable_entries = cfg_memtable_entry_count cfg,
     ll_memtable_data_bytes = cfg_memtable_data_size cfg,
     ll_max_transaction_mutations = cfg_max_transaction_mutations cfg,
     ll_transaction_staging_bytes = cfg_transaction_staging_size cfg,
     ll_sstable_block_bytes = cfg_sstable_block_size cfg,
     ll_inline_value_bytes = cfg_inline_value_size cfg\<rparr>"

text \<open>
  The \<open>static_assert\<close>s of \<open>on9kvdb.cpp\<close> on the configured sizes and counts: a configuration
  that violates one does not compile.
\<close>

definition table_block_capacity :: "config \<Rightarrow> u32" where
  "table_block_capacity cfg =
     (cfg_sstable_file_size cfg - of_nat table_data_region_offset - cfg_sstable_block_size cfg -
        of_nat table_footer_slot_size) div cfg_sstable_block_size cfg"

definition valid_config :: "config \<Rightarrow> bool" where
  "valid_config cfg \<longleftrightarrow>
     cfg_max_transaction_mutations cfg \<ge> 1 \<and>
     unat (cfg_max_transaction_mutations cfg) \<le> max_transaction_mutations \<and>
     cfg_max_namespaces cfg \<ge> 1 \<and> cfg_max_namespaces cfg \<le> 0xFFFF \<and>
     cfg_max_open_handles cfg \<ge> 1 \<and> cfg_max_open_handles cfg \<le> ucast handle_slot_capacity \<and>
     cfg_memtable_entry_count cfg \<ge> 16 \<and>
     cfg_memtable_entry_count cfg AND (cfg_memtable_entry_count cfg - 1) = 0 \<and>
     cfg_memtable_data_size cfg \<ge> cfg_inline_value_size cfg \<and>
     cfg_transaction_staging_size cfg \<ge> cfg_inline_value_size cfg \<and>
     cfg_max_live_data_size cfg > 0 \<and> cfg_provisioned_database_size cfg > 0 \<and>
     unat (cfg_wal_file_size cfg) \<ge> wal_record_region_offset + wal_frame_size \<and>
     unat (cfg_sstable_file_size cfg) > identity_region_size \<and>
     unat (cfg_wal_file_size cfg) mod format_alignment = 0 \<and>
     unat (cfg_sstable_file_size cfg) mod format_alignment = 0 \<and>
     unat (cfg_value_bank_size cfg) mod format_alignment = 0 \<and>
     unat (cfg_value_bank_size cfg) > identity_region_size \<and>
     cfg_sstable_count cfg \<ge> 4 \<and> unat (cfg_sstable_count cfg) \<le> max_table_count \<and>
     cfg_sstable_count cfg AND 1 = 0 \<and>
     unat (cfg_sstable_block_size cfg) mod format_alignment = 0 \<and>
     cfg_sstable_file_size cfg >
       of_nat table_data_region_offset + cfg_sstable_block_size cfg + of_nat table_footer_slot_size \<and>
     (cfg_sstable_file_size cfg - of_nat table_data_region_offset - cfg_sstable_block_size cfg -
        of_nat table_footer_slot_size) mod cfg_sstable_block_size cfg = 0 \<and>
     unat (table_block_capacity cfg) *
       ((table_index_entry_header_size + 2 * max_name_len + 3) div 4 * 4) \<le>
       unat (cfg_sstable_block_size cfg - of_nat table_index_header_size) \<and>
     unat (cfg_max_live_data_size cfg) \<le>
       unat (cfg_sstable_count cfg div 2) * unat (table_block_capacity cfg) div 2 *
       unat (cfg_sstable_block_size cfg - of_nat table_block_header_size) \<and>
     manifest_file_size + wal_file_count * unat (cfg_wal_file_size cfg) +
       unat (cfg_sstable_count cfg) * unat (cfg_sstable_file_size cfg) +
       value_bank_count * unat (cfg_value_bank_size cfg) =
     unat (cfg_provisioned_database_size cfg)"

lemma host_config_valid: "valid_config host_config"
  by (simp add: valid_config_def host_config_def format_consts handle_consts table_block_capacity_def)

lemma storage_geometry_equal_iff: "storage_geometry_equal a b \<longleftrightarrow> a = (b :: storage_geometry)"
  by (cases a, cases b) (auto simp: storage_geometry_equal_def)

lemma logical_limits_equal_iff: "logical_limits_equal a b \<longleftrightarrow> a = (b :: logical_limits)"
  by (cases a, cases b) (auto simp: logical_limits_equal_def)

section \<open>What a validated geometry guarantees\<close>

text \<open>The exact sizes as natural numbers.\<close>

definition wal_bytes :: "storage_geometry \<Rightarrow> nat" where
  "wal_bytes g = unat (sg_wal_count g) * unat (sg_wal_size g)"

definition table_bytes :: "storage_geometry \<Rightarrow> nat" where
  "table_bytes g = unat (sg_table_count g) * unat (sg_table_size g)"

definition value_bank_bytes :: "storage_geometry \<Rightarrow> nat" where
  "value_bank_bytes g = unat (sg_value_bank_count g) * unat (sg_value_bank_size g)"

lemma unat_bound32: "unat (x :: u32) < 2 ^ 32"
  using unat_less_pow [of x] by simp

lemma unat_bound64: "unat (x :: u64) < 2 ^ 64"
  using unat_less_pow [of x] by simp

lemma unat_ucast32 [simp]: "unat (ucast (x :: u32) :: u64) = unat x"
proof -
  have "unat x < 2 ^ 64" using unat_bound32 [of x] by simp
  then show ?thesis by (simp add: unsigned_ucast_eq take_bit_nat_eq_self)
qed

lemma unat_mul_ucast32: "unat (ucast (x :: u32) * ucast (y :: u32) :: u64) = unat x * unat y"
proof -
  have "unat x * unat y < 2 ^ 32 * 2 ^ 32"
    using unat_bound32 [of x] unat_bound32 [of y] by (intro mult_strict_mono) auto
  then show ?thesis by (simp add: unat_mult_exact)
qed

lemma validate_storage_geometry_D:
  assumes "validate_storage_geometry g"
  shows "unat (sg_provisioned_size g) = 8192 + wal_bytes g + table_bytes g + value_bank_bytes g"
    "unat (sg_manifest_size g) = 8192" "unat (sg_wal_count g) = 2"
    "unat (sg_value_bank_count g) = 2" "4 \<le> unat (sg_table_count g)" "unat (sg_table_count g) \<le> 16"
    "even (unat (sg_table_count g))" "20480 \<le> unat (sg_wal_size g)"
    "8192 < unat (sg_table_size g)" "8192 < unat (sg_value_bank_size g)"
    "4096 dvd unat (sg_wal_size g)" "4096 dvd unat (sg_table_size g)"
    "4096 dvd unat (sg_value_bank_size g)"
    "0 < sg_max_live_bytes g" "sg_max_live_bytes g \<le> sg_provisioned_size g"
    "0 < sg_provisioned_size g"
proof -
  have even: "even (unat x) \<longleftrightarrow> x AND 1 = 0" for x :: u32
    using bit_unsigned_iff [where 'a = nat, of x 0]
    by (simp add: bit_0 and_one_eq flip: even_iff_mod_2_eq_zero)
  from assms obtain wb tb vb c1 c2 where
    "checked_mul (ucast (sg_wal_size g)) (ucast (sg_wal_count g) :: u64) = Some wb"
    "checked_mul (ucast (sg_table_size g)) (ucast (sg_table_count g) :: u64) = Some tb"
    "checked_mul (ucast (sg_value_bank_size g)) (ucast (sg_value_bank_count g) :: u64) = Some vb"
    "checked_add (ucast (sg_manifest_size g)) wb = Some c1" "checked_add c1 tb = Some c2"
    "checked_add c2 vb = Some (sg_provisioned_size g)" "unat (sg_manifest_size g) = 8192"
    by (auto simp: validate_storage_geometry_def format_consts split: if_splits option.splits)
  then show "unat (sg_provisioned_size g) = 8192 + wal_bytes g + table_bytes g + value_bank_bytes g"
    by (auto dest!: checked_add_unat checked_mul_unat
        simp: wal_bytes_def table_bytes_def value_bank_bytes_def mult.commute)
  show "even (unat (sg_table_count g))"
    using assms by (auto simp: validate_storage_geometry_def even split: if_splits)
qed (use assms in \<open>auto simp: validate_storage_geometry_def format_consts word_gt_0 not_less
      mod_eq_0_iff_dvd split: if_splits\<close>)

lemma host_geometry_valid:
  "validate_storage_geometry (get_build_geometry host_config)"
  by (simp add: validate_storage_geometry_def get_build_geometry_def host_config_def format_consts
      checked_add_def checked_mul_def)

lemma host_limits_valid:
  "validate_logical_limits host_config (get_build_limits host_config)"
  by (simp add: validate_logical_limits_def get_build_limits_def host_config_def format_consts)

lemma host_capacity_valid:
  "validate_compaction_capacity host_config (get_build_geometry host_config) (get_build_limits host_config)"
  using host_geometry_valid host_limits_valid
  by (simp add: validate_compaction_capacity_def Let_def)
     (simp add: get_build_geometry_def get_build_limits_def host_config_def format_consts
      checked_add_def checked_mul_def)

end
