(* ===== verification/Composite_Key.thy ===== *)
theory Composite_Key
  imports Format_Defs "HOL-Library.List_Lexorder"
begin

text \<open>
  The composite keys (namespace, key) of \<open>on9kvdb_defs.hpp\<close> and their comparison. A key keeps
  its two names as the bytes up to \<open>namespace_size\<close> and \<open>key_size\<close>; the padding of the
  C++ arrays is never read. The comparison makes composite keys a linear order, so that the
  library's notions of sortedness apply to tables.
\<close>

datatype composite_key = Composite_Key (ck_namespace: bytes) (ck_key: bytes)

text \<open>\<open>memcmp\<close>: the sign of the first difference within the given number of bytes.\<close>

fun mem_cmp :: "bytes \<Rightarrow> bytes \<Rightarrow> int" where
  "mem_cmp (a # as) (b # bs) = (if a = b then mem_cmp as bs else if a < b then - 1 else 1)"
| "mem_cmp _ _ = 0"

definition memcmp :: "bytes \<Rightarrow> bytes \<Rightarrow> nat \<Rightarrow> int" where
  "memcmp lhs rhs n = mem_cmp (take n lhs) (take n rhs)"

definition composite_key_equal :: "composite_key \<Rightarrow> composite_key \<Rightarrow> bool" where
  "composite_key_equal lhs rhs \<longleftrightarrow>
     length (ck_namespace lhs) = length (ck_namespace rhs) \<and>
     length (ck_key lhs) = length (ck_key rhs) \<and>
     memcmp (ck_namespace lhs) (ck_namespace rhs) (length (ck_namespace lhs)) = 0 \<and>
     memcmp (ck_key lhs) (ck_key rhs) (length (ck_key lhs)) = 0"

definition compare_composite_key :: "composite_key \<Rightarrow> composite_key \<Rightarrow> int" where
  "compare_composite_key lhs rhs =
     (let ns_l = ck_namespace lhs; ns_r = ck_namespace rhs;
          namespace_common = (if length ns_l < length ns_r then length ns_l else length ns_r);
          namespace_comparison = memcmp ns_l ns_r namespace_common
      in if namespace_comparison \<noteq> 0 then namespace_comparison
         else if length ns_l \<noteq> length ns_r then (if length ns_l < length ns_r then - 1 else 1)
         else
           let key_l = ck_key lhs; key_r = ck_key rhs;
               key_common = (if length key_l < length key_r then length key_l else length key_r);
               key_comparison = memcmp key_l key_r key_common
           in if key_comparison \<noteq> 0 then key_comparison
              else if length key_l \<noteq> length key_r then (if length key_l < length key_r then - 1 else 1)
              else 0)"

definition valid_composite_key :: "composite_key \<Rightarrow> bool" where
  "valid_composite_key key \<longleftrightarrow>
     length (ck_namespace key) > 0 \<and> length (ck_namespace key) \<le> max_name_len \<and>
     length (ck_key key) > 0 \<and> length (ck_key key) \<le> max_name_len \<and>
     validate_bytes (ck_namespace key) max_name_len \<and> validate_bytes (ck_key key) max_name_len"

lemma valid_composite_key_names:
  "valid_composite_key k \<longleftrightarrow> valid_name (ck_namespace k) \<and> valid_name (ck_key k)"
  by (auto simp: valid_composite_key_def valid_name_def validate_bytes_def)

section \<open>The comparison is the lexicographic order\<close>

text \<open>Comparing common prefixes first and lengths second is the lexicographic order of lists.\<close>

definition bytes_cmp :: "bytes \<Rightarrow> bytes \<Rightarrow> int" where
  "bytes_cmp xs ys =
     (let c = memcmp xs ys (min (length xs) (length ys))
      in if c \<noteq> 0 then c else if length xs < length ys then - 1
         else if length xs > length ys then 1 else 0)"

lemma mem_cmp_take_min: "mem_cmp (take (min (length xs) (length ys)) xs)
    (take (min (length xs) (length ys)) ys) = mem_cmp xs ys"
  by (induction xs ys rule: mem_cmp.induct) auto

lemma bytes_cmp_simps [simp]:
  "bytes_cmp [] [] = 0" "bytes_cmp [] (b # bs) = - 1" "bytes_cmp (a # as) [] = 1"
  "bytes_cmp (a # as) (b # bs) = (if a = b then bytes_cmp as bs else if a < b then - 1 else 1)"
  by (simp_all add: bytes_cmp_def memcmp_def mem_cmp_take_min [of "a # as" "b # bs", simplified]
      mem_cmp_take_min Let_def)

lemma bytes_cmp_cases:
  "bytes_cmp xs ys = (if xs < ys then - 1 else if xs = ys then 0 else 1)"
proof (induction xs arbitrary: ys)
  case Nil
  then show ?case by (cases ys) auto
next
  case (Cons x xs)
  then show ?case by (cases ys) auto
qed

lemma compare_composite_key_bytes:
  "compare_composite_key a b =
     (let c = bytes_cmp (ck_namespace a) (ck_namespace b)
      in if c \<noteq> 0 then c else bytes_cmp (ck_key a) (ck_key b))"
  by (auto simp: compare_composite_key_def bytes_cmp_def min_def Let_def not_less)

lemma compare_composite_key_lex:
  "compare_composite_key a b =
     (if ck_namespace a < ck_namespace b \<or> ck_namespace a = ck_namespace b \<and> ck_key a < ck_key b
      then - 1 else if a = b then 0 else 1)"
  by (cases a; cases b) (auto simp: compare_composite_key_bytes bytes_cmp_cases Let_def)

lemma compare_composite_key_0 [simp]: "compare_composite_key a b = 0 \<longleftrightarrow> a = b"
  by (cases a; cases b) (auto simp: compare_composite_key_lex)

lemma compare_composite_key_refl [simp]: "compare_composite_key a a = 0"
  by simp

lemma compare_composite_key_antisym: "compare_composite_key b a = - compare_composite_key a b"
  by (cases a; cases b) (auto simp: compare_composite_key_lex)

lemma mem_cmp_0_iff: "length xs = length ys \<Longrightarrow> mem_cmp xs ys = 0 \<longleftrightarrow> xs = ys"
  by (induction xs ys rule: mem_cmp.induct) auto

lemma composite_key_equal_iff [simp]: "composite_key_equal a b \<longleftrightarrow> a = b"
  by (cases a; cases b) (auto simp: composite_key_equal_def memcmp_def mem_cmp_0_iff)

text \<open>The order the tables are sorted by, as the library's linear order.\<close>

instantiation composite_key :: linorder
begin

definition less_eq_composite_key :: "composite_key \<Rightarrow> composite_key \<Rightarrow> bool" where
  "less_eq_composite_key a b \<longleftrightarrow> compare_composite_key a b \<le> 0"

definition less_composite_key :: "composite_key \<Rightarrow> composite_key \<Rightarrow> bool" where
  "less_composite_key a b \<longleftrightarrow> compare_composite_key a b < 0"

instance
proof
  fix a b c :: composite_key
  show "a < b \<longleftrightarrow> a \<le> b \<and> \<not> b \<le> a"
    using compare_composite_key_antisym [of a b]
    by (auto simp: less_eq_composite_key_def less_composite_key_def)
  show "a \<le> a"
    by (simp add: less_eq_composite_key_def)
  show "a \<le> b \<Longrightarrow> b \<le> c \<Longrightarrow> a \<le> c"
    by (auto simp: less_eq_composite_key_def compare_composite_key_lex split: if_splits)
  show "a \<le> b \<Longrightarrow> b \<le> a \<Longrightarrow> a = b"
    by (auto simp: less_eq_composite_key_def compare_composite_key_lex split: if_splits)
  show "a \<le> b \<or> b \<le> a"
    using compare_composite_key_antisym [of a b] by (auto simp: less_eq_composite_key_def)
qed

end

lemmas composite_key_order = less_eq_composite_key_def less_composite_key_def

end
