(* ===== verification/Manifest_Format.thy ===== *)
theory Manifest_Format
  imports File_Format Geometry Composite_Key
begin

text \<open>
  The manifest record of \<open>on9kvdb_format.cpp\<close>: the root of the database, which names the
  active WAL, table bank and value bank and the tables of the active bank. Fixed-size arrays of the
  source are lists; \<open>manifest_arrays\<close> states their lengths.
\<close>

section \<open>Table references\<close>

record table_reference =
  tr_active :: bool
  tr_level :: u8
  tr_slot :: u32
  tr_data_block_count :: u32
  tr_generation :: u64
  tr_min_sequence :: u64
  tr_max_sequence :: u64
  tr_entry_count :: u32
  tr_data_bytes :: u32
  tr_content_checksum :: u32
  tr_min_key :: composite_key
  tr_max_key :: composite_key

definition empty_composite_key :: composite_key where
  "empty_composite_key = Composite_Key [] []"

definition empty_table_reference :: table_reference where
  "empty_table_reference = \<lparr>tr_active = False, tr_level = 0, tr_slot = 0, tr_data_block_count = 0,
     tr_generation = 0, tr_min_sequence = 0, tr_max_sequence = 0, tr_entry_count = 0,
     tr_data_bytes = 0, tr_content_checksum = 0, tr_min_key = empty_composite_key,
     tr_max_key = empty_composite_key\<rparr>"

definition table_reference_equal :: "table_reference \<Rightarrow> table_reference \<Rightarrow> bool" where
  "table_reference_equal lhs rhs =
     (if tr_active lhs \<noteq> tr_active rhs then False
      else if \<not> tr_active lhs then True
      else tr_level lhs = tr_level rhs \<and> tr_slot lhs = tr_slot rhs \<and>
           tr_data_block_count lhs = tr_data_block_count rhs \<and>
           tr_generation lhs = tr_generation rhs \<and> tr_min_sequence lhs = tr_min_sequence rhs \<and>
           tr_max_sequence lhs = tr_max_sequence rhs \<and> tr_entry_count lhs = tr_entry_count rhs \<and>
           tr_data_bytes lhs = tr_data_bytes rhs \<and>
           tr_content_checksum lhs = tr_content_checksum rhs)"

definition valid_table_reference :: "table_reference \<Rightarrow> u32 \<Rightarrow> u64 \<Rightarrow> bool" where
  "valid_table_reference reference expected_slot safe_checkpoint_sequence \<longleftrightarrow>
     tr_active reference \<and> tr_level reference = 0 \<and> tr_slot reference = expected_slot \<and>
     tr_generation reference > 0 \<and> tr_min_sequence reference > 0 \<and>
     tr_max_sequence reference \<ge> tr_min_sequence reference \<and>
     tr_max_sequence reference \<le> safe_checkpoint_sequence \<and> tr_entry_count reference > 0 \<and>
     tr_data_block_count reference > 0 \<and>
     tr_data_block_count reference \<le> tr_entry_count reference \<and> tr_data_bytes reference > 0"

definition encode_manifest_table_reference :: "bytes \<Rightarrow> nat \<Rightarrow> table_reference \<Rightarrow> bytes option" where
  "encode_manifest_table_reference buf offset reference =
     (if \<not> tr_active reference then Some buf
      else do {
        buf \<leftarrow> write_u32_le buf (offset + 8) (tr_slot reference);
        buf \<leftarrow> write_u32_le buf (offset + 12) (tr_data_block_count reference);
        buf \<leftarrow> write_u64_le buf (offset + 16) (tr_generation reference);
        buf \<leftarrow> write_u64_le buf (offset + 24) (tr_min_sequence reference);
        buf \<leftarrow> write_u64_le buf (offset + 32) (tr_max_sequence reference);
        buf \<leftarrow> write_u32_le buf (offset + 40) (tr_entry_count reference);
        buf \<leftarrow> write_u32_le buf (offset + 44) (tr_data_bytes reference);
        buf \<leftarrow> write_u32_le buf (offset + 48) (tr_content_checksum reference);
        buf \<leftarrow> Some (put buf offset [table_reference_flag_active]);
        Some (put buf (offset + 1) [tr_level reference]) })"

definition decode_manifest_table_reference :: "bytes \<Rightarrow> nat \<Rightarrow> format_status + table_reference" where
  "decode_manifest_table_reference buf offset =
     check (\<not> is_range_valid (length buf) offset manifest_table_reference_size) FS_invalid_size
    (if is_zero_range buf offset manifest_table_reference_size then Inr empty_table_reference
     else
       check (buf ! offset \<noteq> table_reference_flag_active \<or> buf ! (offset + 1) \<noteq> 0 \<or>
              buf ! offset AND NOT table_reference_flag_active \<noteq> 0 \<or>
              \<not> is_zero_range buf (offset + 2) 6 \<or> \<not> is_zero_range buf (offset + 52) 4) FS_corrupt
      (decoded_or FS_invalid_size (do {
         slot \<leftarrow> read_u32_le buf (offset + 8);
         data_block_count \<leftarrow> read_u32_le buf (offset + 12);
         generation \<leftarrow> read_u64_le buf (offset + 16);
         min_sequence \<leftarrow> read_u64_le buf (offset + 24);
         max_sequence \<leftarrow> read_u64_le buf (offset + 32);
         entry_count \<leftarrow> read_u32_le buf (offset + 40);
         data_bytes \<leftarrow> read_u32_le buf (offset + 44);
         content_checksum \<leftarrow> read_u32_le buf (offset + 48);
         Some \<lparr>tr_active = True, tr_level = buf ! (offset + 1), tr_slot = slot,
               tr_data_block_count = data_block_count, tr_generation = generation,
               tr_min_sequence = min_sequence, tr_max_sequence = max_sequence,
               tr_entry_count = entry_count, tr_data_bytes = data_bytes,
               tr_content_checksum = content_checksum, tr_min_key = empty_composite_key,
               tr_max_key = empty_composite_key\<rparr> }) Inr))"

text \<open>
  What the media keeps of a reference: the key bounds are reloaded from the table itself, and an
  inactive slot is all zero.
\<close>

definition stored_reference :: "table_reference \<Rightarrow> table_reference" where
  "stored_reference r =
     (if tr_active r then r\<lparr>tr_min_key := empty_composite_key, tr_max_key := empty_composite_key\<rparr>
      else empty_table_reference)"

lemma stored_reference_simps [simp]:
  "tr_active (stored_reference r) = tr_active r"
  "tr_active r \<Longrightarrow> tr_generation (stored_reference r) = tr_generation r"
  "tr_active r \<Longrightarrow> tr_max_sequence (stored_reference r) = tr_max_sequence r"
  "valid_table_reference (stored_reference r) s c = valid_table_reference r s c"
  by (auto simp: stored_reference_def empty_table_reference_def valid_table_reference_def)

lemma table_reference_equal_iff:
  "table_reference_equal a b \<longleftrightarrow> stored_reference a = stored_reference b"
  by (cases a; cases b) (auto simp: table_reference_equal_def stored_reference_def
      empty_table_reference_def)

lemma is_zero_range_nth: "is_zero_range b off n \<Longrightarrow> i < n \<Longrightarrow> b ! (off + i) = 0"
  by (simp add: is_zero_range_def)

lemma manifest_table_reference_roundtrip:
  assumes zero: "get buf offset 56 = zeroes 56" and fits: "offset + 56 \<le> length buf"
    and level: "tr_active r \<Longrightarrow> tr_level r = 0"
  shows "\<exists>b. encode_manifest_table_reference buf offset r = Some b \<and> length b = length buf \<and>
    decode_manifest_table_reference b offset = Inr (stored_reference r) \<and>
    (\<forall>i n. i + n \<le> offset \<or> offset + 56 \<le> i \<longrightarrow> get b i n = get buf i n)"
proof (cases "tr_active r")
  case True
  have z: "get buf (offset + i) n = zeroes n" if "i + n \<le> 56" for i n
    using arg_cong [OF zero, of "\<lambda>x. get x i n"] that by (simp add: get_get get_zeroes)
  have nz: "get (put (put x offset [1]) (Suc offset) [y]) offset 56 \<noteq> zeroes 56"
    if "offset + 56 \<le> length x" for x y
    using that is_zero_range_nth [of "put (put x offset [1]) (Suc offset) [y]" offset 56 0]
    by (auto simp: buffer_simps is_zero_range_get)
  show ?thesis
    using True fits level
    by (cases r) (simp add: encode_manifest_table_reference_def decode_manifest_table_reference_def
        format_consts buffer_simps nz is_zero_range_get is_range_valid_iff stored_reference_def
        z [of 2, simplified] z [of 52, simplified])
next
  case False
  then show ?thesis
    using zero fits
    by (simp add: encode_manifest_table_reference_def decode_manifest_table_reference_def
        format_consts is_zero_range_get is_range_valid_iff stored_reference_def)
qed

lemma decode_manifest_table_reference_cong:
  assumes "get b off 56 = get b' off 56" "length b = length b'"
  shows "decode_manifest_table_reference b off = decode_manifest_table_reference b' off"
proof (cases "off + 56 \<le> length b'")
  case True
  have sub: "get b (off + i) n = get b' (off + i) n" if "i + n \<le> 56" for i n
    using arg_cong [OF assms(1), of "\<lambda>x. get x i n"] that by (simp add: get_get)
  have nth: "b ! (off + i) = b' ! (off + i)" if "i < 56" for i
    using arg_cong [OF assms(1), of "\<lambda>x. x ! i"] that assms(2) True by (simp add: nth_get)
  show ?thesis
    using True assms nth [of 0] nth [of 1] sub [of 2 6] sub
    by (simp add: decode_manifest_table_reference_def format_consts buffer_simps is_zero_range_get)
next
  case False
  then show ?thesis
    using assms(2) by (simp add: decode_manifest_table_reference_def format_consts check_def
        is_range_valid_iff)
qed

section \<open>The manifest record\<close>

record manifest_record =
  mr_generation :: u64
  mr_database_id :: u64
  mr_state :: u16
  mr_geometry :: storage_geometry
  mr_limits :: logical_limits
  mr_active_wal_slot :: u32
  mr_wal_generation :: "u64 list"
  mr_safe_checkpoint_sequence :: u64
  mr_next_table_generation :: u64
  mr_active_table_bank :: u32
  mr_active_value_bank :: u32
  mr_value_bank_generation :: "u64 list"
  mr_value_bank_tail :: "u32 list"
  mr_tables :: "table_reference list"

definition manifest_arrays :: "manifest_record \<Rightarrow> bool" where
  "manifest_arrays record \<longleftrightarrow>
     length (mr_wal_generation record) = wal_file_count \<and>
     length (mr_value_bank_generation record) = value_bank_count \<and>
     length (mr_value_bank_tail record) = value_bank_count \<and>
     length (mr_tables record) = max_table_count"

text \<open>The bank of table slots the manifest makes active.\<close>

definition bank_geometry_valid :: "manifest_record \<Rightarrow> bool" where
  "bank_geometry_valid record \<longleftrightarrow>
     sg_table_count (mr_geometry record) \<ge> 4 \<and>
     unat (sg_table_count (mr_geometry record)) \<le> max_table_count \<and>
     sg_table_count (mr_geometry record) AND 1 = 0 \<and> mr_active_table_bank record < 2"

definition bank_start :: "manifest_record \<Rightarrow> nat" where
  "bank_start record =
     unat (mr_active_table_bank record *
       (if bank_geometry_valid record then sg_table_count (mr_geometry record) div 2 else 0))"

definition bank_end :: "manifest_record \<Rightarrow> nat" where
  "bank_end record =
     unat (mr_active_table_bank record *
         (if bank_geometry_valid record then sg_table_count (mr_geometry record) div 2 else 0) +
       (if bank_geometry_valid record then sg_table_count (mr_geometry record) div 2 else 0))"

text \<open>
  One iteration of the loop over the table slots, the same in the encoder and the decoder: a slot
  outside the bank, an ill-formed reference or a duplicate generation is refused, and the number of
  active tables and their greatest generation and sequence are accumulated.
\<close>

type_synonym table_summary = "u32 \<times> u64 \<times> u64"

definition table_reference_step ::
  "manifest_record \<Rightarrow> table_reference list \<Rightarrow> nat \<Rightarrow> table_summary \<Rightarrow> table_summary option" where
  "table_reference_step record tables slot summary =
     (case summary of (active_table_count, greatest_generation, greatest_sequence) \<Rightarrow>
       let reference = tables ! slot in
       if \<not> tr_active reference then Some summary
       else if \<not> bank_geometry_valid record \<or> slot < bank_start record \<or> slot \<ge> bank_end record \<or>
               \<not> valid_table_reference reference (of_nat slot) (mr_safe_checkpoint_sequence record)
       then None
       else if \<exists>previous \<in> set [bank_start record..<slot].
                 tr_active (tables ! previous) \<and>
                 tr_generation (tables ! previous) = tr_generation reference
       then None
       else Some (active_table_count + 1,
              (if tr_generation reference > greatest_generation then tr_generation reference
               else greatest_generation),
              (if tr_max_sequence reference > greatest_sequence then tr_max_sequence reference
               else greatest_sequence)))"

fun collect_table_references ::
  "manifest_record \<Rightarrow> nat list \<Rightarrow> table_summary \<Rightarrow> table_summary option" where
  "collect_table_references record [] summary = Some summary"
| "collect_table_references record (slot # slots) summary = do {
     summary \<leftarrow> table_reference_step record (mr_tables record) slot summary;
     collect_table_references record slots summary }"

text \<open>The content checks the encoder and the decoder share.\<close>

definition manifest_content_invalid :: "config \<Rightarrow> manifest_record \<Rightarrow> table_summary \<Rightarrow> bool" where
  "manifest_content_invalid cfg record summary \<longleftrightarrow>
     (case summary of (active_table_count, greatest_table_generation, greatest_table_sequence) \<Rightarrow>
       mr_database_id record = 0 \<or>
       (mr_state record \<noteq> manifest_state_provisioning_owned \<and> mr_state record \<noteq> manifest_state_ready) \<or>
       (mr_state record = manifest_state_ready \<and> mr_generation record < 3) \<or>
       \<not> validate_compaction_capacity cfg (mr_geometry record) (mr_limits record) \<or>
       unat (mr_active_wal_slot record) \<ge> wal_file_count \<or>
       mr_next_table_generation record = 0 \<or>
       greatest_table_generation \<ge> mr_next_table_generation record \<or>
       (active_table_count \<noteq> 0 \<and> greatest_table_sequence \<noteq> mr_safe_checkpoint_sequence record) \<or>
       (mr_state record = manifest_state_provisioning_owned \<and>
         (mr_wal_generation record ! 0 \<noteq> 0 \<or> mr_wal_generation record ! 1 \<noteq> 0 \<or>
          mr_safe_checkpoint_sequence record \<noteq> 0 \<or> active_table_count \<noteq> 0 \<or>
          mr_next_table_generation record \<noteq> 1 \<or> mr_active_table_bank record \<noteq> 0 \<or>
          mr_active_value_bank record \<noteq> 0 \<or> mr_value_bank_generation record ! 0 \<noteq> 1 \<or>
          mr_value_bank_generation record ! 1 \<noteq> 1 \<or>
          unat (mr_value_bank_tail record ! 0) \<noteq> identity_region_size \<or>
          unat (mr_value_bank_tail record ! 1) \<noteq> identity_region_size)) \<or>
       (mr_state record = manifest_state_ready \<and>
         (mr_wal_generation record ! unat (mr_active_wal_slot record) = 0 \<or>
          unat (mr_active_value_bank record) \<ge> value_bank_count \<or>
          mr_value_bank_generation record ! 0 = 0 \<or> mr_value_bank_generation record ! 1 = 0 \<or>
          unat (mr_value_bank_tail record ! 0) < identity_region_size \<or>
          unat (mr_value_bank_tail record ! 1) < identity_region_size \<or>
          mr_value_bank_tail record ! 0 > sg_value_bank_size (mr_geometry record) \<or>
          mr_value_bank_tail record ! 1 > sg_value_bank_size (mr_geometry record) \<or>
          unat (mr_value_bank_tail record ! 0) mod value_chunk_size \<noteq> 0 \<or>
          unat (mr_value_bank_tail record ! 1) mod value_chunk_size \<noteq> 0)))"

definition encode_manifest_fields :: "bytes \<Rightarrow> manifest_record \<Rightarrow> u32 \<Rightarrow> bytes option" where
  "encode_manifest_fields buf record active_table_count = do {
     buf \<leftarrow> write_u64_le buf 28 (mr_database_id record);
     buf \<leftarrow> write_u16_le buf 36 (mr_state record);
     buf \<leftarrow> write_u16_le buf 38 geometry_revision;
     buf \<leftarrow> write_u32_le buf 40 (sg_alignment (mr_geometry record));
     buf \<leftarrow> write_u32_le buf 44 (sg_manifest_size (mr_geometry record));
     buf \<leftarrow> write_u32_le buf 48 (sg_wal_size (mr_geometry record));
     buf \<leftarrow> write_u32_le buf 52 (sg_wal_count (mr_geometry record));
     buf \<leftarrow> write_u32_le buf 56 (sg_table_size (mr_geometry record));
     buf \<leftarrow> write_u32_le buf 60 (sg_table_count (mr_geometry record));
     buf \<leftarrow> write_u32_le buf 64 (sg_value_bank_size (mr_geometry record));
     buf \<leftarrow> write_u32_le buf 68 (sg_value_bank_count (mr_geometry record));
     buf \<leftarrow> write_u64_le buf 72 (sg_max_live_bytes (mr_geometry record));
     buf \<leftarrow> write_u64_le buf 80 (sg_provisioned_size (mr_geometry record));
     buf \<leftarrow> write_u16_le buf 88 logical_limits_revision;
     buf \<leftarrow> write_u32_le buf 92 (ll_wal_frame_bytes (mr_limits record));
     buf \<leftarrow> write_u32_le buf 96 (ll_max_namespaces (mr_limits record));
     buf \<leftarrow> write_u32_le buf 100 (ll_max_open_handles (mr_limits record));
     buf \<leftarrow> write_u32_le buf 104 (ll_memtable_entries (mr_limits record));
     buf \<leftarrow> write_u32_le buf 108 (ll_memtable_data_bytes (mr_limits record));
     buf \<leftarrow> write_u32_le buf 112 (ll_max_transaction_mutations (mr_limits record));
     buf \<leftarrow> write_u32_le buf 116 (ll_transaction_staging_bytes (mr_limits record));
     buf \<leftarrow> write_u32_le buf 120 (ll_sstable_block_bytes (mr_limits record));
     buf \<leftarrow> write_u32_le buf 124 (ll_inline_value_bytes (mr_limits record));
     buf \<leftarrow> write_u32_le buf 128 (mr_active_wal_slot record);
     buf \<leftarrow> write_u64_le buf 132 (mr_wal_generation record ! 0);
     buf \<leftarrow> write_u64_le buf 140 (mr_wal_generation record ! 1);
     buf \<leftarrow> write_u64_le buf 148 (mr_safe_checkpoint_sequence record);
     buf \<leftarrow> write_u64_le buf 156 (mr_next_table_generation record);
     buf \<leftarrow> write_u32_le buf 164 active_table_count;
     buf \<leftarrow> write_u32_le buf 168 (mr_active_table_bank record);
     buf \<leftarrow> write_u32_le buf 172 (mr_active_value_bank record);
     buf \<leftarrow> write_u64_le buf 176 (mr_value_bank_generation record ! 0);
     buf \<leftarrow> write_u64_le buf 184 (mr_value_bank_generation record ! 1);
     buf \<leftarrow> write_u32_le buf 192 (mr_value_bank_tail record ! 0);
     write_u32_le buf 196 (mr_value_bank_tail record ! 1) }"

fun encode_manifest_tables :: "bytes \<Rightarrow> nat \<Rightarrow> table_reference list \<Rightarrow> bytes option" where
  "encode_manifest_tables buf slot [] = Some buf"
| "encode_manifest_tables buf slot (reference # references) = do {
     buf \<leftarrow> encode_manifest_table_reference buf
              (manifest_table_reference_offset + slot * manifest_table_reference_size) reference;
     encode_manifest_tables buf (Suc slot) references }"

definition encode_manifest_record :: "config \<Rightarrow> bytes \<Rightarrow> manifest_record \<Rightarrow> bytes option" where
  "encode_manifest_record cfg buf record =
     (case (if bank_geometry_valid record
            then collect_table_references record [0..<max_table_count] (0, 0, 0) else None) of
        None \<Rightarrow> None
      | Some summary \<Rightarrow>
          if length buf < manifest_record_size \<or> mr_generation record = 0 \<or>
             manifest_content_invalid cfg record summary then None
          else do {
            buf \<leftarrow> Some (put buf 0 (zeroes manifest_record_size));
            buf \<leftarrow> encode_file_prefix buf manifest_magic kind_manifest 0 (mr_generation record)
                     (of_nat (manifest_record_size - file_prefix_size));
            buf \<leftarrow> encode_manifest_fields buf record (fst summary);
            buf \<leftarrow> encode_manifest_tables buf 0 (mr_tables record);
            write_u32_le buf manifest_record_checksum_offset
              (calc_record_crc buf manifest_record_size manifest_record_checksum_offset) })"

text \<open>The fields of a stored record, without its tables, and the three values only checked.\<close>

definition decode_manifest_fields :: "bytes \<Rightarrow> u64 \<Rightarrow> (manifest_record \<times> u16 \<times> u16 \<times> u32) option" where
  "decode_manifest_fields buf generation = do {
     database_id \<leftarrow> read_u64_le buf 28;
     state \<leftarrow> read_u16_le buf 36;
     geometry_format \<leftarrow> read_u16_le buf 38;
     g_alignment \<leftarrow> read_u32_le buf 40;
     g_manifest_size \<leftarrow> read_u32_le buf 44;
     g_wal_size \<leftarrow> read_u32_le buf 48;
     g_wal_count \<leftarrow> read_u32_le buf 52;
     g_table_size \<leftarrow> read_u32_le buf 56;
     g_table_count \<leftarrow> read_u32_le buf 60;
     g_value_bank_size \<leftarrow> read_u32_le buf 64;
     g_value_bank_count \<leftarrow> read_u32_le buf 68;
     g_max_live_bytes \<leftarrow> read_u64_le buf 72;
     g_provisioned_size \<leftarrow> read_u64_le buf 80;
     limits_format \<leftarrow> read_u16_le buf 88;
     l_wal_frame_bytes \<leftarrow> read_u32_le buf 92;
     l_max_namespaces \<leftarrow> read_u32_le buf 96;
     l_max_open_handles \<leftarrow> read_u32_le buf 100;
     l_memtable_entries \<leftarrow> read_u32_le buf 104;
     l_memtable_data_bytes \<leftarrow> read_u32_le buf 108;
     l_max_transaction_mutations \<leftarrow> read_u32_le buf 112;
     l_transaction_staging_bytes \<leftarrow> read_u32_le buf 116;
     l_sstable_block_bytes \<leftarrow> read_u32_le buf 120;
     l_inline_value_bytes \<leftarrow> read_u32_le buf 124;
     active_wal_slot \<leftarrow> read_u32_le buf 128;
     wal_generation_0 \<leftarrow> read_u64_le buf 132;
     wal_generation_1 \<leftarrow> read_u64_le buf 140;
     safe_checkpoint_sequence \<leftarrow> read_u64_le buf 148;
     next_table_generation \<leftarrow> read_u64_le buf 156;
     encoded_active_table_count \<leftarrow> read_u32_le buf 164;
     active_table_bank \<leftarrow> read_u32_le buf 168;
     active_value_bank \<leftarrow> read_u32_le buf 172;
     value_bank_generation_0 \<leftarrow> read_u64_le buf 176;
     value_bank_generation_1 \<leftarrow> read_u64_le buf 184;
     value_bank_tail_0 \<leftarrow> read_u32_le buf 192;
     value_bank_tail_1 \<leftarrow> read_u32_le buf 196;
     Some (\<lparr>mr_generation = generation, mr_database_id = database_id, mr_state = state,
            mr_geometry = \<lparr>sg_provisioned_size = g_provisioned_size, sg_max_live_bytes = g_max_live_bytes,
              sg_manifest_size = g_manifest_size, sg_wal_size = g_wal_size, sg_wal_count =
              g_wal_count, sg_table_size = g_table_size, sg_table_count = g_table_count,
              sg_value_bank_size = g_value_bank_size, sg_value_bank_count = g_value_bank_count,
              sg_alignment = g_alignment\<rparr>,
            mr_limits = \<lparr>ll_wal_frame_bytes = l_wal_frame_bytes, ll_max_namespaces = l_max_namespaces,
              ll_max_open_handles = l_max_open_handles, ll_memtable_entries =
              l_memtable_entries, ll_memtable_data_bytes = l_memtable_data_bytes,
              ll_max_transaction_mutations = l_max_transaction_mutations,
              ll_transaction_staging_bytes = l_transaction_staging_bytes,
              ll_sstable_block_bytes = l_sstable_block_bytes, ll_inline_value_bytes =
              l_inline_value_bytes\<rparr>,
            mr_active_wal_slot = active_wal_slot,
            mr_wal_generation = [wal_generation_0, wal_generation_1],
            mr_safe_checkpoint_sequence = safe_checkpoint_sequence,
            mr_next_table_generation = next_table_generation,
            mr_active_table_bank = active_table_bank, mr_active_value_bank = active_value_bank,
            mr_value_bank_generation = [value_bank_generation_0, value_bank_generation_1],
            mr_value_bank_tail = [value_bank_tail_0, value_bank_tail_1],
            mr_tables = replicate max_table_count empty_table_reference\<rparr>,
           geometry_format, limits_format, encoded_active_table_count) }"

fun decode_manifest_tables ::
  "bytes \<Rightarrow> manifest_record \<Rightarrow> nat list \<Rightarrow> table_summary \<Rightarrow>
     format_status + manifest_record \<times> table_summary" where
  "decode_manifest_tables buf record [] summary = Inr (record, summary)"
| "decode_manifest_tables buf record (slot # slots) summary =
     (case decode_manifest_table_reference buf
             (manifest_table_reference_offset + slot * manifest_table_reference_size) of
        Inl status \<Rightarrow> Inl status
      | Inr reference \<Rightarrow>
          let record = record\<lparr>mr_tables := (mr_tables record)[slot := reference]\<rparr> in
          (case table_reference_step record (mr_tables record) slot summary of
             None \<Rightarrow> Inl FS_corrupt
           | Some summary \<Rightarrow> decode_manifest_tables buf record slots summary))"

definition decode_manifest_record :: "config \<Rightarrow> bytes \<Rightarrow> format_status + manifest_record" where
  "decode_manifest_record cfg buf =
     check (length buf < manifest_record_size) FS_invalid_size
    (case decode_file_prefix buf manifest_magic kind_manifest of
       Inl status \<Rightarrow> Inl status
     | Inr prefix \<Rightarrow>
         check (unat (fp_payload_size prefix) \<noteq> manifest_record_size - file_prefix_size) FS_invalid_size
        (decoded_or FS_invalid_size (do {
            fields \<leftarrow> decode_manifest_fields buf (fp_generation prefix);
            checksum \<leftarrow> read_u32_le buf manifest_record_checksum_offset;
            Some (fields, checksum) })
         (\<lambda>((record, geometry_format, limits_format, encoded_active_table_count), checksum).
           case decode_manifest_tables buf record [0..<max_table_count] (0, 0, 0) of
             Inl status \<Rightarrow> Inl status
           | Inr (record, summary) \<Rightarrow>
               check (geometry_format \<noteq> geometry_revision \<or> limits_format \<noteq> logical_limits_revision \<or>
                      \<not> is_zero_range buf 90 2 \<or> \<not> is_zero_range buf 200 24 \<or>
                      \<not> is_zero_range buf
                          (manifest_table_reference_offset + max_table_count * manifest_table_reference_size)
                          (manifest_record_checksum_offset -
                            (manifest_table_reference_offset +
                             max_table_count * manifest_table_reference_size)) \<or>
                      fst summary \<noteq> encoded_active_table_count \<or>
                      manifest_content_invalid cfg record summary) FS_corrupt
              (check (checksum \<noteq> calc_record_crc buf manifest_record_size manifest_record_checksum_offset)
                 FS_corrupt
              (Inr record)))))"

section \<open>Round trip of the manifest record\<close>

lemma manifest_fields_roundtrip:
  assumes "200 \<le> length buf" "manifest_arrays r"
  shows "\<exists>b. encode_manifest_fields buf r n = Some b \<and> length b = length buf \<and>
    decode_manifest_fields b (mr_generation r) =
      Some (r\<lparr>mr_tables := replicate max_table_count empty_table_reference\<rparr>,
            geometry_revision, logical_limits_revision, n) \<and>
    get b 90 2 = get buf 90 2 \<and> (\<forall>i n. i + n \<le> 28 \<or> 200 \<le> i \<longrightarrow> get b i n = get buf i n)"
proof -
  obtain g0 g1 v0 v1 t0 t1 where arr: "mr_wal_generation r = [g0, g1]"
    "mr_value_bank_generation r = [v0, v1]" "mr_value_bank_tail r = [t0, t1]"
    using assms(2) by (auto simp: manifest_arrays_def format_consts numeral_2_eq_2 length_Suc_conv)
  then show ?thesis
    using assms(1)
    by (cases r; cases "mr_geometry r"; cases "mr_limits r")
       (simp add: encode_manifest_fields_def decode_manifest_fields_def buffer_simps)
qed

lemma decode_manifest_fields_cong:
  assumes "get b 28 172 = get b' 28 172" "length b = length b'" "200 \<le> length b'"
  shows "decode_manifest_fields b g = decode_manifest_fields b' g"
proof -
  have sub: "get b i n = get b' i n" if "28 \<le> i" "i + n \<le> 200" for i n
    using arg_cong [OF assms(1), of "\<lambda>x. get x (i - 28) n"] that by (simp add: get_get)
  show ?thesis
    using assms(2,3) by (simp add: decode_manifest_fields_def buffer_simps sub)
qed

lemma encode_manifest_tables_roundtrip:
  assumes "manifest_table_reference_offset + (slot + length rs) * 56 \<le> length buf"
    "\<And>i n. 224 + slot * 56 \<le> i \<Longrightarrow> i + n \<le> 224 + (slot + length rs) * 56 \<Longrightarrow> get buf i n = zeroes n"
    "\<forall>r \<in> set rs. tr_active r \<longrightarrow> tr_level r = 0"
  shows "\<exists>b. encode_manifest_tables buf slot rs = Some b \<and> length b = length buf \<and>
    (\<forall>i < length rs. decode_manifest_table_reference b (224 + (slot + i) * 56) =
       Inr (stored_reference (rs ! i))) \<and>
    (\<forall>i n. i + n \<le> 224 + slot * 56 \<or> 224 + (slot + length rs) * 56 \<le> i \<longrightarrow> get b i n = get buf i n)"
  using assms
proof (induction rs arbitrary: buf slot)
  case Nil
  then show ?case by simp
next
  case (Cons r rs)
  let ?off = "224 + slot * 56"
  have "get buf ?off 56 = zeroes 56" "?off + 56 \<le> length buf"
    using Cons.prems(1,2) by (auto simp: format_consts)
  then obtain b where b: "encode_manifest_table_reference buf ?off r = Some b" "length b = length buf"
    "decode_manifest_table_reference b ?off = Inr (stored_reference r)"
    "\<forall>i n. i + n \<le> ?off \<or> ?off + 56 \<le> i \<longrightarrow> get b i n = get buf i n"
    using manifest_table_reference_roundtrip [of buf ?off r] Cons.prems(3) by auto
  have "\<exists>c. encode_manifest_tables b (Suc slot) rs = Some c \<and> length c = length b \<and>
    (\<forall>i < length rs. decode_manifest_table_reference c (224 + (Suc slot + i) * 56) =
       Inr (stored_reference (rs ! i))) \<and>
    (\<forall>i n. i + n \<le> 224 + Suc slot * 56 \<or> 224 + (Suc slot + length rs) * 56 \<le> i \<longrightarrow>
       get c i n = get b i n)"
    using Cons.prems b by (intro Cons.IH) (auto simp: format_consts)
  then obtain c where c: "encode_manifest_tables b (Suc slot) rs = Some c" "length c = length b"
    "\<And>i. i < length rs \<Longrightarrow> decode_manifest_table_reference c (224 + (Suc slot + i) * 56) =
       Inr (stored_reference (rs ! i))"
    "\<And>i n. i + n \<le> 224 + Suc slot * 56 \<or> 224 + (Suc slot + length rs) * 56 \<le> i \<Longrightarrow>
       get c i n = get b i n" by blast
  have "decode_manifest_table_reference c ?off = Inr (stored_reference r)"
    using b(3) c(2) c(4) [of ?off 56] by (subst decode_manifest_table_reference_cong [of c _ b]) auto
  then have "decode_manifest_table_reference c (224 + (slot + i) * 56) =
      Inr (stored_reference ((r # rs) ! i))" if "i < Suc (length rs)" for i
    using that c(3) [of "i - 1"] by (cases i) auto
  then show ?case
    using b c by (simp add: format_consts)
qed

text \<open>Decoding repeats the checks of the encoder on the references it has read so far.\<close>

lemma table_reference_step_stored:
  assumes "\<forall>i \<le> slot. tables' ! i = stored_reference (tables ! i)"
    "bank_geometry_valid r' = bank_geometry_valid r" "bank_start r' = bank_start r"
    "bank_end r' = bank_end r" "mr_safe_checkpoint_sequence r' = mr_safe_checkpoint_sequence r"
  shows "table_reference_step r' tables' slot summary = table_reference_step r tables slot summary"
proof -
  have "tr_active (tables' ! i) = tr_active (tables ! i)"
    "tr_active (tables ! i) \<Longrightarrow> tr_generation (tables' ! i) = tr_generation (tables ! i)"
    "tr_active (tables ! i) \<Longrightarrow> tr_max_sequence (tables' ! i) = tr_max_sequence (tables ! i)"
    "valid_table_reference (tables' ! i) s c = valid_table_reference (tables ! i) s c"
    if "i \<le> slot" for i s c
    using assms(1) that by auto
  then show ?thesis
    by (auto simp: table_reference_step_def assms(2-) Let_def split: prod.splits)
qed

lemma decode_manifest_tables_collect:
  assumes "\<And>i. i < 16 \<Longrightarrow> decode_manifest_table_reference b (224 + i * 56) =
      Inr (stored_reference (mr_tables r ! i))"
    "collect_table_references r [k..<16] summary = Some summary'" "k \<le> 16"
    "length (mr_tables r) = 16" "r' = r\<lparr>mr_tables := ts\<rparr>" "length ts = 16"
    "\<forall>i < k. ts ! i = stored_reference (mr_tables r ! i)"
  shows "decode_manifest_tables b r' [k..<16] summary =
     Inr (r\<lparr>mr_tables := map stored_reference (mr_tables r)\<rparr>, summary')"
  using assms(2,3,5-)
proof (induction "16 - k" arbitrary: k summary r' ts)
  case 0
  then have "ts = map stored_reference (mr_tables r)"
    using assms(4) by (intro nth_equalityI) auto
  with 0 show ?case by simp
next
  case (Suc m)
  let ?ts = "ts[k := stored_reference (mr_tables r ! k)]"
  have k: "[k..<16] = k # [Suc k..<16]" "k < 16" using Suc by (auto simp: upt_conv_Cons)
  have step: "table_reference_step (r\<lparr>mr_tables := ?ts\<rparr>) ?ts k summary =
      table_reference_step r (mr_tables r) k summary"
    using Suc.prems k
    by (intro table_reference_step_stored)
       (auto simp: nth_list_update bank_geometry_valid_def bank_start_def bank_end_def)
  obtain s where s: "table_reference_step r (mr_tables r) k summary = Some s"
    "collect_table_references r [Suc k..<16] s = Some summary'"
    using Suc.prems(1) k by auto
  have "decode_manifest_tables b (r\<lparr>mr_tables := ?ts\<rparr>) [Suc k..<16] s =
     Inr (r\<lparr>mr_tables := map stored_reference (mr_tables r)\<rparr>, summary')"
    using Suc s k by (intro Suc.hyps(1) [of "Suc k" _ _ ?ts]) (auto simp: nth_list_update less_Suc_eq)
  with step s k show ?case
    using Suc.prems(3) assms(1) [of k] by (simp add: format_consts)
qed

lemma collect_levels:
  assumes "collect_table_references r slots s = Some s'" "i \<in> set slots" "tr_active (mr_tables r ! i)"
  shows "valid_table_reference (mr_tables r ! i) (of_nat i) (mr_safe_checkpoint_sequence r)"
  using assms
  by (induction slots arbitrary: s)
     (auto simp: table_reference_step_def Let_def split: prod.splits if_splits)

text \<open>What the encoder accepts, in one predicate.\<close>

definition manifest_summary :: "manifest_record \<Rightarrow> table_summary option" where
  "manifest_summary r =
     (if bank_geometry_valid r then collect_table_references r [0..<16] (0, 0, 0) else None)"

definition valid_manifest_record :: "config \<Rightarrow> manifest_record \<Rightarrow> bool" where
  "valid_manifest_record cfg r \<longleftrightarrow>
     manifest_arrays r \<and> mr_generation r \<noteq> 0 \<and>
     (case manifest_summary r of None \<Rightarrow> False | Some s \<Rightarrow> \<not> manifest_content_invalid cfg r s)"

definition stored_manifest :: "manifest_record \<Rightarrow> manifest_record" where
  "stored_manifest r = r\<lparr>mr_tables := map stored_reference (mr_tables r)\<rparr>"

lemma manifest_content_invalid_tables:
  "manifest_content_invalid cfg (r\<lparr>mr_tables := ts\<rparr>) s = manifest_content_invalid cfg r s"
  by (simp add: manifest_content_invalid_def)

lemma manifest_record_roundtrip:
  assumes valid: "valid_manifest_record cfg r" and len: "4096 \<le> length buf"
  shows "\<exists>b. encode_manifest_record cfg buf r = Some b \<and> length b = length buf \<and>
             decode_manifest_record cfg b = Inr (stored_manifest r)"
proof -
  obtain s where geo: "bank_geometry_valid r"
    and s: "collect_table_references r [0..<16] (0, 0, 0) = Some s"
    and content: "\<not> manifest_content_invalid cfg r s" and arr: "manifest_arrays r"
    and gen: "mr_generation r \<noteq> 0"
    using valid by (auto simp: valid_manifest_record_def manifest_summary_def
        split: option.splits if_splits)
  have tl: "length (mr_tables r) = 16" using arr by (simp add: manifest_arrays_def format_consts)
  let ?z = "put buf 0 (zeroes 4096)"
  have z: "28 \<le> length ?z" using len by simp
  obtain b1 p where b1: "encode_file_prefix ?z manifest_magic kind_manifest 0 (mr_generation r) 4068 = Some b1"
    "length b1 = length ?z" "decode_file_prefix b1 manifest_magic kind_manifest = Inr p"
    "decoded_prefix_of manifest_magic kind_manifest 0 (mr_generation r) 4068 p"
    "\<And>i n. 28 \<le> i \<Longrightarrow> get b1 i n = get ?z i n" "\<And>i. 28 \<le> i \<Longrightarrow> b1 ! i = ?z ! i"
    by (rule encode_file_prefix_ok [OF z _ _ gen, of manifest_magic kind_manifest 0 4068])
       (use that in \<open>auto simp: format_consts\<close>)
  obtain b2 where b2: "encode_manifest_fields b1 r (fst s) = Some b2" "length b2 = length b1"
    "decode_manifest_fields b2 (mr_generation r) =
      Some (r\<lparr>mr_tables := replicate max_table_count empty_table_reference\<rparr>,
            geometry_revision, logical_limits_revision, fst s)"
    "get b2 90 2 = get b1 90 2" "\<And>i n. i + n \<le> 28 \<or> 200 \<le> i \<Longrightarrow> get b2 i n = get b1 i n"
    using manifest_fields_roundtrip [of b1 r "fst s"] arr b1(2) len by auto
  have zero2: "get b2 i n = zeroes n" if "200 \<le> i" "i + n \<le> 4096" for i n
    using that b2(5) b1(5) len by (simp add: buffer_simps)
  obtain b3 where b3: "encode_manifest_tables b2 0 (mr_tables r) = Some b3" "length b3 = length b2"
    "\<And>i. i < 16 \<Longrightarrow> decode_manifest_table_reference b3 (224 + i * 56) =
       Inr (stored_reference (mr_tables r ! i))"
    "\<And>i n. i + n \<le> 224 \<or> 1120 \<le> i \<Longrightarrow> get b3 i n = get b2 i n"
    using encode_manifest_tables_roundtrip [of 0 "mr_tables r" b2] zero2 tl b2(2) b1(2) len
      collect_levels [OF s]
    by (force simp: format_consts in_set_conv_nth valid_table_reference_def)
  define b4 where "b4 = put b3 4092 (le_bytes 4 (calc_record_crc b3 4096 4092))"
  have lens: "length b4 = length buf" "length b3 = length buf" "length b2 = length buf"
    "length b1 = length buf"
    using b4_def b3(2) b2(2) b1(2) by simp_all
  have get4: "get b4 i n = get b3 i n" if "i + n \<le> 4092" for i n
    using that by (simp add: b4_def buffer_simps)
  have prefix: "decode_file_prefix b4 manifest_magic kind_manifest = Inr p"
    using decode_file_prefix_cong [of b4 b1] get4 b3(4) b2(5) lens b1(3) by simp
  have fields: "decode_manifest_fields b4 (mr_generation r) =
      Some (r\<lparr>mr_tables := replicate max_table_count empty_table_reference\<rparr>,
            geometry_revision, logical_limits_revision, fst s)"
    using decode_manifest_fields_cong [of b4 b2] get4 b3(4) lens b2(3) len by simp
  have refs: "decode_manifest_table_reference b4 (224 + i * 56) =
      Inr (stored_reference (mr_tables r ! i))" if "i < 16" for i
    using decode_manifest_table_reference_cong [of b4 "224 + i * 56" b3] b3(3) [OF that] get4 that lens
    by simp
  have tables: "decode_manifest_tables b4
      (r\<lparr>mr_tables := replicate max_table_count empty_table_reference\<rparr>) [0..<16] (0, 0, 0) =
      Inr (stored_manifest r, s)"
    unfolding stored_manifest_def
    by (rule decode_manifest_tables_collect [OF refs s, where ts = "replicate 16 empty_table_reference"])
       (simp_all add: tl format_consts)
  have zero: "get b4 90 2 = zeroes 2" "get b4 200 24 = zeroes 24" "get b4 1120 2972 = zeroes 2972"
    using get4 b3(4) zero2 b2(4) b1(5) len by (simp_all add: buffer_simps)
  have content': "\<not> manifest_content_invalid cfg (stored_manifest r) s"
    using content by (simp add: stored_manifest_def manifest_content_invalid_tables)
  have p: "fp_generation p = mr_generation r" "unat (fp_payload_size p) = 4068"
    using b1(4) by (simp_all add: decoded_prefix_of_def)
  have crc: "read_u32_le b4 4092 = Some (calc_record_crc b4 4096 4092)"
    using lens len by (simp add: b4_def buffer_simps)
  have "encode_manifest_record cfg buf r = Some b4"
    using geo s content gen len b1(1) b2(1) b3(1) lens
    by (simp add: encode_manifest_record_def b4_def format_consts write_le)
  moreover have "decode_manifest_record cfg b4 = Inr (stored_manifest r)"
    using len lens prefix fields tables zero content' p crc
    by (simp add: decode_manifest_record_def is_zero_range_get format_consts)
  ultimately show ?thesis
    using lens by blast
qed
section \<open>What an accepted manifest guarantees\<close>

lemma table_reference_step_cong:
  assumes "\<forall>i \<le> slot. tables' ! i = tables ! i"
    "bank_geometry_valid r' = bank_geometry_valid r" "bank_start r' = bank_start r"
    "bank_end r' = bank_end r" "mr_safe_checkpoint_sequence r' = mr_safe_checkpoint_sequence r"
  shows "table_reference_step r' tables' slot summary = table_reference_step r tables slot summary"
  using assms by (auto simp: table_reference_step_def Let_def split: prod.splits)

lemma decode_manifest_tables_InrD:
  assumes "decode_manifest_tables b r [k..<16] s = Inr (r', s')" "k \<le> 16" "length (mr_tables r) = 16"
  shows "\<exists>ts. r' = r\<lparr>mr_tables := ts\<rparr> \<and> length ts = 16 \<and> (\<forall>i < k. ts ! i = mr_tables r ! i) \<and>
     collect_table_references r' [k..<16] s = Some s'"
  using assms
proof (induction "16 - k" arbitrary: k s r)
  case 0
  then show ?case by (intro exI [of _ "mr_tables r"]) auto
next
  case (Suc m)
  have k: "[k..<16] = k # [Suc k..<16]" "k < 16" using Suc by (auto simp: upt_conv_Cons)
  obtain ref s2 where step: "decode_manifest_table_reference b (224 + k * 56) = Inr ref"
    "table_reference_step (r\<lparr>mr_tables := (mr_tables r)[k := ref]\<rparr>) ((mr_tables r)[k := ref]) k s = Some s2"
    "decode_manifest_tables b (r\<lparr>mr_tables := (mr_tables r)[k := ref]\<rparr>) [Suc k..<16] s2 = Inr (r', s')"
    using Suc.prems(1) k by (auto simp: Let_def format_consts split: sum.splits option.splits)
  obtain ts where ts: "r' = r\<lparr>mr_tables := ts\<rparr>" "length ts = 16"
    "\<forall>i < Suc k. ts ! i = (mr_tables r)[k := ref] ! i"
    "collect_table_references r' [Suc k..<16] s2 = Some s'"
    using Suc.hyps(1) [OF _ step(3)] Suc.hyps(2) Suc.prems(3) k by force
  have "table_reference_step r' (mr_tables r') k s = Some s2"
    using step(2) ts
    by (subst table_reference_step_cong [of k _ "(mr_tables r)[k := ref]" _ "r\<lparr>mr_tables := (mr_tables r)[k := ref]\<rparr>"])
       (auto simp: bank_geometry_valid_def bank_start_def bank_end_def)
  with ts k show ?case
    by (intro exI [of _ ts]) auto
qed

lemma decode_manifest_fields_SomeD:
  assumes "decode_manifest_fields b g = Some (r, x)"
  shows "mr_generation r = g" "length (mr_tables r) = 16" "manifest_arrays r"
  using assms by (auto simp: decode_manifest_fields_def manifest_arrays_def format_consts)

text \<open>
  The decoder checks the bank number only at an active slot: a record without active tables is
  accepted with any \<open>active_table_bank\<close>, although the encoder would refuse it.
\<close>

lemma decode_manifest_record_InrD:
  assumes "decode_manifest_record cfg b = Inr r"
  shows "mr_active_table_bank r < 2 \<Longrightarrow> valid_manifest_record cfg r" "4096 \<le> length b"
    "manifest_arrays r" "mr_generation r \<noteq> 0"
    "\<exists>s. collect_table_references r [0..<16] (0, 0, 0) = Some s \<and> \<not> manifest_content_invalid cfg r s"
proof -
  have len: "4096 \<le> length b"
    using assms by (simp add: decode_manifest_record_def format_consts)
  obtain p where p: "decode_file_prefix b manifest_magic kind_manifest = Inr p"
    using assms by (auto simp: decode_manifest_record_def split: sum.splits)
  obtain r0 x where r0: "decode_manifest_fields b (fp_generation p) = Some (r0, x)"
    using assms p by (auto simp: decode_manifest_record_def decoded_or_Inr)
  obtain r1 s where t1: "decode_manifest_tables b r0 [0..<16] (0, 0, 0) = Inr (r1, s)"
    using assms p r0 by (cases "decode_manifest_tables b r0 [0..<16] (0, 0, 0)")
      (auto simp: decode_manifest_record_def decoded_or_Inr format_consts)
  with assms p r0 have t: "decode_manifest_tables b r0 [0..<16] (0, 0, 0) = Inr (r, s)"
    and c: "\<not> manifest_content_invalid cfg r s"
    by (auto simp: decode_manifest_record_def decoded_or_Inr format_consts split: prod.splits)
  obtain ts where ts: "r = r0\<lparr>mr_tables := ts\<rparr>" "length ts = 16"
    "collect_table_references r [0..<16] (0, 0, 0) = Some s"
    using decode_manifest_tables_InrD [OF t] decode_manifest_fields_SomeD(2) [OF r0] by auto
  have cap: "validate_compaction_capacity cfg (mr_geometry r) (mr_limits r)"
    using c by (auto simp: manifest_content_invalid_def split: prod.splits)
  have geo: "validate_storage_geometry (mr_geometry r)"
    using cap by (auto simp: validate_compaction_capacity_def Let_def split: if_splits)
  show "4096 \<le> length b" by (fact len)
  show arr: "manifest_arrays r"
    using decode_manifest_fields_SomeD(3) [OF r0] ts by (simp add: manifest_arrays_def format_consts)
  show gen: "mr_generation r \<noteq> 0"
    using decode_manifest_fields_SomeD(1) [OF r0] decode_file_prefix_InrD(3) [OF p] ts by simp
  show "\<exists>s. collect_table_references r [0..<16] (0, 0, 0) = Some s \<and> \<not> manifest_content_invalid cfg r s"
    using ts c by blast
  assume "mr_active_table_bank r < 2"
  then have "bank_geometry_valid r"
    using geo by (auto simp: bank_geometry_valid_def validate_storage_geometry_def word_le_nat_alt
        not_less split: if_splits)
  then show "valid_manifest_record cfg r"
    using ts c arr gen by (simp add: valid_manifest_record_def manifest_summary_def)
qed

end
