(* ===== verification/Value_Format.thy ===== *)
theory Value_Format
  imports File_Format
begin

text \<open>
  External values: the reference a record keeps to a value stored in a value bank, and the
  4096-byte chunk the bank is made of (\<open>on9kvdb_format.cpp\<close>). The checks of the reference
  keep the 64-bit checked arithmetic of the source.
\<close>

record value_ref =
  vr_bank_generation :: u64
  vr_first_chunk_offset :: u32
  vr_value_size :: u32
  vr_value_checksum :: u32
  vr_bank_slot :: u8

definition empty_value_ref :: value_ref where
  "empty_value_ref = \<lparr>vr_bank_generation = 0, vr_first_chunk_offset = 0, vr_value_size = 0,
     vr_value_checksum = 0, vr_bank_slot = - 1\<rparr>"

text \<open>\<open>(static_cast<uint64_t>(value_size) + value_chunk_payload_size - 1U) / value_chunk_payload_size\<close>\<close>

definition chunk_count_of :: "u32 \<Rightarrow> u64" where
  "chunk_count_of value_size =
     (ucast value_size + of_nat value_chunk_payload_size - 1) div of_nat value_chunk_payload_size"

definition value_ref_is_valid :: "value_ref \<Rightarrow> u32 \<Rightarrow> bool" where
  "value_ref_is_valid reference bank_size =
     (if unat (vr_bank_slot reference) \<ge> value_bank_count \<or> vr_bank_generation reference = 0 \<or>
         vr_value_size reference = 0 \<or> vr_value_size reference > max_value_len \<or>
         unat (vr_first_chunk_offset reference) < identity_region_size \<or>
         unat (vr_first_chunk_offset reference) mod value_chunk_size \<noteq> 0 \<or>
         unat bank_size \<le> identity_region_size \<or>
         vr_first_chunk_offset reference > bank_size - of_nat value_chunk_size then False
      else
        (case do {
           bytes \<leftarrow> checked_mul (chunk_count_of (vr_value_size reference)) (of_nat value_chunk_size);
           checked_add (ucast (vr_first_chunk_offset reference)) bytes }
         of None \<Rightarrow> False
         | Some end_offset \<Rightarrow> end_offset \<le> ucast bank_size))"

definition chunk_count_nat :: "nat \<Rightarrow> nat" where
  "chunk_count_nat n = (n + 4031) div 4032"

lemma unat_chunk_count: "unat (chunk_count_of v) = chunk_count_nat (unat v)"
proof -
  have "unat v + 4031 < 2 ^ 64"
    using unat_less_pow [of v] by simp
  moreover have "unat (ucast v :: u64) = unat v"
    using unat_less_pow [of v] by (simp add: unsigned_ucast_eq take_bit_nat_eq_self)
  ultimately have *: "unat (ucast v + 4031 :: u64) = unat v + 4031"
    by (simp add: unat_word_ariths)
  have "chunk_count_of v = (ucast v + 4031) div 4032"
    by (simp add: chunk_count_of_def format_consts add.commute)
  then have "unat (chunk_count_of v) = (unat v + 4031) div unat (4032 :: u64)"
    by (simp only: unat_div *)
  then show ?thesis
    by (simp add: chunk_count_nat_def)
qed

text \<open>What acceptance means: the whole chunk sequence lies in the bank, behind the identities.\<close>

lemma value_ref_is_valid_D:
  assumes "value_ref_is_valid r bank_size"
  shows "unat (vr_bank_slot r) < 2" "vr_bank_generation r \<noteq> 0" "0 < unat (vr_value_size r)"
    "8192 \<le> unat (vr_first_chunk_offset r)" "4096 dvd unat (vr_first_chunk_offset r)"
    "unat (vr_first_chunk_offset r) + chunk_count_nat (unat (vr_value_size r)) * 4096 \<le> unat bank_size"
proof -
  have uc: "unat (ucast (x :: u32) :: u64) = unat x" for x
    using unat_less_pow [of x] by (simp add: unsigned_ucast_eq take_bit_nat_eq_self)
  show "unat (vr_bank_slot r) < 2" "vr_bank_generation r \<noteq> 0" "0 < unat (vr_value_size r)"
    "8192 \<le> unat (vr_first_chunk_offset r)" "4096 dvd unat (vr_first_chunk_offset r)"
    using assms by (auto simp: value_ref_is_valid_def format_consts not_less not_le unat_gt_0
        mod_eq_0_iff_dvd split: if_splits)
  show "unat (vr_first_chunk_offset r) + chunk_count_nat (unat (vr_value_size r)) * 4096 \<le> unat bank_size"
    using assms
    by (auto simp: value_ref_is_valid_def word_le_nat_alt uc unat_chunk_count format_consts
        dest!: checked_add_unat checked_mul_unat split: if_splits option.splits)
qed

section \<open>Value chunks\<close>

record value_chunk_header =
  vc_database_id :: u64
  vc_bank_generation :: u64
  vc_first_chunk_offset :: u32
  vc_value_size :: u32
  vc_value_offset :: u32
  vc_payload_size :: u16
  vc_flags :: u16
  vc_payload_checksum :: u32

definition chunk_final :: "value_chunk_header \<Rightarrow> bool" where
  "chunk_final h \<longleftrightarrow>
     vc_value_offset h \<le> vc_value_size h \<and>
     ucast (vc_payload_size h) = vc_value_size h - vc_value_offset h"

text \<open>The content check shared by the encoder and the decoder of the source.\<close>

definition value_chunk_invalid :: "value_chunk_header \<Rightarrow> bool" where
  "value_chunk_invalid h \<longleftrightarrow>
     vc_database_id h = 0 \<or> vc_bank_generation h = 0 \<or>
     unat (vc_first_chunk_offset h) < identity_region_size \<or>
     unat (vc_first_chunk_offset h) mod value_chunk_size \<noteq> 0 \<or>
     vc_value_size h = 0 \<or> vc_value_size h > max_value_len \<or>
     vc_value_offset h \<ge> vc_value_size h \<or> vc_payload_size h = 0 \<or>
     unat (vc_payload_size h) > value_chunk_payload_size \<or>
     ucast (vc_payload_size h) > vc_value_size h - vc_value_offset h \<or>
     vc_flags h AND NOT value_chunk_flag_final \<noteq> 0 \<or>
     chunk_final h \<noteq> (vc_flags h AND value_chunk_flag_final \<noteq> 0)"

text \<open>
  The source clears the chunk around a payload that is already staged inside it and copies the
  payload otherwise; with the payload passed as a value both leave the same image.
\<close>

definition encode_value_chunk :: "bytes \<Rightarrow> value_chunk_header \<Rightarrow> bytes \<Rightarrow> bytes option" where
  "encode_value_chunk chunk header payload =
     (if length chunk < value_chunk_size \<or> value_chunk_invalid header then None
      else do {
        chunk \<leftarrow> Some (put chunk 0 (zeroes value_chunk_size));
        chunk \<leftarrow> write_u32_le chunk 0 value_chunk_magic;
        chunk \<leftarrow> write_u16_le chunk 4 value_chunk_revision;
        chunk \<leftarrow> write_u16_le chunk 6 (of_nat value_chunk_header_size);
        chunk \<leftarrow> write_u64_le chunk 8 (vc_database_id header);
        chunk \<leftarrow> write_u64_le chunk 16 (vc_bank_generation header);
        chunk \<leftarrow> write_u32_le chunk 24 (vc_first_chunk_offset header);
        chunk \<leftarrow> write_u32_le chunk 28 (vc_value_size header);
        chunk \<leftarrow> write_u32_le chunk 32 (vc_value_offset header);
        chunk \<leftarrow> write_u16_le chunk 36 (vc_payload_size header);
        chunk \<leftarrow> write_u16_le chunk 38 (vc_flags header);
        chunk \<leftarrow> Some (put chunk value_chunk_header_size (get payload 0 (unat (vc_payload_size header))));
        chunk \<leftarrow> write_u32_le chunk 40
          (calc_crc32 (get chunk value_chunk_header_size (unat (vc_payload_size header))));
        write_u32_le chunk 60 (calc_record_crc chunk value_chunk_size 60) })"

definition decode_value_chunk :: "bytes \<Rightarrow> format_status + value_chunk_header \<times> bytes" where
  "decode_value_chunk chunk =
     check (length chunk < value_chunk_size) FS_invalid_size
    (decoded_or FS_invalid_size (do {
        magic \<leftarrow> read_u32_le chunk 0;
        revision \<leftarrow> read_u16_le chunk 4;
        header_size \<leftarrow> read_u16_le chunk 6;
        database_id \<leftarrow> read_u64_le chunk 8;
        bank_generation \<leftarrow> read_u64_le chunk 16;
        first_chunk_offset \<leftarrow> read_u32_le chunk 24;
        value_size \<leftarrow> read_u32_le chunk 28;
        value_offset \<leftarrow> read_u32_le chunk 32;
        payload_size \<leftarrow> read_u16_le chunk 36;
        flags \<leftarrow> read_u16_le chunk 38;
        payload_checksum \<leftarrow> read_u32_le chunk 40;
        record_checksum \<leftarrow> read_u32_le chunk 60;
        Some (\<lparr>vc_database_id = database_id, vc_bank_generation = bank_generation,
               vc_first_chunk_offset = first_chunk_offset, vc_value_size = value_size,
               vc_value_offset = value_offset, vc_payload_size = payload_size, vc_flags = flags,
               vc_payload_checksum = payload_checksum\<rparr>, magic, revision, header_size, record_checksum) })
     (\<lambda>(header, magic, revision, header_size, record_checksum).
       check (record_checksum \<noteq> calc_record_crc chunk value_chunk_size 60) FS_corrupt
      (check (magic \<noteq> value_chunk_magic) FS_invalid_magic
      (check (revision > value_chunk_revision) FS_new_version
      (check (revision \<noteq> value_chunk_revision) FS_invalid_revision
      (let size = unat (vc_payload_size header);
           payload = get chunk value_chunk_header_size size in
       check (unat header_size \<noteq> value_chunk_header_size \<or> value_chunk_invalid header \<or>
              \<not> is_zero_range chunk 44 16 \<or>
              \<not> is_zero_range chunk (value_chunk_header_size + size) (value_chunk_payload_size - size) \<or>
              vc_payload_checksum header \<noteq> calc_crc32 payload) FS_corrupt
      (Inr (header, payload))))))))"

lemma value_chunk_roundtrip:
  assumes valid: "\<not> value_chunk_invalid h"
    and size: "length payload = unat (vc_payload_size h)" and buf: "4096 \<le> length chunk"
  shows "\<exists>b. encode_value_chunk chunk h payload = Some b \<and> length b = length chunk \<and>
     decode_value_chunk b = Inr (h\<lparr>vc_payload_checksum := calc_crc32 payload\<rparr>, payload)"
proof -
  have inv: "\<not> value_chunk_invalid (h\<lparr>vc_payload_checksum := c\<rparr>)" for c
    using valid by (simp add: value_chunk_invalid_def chunk_final_def)
  have "length payload \<le> 4032"
    using valid size by (simp add: value_chunk_invalid_def format_consts)
  then show ?thesis
    using valid inv size buf
    by (cases h) (simp add: encode_value_chunk_def decode_value_chunk_def format_consts buffer_simps
        is_zero_range_get Let_def)
qed

lemma decode_value_chunk_InrD:
  assumes "decode_value_chunk b = Inr (h, payload)"
  shows "\<not> value_chunk_invalid h" "length payload = unat (vc_payload_size h)"
    "vc_payload_checksum h = calc_crc32 payload" "4096 \<le> length b"
    "payload = get b 64 (unat (vc_payload_size h))"
  using assms by (auto simp: decode_value_chunk_def decoded_or_Inr Let_def format_consts
      value_chunk_invalid_def)

end
