(* ===== verification/Table_Format.thy ===== *)
theory Table_Format
  imports Value_Format Composite_Key
begin

text \<open>
  The records of a sorted table file (\<open>on9kvdb_format.cpp\<close>): the metadata written as header
  and footer, the headers of data and index blocks, and the entries inside those blocks. Sizes
  that the source computes in \<open>uint32_t\<close> are computed on 32-bit words here, wrap-around
  included.
\<close>

section \<open>Table metadata\<close>

record table_metadata =
  tm_database_id :: u64
  tm_generation :: u64
  tm_min_sequence :: u64
  tm_max_sequence :: u64
  tm_slot :: u32
  tm_block_size :: u32
  tm_data_region_start :: u32
  tm_data_block_count :: u32
  tm_index_offset :: u32
  tm_footer_offset :: u32
  tm_entry_count :: u32
  tm_data_bytes :: u32
  tm_content_checksum :: u32
  tm_level :: u8
  tm_min_key :: composite_key
  tm_max_key :: composite_key

definition valid_table_metadata :: "table_metadata \<Rightarrow> bool" where
  "valid_table_metadata metadata =
     (case do {
        data_blocks_bytes \<leftarrow>
          checked_mul (ucast (tm_data_block_count metadata) :: u64) (ucast (tm_block_size metadata));
        data_region_end \<leftarrow> checked_add (ucast (tm_data_region_start metadata)) data_blocks_bytes;
        index_region_end \<leftarrow>
          checked_add (ucast (tm_index_offset metadata) :: u64) (ucast (tm_block_size metadata));
        Some (data_region_end, index_region_end) }
      of None \<Rightarrow> False
      | Some (data_region_end, index_region_end) \<Rightarrow>
          tm_database_id metadata \<noteq> 0 \<and> tm_generation metadata \<noteq> 0 \<and> tm_min_sequence metadata \<noteq> 0 \<and>
          tm_max_sequence metadata \<ge> tm_min_sequence metadata \<and>
          unat (tm_slot metadata) < max_table_count \<and> tm_level metadata = 0 \<and>
          unat (tm_block_size metadata) > table_block_header_size \<and>
          unat (tm_block_size metadata) mod format_alignment = 0 \<and>
          unat (tm_data_region_start metadata) = table_data_region_offset \<and>
          tm_data_block_count metadata > 0 \<and>
          ucast (tm_index_offset metadata) \<ge> data_region_end \<and>
          (tm_index_offset metadata - tm_data_region_start metadata) mod tm_block_size metadata = 0 \<and>
          ucast (tm_footer_offset metadata) = index_region_end \<and>
          unat (tm_footer_offset metadata) mod format_alignment = 0 \<and>
          tm_entry_count metadata > 0 \<and> tm_data_block_count metadata \<le> tm_entry_count metadata \<and>
          tm_data_bytes metadata > 0 \<and>
          valid_composite_key (tm_min_key metadata) \<and> valid_composite_key (tm_max_key metadata) \<and>
          compare_composite_key (tm_min_key metadata) (tm_max_key metadata) \<le> 0)"

definition revision_for_table_metadata_magic :: "u32 \<Rightarrow> u32" where
  "revision_for_table_metadata_magic magic =
     (if magic = table_header_magic then ucast table_header_revision
      else if magic = table_footer_magic then ucast table_footer_revision
      else 0)"

definition encode_table_metadata :: "bytes \<Rightarrow> u32 \<Rightarrow> table_metadata \<Rightarrow> bytes option" where
  "encode_table_metadata buf magic metadata =
     (let revision = revision_for_table_metadata_magic magic;
          min_ns = ck_namespace (tm_min_key metadata); min_key = ck_key (tm_min_key metadata);
          max_ns = ck_namespace (tm_max_key metadata); max_key = ck_key (tm_max_key metadata) in
      if length buf < table_metadata_size \<or> revision = 0 \<or> \<not> valid_table_metadata metadata then None
      else do {
        buf \<leftarrow> Some (put buf 0 (zeroes table_metadata_size));
        buf \<leftarrow> write_u32_le buf 0 magic;
        buf \<leftarrow> write_u16_le buf 4 (ucast revision);
        buf \<leftarrow> write_u16_le buf 6 (of_nat table_metadata_size);
        buf \<leftarrow> write_u64_le buf 8 (tm_database_id metadata);
        buf \<leftarrow> write_u64_le buf 16 (tm_generation metadata);
        buf \<leftarrow> write_u32_le buf 24 (tm_slot metadata);
        buf \<leftarrow> write_u16_le buf 28 (ucast (tm_level metadata));
        buf \<leftarrow> write_u32_le buf 32 (tm_block_size metadata);
        buf \<leftarrow> write_u32_le buf 36 (tm_data_region_start metadata);
        buf \<leftarrow> write_u32_le buf 40 (tm_data_block_count metadata);
        buf \<leftarrow> write_u32_le buf 44 (tm_index_offset metadata);
        buf \<leftarrow> write_u32_le buf 48 (tm_footer_offset metadata);
        buf \<leftarrow> write_u32_le buf 52 (tm_entry_count metadata);
        buf \<leftarrow> write_u32_le buf 56 (tm_data_bytes metadata);
        buf \<leftarrow> write_u32_le buf 60 (tm_content_checksum metadata);
        buf \<leftarrow> write_u64_le buf 64 (tm_min_sequence metadata);
        buf \<leftarrow> write_u64_le buf 72 (tm_max_sequence metadata);
        buf \<leftarrow> write_u16_le buf 80 (of_nat (length min_ns));
        buf \<leftarrow> write_u16_le buf 82 (of_nat (length min_key));
        buf \<leftarrow> write_u16_le buf 84 (of_nat (length max_ns));
        buf \<leftarrow> write_u16_le buf 86 (of_nat (length max_key));
        buf \<leftarrow> Some (put buf 88 min_ns);
        buf \<leftarrow> Some (put buf 216 min_key);
        buf \<leftarrow> Some (put buf 344 max_ns);
        buf \<leftarrow> Some (put buf 472 max_key);
        write_u32_le buf table_metadata_checksum_offset
          (calc_record_crc buf table_metadata_size table_metadata_checksum_offset) })"

definition decode_table_metadata :: "bytes \<Rightarrow> u32 \<Rightarrow> format_status + table_metadata" where
  "decode_table_metadata buf expected_magic =
     (let expected_revision = revision_for_table_metadata_magic expected_magic in
      check (expected_revision = 0) FS_invalid_argument
     (check (length buf < table_metadata_size) FS_invalid_size
     (decoded_or FS_invalid_size (do {
        magic \<leftarrow> read_u32_le buf 0;
        revision \<leftarrow> read_u16_le buf 4;
        size \<leftarrow> read_u16_le buf 6;
        database_id \<leftarrow> read_u64_le buf 8;
        generation \<leftarrow> read_u64_le buf 16;
        slot \<leftarrow> read_u32_le buf 24;
        level \<leftarrow> read_u16_le buf 28;
        block_size \<leftarrow> read_u32_le buf 32;
        data_region_start \<leftarrow> read_u32_le buf 36;
        data_block_count \<leftarrow> read_u32_le buf 40;
        index_offset \<leftarrow> read_u32_le buf 44;
        footer_offset \<leftarrow> read_u32_le buf 48;
        entry_count \<leftarrow> read_u32_le buf 52;
        data_bytes \<leftarrow> read_u32_le buf 56;
        content_checksum \<leftarrow> read_u32_le buf 60;
        min_sequence \<leftarrow> read_u64_le buf 64;
        max_sequence \<leftarrow> read_u64_le buf 72;
        min_ns_size \<leftarrow> read_u16_le buf 80;
        min_key_size \<leftarrow> read_u16_le buf 82;
        max_ns_size \<leftarrow> read_u16_le buf 84;
        max_key_size \<leftarrow> read_u16_le buf 86;
        checksum \<leftarrow> read_u32_le buf table_metadata_checksum_offset;
        Some (\<lparr>tm_database_id = database_id, tm_generation = generation,
               tm_min_sequence = min_sequence, tm_max_sequence = max_sequence, tm_slot = slot,
               tm_block_size = block_size, tm_data_region_start = data_region_start,
               tm_data_block_count = data_block_count, tm_index_offset = index_offset,
               tm_footer_offset = footer_offset, tm_entry_count = entry_count,
               tm_data_bytes = data_bytes, tm_content_checksum = content_checksum,
               tm_level = ucast level,
               tm_min_key = Composite_Key (get buf 88 (unat min_ns_size)) (get buf 216 (unat min_key_size)),
               tm_max_key = Composite_Key (get buf 344 (unat max_ns_size)) (get buf 472 (unat max_key_size))\<rparr>,
              magic, revision, size, level, checksum,
              unat min_ns_size, unat min_key_size, unat max_ns_size, unat max_key_size) })
      (\<lambda>(metadata, magic, revision, size, level, checksum,
          min_ns_size, min_key_size, max_ns_size, max_key_size).
        check (checksum \<noteq> calc_record_crc buf table_metadata_size table_metadata_checksum_offset) FS_corrupt
       (check (magic \<noteq> expected_magic) FS_invalid_magic
       (check (ucast revision > expected_revision) FS_new_version
       (check (ucast revision \<noteq> expected_revision) FS_invalid_revision
       (check (unat size \<noteq> table_metadata_size) FS_invalid_size
       (check (unat level > 255 \<or>
               min_ns_size = 0 \<or> min_ns_size > max_name_len \<or>
               min_key_size = 0 \<or> min_key_size > max_name_len \<or>
               max_ns_size = 0 \<or> max_ns_size > max_name_len \<or>
               max_key_size = 0 \<or> max_key_size > max_name_len \<or>
               \<not> is_zero_range buf 30 2 \<or> \<not> is_zero_range buf 600 36) FS_corrupt
       (check (\<not> is_zero_range buf (88 + min_ns_size) (max_name_len - min_ns_size) \<or>
               \<not> is_zero_range buf (216 + min_key_size) (max_name_len - min_key_size) \<or>
               \<not> is_zero_range buf (344 + max_ns_size) (max_name_len - max_ns_size) \<or>
               \<not> is_zero_range buf (472 + max_key_size) (max_name_len - max_key_size) \<or>
               \<not> valid_table_metadata metadata) FS_corrupt
       (Inr metadata)))))))))))"

definition table_metadata_equal :: "table_metadata \<Rightarrow> table_metadata \<Rightarrow> bool" where
  "table_metadata_equal lhs rhs \<longleftrightarrow>
     tm_database_id lhs = tm_database_id rhs \<and> tm_generation lhs = tm_generation rhs \<and>
     tm_min_sequence lhs = tm_min_sequence rhs \<and> tm_max_sequence lhs = tm_max_sequence rhs \<and>
     tm_slot lhs = tm_slot rhs \<and> tm_block_size lhs = tm_block_size rhs \<and>
     tm_data_region_start lhs = tm_data_region_start rhs \<and>
     tm_data_block_count lhs = tm_data_block_count rhs \<and>
     tm_index_offset lhs = tm_index_offset rhs \<and> tm_footer_offset lhs = tm_footer_offset rhs \<and>
     tm_entry_count lhs = tm_entry_count rhs \<and> tm_data_bytes lhs = tm_data_bytes rhs \<and>
     tm_content_checksum lhs = tm_content_checksum rhs \<and> tm_level lhs = tm_level rhs \<and>
     composite_key_equal (tm_min_key lhs) (tm_min_key rhs) \<and>
     composite_key_equal (tm_max_key lhs) (tm_max_key rhs)"

lemma table_metadata_equal_iff: "table_metadata_equal a b \<longleftrightarrow> a = (b :: table_metadata)"
  by (cases a; cases b) (auto simp: table_metadata_equal_def)

lemma table_metadata_roundtrip:
  assumes valid: "valid_table_metadata m" and magic: "magic = table_header_magic \<or> magic = table_footer_magic"
    and buf: "640 \<le> length buf"
  shows "\<exists>b. encode_table_metadata buf magic m = Some b \<and> length b = length buf \<and>
             decode_table_metadata b magic = Inr m"
proof -
  obtain ns1 k1 ns2 k2 where keys: "tm_min_key m = Composite_Key ns1 k1" "tm_max_key m = Composite_Key ns2 k2"
    by (metis composite_key.exhaust)
  have sizes: "0 < length ns1" "length ns1 \<le> 128" "0 < length k1" "length k1 \<le> 128"
    "0 < length ns2" "length ns2 \<le> 128" "0 < length k2" "length k2 \<le> 128" and level: "tm_level m = 0"
    using valid keys by (auto simp: valid_table_metadata_def valid_composite_key_def format_consts
        split: option.splits)
  have rev: "revision_for_table_metadata_magic magic = 1"
    using magic by (auto simp: revision_for_table_metadata_magic_def format_consts)
  show ?thesis
    using valid sizes level buf rev keys
    by (cases m) (simp add: encode_table_metadata_def decode_table_metadata_def format_consts
        buffer_simps is_zero_range_get Let_def)
qed

section \<open>Block headers\<close>

text \<open>
  The checksum of a block header covers the whole block, so a header is written last, over a block
  that already holds its payload.
\<close>

record table_block_header =
  tb_generation :: u64
  tb_block_index :: u32
  tb_entry_count :: u16
  tb_payload_size :: u32

definition encode_table_block_header :: "bytes \<Rightarrow> table_block_header \<Rightarrow> bytes option" where
  "encode_table_block_header block header =
     (if length block < table_block_header_size \<or> tb_generation header = 0 \<or>
         tb_entry_count header = 0 \<or> tb_payload_size header = 0 \<or>
         unat (tb_payload_size header) > length block - table_block_header_size then None
      else do {
        block \<leftarrow> Some (put block 0 (zeroes table_block_header_size));
        block \<leftarrow> write_u32_le block 0 table_block_magic;
        block \<leftarrow> write_u16_le block 4 table_block_revision;
        block \<leftarrow> write_u16_le block 6 (of_nat table_block_header_size);
        block \<leftarrow> write_u64_le block 8 (tb_generation header);
        block \<leftarrow> write_u32_le block 16 (tb_block_index header);
        block \<leftarrow> write_u16_le block 20 (tb_entry_count header);
        block \<leftarrow> write_u32_le block 24 (tb_payload_size header);
        write_u32_le block table_block_checksum_offset
          (calc_record_crc block (length block) table_block_checksum_offset) })"

definition decode_table_block_header :: "bytes \<Rightarrow> format_status + table_block_header" where
  "decode_table_block_header block =
     check (length block < table_block_header_size) FS_invalid_size
    (decoded_or FS_invalid_size (do {
        magic \<leftarrow> read_u32_le block 0;
        revision \<leftarrow> read_u16_le block 4;
        size \<leftarrow> read_u16_le block 6;
        generation \<leftarrow> read_u64_le block 8;
        block_index \<leftarrow> read_u32_le block 16;
        entry_count \<leftarrow> read_u16_le block 20;
        reserved \<leftarrow> read_u16_le block 22;
        payload_size \<leftarrow> read_u32_le block 24;
        checksum \<leftarrow> read_u32_le block table_block_checksum_offset;
        Some (\<lparr>tb_generation = generation, tb_block_index = block_index,
               tb_entry_count = entry_count, tb_payload_size = payload_size\<rparr>,
              magic, revision, size, reserved, checksum) })
     (\<lambda>(header, magic, revision, size, reserved, checksum).
       check (checksum \<noteq> calc_record_crc block (length block) table_block_checksum_offset) FS_corrupt
      (check (magic \<noteq> table_block_magic) FS_invalid_magic
      (check (revision > table_block_revision) FS_new_version
      (check (revision \<noteq> table_block_revision) FS_invalid_revision
      (check (unat size \<noteq> table_block_header_size \<or>
              unat (tb_payload_size header) > length block - table_block_header_size) FS_invalid_size
      (check (tb_generation header = 0 \<or> tb_entry_count header = 0 \<or> tb_payload_size header = 0 \<or>
              reserved \<noteq> 0 \<or> \<not> is_zero_range block 28 32 \<or>
              \<not> is_zero_range block (table_block_header_size + unat (tb_payload_size header))
                  (length block - table_block_header_size - unat (tb_payload_size header))) FS_corrupt
      (Inr header))))))))"

record table_index_header =
  ti_generation :: u64
  ti_entry_count :: u32
  ti_payload_size :: u32
  ti_data_block_count :: u32

definition encode_table_index_header :: "bytes \<Rightarrow> table_index_header \<Rightarrow> bytes option" where
  "encode_table_index_header block header =
     (if length block < table_index_header_size \<or> ti_generation header = 0 \<or>
         ti_entry_count header = 0 \<or> ti_payload_size header = 0 \<or>
         unat (ti_payload_size header) > length block - table_index_header_size \<or>
         ti_data_block_count header = 0 \<or> ti_entry_count header \<noteq> ti_data_block_count header then None
      else do {
        block \<leftarrow> Some (put block 0 (zeroes table_index_header_size));
        block \<leftarrow> write_u32_le block 0 table_index_magic;
        block \<leftarrow> write_u16_le block 4 table_index_revision;
        block \<leftarrow> write_u16_le block 6 (of_nat table_index_header_size);
        block \<leftarrow> write_u64_le block 8 (ti_generation header);
        block \<leftarrow> write_u32_le block 16 (ti_entry_count header);
        block \<leftarrow> write_u32_le block 20 (ti_payload_size header);
        block \<leftarrow> write_u32_le block 24 (ti_data_block_count header);
        write_u32_le block table_index_checksum_offset
          (calc_record_crc block (length block) table_index_checksum_offset) })"

definition decode_table_index_header :: "bytes \<Rightarrow> format_status + table_index_header" where
  "decode_table_index_header block =
     check (length block < table_index_header_size) FS_invalid_size
    (decoded_or FS_invalid_size (do {
        magic \<leftarrow> read_u32_le block 0;
        revision \<leftarrow> read_u16_le block 4;
        size \<leftarrow> read_u16_le block 6;
        generation \<leftarrow> read_u64_le block 8;
        entry_count \<leftarrow> read_u32_le block 16;
        payload_size \<leftarrow> read_u32_le block 20;
        data_block_count \<leftarrow> read_u32_le block 24;
        checksum \<leftarrow> read_u32_le block table_index_checksum_offset;
        Some (\<lparr>ti_generation = generation, ti_entry_count = entry_count,
               ti_payload_size = payload_size, ti_data_block_count = data_block_count\<rparr>,
              magic, revision, size, checksum) })
     (\<lambda>(header, magic, revision, size, checksum).
       check (checksum \<noteq> calc_record_crc block (length block) table_index_checksum_offset) FS_corrupt
      (check (magic \<noteq> table_index_magic) FS_invalid_magic
      (check (revision > table_index_revision) FS_new_version
      (check (revision \<noteq> table_index_revision) FS_invalid_revision
      (check (unat size \<noteq> table_index_header_size \<or>
              unat (ti_payload_size header) > length block - table_index_header_size) FS_invalid_size
      (check (ti_generation header = 0 \<or> ti_entry_count header = 0 \<or> ti_payload_size header = 0 \<or>
              ti_data_block_count header = 0 \<or> ti_entry_count header \<noteq> ti_data_block_count header \<or>
              \<not> is_zero_range block 28 32 \<or>
              \<not> is_zero_range block (table_index_header_size + unat (ti_payload_size header))
                  (length block - table_index_header_size - unat (ti_payload_size header))) FS_corrupt
      (Inr header))))))))"

definition valid_table_block_header :: "nat \<Rightarrow> table_block_header \<Rightarrow> bool" where
  "valid_table_block_header block_len h \<longleftrightarrow>
     tb_generation h \<noteq> 0 \<and> tb_entry_count h \<noteq> 0 \<and> tb_payload_size h \<noteq> 0 \<and>
     64 + unat (tb_payload_size h) \<le> block_len"

definition valid_table_index_header :: "nat \<Rightarrow> table_index_header \<Rightarrow> bool" where
  "valid_table_index_header block_len h \<longleftrightarrow>
     ti_generation h \<noteq> 0 \<and> ti_payload_size h \<noteq> 0 \<and> ti_data_block_count h \<noteq> 0 \<and>
     ti_entry_count h = ti_data_block_count h \<and> 64 + unat (ti_payload_size h) \<le> block_len"

text \<open>A padded block is one whose bytes behind the payload are still zero.\<close>

definition padded_block :: "bytes \<Rightarrow> nat \<Rightarrow> bool" where
  "padded_block block payload \<longleftrightarrow>
     get block (64 + payload) (length block - 64 - payload) = zeroes (length block - 64 - payload)"

lemma table_block_header_roundtrip:
  assumes "valid_table_block_header (length block) h" "padded_block block (unat (tb_payload_size h))"
  shows "\<exists>b. encode_table_block_header block h = Some b \<and> length b = length block \<and>
             decode_table_block_header b = Inr h \<and>
             get b 64 (length block - 64) = get block 64 (length block - 64)"
  using assms
  by (cases h) (simp add: encode_table_block_header_def decode_table_block_header_def format_consts
      buffer_simps is_zero_range_get valid_table_block_header_def padded_block_def not_less le_diff_conv2)

lemma table_index_header_roundtrip:
  assumes "valid_table_index_header (length block) h" "padded_block block (unat (ti_payload_size h))"
  shows "\<exists>b. encode_table_index_header block h = Some b \<and> length b = length block \<and>
             decode_table_index_header b = Inr h \<and>
             get b 64 (length block - 64) = get block 64 (length block - 64)"
  using assms
  by (cases h) (simp add: encode_table_index_header_def decode_table_index_header_def format_consts
      buffer_simps is_zero_range_get valid_table_index_header_def padded_block_def not_less le_diff_conv2)

lemma decode_table_block_header_InrD:
  assumes "decode_table_block_header block = Inr h"
  shows "valid_table_block_header (length block) h" "padded_block block (unat (tb_payload_size h))"
  using assms by (auto simp: decode_table_block_header_def decoded_or_Inr format_consts
      valid_table_block_header_def padded_block_def is_zero_range_get not_less)

lemma decode_table_index_header_InrD:
  assumes "decode_table_index_header block = Inr h"
  shows "valid_table_index_header (length block) h" "padded_block block (unat (ti_payload_size h))"
  using assms by (auto simp: decode_table_index_header_def decoded_or_Inr format_consts
      valid_table_index_header_def padded_block_def is_zero_range_get not_less)

section \<open>Alignment\<close>

definition align_up_u32 :: "u32 \<Rightarrow> u32 \<Rightarrow> u32" where
  "align_up_u32 v alignment = (v + alignment - 1) AND NOT (alignment - 1)"

lemma unat_and_not_mask: "unat (x AND NOT (mask n)) = unat x div 2 ^ n * 2 ^ n" for x :: "'a::len word"
proof -
  have "unat (x AND NOT (mask n)) = push_bit n (drop_bit n (unat x))"
    by (rule bit_eqI) (auto simp: bit_simps dest: bit_imp_le_length)
  then show ?thesis by (simp add: push_bit_eq_mult drop_bit_eq_div)
qed

definition align8 :: "nat \<Rightarrow> nat" where "align8 n = (n + 7) div 8 * 8"
definition align4 :: "nat \<Rightarrow> nat" where "align4 n = (n + 3) div 4 * 4"

lemma align_up_u32_8: "unat v < 2 ^ 32 - 8 \<Longrightarrow> unat (align_up_u32 v 8) = align8 (unat v)"
  using unat_and_not_mask [of "7 + v" 3] unat_add_exact [of 7 v]
  by (simp add: align_up_u32_def mask_eq_exp_minus_1 align8_def ac_simps(2) [of 7])

lemma align_up_u32_4: "unat v < 2 ^ 32 - 8 \<Longrightarrow> unat (align_up_u32 v 4) = align4 (unat v)"
  using unat_and_not_mask [of "3 + v" 2] unat_add_exact [of 3 v]
  by (simp add: align_up_u32_def mask_eq_exp_minus_1 align4_def ac_simps(2) [of 3])

lemma align8_bounds: "n \<le> align8 n" "align8 n < n + 8" "align8 n mod 8 = 0"
  unfolding align8_def by (linarith, linarith, simp)

lemma align4_bounds: "n \<le> align4 n" "align4 n < n + 4" "align4 n mod 4 = 0"
  unfolding align4_def by (linarith, linarith, simp)

section \<open>Table entries\<close>

text \<open>
  An entry's \<open>value\<close> pointer is \<open>None\<close> when it is null; the bytes behind a non-null pointer
  are those the source may read through it.
\<close>

record table_entry =
  te_transaction_sequence :: u64
  te_total_size :: u32
  te_value_size :: u32
  te_reserved0 :: u8
  te_flags :: u8
  te_external_value :: value_ref
  te_namespace :: bytes
  te_key :: bytes
  te_value :: "bytes option"

definition te_external :: "u8 \<Rightarrow> bool" where
  "te_external flags \<longleftrightarrow> flags AND table_entry_flag_external_value \<noteq> 0"

definition te_tombstone :: "u8 \<Rightarrow> bool" where
  "te_tombstone flags \<longleftrightarrow> flags AND table_entry_flag_tombstone \<noteq> 0"

definition te_unknown_flags :: "u8 \<Rightarrow> bool" where
  "te_unknown_flags flags \<longleftrightarrow>
     flags AND NOT (table_entry_flag_tombstone OR table_entry_flag_external_value) \<noteq> 0"

text \<open>\<open>table_entry_header_size + namespace_size + key_size + encoded_value_size\<close>, in \<open>uint32_t\<close>.\<close>

definition entry_meaningful_size :: "nat \<Rightarrow> nat \<Rightarrow> u8 \<Rightarrow> u32 \<Rightarrow> u32" where
  "entry_meaningful_size namespace_size key_size flags value_size =
     of_nat table_entry_header_size + of_nat namespace_size + of_nat key_size +
     (if te_external flags then of_nat value_ref_encoded_size else value_size)"

definition encode_entry_value_ref :: "bytes \<Rightarrow> value_ref \<Rightarrow> bytes option" where
  "encode_entry_value_ref encoded_ref reference = do {
     encoded_ref \<leftarrow> Some (put encoded_ref 0 [vr_bank_slot reference]);
     encoded_ref \<leftarrow> write_u64_le encoded_ref 4 (vr_bank_generation reference);
     encoded_ref \<leftarrow> write_u32_le encoded_ref 12 (vr_first_chunk_offset reference);
     write_u32_le encoded_ref 16 (vr_value_checksum reference) }"

definition decode_entry_value_ref :: "bytes \<Rightarrow> u32 \<Rightarrow> value_ref option" where
  "decode_entry_value_ref encoded_ref value_size =
     (if \<not> is_zero_range encoded_ref 1 3 then None
      else do {
        bank_generation \<leftarrow> read_u64_le encoded_ref 4;
        first_chunk_offset \<leftarrow> read_u32_le encoded_ref 12;
        value_checksum \<leftarrow> read_u32_le encoded_ref 16;
        if \<not> is_zero_range encoded_ref 20 4 then None
        else
          let reference = \<lparr>vr_bank_generation = bank_generation,
                vr_first_chunk_offset = first_chunk_offset, vr_value_size = value_size,
                vr_value_checksum = value_checksum, vr_bank_slot = encoded_ref ! 0\<rparr> in
          if \<not> value_ref_is_valid reference (ucast max_storage_object_size) then None
          else Some reference })"

definition encode_table_entry :: "bytes \<Rightarrow> nat \<Rightarrow> table_entry \<Rightarrow> (bytes \<times> u32) option" where
  "encode_table_entry buf offset entry =
     (if te_transaction_sequence entry = 0 \<or>
         \<not> valid_name (te_namespace entry) \<or> \<not> valid_name (te_key entry) \<or>
         (te_value entry = None \<and> te_value_size entry \<noteq> 0 \<and> \<not> te_external (te_flags entry)) \<or>
         te_value_size entry > max_value_len \<or> te_reserved0 entry \<noteq> 0 \<or>
         te_unknown_flags (te_flags entry) \<or>
         (te_tombstone (te_flags entry) \<and>
           (te_value_size entry \<noteq> 0 \<or> te_external (te_flags entry))) \<or>
         (te_external (te_flags entry) \<and>
           \<not> value_ref_is_valid (te_external_value entry) (ucast max_storage_object_size)) then None
      else
        let external = te_external (te_flags entry);
            namespace_size = length (te_namespace entry); key_size = length (te_key entry);
            meaningful_size = entry_meaningful_size namespace_size key_size (te_flags entry)
              (te_value_size entry);
            total_size = align_up_u32 meaningful_size 8;
            value_offset = offset + table_entry_header_size + namespace_size + key_size in
        if \<not> is_range_valid (length buf) offset (unat total_size) then None
        else do {
          buf \<leftarrow> Some (put buf offset (zeroes (unat total_size)));
          buf \<leftarrow> write_u32_le buf offset total_size;
          buf \<leftarrow> write_u32_le buf (offset + 4) (te_value_size entry);
          buf \<leftarrow> write_u64_le buf (offset + 8) (te_transaction_sequence entry);
          buf \<leftarrow> Some (put buf (offset + 16) [of_nat namespace_size]);
          buf \<leftarrow> Some (put buf (offset + 17) [of_nat key_size]);
          buf \<leftarrow> Some (put buf (offset + 18) [te_reserved0 entry]);
          buf \<leftarrow> Some (put buf (offset + 19) [te_flags entry]);
          buf \<leftarrow> Some (put buf (offset + table_entry_header_size) (te_namespace entry));
          buf \<leftarrow> Some (put buf (offset + table_entry_header_size + namespace_size) (te_key entry));
          buf \<leftarrow>
            (if external then do {
               encoded_ref \<leftarrow>
                 encode_entry_value_ref (get buf value_offset value_ref_encoded_size) (te_external_value entry);
               Some (put buf value_offset encoded_ref) }
             else if te_value_size entry > 0 then
               Some (put buf value_offset (take (unat (te_value_size entry)) (the (te_value entry))))
             else Some buf);
          buf \<leftarrow> write_u32_le buf (offset + 20) (calc_record_crc (drop offset buf) (unat total_size) 20);
          Some (buf, total_size) })"

definition decode_table_entry :: "bytes \<Rightarrow> nat \<Rightarrow> format_status + table_entry" where
  "decode_table_entry buf offset =
     check (\<not> is_range_valid (length buf) offset table_entry_header_size) FS_invalid_size
    (decoded_or FS_invalid_size (do {
        total_size \<leftarrow> read_u32_le buf offset;
        value_size \<leftarrow> read_u32_le buf (offset + 4);
        transaction_sequence \<leftarrow> read_u64_le buf (offset + 8);
        Some (total_size, value_size, transaction_sequence) })
     (\<lambda>(total_size, value_size, transaction_sequence).
       let namespace_size = unat (buf ! (offset + 16)); key_size = unat (buf ! (offset + 17));
           reserved0 = buf ! (offset + 18); flags = buf ! (offset + 19);
           external = te_external flags;
           meaningful_size = entry_meaningful_size namespace_size key_size flags value_size;
           key_offset = offset + table_entry_header_size + namespace_size;
           value_offset = key_offset + key_size;
           namespace_name = get buf (offset + table_entry_header_size) namespace_size;
           key = get buf key_offset key_size in
       check (transaction_sequence = 0 \<or> total_size < meaningful_size \<or> unat total_size mod 8 \<noteq> 0 \<or>
              \<not> is_range_valid (length buf) offset (unat total_size) \<or> value_size > max_value_len \<or>
              reserved0 \<noteq> 0 \<or> te_unknown_flags flags \<or>
              (te_tombstone flags \<and> (value_size \<noteq> 0 \<or> external)) \<or>
              read_u32_le buf (offset + 20) \<noteq> Some (calc_record_crc (drop offset buf) (unat total_size) 20))
         FS_corrupt
      (decoded_or FS_corrupt
        (if external then decode_entry_value_ref (get buf value_offset value_ref_encoded_size) value_size
         else Some empty_value_ref)
       (\<lambda>external_value.
         check (\<not> valid_name namespace_name \<or> \<not> valid_name key \<or>
                \<not> is_zero_range buf (offset + unat meaningful_size) (unat (total_size - meaningful_size)))
           FS_corrupt
        (Inr \<lparr>te_transaction_sequence = transaction_sequence, te_total_size = total_size,
              te_value_size = value_size, te_reserved0 = reserved0, te_flags = flags,
              te_external_value = external_value, te_namespace = namespace_name, te_key = key,
              te_value = (if external then None
                          else Some (get buf value_offset (unat value_size)))\<rparr>)))))"

lemma drop_put [buffer_simps]:
  "off \<le> i \<Longrightarrow> i + length xs \<le> length b \<Longrightarrow> drop off (put b i xs) = put (drop off b) (i - off) xs"
  by (auto simp: put_def drop_take)

definition valid_table_entry :: "table_entry \<Rightarrow> bool" where
  "valid_table_entry e \<longleftrightarrow>
     te_transaction_sequence e \<noteq> 0 \<and> valid_name (te_namespace e) \<and> valid_name (te_key e) \<and>
     te_reserved0 e = 0 \<and> \<not> te_unknown_flags (te_flags e) \<and>
     (te_tombstone (te_flags e) \<longrightarrow> te_value_size e = 0 \<and> \<not> te_external (te_flags e)) \<and>
     te_value_size e \<le> max_value_len \<and>
     (if te_external (te_flags e)
      then te_value e = None \<and> value_ref_is_valid (te_external_value e) (ucast max_storage_object_size) \<and>
           vr_value_size (te_external_value e) = te_value_size e
      else te_external_value e = empty_value_ref \<and>
           (\<exists>v. te_value e = Some v \<and> length v = unat (te_value_size e)))"

definition entry_size :: "table_entry \<Rightarrow> nat" where
  "entry_size e = align8 (24 + length (te_namespace e) + length (te_key e) +
     (if te_external (te_flags e) then 24 else unat (te_value_size e)))"

lemma entry_meaningful_size_unat:
  fixes flags v
  defines "w \<equiv> (if te_external flags then 24 else v)"
  assumes "24 + a + b + unat w < 2 ^ 32"
  shows "unat (entry_meaningful_size a b flags v) = 24 + a + b + unat w"
proof -
  obtain h :: u32 where h: "h = of_nat (24 + a + b)" by blast
  have "unat h = 24 + a + b"
    unfolding h using assms by (intro unat_of_nat_eq) simp
  then have "unat (h + w) = 24 + a + b + unat w"
    using assms by (simp add: unat_add_exact)
  moreover have "entry_meaningful_size a b flags v = h + w"
    by (simp add: entry_meaningful_size_def format_consts h w_def)
  ultimately show ?thesis by simp
qed

lemma table_entry_eq_iff:
  "a = (b :: table_entry) \<longleftrightarrow> te_transaction_sequence a = te_transaction_sequence b \<and>
     te_total_size a = te_total_size b \<and> te_value_size a = te_value_size b \<and>
     te_reserved0 a = te_reserved0 b \<and> te_flags a = te_flags b \<and>
     te_external_value a = te_external_value b \<and> te_namespace a = te_namespace b \<and>
     te_key a = te_key b \<and> te_value a = te_value b"
  by (cases a; cases b) auto

lemma value_ref_eta:
  "vr_value_size r = v \<Longrightarrow> \<lparr>vr_bank_generation = vr_bank_generation r,
     vr_first_chunk_offset = vr_first_chunk_offset r, vr_value_size = v,
     vr_value_checksum = vr_value_checksum r, vr_bank_slot = vr_bank_slot r\<rparr> = r"
  by (cases r) simp

lemma table_entry_roundtrip:
  assumes valid: "valid_table_entry e" and fits: "offset + entry_size e \<le> length buf"
    and len: "length buf < 2 ^ 32 - 8"
  shows "\<exists>b. encode_table_entry buf offset e = Some (b, of_nat (entry_size e)) \<and>
    length b = length buf \<and>
    decode_table_entry b offset = Inr (e\<lparr>te_total_size := of_nat (entry_size e)\<rparr>) \<and>
    (\<forall>i n. i + n \<le> offset \<or> offset + entry_size e \<le> i \<longrightarrow> get b i n = get buf i n)"
proof -
  let ?M = "24 + length (te_namespace e) + length (te_key e) +
     (if te_external (te_flags e) then 24 else unat (te_value_size e))"
  define M where "M = entry_meaningful_size (length (te_namespace e)) (length (te_key e)) (te_flags e) (te_value_size e)"
  define T where "T = align_up_u32 M 8"
  have names: "valid_name (te_namespace e)" "valid_name (te_key e)"
    using valid by (auto simp: valid_table_entry_def)
  have nsz: "0 < length (te_namespace e)" "length (te_namespace e) \<le> 128"
    "0 < length (te_key e)" "length (te_key e) \<le> 128"
    using names by (auto simp: valid_name_length)
  have size_eq: "entry_size e = align8 ?M" by (simp add: entry_size_def)
  have Mle: "?M \<le> entry_size e" using align8_bounds(1) [of ?M] size_eq by simp
  have M: "unat M = ?M"
    using Mle fits len unfolding M_def
    by (subst entry_meaningful_size_unat) (auto split: if_splits)
  have T: "unat T = entry_size e"
    using M Mle fits len unfolding T_def size_eq
    by (subst align_up_u32_8) (auto simp: M)
  have Tof: "T = of_nat (entry_size e)" using T by (metis of_nat_unat ucast_id)
  have TM: "unat (T - M) = entry_size e - ?M"
    using M T Mle by (subst unat_sub) (simp_all add: word_le_nat_alt)
  have T8: "unat T mod 8 = 0" using T size_eq align8_bounds(3) by simp
  show ?thesis
  proof (cases "te_external (te_flags e)")
    case True
    show ?thesis
      using valid True nsz names fits T T8 M TM Mle
      by (simp add: encode_table_entry_def decode_table_entry_def M_def [symmetric]
          T_def [symmetric] Tof [symmetric] Let_def is_range_valid_iff valid_table_entry_def format_consts
          buffer_simps encode_entry_value_ref_def decode_entry_value_ref_def is_zero_range_get
          word_le_nat_alt word_less_nat_alt table_entry_eq_iff value_ref_eta)
  next
    case False
    then obtain v where v: "te_value e = Some v" "length v = unat (te_value_size e)"
      using valid by (auto simp: valid_table_entry_def)
    then have "unat (te_value_size e) = 0 \<longrightarrow> [] = v" by auto
    with v show ?thesis
      using valid False nsz names fits T T8 M TM Mle
      by (simp add: encode_table_entry_def decode_table_entry_def M_def [symmetric]
          T_def [symmetric] Tof [symmetric] Let_def is_range_valid_iff valid_table_entry_def format_consts
          buffer_simps encode_entry_value_ref_def decode_entry_value_ref_def is_zero_range_get
          word_le_nat_alt word_less_nat_alt table_entry_eq_iff value_ref_eta)
  qed
qed

section \<open>Index entries\<close>

record table_index_entry =
  tx_first_sequence :: u64
  tx_block_offset :: u32
  tx_total_size :: u16
  tx_namespace :: bytes
  tx_key :: bytes

definition index_entry_meaningful_size :: "nat \<Rightarrow> nat \<Rightarrow> u32" where
  "index_entry_meaningful_size namespace_size key_size =
     of_nat table_index_entry_header_size + of_nat namespace_size + of_nat key_size"

definition encode_table_index_entry :: "bytes \<Rightarrow> nat \<Rightarrow> table_index_entry \<Rightarrow> (bytes \<times> u32) option" where
  "encode_table_index_entry buf offset entry =
     (if tx_first_sequence entry = 0 \<or> \<not> valid_name (tx_namespace entry) \<or> \<not> valid_name (tx_key entry) \<or>
         unat (tx_block_offset entry) < table_data_region_offset \<or>
         unat (tx_block_offset entry) mod format_alignment \<noteq> 0 then None
      else
        let namespace_size = length (tx_namespace entry); key_size = length (tx_key entry);
            meaningful_size = index_entry_meaningful_size namespace_size key_size;
            total_size = align_up_u32 meaningful_size 4 in
        if \<not> is_range_valid (length buf) offset (unat total_size) \<or> total_size > 0xFFFF then None
        else do {
          buf \<leftarrow> Some (put buf offset (zeroes (unat total_size)));
          buf \<leftarrow> write_u16_le buf offset (ucast total_size);
          buf \<leftarrow> write_u32_le buf (offset + 4) (tx_block_offset entry);
          buf \<leftarrow> write_u64_le buf (offset + 8) (tx_first_sequence entry);
          buf \<leftarrow> Some (put buf (offset + 2) [of_nat namespace_size]);
          buf \<leftarrow> Some (put buf (offset + 3) [of_nat key_size]);
          buf \<leftarrow> Some (put buf (offset + table_index_entry_header_size) (tx_namespace entry));
          buf \<leftarrow> Some (put buf (offset + table_index_entry_header_size + namespace_size) (tx_key entry));
          Some (buf, total_size) })"

definition decode_table_index_entry :: "bytes \<Rightarrow> nat \<Rightarrow> format_status + table_index_entry" where
  "decode_table_index_entry buf offset =
     check (\<not> is_range_valid (length buf) offset table_index_entry_header_size) FS_invalid_size
    (decoded_or FS_invalid_size (do {
        total_size \<leftarrow> read_u16_le buf offset;
        block_offset \<leftarrow> read_u32_le buf (offset + 4);
        first_sequence \<leftarrow> read_u64_le buf (offset + 8);
        Some (total_size, block_offset, first_sequence) })
     (\<lambda>(total_size, block_offset, first_sequence).
       let namespace_size = unat (buf ! (offset + 2)); key_size = unat (buf ! (offset + 3));
           meaningful_size = index_entry_meaningful_size namespace_size key_size;
           namespace_name = get buf (offset + table_index_entry_header_size) namespace_size;
           key = get buf (offset + table_index_entry_header_size + namespace_size) key_size in
       check (ucast total_size < meaningful_size \<or> unat total_size mod 4 \<noteq> 0 \<or>
              \<not> is_range_valid (length buf) offset (unat total_size) \<or> first_sequence = 0 \<or>
              unat block_offset < table_data_region_offset \<or>
              unat block_offset mod format_alignment \<noteq> 0) FS_corrupt
      (check (\<not> valid_name namespace_name \<or> \<not> valid_name key \<or>
              \<not> is_zero_range buf (offset + unat meaningful_size)
                  (unat (ucast total_size - meaningful_size))) FS_corrupt
      (Inr \<lparr>tx_first_sequence = first_sequence, tx_block_offset = block_offset,
            tx_total_size = total_size, tx_namespace = namespace_name, tx_key = key\<rparr>))))"

definition valid_table_index_entry :: "table_index_entry \<Rightarrow> bool" where
  "valid_table_index_entry e \<longleftrightarrow>
     tx_first_sequence e \<noteq> 0 \<and> valid_name (tx_namespace e) \<and> valid_name (tx_key e) \<and>
     table_data_region_offset \<le> unat (tx_block_offset e) \<and>
     unat (tx_block_offset e) mod format_alignment = 0"

definition index_entry_size :: "table_index_entry \<Rightarrow> nat" where
  "index_entry_size e = align4 (16 + length (tx_namespace e) + length (tx_key e))"

lemma index_entry_meaningful_size_unat:
  assumes "a \<le> 255" "b \<le> 255"
  shows "unat (index_entry_meaningful_size a b) = 16 + a + b"
proof -
  have "index_entry_meaningful_size a b = of_nat (16 + a + b)"
    by (simp add: index_entry_meaningful_size_def format_consts)
  moreover have "unat (of_nat (16 + a + b) :: u32) = 16 + a + b"
    using assms by (intro unat_of_nat_eq) simp
  ultimately show ?thesis by simp
qed

lemma table_index_entry_eq_iff:
  "a = (b :: table_index_entry) \<longleftrightarrow> tx_first_sequence a = tx_first_sequence b \<and>
     tx_block_offset a = tx_block_offset b \<and> tx_total_size a = tx_total_size b \<and>
     tx_namespace a = tx_namespace b \<and> tx_key a = tx_key b"
  by (cases a; cases b) auto

lemma table_index_entry_roundtrip:
  assumes valid: "valid_table_index_entry e" and fits: "offset + index_entry_size e \<le> length buf"
  shows "\<exists>b. encode_table_index_entry buf offset e = Some (b, of_nat (index_entry_size e)) \<and>
    length b = length buf \<and>
    decode_table_index_entry b offset = Inr (e\<lparr>tx_total_size := of_nat (index_entry_size e)\<rparr>) \<and>
    (\<forall>i n. i + n \<le> offset \<or> offset + index_entry_size e \<le> i \<longrightarrow> get b i n = get buf i n)"
proof -
  let ?M = "16 + length (tx_namespace e) + length (tx_key e)"
  define M where "M = index_entry_meaningful_size (length (tx_namespace e)) (length (tx_key e))"
  define T where "T = align_up_u32 M 4"
  have names: "valid_name (tx_namespace e)" "valid_name (tx_key e)"
    using valid by (auto simp: valid_table_index_entry_def)
  have nsz: "0 < length (tx_namespace e)" "length (tx_namespace e) \<le> 128"
    "0 < length (tx_key e)" "length (tx_key e) \<le> 128"
    using names by (auto simp: valid_name_length)
  have size_eq: "index_entry_size e = align4 ?M" by (simp add: index_entry_size_def)
  have Mle: "?M \<le> index_entry_size e" "index_entry_size e \<le> 276"
    using align4_bounds(1,2) [of ?M] size_eq nsz by simp_all
  have M: "unat M = ?M"
    using nsz unfolding M_def by (subst index_entry_meaningful_size_unat) auto
  have T: "unat T = index_entry_size e"
    using M nsz unfolding T_def size_eq by (subst align_up_u32_4) (auto simp: M)
  have Tof: "T = of_nat (index_entry_size e)" using T by (metis of_nat_unat ucast_id)
  have U: "ucast T = (of_nat (index_entry_size e) :: u16)"
    using T Mle by (simp add: word_eq_iff_unsigned [where 'a = nat] unsigned_ucast_eq
        take_bit_nat_eq_self)
  have V: "ucast (of_nat (index_entry_size e) :: u16) = T"
    using T Mle by (simp add: Tof word_eq_iff_unsigned [where 'a = nat] unsigned_ucast_eq
        take_bit_nat_eq_self)
  have TM: "unat (T - M) = index_entry_size e - ?M"
    using M T Mle by (subst unat_sub) (simp_all add: word_le_nat_alt)
  have T4: "unat T mod 4 = 0" using T size_eq align4_bounds(3) by simp
  show ?thesis
    using valid nsz names fits T T4 M TM Mle U V
    by (simp add: encode_table_index_entry_def decode_table_index_entry_def M_def [symmetric]
        T_def [symmetric] Tof [symmetric] Let_def is_range_valid_iff valid_table_index_entry_def format_consts
        buffer_simps is_zero_range_get word_le_nat_alt word_less_nat_alt table_index_entry_eq_iff)
qed

end
