(* ===== verification/Format_Correctness.thy ===== *)
theory Format_Correctness
  imports Wal_Format Manifest_Format Table_Format Value_Format
begin

text \<open>
  The properties of the on-media format: what the checksums detect, that every encoder is undone
  by its decoder, and that a decoder only accepts records that meet the content rules. The lemmas
  behind them are in the theories of the records; concrete records of the host configuration
  instantiate every property.
\<close>

section \<open>Checksums\<close>

text \<open>The checksum of CRC-32, bit by bit, without the lookup table.\<close>

definition crc32_bitwise :: "bytes \<Rightarrow> u32" where
  "crc32_bitwise buf = NOT (foldl (\<lambda>crc b. (crc32_bit_step ^^ 8) (crc XOR ucast b)) (- 1) buf)"

text \<open>
  C38: the table-driven \<open>calc_crc32\<close> computes the CRC-32 defined bit by bit by the reflected
  polynomial, for every buffer.
\<close>

theorem crc32_table_driven: "calc_crc32 buf = crc32_bitwise buf"
proof -
  have "foldl crc32_step c buf = foldl (\<lambda>crc b. (crc32_bit_step ^^ 8) (crc XOR ucast b)) c buf" for c
    by (induction buf arbitrary: c) (simp_all add: crc32_step_bitwise)
  then show ?thesis by (simp add: calc_crc32_def calc_crc32_update_def crc32_bitwise_def)
qed

lemma list_update_split: "i < length b \<Longrightarrow> b[i := x] = take i b @ x # drop (Suc i) b"
  by (rule upd_conv_take_nth_drop)

lemma get_update_other:
  "i < off \<or> off + n \<le> i \<Longrightarrow> get (b[i := x]) off n = get b off n"
  by (auto simp: get_def drop_update_cancel drop_update_swap)

lemma get_update_inside:
  "off \<le> i \<Longrightarrow> get (b[i := x]) off n = (get b off n)[i - off := x]"
  by (simp add: get_def drop_update_swap take_update_swap)

text \<open>The stored checksum of a record matches its content.\<close>

definition checksum_ok :: "bytes \<Rightarrow> nat \<Rightarrow> nat \<Rightarrow> bool" where
  "checksum_ok b len off \<longleftrightarrow> le_value (get b off 4) = calc_record_crc b len off"

lemma calc_crc32_update_changed:
  assumes "i < length b" "x \<noteq> b ! i"
  shows "calc_crc32_update c (b[i := x]) \<noteq> calc_crc32_update c b"
  using assms calc_crc32_update_single [of c "take i b" x "drop (Suc i) b" "b ! i"]
  by (simp add: list_update_split id_take_nth_drop [symmetric])

lemma calc_record_crc_changed:
  assumes "i < off \<or> off + 4 \<le> i" "i < len" "len \<le> length b" "off + 4 \<le> len" "x \<noteq> b ! i"
  shows "calc_record_crc (b[i := x]) len off \<noteq> calc_record_crc b len off"
proof (cases "i < off")
  case True
  then have "get (b[i := x]) 0 off = (get b 0 off)[i := x]" "get b 0 off ! i = b ! i"
    using assms by (simp_all add: get_update_inside nth_get)
  then show ?thesis
    using True assms calc_crc32_update_changed [of i "get b 0 off" x "- 1"]
    by (simp add: calc_record_crc_def get_update_other calc_crc32_update_inj Let_def)
next
  case False
  let ?s = "get b (off + 4) (len - (off + 4))"
  have "get (b[i := x]) (off + 4) (len - (off + 4)) = ?s[i - (off + 4) := x]"
    "?s ! (i - (off + 4)) = b ! i" "i - (off + 4) < length ?s"
    using False assms by (simp_all add: get_update_inside nth_get)
  then show ?thesis
    using False assms calc_crc32_update_changed [of "i - (off + 4)" ?s x]
    by (simp add: calc_record_crc_def get_update_other Let_def)
qed

lemma checksum_ok_changed:
  assumes "checksum_ok b len off" "i < len" "len \<le> length b" "off + 4 \<le> len" "x \<noteq> b ! i"
  shows "\<not> checksum_ok (b[i := x]) len off"
proof (cases "i < off \<or> off + 4 \<le> i")
  case True
  then show ?thesis
    using assms calc_record_crc_changed [of i off len b x]
    by (auto simp: checksum_ok_def get_update_other)
next
  case False
  then have i: "off \<le> i" "i - off < 4" by auto
  let ?f = "get b off 4" and ?f' = "get (b[i := x]) off 4"
  have f: "?f' = ?f[i - off := x]" "?f ! (i - off) = b ! i" "length ?f = 4" "length ?f' = 4"
    using i assms nth_get [of "i - off" 4 off b] by (simp_all add: get_update_inside)
  have "?f' ! (i - off) \<noteq> ?f ! (i - off)"
    using f i assms(5) by simp
  then have "?f' \<noteq> ?f" by metis
  moreover have "le_bytes 4 (le_value ?f' :: u32) = ?f'" "le_bytes 4 (le_value ?f :: u32) = ?f"
    using f(3,4) by (intro le_bytes_le_value; simp)+
  ultimately have "(le_value ?f' :: u32) \<noteq> le_value ?f" by metis
  moreover have "calc_record_crc (b[i := x]) len off = calc_record_crc b len off"
    using False assms by (simp add: calc_record_crc_def get_update_other)
  ultimately show ?thesis using assms(1) by (simp add: checksum_ok_def)
qed

lemma decode_wal_frame_checksum:
  assumes "4096 \<le> length frame"
  shows "\<not> checksum_ok frame 4096 60 \<Longrightarrow> decode_wal_frame frame = Inl FS_corrupt"
    "decode_wal_frame frame = Inr r \<Longrightarrow> checksum_ok frame 4096 60"
  using assms by (auto simp: decode_wal_frame_def checksum_ok_def format_consts buffer_simps)

text \<open>
  C20: corruption of a WAL frame is detected. Changing any single byte of a frame the decoder accepts,
  header, payload, padding or checksum, makes the decoder report it as corrupt.
\<close>

theorem wal_frame_corruption_detected:
  assumes "decode_wal_frame frame = Inr r" "i < wal_frame_size" "x \<noteq> frame ! i"
  shows "decode_wal_frame (frame[i := x]) = Inl FS_corrupt"
proof -
  have len: "4096 \<le> length frame"
    using decode_wal_frame_InrD(6) [of frame "fst r" "snd r"] assms(1) by simp
  have "\<not> checksum_ok (frame[i := x]) 4096 60"
    using decode_wal_frame_checksum(2) [OF len assms(1)] assms(2,3) len
    by (intro checksum_ok_changed) (simp_all add: format_consts)
  then show ?thesis using len by (intro decode_wal_frame_checksum(1)) simp_all
qed

definition sample_frame :: wal_frame_header where
  "sample_frame = \<lparr>wf_database_id = 7, wf_wal_generation = 3, wf_transaction_sequence = 12,
     wf_frame_index = 1, wf_frame_count = 2, wf_mutation_count = 1, wf_flags = 1, wf_payload_size = 2,
     wf_transaction_payload_size = 4034, wf_transaction_checksum = 5, wf_payload_checksum = 0\<rparr>"

lemma sample_frame_valid: "\<not> wal_frame_invalid sample_frame"
  by (simp add: wal_frame_invalid_def wal_final_frame_def sample_frame_def format_consts word_le_nat_alt)

theorem wal_frame_corruption_witness:
  "\<exists>frame. encode_wal_frame (zeroes 4096) sample_frame [1, 2] = Some frame \<and>
     decode_wal_frame (frame[65 := frame ! 65 + 1]) = Inl FS_corrupt"
proof -
  obtain frame r where f: "encode_wal_frame (zeroes 4096) sample_frame [1, 2] = Some frame"
    "decode_wal_frame frame = Inr r"
    using wal_frame_roundtrip [OF sample_frame_valid, of "[1, 2]" "zeroes 4096"]
    by (auto simp: sample_frame_def)
  have "decode_wal_frame (frame[65 := frame ! 65 + 1]) = Inl FS_corrupt"
    by (rule wal_frame_corruption_detected [OF f(2)]) (simp_all add: format_consts)
  then show ?thesis using f(1) by blast
qed

lemma decode_manifest_record_checksum:
  assumes "decode_manifest_record cfg b = Inr r"
  shows "checksum_ok b 4096 4092"
proof -
  have len: "4096 \<le> length b" by (rule decode_manifest_record_InrD(2) [OF assms])
  obtain p where p: "decode_file_prefix b manifest_magic kind_manifest = Inr p"
    using assms by (auto simp: decode_manifest_record_def split: sum.splits)
  obtain r0 x where r0: "decode_manifest_fields b (fp_generation p) = Some (r0, x)"
    using assms p by (auto simp: decode_manifest_record_def decoded_or_Inr)
  show ?thesis
    using assms p r0 len by (cases "decode_manifest_tables b r0 [0..<16] (0, 0, 0)")
      (auto simp: decode_manifest_record_def decoded_or_Inr checksum_ok_def format_consts buffer_simps
        split: prod.splits)
qed

text \<open>
  C23: corruption of the manifest is detected. No record that differs from an accepted one in a single
  byte is accepted as well, under any configuration.
\<close>

theorem manifest_corruption_detected:
  assumes "decode_manifest_record cfg record = Inr r" "i < manifest_record_size" "x \<noteq> record ! i"
  shows "\<exists>status. decode_manifest_record cfg' (record[i := x]) = Inl status"
proof -
  have len: "4096 \<le> length record" by (rule decode_manifest_record_InrD(2) [OF assms(1)])
  have "\<not> checksum_ok (record[i := x]) 4096 4092"
    using decode_manifest_record_checksum [OF assms(1)] assms(2,3) len
    by (intro checksum_ok_changed) (simp_all add: format_consts)
  then show ?thesis
    using decode_manifest_record_checksum by (cases "decode_manifest_record cfg' (record[i := x])") auto
qed

text \<open>A ready manifest of the host configuration, with two active tables.\<close>

definition sample_table :: "u64 \<Rightarrow> u32 \<Rightarrow> u64 \<Rightarrow> u64 \<Rightarrow> table_reference" where
  "sample_table generation slot min_seq max_seq = empty_table_reference
     \<lparr>tr_generation := generation, tr_slot := slot, tr_min_sequence := min_seq, tr_max_sequence := max_seq,
      tr_data_block_count := 1, tr_entry_count := 2, tr_data_bytes := 96,
      tr_min_key := Composite_Key [97] [1], tr_max_key := Composite_Key [97] [2], tr_active := True\<rparr>"

definition sample_manifest :: manifest_record where
  "sample_manifest = \<lparr>mr_generation = 9, mr_database_id = 77, mr_state = manifest_state_ready,
     mr_geometry = get_build_geometry host_config, mr_limits = get_build_limits host_config,
     mr_active_wal_slot = 1, mr_wal_generation = [3, 4], mr_safe_checkpoint_sequence = 20,
     mr_next_table_generation = 6, mr_active_table_bank = 1, mr_active_value_bank = 0,
     mr_value_bank_generation = [1, 1], mr_value_bank_tail = [8192, 12288],
     mr_tables = (replicate 16 empty_table_reference)
       [2 := sample_table 4 2 1 9, 3 := sample_table 5 3 10 20]\<rparr>"

lemma sample_manifest_valid: "valid_manifest_record host_config sample_manifest"
proof -
  have 16: "[0..<16] = [0, 1, 2, 3, 4, 5, 6, 7, 8, 9, 10, 11, 12, 13, 14, 15 :: nat]"
    by (simp add: upt_rec)
  let ?r = sample_manifest
  have bank: "bank_geometry_valid ?r" "bank_start ?r = 2" "bank_end ?r = 4"
    by (simp_all add: bank_geometry_valid_def bank_start_def bank_end_def sample_manifest_def
        get_build_geometry_def host_config_def format_consts)
  have cp: "mr_safe_checkpoint_sequence ?r = 20" by (simp add: sample_manifest_def)
  have tables: "mr_tables ?r ! i = (if i = 2 then sample_table 4 2 1 9 else if i = 3 then sample_table 5 3 10 20
      else empty_table_reference)" if "i < 16" for i
    using that by (auto simp: sample_manifest_def nth_list_update)
  have act: "\<not> tr_active empty_table_reference" "valid_table_reference (sample_table 4 2 1 9) 2 20"
    "valid_table_reference (sample_table 5 3 10 20) 3 20"
    "tr_active (sample_table g sl a b)" "tr_generation (sample_table g sl a b) = g"
    "tr_max_sequence (sample_table g sl a b) = b" for g sl a b
    by (simp_all add: sample_table_def empty_table_reference_def valid_table_reference_def)
  have step: "table_reference_step ?r (mr_tables ?r) i s = Some s" if "i < 16" "i \<noteq> 2" "i \<noteq> 3" for i s
    using that tables [of i] act by (simp add: table_reference_step_def split: prod.splits)
  have s2: "table_reference_step ?r (mr_tables ?r) 2 (0, 0, 0) = Some (1, 4, 9)"
    using tables [of 2] act by (simp add: table_reference_step_def bank cp)
  have s3: "table_reference_step ?r (mr_tables ?r) 3 (1, 4, 9) = Some (2, 5, 20)"
    using tables [of 3] tables [of 2] act by (simp add: table_reference_step_def bank cp upt_rec)
  have sum: "manifest_summary ?r = Some (2, 5, 20)"
    by (simp add: manifest_summary_def bank 16 step s2 s3)
  have "\<not> manifest_content_invalid host_config ?r (2, 5, 20)"
    using host_capacity_valid
    by (simp add: manifest_content_invalid_def sample_manifest_def format_consts)
       (simp add: get_build_geometry_def host_config_def)
  then show ?thesis
    using sum by (simp add: valid_manifest_record_def)
      (simp add: sample_manifest_def manifest_arrays_def format_consts)
qed

theorem manifest_corruption_witness:
  "\<exists>b. encode_manifest_record host_config (zeroes 4096) sample_manifest = Some b \<and>
     (\<exists>status. decode_manifest_record host_config (b[30 := b ! 30 + 1]) = Inl status)"
proof -
  obtain b r where b: "encode_manifest_record host_config (zeroes 4096) sample_manifest = Some b"
    "decode_manifest_record host_config b = Inr r"
    using manifest_record_roundtrip [OF sample_manifest_valid, of "zeroes 4096"] by auto
  have "\<exists>status. decode_manifest_record host_config (b[30 := b ! 30 + 1]) = Inl status"
    by (rule manifest_corruption_detected [OF b(2)]) (simp_all add: format_consts)
  then show ?thesis using b(1) by blast
qed

section \<open>Round trips\<close>

text \<open>
  C21: the manifest record survives storage. Every record the content rules admit is encoded, the
  encoding fills one manifest slot without growing the buffer, and decoding it yields the record
  with its table references reduced to what the format stores.
\<close>

theorem manifest_encode_decode:
  assumes "valid_manifest_record cfg record" "manifest_record_size \<le> length buf"
  shows "\<exists>b. encode_manifest_record cfg buf record = Some b \<and> length b = length buf \<and>
           decode_manifest_record cfg b = Inr (stored_manifest record)"
  using assms by (intro manifest_record_roundtrip) (simp_all add: format_consts)

theorem manifest_encode_decode_witness:
  "\<exists>b. encode_manifest_record host_config (zeroes 4096) sample_manifest = Some b \<and>
     length b = length (zeroes 4096) \<and>
     decode_manifest_record host_config b = Inr (stored_manifest sample_manifest)"
  by (rule manifest_encode_decode [OF sample_manifest_valid]) (simp add: format_consts)

lemma collect_table_references_D:
  assumes "collect_table_references record slots s0 = Some s1" "i \<in> set slots" "tr_active (mr_tables record ! i)"
  shows "bank_start record \<le> i \<and> i < bank_end record \<and>
    valid_table_reference (mr_tables record ! i) (of_nat i) (mr_safe_checkpoint_sequence record) \<and>
    (\<forall>j. bank_start record \<le> j \<longrightarrow> j < i \<longrightarrow> tr_active (mr_tables record ! j) \<longrightarrow>
       tr_generation (mr_tables record ! j) \<noteq> tr_generation (mr_tables record ! i))"
proof -
  have "\<exists>s s'. table_reference_step record (mr_tables record) i s = Some s'"
    using assms(1,2)
  proof (induction slots arbitrary: s0)
    case (Cons a slots)
    then obtain s where "table_reference_step record (mr_tables record) a s0 = Some s"
      "collect_table_references record slots s = Some s1" by auto
    then show ?case using Cons.IH Cons.prems(2) by (metis set_ConsD)
  qed simp
  then show ?thesis
    using assms(3) by (auto simp: table_reference_step_def Let_def split: prod.splits if_splits)
qed

text \<open>
  C22: what the manifest decoder accepts. An accepted record has a non-zero generation, a geometry and
  limits with room for a compaction, and table references that are well formed, lie in the active
  bank, carry distinct generations, and agree with the checkpoint and the next generation.
\<close>

theorem manifest_decode_checked:
  assumes "decode_manifest_record cfg buf = Inr record"
  shows "manifest_arrays record \<and> mr_generation record \<noteq> 0 \<and>
    validate_compaction_capacity cfg (mr_geometry record) (mr_limits record) \<and>
    (\<forall>slot < max_table_count. tr_active (mr_tables record ! slot) \<longrightarrow>
       bank_start record \<le> slot \<and> slot < bank_end record \<and>
       valid_table_reference (mr_tables record ! slot) (of_nat slot) (mr_safe_checkpoint_sequence record)) \<and>
    (\<forall>i < max_table_count. \<forall>j < i. tr_active (mr_tables record ! i) \<longrightarrow> tr_active (mr_tables record ! j) \<longrightarrow>
       tr_generation (mr_tables record ! i) \<noteq> tr_generation (mr_tables record ! j))"
proof -
  obtain s where s: "collect_table_references record [0..<16] (0, 0, 0) = Some s"
    and c: "\<not> manifest_content_invalid cfg record s"
    using decode_manifest_record_InrD(5) [OF assms] by blast
  note D = collect_table_references_D [OF s]
  have fields: "manifest_arrays record" "mr_generation record \<noteq> 0"
    "validate_compaction_capacity cfg (mr_geometry record) (mr_limits record)"
    using decode_manifest_record_InrD(3,4) [OF assms] c
    by (simp_all add: manifest_content_invalid_def split: prod.splits)
  have "\<forall>i < max_table_count. \<forall>j < i. tr_active (mr_tables record ! i) \<longrightarrow> tr_active (mr_tables record ! j) \<longrightarrow>
       tr_generation (mr_tables record ! i) \<noteq> tr_generation (mr_tables record ! j)"
  proof (intro allI impI)
    fix i j assume "i < max_table_count" "j < i" and a: "tr_active (mr_tables record ! i)"
      "tr_active (mr_tables record ! j)"
    then have "i \<in> set [0..<16]" "j \<in> set [0..<16]" by (auto simp: format_consts)
    then show "tr_generation (mr_tables record ! i) \<noteq> tr_generation (mr_tables record ! j)"
      using D [of i] D [of j] a \<open>j < i\<close> by metis
  qed
  moreover have "\<forall>slot < max_table_count. tr_active (mr_tables record ! slot) \<longrightarrow>
       bank_start record \<le> slot \<and> slot < bank_end record \<and>
       valid_table_reference (mr_tables record ! slot) (of_nat slot) (mr_safe_checkpoint_sequence record)"
    using D by (auto simp: format_consts)
  ultimately show ?thesis using fields by blast
qed

theorem manifest_decode_checked_witness:
  "\<exists>b. encode_manifest_record host_config (zeroes 4096) sample_manifest = Some b \<and>
     mr_generation (stored_manifest sample_manifest) \<noteq> 0"
proof -
  obtain b where b: "encode_manifest_record host_config (zeroes 4096) sample_manifest = Some b"
    "decode_manifest_record host_config b = Inr (stored_manifest sample_manifest)"
    using manifest_record_roundtrip [OF sample_manifest_valid, of "zeroes 4096"] by auto
  then show ?thesis using manifest_decode_checked [OF b(2)] by blast
qed

text \<open>
  C33: a WAL frame survives storage, with the checksum of its payload filled in.
\<close>

theorem wal_frame_encode_decode:
  assumes "\<not> wal_frame_invalid header" "length payload = unat (wf_payload_size header)"
    "length payload \<le> wal_frame_payload_capacity" "wal_frame_size \<le> length frame"
  shows "\<exists>b. encode_wal_frame frame header payload = Some b \<and> length b = length frame \<and>
    decode_wal_frame b = Inr (header\<lparr>wf_payload_checksum := calc_crc32 payload\<rparr>, payload)"
  using assms by (intro wal_frame_roundtrip) (simp_all add: format_consts)

theorem wal_frame_encode_decode_witness:
  "\<exists>b. encode_wal_frame (zeroes 4096) sample_frame [1, 2] = Some b \<and> length b = length (zeroes 4096) \<and>
    decode_wal_frame b = Inr (sample_frame\<lparr>wf_payload_checksum := calc_crc32 [1, 2]\<rparr>, [1, 2])"
  by (rule wal_frame_encode_decode [OF sample_frame_valid]) (simp_all add: sample_frame_def format_consts)

text \<open>
  C34: a value chunk survives storage, with the checksum of its payload filled in.
\<close>

theorem value_chunk_encode_decode:
  assumes "\<not> value_chunk_invalid header" "length payload = unat (vc_payload_size header)"
    "value_chunk_size \<le> length chunk"
  shows "\<exists>b. encode_value_chunk chunk header payload = Some b \<and> length b = length chunk \<and>
     decode_value_chunk b = Inr (header\<lparr>vc_payload_checksum := calc_crc32 payload\<rparr>, payload)"
  using assms by (intro value_chunk_roundtrip) (simp_all add: format_consts)

definition sample_chunk :: value_chunk_header where
  "sample_chunk = \<lparr>vc_database_id = 7, vc_bank_generation = 1, vc_first_chunk_offset = 8192,
     vc_value_size = 3, vc_value_offset = 0, vc_payload_size = 3, vc_flags = 1, vc_payload_checksum = 0\<rparr>"

theorem value_chunk_encode_decode_witness:
  "\<exists>b. encode_value_chunk (zeroes 4096) sample_chunk [1, 2, 3] = Some b \<and> length b = length (zeroes 4096) \<and>
     decode_value_chunk b = Inr (sample_chunk\<lparr>vc_payload_checksum := calc_crc32 [1, 2, 3]\<rparr>, [1, 2, 3])"
  by (rule value_chunk_encode_decode)
     (simp_all add: sample_chunk_def value_chunk_invalid_def chunk_final_def format_consts)

text \<open>
  C25: a table entry survives storage: an encoded entry occupies its 8-aligned size at its offset,
  nothing else in the block changes, and decoding at the offset yields the entry.
\<close>

theorem table_entry_encode_decode:
  assumes "valid_table_entry entry" "offset + entry_size entry \<le> length buf" "length buf < 2 ^ 32 - 8"
  shows "\<exists>b. encode_table_entry buf offset entry = Some (b, of_nat (entry_size entry)) \<and>
    length b = length buf \<and>
    decode_table_entry b offset = Inr (entry\<lparr>te_total_size := of_nat (entry_size entry)\<rparr>) \<and>
    (\<forall>i n. i + n \<le> offset \<or> offset + entry_size entry \<le> i \<longrightarrow> get b i n = get buf i n)"
  using assms by (rule table_entry_roundtrip)

definition sample_entry :: table_entry where
  "sample_entry = \<lparr>te_transaction_sequence = 5, te_total_size = 0, te_value_size = 3, te_reserved0 = 0,
     te_flags = 0, te_external_value = empty_value_ref, te_namespace = [97], te_key = [98, 99],
     te_value = Some [1, 2, 3]\<rparr>"

lemma sample_entry_valid: "valid_table_entry sample_entry" "entry_size sample_entry = 32"
  by (simp_all add: valid_table_entry_def sample_entry_def entry_size_def valid_name_length
      te_external_def te_tombstone_def te_unknown_flags_def format_consts align8_def)

theorem table_entry_encode_decode_witness:
  "\<exists>b. encode_table_entry (zeroes 100) 8 sample_entry = Some (b, 32) \<and>
     decode_table_entry b 8 = Inr (sample_entry\<lparr>te_total_size := 32\<rparr>)"
  using table_entry_encode_decode [OF sample_entry_valid(1), of 8 "zeroes 100"]
  by (auto simp: sample_entry_valid(2))

text \<open>
  The metadata at the head and at the foot of a table survives storage, under either magic.
\<close>

theorem table_metadata_encode_decode:
  assumes "valid_table_metadata metadata" "magic = table_header_magic \<or> magic = table_footer_magic"
    "table_metadata_size \<le> length buf"
  shows "\<exists>b. encode_table_metadata buf magic metadata = Some b \<and> length b = length buf \<and>
           decode_table_metadata b magic = Inr metadata"
  using assms by (intro table_metadata_roundtrip) (simp_all add: format_consts)

definition sample_metadata :: table_metadata where
  "sample_metadata = \<lparr>tm_database_id = 7, tm_generation = 2, tm_min_sequence = 1, tm_max_sequence = 9,
     tm_slot = 1, tm_block_size = 16384, tm_data_region_start = 16384, tm_data_block_count = 1,
     tm_index_offset = 98304, tm_footer_offset = 114688, tm_entry_count = 2, tm_data_bytes = 64,
     tm_content_checksum = 5, tm_level = 0, tm_min_key = Composite_Key [97] [1],
     tm_max_key = Composite_Key [97] [2]\<rparr>"

theorem table_metadata_encode_decode_witness:
  "\<exists>b. encode_table_metadata (zeroes 4096) table_footer_magic sample_metadata = Some b \<and>
     length b = length (zeroes 4096) \<and> decode_table_metadata b table_footer_magic = Inr sample_metadata"
proof (rule table_metadata_encode_decode)
  show "valid_table_metadata sample_metadata"
    by (simp add: valid_table_metadata_def sample_metadata_def format_consts checked_mul_def checked_add_def
        valid_composite_key_def validate_bytes_def compare_composite_key_def memcmp_def)
qed (simp_all add: format_consts)

section \<open>Keys and handle tokens\<close>

text \<open>
  C37: the order of the tables. Comparing composite keys is the lexicographic order of the
  namespace bytes and then of the key bytes, so it is total, and zero exactly on equal keys.
\<close>

theorem composite_key_order_lexicographic:
  "compare_composite_key lhs rhs =
     (if (ck_namespace lhs, ck_key lhs) = (ck_namespace rhs, ck_key rhs) then 0
      else if ck_namespace lhs < ck_namespace rhs \<or>
              ck_namespace lhs = ck_namespace rhs \<and> ck_key lhs < ck_key rhs then - 1 else 1)"
  by (cases lhs; cases rhs) (auto simp: compare_composite_key_lex)

lemma decode_handle_SomeD:
  assumes "decode_handle_value v = Some (slot, generation)"
  shows "valid_handle_parts slot generation" "v = make_handle_value slot generation"
proof -
  have mask: "v AND handle_slot_mask = v AND 511" by (simp add: handle_consts)
  define t where "t = v AND 511"
  have t: "t \<noteq> 0" "t \<le> 256" "slot = ucast (t - 1)" "generation = drop_bit 9 v" "generation \<noteq> 0"
    using assms by (auto simp: decode_handle_value_def mask t_def [symmetric] Let_def not_less
        handle_slot_bits_def handle_slot_capacity_def split: if_splits)
  have t1: "0 < unat t" "unat t \<le> 256" using t by (auto simp: unat_gt_0 word_le_nat_alt)
  then have u: "unat (t - 1) = unat t - 1" by (simp add: unat_sub word_le_nat_alt)
  then have s: "unat slot = unat t - 1"
    using t1 t(3) by (simp add: unsigned_ucast_eq take_bit_nat_eq_self)
  then have slot: "slot < handle_slot_capacity"
    using t1 by (simp add: handle_consts word_less_nat_alt)
  have tok: "ucast slot + 1 = t"
    using slot_token(1) [OF slot] s t1 by (simp add: word_eq_iff_unsigned [where 'a = nat])
  have gen: "generation \<le> max_handle_generation"
    unfolding handle_generation_bits t(4)
    by (rule bit_word_eqI) (auto simp: bit_simps dest: bit_imp_le_length)
  show parts: "valid_handle_parts slot generation"
    using slot gen t(5) by (simp add: valid_handle_parts_def)
  have "v = push_bit 9 generation OR t"
    unfolding t_def mask [symmetric] t(4) handle_mask by (rule bit_word_eqI) (auto simp: bit_simps)
  then show "v = make_handle_value slot generation"
    using parts tok by (simp add: make_handle_value_def valid_handle_parts_def not_less [symmetric]
        handle_slot_bits_def)
qed

text \<open>
  C35: handle tokens are unforgeable by accident: a 64-bit value decodes to a slot and a generation
  exactly if it is the token made for that slot and that generation, and both are in range.
\<close>

theorem handle_token_exact:
  "decode_handle_value v = Some (slot, generation) \<longleftrightarrow>
     valid_handle_parts slot generation \<and> v = make_handle_value slot generation"
  using decode_make_handle decode_handle_SomeD by blast

section \<open>A wrap-around in the entry decoder\<close>

text \<open>
  C39: the size check of \<open>decode_table_entry\<close> wraps. The 32-bit sum of the header, the names
  and an inline value size close to \<open>2 ^ 32\<close> is small, so an entry whose value would extend
  far behind the buffer is accepted if its checksum is right.
\<close>

theorem table_entry_size_wraps:
  "\<exists>buf entry. length buf = 32 \<and> decode_table_entry buf 0 = Inr entry \<and>
     te_value_size entry = max_value_len \<and> \<not> te_external (te_flags entry)"
proof -
  let ?b = "put (put (put (put (zeroes 32) 0 (le_bytes 4 (24 :: u32))) 4 (le_bytes 4 (0xFFFFFFFE :: u32)))
     8 (le_bytes 8 (1 :: u64))) 16 [1, 1, 0, 0]"
  let ?buf = "put ?b 20 (le_bytes 4 (calc_record_crc ?b 24 20))"
  have at: "?b ! 16 = 1" "?b ! 17 = 1" "?b ! 18 = 0" "?b ! 19 = 0"
    by (simp_all add: nth_put)
  have one: "zeroes (Suc 0) = [0]" by (simp add: zeroes_def)
  show ?thesis
    by (rule exI [of _ ?buf])
       (simp add: decode_table_entry_def is_range_valid_iff format_consts buffer_simps at one Let_def
        entry_meaningful_size_def te_external_def te_unknown_flags_def te_tombstone_def valid_name_length
        is_zero_range_def)
qed

end
