(* ===== verification/Storage.thy ===== *)
theory Storage
  imports Geometry
begin

text \<open>
  The raw byte range of a database (\<open>on9kvdb_io.cpp\<close>): the map from file kinds and slots to
  regions, and byte reads and writes on top of a block device. The device (\<open>on9kvdb_io\<close>) is an
  interface of the sources with pure virtual methods; it is a parameter of every operation, a record
  of its methods over a state type of its own. \<open>device_image\<close> states the documented behaviour
  of a working device, and is a named hypothesis of the theorems that need one.
\<close>

section \<open>Regions\<close>

definition get_storage_region :: "storage_geometry \<Rightarrow> file_kind \<Rightarrow> u32 \<Rightarrow> esp_err + u64 \<times> u64" where
  "get_storage_region geometry kind slot =
     (case (case kind of
        kind_manifest \<Rightarrow>
          if slot \<noteq> 0 then Inl ESP_ERR_INVALID_ARG
          else Inr (0, ucast (sg_manifest_size geometry))
      | kind_wal \<Rightarrow>
          (case (if slot \<ge> sg_wal_count geometry then None
                 else do {
                   offset \<leftarrow> checked_mul (ucast slot) (ucast (sg_wal_size geometry) :: u64);
                   checked_add (ucast (sg_manifest_size geometry)) offset }) of
             None \<Rightarrow> Inl ESP_ERR_INVALID_SIZE
           | Some offset \<Rightarrow> Inr (offset, ucast (sg_wal_size geometry)))
      | kind_table \<Rightarrow>
          (case (if slot \<ge> sg_table_count geometry then None
                 else do {
                   wal_bytes \<leftarrow> checked_mul (ucast (sg_wal_count geometry))
                     (ucast (sg_wal_size geometry) :: u64);
                   table_offset \<leftarrow> checked_mul (ucast slot) (ucast (sg_table_size geometry));
                   offset \<leftarrow> checked_add (ucast (sg_manifest_size geometry)) wal_bytes;
                   checked_add offset table_offset }) of
             None \<Rightarrow> Inl ESP_ERR_INVALID_SIZE
           | Some offset \<Rightarrow> Inr (offset, ucast (sg_table_size geometry)))
      | kind_value_bank \<Rightarrow>
          (case (if slot \<ge> sg_value_bank_count geometry then None
                 else do {
                   wal_bytes \<leftarrow> checked_mul (ucast (sg_wal_count geometry))
                     (ucast (sg_wal_size geometry) :: u64);
                   table_bytes \<leftarrow> checked_mul (ucast (sg_table_count geometry))
                     (ucast (sg_table_size geometry));
                   value_offset \<leftarrow> checked_mul (ucast slot) (ucast (sg_value_bank_size geometry));
                   offset \<leftarrow> checked_add (ucast (sg_manifest_size geometry)) wal_bytes;
                   offset \<leftarrow> checked_add offset table_bytes;
                   checked_add offset value_offset }) of
             None \<Rightarrow> Inl ESP_ERR_INVALID_SIZE
           | Some offset \<Rightarrow> Inr (offset, ucast (sg_value_bank_size geometry)))
      | kind_invalid \<Rightarrow> Inl ESP_ERR_INVALID_ARG) of
        Inl e \<Rightarrow> Inl e
      | Inr (offset, len) \<Rightarrow>
          (case checked_add offset len of
             None \<Rightarrow> Inl ESP_ERR_INVALID_SIZE
           | Some region_end \<Rightarrow>
               if region_end > sg_provisioned_size geometry then Inl ESP_ERR_INVALID_SIZE
               else Inr (offset, len)))"

text \<open>The same map in exact arithmetic, for slots the geometry has.\<close>

definition region_exists :: "storage_geometry \<Rightarrow> file_kind \<Rightarrow> u32 \<Rightarrow> bool" where
  "region_exists g kind slot \<longleftrightarrow>
     (case kind of
        kind_invalid \<Rightarrow> False
      | kind_manifest \<Rightarrow> slot = 0
      | kind_wal \<Rightarrow> slot < sg_wal_count g
      | kind_table \<Rightarrow> slot < sg_table_count g
      | kind_value_bank \<Rightarrow> slot < sg_value_bank_count g)"

definition region_size :: "storage_geometry \<Rightarrow> file_kind \<Rightarrow> nat" where
  "region_size g kind =
     (case kind of
        kind_invalid \<Rightarrow> 0
      | kind_manifest \<Rightarrow> unat (sg_manifest_size g)
      | kind_wal \<Rightarrow> unat (sg_wal_size g)
      | kind_table \<Rightarrow> unat (sg_table_size g)
      | kind_value_bank \<Rightarrow> unat (sg_value_bank_size g))"

definition region_start :: "storage_geometry \<Rightarrow> file_kind \<Rightarrow> u32 \<Rightarrow> nat" where
  "region_start g kind slot =
     (case kind of
        kind_invalid \<Rightarrow> 0
      | kind_manifest \<Rightarrow> 0
      | kind_wal \<Rightarrow> unat (sg_manifest_size g) + unat slot * unat (sg_wal_size g)
      | kind_table \<Rightarrow>
          unat (sg_manifest_size g) + wal_bytes g + unat slot * unat (sg_table_size g)
      | kind_value_bank \<Rightarrow>
          unat (sg_manifest_size g) + wal_bytes g + table_bytes g +
          unat slot * unat (sg_value_bank_size g))"

lemma slot_end_le: "(slot :: u32) < n \<Longrightarrow> unat slot * s + s \<le> unat n * s"
proof -
  assume "slot < n"
  then have "Suc (unat slot) \<le> unat n" by (simp add: word_less_nat_alt)
  then have "Suc (unat slot) * s \<le> unat n * s" by (rule mult_le_mono1)
  then show ?thesis by simp
qed

lemma region_in_range:
  assumes "validate_storage_geometry g" "region_exists g kind slot"
  shows "region_start g kind slot + region_size g kind \<le> unat (sg_provisioned_size g)"
  using validate_storage_geometry_D(1,2) [OF assms(1)] assms(2)
    slot_end_le [of slot "sg_wal_count g" "unat (sg_wal_size g)"]
    slot_end_le [of slot "sg_table_count g" "unat (sg_table_size g)"]
    slot_end_le [of slot "sg_value_bank_count g" "unat (sg_value_bank_size g)"]
  by (cases kind) (auto simp: region_exists_def region_start_def region_size_def wal_bytes_def
      table_bytes_def value_bank_bytes_def)

lemma get_storage_region_exact:
  assumes valid: "validate_storage_geometry g" and ex: "region_exists g kind slot"
  shows "\<exists>off len. get_storage_region g kind slot = Inr (off, len) \<and>
     unat off = region_start g kind slot \<and> unat len = region_size g kind"
proof -
  have le: "region_start g kind slot + region_size g kind \<le> unat (sg_provisioned_size g)"
    using valid ex by (rule region_in_range)
  have p: "unat (sg_provisioned_size g) < 2 ^ 64" by (rule unat_bound64)
  show ?thesis
    using le p ex validate_storage_geometry_D(1,2) [OF valid]
    by (cases kind)
       (auto simp: get_storage_region_def region_exists_def region_start_def region_size_def
        checked_add_eq checked_mul_eq unat_add_exact unat_mult_exact wal_bytes_def table_bytes_def
        word_less_nat_alt word_le_nat_alt not_le)
qed

lemma get_storage_region_InrD:
  assumes "get_storage_region g kind slot = Inr (off, len)"
  shows "region_exists g kind slot"
  using assms by (auto simp: get_storage_region_def region_exists_def split: file_kind.splits if_splits)

text \<open>No two regions share a byte.\<close>

lemma regions_disjoint:
  assumes valid: "validate_storage_geometry g"
    and ex: "region_exists g k s" "region_exists g k' s'" and ne: "(k, s) \<noteq> (k', s')"
  shows "region_start g k s + region_size g k \<le> region_start g k' s' \<or>
         region_start g k' s' + region_size g k' \<le> region_start g k s"
proof -
  have same: "unat s * z + z \<le> unat s' * z \<or> unat s' * z + z \<le> unat s * z" if "s \<noteq> s'" for z
  proof -
    have "s < s' \<or> s' < s" using that by auto
    then show ?thesis using slot_end_le [of s s' z] slot_end_le [of s' s z] by auto
  qed
  show ?thesis
    using ex ne validate_storage_geometry_D(1,2) [OF valid]
      slot_end_le [of s "sg_wal_count g" "unat (sg_wal_size g)"]
      slot_end_le [of s "sg_table_count g" "unat (sg_table_size g)"]
      slot_end_le [of s' "sg_wal_count g" "unat (sg_wal_size g)"]
      slot_end_le [of s' "sg_table_count g" "unat (sg_table_size g)"]
      same [of "unat (sg_wal_size g)"] same [of "unat (sg_table_size g)"]
      same [of "unat (sg_value_bank_size g)"]
    by (cases k; cases k') (auto simp: region_exists_def region_start_def region_size_def
        wal_bytes_def table_bytes_def)
qed

section \<open>The block device\<close>

text \<open>
  The methods of \<open>on9kvdb_io\<close> over a device state \<open>'d\<close>. A read that succeeds yields the
  bytes it placed in the destination.
\<close>

record 'd block_device =
  bd_block_size :: u32
  bd_read_blocks :: "'d \<Rightarrow> u64 \<Rightarrow> u32 \<Rightarrow> esp_err + bytes"
  bd_write_blocks :: "'d \<Rightarrow> u64 \<Rightarrow> bytes \<Rightarrow> u32 \<Rightarrow> esp_err \<times> 'd"
  bd_sync :: "'d \<Rightarrow> esp_err \<times> 'd"

definition block_size_supported :: "u32 \<Rightarrow> bool" where
  "block_size_supported bs \<longleftrightarrow> bs \<noteq> 0 \<and> format_alignment mod unat bs = 0"

section \<open>Reading and writing a region\<close>

text \<open>
  The loop over bounce-buffered blocks. It advances by at least one byte as long as the block size
  is not zero, which its caller has checked.
\<close>

function read_bounced :: "'d block_device \<Rightarrow> 'd \<Rightarrow> nat \<Rightarrow> nat \<Rightarrow> bytes \<Rightarrow> esp_err + bytes" where
  "read_bounced dev d absolute_offset remaining output =
     (if remaining = 0 \<or> bd_block_size dev = 0 then Inr output
      else
        let block_size = unat (bd_block_size dev);
            block_offset = absolute_offset mod block_size;
            copy_size = (if remaining < block_size - block_offset then remaining
                         else block_size - block_offset)
        in (case bd_read_blocks dev d (of_nat (absolute_offset div block_size)) 1 of
              Inl e \<Rightarrow> Inl e
            | Inr bounce \<Rightarrow>
                read_bounced dev d (absolute_offset + copy_size) (remaining - copy_size)
                  (output @ get bounce block_offset copy_size)))"
  by pat_completeness auto
termination
  by (relation "measure (\<lambda>(_, _, _, remaining, _). remaining)") (auto simp: unat_gt_0)

declare read_bounced.simps [simp del]

definition read_storage_bytes ::
  "'d block_device \<Rightarrow> storage_geometry \<Rightarrow> 'd \<Rightarrow> file_kind \<Rightarrow> u32 \<Rightarrow> u64 \<Rightarrow> nat \<Rightarrow> esp_err + bytes" where
  "read_storage_bytes dev geometry d kind slot offset n =
     (case get_storage_region geometry kind slot of
        Inl e \<Rightarrow> Inl e
      | Inr (region_offset, region_len) \<Rightarrow>
          if offset > region_len \<or> n > unat (region_len - offset) then Inl ESP_ERR_INVALID_SIZE
          else if n = 0 then Inr []
          else
            let block_size = unat (bd_block_size dev) in
            if \<not> block_size_supported (bd_block_size dev) \<or> block_size > format_alignment
            then Inl ESP_ERR_INVALID_STATE
            else
              (case checked_add region_offset offset of
                 None \<Rightarrow> Inl ESP_ERR_INVALID_SIZE
               | Some absolute_offset \<Rightarrow>
                   if unat absolute_offset mod block_size = 0 \<and> n mod block_size = 0 then
                     if n div block_size > 0xFFFFFFFF then Inl ESP_ERR_INVALID_SIZE
                     else bd_read_blocks dev d (absolute_offset div of_nat block_size)
                            (of_nat (n div block_size))
                   else read_bounced dev d (unat absolute_offset) n []))"

definition write_storage_bytes ::
  "'d block_device \<Rightarrow> storage_geometry \<Rightarrow> 'd \<Rightarrow> file_kind \<Rightarrow> u32 \<Rightarrow> u64 \<Rightarrow> bytes \<Rightarrow> esp_err \<times> 'd" where
  "write_storage_bytes dev geometry d kind slot offset source =
     (let n = length source in
      case get_storage_region geometry kind slot of
        Inl e \<Rightarrow> (e, d)
      | Inr (region_offset, region_len) \<Rightarrow>
          if offset > region_len \<or> n > unat (region_len - offset) then (ESP_ERR_INVALID_SIZE, d)
          else if n = 0 then (ESP_OK, d)
          else
            let block_size = unat (bd_block_size dev) in
            if \<not> block_size_supported (bd_block_size dev) \<or> unat offset mod block_size \<noteq> 0 \<or>
               n mod block_size \<noteq> 0
            then (ESP_ERR_INVALID_SIZE, d)
            else
              (case checked_add region_offset offset of
                 None \<Rightarrow> (ESP_ERR_INVALID_SIZE, d)
               | Some absolute_offset \<Rightarrow>
                   if n div block_size > 0xFFFFFFFF then (ESP_ERR_INVALID_SIZE, d)
                   else bd_write_blocks dev d (absolute_offset div of_nat block_size) source
                          (of_nat (n div block_size))))"

definition sync_storage :: "'d block_device \<Rightarrow> 'd \<Rightarrow> esp_err \<times> 'd" where
  "sync_storage dev d = bd_sync dev d"

text \<open>
  The scan of an unprovisioned range. The state of the byte loop is the blank value once known;
  \<open>None\<close> as a result means the loop returned because the range is not blank.
\<close>

fun scan_blank_bytes :: "bytes \<Rightarrow> u8 option \<Rightarrow> u8 option option" where
  "scan_blank_bytes [] blank_value = Some blank_value"
| "scan_blank_bytes (b # bs) blank_value =
     (let blank_value = (case blank_value of
            Some v \<Rightarrow> Some v
          | None \<Rightarrow> if b = 0 \<or> b = - 1 then Some b else None)
      in if blank_value \<noteq> Some b then None else scan_blank_bytes bs blank_value)"

fun scan_blank_frames ::
  "'d block_device \<Rightarrow> 'd \<Rightarrow> nat \<Rightarrow> nat list \<Rightarrow> u8 option \<Rightarrow> esp_err + bool" where
  "scan_blank_frames dev d blocks_per_frame [] blank_value = Inr (blank_value \<noteq> None)"
| "scan_blank_frames dev d blocks_per_frame (frame # frames) blank_value =
     (case bd_read_blocks dev d (of_nat (frame * blocks_per_frame)) (of_nat blocks_per_frame) of
        Inl e \<Rightarrow> Inl e
      | Inr io_frame \<Rightarrow>
          (case scan_blank_bytes (take format_alignment io_frame) blank_value of
             None \<Rightarrow> Inr False
           | Some blank_value \<Rightarrow> scan_blank_frames dev d blocks_per_frame frames blank_value))"

definition storage_region_is_blank :: "config \<Rightarrow> 'd block_device \<Rightarrow> 'd \<Rightarrow> esp_err + bool" where
  "storage_region_is_blank cfg dev d =
     (let geometry = get_build_geometry cfg; block_size = unat (bd_block_size dev) in
      if \<not> block_size_supported (bd_block_size dev) \<or>
         unat (sg_provisioned_size geometry) mod block_size \<noteq> 0 then Inl ESP_ERR_INVALID_SIZE
      else scan_blank_frames dev d (format_alignment div block_size)
             [0..<unat (sg_provisioned_size geometry) div format_alignment] None)"

section \<open>A working device\<close>

text \<open>
  \<open>device_image dev img\<close>: the device serves the bytes \<open>img d\<close>, block by block, and a write
  in range replaces exactly the blocks it names.
\<close>

definition device_image :: "'d block_device \<Rightarrow> ('d \<Rightarrow> bytes) \<Rightarrow> bool" where
  "device_image dev img \<longleftrightarrow>
     (\<forall>d start count. (unat start + unat count) * unat (bd_block_size dev) \<le> length (img d) \<longrightarrow>
        bd_read_blocks dev d start count =
          Inr (get (img d) (unat start * unat (bd_block_size dev)) (unat count * unat (bd_block_size dev)))) \<and>
     (\<forall>d start count src. (unat start + unat count) * unat (bd_block_size dev) \<le> length (img d) \<longrightarrow>
        length src = unat count * unat (bd_block_size dev) \<longrightarrow>
        (\<exists>d'. bd_write_blocks dev d start src count = (ESP_OK, d') \<and>
              img d' = put (img d) (unat start * unat (bd_block_size dev)) src)) \<and>
     (\<forall>d. \<exists>d'. bd_sync dev d = (ESP_OK, d') \<and> img d' = img d)"

lemma device_image_read:
  "device_image dev img \<Longrightarrow> (unat start + unat count) * unat (bd_block_size dev) \<le> length (img d) \<Longrightarrow>
     bd_read_blocks dev d start count =
       Inr (get (img d) (unat start * unat (bd_block_size dev)) (unat count * unat (bd_block_size dev)))"
  by (simp add: device_image_def)

text \<open>A device over a byte array, the one the witnesses use.\<close>

definition memory_device :: "u32 \<Rightarrow> bytes block_device" where
  "memory_device bs = \<lparr>bd_block_size = bs,
     bd_read_blocks = (\<lambda>d start count.
       if (unat start + unat count) * unat bs \<le> length d
       then Inr (get d (unat start * unat bs) (unat count * unat bs)) else Inl ESP_ERR_INVALID_ARG),
     bd_write_blocks = (\<lambda>d start src count.
       if (unat start + unat count) * unat bs \<le> length d \<and> length src = unat count * unat bs
       then (ESP_OK, put d (unat start * unat bs) src) else (ESP_ERR_INVALID_ARG, d)),
     bd_sync = (\<lambda>d. (ESP_OK, d))\<rparr>"

lemma memory_device_image: "device_image (memory_device bs) id"
  by (simp add: device_image_def memory_device_def)

section \<open>Storage operations on a working device\<close>

definition working_storage ::
  "'d block_device \<Rightarrow> ('d \<Rightarrow> bytes) \<Rightarrow> storage_geometry \<Rightarrow> 'd \<Rightarrow> bool" where
  "working_storage dev img g d \<longleftrightarrow>
     device_image dev img \<and> validate_storage_geometry g \<and> block_size_supported (bd_block_size dev) \<and>
     unat (sg_provisioned_size g) \<le> length (img d)"

text \<open>The bytes of a region.\<close>

definition region_bytes :: "storage_geometry \<Rightarrow> file_kind \<Rightarrow> u32 \<Rightarrow> bytes \<Rightarrow> bytes" where
  "region_bytes g kind slot bs = get bs (region_start g kind slot) (region_size g kind)"

lemma block_size_supported_D:
  assumes "block_size_supported bs"
  shows "0 < unat bs" "unat bs \<le> 4096" "unat bs dvd 4096"
proof -
  show "0 < unat bs" "unat bs dvd 4096"
    using assms by (auto simp: block_size_supported_def format_consts unat_gt_0 dvd_eq_mod_eq_0)
  then show "unat bs \<le> 4096" by (simp add: dvd_imp_le)
qed

lemma region_alignment:
  assumes "validate_storage_geometry g"
  shows "4096 dvd region_start g kind slot" "4096 dvd region_size g kind"
    "4096 dvd unat (sg_provisioned_size g)"
  using validate_storage_geometry_D [OF assms]
  by (cases kind; simp add: region_start_def region_size_def wal_bytes_def table_bytes_def
      value_bank_bytes_def)+

lemma region_size_bound: "region_size g kind < 2 ^ 32"
  using unat_bound32 by (cases kind) (auto simp: region_size_def)

lemma block_end_le:
  fixes x :: nat
  assumes "0 < bs" "bs dvd p" "x < p"
  shows "(x div bs + 1) * bs \<le> p"
proof -
  obtain k where k: "p = bs * k" using assms(2) by auto
  then have "x div bs < k" using assms by (simp add: div_less_iff_less_mult mult.commute)
  then have "(x div bs + 1) * bs \<le> k * bs" by (intro mult_le_mono1) simp
  then show ?thesis by (simp add: k mult.commute)
qed

lemma read_bounced_image:
  assumes img: "device_image dev img" and bs: "0 < unat (bd_block_size dev)"
    and p: "unat (bd_block_size dev) dvd p" "p \<le> length (img d)" "p < 2 ^ 64"
  shows "a + n \<le> p \<Longrightarrow> read_bounced dev d a n out = Inr (out @ get (img d) a n)"
proof (induction n arbitrary: a out rule: less_induct)
  case (less n)
  show ?case
  proof (cases "n = 0")
    case True
    then show ?thesis by (subst read_bounced.simps) simp
  next
    case False
    define bs where "bs = unat (bd_block_size dev)"
    define off where "off = a mod bs"
    define c where "c = (if n < bs - off then n else bs - off)"
    have bs0: "0 < bs" "bd_block_size dev \<noteq> 0" using bs by (auto simp: bs_def)
    have off: "off < bs" "off \<le> a" using bs0 by (simp_all add: off_def)
    have c: "0 < c" "c \<le> n" "off + c \<le> bs" using False off by (auto simp: c_def)
    have block: "(a div bs + 1) * bs \<le> p"
      using block_end_le [of bs p a] bs0(1) p(1) less.prems False by (simp add: bs_def)
    have a64: "a div bs < 2 ^ 64"
      using le_less_trans [OF div_le_dividend [of a bs]] less.prems p(3) by simp
    have read: "bd_read_blocks dev d (of_nat (a div bs)) 1 = Inr (get (img d) (a div bs * bs) bs)"
      using img block p(2) a64 unfolding device_image_def bs_def by auto
    have split: "a div bs * bs + off = a" by (simp add: off_def)
    have chunk: "get (get (img d) (a div bs * bs) bs) off c = get (img d) a c"
      using c split by (simp add: get_get)
    have "read_bounced dev d a n out =
        read_bounced dev d (a + c) (n - c) (out @ get (img d) a c)"
      using False bs bs0(2) read chunk unfolding c_def
      by (subst read_bounced.simps)
         (auto simp: Let_def bs_def [symmetric] off_def [symmetric] unat_gt_0)
    also have "\<dots> = Inr ((out @ get (img d) a c) @ get (img d) (a + c) (n - c))"
      using less.prems c by (intro less.IH) auto
    also have "\<dots> = Inr (out @ get (img d) a n)"
      using get_append [of a c "n - c" "img d"] less.prems c p(2) by simp
    finally show ?thesis .
  qed
qed

lemma unat_div_block:
  assumes "unat (bs :: u32) \<le> 4096" "0 < unat bs"
  shows "unat ((a :: u64) div of_nat (unat bs)) = unat a div unat bs"
proof -
  have "unat (of_nat (unat bs) :: u64) = unat bs" using assms by (intro unat_of_nat_eq) simp
  then show ?thesis by (simp only: unat_div)
qed

lemma read_storage_image:
  assumes "working_storage dev img g d" "region_exists g kind slot"
    "unat offset + n \<le> region_size g kind"
  shows "read_storage_bytes dev g d kind slot offset n =
     Inr (get (region_bytes g kind slot (img d)) (unat offset) n)"
proof -
  from assms(1) have img: "device_image dev img" and valid: "validate_storage_geometry g"
    and sup: "block_size_supported (bd_block_size dev)"
    and len: "unat (sg_provisioned_size g) \<le> length (img d)"
    by (simp_all add: working_storage_def)
  note bs = block_size_supported_D [OF sup]
  obtain ro rl where r: "get_storage_region g kind slot = Inr (ro, rl)"
    "unat ro = region_start g kind slot" "unat rl = region_size g kind"
    using get_storage_region_exact [OF valid assms(2)] by auto
  have inr: "region_start g kind slot + region_size g kind \<le> unat (sg_provisioned_size g)"
    using valid assms(2) by (rule region_in_range)
  have p: "unat (sg_provisioned_size g) < 2 ^ 64" by (rule unat_bound64)
  have off: "offset \<le> rl" "unat (rl - offset) = region_size g kind - unat offset"
    using assms(3) r(3) by (auto simp: word_le_nat_alt unat_sub)
  have fits: "n \<le> region_size g kind - unat offset" using assms(3) by simp
  define a where "a = region_start g kind slot + unat offset"
  have ua: "unat (ro + offset) = a" "checked_add ro offset = Some (ro + offset)"
    using r(2) assms(3) inr p by (auto simp: a_def unat_add_exact checked_add_eq)
  have target: "get (img d) a n = get (region_bytes g kind slot (img d)) (unat offset) n"
    using assms(3) by (simp add: region_bytes_def get_get a_def)
  show ?thesis
  proof (cases "n = 0")
    case True
    then show ?thesis using r off assms(3) by (simp add: read_storage_bytes_def)
  next
    case False
    let ?bs = "unat (bd_block_size dev)"
    show ?thesis
    proof (cases "a mod ?bs = 0 \<and> n mod ?bs = 0")
      case True
      have n32: "n div ?bs < 2 ^ 32"
        using le_less_trans [OF div_le_dividend [of n ?bs]] assms(3) region_size_bound [of g kind] by simp
      then have un: "unat (of_nat (n div ?bs) :: u32) = n div ?bs" by simp
      have mult: "a div ?bs * ?bs = a" "n div ?bs * ?bs = n" using True by auto
      have "bd_read_blocks dev d ((ro + offset) div of_nat ?bs) (of_nat (n div ?bs)) =
          Inr (get (img d) a n)"
        using img mult inr len assms(3) unat_div_block [OF bs(2,1), of "ro + offset"] un
        unfolding device_image_def
        by (simp add: ua(1) a_def [symmetric] add_mult_distrib) (simp add: a_def)
      then show ?thesis
        using r off fits False sup bs True ua n32 target
        by (simp add: read_storage_bytes_def Let_def not_less format_consts)
    next
      case False2: False
      have "read_bounced dev d a n [] = Inr (get (img d) a n)"
        using read_bounced_image [OF img bs(1), of "unat (sg_provisioned_size g)" d a n "[]"]
          bs(3) region_alignment(3) [OF valid] len p inr assms(3)
        by (auto simp: a_def intro: dvd_trans)
      then show ?thesis
        using r off fits False sup bs False2 ua target
        by (auto simp add: read_storage_bytes_def Let_def not_less format_consts)
    qed
  qed
qed

lemma write_storage_image:
  assumes "working_storage dev img g d" "region_exists g kind slot"
    "unat offset + length src \<le> region_size g kind"
    and aligned: "4096 dvd unat offset" "4096 dvd length src"
  shows "\<exists>d'. write_storage_bytes dev g d kind slot offset src = (ESP_OK, d') \<and>
     img d' = put (img d) (region_start g kind slot + unat offset) src"
proof -
  from assms(1) have img: "device_image dev img" and valid: "validate_storage_geometry g"
    and sup: "block_size_supported (bd_block_size dev)"
    and len: "unat (sg_provisioned_size g) \<le> length (img d)"
    by (simp_all add: working_storage_def)
  note bs = block_size_supported_D [OF sup]
  let ?bs = "unat (bd_block_size dev)" and ?n = "length src"
  obtain ro rl where r: "get_storage_region g kind slot = Inr (ro, rl)"
    "unat ro = region_start g kind slot" "unat rl = region_size g kind"
    using get_storage_region_exact [OF valid assms(2)] by auto
  have inr: "region_start g kind slot + region_size g kind \<le> unat (sg_provisioned_size g)"
    using valid assms(2) by (rule region_in_range)
  have p: "unat (sg_provisioned_size g) < 2 ^ 64" by (rule unat_bound64)
  have off: "offset \<le> rl" "unat (rl - offset) = region_size g kind - unat offset"
    using assms(3) r(3) by (auto simp: word_le_nat_alt unat_sub)
  have fits: "?n \<le> region_size g kind - unat offset" using assms(3) by simp
  define a where "a = region_start g kind slot + unat offset"
  have ua: "unat (ro + offset) = a" "checked_add ro offset = Some (ro + offset)"
    using r(2) assms(3) inr p by (auto simp: a_def unat_add_exact checked_add_eq)
  have dvds: "?bs dvd a" "?bs dvd ?n" "?bs dvd unat offset"
    using aligned region_alignment(1) [OF valid, of kind slot] bs(3)
    by (auto simp: a_def intro: dvd_trans)
  have n32: "?n div ?bs < 2 ^ 32"
    using le_less_trans [OF div_le_dividend [of ?n ?bs]] assms(3) region_size_bound [of g kind] by simp
  then have un: "unat (of_nat (?n div ?bs) :: u32) = ?n div ?bs" by simp
  have mult: "a div ?bs * ?bs = a" "?n div ?bs * ?bs = ?n" using dvds by auto
  have "(a div ?bs + ?n div ?bs) * ?bs \<le> length (img d)"
    using mult assms(3) inr len by (simp add: add_mult_distrib a_def)
  then obtain d' where d': "bd_write_blocks dev d ((ro + offset) div of_nat ?bs) src (of_nat (?n div ?bs)) = (ESP_OK, d')"
    "img d' = put (img d) a src"
    using img mult unat_div_block [OF bs(2,1), of "ro + offset"] un
    unfolding device_image_def by (metis ua(1))
  show ?thesis
  proof (cases "?n = 0")
    case True
    then show ?thesis using r off by (simp add: write_storage_bytes_def Let_def put_def)
  next
    case False
    then show ?thesis
      using r off fits sup bs ua n32 d' dvds
      by (simp add: write_storage_bytes_def Let_def not_less a_def)
  qed
qed

lemma region_bytes_put_same:
  assumes "unat off + length src \<le> region_size g kind"
    "region_start g kind slot + region_size g kind \<le> length b"
  shows "region_bytes g kind slot (put b (region_start g kind slot + unat off) src) =
     put (region_bytes g kind slot b) (unat off) src"
  using assms by (intro buffer_eqI) (auto simp: region_bytes_def nth_get nth_put)

lemma region_bytes_put_other:
  assumes "validate_storage_geometry g" "region_exists g k s" "region_exists g k' s'" "(k, s) \<noteq> (k', s')"
    "off + length src \<le> region_size g k"
  shows "region_bytes g k' s' (put b (region_start g k s + off) src) = region_bytes g k' s' b"
  using regions_disjoint [OF assms(1-4)] assms(5) unfolding region_bytes_def
  by (auto simp: get_put_before get_put_after)

text \<open>A write to one region changes that region only, at exactly the given bytes.\<close>

lemma write_storage_regions:
  assumes "working_storage dev img g d" "region_exists g kind slot"
    "unat offset + length src \<le> region_size g kind" "4096 dvd unat offset" "4096 dvd length src"
  shows "\<exists>d'. write_storage_bytes dev g d kind slot offset src = (ESP_OK, d') \<and>
     working_storage dev img g d' \<and>
     region_bytes g kind slot (img d') = put (region_bytes g kind slot (img d)) (unat offset) src \<and>
     (\<forall>k s. region_exists g k s \<longrightarrow> (k, s) \<noteq> (kind, slot) \<longrightarrow>
        region_bytes g k s (img d') = region_bytes g k s (img d))"
proof -
  obtain d' where d': "write_storage_bytes dev g d kind slot offset src = (ESP_OK, d')"
    "img d' = put (img d) (region_start g kind slot + unat offset) src"
    using write_storage_image [OF assms] by blast
  have "validate_storage_geometry g" "unat (sg_provisioned_size g) \<le> length (img d)"
    using assms(1) by (simp_all add: working_storage_def)
  moreover have "region_start g kind slot + region_size g kind \<le> unat (sg_provisioned_size g)"
    using calculation(1) assms(2) by (rule region_in_range)
  ultimately show ?thesis
    using d' assms region_bytes_put_same [of offset src g kind slot "img d"]
      region_bytes_put_other [of g kind slot _ _ "unat offset" src "img d"]
    by (auto simp: working_storage_def)
qed

section \<open>The blank test\<close>

text \<open>A range is blank when all its bytes are one erased value.\<close>

definition uniformly_erased :: "bytes \<Rightarrow> bool" where
  "uniformly_erased bs \<longleftrightarrow> (\<exists>v \<in> {0, - 1}. \<forall>b \<in> set bs. b = v)"

definition blank_accepts :: "u8 option \<Rightarrow> bytes \<Rightarrow> u8 option option" where
  "blank_accepts known bs =
     (case known of
        Some v \<Rightarrow> if \<forall>b \<in> set bs. b = v then Some (Some v) else None
      | None \<Rightarrow> if bs = [] then Some None
                else if hd bs \<in> {0, - 1} \<and> (\<forall>b \<in> set bs. b = hd bs) then Some (Some (hd bs)) else None)"

lemma scan_blank_bytes_eq: "scan_blank_bytes bs known = blank_accepts known bs"
  by (induction bs known rule: scan_blank_bytes.induct)
     (auto simp: blank_accepts_def Let_def split: option.splits)

lemma blank_accepts_append:
  "blank_accepts known (xs @ ys) =
     (case blank_accepts known xs of None \<Rightarrow> None | Some k \<Rightarrow> blank_accepts k ys)"
  by (cases xs; cases known) (auto simp: blank_accepts_def split: option.splits)

lemma scan_blank_frames_image:
  assumes "device_image dev img" "bpf * unat (bd_block_size dev) = 4096" "bpf < 2 ^ 32"
    "n * 4096 \<le> length (img d)" "n * 4096 < 2 ^ 64" "k \<le> n" "0 < unat (bd_block_size dev)"
  shows "scan_blank_frames dev d bpf [k..<n] known =
     Inr (case blank_accepts known (get (img d) (k * 4096) ((n - k) * 4096)) of
            None \<Rightarrow> False | Some v \<Rightarrow> v \<noteq> None)"
  using assms(6)
proof (induction "n - k" arbitrary: k known)
  case 0
  then show ?case by (cases known) (auto simp: blank_accepts_def)
next
  case (Suc m)
  then have k: "[k..<n] = k # [Suc k..<n]" "k < n" by (auto simp: upt_conv_Cons)
  let ?bs = "unat (bd_block_size dev)"
  have kn: "Suc k * 4096 \<le> n * 4096" using k(2) by (intro mult_le_mono1) simp
  have "bpf \<le> bpf * ?bs" using assms(7) by simp
  then have "k * bpf \<le> k * 4096" using assms(2) by (intro mult_le_mono2) simp
  also have "\<dots> \<le> n * 4096" using kn by simp
  finally have kb: "k * bpf < 2 ^ 64" using assms(5) by (rule le_less_trans)
  have "(k * bpf + bpf) * ?bs = Suc k * 4096" "k * bpf * ?bs = k * 4096"
    using assms(2) by (simp_all add: add_mult_distrib mult.assoc)
  moreover have "unat (of_nat (k * bpf) :: u64) = k * bpf" "unat (of_nat bpf :: u32) = bpf"
    using kb assms(3) by (simp_all del: of_nat_mult)
  ultimately have "bd_read_blocks dev d (of_nat (k * bpf)) (of_nat bpf) = Inr (get (img d) (k * 4096) 4096)"
    using device_image_read [OF assms(1), of "of_nat (k * bpf)" "of_nat bpf" d] assms(2,4) kn
    by (simp add: mult.assoc del: of_nat_mult)
  moreover have "get (img d) (k * 4096) ((n - k) * 4096) =
      get (img d) (k * 4096) 4096 @ get (img d) (Suc k * 4096) ((n - Suc k) * 4096)"
    using get_append [of "k * 4096" 4096 "(n - Suc k) * 4096" "img d"] k(2) kn assms(4)
    by (simp add: diff_mult_distrib add.commute)
  ultimately show ?case
    using Suc.hyps k
    by (auto simp: scan_blank_bytes_eq blank_accepts_append format_consts get_def split: option.splits)
qed

lemma storage_region_is_blank_image:
  assumes "device_image dev img" "block_size_supported (bd_block_size dev)"
    "validate_storage_geometry (get_build_geometry cfg)"
    "unat (cfg_provisioned_database_size cfg) \<le> length (img d)"
  shows "storage_region_is_blank cfg dev d =
     Inr (uniformly_erased (take (unat (cfg_provisioned_database_size cfg)) (img d)))"
proof -
  let ?p = "unat (cfg_provisioned_database_size cfg)" and ?bs = "unat (bd_block_size dev)"
  note bs = block_size_supported_D [OF assms(2)]
  have prov: "unat (sg_provisioned_size (get_build_geometry cfg)) = ?p"
    by (simp add: get_build_geometry_def)
  have p: "4096 dvd ?p" "0 < ?p"
    using region_alignment(3) [OF assms(3)] validate_storage_geometry_D(16) [OF assms(3)] prov
    by (auto simp: word_gt_0 unat_gt_0 get_build_geometry_def)
  have "4096 div ?bs * ?bs = 4096" using bs(3) by simp
  moreover have "4096 div ?bs < 2 ^ 32"
    using le_less_trans [OF div_le_dividend [of 4096 ?bs]] by simp
  moreover have "?p < 2 ^ 64" using unat_bound32 [of "cfg_provisioned_database_size cfg"] by simp
  ultimately have "scan_blank_frames dev d (4096 div ?bs) [0..<?p div 4096] None =
     Inr (case blank_accepts None (get (img d) 0 (?p div 4096 * 4096)) of None \<Rightarrow> False | Some v \<Rightarrow> v \<noteq> None)"
    using scan_blank_frames_image [OF assms(1), of "4096 div ?bs" "?p div 4096" d 0 None] p(1) assms(4) bs(1)
    by simp
  moreover have "take ?p (img d) \<noteq> []" using p(2) assms(4) by auto
  then have "(case blank_accepts None (take ?p (img d)) of None \<Rightarrow> False | Some v \<Rightarrow> v \<noteq> None) \<longleftrightarrow>
      uniformly_erased (take ?p (img d))"
    by (cases "take ?p (img d)") (auto simp: blank_accepts_def uniformly_erased_def)
  moreover have "?p mod ?bs = 0" using p(1) bs(3) by (auto intro: dvd_trans)
  ultimately show ?thesis
    using assms(2) p(1) prov
    by (simp add: storage_region_is_blank_def Let_def format_consts get_prefix)
qed

end
