(* ===== verification/Storage_Correctness.thy ===== *)
theory Storage_Correctness
  imports Storage
begin

text \<open>
  The properties of the storage layer: the regions of a validated geometry partition the device,
  accesses stay inside their region, a write is read back and disturbs nothing else, and the scan
  that protects foreign data recognises exactly the erased device. The behaviour of the block device
  is the hypothesis \<open>device_image\<close>; \<open>memory_device\<close> is a device that has it.
\<close>

text \<open>
  C26: the regions. In a validated geometry every region that exists is found at its exact place
  inside the provisioned size, and two different regions share no byte.
\<close>

theorem storage_regions_partition:
  assumes "validate_storage_geometry g" "region_exists g k s"
  shows "(\<exists>off len. get_storage_region g k s = Inr (off, len) \<and> unat off = region_start g k s \<and>
            unat len = region_size g k \<and> unat off + unat len \<le> unat (sg_provisioned_size g)) \<and>
         (\<forall>k' s'. region_exists g k' s' \<longrightarrow> (k, s) \<noteq> (k', s') \<longrightarrow>
            region_start g k s + region_size g k \<le> region_start g k' s' \<or>
            region_start g k' s' + region_size g k' \<le> region_start g k s)"
  using get_storage_region_exact [OF assms] region_in_range [OF assms] regions_disjoint [OF assms]
  by fastforce

theorem storage_regions_partition_witness:
  "\<exists>off len. get_storage_region (get_build_geometry host_config) kind_wal 1 = Inr (off, len) \<and>
     unat off = 73728 \<and> unat len = 65536"
proof -
  have "region_exists (get_build_geometry host_config) kind_wal 1"
    by (simp add: region_exists_def get_build_geometry_def host_config_def format_consts)
  then show ?thesis
    using storage_regions_partition [OF host_geometry_valid, of kind_wal 1]
    by (auto simp: region_start_def region_size_def get_build_geometry_def host_config_def format_consts)
qed

text \<open>
  C29: an access that leaves its region is refused before the device is touched, whatever the device
  does.
\<close>

theorem storage_access_confined:
  assumes "validate_storage_geometry g" "region_exists g kind slot"
    "region_size g kind < unat offset + n" "length source = n"
  shows "read_storage_bytes dev g d kind slot offset n = Inl ESP_ERR_INVALID_SIZE \<and>
         write_storage_bytes dev g d kind slot offset source = (ESP_ERR_INVALID_SIZE, d)"
proof -
  obtain off len where r: "get_storage_region g kind slot = Inr (off, len)" "unat len = region_size g kind"
    using get_storage_region_exact [OF assms(1,2)] by blast
  have "offset > len \<or> n > unat (len - offset)"
  proof (cases "offset > len")
    case False
    then have "unat offset \<le> unat len" by (simp add: word_le_nat_alt not_less)
    then show ?thesis using r(2) assms(3) False by (simp add: unat_sub word_le_nat_alt)
  qed simp
  then show ?thesis
    using r assms(4) by (auto simp: read_storage_bytes_def write_storage_bytes_def Let_def)
qed

definition host_image :: bytes where
  "host_image = zeroes 1155072"

lemma host_storage: "working_storage (memory_device 512) id (get_build_geometry host_config) host_image"
proof -
  have "block_size_supported (bd_block_size (memory_device 512))"
    "unat (sg_provisioned_size (get_build_geometry host_config)) \<le> length host_image"
    by (simp_all add: memory_device_def block_size_supported_def format_consts
        get_build_geometry_def host_config_def host_image_def)
  then show ?thesis
    using memory_device_image [of 512] host_geometry_valid by (simp add: working_storage_def)
qed

lemma host_wal_region: "region_exists (get_build_geometry host_config) kind_wal 1"
  "region_size (get_build_geometry host_config) kind_wal = 65536"
  by (simp_all add: region_exists_def region_size_def get_build_geometry_def host_config_def format_consts)

theorem storage_access_confined_witness:
  "read_storage_bytes (memory_device 512) (get_build_geometry host_config) host_image kind_wal 1 65536 1 =
     Inl ESP_ERR_INVALID_SIZE \<and>
   write_storage_bytes (memory_device 512) (get_build_geometry host_config) host_image kind_wal 1 65536 [0] =
     (ESP_ERR_INVALID_SIZE, host_image)"
  by (rule storage_access_confined [OF host_geometry_valid host_wal_region(1)])
     (simp_all add: host_wal_region)

text \<open>
  C15: an aligned write in range succeeds, is read back, leaves the rest of its region as it was, and
  what any other region reads is unchanged.
\<close>

theorem storage_write_isolated:
  assumes "working_storage dev img g d" "region_exists g kind slot"
    "unat offset + length source \<le> region_size g kind"
    "format_alignment dvd unat offset" "format_alignment dvd length source"
  shows "\<exists>d'. write_storage_bytes dev g d kind slot offset source = (ESP_OK, d') \<and>
    working_storage dev img g d' \<and>
    read_storage_bytes dev g d' kind slot offset (length source) = Inr source \<and>
    (\<forall>k s off n. region_exists g k s \<longrightarrow> unat off + n \<le> region_size g k \<longrightarrow>
       (k, s) \<noteq> (kind, slot) \<or> unat off + n \<le> unat offset \<or> unat offset + length source \<le> unat off \<longrightarrow>
       read_storage_bytes dev g d' k s off n = read_storage_bytes dev g d k s off n)"
proof -
  have valid: "validate_storage_geometry g" "unat (sg_provisioned_size g) \<le> length (img d)"
    using assms(1) by (simp_all add: working_storage_def)
  obtain d' where d': "write_storage_bytes dev g d kind slot offset source = (ESP_OK, d')"
    "working_storage dev img g d'"
    "region_bytes g kind slot (img d') = put (region_bytes g kind slot (img d)) (unat offset) source"
    "\<forall>k s. region_exists g k s \<longrightarrow> (k, s) \<noteq> (kind, slot) \<longrightarrow>
       region_bytes g k s (img d') = region_bytes g k s (img d)"
    using write_storage_regions [OF assms(1-3)] assms(4,5) by (auto simp: format_consts)
  have "length (region_bytes g kind slot (img d)) = region_size g kind"
    using region_in_range [OF valid(1) assms(2)] valid(2) by (simp add: region_bytes_def)
  then have same: "read_storage_bytes dev g d' kind slot offset (length source) = Inr source"
    using assms(3) read_storage_image [OF d'(2) assms(2,3)] by (simp add: d'(3) buffer_simps)
  have "read_storage_bytes dev g d' k s off n = read_storage_bytes dev g d k s off n"
    if "region_exists g k s" "unat off + n \<le> region_size g k"
      "(k, s) \<noteq> (kind, slot) \<or> unat off + n \<le> unat offset \<or> unat offset + length source \<le> unat off"
    for k s off n
  proof (cases "(k, s) = (kind, slot)")
    case True
    then show ?thesis
      using that read_storage_image [OF d'(2) that(1,2)] read_storage_image [OF assms(1) that(1,2)]
      by (auto simp: d'(3) buffer_simps)
  next
    case False
    then show ?thesis
      using that read_storage_image [OF d'(2) that(1,2)] read_storage_image [OF assms(1) that(1,2)] d'(4)
      by simp
  qed
  then show ?thesis using d'(1,2) same by blast
qed

theorem storage_write_isolated_witness:
  "\<exists>d'. write_storage_bytes (memory_device 512) (get_build_geometry host_config) host_image kind_wal 1 4096
      (zeroes 4096) = (ESP_OK, d') \<and>
    read_storage_bytes (memory_device 512) (get_build_geometry host_config) d' kind_wal 1 4096 4096 =
      Inr (zeroes 4096)"
  using storage_write_isolated [OF host_storage host_wal_region(1), of 4096 "zeroes 4096"]
  by (auto simp: host_wal_region format_consts)

text \<open>
  C31: a database is provisioned only over erased storage: the scan answers yes exactly if all bytes
  of the provisioned range are 0x00 or all are 0xff.
\<close>

theorem blank_scan_exact:
  assumes "device_image dev img" "block_size_supported (bd_block_size dev)"
    "validate_storage_geometry (get_build_geometry cfg)"
    "unat (cfg_provisioned_database_size cfg) \<le> length (img d)"
  shows "storage_region_is_blank cfg dev d =
     Inr (uniformly_erased (take (unat (cfg_provisioned_database_size cfg)) (img d)))"
  using assms by (rule storage_region_is_blank_image)

theorem blank_scan_exact_witness:
  "storage_region_is_blank host_config (memory_device 512) host_image = Inr True"
proof -
  have "uniformly_erased (take 1155072 host_image)"
    by (simp add: uniformly_erased_def host_image_def zeroes_def)
  then show ?thesis
    using blank_scan_exact [OF memory_device_image [of 512] _ host_geometry_valid, of host_image]
    by (simp add: block_size_supported_def memory_device_def format_consts host_config_def host_image_def)
qed

end
