(* ===== verification/Database_State.thy ===== *)
theory Database_State
  imports Manifest_Format Value_Format Table_Format
begin

text \<open>
  The in-memory state of a database instance: the private structs and members of the class
  \<open>on9kvdb\<close> (\<open>on9kvdb.hpp\<close>). Fixed arrays are lists whose lengths the configuration
  gives (\<open>wf_arrays\<close>). The memtable arena is typed memory: a map from the offsets of the
  arena to the record starting there, header, key and value together. An offset without a record
  reads as the zero bytes the arena is initialised with. The index cache and the lookup buffer for
  inline values exist together or not at all, depending on the memory budget; an empty
  \<open>db_table_index_cache\<close> stands for the two null pointers. The block device has a state of its own
  and is not part of this record; locks and heap pointers are not modelled.
\<close>

definition sizeof_memtable_record_header :: nat where
  [format_consts]: "sizeof_memtable_record_header = 48"

definition transaction_recovery_overhead :: nat where
  [format_consts]: "transaction_recovery_overhead =
     8 + max_name_len + max_transaction_mutations * (32 + max_name_len)"

definition table_key_filter_bytes :: nat where
  [format_consts]: "table_key_filter_bytes = 256"

record namespace_slot =
  ns_used :: bool
  ns_name :: bytes

datatype open_mode = read_only | read_write

record handle_slot =
  hs_generation :: u64
  hs_used :: bool
  hs_transaction_active :: bool
  hs_mode :: open_mode
  hs_namespace_name :: bytes

record mutation_slot =
  mu_value_offset :: u32
  mu_value_size :: u32
  mu_previous_value_size :: u32
  mu_reserved0 :: u8
  mu_kind :: u8
  mu_previous_state :: u8
  mu_external_value :: bool
  mu_external_value_ref :: value_ref
  mu_key :: bytes

record transaction_slot =
  tx_generation :: u64
  tx_handle_slot_index :: u16
  tx_handle_generation :: u64
  tx_mutation_count :: u16
  tx_staged_value_bytes :: u32
  tx_active :: bool
  tx_mutations :: "mutation_slot list"

record memtable_bucket =
  mb_hash :: u32
  mb_record_offset :: u32
  mb_record_size :: u32

record memtable_record =
  rec_transaction_sequence :: u64
  rec_total_size :: u32
  rec_value_size :: u32
  rec_namespace_slot_index :: u16
  rec_reserved0 :: u8
  rec_flags :: u8
  rec_external_value :: value_ref
  rec_key :: bytes
  rec_value :: bytes

text \<open>A committed or staged value; \<open>vv_value\<close> is \<open>None\<close> for a null pointer.\<close>

record value_view =
  vv_value :: "bytes option"
  vv_transaction_sequence :: u64
  vv_value_size :: u32
  vv_external_value :: value_ref
  vv_tombstone :: bool
  vv_is_external :: bool

record value_reader_slot =
  rd_checksum_state :: u32
  rd_generation :: u64
  rd_value_size :: u32
  rd_cursor :: u32
  rd_buffer_size :: u32
  rd_buffer_value_offset :: u32
  rd_external_value :: value_ref
  rd_used :: bool
  rd_external :: bool
  rd_checksum_enabled :: bool
  rd_buffer :: bytes

record value_writer_slot =
  ww_checksum_state :: u64
  ww_transaction_handle_raw :: u64
  ww_generation :: u64
  ww_expected_size :: u32
  ww_written_size :: u32
  ww_chunk_payload_size :: u32
  ww_next_chunk_offset :: u32
  ww_key :: bytes
  ww_reference :: value_ref
  ww_active :: bool
  ww_inline_value :: bool
  ww_buffer :: bytes

record table_index_cache_slot =
  ic_generation :: u64
  ic_valid :: bool
  ic_entries :: "(composite_key \<times> u32) list"

record table_key_filter_slot =
  kf_generation :: u64
  kf_valid :: bool
  kf_bits :: bytes

record db_stats =
  st_namespace_count :: u64
  st_live_key_count :: u64
  st_tombstone_count :: u64
  st_committed_transaction_count :: u64
  st_logical_value_bytes :: u64
  st_logical_state_bytes :: u64
  st_wal_bytes_used :: u64
  st_table_bytes_used :: u64
  st_compaction_count :: u64
  st_compaction_input_record_bytes :: u64
  st_compaction_output_record_bytes :: u64
  st_last_compaction_time_us :: u64
  st_maximum_compaction_time_us :: u64
  st_logical_state_capacity_bytes :: u64
  st_wal_record_capacity_bytes :: u64
  st_provisioned_database_bytes :: u64
  st_runtime_memory_bytes :: u64
  st_runtime_scratch_bytes :: u64
  st_manifest_generation :: u64
  st_safe_checkpoint_sequence :: u64
  st_active_table_count :: u32
  st_referenced_wal_count :: u32
  st_valid_manifest_copy_count :: u32
  st_active_table_bank :: u32
  st_active_wal_slot :: u32
  st_manifest_stabilization_required :: bool
  st_storage_faulted :: bool

record db =
  db_manifest :: manifest_record
  db_manifest_slot :: u32
  db_manifest_valid_copy_count :: u32
  db_manifest_stabilization_required :: bool
  db_namespaces :: "namespace_slot list"
  db_handles :: "handle_slot list"
  db_transaction :: transaction_slot
  db_memtable_index :: "memtable_bucket list"
  db_transaction_staging :: bytes
  db_memtable_data :: "nat \<Rightarrow> memtable_record option"
  db_table_index_cache :: "table_index_cache_slot list"
  db_table_key_filters :: "table_key_filter_slot list"
  db_value_readers :: "value_reader_slot list"
  db_value_writer :: value_writer_slot
  db_namespace_count :: u32
  db_memtable_data_used :: u32
  db_memtable_entry_count :: u32
  db_wal_tail :: "u32 list"
  db_next_transaction_sequence :: u64
  db_handle_generation_counter :: u64
  db_transaction_generation_counter :: u64
  db_stats :: db_stats
  db_shutting_down :: bool
  db_storage_faulted :: bool
  db_value_bank_dirty_mask :: u8
  db_initialized :: bool

section \<open>References into the active value bank\<close>

definition value_ref_matches_bank ::
  "config \<Rightarrow> storage_geometry \<Rightarrow> value_ref \<Rightarrow> u32 \<Rightarrow> u64 \<Rightarrow> u32 \<Rightarrow> bool" where
  "value_ref_matches_bank cfg g reference bank_slot bank_generation published_tail =
     (if unat bank_slot \<ge> value_bank_count \<or> bank_generation = 0 \<or>
         published_tail > sg_value_bank_size g \<or>
         vr_value_size reference \<le> cfg_inline_value_size cfg \<or>
         ucast (vr_bank_slot reference) \<noteq> bank_slot \<or>
         vr_bank_generation reference \<noteq> bank_generation \<or>
         \<not> value_ref_is_valid reference (sg_value_bank_size g) then False
      else
        (case do {
           chunk_bytes \<leftarrow> checked_mul (chunk_count_of (vr_value_size reference)) (of_nat value_chunk_size);
           checked_add (ucast (vr_first_chunk_offset reference)) chunk_bytes }
         of None \<Rightarrow> False
         | Some end_offset \<Rightarrow> end_offset \<le> ucast published_tail))"

text \<open>The instance of it that every lookup applies: the bank the manifest makes active.\<close>

definition active_bank_ref :: "config \<Rightarrow> db \<Rightarrow> value_ref \<Rightarrow> bool" where
  "active_bank_ref cfg s reference =
     (let m = db_manifest s; bank = mr_active_value_bank m in
      value_ref_matches_bank cfg (mr_geometry m) reference bank
        (mr_value_bank_generation m ! unat bank) (mr_value_bank_tail m ! unat bank))"

lemma value_ref_matches_bank_D:
  assumes "value_ref_matches_bank cfg g r bank gen tail"
  shows "value_ref_is_valid r (sg_value_bank_size g)" "tail \<le> sg_value_bank_size g"
    "unat (vr_bank_slot r) = unat bank" "vr_bank_generation r = gen"
    "unat (vr_first_chunk_offset r) + chunk_count_nat (unat (vr_value_size r)) * 4096 \<le> unat tail"
proof -
  show "value_ref_is_valid r (sg_value_bank_size g)" "tail \<le> sg_value_bank_size g"
    "vr_bank_generation r = gen"
    using assms by (auto simp: value_ref_matches_bank_def not_less split: if_splits)
  have "ucast (vr_bank_slot r) = bank"
    using assms by (auto simp: value_ref_matches_bank_def split: if_splits)
  moreover have "unat (vr_bank_slot r) < 2 ^ 32" using unat_less_pow [of "vr_bank_slot r"] by simp
  ultimately show "unat (vr_bank_slot r) = unat bank"
    by (auto simp: unsigned_ucast_eq take_bit_nat_eq_self)
  show "unat (vr_first_chunk_offset r) + chunk_count_nat (unat (vr_value_size r)) * 4096 \<le> unat tail"
    using assms
    by (auto simp: value_ref_matches_bank_def word_le_nat_alt unat_chunk_count format_consts
        dest!: checked_add_unat checked_mul_unat split: if_splits option.splits)
qed

section \<open>Array shapes\<close>

definition wf_arrays :: "config \<Rightarrow> db \<Rightarrow> bool" where
  "wf_arrays cfg s \<longleftrightarrow>
     manifest_arrays (db_manifest s) \<and>
     length (db_namespaces s) = unat (cfg_max_namespaces cfg) \<and>
     length (db_handles s) = unat (cfg_max_open_handles cfg) \<and>
     length (db_memtable_index s) = unat (cfg_memtable_entry_count cfg) \<and>
     length (db_transaction_staging s) =
       unat (cfg_transaction_staging_size cfg) + transaction_recovery_overhead \<and>
     length (tx_mutations (db_transaction s)) = max_transaction_mutations \<and>
     length (db_value_readers s) = unat (cfg_max_value_readers cfg) \<and>
     length (db_wal_tail s) = wal_file_count \<and>
     (db_table_index_cache s = [] \<or> length (db_table_index_cache s) = unat (cfg_sstable_count cfg)) \<and>
     length (db_table_key_filters s) = unat (cfg_sstable_count cfg)"

section \<open>The state after allocation\<close>

text \<open>
  What \<open>allocate_runtime_memory\<close> leaves behind: every slot default-initialised, every memtable
  bucket empty, and the members at their declared defaults.
\<close>

definition empty_manifest :: manifest_record where
  "empty_manifest = \<lparr>mr_generation = 0, mr_database_id = 0, mr_state = 0,
     mr_geometry = \<lparr>sg_provisioned_size = 0, sg_max_live_bytes = 0, sg_manifest_size = 0, sg_wal_size = 0,
       sg_wal_count = 0, sg_table_size = 0, sg_table_count = 0, sg_value_bank_size = 0,
       sg_value_bank_count = 0, sg_alignment = 0\<rparr>,
     mr_limits = \<lparr>ll_wal_frame_bytes = 0, ll_max_namespaces = 0, ll_max_open_handles = 0,
       ll_memtable_entries = 0, ll_memtable_data_bytes = 0, ll_max_transaction_mutations = 0,
       ll_transaction_staging_bytes = 0, ll_sstable_block_bytes = 0, ll_inline_value_bytes = 0\<rparr>,
     mr_active_wal_slot = 0, mr_wal_generation = replicate wal_file_count 0,
     mr_safe_checkpoint_sequence = 0, mr_next_table_generation = 1, mr_active_table_bank = 0,
     mr_active_value_bank = 0, mr_value_bank_generation = replicate value_bank_count 0,
     mr_value_bank_tail = replicate value_bank_count 0,
     mr_tables = replicate max_table_count empty_table_reference\<rparr>"

definition empty_mutation :: mutation_slot where
  "empty_mutation = \<lparr>mu_value_offset = 0, mu_value_size = 0, mu_previous_value_size = 0, mu_reserved0 = 0,
     mu_kind = 0, mu_previous_state = 0, mu_external_value = False,
     mu_external_value_ref = empty_value_ref, mu_key = []\<rparr>"

definition empty_transaction :: transaction_slot where
  "empty_transaction = \<lparr>tx_generation = 0, tx_handle_slot_index = 0, tx_handle_generation = 0,
     tx_mutation_count = 0, tx_staged_value_bytes = 0, tx_active = False,
     tx_mutations = replicate max_transaction_mutations empty_mutation\<rparr>"

definition empty_handle :: handle_slot where
  "empty_handle = \<lparr>hs_generation = 0, hs_used = False, hs_transaction_active = False,
     hs_mode = read_only, hs_namespace_name = []\<rparr>"

definition empty_reader :: value_reader_slot where
  "empty_reader = \<lparr>rd_checksum_state = - 1, rd_generation = 0, rd_value_size = 0, rd_cursor = 0,
     rd_buffer_size = 0, rd_buffer_value_offset = 0, rd_external_value = empty_value_ref,
     rd_used = False, rd_external = False, rd_checksum_enabled = False, rd_buffer = zeroes value_chunk_size\<rparr>"

definition empty_writer :: value_writer_slot where
  "empty_writer = \<lparr>ww_checksum_state = 0xFFFFFFFF, ww_transaction_handle_raw = 0, ww_generation = 0,
     ww_expected_size = 0, ww_written_size = 0, ww_chunk_payload_size = 0, ww_next_chunk_offset = 0,
     ww_key = [], ww_reference = empty_value_ref, ww_active = False, ww_inline_value = False,
     ww_buffer = zeroes value_chunk_size\<rparr>"

definition empty_stats :: db_stats where
  "empty_stats = \<lparr>
    st_namespace_count = 0, st_live_key_count = 0, st_tombstone_count = 0,
    st_committed_transaction_count = 0, st_logical_value_bytes = 0, st_logical_state_bytes = 0,
    st_wal_bytes_used = 0, st_table_bytes_used = 0, st_compaction_count = 0,
    st_compaction_input_record_bytes = 0, st_compaction_output_record_bytes = 0,
    st_last_compaction_time_us = 0, st_maximum_compaction_time_us = 0,
    st_logical_state_capacity_bytes = 0, st_wal_record_capacity_bytes = 0,
    st_provisioned_database_bytes = 0, st_runtime_memory_bytes = 0, st_runtime_scratch_bytes = 0,
    st_manifest_generation = 0, st_safe_checkpoint_sequence = 0, st_active_table_count = 0,
    st_referenced_wal_count = 0, st_valid_manifest_copy_count = 0, st_active_table_bank = 0,
    st_active_wal_slot = 0, st_manifest_stabilization_required = False, st_storage_faulted = False\<rparr>"

definition initial_db :: "config \<Rightarrow> db" where
  "initial_db cfg = \<lparr>
     db_manifest = empty_manifest,
     db_manifest_slot = 0,
     db_manifest_valid_copy_count = 0,
     db_manifest_stabilization_required = False,
     db_namespaces = replicate (unat (cfg_max_namespaces cfg)) \<lparr>ns_used = False, ns_name = []\<rparr>,
     db_handles = replicate (unat (cfg_max_open_handles cfg)) empty_handle,
     db_transaction = empty_transaction,
     db_memtable_index = replicate (unat (cfg_memtable_entry_count cfg))
       \<lparr>mb_hash = 0, mb_record_offset = - 1, mb_record_size = 0\<rparr>,
     db_transaction_staging = zeroes (unat (cfg_transaction_staging_size cfg) + transaction_recovery_overhead),
     db_memtable_data = (\<lambda>_. None),
     db_table_index_cache = replicate (unat (cfg_sstable_count cfg))
       \<lparr>ic_generation = 0, ic_valid = False, ic_entries = []\<rparr>,
     db_table_key_filters = replicate (unat (cfg_sstable_count cfg))
       \<lparr>kf_generation = 0, kf_valid = False, kf_bits = zeroes table_key_filter_bytes\<rparr>,
     db_value_readers = replicate (unat (cfg_max_value_readers cfg)) empty_reader,
     db_value_writer = empty_writer,
     db_namespace_count = 0,
     db_memtable_data_used = 0,
     db_memtable_entry_count = 0,
     db_wal_tail = replicate wal_file_count 0,
     db_next_transaction_sequence = 1,
     db_handle_generation_counter = 1,
     db_transaction_generation_counter = 1,
     db_stats = empty_stats,
     db_shutting_down = False,
     db_storage_faulted = False,
     db_value_bank_dirty_mask = 0,
     db_initialized = False\<rparr>"

lemma initial_db_arrays: "wf_arrays cfg (initial_db cfg)"
  by (simp add: wf_arrays_def initial_db_def empty_manifest_def manifest_arrays_def empty_transaction_def)

end
