(* ===== verification/Open_Addressing.thy ===== *)
theory Open_Addressing
  imports Main
begin

text \<open>
  The contract of an open-addressing table without deletion: what a probe sequence must promise,
  and what a search along it then finds. \<open>Memtable\<close> interprets the locale with the hash
  function and the mask of \<open>find_memtable_bucket_unsafe\<close>.
\<close>

locale open_addressing =
  fixes n :: nat
    and probe :: "'k \<Rightarrow> nat \<Rightarrow> nat"
  assumes probe_range: "p < n \<Longrightarrow> probe k p < n"
begin

text \<open>Every key sits behind an unbroken run of occupied slots of its probe sequence, and only once.\<close>

definition well_probed :: "(nat \<Rightarrow> 'k option) \<Rightarrow> bool" where
  "well_probed slots \<longleftrightarrow>
     (\<forall>i < n. \<forall>k. slots i = Some k \<longrightarrow>
        (\<exists>p < n. i = probe k p \<and> (\<forall>q < p. slots (probe k q) \<noteq> None)))"

definition unique_keys :: "(nat \<Rightarrow> 'k option) \<Rightarrow> bool" where
  "unique_keys slots \<longleftrightarrow>
     (\<forall>i < n. \<forall>j < n. \<forall>k. slots i = Some k \<longrightarrow> slots j = Some k \<longrightarrow> i = j)"

lemma well_probed_cong:
  assumes "\<And>i. i < n \<Longrightarrow> slots i = slots' i"
  shows "well_probed slots = well_probed slots'"
proof -
  have "slots (probe k q) = slots' (probe k q)" if "q < p" "p < n" for k p q
    using assms probe_range that by simp
  then show ?thesis using assms unfolding well_probed_def by (metis (no_types, opaque_lifting))
qed

lemma unique_keys_cong:
  "(\<And>i. i < n \<Longrightarrow> slots i = slots' i) \<Longrightarrow> unique_keys slots = unique_keys slots'"
  by (simp add: unique_keys_def)

fun search :: "(nat \<Rightarrow> 'k option) \<Rightarrow> 'k \<Rightarrow> nat list \<Rightarrow> (nat \<times> bool) option" where
  "search slots k [] = None"
| "search slots k (p # ps) =
     (case slots (probe k p) of
        None \<Rightarrow> Some (probe k p, False)
      | Some k' \<Rightarrow> if k' = k then Some (probe k p, True) else search slots k ps)"

lemma search_from:
  assumes "a \<le> b" "\<forall>q. a \<le> q \<longrightarrow> q < b \<longrightarrow> slots (probe k q) \<noteq> None \<and> slots (probe k q) \<noteq> Some k"
    "b \<le> m"
  shows "search slots k [a..<m] = search slots k [b..<m]"
  using assms
proof (induction "b - a" arbitrary: a)
  case 0
  then show ?case by simp
next
  case (Suc d)
  then have "search slots k [Suc a..<m] = search slots k [b..<m]"
    by (intro Suc.hyps(1)) auto
  moreover have "slots (probe k a) \<noteq> None \<and> slots (probe k a) \<noteq> Some k"
    using Suc by simp
  moreover have "[a..<m] = a # [Suc a..<m]" using Suc by (simp add: upt_conv_Cons)
  ultimately show ?case by (auto split: option.splits)
qed

lemma search_hit:
  assumes "well_probed slots" "unique_keys slots" "i < n" "slots i = Some k"
  shows "search slots k [0..<n] = Some (i, True)"
proof -
  obtain p where p: "p < n" "i = probe k p" "\<forall>q < p. slots (probe k q) \<noteq> None"
    using assms(1,3,4) unfolding well_probed_def by blast
  define p0 where "p0 = (LEAST q. slots (probe k q) = Some k)"
  have at: "slots (probe k p0) = Some k"
    unfolding p0_def by (rule LeastI [of _ p]) (use p assms in simp)
  have le: "p0 \<le> p" unfolding p0_def by (rule Least_le) (use p assms in simp)
  have before: "slots (probe k q) \<noteq> Some k" if "q < p0" for q
    using that not_less_Least unfolding p0_def by blast
  have idx: "probe k p0 = i"
    using assms(2,3,4) at le p probe_range [of p0 k] unfolding unique_keys_def by auto
  have "search slots k [0..<n] = search slots k [p0..<n]"
    using before p le by (intro search_from) auto
  also have "\<dots> = Some (i, True)"
    using at idx le p by (simp add: upt_conv_Cons)
  finally show ?thesis .
qed

lemma search_SomeD:
  assumes "search slots k ps = Some (i, found)" "\<forall>p \<in> set ps. p < n"
  shows "i < n" "found \<Longrightarrow> slots i = Some k" "\<not> found \<Longrightarrow> slots i = None"
  using assms by (induction ps) (auto simp: probe_range split: option.splits if_splits)

lemma search_miss:
  assumes "search slots k [a..<n] = Some (i, False)"
  shows "\<exists>p. a \<le> p \<and> p < n \<and> i = probe k p \<and> slots i = None \<and>
    (\<forall>q. a \<le> q \<longrightarrow> q < p \<longrightarrow> slots (probe k q) \<noteq> None \<and> slots (probe k q) \<noteq> Some k)"
  using assms
proof (induction "n - a" arbitrary: a)
  case 0
  then show ?case by simp
next
  case (Suc d)
  then have a: "[a..<n] = a # [Suc a..<n]" "a < n" by (auto simp: upt_conv_Cons)
  show ?case
  proof (cases "slots (probe k a)")
    case None
    then show ?thesis using Suc.prems a by (intro exI [of _ a]) auto
  next
    case (Some k')
    then have "search slots k [Suc a..<n] = Some (i, False)" "k' \<noteq> k"
      using Suc.prems a by (auto split: if_splits)
    then obtain p where p: "Suc a \<le> p" "p < n" "i = probe k p" "slots i = None"
      "\<forall>q. Suc a \<le> q \<longrightarrow> q < p \<longrightarrow> slots (probe k q) \<noteq> None \<and> slots (probe k q) \<noteq> Some k"
      using Suc.hyps(1) [OF _ \<open>search slots k [Suc a..<n] = Some (i, False)\<close>] Suc.hyps(2) by force
    have "slots (probe k q) \<noteq> None \<and> slots (probe k q) \<noteq> Some k" if "a \<le> q" "q < p" for q
      using that p(5) Some \<open>k' \<noteq> k\<close> by (cases "q = a") auto
    then show ?thesis using p by (intro exI [of _ p]) auto
  qed
qed

text \<open>A search that ends at an empty slot proves the key absent, and the slot is where to insert it.\<close>

lemma search_miss_absent:
  assumes "well_probed slots" "unique_keys slots" "search slots k [0..<n] = Some (i, False)" "j < n"
  shows "slots j \<noteq> Some k"
  using assms search_hit by fastforce

lemma search_full_absent:
  assumes "well_probed slots" "unique_keys slots" "search slots k [0..<n] = None" "j < n"
  shows "slots j \<noteq> Some k"
  using assms search_hit by fastforce

lemma search_full:
  assumes "search slots k ps = None" "p \<in> set ps"
  shows "slots (probe k p) \<noteq> None"
  using assms by (induction ps) (auto split: option.splits if_splits)

lemma insert_well_probed:
  assumes "well_probed slots" "unique_keys slots" "search slots k [0..<n] = Some (i, found)"
  shows "well_probed (slots(i := Some k))" "unique_keys (slots(i := Some k))"
proof -
  have i: "i < n" using search_SomeD(1) [OF assms(3)] by simp
  have "found \<Longrightarrow> slots i = Some k" using search_SomeD(2) [OF assms(3)] by simp
  then have same: "slots(i := Some k) = slots" if found
    using that by auto
  have run: "\<exists>p < n. i = probe k p \<and> (\<forall>q < p. slots (probe k q) \<noteq> None)"
  proof (cases found)
    case True
    then show ?thesis using assms(1) i \<open>found \<Longrightarrow> slots i = Some k\<close> unfolding well_probed_def by blast
  next
    case False
    then show ?thesis using search_miss [of slots k 0 i] assms(3) by auto
  qed
  show "well_probed (slots(i := Some k))"
    unfolding well_probed_def
  proof (intro allI impI)
    fix j k' assume j: "j < n" "(slots(i := Some k)) j = Some k'"
    show "\<exists>p<n. j = probe k' p \<and> (\<forall>q<p. (slots(i := Some k)) (probe k' q) \<noteq> None)"
    proof (cases "j = i")
      case True
      then show ?thesis using j run by auto
    next
      case False
      then have "slots j = Some k'" using j by simp
      then show ?thesis using assms(1) j(1) unfolding well_probed_def by (metis fun_upd_apply option.simps(3))
    qed
  qed
  show "unique_keys (slots(i := Some k))"
  proof (cases found)
    case True
    then show ?thesis using same assms(2) by simp
  next
    case False
    then have "\<forall>j < n. slots j \<noteq> Some k"
      using search_miss_absent [OF assms(1,2)] assms(3) by auto
    then show ?thesis using assms(2) i unfolding unique_keys_def by (auto split: if_splits)
  qed
qed

end

end
