(* ===== verification/Memtable.thy ===== *)
theory Memtable
  imports Database_State Open_Addressing
begin

text \<open>
  The namespace registry and the memtable of \<open>on9kvdb_memtable.cpp\<close>: an open-addressing index
  over a compact record arena, with lookup, preflight and application of a transaction.
\<close>

section \<open>Record sizes\<close>

definition previous_state_none :: u8 where [format_consts]: "previous_state_none = 0"
definition previous_state_live :: u8 where [format_consts]: "previous_state_live = 1"
definition previous_state_tombstone :: u8 where [format_consts]: "previous_state_tombstone = 2"

definition align_record_size :: "u32 \<Rightarrow> u32" where
  "align_record_size n = (n + 7) AND NOT 7"

definition logical_record_size :: "u16 \<Rightarrow> u16 \<Rightarrow> u32 \<Rightarrow> u64" where
  "logical_record_size namespace_size key_size value_size =
     (of_nat table_entry_header_size + ucast namespace_size + ucast key_size + ucast value_size + 7) AND NOT 7"

section \<open>Namespaces\<close>

definition find_namespace :: "config \<Rightarrow> db \<Rightarrow> bytes \<Rightarrow> esp_err + u16" where
  "find_namespace cfg s namespace_name =
     (if \<not> valid_name namespace_name then Inl ESP_ERR_INVALID_ARG
      else
        (case find (\<lambda>idx. ns_used (db_namespaces s ! idx) \<and>
                 length (ns_name (db_namespaces s ! idx)) = length namespace_name \<and>
                 memcmp (ns_name (db_namespaces s ! idx)) namespace_name (length namespace_name) = 0)
               [0..<unat (cfg_max_namespaces cfg)] of
           Some idx \<Rightarrow> Inr (of_nat idx)
         | None \<Rightarrow> Inl ESP_ERR_NOT_FOUND))"

definition ensure_namespace_capacity ::
  "config \<Rightarrow> db \<Rightarrow> bytes \<Rightarrow> bool \<Rightarrow> (esp_err + u16) \<times> db" where
  "ensure_namespace_capacity cfg s namespace_name publish =
     (if \<not> valid_name namespace_name then (Inl ESP_ERR_INVALID_ARG, s)
      else
        (case find_namespace cfg s namespace_name of
           Inr idx \<Rightarrow> (Inr idx, s)
         | Inl e \<Rightarrow>
             if e \<noteq> ESP_ERR_NOT_FOUND then (Inl e, s)
             else if db_namespace_count s \<ge> cfg_max_namespaces cfg then (Inl ESP_ERR_NO_MEM, s)
             else
               (case find (\<lambda>idx. \<not> ns_used (db_namespaces s ! idx)) [0..<unat (cfg_max_namespaces cfg)] of
                  None \<Rightarrow> (Inl ESP_ERR_NO_MEM, s)
                | Some idx \<Rightarrow>
                    (Inr (of_nat idx),
                     if \<not> publish then s
                     else
                       s\<lparr>db_namespaces := (db_namespaces s)
                           [idx := \<lparr>ns_used = True, ns_name = namespace_name\<rparr>],
                         db_namespace_count := db_namespace_count s + 1,
                         db_stats := (db_stats s)
                           \<lparr>st_namespace_count := ucast (db_namespace_count s + 1)\<rparr>\<rparr>))))"

section \<open>Lookup\<close>

text \<open>FNV-1a over the two bytes of the namespace slot and the key, never zero.\<close>

definition hash_key :: "u16 \<Rightarrow> bytes \<Rightarrow> u32" where
  "hash_key namespace_slot_index key =
     (let mix = \<lambda>(b :: u8) (hash :: u32). (hash XOR ucast b) * 16777619;
          hash = 2166136261 :: u32;
          hash = mix (ucast namespace_slot_index) hash;
          hash = mix (ucast (drop_bit 8 namespace_slot_index)) hash;
          hash = fold mix key hash
      in if hash = 0 then 1 else hash)"

definition rec_external :: "memtable_record \<Rightarrow> bool" where
  "rec_external r \<longleftrightarrow> rec_flags r AND memtable_flag_external_value \<noteq> 0"

definition rec_tombstone :: "memtable_record \<Rightarrow> bool" where
  "rec_tombstone r \<longleftrightarrow> rec_flags r AND memtable_flag_tombstone \<noteq> 0"

text \<open>The checks a lookup makes on the record behind a bucket with a matching hash.\<close>

definition memtable_record_invalid :: "config \<Rightarrow> db \<Rightarrow> memtable_bucket \<Rightarrow> memtable_record \<Rightarrow> bool" where
  "memtable_record_invalid cfg s bucket header \<longleftrightarrow>
     (let external = rec_external header;
          inline_size = (if external then 0 else rec_value_size header);
          payload = mb_record_size bucket - of_nat sizeof_memtable_record_header in
      rec_total_size header \<noteq> mb_record_size bucket \<or> rec_key header = [] \<or>
      length (rec_key header) > max_name_len \<or>
      inline_size > payload \<or>
      length (rec_key header) > unat (payload - inline_size) \<or>
      ucast (rec_namespace_slot_index header) \<ge> cfg_max_namespaces cfg \<or>
      \<not> ns_used (db_namespaces s ! unat (rec_namespace_slot_index header)) \<or>
      (external \<and> \<not> active_bank_ref cfg s (rec_external_value header)))"

definition bucket_empty :: "memtable_bucket \<Rightarrow> bool" where
  "bucket_empty bucket \<longleftrightarrow> mb_record_offset bucket = - 1"

definition bucket_index :: "config \<Rightarrow> u32 \<Rightarrow> nat \<Rightarrow> nat" where
  "bucket_index cfg hash p = unat ((hash + of_nat p) AND (cfg_memtable_entry_count cfg - 1))"

fun probe_memtable :: "config \<Rightarrow> db \<Rightarrow> u16 \<Rightarrow> bytes \<Rightarrow> u32 \<Rightarrow> nat list \<Rightarrow> esp_err + (u32 \<times> bool)" where
  "probe_memtable cfg s namespace_slot_index key hash [] = Inr (- 1, False)"
| "probe_memtable cfg s namespace_slot_index key hash (p # probes) =
     (let index = bucket_index cfg hash p; bucket = db_memtable_index s ! index in
      if bucket_empty bucket then Inr (of_nat index, False)
      else if mb_hash bucket \<noteq> hash then probe_memtable cfg s namespace_slot_index key hash probes
      else if unat (mb_record_size bucket) < sizeof_memtable_record_header \<or>
              mb_record_size bucket > cfg_memtable_data_size cfg \<or>
              mb_record_offset bucket > cfg_memtable_data_size cfg - mb_record_size bucket
      then Inl ESP_ERR_INVALID_STATE
      else
        (case db_memtable_data s (unat (mb_record_offset bucket)) of
           None \<Rightarrow> Inl ESP_ERR_INVALID_STATE
         | Some header \<Rightarrow>
             if memtable_record_invalid cfg s bucket header then Inl ESP_ERR_INVALID_STATE
             else if rec_namespace_slot_index header \<noteq> namespace_slot_index
             then probe_memtable cfg s namespace_slot_index key hash probes
             else if length (rec_key header) = length key \<and> memcmp (rec_key header) key (length key) = 0
             then Inr (of_nat index, True)
             else probe_memtable cfg s namespace_slot_index key hash probes))"

definition find_memtable_bucket :: "config \<Rightarrow> db \<Rightarrow> u16 \<Rightarrow> bytes \<Rightarrow> esp_err + (u32 \<times> bool)" where
  "find_memtable_bucket cfg s namespace_slot_index key =
     (if key = [] \<or> length key > max_name_len \<or>
         ucast namespace_slot_index \<ge> cfg_max_namespaces cfg then Inl ESP_ERR_INVALID_ARG
      else probe_memtable cfg s namespace_slot_index key (hash_key namespace_slot_index key)
             [0..<unat (cfg_memtable_entry_count cfg)])"

definition bucket_record :: "db \<Rightarrow> u32 \<Rightarrow> memtable_record" where
  "bucket_record s index =
     the (db_memtable_data s (unat (mb_record_offset (db_memtable_index s ! unat index))))"

definition record_view :: "memtable_record \<Rightarrow> value_view" where
  "record_view header = \<lparr>
     vv_value = (if rec_external header then None else Some (rec_value header)),
     vv_transaction_sequence = rec_transaction_sequence header,
     vv_value_size = rec_value_size header,
     vv_external_value = rec_external_value header,
     vv_tombstone = rec_tombstone header,
     vv_is_external = rec_external header\<rparr>"

definition lookup_memtable :: "config \<Rightarrow> db \<Rightarrow> bytes \<Rightarrow> bytes \<Rightarrow> esp_err + value_view" where
  "lookup_memtable cfg s namespace_name key =
     (case find_namespace cfg s namespace_name of
        Inl e \<Rightarrow> Inl e
      | Inr namespace_index \<Rightarrow>
          if \<not> valid_name key then Inl ESP_ERR_INVALID_ARG
          else
            (case find_memtable_bucket cfg s namespace_index key of
               Inl e \<Rightarrow> Inl e
             | Inr (index, found) \<Rightarrow>
                 if \<not> found then Inl ESP_ERR_NOT_FOUND
                 else Inr (record_view (bucket_record s index))))"

definition find_staged_mutation :: "transaction_slot \<Rightarrow> bytes \<Rightarrow> nat option" where
  "find_staged_mutation t key =
     (if \<not> valid_name key then None
      else find (\<lambda>idx. length (mu_key (tx_mutations t ! idx)) = length key \<and>
                   memcmp (mu_key (tx_mutations t ! idx)) key (length key) = 0)
             [0..<unat (tx_mutation_count t)])"

definition mutation_view :: "db \<Rightarrow> mutation_slot \<Rightarrow> value_view" where
  "mutation_view s mutation = \<lparr>
     vv_value = (if mu_value_size mutation > 0 \<and> \<not> mu_external_value mutation
       then Some (get (db_transaction_staging s) (unat (mu_value_offset mutation))
                      (unat (mu_value_size mutation))) else None),
     vv_transaction_sequence = 0,
     vv_value_size = mu_value_size mutation,
     vv_external_value = mu_external_value_ref mutation,
     vv_tombstone = (mu_kind mutation = mutation_kind_tombstone),
     vv_is_external = mu_external_value mutation\<rparr>"

text \<open>The committed state behind the staged overlay is the argument \<open>committed\<close>.\<close>

definition lookup_transaction ::
  "db \<Rightarrow> (bytes \<Rightarrow> bytes \<Rightarrow> esp_err + value_view) \<Rightarrow> transaction_slot \<Rightarrow> handle_slot \<Rightarrow> bytes \<Rightarrow>
     esp_err + value_view" where
  "lookup_transaction s committed t handle key =
     (case find_staged_mutation t key of
        Some idx \<Rightarrow> Inr (mutation_view s (tx_mutations t ! idx))
      | None \<Rightarrow> committed (hs_namespace_name handle) key)"

section \<open>Removal\<close>

text \<open>
  Removing a record moves the tail of the arena down over it; every bucket pointing into the tail
  follows. The bucket itself keeps its place in the index for the record that replaces it.
\<close>

definition shift_tail :: "nat \<Rightarrow> nat \<Rightarrow> nat \<Rightarrow> (nat \<Rightarrow> 'r option) \<Rightarrow> nat \<Rightarrow> 'r option" where
  "shift_tail removed_offset removed_size tail_size arena =
     (\<lambda>o'. if removed_offset \<le> o' \<and> o' < removed_offset + tail_size then arena (o' + removed_size)
           else arena o')"

definition remove_memtable_record :: "config \<Rightarrow> db \<Rightarrow> u32 \<Rightarrow> db" where
  "remove_memtable_record cfg s index =
     (let bucket = db_memtable_index s ! unat index;
          removed_offset = mb_record_offset bucket;
          removed_size = mb_record_size bucket;
          tail_offset = removed_offset + removed_size;
          tail_size = db_memtable_data_used s - tail_offset;
          move = (\<lambda>idx b. if idx \<noteq> unat index \<and> \<not> bucket_empty b \<and> mb_record_offset b > removed_offset
                    then b\<lparr>mb_record_offset := mb_record_offset b - removed_size\<rparr> else b)
      in s\<lparr>db_memtable_data := shift_tail (unat removed_offset) (unat removed_size) (unat tail_size)
                                (db_memtable_data s),
           db_memtable_index := (map2 move [0..<unat (cfg_memtable_entry_count cfg)] (db_memtable_index s))
             [unat index := bucket\<lparr>mb_record_size := 0\<rparr>],
           db_memtable_data_used := db_memtable_data_used s - removed_size\<rparr>)"

section \<open>Preflight\<close>

text \<open>
  The checks before a transaction is written to the WAL. \<open>tables\<close> is the lookup in the immutable
  tables. The previous state found for each mutation is recorded in the transaction.
\<close>

type_synonym preflight_totals = "u32 \<times> u32 \<times> u64"

definition mutation_value_size :: "mutation_slot \<Rightarrow> u32" where
  "mutation_value_size m = (if mu_kind m = mutation_kind_set then mu_value_size m else 0)"

definition mutation_record_size :: "mutation_slot \<Rightarrow> u32 \<Rightarrow> u32" where
  "mutation_record_size m value_size =
     align_record_size (of_nat sizeof_memtable_record_header + of_nat (length (mu_key m)) +
       (if mu_external_value m then 0 else value_size))"

text \<open>The previous state of a mutated key, and the arena bytes and bucket it already has.\<close>

definition preflight_previous ::
  "config \<Rightarrow> db \<Rightarrow> (bytes \<Rightarrow> bytes \<Rightarrow> esp_err + value_view) \<Rightarrow> bytes \<Rightarrow> u16 \<Rightarrow> mutation_slot \<Rightarrow>
     u32 \<Rightarrow> u32 \<Rightarrow> esp_err + (u8 \<times> u32 \<times> u32 \<times> u32)" where
  "preflight_previous cfg s tables namespace_name namespace_index m final_bytes final_entries =
     (case find_memtable_bucket cfg s namespace_index (mu_key m) of
        Inl e \<Rightarrow> Inl e
      | Inr (index, found) \<Rightarrow>
          if found then
            let old_header = bucket_record s index in
            Inr (if rec_tombstone old_header then previous_state_tombstone else previous_state_live,
                 rec_value_size old_header,
                 final_bytes - mb_record_size (db_memtable_index s ! unat index), final_entries)
          else
            (case tables namespace_name (mu_key m) of
               Inr view \<Rightarrow>
                 Inr (if vv_tombstone view then previous_state_tombstone else previous_state_live,
                      vv_value_size view, final_bytes, final_entries + 1)
             | Inl e \<Rightarrow>
                 if e \<noteq> ESP_ERR_NOT_FOUND then Inl e
                 else Inr (previous_state_none, 0, final_bytes, final_entries + 1)))"

definition preflight_mutation ::
  "config \<Rightarrow> db \<Rightarrow> (bytes \<Rightarrow> bytes \<Rightarrow> esp_err + value_view) \<Rightarrow> bytes \<Rightarrow> u16 \<Rightarrow> mutation_slot \<Rightarrow>
     preflight_totals \<Rightarrow> (esp_err + preflight_totals) \<times> mutation_slot" where
  "preflight_mutation cfg s tables namespace_name namespace_index m totals =
     (case totals of (final_bytes, final_entries, final_logical) \<Rightarrow>
      case preflight_previous cfg s tables namespace_name namespace_index m final_bytes final_entries of
        Inl e \<Rightarrow> (Inl e, m\<lparr>mu_previous_state := previous_state_none, mu_previous_value_size := 0\<rparr>)
      | Inr (previous_state, previous_value_size, final_bytes, final_entries) \<Rightarrow>
          let m = m\<lparr>mu_previous_state := previous_state, mu_previous_value_size := previous_value_size\<rparr>;
              value_size = mutation_value_size m;
              namespace_size = of_nat (length namespace_name);
              key_size = of_nat (length (mu_key m));
              previous_size = logical_record_size namespace_size key_size previous_value_size;
              record_size = mutation_record_size m value_size;
              new_logical_record_size = logical_record_size namespace_size key_size value_size in
          if previous_state \<noteq> previous_state_none \<and> previous_size > final_logical
          then (Inl ESP_ERR_INVALID_STATE, m)
          else
            let final_logical = (if previous_state \<noteq> previous_state_none
                                 then final_logical - previous_size else final_logical) in
            if record_size > cfg_memtable_data_size cfg - final_bytes then (Inl ESP_ERR_NO_MEM, m)
            else
              let final_logical = final_logical + new_logical_record_size in
              if final_logical > sg_max_live_bytes (mr_geometry (db_manifest s)) then (Inl ESP_ERR_NO_MEM, m)
              else (Inr (final_bytes + record_size, final_entries, final_logical), m))"

fun preflight_mutations ::
  "config \<Rightarrow> db \<Rightarrow> (bytes \<Rightarrow> bytes \<Rightarrow> esp_err + value_view) \<Rightarrow> bytes \<Rightarrow> u16 \<Rightarrow> nat list \<Rightarrow>
     transaction_slot \<Rightarrow> preflight_totals \<Rightarrow> (esp_err + preflight_totals) \<times> transaction_slot" where
  "preflight_mutations cfg s tables namespace_name namespace_index [] t totals = (Inr totals, t)"
| "preflight_mutations cfg s tables namespace_name namespace_index (idx # idxs) t totals =
     (case preflight_mutation cfg s tables namespace_name namespace_index (tx_mutations t ! idx) totals of
        (Inl e, m) \<Rightarrow> (Inl e, t\<lparr>tx_mutations := (tx_mutations t)[idx := m]\<rparr>)
      | (Inr totals, m) \<Rightarrow>
          preflight_mutations cfg s tables namespace_name namespace_index idxs
            (t\<lparr>tx_mutations := (tx_mutations t)[idx := m]\<rparr>) totals)"

definition preflight_memtable_transaction ::
  "config \<Rightarrow> db \<Rightarrow> (bytes \<Rightarrow> bytes \<Rightarrow> esp_err + value_view) \<Rightarrow> transaction_slot \<Rightarrow> bytes \<Rightarrow>
     (esp_err + u16) \<times> transaction_slot" where
  "preflight_memtable_transaction cfg s tables t namespace_name =
     (if \<not> valid_name namespace_name \<or> tx_mutation_count t = 0 then (Inl ESP_ERR_INVALID_ARG, t)
      else
        (case fst (ensure_namespace_capacity cfg s namespace_name False) of
           Inl e \<Rightarrow> (Inl e, t)
         | Inr namespace_index \<Rightarrow>
             (case preflight_mutations cfg s tables namespace_name namespace_index
                     [0..<unat (tx_mutation_count t)] t
                     (db_memtable_data_used s, db_memtable_entry_count s,
                      st_logical_state_bytes (db_stats s)) of
                (Inl e, t) \<Rightarrow> (Inl e, t)
              | (Inr (final_bytes, final_entries, final_logical), t) \<Rightarrow>
                  if final_entries > cfg_memtable_entry_count cfg then (Inl ESP_ERR_NO_MEM, t)
                  else (Inr namespace_index, t))))"

section \<open>Application\<close>

definition namespace_size_at :: "db \<Rightarrow> u16 \<Rightarrow> u16" where
  "namespace_size_at s slot = of_nat (length (ns_name (db_namespaces s ! unat slot)))"

text \<open>Take the replaced record out of the arena and of the counters.\<close>

definition retire_record :: "config \<Rightarrow> db \<Rightarrow> u32 \<Rightarrow> db" where
  "retire_record cfg s index =
     (let old_header = bucket_record s index;
          old_logical_size = logical_record_size (namespace_size_at s (rec_namespace_slot_index old_header))
            (of_nat (length (rec_key old_header))) (rec_value_size old_header);
          st = db_stats s;
          st = st\<lparr>st_logical_state_bytes := st_logical_state_bytes st - old_logical_size\<rparr>;
          st = (if rec_tombstone old_header then st\<lparr>st_tombstone_count := st_tombstone_count st - 1\<rparr>
                else st\<lparr>st_live_key_count := st_live_key_count st - 1,
                       st_logical_value_bytes := st_logical_value_bytes st - ucast (rec_value_size old_header)\<rparr>)
      in remove_memtable_record cfg (s\<lparr>db_stats := st\<rparr>) index)"

text \<open>A new bucket: what the mutation replaces, if anything, is in a table.\<close>

definition retire_table_record :: "db \<Rightarrow> u16 \<Rightarrow> mutation_slot \<Rightarrow> esp_err \<times> db" where
  "retire_table_record s namespace_slot_index m =
     (let previous_logical_size = logical_record_size (namespace_size_at s namespace_slot_index)
            (of_nat (length (mu_key m))) (mu_previous_value_size m);
          st = db_stats s in
      if mu_previous_state m = previous_state_tombstone then
        (ESP_OK, s\<lparr>db_stats := st\<lparr>st_tombstone_count := st_tombstone_count st - 1,
           st_logical_state_bytes := st_logical_state_bytes st - previous_logical_size\<rparr>,
           db_memtable_entry_count := db_memtable_entry_count s + 1\<rparr>)
      else if mu_previous_state m = previous_state_live then
        (ESP_OK, s\<lparr>db_stats := st\<lparr>st_live_key_count := st_live_key_count st - 1,
           st_logical_value_bytes := st_logical_value_bytes st - ucast (mu_previous_value_size m),
           st_logical_state_bytes := st_logical_state_bytes st - previous_logical_size\<rparr>,
           db_memtable_entry_count := db_memtable_entry_count s + 1\<rparr>)
      else if mu_previous_state m \<noteq> previous_state_none then (ESP_ERR_INVALID_STATE, s)
      else (ESP_OK, s\<lparr>db_memtable_entry_count := db_memtable_entry_count s + 1\<rparr>))"

definition mutation_tombstone :: "mutation_slot \<Rightarrow> bool" where
  "mutation_tombstone m \<longleftrightarrow> mu_kind m = mutation_kind_tombstone"

definition applied_value_size :: "mutation_slot \<Rightarrow> u32" where
  "applied_value_size m = (if mutation_tombstone m then 0 else mu_value_size m)"

definition new_record :: "db \<Rightarrow> u16 \<Rightarrow> u64 \<Rightarrow> mutation_slot \<Rightarrow> memtable_record" where
  "new_record s namespace_slot_index transaction_sequence m = \<lparr>
     rec_transaction_sequence = transaction_sequence,
     rec_total_size = mutation_record_size m (applied_value_size m),
     rec_value_size = applied_value_size m,
     rec_namespace_slot_index = namespace_slot_index,
     rec_reserved0 = mu_reserved0 m,
     rec_flags = (if mutation_tombstone m then memtable_flag_tombstone else 0) OR
                 (if mu_external_value m then memtable_flag_external_value else 0),
     rec_external_value = (if mu_external_value m then mu_external_value_ref m else empty_value_ref),
     rec_key = mu_key m,
     rec_value = (if applied_value_size m > 0 \<and> \<not> mu_external_value m
       then get (db_transaction_staging s) (unat (mu_value_offset m)) (unat (applied_value_size m))
       else [])\<rparr>"

definition publish_record :: "db \<Rightarrow> u16 \<Rightarrow> u64 \<Rightarrow> mutation_slot \<Rightarrow> u32 \<Rightarrow> db" where
  "publish_record s namespace_slot_index transaction_sequence m index =
     (let header = new_record s namespace_slot_index transaction_sequence m;
          record_size = rec_total_size header;
          st = db_stats s;
          st = st\<lparr>st_logical_state_bytes := st_logical_state_bytes st +
                 logical_record_size (namespace_size_at s namespace_slot_index)
                   (of_nat (length (mu_key m))) (rec_value_size header)\<rparr>;
          st = (if mutation_tombstone m then st\<lparr>st_tombstone_count := st_tombstone_count st + 1\<rparr>
                else st\<lparr>st_live_key_count := st_live_key_count st + 1,
                       st_logical_value_bytes := st_logical_value_bytes st + ucast (rec_value_size header)\<rparr>)
      in s\<lparr>db_memtable_data := (db_memtable_data s)(unat (db_memtable_data_used s) \<mapsto> header),
           db_memtable_index := (db_memtable_index s)[unat index :=
             \<lparr>mb_hash = hash_key namespace_slot_index (mu_key m),
              mb_record_offset = db_memtable_data_used s, mb_record_size = record_size\<rparr>],
           db_memtable_data_used := db_memtable_data_used s + record_size,
           db_stats := st\<rparr>)"

definition apply_mutation :: "config \<Rightarrow> u16 \<Rightarrow> u64 \<Rightarrow> mutation_slot \<Rightarrow> db \<Rightarrow> esp_err \<times> db" where
  "apply_mutation cfg namespace_slot_index transaction_sequence m s =
     (case find_memtable_bucket cfg s namespace_slot_index (mu_key m) of
        Inl e \<Rightarrow> (e, s)
      | Inr (index, found) \<Rightarrow>
          if \<not> found \<and> index = - 1 then (ESP_ERR_NO_MEM, s)
          else
            (case (if found then (ESP_OK, retire_record cfg s index)
                   else retire_table_record s namespace_slot_index m) of
               (ret, s) \<Rightarrow>
                 if ret \<noteq> ESP_OK then (ret, s)
                 else (ESP_OK, publish_record s namespace_slot_index transaction_sequence m index)))"

fun apply_mutations :: "config \<Rightarrow> u16 \<Rightarrow> u64 \<Rightarrow> mutation_slot list \<Rightarrow> db \<Rightarrow> esp_err \<times> db" where
  "apply_mutations cfg namespace_slot_index transaction_sequence [] s =
     (ESP_OK, s\<lparr>db_stats := (db_stats s)
        \<lparr>st_committed_transaction_count := st_committed_transaction_count (db_stats s) + 1\<rparr>\<rparr>)"
| "apply_mutations cfg namespace_slot_index transaction_sequence (m # ms) s =
     (case apply_mutation cfg namespace_slot_index transaction_sequence m s of
        (ret, s) \<Rightarrow> if ret \<noteq> ESP_OK then (ret, s)
                    else apply_mutations cfg namespace_slot_index transaction_sequence ms s)"

definition apply_transaction_to_memtable ::
  "config \<Rightarrow> transaction_slot \<Rightarrow> u16 \<Rightarrow> u64 \<Rightarrow> db \<Rightarrow> esp_err \<times> db" where
  "apply_transaction_to_memtable cfg t namespace_slot_index transaction_sequence s =
     apply_mutations cfg namespace_slot_index transaction_sequence
       (take (unat (tx_mutation_count t)) (tx_mutations t)) s"

definition reset_memtable :: "config \<Rightarrow> db \<Rightarrow> db" where
  "reset_memtable cfg s = s\<lparr>
     db_memtable_data_used := 0,
     db_memtable_entry_count := 0,
     db_memtable_data := (\<lambda>_. None),
     db_memtable_index := replicate (unat (cfg_memtable_entry_count cfg))
       \<lparr>mb_hash = 0, mb_record_offset = - 1, mb_record_size = 0\<rparr>\<rparr>"

section \<open>The probe sequence\<close>

lemma bucket_index_range:
  assumes "p < unat (cfg_memtable_entry_count cfg)"
  shows "bucket_index cfg hash p < unat (cfg_memtable_entry_count cfg)"
proof -
  let ?c = "cfg_memtable_entry_count cfg"
  have "?c \<noteq> 0" using assms by auto
  then have "unat (?c - 1) < unat ?c" by (simp add: unat_sub word_le_nat_alt unat_gt_0 word_gt_0 Suc_leI)
  moreover have "(hash + of_nat p) AND (?c - 1) \<le> ?c - 1" by (rule word_and_le1)
  ultimately show ?thesis by (auto simp: bucket_index_def word_le_nat_alt)
qed

definition key_probe :: "config \<Rightarrow> u16 \<times> bytes \<Rightarrow> nat \<Rightarrow> nat" where
  "key_probe cfg k p = bucket_index cfg (hash_key (fst k) (snd k)) p"

lemma key_probe_pair: "key_probe cfg (ns, key) p = bucket_index cfg (hash_key ns key) p"
  by (simp add: key_probe_def)

interpretation probing: open_addressing "unat (cfg_memtable_entry_count cfg)" "key_probe cfg"
  for cfg :: config
  by unfold_locales (simp add: key_probe_def bucket_index_range)

section \<open>The invariant\<close>

definition record_key :: "memtable_record \<Rightarrow> u16 \<times> bytes" where
  "record_key r = (rec_namespace_slot_index r, rec_key r)"

definition inline_size :: "memtable_record \<Rightarrow> nat" where
  "inline_size r = (if rec_external r then 0 else unat (rec_value_size r))"

definition record_ok :: "config \<Rightarrow> db \<Rightarrow> memtable_record \<Rightarrow> bool" where
  "record_ok cfg s r \<longleftrightarrow>
     valid_name (rec_key r) \<and> ucast (rec_namespace_slot_index r) < cfg_max_namespaces cfg \<and>
     ns_used (db_namespaces s ! unat (rec_namespace_slot_index r)) \<and>
     (rec_external r \<longrightarrow> active_bank_ref cfg s (rec_external_value r)) \<and>
     48 + length (rec_key r) + inline_size r \<le> unat (rec_total_size r)"

definition bucket_start :: "db \<Rightarrow> nat \<Rightarrow> nat" where
  "bucket_start s j = unat (mb_record_offset (db_memtable_index s ! j))"

definition bucket_size :: "db \<Rightarrow> nat \<Rightarrow> nat" where
  "bucket_size s j = unat (mb_record_size (db_memtable_index s ! j))"

definition bucket_holds :: "config \<Rightarrow> db \<Rightarrow> nat \<Rightarrow> memtable_record \<Rightarrow> bool" where
  "bucket_holds cfg s j r \<longleftrightarrow>
     \<not> bucket_empty (db_memtable_index s ! j) \<and>
     db_memtable_data s (bucket_start s j) = Some r \<and> record_ok cfg s r \<and>
     mb_hash (db_memtable_index s ! j) = hash_key (rec_namespace_slot_index r) (rec_key r) \<and>
     mb_record_size (db_memtable_index s ! j) = rec_total_size r \<and>
     bucket_start s j + bucket_size s j \<le> unat (db_memtable_data_used s)"

definition arena_ok :: "config \<Rightarrow> db \<Rightarrow> nat set \<Rightarrow> bool" where
  "arena_ok cfg s J \<longleftrightarrow>
     (\<forall>j \<in> J. \<exists>r. bucket_holds cfg s j r) \<and>
     (\<forall>j \<in> J. \<forall>k \<in> J. j \<noteq> k \<longrightarrow>
        bucket_start s j + bucket_size s j \<le> bucket_start s k \<or>
        bucket_start s k + bucket_size s k \<le> bucket_start s j) \<and>
     db_memtable_data_used s \<le> cfg_memtable_data_size cfg"

definition live_buckets :: "config \<Rightarrow> db \<Rightarrow> nat set" where
  "live_buckets cfg s =
     {j. j < unat (cfg_memtable_entry_count cfg) \<and> \<not> bucket_empty (db_memtable_index s ! j)}"

definition bucket_key :: "db \<Rightarrow> nat \<Rightarrow> (u16 \<times> bytes) option" where
  "bucket_key s j =
     (if bucket_empty (db_memtable_index s ! j) then None
      else map_option record_key (db_memtable_data s (bucket_start s j)))"

definition memtable_inv :: "config \<Rightarrow> db \<Rightarrow> bool" where
  "memtable_inv cfg s \<longleftrightarrow>
     length (db_memtable_index s) = unat (cfg_memtable_entry_count cfg) \<and>
     arena_ok cfg s (live_buckets cfg s) \<and>
     probing.well_probed cfg (bucket_key s) \<and> probing.unique_keys cfg (bucket_key s) \<and>
     unat (db_memtable_entry_count s) = card (live_buckets cfg s)"

text \<open>The abstract content: a map from namespace slot and key to the record.\<close>

definition memtable_map :: "config \<Rightarrow> db \<Rightarrow> u16 \<times> bytes \<Rightarrow> memtable_record option" where
  "memtable_map cfg s k =
     (case find (\<lambda>j. bucket_key s j = Some k) [0..<unat (cfg_memtable_entry_count cfg)] of
        None \<Rightarrow> None
      | Some j \<Rightarrow> db_memtable_data s (bucket_start s j))"

lemma bucket_holds_key:
  "bucket_holds cfg s j r \<Longrightarrow> bucket_key s j = Some (record_key r)"
  by (simp add: bucket_holds_def bucket_key_def)

lemma memtable_inv_holds:
  assumes "memtable_inv cfg s" "bucket_key s j = Some k" "j < unat (cfg_memtable_entry_count cfg)"
  obtains r where "bucket_holds cfg s j r" "record_key r = k" "db_memtable_data s (bucket_start s j) = Some r"
proof -
  have "j \<in> live_buckets cfg s"
    using assms by (auto simp: live_buckets_def bucket_key_def split: if_splits)
  then obtain r where r: "bucket_holds cfg s j r"
    using assms(1) by (auto simp: memtable_inv_def arena_ok_def)
  with bucket_holds_key [OF r] assms(2) that show thesis
    by (auto simp: bucket_holds_def)
qed

lemma memtable_map_bucket:
  assumes "memtable_inv cfg s" "bucket_holds cfg s j r" "j < unat (cfg_memtable_entry_count cfg)"
  shows "memtable_map cfg s (record_key r) = Some r"
proof -
  let ?P = "\<lambda>i. bucket_key s i = Some (record_key r)" and ?n = "unat (cfg_memtable_entry_count cfg)"
  have j: "?P j" using assms(2) by (rule bucket_holds_key)
  then obtain i where i: "find ?P [0..<?n] = Some i" "i < ?n" "?P i"
    using assms(3) by (cases "find ?P [0..<?n]") (auto simp: find_None_iff find_Some_iff)
  then have "i = j"
    using assms(1,3) j unfolding memtable_inv_def probing.unique_keys_def by blast
  then show ?thesis
    using i assms(2) by (simp add: memtable_map_def bucket_holds_def)
qed

lemma memtable_map_SomeD:
  assumes "memtable_inv cfg s" "memtable_map cfg s k = Some r"
  shows "\<exists>j < unat (cfg_memtable_entry_count cfg). bucket_holds cfg s j r \<and> record_key r = k"
proof -
  obtain j where j: "j < unat (cfg_memtable_entry_count cfg)" "bucket_key s j = Some k"
    "db_memtable_data s (bucket_start s j) = Some r"
    using assms(2) by (auto simp: memtable_map_def find_Some_iff split: option.splits)
  obtain r' where "bucket_holds cfg s j r'" "record_key r' = k" "db_memtable_data s (bucket_start s j) = Some r'"
    using memtable_inv_holds [OF assms(1) j(2,1)] by blast
  with j show ?thesis by auto
qed

lemma memtable_map_None:
  assumes "memtable_inv cfg s"
  shows "memtable_map cfg s k = None \<longleftrightarrow> (\<forall>j < unat (cfg_memtable_entry_count cfg). bucket_key s j \<noteq> Some k)"
proof
  assume "memtable_map cfg s k = None"
  then show "\<forall>j < unat (cfg_memtable_entry_count cfg). bucket_key s j \<noteq> Some k"
    using memtable_map_bucket [OF assms] memtable_inv_holds [OF assms]
    by (metis option.distinct(1))
next
  assume "\<forall>j < unat (cfg_memtable_entry_count cfg). bucket_key s j \<noteq> Some k"
  then have "find (\<lambda>j. bucket_key s j = Some k) [0..<unat (cfg_memtable_entry_count cfg)] = None"
    by (auto simp: find_None_iff)
  then show "memtable_map cfg s k = None" by (simp add: memtable_map_def)
qed

section \<open>Lookup implements the map\<close>

lemma memtable_record_valid:
  assumes "bucket_holds cfg s j r"
  shows "\<not> memtable_record_invalid cfg s (db_memtable_index s ! j) r" "48 \<le> bucket_size s j"
proof -
  let ?b = "db_memtable_index s ! j"
  have ok: "record_ok cfg s r" and sz: "mb_record_size ?b = rec_total_size r"
    using assms by (simp_all add: bucket_holds_def)
  then have le: "48 + length (rec_key r) + inline_size r \<le> unat (mb_record_size ?b)"
    by (simp add: record_ok_def)
  then show "48 \<le> bucket_size s j" by (simp add: bucket_size_def)
  have "(48 :: u32) \<le> mb_record_size ?b" using le by (simp add: word_le_nat_alt)
  then have pay: "unat (mb_record_size ?b - 48) = unat (mb_record_size ?b) - 48"
    by (simp add: unat_sub)
  define inl where "inl = (if rec_external r then 0 else rec_value_size r)"
  have inl: "unat inl = inline_size r" by (simp add: inl_def inline_size_def)
  have "inl \<le> mb_record_size ?b - 48" using le pay inl by (simp add: word_le_nat_alt)
  moreover have "unat (mb_record_size ?b - 48 - inl) = unat (mb_record_size ?b) - 48 - inline_size r"
    using calculation pay inl by (simp add: unat_sub)
  ultimately show "\<not> memtable_record_invalid cfg s ?b r"
    using ok sz le
    by (auto simp: memtable_record_invalid_def Let_def inl_def [symmetric] record_ok_def
        valid_name_length not_le not_less format_consts)
qed

lemma probe_memtable_search:
  assumes inv: "memtable_inv cfg s" and ps: "\<forall>p \<in> set ps. p < unat (cfg_memtable_entry_count cfg)"
  shows "probe_memtable cfg s ns key (hash_key ns key) ps =
    (case probing.search cfg (bucket_key s) (ns, key) ps of
       None \<Rightarrow> Inr (- 1, False) | Some (i, found) \<Rightarrow> Inr (of_nat i, found))"
  using ps
proof (induction ps)
  case Nil
  then show ?case by simp
next
  case (Cons p ps)
  let ?i = "bucket_index cfg (hash_key ns key) p" and ?b = "db_memtable_index s ! bucket_index cfg (hash_key ns key) p"
  have i: "?i < unat (cfg_memtable_entry_count cfg)" using Cons.prems by (simp add: bucket_index_range)
  show ?case
  proof (cases "bucket_empty ?b")
    case True
    then have "bucket_key s ?i = None" by (simp add: bucket_key_def)
    with True show ?thesis by (simp add: key_probe_pair Let_def)
  next
    case False
    then have "?i \<in> live_buckets cfg s" using i by (simp add: live_buckets_def)
    then obtain r where r: "bucket_holds cfg s ?i r" and used: "db_memtable_data_used s \<le> cfg_memtable_data_size cfg"
      using inv by (auto simp: memtable_inv_def arena_ok_def)
    note valid = memtable_record_valid [OF r]
    have sizes: "mb_record_size ?b \<le> cfg_memtable_data_size cfg"
      "mb_record_offset ?b \<le> cfg_memtable_data_size cfg - mb_record_size ?b"
      using r used by (auto simp: bucket_holds_def bucket_start_def bucket_size_def word_le_nat_alt unat_sub)
    have key: "bucket_key s ?i = Some (record_key r)" using r by (rule bucket_holds_key)
    show ?thesis
      using False r valid sizes key Cons
      by (auto simp: Let_def bucket_holds_def bucket_start_def bucket_size_def key_probe_pair record_key_def
          memcmp_def mem_cmp_0_iff not_less format_consts)
  qed
qed

lemma of_nat_bucket:
  "i < unat (cfg_memtable_entry_count cfg) \<Longrightarrow> unat (of_nat i :: u32) = i"
  using unat_bound32 [of "cfg_memtable_entry_count cfg"] by (intro unat_of_nat_eq) simp

lemma find_memtable_bucket_cases:
  assumes inv: "memtable_inv cfg s" and key: "valid_name key" and ns: "ucast ns < cfg_max_namespaces cfg"
  shows "(\<exists>i r. i < unat (cfg_memtable_entry_count cfg) \<and> bucket_holds cfg s i r \<and> record_key r = (ns, key) \<and>
            memtable_map cfg s (ns, key) = Some r \<and>
            find_memtable_bucket cfg s ns key = Inr (of_nat i, True)) \<or>
         memtable_map cfg s (ns, key) = None \<and>
         (\<exists>i. probing.search cfg (bucket_key s) (ns, key) [0..<unat (cfg_memtable_entry_count cfg)] = Some (i, False) \<and>
            i < unat (cfg_memtable_entry_count cfg) \<and> bucket_empty (db_memtable_index s ! i) \<and>
            find_memtable_bucket cfg s ns key = Inr (of_nat i, False)) \<or>
         memtable_map cfg s (ns, key) = None \<and>
         probing.search cfg (bucket_key s) (ns, key) [0..<unat (cfg_memtable_entry_count cfg)] = None \<and>
         find_memtable_bucket cfg s ns key = Inr (- 1, False)"
proof -
  let ?n = "unat (cfg_memtable_entry_count cfg)"
  have wp: "probing.well_probed cfg (bucket_key s)" "probing.unique_keys cfg (bucket_key s)"
    using inv by (simp_all add: memtable_inv_def)
  have find: "find_memtable_bucket cfg s ns key =
    (case probing.search cfg (bucket_key s) (ns, key) [0..<?n] of
       None \<Rightarrow> Inr (- 1, False) | Some (i, found) \<Rightarrow> Inr (of_nat i, found))"
    using key ns probe_memtable_search [OF inv, of "[0..<?n]" ns key]
    by (auto simp: find_memtable_bucket_def valid_name_length format_consts not_le)
  show ?thesis
  proof (cases "probing.search cfg (bucket_key s) (ns, key) [0..<?n]")
    case None
    then show ?thesis
      using find probing.search_full_absent [OF wp None] by (simp add: memtable_map_None [OF inv])
  next
    case (Some x)
    obtain i found where x: "x = (i, found)" by (cases x)
    note D = probing.search_SomeD [OF Some [unfolded x]]
    have i: "i < ?n" using D(1) by simp
    show ?thesis
    proof (cases found)
      case True
      then have "bucket_key s i = Some (ns, key)" using D(2) by simp
      then obtain r where r: "bucket_holds cfg s i r" "record_key r = (ns, key)"
        using memtable_inv_holds [OF inv _ i] by blast
      moreover have "memtable_map cfg s (ns, key) = Some r"
        using memtable_map_bucket [OF inv r(1) i] r(2) by simp
      ultimately show ?thesis using find Some x True i by auto
    next
      case False
      then have "bucket_key s i = None" using D(3) by simp
      then have e: "bucket_empty (db_memtable_index s ! i)"
        using inv i by (auto simp: bucket_key_def memtable_inv_def arena_ok_def live_buckets_def
            bucket_holds_def split: if_splits)
      have "memtable_map cfg s (ns, key) = None"
        using probing.search_miss_absent [OF wp] Some x False by (auto simp: memtable_map_None [OF inv])
      then show ?thesis using find Some x False i e by auto
    qed
  qed
qed

section \<open>Application implements the map update\<close>

lemma word_sub_unat: "b \<le> a \<Longrightarrow> unat (a - b) = unat a - unat b" for a b :: "'a::len word"
  by (simp add: unat_sub)

lemma remove_memtable_index:
  assumes "length (db_memtable_index s) = unat (cfg_memtable_entry_count cfg)"
    "j < unat (cfg_memtable_entry_count cfg)" "j \<noteq> unat i"
  shows "db_memtable_index (remove_memtable_record cfg s i) ! j =
    (let b = db_memtable_index s ! j; removed = db_memtable_index s ! unat i in
     if \<not> bucket_empty b \<and> mb_record_offset b > mb_record_offset removed
     then b\<lparr>mb_record_offset := mb_record_offset b - mb_record_size removed\<rparr> else b)"
  using assms by (simp add: remove_memtable_record_def Let_def)

lemma record_ok_same:
  "db_namespaces s' = db_namespaces s \<Longrightarrow> db_manifest s' = db_manifest s \<Longrightarrow>
     record_ok cfg s' r = record_ok cfg s r"
  by (simp add: record_ok_def active_bank_ref_def)

lemma remove_memtable_fields [simp]:
  "db_namespaces (remove_memtable_record cfg s i) = db_namespaces s"
  "db_manifest (remove_memtable_record cfg s i) = db_manifest s"
  "db_transaction_staging (remove_memtable_record cfg s i) = db_transaction_staging s"
  "db_stats (remove_memtable_record cfg s i) = db_stats s"
  "db_memtable_entry_count (remove_memtable_record cfg s i) = db_memtable_entry_count s"
  by (simp_all add: remove_memtable_record_def Let_def)

text \<open>
  Removal keeps every other record readable through its bucket, and frees exactly the bytes of the
  removed one.
\<close>

lemma remove_memtable_arena:
  assumes ok: "arena_ok cfg s J" and i: "unat i \<in> J" and J: "J \<subseteq> {..<unat (cfg_memtable_entry_count cfg)}"
    and len: "length (db_memtable_index s) = unat (cfg_memtable_entry_count cfg)"
    and r0: "bucket_holds cfg s (unat i) r0"
  defines "s' \<equiv> remove_memtable_record cfg s i"
  shows "arena_ok cfg s' (J - {unat i})"
    "\<And>j r. j \<in> J - {unat i} \<Longrightarrow> bucket_holds cfg s j r \<Longrightarrow> bucket_holds cfg s' j r"
    "unat (db_memtable_data_used s') = unat (db_memtable_data_used s) - unat (rec_total_size r0)"
    "unat (rec_total_size r0) \<le> unat (db_memtable_data_used s)"
proof -
  let ?i = "unat i"
  define b0 where "b0 = db_memtable_index s ! ?i"
  define st where "st = bucket_start s ?i" define sz where "sz = bucket_size s ?i"
  define used where "used = unat (db_memtable_data_used s)"
  have b0: "mb_record_size b0 = rec_total_size r0" "st = unat (mb_record_offset b0)" "sz = unat (mb_record_size b0)"
    "st + sz \<le> used" "48 \<le> sz"
    using r0 memtable_record_valid(2) [OF r0]
    by (auto simp: bucket_holds_def st_def sz_def used_def bucket_start_def bucket_size_def b0_def)
  have used32: "used < 2 ^ 32" unfolding used_def by (rule unat_bound32)
  have tail: "unat (mb_record_offset b0 + mb_record_size b0) = st + sz"
    using b0 used32 by (simp add: unat_add_exact)
  then have tail_size: "unat (db_memtable_data_used s - (mb_record_offset b0 + mb_record_size b0)) = used - (st + sz)"
    using b0(4) by (subst word_sub_unat) (simp_all add: word_le_nat_alt used_def)
  have sz_used: "mb_record_size b0 \<le> db_memtable_data_used s"
    using b0 by (simp add: word_le_nat_alt used_def)
  show used': "unat (db_memtable_data_used s') = unat (db_memtable_data_used s) - unat (rec_total_size r0)"
    using sz_used b0(1) by (simp add: s'_def remove_memtable_record_def Let_def b0_def word_sub_unat)
  show "unat (rec_total_size r0) \<le> unat (db_memtable_data_used s)"
    using sz_used b0(1) by (simp add: word_le_nat_alt)
  have data': "db_memtable_data s' = shift_tail st sz (used - (st + sz)) (db_memtable_data s)"
    using tail_size b0 by (simp add: s'_def remove_memtable_record_def Let_def b0_def)
  have moved: "\<not> bucket_empty (db_memtable_index s' ! j) \<and>
      mb_hash (db_memtable_index s' ! j) = mb_hash (db_memtable_index s ! j) \<and>
      mb_record_size (db_memtable_index s' ! j) = mb_record_size (db_memtable_index s ! j) \<and>
      bucket_size s' j = bucket_size s j \<and> 48 \<le> bucket_size s j \<and>
      bucket_start s' j = (if bucket_start s j > st then bucket_start s j - sz else bucket_start s j) \<and>
      (bucket_start s j > st \<longrightarrow> st + sz \<le> bucket_start s j) \<and>
      (\<not> bucket_start s j > st \<longrightarrow> bucket_start s j + bucket_size s j \<le> st) \<and>
      bucket_start s j + bucket_size s j \<le> used"
    if j: "j \<in> J - {?i}" and r: "bucket_holds cfg s j r" for j r
  proof -
    have jn: "j < unat (cfg_memtable_entry_count cfg)" "j \<noteq> ?i" using j J by auto
    have le: "48 \<le> bucket_size s j" "bucket_start s j + bucket_size s j \<le> used"
      "\<not> bucket_empty (db_memtable_index s ! j)"
      using memtable_record_valid(2) [OF r] r by (simp_all add: bucket_holds_def used_def)
    have disj: "st + sz \<le> bucket_start s j \<or> bucket_start s j + bucket_size s j \<le> st"
      using ok i j unfolding arena_ok_def st_def sz_def by auto
    have gt: "mb_record_offset (db_memtable_index s ! j) > mb_record_offset b0 \<longleftrightarrow> bucket_start s j > st"
      by (simp add: word_less_nat_alt bucket_start_def b0(2))
    have idx: "db_memtable_index s' ! j =
      (if bucket_start s j > st then (db_memtable_index s ! j)
         \<lparr>mb_record_offset := mb_record_offset (db_memtable_index s ! j) - mb_record_size b0\<rparr>
       else db_memtable_index s ! j)"
      unfolding s'_def using remove_memtable_index [OF len jn] le(3) gt
      by (simp add: Let_def b0_def)
    have sub: "unat (mb_record_offset (db_memtable_index s ! j) - mb_record_size b0) = bucket_start s j - sz"
      if "bucket_start s j > st"
      using that disj le(1) b0(3) by (subst word_sub_unat) (auto simp: word_le_nat_alt bucket_start_def)
    have ne: "mb_record_offset (db_memtable_index s ! j) - mb_record_size b0 \<noteq> - 1" if "bucket_start s j > st"
    proof
      assume "mb_record_offset (db_memtable_index s ! j) - mb_record_size b0 = - 1"
      then have "bucket_start s j - sz = unat (- 1 :: u32)" using sub [OF that] by simp
      then show False using le used32 by (simp add: unat_max_word)
    qed
    show ?thesis
      using idx sub ne le disj b0(5) by (auto simp: bucket_empty_def bucket_start_def bucket_size_def)
  qed
  show holds: "bucket_holds cfg s' j r" if j: "j \<in> J - {?i}" and r: "bucket_holds cfg s j r" for j r
  proof -
    note m = moved [OF j r]
    have "db_memtable_data s' (bucket_start s' j) = db_memtable_data s (bucket_start s j)"
      using m by (auto simp: data' shift_tail_def)
    moreover have "record_ok cfg s' r = record_ok cfg s r"
      by (rule record_ok_same) (simp_all add: s'_def)
    moreover have "bucket_start s' j + bucket_size s' j \<le> unat (db_memtable_data_used s')"
      using m used' b0 by (auto simp: used_def)
    ultimately show ?thesis
      using m r by (simp add: bucket_holds_def)
  qed
  have ex: "\<exists>r. bucket_holds cfg s j r" if "j \<in> J" for j
    using ok that by (simp add: arena_ok_def)
  have disj: "bucket_start s' j + bucket_size s' j \<le> bucket_start s' k \<or>
      bucket_start s' k + bucket_size s' k \<le> bucket_start s' j"
    if jk: "j \<in> J - {?i}" "k \<in> J - {?i}" "j \<noteq> k" for j k
  proof -
    obtain rj rk where "bucket_holds cfg s j rj" "bucket_holds cfg s k rk"
      using ex jk by (metis DiffD1)
    note m = moved [OF jk(1) this(1)] moved [OF jk(2) this(2)]
    have "bucket_start s j + bucket_size s j \<le> bucket_start s k \<or>
        bucket_start s k + bucket_size s k \<le> bucket_start s j"
      using ok jk by (auto simp: arena_ok_def)
    with m show ?thesis by auto
  qed
  have "db_memtable_data_used s' \<le> cfg_memtable_data_size cfg"
    using ok used' by (auto simp: arena_ok_def word_le_nat_alt)
  then show "arena_ok cfg s' (J - {?i})"
    using ex holds disj unfolding arena_ok_def by (metis DiffD1)
qed

lemma bucket_index_surj:
  assumes "cfg_memtable_entry_count cfg AND (cfg_memtable_entry_count cfg - 1) = 0"
    "j < unat (cfg_memtable_entry_count cfg)"
  shows "\<exists>p < unat (cfg_memtable_entry_count cfg). bucket_index cfg hash p = j"
proof -
  let ?c = "cfg_memtable_entry_count cfg"
  have "?c \<noteq> 0" using assms(2) by auto
  then obtain k where k: "k < 32" "?c = 2 ^ k" using pow2_word [of ?c] assms(1) by auto
  then have n: "unat ?c = 2 ^ k" 
  proof -
    have "?c = of_nat (2 ^ k)" by (simp add: k(2))
    moreover have "(2 :: nat) ^ k < 2 ^ 32" using k(1) by (intro power_strict_increasing) auto
    ultimately show ?thesis using unat_of_nat_eq [where 'a = 32, of "2 ^ k"] by simp
  qed
  have mask: "?c - 1 = mask k" by (simp add: k(2) mask_eq_exp_minus_1)
  let ?h = "unat hash mod 2 ^ k"
  define p where "p = (j + 2 ^ k - ?h) mod 2 ^ k"
  have j: "j < 2 ^ k" using assms(2) n by simp
  have h: "?h < 2 ^ k" by simp
  have "(2 :: nat) ^ k < 2 ^ 32" using k(1) by (intro power_strict_increasing) auto
  then have p: "p < 2 ^ k" "p < 2 ^ 32" by (auto simp: p_def intro: order.strict_trans [OF mod_less_divisor])
  have "(?h + p) mod 2 ^ k = (?h + (j + 2 ^ k - ?h)) mod 2 ^ k"
    unfolding p_def by (rule mod_add_right_eq)
  also have "?h + (j + 2 ^ k - ?h) = j + 2 ^ k"
    using h by (intro le_add_diff_inverse trans_le_add2 less_imp_le)
  also have "(j + 2 ^ k) mod 2 ^ k = j" using j by simp
  finally have "(unat hash + p) mod 2 ^ k = j" by (simp only: mod_add_left_eq)
  moreover have "unat (hash + of_nat p) mod 2 ^ k = (unat hash + p) mod 2 ^ k"
  proof -
    have "(2 :: nat) ^ k dvd 2 ^ 32" using k(1) by (intro le_imp_power_dvd) simp
    moreover have "unat (hash + of_nat p) = (unat hash + p) mod 2 ^ 32"
      using unat_of_nat_eq [where 'a = 32, of p] p(2) by (simp add: unat_word_ariths)
    ultimately show ?thesis by (simp only: mod_mod_cancel)
  qed
  moreover have "unat ((hash + of_nat p) AND mask k) = unat (hash + of_nat p) mod 2 ^ k"
    by (simp only: take_bit_eq_mask [symmetric] unsigned_take_bit_eq) (simp only: take_bit_eq_mod)
  ultimately show ?thesis using p(1) unfolding n mask bucket_index_def by auto
qed

section \<open>Publishing a record\<close>

lemma align_record_size_unat:
  assumes "unat n < 2 ^ 32 - 8"
  shows "unat (align_record_size n) = align8 (unat n)"
proof -
  have "align_record_size n = align_up_u32 n 8" by (simp add: align_record_size_def align_up_u32_def add.commute)
  then show ?thesis using align_up_u32_8 [OF assms] by simp
qed

text \<open>A staged mutation of a used namespace, as the API and the WAL parser build it.\<close>

definition inline_applied_size :: "mutation_slot \<Rightarrow> nat" where
  "inline_applied_size m = (if mu_external_value m then 0 else unat (applied_value_size m))"

definition mutation_ok :: "config \<Rightarrow> db \<Rightarrow> u16 \<Rightarrow> mutation_slot \<Rightarrow> bool" where
  "mutation_ok cfg s ns m \<longleftrightarrow>
     valid_name (mu_key m) \<and> ucast ns < cfg_max_namespaces cfg \<and>
     ns_used (db_namespaces s ! unat ns) \<and>
     (mu_kind m = mutation_kind_set \<or> mu_kind m = mutation_kind_tombstone) \<and>
     (mu_external_value m \<longrightarrow> mu_kind m = mutation_kind_set \<and> active_bank_ref cfg s (mu_external_value_ref m)) \<and>
     48 + length (mu_key m) + inline_applied_size m < 2 ^ 32 - 8"

lemma mutation_record_size_unat:
  assumes "48 + length (mu_key m) + inline_applied_size m < 2 ^ 32 - 8"
  shows "unat (mutation_record_size m (applied_value_size m)) =
    align8 (48 + length (mu_key m) + inline_applied_size m)"
proof -
  define v where "v = (if mu_external_value m then 0 else applied_value_size m)"
  have v: "unat v = inline_applied_size m" by (simp add: v_def inline_applied_size_def)
  have k: "unat (of_nat (length (mu_key m)) :: u32) = length (mu_key m)"
    using assms by (intro unat_of_nat_eq) simp
  have "unat (48 + of_nat (length (mu_key m)) :: u32) = 48 + length (mu_key m)"
    using k assms by (subst unat_add_exact) simp_all
  then have "unat (48 + of_nat (length (mu_key m)) + v :: u32) = 48 + length (mu_key m) + inline_applied_size m"
    using v assms by (subst unat_add_exact) simp_all
  then show ?thesis
    using assms by (simp add: mutation_record_size_def format_consts v_def [symmetric] align_record_size_unat)
qed

lemma new_record_fields [simp]:
  "rec_key (new_record s ns sq m) = mu_key m"
  "rec_namespace_slot_index (new_record s ns sq m) = ns"
  "rec_total_size (new_record s ns sq m) = mutation_record_size m (applied_value_size m)"
  "rec_value_size (new_record s ns sq m) = applied_value_size m"
  "rec_transaction_sequence (new_record s ns sq m) = sq"
  "rec_external_value (new_record s ns sq m) =
     (if mu_external_value m then mu_external_value_ref m else empty_value_ref)"
  "record_key (new_record s ns sq m) = (ns, mu_key m)"
  by (simp_all add: new_record_def record_key_def)

lemma new_record_flags [simp]:
  "rec_external (new_record s ns sq m) = mu_external_value m"
  "rec_tombstone (new_record s ns sq m) = mutation_tombstone m"
  by (auto simp: new_record_def rec_external_def rec_tombstone_def format_consts)

lemma new_record_ok:
  assumes "mutation_ok cfg s ns m"
  shows "record_ok cfg s (new_record s' ns sq m)"
proof -
  have "48 + length (mu_key m) + inline_applied_size m \<le> unat (mutation_record_size m (applied_value_size m))"
    using assms align8_bounds(1) by (subst mutation_record_size_unat) (auto simp: mutation_ok_def)
  then show ?thesis
    using assms
    by (auto simp: record_ok_def mutation_ok_def inline_size_def inline_applied_size_def)
qed

lemma publish_record_fields [simp]:
  "db_namespaces (publish_record s ns sq m i) = db_namespaces s"
  "db_manifest (publish_record s ns sq m i) = db_manifest s"
  "db_transaction_staging (publish_record s ns sq m i) = db_transaction_staging s"
  "db_memtable_entry_count (publish_record s ns sq m i) = db_memtable_entry_count s"
  "db_memtable_data_used (publish_record s ns sq m i) =
     db_memtable_data_used s + mutation_record_size m (applied_value_size m)"
  by (simp_all add: publish_record_def Let_def)

lemma publish_record_arena:
  fixes m :: mutation_slot and sq :: u64
  assumes ok: "arena_ok cfg s J" and i: "unat i \<notin> J" "unat i < length (db_memtable_index s)"
    and m: "mutation_ok cfg s ns m"
    and room: "unat (db_memtable_data_used s) + unat (mutation_record_size m (applied_value_size m))
       \<le> unat (cfg_memtable_data_size cfg)"
  defines "s' \<equiv> publish_record s ns sq m i"
  shows "arena_ok cfg s' (insert (unat i) J)"
    "bucket_holds cfg s' (unat i) (new_record s ns sq m)"
    "\<And>j r. j \<in> J \<Longrightarrow> bucket_holds cfg s j r \<Longrightarrow> bucket_holds cfg s' j r"
    "unat (db_memtable_data_used s') =
       unat (db_memtable_data_used s) + unat (mutation_record_size m (applied_value_size m))"
proof -
  let ?r = "new_record s ns sq m" and ?sz = "mutation_record_size m (applied_value_size m)"
  have rok: "record_ok cfg s ?r" using m by (rule new_record_ok)
  then have sz: "48 \<le> unat ?sz" by (simp add: record_ok_def)
  have lt: "unat (db_memtable_data_used s) + unat ?sz < 2 ^ 32"
    using room unat_bound32 [of "cfg_memtable_data_size cfg"] by simp
  then show used': "unat (db_memtable_data_used s') = unat (db_memtable_data_used s) + unat ?sz"
    by (simp add: s'_def unat_add_exact)
  have idx: "db_memtable_index s' ! unat i =
    \<lparr>mb_hash = hash_key ns (mu_key m), mb_record_offset = db_memtable_data_used s, mb_record_size = ?sz\<rparr>"
    "\<And>j. j \<noteq> unat i \<Longrightarrow> db_memtable_index s' ! j = db_memtable_index s ! j"
    using i(2) by (simp_all add: s'_def publish_record_def Let_def)
  have data: "db_memtable_data s' = (db_memtable_data s)(unat (db_memtable_data_used s) \<mapsto> ?r)"
    by (simp add: s'_def publish_record_def Let_def)
  have rok': "record_ok cfg s' r = record_ok cfg s r" for r
    by (rule record_ok_same) (simp_all add: s'_def)
  have "db_memtable_data_used s \<noteq> - 1"
    using lt sz by (auto simp: unat_max_word)
  then show new: "bucket_holds cfg s' (unat i) ?r"
    using idx(1) data rok rok' used' by (simp add: bucket_holds_def bucket_empty_def bucket_start_def bucket_size_def)
  show old: "bucket_holds cfg s' j r" if j: "j \<in> J" and r: "bucket_holds cfg s j r" for j r
  proof -
    have "j \<noteq> unat i" using j i(1) by auto
    moreover have "bucket_start s j < unat (db_memtable_data_used s)"
      using memtable_record_valid(2) [OF r] r by (simp add: bucket_holds_def)
    ultimately show ?thesis
      using r idx(2) data rok' used' by (auto simp: bucket_holds_def bucket_start_def bucket_size_def)
  qed
  have A: "bucket_start s' (unat i) = unat (db_memtable_data_used s)"
    using idx(1) by (simp add: bucket_start_def)
  have B: "bucket_start s' j + bucket_size s' j \<le> unat (db_memtable_data_used s)"
      "bucket_start s' j = bucket_start s j" "bucket_size s' j = bucket_size s j" if "j \<in> J" for j
  proof -
    obtain r where "bucket_holds cfg s j r" using ok \<open>j \<in> J\<close> unfolding arena_ok_def by blast
    moreover have "j \<noteq> unat i" using \<open>j \<in> J\<close> i(1) by auto
    ultimately show "bucket_start s' j + bucket_size s' j \<le> unat (db_memtable_data_used s)"
      "bucket_start s' j = bucket_start s j" "bucket_size s' j = bucket_size s j"
      using idx(2) by (auto simp: bucket_holds_def bucket_start_def bucket_size_def)
  qed
  have disj: "bucket_start s j + bucket_size s j \<le> bucket_start s k \<or>
      bucket_start s k + bucket_size s k \<le> bucket_start s j" if "j \<in> J" "k \<in> J" "j \<noteq> k" for j k
    using ok that unfolding arena_ok_def by blast
  show "arena_ok cfg s' (insert (unat i) J)"
    unfolding arena_ok_def
  proof (intro conjI ballI impI)
    fix j assume "j \<in> insert (unat i) J"
    then show "\<exists>r. bucket_holds cfg s' j r"
      using new old ok unfolding arena_ok_def by blast
  next
    fix j k assume "j \<in> insert (unat i) J" "k \<in> insert (unat i) J" "j \<noteq> k"
    then show "bucket_start s' j + bucket_size s' j \<le> bucket_start s' k \<or>
        bucket_start s' k + bucket_size s' k \<le> bucket_start s' j"
      using A B(1) B(2,3) disj [of j k] by (elim insertE) simp_all
  next
    show "db_memtable_data_used s' \<le> cfg_memtable_data_size cfg"
      using room used' by (simp add: word_le_nat_alt)
  qed
qed

section \<open>One mutation\<close>

lemma retire_record_remove:
  "\<exists>st. retire_record cfg s i = remove_memtable_record cfg (s\<lparr>db_stats := st\<rparr>) i"
  unfolding retire_record_def Let_def by (rule exI, rule refl)

lemma arena_ok_stats:
  "arena_ok cfg (s\<lparr>db_stats := st\<rparr>) J = arena_ok cfg s J"
  "bucket_holds cfg (s\<lparr>db_stats := st\<rparr>) j r = bucket_holds cfg s j r"
  "arena_ok cfg (s\<lparr>db_stats := st, db_memtable_entry_count := c\<rparr>) J = arena_ok cfg s J"
  "bucket_holds cfg (s\<lparr>db_stats := st, db_memtable_entry_count := c\<rparr>) j r = bucket_holds cfg s j r"
  "arena_ok cfg (s\<lparr>db_memtable_entry_count := c\<rparr>) J = arena_ok cfg s J"
  "bucket_holds cfg (s\<lparr>db_memtable_entry_count := c\<rparr>) j r = bucket_holds cfg s j r"
  by (simp_all add: arena_ok_def bucket_holds_def bucket_start_def bucket_size_def record_ok_def
      active_bank_ref_def)

text \<open>
  The state between taking out the old record (if any) and publishing the new one: all buckets but
  \<open>i\<close> hold their records, bucket \<open>i\<close> is free for the key.
\<close>

definition ready_for :: "config \<Rightarrow> db \<Rightarrow> db \<Rightarrow> nat \<Rightarrow> bool" where
  "ready_for cfg s0 s i \<longleftrightarrow>
     length (db_memtable_index s) = unat (cfg_memtable_entry_count cfg) \<and>
     arena_ok cfg s (live_buckets cfg s0 - {i}) \<and>
     (\<forall>j \<in> live_buckets cfg s0 - {i}. \<forall>r. bucket_holds cfg s0 j r \<longrightarrow> bucket_holds cfg s j r) \<and>
     (\<forall>j < unat (cfg_memtable_entry_count cfg). j \<noteq> i \<longrightarrow>
        bucket_empty (db_memtable_index s ! j) = bucket_empty (db_memtable_index s0 ! j)) \<and>
     db_namespaces s = db_namespaces s0 \<and> db_manifest s = db_manifest s0 \<and>
     db_transaction_staging s = db_transaction_staging s0"

lemma new_record_cong:
  "db_transaction_staging s = db_transaction_staging s' \<Longrightarrow> new_record s ns sq m = new_record s' ns sq m"
  by (simp add: new_record_def)

lemma publish_record_correct:
  fixes sq :: u64
  assumes inv: "memtable_inv cfg s0" and ready: "ready_for cfg s0 s (unat i)"
    and i: "unat i < unat (cfg_memtable_entry_count cfg)"
    and slot: "probing.search cfg (bucket_key s0) (ns, mu_key m) [0..<unat (cfg_memtable_entry_count cfg)] =
       Some (unat i, found)"
    and m: "mutation_ok cfg s0 ns m"
    and room: "unat (db_memtable_data_used s) + unat (mutation_record_size m (applied_value_size m))
       \<le> unat (cfg_memtable_data_size cfg)"
    and count: "unat (db_memtable_entry_count s) = card (insert (unat i) (live_buckets cfg s0))"
  defines "s' \<equiv> publish_record s ns sq m i"
  shows "memtable_inv cfg s'"
    "memtable_map cfg s' = (memtable_map cfg s0)((ns, mu_key m) \<mapsto> new_record s0 ns sq m)"
proof -
  let ?n = "unat (cfg_memtable_entry_count cfg)" and ?k = "(ns, mu_key m)" and ?i = "unat i"
  let ?J = "live_buckets cfg s0 - {?i}"
  have wp: "probing.well_probed cfg (bucket_key s0)" "probing.unique_keys cfg (bucket_key s0)"
    using inv by (simp_all add: memtable_inv_def)
  have len: "length (db_memtable_index s) = ?n" and same: "db_namespaces s = db_namespaces s0"
    "db_manifest s = db_manifest s0" "db_transaction_staging s = db_transaction_staging s0"
    and ok: "arena_ok cfg s ?J"
    and keep: "\<And>j r. j \<in> ?J \<Longrightarrow> bucket_holds cfg s0 j r \<Longrightarrow> bucket_holds cfg s j r"
    and empt: "\<And>j. j < ?n \<Longrightarrow> j \<noteq> ?i \<Longrightarrow>
        bucket_empty (db_memtable_index s ! j) = bucket_empty (db_memtable_index s0 ! j)"
    using ready by (auto simp: ready_for_def)
  have m': "mutation_ok cfg s ns m"
    using m same by (simp add: mutation_ok_def active_bank_ref_def)
  have inot: "?i \<notin> ?J" and ilen: "?i < length (db_memtable_index s)" using i len by auto
  note P = publish_record_arena [OF ok inot ilen m' room, where sq = sq, folded s'_def]
  have nr: "new_record s ns sq m = new_record s0 ns sq m"
    by (rule new_record_cong) (rule same(3))
  have len': "length (db_memtable_index s') = ?n"
    using len by (simp add: s'_def publish_record_def Let_def)
  have idx': "db_memtable_index s' ! j = db_memtable_index s ! j" if "j \<noteq> ?i" for j
    using that by (simp add: s'_def publish_record_def Let_def)
  have keys: "bucket_key s' j = ((bucket_key s0)(?i := Some ?k)) j" if "j < ?n" for j
  proof (cases "j = ?i")
    case True
    then show ?thesis using bucket_holds_key [OF P(2)] by simp
  next
    case False
    show ?thesis
    proof (cases "j \<in> live_buckets cfg s0")
      case True
      then obtain r where r: "bucket_holds cfg s0 j r" using inv by (auto simp: memtable_inv_def arena_ok_def)
      then have "bucket_holds cfg s' j r" using keep [of j r] P(3) True False by auto
      then show ?thesis using False bucket_holds_key r by (metis fun_upd_other)
    next
      case nl: False
      then have "bucket_empty (db_memtable_index s0 ! j)" using that by (simp add: live_buckets_def)
      then show ?thesis using False empt [OF that False] idx' [OF False] by (simp add: bucket_key_def)
    qed
  qed
  have live': "live_buckets cfg s' = insert ?i (live_buckets cfg s0)"
  proof -
    have "\<not> bucket_empty (db_memtable_index s' ! ?i)" using P(2) by (simp add: bucket_holds_def)
    then show ?thesis
      using i empt idx' by (auto simp: live_buckets_def) metis+
  qed
  have cong: "probing.well_probed cfg (bucket_key s') = probing.well_probed cfg ((bucket_key s0)(?i := Some ?k))"
    "probing.unique_keys cfg (bucket_key s') = probing.unique_keys cfg ((bucket_key s0)(?i := Some ?k))"
    by (rule probing.well_probed_cong probing.unique_keys_cong, erule keys)+
  show inv': "memtable_inv cfg s'"
    unfolding memtable_inv_def
  proof (intro conjI)
    have "insert ?i ?J = live_buckets cfg s'" using live' by auto
    then show "arena_ok cfg s' (live_buckets cfg s')" using P(1) by simp
    show "probing.well_probed cfg (bucket_key s')" "probing.unique_keys cfg (bucket_key s')"
      using probing.insert_well_probed [OF wp slot] cong by simp_all
    show "unat (db_memtable_entry_count s') = card (live_buckets cfg s')"
      using count live' by (simp add: s'_def)
  qed (rule len')
  show "memtable_map cfg s' = (memtable_map cfg s0)(?k \<mapsto> new_record s0 ns sq m)"
  proof
    fix k
    show "memtable_map cfg s' k = ((memtable_map cfg s0)(?k \<mapsto> new_record s0 ns sq m)) k"
    proof (cases "k = ?k")
      case True
      then show ?thesis using memtable_map_bucket [OF inv' P(2) i] nr by simp
    next
      case False
      show ?thesis
      proof (cases "memtable_map cfg s0 k")
        case None
        then have "\<forall>j < ?n. bucket_key s' j \<noteq> Some k"
          using keys False by (auto simp: memtable_map_None [OF inv])
        then show ?thesis using False None by (simp add: memtable_map_None [OF inv', symmetric])
      next
        case (Some r)
        then obtain j where j: "j < ?n" "bucket_holds cfg s0 j r" "record_key r = k"
          using memtable_map_SomeD [OF inv] by blast
        have "j \<noteq> ?i"
        proof
          assume "j = ?i"
          then have "bucket_key s0 ?i = Some k" using bucket_holds_key [OF j(2)] j(3) by simp
          moreover have "bucket_key s0 ?i = Some ?k \<or> bucket_key s0 ?i = None"
            using probing.search_SomeD(2,3) [OF slot] by (cases found) auto
          ultimately show False using False by auto
        qed
        then have "j \<in> ?J" using j by (auto simp: live_buckets_def bucket_holds_def)
        then have "bucket_holds cfg s' j r" using keep j P(3) by blast
        then show ?thesis using memtable_map_bucket [OF inv' _ j(1)] j(3) Some False by auto
      qed
    qed
  qed
qed

text \<open>The arena bytes a key already occupies.\<close>

definition old_size :: "config \<Rightarrow> db \<Rightarrow> u16 \<times> bytes \<Rightarrow> u32" where
  "old_size cfg s k = (case memtable_map cfg s k of None \<Rightarrow> 0 | Some r \<Rightarrow> rec_total_size r)"

lemma memtable_map_old_size:
  assumes "memtable_inv cfg s"
  shows "old_size cfg s k \<le> db_memtable_data_used s"
proof (cases "memtable_map cfg s k")
  case (Some r)
  then obtain j where "bucket_holds cfg s j r" using memtable_map_SomeD [OF assms] by blast
  then have "bucket_start s j + unat (rec_total_size r) \<le> unat (db_memtable_data_used s)"
    by (auto simp: bucket_holds_def bucket_size_def)
  then show ?thesis using Some by (simp add: old_size_def word_le_nat_alt)
qed (simp add: old_size_def)

lemma finite_live [simp]: "finite (live_buckets cfg s)"
  by (simp add: live_buckets_def)

lemma card_live_le: "card (live_buckets cfg s) \<le> unat (cfg_memtable_entry_count cfg)"
  using card_mono [of "{..<unat (cfg_memtable_entry_count cfg)}" "live_buckets cfg s"]
  by (auto simp: live_buckets_def)

lemma valid_config_mask: "valid_config cfg \<Longrightarrow> cfg_memtable_entry_count cfg AND (cfg_memtable_entry_count cfg - 1) = 0"
  by (simp add: valid_config_def)

lemma search_full_card:
  assumes "valid_config cfg"
    "probing.search cfg (bucket_key s) k [0..<unat (cfg_memtable_entry_count cfg)] = None"
  shows "card (live_buckets cfg s) = unat (cfg_memtable_entry_count cfg)"
proof -
  let ?n = "unat (cfg_memtable_entry_count cfg)"
  have "\<not> bucket_empty (db_memtable_index s ! j)" if "j < ?n" for j
  proof -
    obtain p where p: "p < ?n" "key_probe cfg k p = j"
      using bucket_index_surj [OF valid_config_mask [OF assms(1)] \<open>j < ?n\<close>] by (auto simp: key_probe_def)
    then have "bucket_key s j \<noteq> None" using probing.search_full [OF assms(2), of p] by auto
    then show ?thesis by (auto simp: bucket_key_def)
  qed
  then have "live_buckets cfg s = {..<?n}" by (auto simp: live_buckets_def)
  then show ?thesis by simp
qed

lemma retire_record_ready:
  assumes inv: "memtable_inv cfg s" and i: "unat i < unat (cfg_memtable_entry_count cfg)"
    and r: "bucket_holds cfg s (unat i) r"
  shows "ready_for cfg s (retire_record cfg s i) (unat i)"
    "db_memtable_data_used (retire_record cfg s i) = db_memtable_data_used s - rec_total_size r"
    "db_memtable_entry_count (retire_record cfg s i) = db_memtable_entry_count s"
proof -
  obtain st where st: "retire_record cfg s i = remove_memtable_record cfg (s\<lparr>db_stats := st\<rparr>) i"
    using retire_record_remove by blast
  let ?s = "s\<lparr>db_stats := st\<rparr>" and ?J = "live_buckets cfg s" and ?n = "unat (cfg_memtable_entry_count cfg)"
  have ok: "arena_ok cfg ?s ?J" "bucket_holds cfg ?s (unat i) r"
    using inv r by (simp_all add: memtable_inv_def arena_ok_stats)
  have len: "length (db_memtable_index ?s) = ?n" using inv by (simp add: memtable_inv_def)
  have iJ: "unat i \<in> ?J" using r i by (simp add: live_buckets_def bucket_holds_def)
  have JN: "?J \<subseteq> {..<?n}" by (auto simp: live_buckets_def)
  note R = remove_memtable_arena [OF ok(1) iJ JN len ok(2), folded st]
  have empt: "bucket_empty (db_memtable_index (retire_record cfg s i) ! j) = bucket_empty (db_memtable_index s ! j)"
    if "j < ?n" "j \<noteq> unat i" for j
  proof (cases "j \<in> ?J")
    case True
    then obtain r' where "bucket_holds cfg ?s j r'" using ok(1) unfolding arena_ok_def by blast
    then have "bucket_holds cfg (retire_record cfg s i) j r'" using R(2) True that by blast
    then show ?thesis using True by (simp add: bucket_holds_def live_buckets_def)
  next
    case False
    then have "bucket_empty (db_memtable_index s ! j)" using that by (simp add: live_buckets_def)
    then show ?thesis unfolding st using remove_memtable_index [OF len that(1,2)] by (simp add: Let_def)
  qed
  show "ready_for cfg s (retire_record cfg s i) (unat i)"
    unfolding ready_for_def
  proof (intro conjI ballI allI impI)
    show "length (db_memtable_index (retire_record cfg s i)) = ?n"
      using len by (simp add: st remove_memtable_record_def Let_def)
    show "bucket_holds cfg (retire_record cfg s i) j r'"
      if "j \<in> ?J - {unat i}" "bucket_holds cfg s j r'" for j r'
      using R(2) [OF that(1)] that(2) by (simp add: arena_ok_stats)
  qed (use R(1) empt in \<open>simp_all add: st\<close>)
  have "rec_total_size r = mb_record_size (db_memtable_index s ! unat i)"
    using r by (simp add: bucket_holds_def)
  then show "db_memtable_data_used (retire_record cfg s i) = db_memtable_data_used s - rec_total_size r"
    by (simp add: st remove_memtable_record_def Let_def)
  show "db_memtable_entry_count (retire_record cfg s i) = db_memtable_entry_count s"
    by (simp add: st)
qed

lemma retire_table_record_ok:
  assumes "mu_previous_state m \<in> {previous_state_none, previous_state_live, previous_state_tombstone}"
  shows "\<exists>st. retire_table_record s ns m =
    (ESP_OK, s\<lparr>db_stats := st, db_memtable_entry_count := db_memtable_entry_count s + 1\<rparr>)"
proof -
  let ?st = "db_stats s"
    and ?old = "logical_record_size (namespace_size_at s ns) (of_nat (length (mu_key m))) (mu_previous_value_size m)"
  consider "mu_previous_state m = 0" | "mu_previous_state m = 1" | "mu_previous_state m = 2"
    using assms by (auto simp: format_consts)
  then show ?thesis
  proof cases
    case 1
    then have "retire_table_record s ns m = (ESP_OK, s\<lparr>db_stats := ?st,
        db_memtable_entry_count := db_memtable_entry_count s + 1\<rparr>)"
      by (simp add: retire_table_record_def Let_def format_consts)
    then show ?thesis by (rule exI)
  next
    case 2
    then have "retire_table_record s ns m = (ESP_OK, s\<lparr>db_stats :=
        ?st\<lparr>st_live_key_count := st_live_key_count ?st - 1,
            st_logical_value_bytes := st_logical_value_bytes ?st - ucast (mu_previous_value_size m),
            st_logical_state_bytes := st_logical_state_bytes ?st - ?old\<rparr>,
        db_memtable_entry_count := db_memtable_entry_count s + 1\<rparr>)"
      by (simp add: retire_table_record_def Let_def format_consts)
    then show ?thesis by (rule exI)
  next
    case 3
    then have "retire_table_record s ns m = (ESP_OK, s\<lparr>db_stats :=
        ?st\<lparr>st_tombstone_count := st_tombstone_count ?st - 1,
            st_logical_state_bytes := st_logical_state_bytes ?st - ?old\<rparr>,
        db_memtable_entry_count := db_memtable_entry_count s + 1\<rparr>)"
      by (simp add: retire_table_record_def Let_def format_consts)
    then show ?thesis by (rule exI)
  qed
qed

definition mutation_size :: "mutation_slot \<Rightarrow> u32" where
  "mutation_size m = mutation_record_size m (applied_value_size m)"

text \<open>
  One mutation, from any state that satisfies the invariant and has room: the record of the key, and
  no other, is replaced, and the arena grows by the new record less the old one.
\<close>

lemma apply_mutation_correct:
  fixes sq :: u64
  assumes cfg: "valid_config cfg" and inv: "memtable_inv cfg s" and m: "mutation_ok cfg s ns m"
    and prev: "mu_previous_state m \<in> {previous_state_none, previous_state_live, previous_state_tombstone}"
    and room: "unat (db_memtable_data_used s - old_size cfg s (ns, mu_key m)) + unat (mutation_size m)
       \<le> unat (cfg_memtable_data_size cfg)"
    and slot: "memtable_map cfg s (ns, mu_key m) = None \<Longrightarrow>
       unat (db_memtable_entry_count s) < unat (cfg_memtable_entry_count cfg)"
  shows "\<exists>s'. apply_mutation cfg ns sq m s = (ESP_OK, s') \<and> memtable_inv cfg s' \<and>
    memtable_map cfg s' = (memtable_map cfg s)((ns, mu_key m) \<mapsto> new_record s ns sq m) \<and>
    db_memtable_data_used s' = db_memtable_data_used s - old_size cfg s (ns, mu_key m) + mutation_size m \<and>
    db_memtable_entry_count s' = db_memtable_entry_count s +
      (if memtable_map cfg s (ns, mu_key m) = None then 1 else 0) \<and>
    db_namespaces s' = db_namespaces s \<and> db_manifest s' = db_manifest s \<and>
    db_transaction_staging s' = db_transaction_staging s"
proof -
  let ?n = "unat (cfg_memtable_entry_count cfg)" and ?k = "(ns, mu_key m)"
  have key: "valid_name (mu_key m)" and ns: "ucast ns < cfg_max_namespaces cfg"
    using m by (simp_all add: mutation_ok_def)
  have count: "unat (db_memtable_entry_count s) = card (live_buckets cfg s)"
    using inv by (simp add: memtable_inv_def)
  consider (hit) i r where "i < ?n" "bucket_holds cfg s i r" "record_key r = ?k" "memtable_map cfg s ?k = Some r"
      "find_memtable_bucket cfg s ns (mu_key m) = Inr (of_nat i, True)"
    | (miss) i where "memtable_map cfg s ?k = None"
      "probing.search cfg (bucket_key s) ?k [0..<?n] = Some (i, False)" "i < ?n"
      "bucket_empty (db_memtable_index s ! i)" "find_memtable_bucket cfg s ns (mu_key m) = Inr (of_nat i, False)"
    | (full) "memtable_map cfg s ?k = None" "probing.search cfg (bucket_key s) ?k [0..<?n] = None"
    using find_memtable_bucket_cases [OF inv key ns] by metis
  then show ?thesis
  proof cases
    case hit
    define i' :: u32 where "i' = of_nat i"
    have i': "unat i' = i" using hit(1) by (simp add: i'_def of_nat_bucket)
    let ?s1 = "retire_record cfg s i'"
    have hit2: "bucket_holds cfg s (unat i') r" and i2: "unat i' < ?n" using hit i' by simp_all
    note R = retire_record_ready [OF inv i2 hit2]
    have old: "old_size cfg s ?k = rec_total_size r" using hit(4) by (simp add: old_size_def)
    have wp: "probing.well_probed cfg (bucket_key s)" "probing.unique_keys cfg (bucket_key s)"
      using inv by (simp_all add: memtable_inv_def)
    have found: "probing.search cfg (bucket_key s) ?k [0..<?n] = Some (unat i', True)"
      using probing.search_hit [OF wp hit(1)] bucket_holds_key [OF hit(2)] hit(3) i' by simp
    have live: "insert (unat i') (live_buckets cfg s) = live_buckets cfg s"
      using hit2 i2 by (auto simp: live_buckets_def bucket_holds_def)
    have room1: "unat (db_memtable_data_used ?s1) + unat (mutation_record_size m (applied_value_size m))
        \<le> unat (cfg_memtable_data_size cfg)"
      using room old R(2) by (simp add: mutation_size_def)
    have count1: "unat (db_memtable_entry_count ?s1) = card (insert (unat i') (live_buckets cfg s))"
      using count R(3) live by simp
    note P = publish_record_correct [OF inv R(1) i2 found m room1 count1, of sq]
    have "apply_mutation cfg ns sq m s = (ESP_OK, publish_record ?s1 ns sq m i')"
      using hit(5) by (simp add: apply_mutation_def i'_def)
    moreover have "db_namespaces ?s1 = db_namespaces s" "db_manifest ?s1 = db_manifest s"
      "db_transaction_staging ?s1 = db_transaction_staging s"
      using R(1) by (simp_all add: ready_for_def)
    ultimately show ?thesis
      using P R(2,3) old hit(4) by (intro exI [of _ "publish_record ?s1 ns sq m i'"]) (simp add: mutation_size_def)
  next
    case miss
    define i' :: u32 where "i' = of_nat i"
    have i': "unat i' = i" using miss(3) by (simp add: i'_def of_nat_bucket)
    obtain st where st: "retire_table_record s ns m =
      (ESP_OK, s\<lparr>db_stats := st, db_memtable_entry_count := db_memtable_entry_count s + 1\<rparr>)" (is "_ = (_, ?s1)")
      using retire_table_record_ok [OF prev] by blast
    have notlive: "i \<notin> live_buckets cfg s" using miss(4) by (simp add: live_buckets_def)
    have ready: "ready_for cfg s ?s1 (unat i')"
      using inv notlive i' by (simp add: ready_for_def memtable_inv_def arena_ok_stats)
    have i2: "unat i' < ?n" using i' miss(3) by simp
    have found: "probing.search cfg (bucket_key s) ?k [0..<?n] = Some (unat i', False)"
      using miss(2) i' by simp
    have room1: "unat (db_memtable_data_used ?s1) + unat (mutation_record_size m (applied_value_size m))
        \<le> unat (cfg_memtable_data_size cfg)"
      using room miss(1) by (simp add: mutation_size_def old_size_def)
    have "unat (db_memtable_entry_count s) + 1 < 2 ^ 32"
      using slot [OF miss(1)] unat_bound32 [of "cfg_memtable_entry_count cfg"] by simp
    then have count1: "unat (db_memtable_entry_count ?s1) = card (insert (unat i') (live_buckets cfg s))"
      using count notlive i' by (simp add: unat_add_exact)
    note P = publish_record_correct [OF inv ready i2 found m room1 count1, of sq]
    have "of_nat i \<noteq> (- 1 :: u32)"
    proof
      assume "of_nat i = (- 1 :: u32)"
      then have "i = unat (- 1 :: u32)" using i' i'_def by simp
      then have "i = 2 ^ 32 - 1" by (simp add: unat_max_word)
      moreover have "unat (cfg_memtable_entry_count cfg) < 2 ^ 32" by (rule unat_bound32)
      ultimately show False using miss(3) by simp
    qed
    then have "apply_mutation cfg ns sq m s = (ESP_OK, publish_record ?s1 ns sq m i')"
      using miss(5) st by (simp add: apply_mutation_def i'_def)
    then show ?thesis
      using P miss(1) by (intro exI [of _ "publish_record ?s1 ns sq m i'"]) (simp add: mutation_size_def old_size_def)
  next
    case full
    then show ?thesis
      using search_full_card [OF cfg full(2)] slot [OF full(1)] count by simp
  qed
qed

section \<open>A transaction that passed preflight applies completely\<close>

definition apply_map ::
  "db \<Rightarrow> u16 \<Rightarrow> u64 \<Rightarrow> mutation_slot list \<Rightarrow> (u16 \<times> bytes \<Rightarrow> memtable_record option) \<Rightarrow>
     u16 \<times> bytes \<Rightarrow> memtable_record option" where
  "apply_map s ns sq ms f = fold (\<lambda>m f. f((ns, mu_key m) \<mapsto> new_record s ns sq m)) ms f"

lemma apply_map_Cons: "apply_map s ns sq (m # ms) f = apply_map s ns sq ms (f((ns, mu_key m) \<mapsto> new_record s ns sq m))"
  by (simp add: apply_map_def)

lemma apply_map_other:
  "k \<notin> (\<lambda>m. (ns, mu_key m)) ` set ms \<Longrightarrow> apply_map s ns sq ms f k = f k"
  by (induction ms arbitrary: f) (auto simp: apply_map_def)

lemma apply_map_key:
  assumes "distinct (map mu_key ms)" "m \<in> set ms"
  shows "apply_map s ns sq ms f (ns, mu_key m) = Some (new_record s ns sq m)"
  using assms
proof (induction ms arbitrary: f)
  case Nil
  then show ?case by simp
next
  case (Cons m' ms)
  show ?case
  proof (cases "m = m'")
    case True
    then have "(ns, mu_key m) \<notin> (\<lambda>m. (ns, mu_key m)) ` set ms" using Cons.prems by auto
    then show ?thesis using True by (simp add: apply_map_Cons apply_map_other)
  next
    case False
    then show ?thesis using Cons by (simp add: apply_map_Cons)
  qed
qed

text \<open>What the preflight of one mutation checked, in terms of the map.\<close>

lemma preflight_mutation_InrD:
  assumes inv: "memtable_inv cfg s" and m: "mutation_ok cfg s1 ns m"
    and pf: "preflight_mutation cfg s tables name ns m (fb, fe, fl) = (Inr (fb', fe', fl'), m')"
  shows "mu_key m' = mu_key m" "mutation_size m' = mutation_size m" "mutation_ok cfg s1 ns m'"
    "new_record s2 ns sq m' = new_record s2 ns sq m"
    "mu_previous_state m' \<in> {previous_state_none, previous_state_live, previous_state_tombstone}"
    "fb' = fb - old_size cfg s (ns, mu_key m) + mutation_size m"
    "mutation_size m \<le> cfg_memtable_data_size cfg - (fb - old_size cfg s (ns, mu_key m))"
    "fe' = fe + (if memtable_map cfg s (ns, mu_key m) = None then 1 else 0)"
proof -
  have key: "valid_name (mu_key m)" and ns: "ucast ns < cfg_max_namespaces cfg"
    and kind: "mu_kind m = mutation_kind_set \<or> mu_kind m = mutation_kind_tombstone"
    using m by (simp_all add: mutation_ok_def)
  obtain st sz fb1 fe1 where prev1: "preflight_previous cfg s tables name ns m fb fe = Inr (st, sz, fb1, fe1)"
    using pf by (cases "preflight_previous cfg s tables name ns m fb fe") (auto simp: preflight_mutation_def)
  define m1 where "m1 = m\<lparr>mu_previous_state := st, mu_previous_value_size := sz\<rparr>"
  have rs: "mutation_value_size m1 = mutation_value_size m"
    "mutation_record_size m1 v = mutation_record_size m v" for v
    by (simp_all add: m1_def mutation_value_size_def mutation_record_size_def)
  have all: "m' = m1 \<and> fe' = fe1 \<and>
      mutation_record_size m (mutation_value_size m) \<le> cfg_memtable_data_size cfg - fb1 \<and>
      fb' = fb1 + mutation_record_size m (mutation_value_size m)"
    using pf prev1 unfolding preflight_mutation_def
    by (simp add: Let_def m1_def [symmetric] rs not_less split: if_split_asm)
  then have m': "m' = m\<lparr>mu_previous_state := st, mu_previous_value_size := sz\<rparr>"
    and sizes: "mutation_record_size m (mutation_value_size m) \<le> cfg_memtable_data_size cfg - fb1"
      "fb' = fb1 + mutation_record_size m (mutation_value_size m)"
    and prev: "preflight_previous cfg s tables name ns m fb fe = Inr (st, sz, fb1, fe')"
    using prev1 by (simp_all add: m1_def)
  have vs: "mutation_value_size m = applied_value_size m"
    using kind by (auto simp: mutation_value_size_def applied_value_size_def mutation_tombstone_def format_consts)
  have P: "st \<in> {previous_state_none, previous_state_live, previous_state_tombstone} \<and>
    fb1 = fb - old_size cfg s (ns, mu_key m) \<and>
    fe' = fe + (if memtable_map cfg s (ns, mu_key m) = None then 1 else 0)"
    using find_memtable_bucket_cases [OF inv key ns]
  proof (elim disjE exE conjE)
    fix i r assume hit: "i < unat (cfg_memtable_entry_count cfg)" "bucket_holds cfg s i r"
      "memtable_map cfg s (ns, mu_key m) = Some r" "find_memtable_bucket cfg s ns (mu_key m) = Inr (of_nat i, True)"
    then have "mb_record_size (db_memtable_index s ! i) = rec_total_size r" by (simp add: bucket_holds_def)
    then show ?thesis
      using prev hit of_nat_bucket [OF hit(1)] by (auto simp: preflight_previous_def Let_def old_size_def split: if_splits)
  qed (use prev in \<open>auto simp: preflight_previous_def old_size_def split: sum.splits if_splits\<close>)
  show "mu_key m' = mu_key m" by (simp add: m')
  have av: "applied_value_size m' = applied_value_size m"
    by (simp add: m' applied_value_size_def mutation_tombstone_def)
  then show "mutation_size m' = mutation_size m"
    unfolding mutation_size_def mutation_record_size_def by (simp add: m')
  show "mutation_ok cfg s1 ns m'"
    using m av unfolding mutation_ok_def inline_applied_size_def by (auto simp: m' split: if_splits)
  show "new_record s2 ns sq m' = new_record s2 ns sq m"
    unfolding new_record_def av mutation_record_size_def mutation_tombstone_def by (simp add: m')
  show "mu_previous_state m' \<in> {previous_state_none, previous_state_live, previous_state_tombstone}"
    "fe' = fe + (if memtable_map cfg s (ns, mu_key m) = None then 1 else 0)"
    using P by (auto simp: m')
  show "fb' = fb - old_size cfg s (ns, mu_key m) + mutation_size m"
    "mutation_size m \<le> cfg_memtable_data_size cfg - (fb - old_size cfg s (ns, mu_key m))"
    using P sizes vs by (simp_all add: mutation_size_def)
qed

text \<open>The preflight of a sequence only writes the previous states it found.\<close>

definition staged_ok :: "config \<Rightarrow> db \<Rightarrow> u16 \<Rightarrow> nat list \<Rightarrow> transaction_slot \<Rightarrow> bool" where
  "staged_ok cfg s ns idxs t \<longleftrightarrow>
     (\<forall>i \<in> set idxs. i < length (tx_mutations t) \<and> mutation_ok cfg s ns (tx_mutations t ! i)) \<and>
     distinct (map (\<lambda>i. mu_key (tx_mutations t ! i)) idxs)"

lemma staged_ok_update:
  assumes "staged_ok cfg s ns (i # is) t"
  shows "staged_ok cfg s ns is (t\<lparr>tx_mutations := (tx_mutations t)[i := m]\<rparr>)"
proof -
  have "i \<notin> set is" using assms by (auto simp: staged_ok_def)
  then have "\<forall>j \<in> set is. (tx_mutations t)[i := m] ! j = tx_mutations t ! j"
    by (metis nth_list_update_neq)
  then show ?thesis using assms by (auto simp: staged_ok_def cong: map_cong)
qed

lemma preflight_mutations_keep:
  assumes "preflight_mutations cfg s tables name ns idxs t totals = (r, t')" "i \<notin> set idxs"
  shows "tx_mutations t' ! i = tx_mutations t ! i" "length (tx_mutations t') = length (tx_mutations t)"
    "tx_mutation_count t' = tx_mutation_count t"
proof -
  have "tx_mutations t' ! i = tx_mutations t ! i \<and> length (tx_mutations t') = length (tx_mutations t) \<and>
    tx_mutation_count t' = tx_mutation_count t"
    using assms by (induction idxs arbitrary: t totals) (auto split: prod.splits sum.splits)
  then show "tx_mutations t' ! i = tx_mutations t ! i" "length (tx_mutations t') = length (tx_mutations t)"
    "tx_mutation_count t' = tx_mutation_count t" by simp_all
qed

lemma preflight_mutations_entries:
  assumes "memtable_inv cfg s" "staged_ok cfg s1 ns idxs t" "unat fe + length idxs < 2 ^ 32"
    "preflight_mutations cfg s tables name ns idxs t (fb, fe, fl) = (Inr (fb', fe', fl'), t')"
  shows "unat fe \<le> unat fe'"
  using assms(2-)
proof (induction idxs arbitrary: t fb fe fl)
  case Nil
  then show ?case by simp
next
  case (Cons i idxs)
  obtain fb1 fe1 fl1 m where pf: "preflight_mutation cfg s tables name ns (tx_mutations t ! i) (fb, fe, fl) =
      (Inr (fb1, fe1, fl1), m)"
    and rest: "preflight_mutations cfg s tables name ns idxs (t\<lparr>tx_mutations := (tx_mutations t)[i := m]\<rparr>)
      (fb1, fe1, fl1) = (Inr (fb', fe', fl'), t')"
    using Cons.prems(3) by (auto split: prod.splits sum.splits)
  have ok: "mutation_ok cfg s1 ns (tx_mutations t ! i)" using Cons.prems(1) by (simp add: staged_ok_def)
  have fe1: "unat fe \<le> unat fe1" "unat fe1 \<le> unat fe + 1"
    using preflight_mutation_InrD(8) [OF assms(1) ok pf] Cons.prems(2) by (auto simp: unat_add_exact)
  have "unat fe1 \<le> unat fe'"
    using Cons.IH [OF staged_ok_update [OF Cons.prems(1)] _ rest] fe1 Cons.prems(2) by simp
  then show ?case using fe1 by simp
qed

lemma memtable_stats [simp]:
  "memtable_inv cfg (s\<lparr>db_stats := st\<rparr>) = memtable_inv cfg s"
  "memtable_map cfg (s\<lparr>db_stats := st\<rparr>) = memtable_map cfg s"
proof -
  have key: "bucket_key (s\<lparr>db_stats := st\<rparr>) = bucket_key s" "live_buckets cfg (s\<lparr>db_stats := st\<rparr>) = live_buckets cfg s"
    by (rule ext, simp add: bucket_key_def bucket_start_def) (simp add: live_buckets_def)
  then show "memtable_inv cfg (s\<lparr>db_stats := st\<rparr>) = memtable_inv cfg s"
    by (simp add: memtable_inv_def arena_ok_stats)
  show "memtable_map cfg (s\<lparr>db_stats := st\<rparr>) = memtable_map cfg s"
    by (rule ext) (simp add: memtable_map_def key bucket_start_def split: option.splits)
qed

lemma preflight_then_apply_mutations:
  fixes sq :: u64
  assumes cfg: "valid_config cfg" and inv0: "memtable_inv cfg s"
    and "staged_ok cfg s1 ns idxs t" "unat fe + length idxs < 2 ^ 32"
    and "preflight_mutations cfg s tables name ns idxs t (fb, fe, fl) = (Inr (fb', fe', fl'), t')"
    and "fe' \<le> cfg_memtable_entry_count cfg"
    and "memtable_inv cfg s1" "db_memtable_data_used s1 = fb" "db_memtable_entry_count s1 = fe"
    and "\<forall>i \<in> set idxs. memtable_map cfg s1 (ns, mu_key (tx_mutations t ! i)) =
         memtable_map cfg s (ns, mu_key (tx_mutations t ! i))"
  shows "\<exists>s'. apply_mutations cfg ns sq (map (\<lambda>i. tx_mutations t' ! i) idxs) s1 = (ESP_OK, s') \<and>
    memtable_inv cfg s' \<and>
    memtable_map cfg s' = apply_map s1 ns sq (map (\<lambda>i. tx_mutations t ! i) idxs) (memtable_map cfg s1) \<and>
    db_memtable_data_used s' = fb' \<and> db_memtable_entry_count s' = fe' \<and>
    db_namespaces s' = db_namespaces s1 \<and> db_manifest s' = db_manifest s1"
  using assms(3-)
proof (induction idxs arbitrary: t fb fe fl s1)
  case Nil
  then show ?case
    by (simp add: apply_map_def)
next
  case (Cons i idxs)
  let ?m = "tx_mutations t ! i" and ?k = "(ns, mu_key (tx_mutations t ! i))"
  obtain fb1 fe1 fl1 m where pf: "preflight_mutation cfg s tables name ns ?m (fb, fe, fl) = (Inr (fb1, fe1, fl1), m)"
    and rest: "preflight_mutations cfg s tables name ns idxs (t\<lparr>tx_mutations := (tx_mutations t)[i := m]\<rparr>)
      (fb1, fe1, fl1) = (Inr (fb', fe', fl'), t')" (is "preflight_mutations _ _ _ _ _ _ ?t _ = _")
    using Cons.prems(3) by (auto split: prod.splits sum.splits)
  have ok: "mutation_ok cfg s1 ns ?m" and i: "i < length (tx_mutations t)" "i \<notin> set idxs"
    and keys: "\<forall>j \<in> set idxs. mu_key (tx_mutations t ! j) \<noteq> mu_key ?m"
    using Cons.prems(1) by (auto simp: staged_ok_def) (metis imageI)
  note D = preflight_mutation_InrD [OF inv0 ok pf]
  have ti: "tx_mutations t' ! i = m" using preflight_mutations_keep(1) [OF rest i(2)] i(1) by simp
  have tj: "tx_mutations ?t ! j = tx_mutations t ! j" if "j \<in> set idxs" for j
    using that i(2) by (metis nth_list_update_neq transaction_slot.select_convs(7) transaction_slot.surjective
        transaction_slot.update_convs(7))
  have same: "memtable_map cfg s1 ?k = memtable_map cfg s ?k" using Cons.prems(8) by simp
  then have old: "old_size cfg s1 ?k = old_size cfg s ?k" by (simp add: old_size_def)
  have le: "old_size cfg s1 ?k \<le> fb" using memtable_map_old_size [OF Cons.prems(5)] Cons.prems(6) by metis
  have used: "db_memtable_data_used s1 \<le> cfg_memtable_data_size cfg"
    using Cons.prems(5) by (simp add: memtable_inv_def arena_ok_def)
  have room: "unat (db_memtable_data_used s1 - old_size cfg s1 (ns, mu_key m)) + unat (mutation_size m)
      \<le> unat (cfg_memtable_data_size cfg)"
  proof -
    have "fb - old_size cfg s ?k \<le> cfg_memtable_data_size cfg"
      using le used old Cons.prems(6) by (auto simp: word_le_nat_alt word_sub_unat)
    then show ?thesis
      using D(1,2,7) Cons.prems(6) old by (auto simp: word_le_nat_alt word_sub_unat)
  qed
  have fe1: "unat fe1 = unat fe + (if memtable_map cfg s1 ?k = None then 1 else 0)"
    using D(8) Cons.prems(2) same by (simp add: unat_add_exact)
  have upd: "staged_ok cfg s1 ns idxs ?t" by (rule staged_ok_update [OF Cons.prems(1)])
  have le1: "unat fe1 \<le> unat fe'"
    using preflight_mutations_entries [OF inv0 upd _ rest] fe1 Cons.prems(2) by simp
  have slot: "unat (db_memtable_entry_count s1) < unat (cfg_memtable_entry_count cfg)"
    if "memtable_map cfg s1 (ns, mu_key m) = None"
    using that fe1 le1 Cons.prems(4,7) D(1) by (simp add: word_le_nat_alt)
  obtain s2 where s2: "apply_mutation cfg ns sq m s1 = (ESP_OK, s2)" "memtable_inv cfg s2"
    "memtable_map cfg s2 = (memtable_map cfg s1)(?k \<mapsto> new_record s1 ns sq m)"
    "db_memtable_data_used s2 = fb1" "db_memtable_entry_count s2 = fe1"
    "db_namespaces s2 = db_namespaces s1" "db_manifest s2 = db_manifest s1"
    "db_transaction_staging s2 = db_transaction_staging s1"
    using apply_mutation_correct [OF cfg Cons.prems(5) D(3) D(5) room slot, of sq] D(1,2,6,8) same old
      Cons.prems(6,7) by auto
  have mok: "mutation_ok cfg s2 ns x = mutation_ok cfg s1 ns x" for x
    using s2(6,7) by (simp add: mutation_ok_def active_bank_ref_def)
  have nr: "new_record s2 ns sq x = new_record s1 ns sq x" for x by (rule new_record_cong) (rule s2(8))
  have bound: "unat fe1 + length idxs < 2 ^ 32" using fe1 Cons.prems(2) by (auto split: if_splits)
  have upd2: "staged_ok cfg s2 ns idxs ?t" using upd by (simp add: staged_ok_def mok)
  have agree: "\<forall>j \<in> set idxs. memtable_map cfg s2 (ns, mu_key (tx_mutations ?t ! j)) =
         memtable_map cfg s (ns, mu_key (tx_mutations ?t ! j))"
    using Cons.prems(8) keys tj s2(3) by auto
  obtain s' where s': "apply_mutations cfg ns sq (map (\<lambda>i. tx_mutations t' ! i) idxs) s2 = (ESP_OK, s')"
    "memtable_inv cfg s'"
    "memtable_map cfg s' = apply_map s2 ns sq (map (\<lambda>i. tx_mutations ?t ! i) idxs) (memtable_map cfg s2)"
    "db_memtable_data_used s' = fb'" "db_memtable_entry_count s' = fe'"
    "db_namespaces s' = db_namespaces s2" "db_manifest s' = db_manifest s2"
    using Cons.IH [OF upd2 bound rest Cons.prems(4) s2(2,4,5) agree] by auto
  have mm: "map (\<lambda>i. tx_mutations ?t ! i) idxs = map (\<lambda>i. tx_mutations t ! i) idxs"
    by (rule map_cong [OF refl]) (rule tj)
  have "memtable_map cfg s' = apply_map s1 ns sq (map (\<lambda>i. tx_mutations t ! i) (i # idxs)) (memtable_map cfg s1)"
    using s'(3) [unfolded mm] s2(3) by (simp add: apply_map_def nr D(4))
  then show ?case
    using s' s2 ti by (intro exI [of _ s']) simp
qed

section \<open>Namespace registration\<close>

lemma find_namespace_InrD:
  assumes "find_namespace cfg s name = Inr ns"
  shows "unat ns < unat (cfg_max_namespaces cfg) \<or> 2 ^ 16 \<le> unat (cfg_max_namespaces cfg)"
    "valid_config cfg \<Longrightarrow> ucast ns < cfg_max_namespaces cfg \<and> ns_used (db_namespaces s ! unat ns) \<and>
       ns_name (db_namespaces s ! unat ns) = name"
proof -
  obtain i where i: "i < unat (cfg_max_namespaces cfg)" "ns_used (db_namespaces s ! i)"
    "length (ns_name (db_namespaces s ! i)) = length name"
    "memcmp (ns_name (db_namespaces s ! i)) name (length name) = 0" "ns = of_nat i"
    using assms by (auto simp: find_namespace_def find_Some_iff split: if_splits option.splits)
  have name: "ns_name (db_namespaces s ! i) = name"
    using i(3,4) by (simp add: memcmp_def mem_cmp_0_iff)
  show "unat ns < unat (cfg_max_namespaces cfg) \<or> 2 ^ 16 \<le> unat (cfg_max_namespaces cfg)"
    using i(1,5) by (auto simp: unat_of_nat not_le)
  assume "valid_config cfg"
  then have "cfg_max_namespaces cfg \<le> 0xFFFF" by (simp add: valid_config_def)
  then have "i < 2 ^ 16" using i(1) by (simp add: word_le_nat_alt)
  then have "unat ns = i" by (simp add: i(5))
  moreover have "unat (ucast ns :: u32) = unat ns"
    using unat_less_pow [of ns] by (simp add: unsigned_ucast_eq take_bit_nat_eq_self)
  ultimately show "ucast ns < cfg_max_namespaces cfg \<and> ns_used (db_namespaces s ! unat ns) \<and>
       ns_name (db_namespaces s ! unat ns) = name"
    using i name by (simp add: word_less_nat_alt)
qed

lemma ensure_namespace_fields:
  assumes "ensure_namespace_capacity cfg s name True = (Inr ns, s1)"
  shows "db_memtable_index s1 = db_memtable_index s" "db_memtable_data s1 = db_memtable_data s"
    "db_memtable_data_used s1 = db_memtable_data_used s" "db_memtable_entry_count s1 = db_memtable_entry_count s"
    "db_manifest s1 = db_manifest s" "db_transaction_staging s1 = db_transaction_staging s"
    "\<And>i. ns_used (db_namespaces s ! i) \<Longrightarrow> db_namespaces s1 ! i = db_namespaces s ! i"
proof -
  show "db_memtable_index s1 = db_memtable_index s" "db_memtable_data s1 = db_memtable_data s"
    "db_memtable_data_used s1 = db_memtable_data_used s" "db_memtable_entry_count s1 = db_memtable_entry_count s"
    "db_manifest s1 = db_manifest s" "db_transaction_staging s1 = db_transaction_staging s"
    using assms by (auto simp: ensure_namespace_capacity_def split: if_splits sum.splits option.splits)
  show "db_namespaces s1 ! i = db_namespaces s ! i" if "ns_used (db_namespaces s ! i)" for i
    using assms that
    by (auto simp: ensure_namespace_capacity_def find_Some_iff split: if_splits sum.splits option.splits)
       (metis nth_list_update_neq)
qed

lemma ensure_namespace_inv:
  assumes "memtable_inv cfg s" "ensure_namespace_capacity cfg s name True = (Inr ns, s1)"
  shows "memtable_inv cfg s1" "memtable_map cfg s1 = memtable_map cfg s"
proof -
  note F = ensure_namespace_fields [OF assms(2)]
  have starts: "bucket_start s1 = bucket_start s" "bucket_size s1 = bucket_size s"
    by (rule ext, simp add: bucket_start_def bucket_size_def F)+
  have key: "bucket_key s1 = bucket_key s" "live_buckets cfg s1 = live_buckets cfg s"
    by (rule ext, simp add: bucket_key_def F starts) (simp add: live_buckets_def F)
  have "record_ok cfg s1 r" if "record_ok cfg s r" for r
    using that F(5,7) by (simp add: record_ok_def active_bank_ref_def)
  then have "bucket_holds cfg s1 j r" if "bucket_holds cfg s j r" for j r
    using that by (simp add: bucket_holds_def F starts)
  then have "arena_ok cfg s1 J" if "arena_ok cfg s J" for J
    using that unfolding arena_ok_def by (metis F(3) starts)
  then show "memtable_inv cfg s1"
    using assms(1) by (simp add: memtable_inv_def key F)
  show "memtable_map cfg s1 = memtable_map cfg s"
    by (rule ext) (simp add: memtable_map_def key starts F split: option.splits)
qed

lemma entry_count_room:
  assumes "valid_config cfg" "memtable_inv cfg s" "n < 2 ^ 16"
  shows "unat (db_memtable_entry_count s) + n < 2 ^ 32"
proof -
  let ?c = "cfg_memtable_entry_count cfg"
  have "16 \<le> ?c" using assms(1) by (simp add: valid_config_def)
  then have "?c \<noteq> 0" by auto
  then obtain k where "k < 32" "?c = 2 ^ k"
    using pow2_word [of ?c] valid_config_mask [OF assms(1)] by auto
  then have k: "?c = of_nat (2 ^ k)" "k \<le> 31" by simp_all
  have "(2 :: nat) ^ k \<le> 2 ^ 31" using k(2) by (intro power_increasing) auto
  then have "unat ?c \<le> 2 ^ 31"
    unfolding k(1) by (subst unat_of_nat_eq) auto
  moreover have "unat (db_memtable_entry_count s) \<le> unat ?c"
    using assms(2) card_live_le [of cfg s] by (simp add: memtable_inv_def)
  ultimately show ?thesis using assms(3) by simp
qed

text \<open>
  The contract between preflight and application: a transaction the preflight admits, applied after
  its namespace is published, succeeds completely, keeps the invariant, and its effect on the map is
  exactly its mutations.
\<close>

lemma preflight_then_apply:
  fixes sq :: u64
  assumes cfg: "valid_config cfg" and inv: "memtable_inv cfg s"
    and publish: "ensure_namespace_capacity cfg s name True = (Inr ns, s1)"
    and staged: "staged_ok cfg s1 ns [0..<unat (tx_mutation_count t)] t"
    and preflight: "preflight_memtable_transaction cfg s tables t name = (Inr ns', t')"
  shows "ns' = ns \<and> (\<exists>s'. apply_transaction_to_memtable cfg t' ns sq s1 = (ESP_OK, s') \<and>
    memtable_inv cfg s' \<and>
    memtable_map cfg s' =
      apply_map s1 ns sq (take (unat (tx_mutation_count t)) (tx_mutations t)) (memtable_map cfg s) \<and>
    db_namespaces s' = db_namespaces s1 \<and> db_manifest s' = db_manifest s)"
proof -
  let ?n = "unat (tx_mutation_count t)"
  have same: "fst (ensure_namespace_capacity cfg s name False) = Inr ns"
    using publish by (auto simp: ensure_namespace_capacity_def split: if_splits sum.splits option.splits)
  note F = ensure_namespace_fields [OF publish] and I = ensure_namespace_inv [OF inv publish]
  obtain fb' fe' fl' where pf: "preflight_mutations cfg s tables name ns [0..<?n] t
      (db_memtable_data_used s, db_memtable_entry_count s, st_logical_state_bytes (db_stats s)) =
      (Inr (fb', fe', fl'), t')"
    and fe: "fe' \<le> cfg_memtable_entry_count cfg" and ns': "ns' = ns"
    using preflight same
    by (auto simp: preflight_memtable_transaction_def not_less split: if_splits prod.splits sum.splits)
  have n16: "?n < 2 ^ 16" using unat_less_pow [of "tx_mutation_count t"] by simp
  have bound: "unat (db_memtable_entry_count s) + length [0..<?n] < 2 ^ 32"
    using entry_count_room [OF cfg inv n16] by simp
  have len: "?n \<le> length (tx_mutations t)"
    using staged by (cases ?n) (auto simp: staged_ok_def)
  have tk: "map (\<lambda>i. tx_mutations u ! i) [0..<?n] = take ?n (tx_mutations u)"
    if "?n \<le> length (tx_mutations u)" for u
    using that by (intro nth_equalityI) auto
  have t': "length (tx_mutations t') = length (tx_mutations t)" "tx_mutation_count t' = tx_mutation_count t"
    using preflight_mutations_keep(2,3) [OF pf, of ?n] by simp_all
  show ?thesis
    using preflight_then_apply_mutations [OF cfg inv staged bound pf fe I(1) F(3,4), of sq] I(2) F(5) tk [of t] tk [of t']
      len t' ns' by (auto simp: apply_transaction_to_memtable_def)
qed

section \<open>Lookup reads the map\<close>

lemma lookup_memtable_map:
  assumes "valid_config cfg" "memtable_inv cfg s" "find_namespace cfg s name = Inr ns" "valid_name key"
  shows "lookup_memtable cfg s name key =
    (case memtable_map cfg s (ns, key) of None \<Rightarrow> Inl ESP_ERR_NOT_FOUND | Some r \<Rightarrow> Inr (record_view r))"
proof -
  have ns: "ucast ns < cfg_max_namespaces cfg" using find_namespace_InrD(2) [OF assms(3,1)] by simp
  from find_memtable_bucket_cases [OF assms(2,4) ns] show ?thesis
  proof (elim disjE exE conjE)
    fix i r assume "i < unat (cfg_memtable_entry_count cfg)" "bucket_holds cfg s i r"
      "memtable_map cfg s (ns, key) = Some r" "find_memtable_bucket cfg s ns key = Inr (of_nat i, True)"
    then show ?thesis
      using assms(3,4) of_nat_bucket [of i cfg]
      by (simp add: lookup_memtable_def bucket_record_def bucket_holds_def bucket_start_def)
  qed (use assms(3,4) in \<open>simp_all add: lookup_memtable_def\<close>)
qed

lemma reset_memtable_inv:
  "memtable_inv cfg (reset_memtable cfg s)" "memtable_map cfg (reset_memtable cfg s) k = None"
proof -
  let ?s = "reset_memtable cfg s"
  have e: "bucket_empty (db_memtable_index ?s ! j)" if "j < unat (cfg_memtable_entry_count cfg)" for j
    using that by (simp add: reset_memtable_def bucket_empty_def)
  then have live: "live_buckets cfg ?s = {}" and key: "\<forall>j < unat (cfg_memtable_entry_count cfg). bucket_key ?s j = None"
    by (auto simp: live_buckets_def bucket_key_def)
  show inv: "memtable_inv cfg ?s"
    using live key by (simp add: memtable_inv_def arena_ok_def probing.well_probed_def
        probing.unique_keys_def) (simp add: reset_memtable_def)
  show "memtable_map cfg ?s k = None" using key by (simp add: memtable_map_None [OF inv])
qed

end
