(* ===== verification/Memtable_Correctness.thy ===== *)
theory Memtable_Correctness
  imports Memtable Format_Correctness
begin

text \<open>
  The properties of the memtable and of the namespace registry: registration of a namespace, the
  contract between the preflight of a transaction and its application, and what lookups see
  afterwards.
\<close>

section \<open>Namespaces\<close>

lemma find_namespace_iff:
  assumes "valid_name name"
  shows "find_namespace cfg s name =
    (case find (\<lambda>i. ns_used (db_namespaces s ! i) \<and> ns_name (db_namespaces s ! i) = name)
       [0..<unat (cfg_max_namespaces cfg)] of None \<Rightarrow> Inl ESP_ERR_NOT_FOUND | Some i \<Rightarrow> Inr (of_nat i))"
proof -
  have "length x = length name \<and> memcmp x name (length name) = 0 \<longleftrightarrow> x = name" for x
    by (auto simp: memcmp_def mem_cmp_0_iff)
  then show ?thesis using assms by (simp add: find_namespace_def conj_assoc cong: option.case_cong)
qed

lemma find_upt_cong:
  "(\<And>i. i < n \<Longrightarrow> P i = Q i) \<Longrightarrow> find P [0..<n] = find Q [0..<n]"
  by (rule find_cong) auto

lemma registered_namespace:
  assumes "ensure_namespace_capacity cfg s name True = (Inr ns, s')"
    "length (db_namespaces s) = unat (cfg_max_namespaces cfg)"
  shows "find_namespace cfg s' name = Inr ns \<and>
    (\<forall>ns0. find_namespace cfg s name = Inr ns0 \<longrightarrow> ns = ns0 \<and> s' = s) \<and>
    (\<forall>other. other \<noteq> name \<longrightarrow> find_namespace cfg s' other = find_namespace cfg s other)"
proof -
  let ?n = "unat (cfg_max_namespaces cfg)"
  have name: "valid_name name" using assms(1) by (auto simp: ensure_namespace_capacity_def split: if_splits)
  show ?thesis
  proof (cases "find_namespace cfg s name")
    case (Inr ns0)
    then show ?thesis using assms(1) name by (simp add: ensure_namespace_capacity_def)
  next
    case (Inl e)
    then have none: "find (\<lambda>i. ns_used (db_namespaces s ! i) \<and> ns_name (db_namespaces s ! i) = name) [0..<?n] = None"
      using name by (auto simp: find_namespace_iff split: option.splits)
    obtain i where i: "find (\<lambda>i. \<not> ns_used (db_namespaces s ! i)) [0..<?n] = Some i" "ns = of_nat i"
      "db_namespaces s' = (db_namespaces s)[i := \<lparr>ns_used = True, ns_name = name\<rparr>]"
      using assms(1) Inl name by (auto simp: ensure_namespace_capacity_def split: if_splits option.splits)
    then have i2: "i < ?n" "\<not> ns_used (db_namespaces s ! i)" by (auto simp: find_Some_iff)
    have at: "db_namespaces s' ! j = (if j = i then \<lparr>ns_used = True, ns_name = name\<rparr> else db_namespaces s ! j)"
      if "j < ?n" for j using that i(3) i2(1) assms(2) by (auto simp: nth_list_update)
    have "find (\<lambda>j. ns_used (db_namespaces s' ! j) \<and> ns_name (db_namespaces s' ! j) = name) [0..<?n] =
        find (\<lambda>j. j = i) [0..<?n]"
      using none by (intro find_upt_cong) (auto simp: at find_None_iff)
    moreover have "find (\<lambda>j. j = i) [0..<?n] = Some i"
      unfolding find_Some_iff using i2(1) by (intro exI [of _ i]) auto
    ultimately have "find_namespace cfg s' name = Inr ns" using name i(2) by (simp add: find_namespace_iff)
    moreover have "find_namespace cfg s' other = find_namespace cfg s other" if "other \<noteq> name" for other
    proof (cases "valid_name other")
      case True
      have "find (\<lambda>j. ns_used (db_namespaces s' ! j) \<and> ns_name (db_namespaces s' ! j) = other) [0..<?n] =
        find (\<lambda>j. ns_used (db_namespaces s ! j) \<and> ns_name (db_namespaces s ! j) = other) [0..<?n]"
        using that i2 by (intro find_upt_cong) (auto simp: at)
      then show ?thesis using True by (simp add: find_namespace_iff)
    qed (simp add: find_namespace_def)
    ultimately show ?thesis using Inl by simp
  qed
qed

lemma upt_8: "[0..<8] = 0 # [1..<8 :: nat]"
  by (simp add: upt_conv_Cons)

lemma first_namespace:
  assumes s: "db_namespaces s = replicate 8 \<lparr>ns_used = False, ns_name = []\<rparr>" "db_namespace_count s = 0"
  shows "ensure_namespace_capacity host_config s [97] True =
     (Inr 0, s\<lparr>db_namespaces := (db_namespaces s)[0 := \<lparr>ns_used = True, ns_name = [97]\<rparr>],
        db_namespace_count := 1, db_stats := (db_stats s)\<lparr>st_namespace_count := 1\<rparr>\<rparr>)"
proof -
  have n: "unat (cfg_max_namespaces host_config) = 8" by (simp add: host_config_def)
  have name: "valid_name [97]" by (simp add: valid_name_length)
  have at: "db_namespaces s ! i = \<lparr>ns_used = False, ns_name = []\<rparr>" if "i < 8" for i
    using that by (simp add: s)
  have "find (\<lambda>i. ns_used (db_namespaces s ! i) \<and> ns_name (db_namespaces s ! i) = [97]) [0..<8] = None"
    by (auto simp: find_None_iff at)
  then have "find_namespace host_config s [97] = Inl ESP_ERR_NOT_FOUND"
    using name by (simp add: find_namespace_iff n)
  moreover have "find (\<lambda>i. \<not> ns_used (db_namespaces s ! i)) [0..<8] = Some 0"
    by (simp add: upt_8 at)
  moreover have "cfg_max_namespaces host_config = 8" by (simp add: host_config_def)
  ultimately show ?thesis
    using name s(2) by (simp add: ensure_namespace_capacity_def n)
qed

text \<open>
  C32: registering a namespace makes it found under the returned index, a namespace that is already
  registered keeps its index, and no other name is affected.
\<close>

theorem namespace_registration:
  assumes "ensure_namespace_capacity cfg s name True = (Inr ns, s')"
    "length (db_namespaces s) = unat (cfg_max_namespaces cfg)"
  shows "find_namespace cfg s' name = Inr ns \<and>
    (\<forall>ns0. find_namespace cfg s name = Inr ns0 \<longrightarrow> ns = ns0 \<and> s' = s) \<and>
    (\<forall>other. other \<noteq> name \<longrightarrow> find_namespace cfg s' other = find_namespace cfg s other)"
  using assms by (rule registered_namespace)

lemma host_ensure:
  "ensure_namespace_capacity host_config (initial_db host_config) [97] True =
     (Inr 0, (initial_db host_config)\<lparr>
        db_namespaces := (db_namespaces (initial_db host_config))[0 := \<lparr>ns_used = True, ns_name = [97]\<rparr>],
        db_namespace_count := 1,
        db_stats := (db_stats (initial_db host_config))\<lparr>st_namespace_count := 1\<rparr>\<rparr>)"
  by (rule first_namespace) (simp_all add: initial_db_def host_config_def)

theorem namespace_registration_witness:
  "find_namespace host_config (snd (ensure_namespace_capacity host_config (initial_db host_config) [97] True)) [97]
     = Inr 0"
  using namespace_registration [OF host_ensure] by (simp add: host_ensure) (simp add: initial_db_def)

section \<open>Commit\<close>

lemma fresh_namespace:
  assumes "ensure_namespace_capacity cfg s name True = (Inr ns, s1)" "valid_config cfg"
    "find_namespace cfg s name = Inl e"
  shows "\<not> ns_used (db_namespaces s ! unat ns) \<and> e = ESP_ERR_NOT_FOUND"
proof -
  obtain i where i: "find (\<lambda>i. \<not> ns_used (db_namespaces s ! i)) [0..<unat (cfg_max_namespaces cfg)] = Some i"
    "ns = of_nat i" "e = ESP_ERR_NOT_FOUND"
    using assms(1,3) by (auto simp: ensure_namespace_capacity_def split: if_splits option.splits)
  then have "i < unat (cfg_max_namespaces cfg)" "\<not> ns_used (db_namespaces s ! i)" by (auto simp: find_Some_iff)
  moreover have "unat (cfg_max_namespaces cfg) \<le> 0xFFFF"
    using assms(2) by (simp add: valid_config_def word_le_nat_alt)
  ultimately show ?thesis using i by simp
qed

text \<open>A lookup of a key no mutation names, or in another namespace, is what it was before.\<close>

lemma other_lookup_kept:
  assumes cfg: "valid_config cfg" and inv: "memtable_inv cfg s" "memtable_inv cfg s'"
    and slots: "length (db_namespaces s) = unat (cfg_max_namespaces cfg)"
    and publish: "ensure_namespace_capacity cfg s name True = (Inr ns, s1)"
    and names: "db_namespaces s' = db_namespaces s1"
    and applied: "memtable_map cfg s' = apply_map s1 ns sq ms (memtable_map cfg s)"
    and key: "valid_name key" and other: "name' \<noteq> name \<or> key \<notin> mu_key ` set ms"
  shows "lookup_memtable cfg s' name' key = lookup_memtable cfg s name' key"
proof -
  have find: "find_namespace cfg s' x = find_namespace cfg s1 x" for x
    by (simp add: find_namespace_def names)
  note reg = registered_namespace [OF publish slots]
  show ?thesis
  proof (cases "find_namespace cfg s' name'")
    case (Inl e)
    then show ?thesis
      using other reg find by (cases "name' = name") (auto simp: lookup_memtable_def split: sum.splits)
  next
    case (Inr n')
    have n': "ns_name (db_namespaces s1 ! unat n') = name'" "ns_name (db_namespaces s1 ! unat ns) = name"
      using find_namespace_InrD(2) [OF _ cfg] Inr reg by (simp_all add: find)
    have "(n', key) \<notin> (\<lambda>m. (ns, mu_key m)) ` set ms" using other n' by auto
    then have same: "memtable_map cfg s' (n', key) = memtable_map cfg s (n', key)"
      by (simp add: applied apply_map_other)
    have L: "lookup_memtable cfg s' name' key =
        (case memtable_map cfg s (n', key) of None \<Rightarrow> Inl ESP_ERR_NOT_FOUND | Some r \<Rightarrow> Inr (record_view r))"
      using lookup_memtable_map [OF cfg inv(2) Inr key] same by simp
    show ?thesis
    proof (cases "find_namespace cfg s name'")
      case (Inr n0)
      then have "n0 = n'" using reg find \<open>find_namespace cfg s' name' = Inr n'\<close>
        by (cases "name' = name") auto
      then show ?thesis using L lookup_memtable_map [OF cfg inv(1) Inr key] by simp
    next
      case (Inl e)
      then have "name' = name" using reg find \<open>find_namespace cfg s' name' = Inr n'\<close> by fastforce
      then have fresh: "\<not> ns_used (db_namespaces s ! unat ns)" "e = ESP_ERR_NOT_FOUND" "n' = ns"
        using fresh_namespace [OF publish cfg] Inl reg find \<open>find_namespace cfg s' name' = Inr n'\<close> by auto
      have "memtable_map cfg s (ns, key) = None"
        using memtable_map_SomeD [OF inv(1)] fresh(1) by (cases "memtable_map cfg s (ns, key)")
           (fastforce simp: bucket_holds_def record_ok_def record_key_def)+
      then show ?thesis using L Inl fresh by (simp add: lookup_memtable_def)
    qed
  qed
qed

text \<open>
  C4: the contract between preflight and commit. A transaction that passes the preflight applies
  completely once its namespace is registered: no step fails, the memtable keeps its invariant, a
  lookup of every mutated key yields the new record, and every other lookup, in this namespace or in
  another one, is unchanged.
\<close>

theorem commit_visible:
  fixes sq :: u64
  assumes cfg: "valid_config cfg" and inv: "memtable_inv cfg s"
    and slots: "length (db_namespaces s) = unat (cfg_max_namespaces cfg)"
    and publish: "ensure_namespace_capacity cfg s name True = (Inr ns, s1)"
    and staged: "staged_ok cfg s1 ns [0..<unat (tx_mutation_count t)] t"
    and preflight: "preflight_memtable_transaction cfg s tables t name = (Inr ns', t')"
  shows "\<exists>s'. apply_transaction_to_memtable cfg t' ns sq s1 = (ESP_OK, s') \<and> memtable_inv cfg s' \<and>
    (\<forall>i < unat (tx_mutation_count t). lookup_memtable cfg s' name (mu_key (tx_mutations t ! i)) =
       Inr (record_view (new_record s1 ns sq (tx_mutations t ! i)))) \<and>
    (\<forall>name' key. valid_name key \<longrightarrow>
       name' \<noteq> name \<or> (\<forall>i < unat (tx_mutation_count t). key \<noteq> mu_key (tx_mutations t ! i)) \<longrightarrow>
       lookup_memtable cfg s' name' key = lookup_memtable cfg s name' key)"
proof -
  let ?n = "unat (tx_mutation_count t)"
  let ?ms = "take ?n (tx_mutations t)"
  obtain s' where s': "apply_transaction_to_memtable cfg t' ns sq s1 = (ESP_OK, s')" "memtable_inv cfg s'"
    "memtable_map cfg s' = apply_map s1 ns sq ?ms (memtable_map cfg s)" "db_namespaces s' = db_namespaces s1"
    using preflight_then_apply [OF cfg inv publish staged preflight, of sq] by blast
  have len: "?n \<le> length (tx_mutations t)"
    using staged by (cases ?n) (auto simp: staged_ok_def)
  have ms: "map mu_key ?ms = map (\<lambda>i. mu_key (tx_mutations t ! i)) [0..<?n]"
    using len by (intro nth_equalityI) auto
  have find: "find_namespace cfg s' x = find_namespace cfg s1 x" for x
    by (simp add: find_namespace_def s'(4))
  note reg = registered_namespace [OF publish slots]
  have new: "lookup_memtable cfg s' name (mu_key (tx_mutations t ! i)) =
      Inr (record_view (new_record s1 ns sq (tx_mutations t ! i)))" if "i < ?n" for i
  proof -
    have "tx_mutations t ! i \<in> set ?ms" using that len by (auto simp: in_set_conv_nth)
    moreover have "distinct (map mu_key ?ms)" using staged by (simp add: ms staged_ok_def)
    ultimately have "memtable_map cfg s' (ns, mu_key (tx_mutations t ! i)) =
        Some (new_record s1 ns sq (tx_mutations t ! i))"
      using apply_map_key by (simp add: s'(3))
    moreover have "valid_name (mu_key (tx_mutations t ! i))"
      using staged that by (simp add: staged_ok_def mutation_ok_def)
    ultimately show ?thesis
      using lookup_memtable_map [OF cfg s'(2), of name ns] reg by (simp add: find)
  qed
  have old: "lookup_memtable cfg s' name' key = lookup_memtable cfg s name' key"
    if "valid_name key" "name' \<noteq> name \<or> (\<forall>i < ?n. key \<noteq> mu_key (tx_mutations t ! i))" for name' key
  proof (rule other_lookup_kept [OF cfg inv s'(2) slots publish s'(4,3) that(1)])
    have "mu_key ` set ?ms = (\<lambda>i. mu_key (tx_mutations t ! i)) ` {0..<?n}"
      using arg_cong [OF ms, of set] by simp
    then show "name' \<noteq> name \<or> key \<notin> mu_key ` set ?ms" using that(2) by auto
  qed
  show ?thesis using s'(1,2) new old by blast
qed

text \<open>A transaction that sets one key in a fresh database of the host configuration.\<close>

definition host_db :: db where
  "host_db = (initial_db host_config)\<lparr>db_manifest := sample_manifest\<rparr>"

definition sample_mutation :: mutation_slot where
  "sample_mutation = empty_mutation\<lparr>mu_kind := mutation_kind_set, mu_key := [98], mu_value_size := 3\<rparr>"

definition sample_transaction :: transaction_slot where
  "sample_transaction = empty_transaction\<lparr>tx_mutation_count := 1,
     tx_mutations := [sample_mutation]\<rparr>"

definition host_db1 :: db where
  "host_db1 = host_db\<lparr>db_namespaces := (db_namespaces host_db)[0 := \<lparr>ns_used = True, ns_name = [97]\<rparr>],
     db_namespace_count := 1, db_stats := (db_stats host_db)\<lparr>st_namespace_count := 1\<rparr>\<rparr>"

lemma host_db_reset: "reset_memtable host_config host_db = host_db"
  by (simp add: reset_memtable_def host_db_def initial_db_def)

lemma host_db_inv: "memtable_inv host_config host_db" "memtable_map host_config host_db k = None"
  using reset_memtable_inv [of host_config host_db] by (simp_all only: host_db_reset)

lemma host_db_namespace: "ensure_namespace_capacity host_config host_db [97] True = (Inr 0, host_db1)"
  unfolding host_db1_def
  by (rule first_namespace) (simp_all add: host_db_def initial_db_def host_config_def)

lemma host_find_bucket:
  "\<exists>i. find_memtable_bucket host_config host_db 0 [98] = Inr (i, False)"
  using find_memtable_bucket_cases [OF host_db_inv(1), of "[98]" 0] host_db_inv(2)
  by (auto simp: valid_name_length host_config_def)

lemma host_preflight:
  "\<exists>t'. preflight_memtable_transaction host_config host_db (\<lambda>_ _. Inl ESP_ERR_NOT_FOUND) sample_transaction [97] =
     (Inr 0, t')"
proof -
  obtain i where i: "find_memtable_bucket host_config host_db 0 [98] = Inr (i, False)"
    using host_find_bucket by blast
  have e: "fst (ensure_namespace_capacity host_config host_db [97] False) = Inr 0"
    using host_db_namespace
    by (auto simp: ensure_namespace_capacity_def split: if_splits sum.splits option.splits)
  have live: "sg_max_live_bytes (mr_geometry (db_manifest host_db)) = 65536"
    by (simp add: host_db_def sample_manifest_def get_build_geometry_def host_config_def)
  have z: "db_memtable_data_used host_db = 0" "db_memtable_entry_count host_db = 0"
    "st_logical_state_bytes (db_stats host_db) = 0"
    by (simp_all add: host_db_def initial_db_def empty_stats_def)
  have m: "mu_key sample_mutation = [98]" "mu_kind sample_mutation = mutation_kind_set"
    "mu_value_size sample_mutation = 3" "\<not> mu_external_value sample_mutation"
    by (simp_all add: sample_mutation_def empty_mutation_def)
  have c: "cfg_memtable_data_size host_config = 8192" "cfg_memtable_entry_count host_config = 16"
    by (simp_all add: host_config_def)
  have t: "tx_mutation_count sample_transaction = 1" "tx_mutations sample_transaction = [sample_mutation]"
    by (simp_all add: sample_transaction_def)
  have pp: "preflight_previous host_config host_db (\<lambda>_ _. Inl ESP_ERR_NOT_FOUND) [97] 0 sample_mutation 0 0 =
      Inr (previous_state_none, 0, 0, 1)"
    using i by (simp add: preflight_previous_def m)
  have r: "mutation_value_size (sample_mutation\<lparr>mu_previous_state := a, mu_previous_value_size := b\<rparr>) = 3"
    "mutation_record_size (sample_mutation\<lparr>mu_previous_state := a, mu_previous_value_size := b\<rparr>) 3 = 56" for a b
    by (simp_all add: mutation_value_size_def mutation_record_size_def align_record_size_def m format_consts)
  have l: "logical_record_size 1 1 3 = 32" by (simp add: logical_record_size_def format_consts)
  show ?thesis
    using e by (simp add: preflight_memtable_transaction_def t valid_name_length preflight_mutation_def pp r z c m
        live l Let_def)
qed

theorem commit_visible_witness:
  "\<exists>t' s'. preflight_memtable_transaction host_config host_db (\<lambda>_ _. Inl ESP_ERR_NOT_FOUND) sample_transaction [97] =
       (Inr 0, t') \<and>
     apply_transaction_to_memtable host_config t' 0 5 host_db1 = (ESP_OK, s') \<and>
     lookup_memtable host_config s' [97] [98] = Inr (record_view (new_record host_db1 0 5 sample_mutation))"
proof -
  obtain t' where t': "preflight_memtable_transaction host_config host_db (\<lambda>_ _. Inl ESP_ERR_NOT_FOUND)
      sample_transaction [97] = (Inr 0, t')"
    using host_preflight by blast
  have slots: "length (db_namespaces host_db) = unat (cfg_max_namespaces host_config)"
    by (simp add: host_db_def initial_db_def)
  have "staged_ok host_config host_db1 0 [0..<unat (tx_mutation_count sample_transaction)] sample_transaction"
    by (simp add: staged_ok_def sample_transaction_def mutation_ok_def sample_mutation_def empty_mutation_def
        valid_name_length inline_applied_size_def applied_value_size_def host_db1_def host_db_def initial_db_def
        mutation_tombstone_def host_config_def format_consts)
  from commit_visible [OF host_config_valid host_db_inv(1) slots host_db_namespace this t', of 5]
  show ?thesis using t'
    by (auto simp: sample_transaction_def sample_mutation_def)
qed

end
