(* ===== verification/Store.thy ===== *)
theory Store
  imports Database_State Storage
begin

text \<open>
  The state every operation with side effects works on: the block device and the database state.
  An operation returns its \<open>esp_err_t\<close> and the new pair; the early returns of the source,
  \<open>if (ret != ESP_OK) return ret\<close>, are the combinators of this theory. Storage accesses
  use the geometry of the manifest, or the one of the build while no manifest exists.
\<close>

type_synonym 'd world = "'d \<times> db"

section \<open>Early returns\<close>

text \<open>Continue after a step that succeeded, return its error and state otherwise.\<close>

definition on_ok :: "esp_err \<times> 'w \<Rightarrow> ('w \<Rightarrow> esp_err \<times> 'w) \<Rightarrow> esp_err \<times> 'w" where
  "on_ok r k = (case r of (ret, w) \<Rightarrow> if ret = ESP_OK then k w else (ret, w))"

text \<open>Continue with the value a read yielded; a failed read leaves the state alone.\<close>

definition on_value :: "esp_err + 'a \<Rightarrow> 'w \<Rightarrow> ('a \<Rightarrow> esp_err \<times> 'w) \<Rightarrow> esp_err \<times> 'w" where
  "on_value r w k = (case r of Inl e \<Rightarrow> (e, w) | Inr x \<Rightarrow> k x)"

definition on_result :: "(esp_err + 'a) \<times> 'w \<Rightarrow> ('a \<Rightarrow> 'w \<Rightarrow> esp_err \<times> 'w) \<Rightarrow> esp_err \<times> 'w" where
  "on_result r k = (case r of (Inl e, w) \<Rightarrow> (e, w) | (Inr x, w) \<Rightarrow> k x w)"

text \<open>A read that continues with another read.\<close>

definition then_read :: "esp_err + 'a \<Rightarrow> ('a \<Rightarrow> esp_err + 'b) \<Rightarrow> esp_err + 'b" where
  "then_read r k = (case r of Inl e \<Rightarrow> Inl e | Inr x \<Rightarrow> k x)"

text \<open>A guard of a read.\<close>

definition require_that :: "bool \<Rightarrow> esp_err \<Rightarrow> esp_err + 'a \<Rightarrow> esp_err + 'a" where
  "require_that p e k = (if p then k else Inl e)"

lemma require_that_Inr: "require_that p e k = Inr x \<longleftrightarrow> p \<and> k = Inr x"
  by (simp add: require_that_def)

lemma early_return_simps [simp]:
  "on_ok (ESP_OK, w) k = k w"
  "e \<noteq> ESP_OK \<Longrightarrow> on_ok (e, w) k = (e, w)"
  "on_value (Inr x) w g = g x"
  "on_value (Inl e) w g = (e, w)"
  "on_result (Inr x, w) h = h x w"
  "on_result (Inl e, w) h = (e, w)"
  "then_read (Inr x) r = r x"
  "then_read (Inl e) r = Inl e"
  "require_that True e r' = r'"
  "require_that False e r' = Inl e"
  by (simp_all add: on_ok_def on_value_def on_result_def then_read_def require_that_def)

lemma on_ok_OK: "on_ok r k = (ESP_OK, w') \<longleftrightarrow> (\<exists>w. r = (ESP_OK, w) \<and> k w = (ESP_OK, w'))"
  by (cases r) (auto simp: on_ok_def)

lemma then_read_Inr: "then_read r k = Inr y \<longleftrightarrow> (\<exists>x. r = Inr x \<and> k x = Inr y)"
  by (cases r) auto

section \<open>Storage accesses of an instance\<close>

definition db_geometry :: "config \<Rightarrow> db \<Rightarrow> storage_geometry" where
  "db_geometry cfg s =
     (if sg_provisioned_size (mr_geometry (db_manifest s)) \<noteq> 0 then mr_geometry (db_manifest s)
      else get_build_geometry cfg)"

definition read_store ::
  "config \<Rightarrow> 'd block_device \<Rightarrow> file_kind \<Rightarrow> u32 \<Rightarrow> u64 \<Rightarrow> nat \<Rightarrow> 'd world \<Rightarrow> esp_err + bytes" where
  "read_store cfg dev kind slot offset n w =
     read_storage_bytes dev (db_geometry cfg (snd w)) (fst w) kind slot offset n"

definition write_store ::
  "config \<Rightarrow> 'd block_device \<Rightarrow> file_kind \<Rightarrow> u32 \<Rightarrow> u64 \<Rightarrow> bytes \<Rightarrow> 'd world \<Rightarrow> esp_err \<times> 'd world" where
  "write_store cfg dev kind slot offset source w =
     (case write_storage_bytes dev (db_geometry cfg (snd w)) (fst w) kind slot offset source of
        (ret, d) \<Rightarrow> (ret, d, snd w))"

definition sync_store :: "'d block_device \<Rightarrow> 'd world \<Rightarrow> esp_err \<times> 'd world" where
  "sync_store dev w = (case sync_storage dev (fst w) of (ret, d) \<Rightarrow> (ret, d, snd w))"

definition update_db :: "(db \<Rightarrow> db) \<Rightarrow> 'd world \<Rightarrow> 'd world" where
  "update_db f w = (fst w, f (snd w))"

lemma update_db_simps [simp]: "fst (update_db f w) = fst w" "snd (update_db f w) = f (snd w)"
  by (simp_all add: update_db_def)

section \<open>The operation lock\<close>

text \<open>
  Every public operation runs alone, under the operation lock, which is given only to an initialised
  instance that is not shutting down; a latched storage fault refuses everything but diagnostics. An
  operation is therefore one atomic step of the model, guarded by these flags.
\<close>

definition diagnostics_allowed :: "db \<Rightarrow> bool" where
  "diagnostics_allowed s \<longleftrightarrow> db_initialized s \<and> \<not> db_shutting_down s"

definition operation_allowed :: "db \<Rightarrow> bool" where
  "operation_allowed s \<longleftrightarrow> diagnostics_allowed s \<and> \<not> db_storage_faulted s"

definition under_lock :: "('d world \<Rightarrow> esp_err \<times> 'd world) \<Rightarrow> 'd world \<Rightarrow> esp_err \<times> 'd world" where
  "under_lock f w = (if operation_allowed (snd w) then f w else (ESP_ERR_INVALID_STATE, w))"

definition under_lock_result ::
  "('d world \<Rightarrow> (esp_err + 'a) \<times> 'd world) \<Rightarrow> 'd world \<Rightarrow> (esp_err + 'a) \<times> 'd world" where
  "under_lock_result f w = (if operation_allowed (snd w) then f w else (Inl ESP_ERR_INVALID_STATE, w))"

lemma under_lock_refused [simp]:
  "\<not> operation_allowed (snd w) \<Longrightarrow> under_lock f w = (ESP_ERR_INVALID_STATE, w)"
  "\<not> operation_allowed (snd w) \<Longrightarrow> under_lock_result g w = (Inl ESP_ERR_INVALID_STATE, w)"
  by (simp_all add: under_lock_def under_lock_result_def)

lemma under_lock_allowed [simp]:
  "operation_allowed (snd w) \<Longrightarrow> under_lock f w = f w"
  "operation_allowed (snd w) \<Longrightarrow> under_lock_result g w = g w"
  by (simp_all add: under_lock_def under_lock_result_def)

section \<open>Storage accesses on a working device\<close>

definition working_store :: "config \<Rightarrow> 'd block_device \<Rightarrow> ('d \<Rightarrow> bytes) \<Rightarrow> 'd world \<Rightarrow> bool" where
  "working_store cfg dev img w \<longleftrightarrow> working_storage dev img (db_geometry cfg (snd w)) (fst w)"

text \<open>The bytes of a region of the instance.\<close>

definition store_bytes :: "config \<Rightarrow> ('d \<Rightarrow> bytes) \<Rightarrow> 'd world \<Rightarrow> file_kind \<Rightarrow> u32 \<Rightarrow> bytes" where
  "store_bytes cfg img w kind slot = region_bytes (db_geometry cfg (snd w)) kind slot (img (fst w))"

definition store_size :: "config \<Rightarrow> 'd world \<Rightarrow> file_kind \<Rightarrow> nat" where
  "store_size cfg w kind = region_size (db_geometry cfg (snd w)) kind"

definition store_exists :: "config \<Rightarrow> 'd world \<Rightarrow> file_kind \<Rightarrow> u32 \<Rightarrow> bool" where
  "store_exists cfg w kind slot \<longleftrightarrow> region_exists (db_geometry cfg (snd w)) kind slot"

lemma length_store_bytes:
  assumes "working_store cfg dev img w" "store_exists cfg w kind slot"
  shows "length (store_bytes cfg img w kind slot) = store_size cfg w kind"
  using assms region_in_range [of "db_geometry cfg (snd w)" kind slot]
  by (simp add: working_store_def working_storage_def store_exists_def store_bytes_def store_size_def region_bytes_def)

lemma read_store_ok:
  assumes "working_store cfg dev img w" "store_exists cfg w kind slot" "unat offset + n \<le> store_size cfg w kind"
  shows "read_store cfg dev kind slot offset n w = Inr (get (store_bytes cfg img w kind slot) (unat offset) n)"
  using assms read_storage_image
  by (simp add: working_store_def store_exists_def store_bytes_def store_size_def read_store_def)

lemma write_store_ok:
  assumes "working_store cfg dev img w" "store_exists cfg w kind slot"
    "unat offset + length source \<le> store_size cfg w kind" "4096 dvd unat offset" "4096 dvd length source"
  obtains d where "write_store cfg dev kind slot offset source w = (ESP_OK, d, snd w)"
    "working_store cfg dev img (d, snd w)"
    "store_bytes cfg img (d, snd w) kind slot = put (store_bytes cfg img w kind slot) (unat offset) source"
    "\<And>k s. store_exists cfg w k s \<Longrightarrow> (k, s) \<noteq> (kind, slot) \<Longrightarrow>
       store_bytes cfg img (d, snd w) k s = store_bytes cfg img w k s"
  using write_storage_regions [of dev img "db_geometry cfg (snd w)" "fst w" kind slot offset source] assms
  by (auto simp: working_store_def store_exists_def store_bytes_def store_size_def write_store_def)

lemma sync_store_ok:
  assumes "working_store cfg dev img w"
  obtains d where "sync_store dev w = (ESP_OK, d, snd w)" "working_store cfg dev img (d, snd w)"
    "img d = img (fst w)"
proof -
  obtain d where "bd_sync dev (fst w) = (ESP_OK, d)" "img d = img (fst w)"
    using assms unfolding working_store_def working_storage_def device_image_def by blast
  then show thesis
    using assms that by (simp add: sync_store_def sync_storage_def working_store_def working_storage_def)
qed

lemma store_cong:
  assumes "mr_geometry (db_manifest s') = mr_geometry (db_manifest s)"
  shows "working_store cfg dev img (d, s') = working_store cfg dev img (d, s)"
    "store_bytes cfg img (d, s') = store_bytes cfg img (d, s)"
    "store_size cfg (d, s') = store_size cfg (d, s)" "store_exists cfg (d, s') = store_exists cfg (d, s)"
  using assms
  by (simp_all add: working_store_def store_bytes_def store_size_def store_exists_def db_geometry_def fun_eq_iff)

text \<open>The size and the existence of a region do not depend on the device.\<close>

lemma store_device [simp]:
  "store_size cfg (d, snd w) = store_size cfg w" "store_exists cfg (d, snd w) = store_exists cfg w"
  "store_size cfg (d, s) = store_size cfg (d', s) \<longleftrightarrow> True" "store_exists cfg (d, s) = store_exists cfg (d', s) \<longleftrightarrow> True"
  by (simp_all add: store_size_def store_exists_def fun_eq_iff)

end
