(* ===== verification/Manifest_Store.thy ===== *)
theory Manifest_Store
  imports Store
begin

text \<open>
  The manifest and the identities of the data regions on storage (\<open>on9kvdb_manifest.cpp\<close>): two
  manifest slots written alternately, the selection of the newest consistent copy, and the
  publication of a new generation.
\<close>

section \<open>Writing a manifest generation\<close>

definition manifest_slot_of :: "u64 \<Rightarrow> u64" where
  "manifest_slot_of generation = (generation - 1) mod of_nat manifest_slot_count"

definition write_manifest_copy ::
  "config \<Rightarrow> 'd block_device \<Rightarrow> u64 \<Rightarrow> u16 \<Rightarrow> 'd world \<Rightarrow> esp_err \<times> 'd world" where
  "write_manifest_copy cfg dev generation state w =
     (let m = db_manifest (snd w) in
      if generation = 0 \<or> mr_database_id m = 0 \<or> mr_generation m = - 1 \<or>
         generation \<noteq> mr_generation m + 1 then (ESP_ERR_INVALID_STATE, w)
      else
        let next_record = m\<lparr>mr_generation := generation, mr_state := state\<rparr> in
        (case encode_manifest_record cfg (zeroes manifest_record_size) next_record of
           None \<Rightarrow> (ESP_ERR_INVALID_STATE, w)
         | Some io_frame \<Rightarrow>
             let slot = manifest_slot_of generation; offset = slot * of_nat manifest_slot_size in
             (case on_ok (write_store cfg dev kind_manifest 0 offset io_frame w) (sync_store dev) of
                (ret, w) \<Rightarrow>
                  if ret = ESP_OK
                  then (ret, update_db (\<lambda>s. s\<lparr>db_manifest := next_record, db_manifest_slot := ucast slot\<rparr>) w)
                  else (ret, update_db (\<lambda>s. s\<lparr>db_storage_faulted := True\<rparr>) w))))"

definition stabilize_manifest :: "config \<Rightarrow> 'd block_device \<Rightarrow> 'd world \<Rightarrow> esp_err \<times> 'd world" where
  "stabilize_manifest cfg dev w =
     (let m = db_manifest (snd w) in
      if \<not> db_manifest_stabilization_required (snd w) then (ESP_OK, w)
      else if mr_generation m = - 1 then (ESP_ERR_INVALID_STATE, w)
      else on_ok (write_manifest_copy cfg dev (mr_generation m + 1) (mr_state m) w)
        (\<lambda>w. (ESP_OK, update_db (\<lambda>s. s\<lparr>db_manifest_valid_copy_count := of_nat manifest_slot_count,
                                       db_manifest_stabilization_required := False\<rparr>) w)))"

section \<open>Loading the manifest\<close>

text \<open>What the loop over the two slots has found so far.\<close>

record manifest_scan =
  ms_valid :: "manifest_record option list"
  ms_selected :: "nat option"
  ms_newer_version :: bool

definition scan_manifest_copy ::
  "config \<Rightarrow> 'd block_device \<Rightarrow> 'd world \<Rightarrow> nat \<Rightarrow> manifest_scan \<Rightarrow> esp_err + manifest_scan" where
  "scan_manifest_copy cfg dev w slot scan =
     then_read (read_store cfg dev kind_manifest 0 (of_nat slot * of_nat manifest_slot_size) manifest_record_size w)
       (\<lambda>io_frame.
         case decode_manifest_record cfg io_frame of
           Inl status \<Rightarrow>
             if status = FS_new_version \<or> status = FS_invalid_revision
             then Inr (scan\<lparr>ms_newer_version := True\<rparr>) else Inr scan
         | Inr record \<Rightarrow>
             if unat (manifest_slot_of (mr_generation record)) \<noteq> slot then Inl ESP_ERR_INVALID_CRC
             else
               Inr (scan\<lparr>ms_valid := (ms_valid scan)[slot := Some record],
                         ms_selected :=
                           (case ms_selected scan of
                              None \<Rightarrow> Some slot
                            | Some t \<Rightarrow>
                                if mr_generation record > mr_generation (the (ms_valid scan ! t))
                                then Some slot else Some t)\<rparr>))"

definition manifest_copy_inconsistent :: "manifest_record \<Rightarrow> manifest_record \<Rightarrow> bool" where
  "manifest_copy_inconsistent copy selected \<longleftrightarrow>
     mr_database_id copy \<noteq> mr_database_id selected \<or>
     \<not> storage_geometry_equal (mr_geometry copy) (mr_geometry selected) \<or>
     \<not> logical_limits_equal (mr_limits copy) (mr_limits selected) \<or>
     (mr_generation copy \<noteq> mr_generation selected \<and> mr_generation selected - mr_generation copy \<noteq> 1) \<or>
     mr_next_table_generation copy > mr_next_table_generation selected \<or>
     mr_safe_checkpoint_sequence copy > mr_safe_checkpoint_sequence selected \<or>
     (mr_generation copy = mr_generation selected \<and> mr_state copy \<noteq> mr_state selected) \<or>
     (mr_generation copy < mr_generation selected \<and> mr_state copy = manifest_state_ready \<and>
        mr_state selected = manifest_state_provisioning_owned) \<or>
     (mr_generation copy < mr_generation selected \<and>
        mr_active_table_bank copy = mr_active_table_bank selected \<and>
        (\<exists>table_slot \<in> set [0..<unat (sg_table_count (mr_geometry selected))].
           tr_active (mr_tables copy ! table_slot) \<and>
           \<not> table_reference_equal (mr_tables copy ! table_slot) (mr_tables selected ! table_slot)))"

definition manifest_copy_differs :: "manifest_record \<Rightarrow> manifest_record \<Rightarrow> bool" where
  "manifest_copy_differs copy selected \<longleftrightarrow>
     mr_active_table_bank copy \<noteq> mr_active_table_bank selected \<or>
     mr_active_wal_slot copy \<noteq> mr_active_wal_slot selected \<or>
     mr_wal_generation copy ! 0 \<noteq> mr_wal_generation selected ! 0 \<or>
     mr_wal_generation copy ! 1 \<noteq> mr_wal_generation selected ! 1 \<or>
     mr_active_value_bank copy \<noteq> mr_active_value_bank selected \<or>
     mr_value_bank_generation copy ! 0 \<noteq> mr_value_bank_generation selected ! 0 \<or>
     mr_value_bank_generation copy ! 1 \<noteq> mr_value_bank_generation selected ! 1 \<or>
     mr_value_bank_tail copy ! 0 \<noteq> mr_value_bank_tail selected ! 0 \<or>
     mr_value_bank_tail copy ! 1 \<noteq> mr_value_bank_tail selected ! 1"

text \<open>The comparison of every valid copy with the selected one; the result is \<open>stabilization_required\<close>.\<close>

fun compare_manifest_copies :: "manifest_record option list \<Rightarrow> manifest_record \<Rightarrow> bool \<Rightarrow> esp_err + bool" where
  "compare_manifest_copies [] selected required = Inr required"
| "compare_manifest_copies (None # copies) selected required = compare_manifest_copies copies selected required"
| "compare_manifest_copies (Some copy # copies) selected required =
     (if manifest_copy_inconsistent copy selected then Inl ESP_ERR_INVALID_CRC
      else compare_manifest_copies copies selected
             (if mr_generation copy < mr_generation selected then manifest_copy_differs copy selected
              else required))"

definition load_manifest :: "config \<Rightarrow> 'd block_device \<Rightarrow> 'd world \<Rightarrow> esp_err \<times> 'd world" where
  "load_manifest cfg dev w =
     on_value
       (then_read
         (scan_manifest_copy cfg dev w 0
            \<lparr>ms_valid = replicate manifest_slot_count None, ms_selected = None, ms_newer_version = False\<rparr>)
         (scan_manifest_copy cfg dev w 1)) w
       (\<lambda>scan.
         if ms_newer_version scan then (ESP_ERR_INVALID_VERSION, w)
         else
           (case ms_selected scan of
              None \<Rightarrow> (ESP_ERR_INVALID_CRC, w)
            | Some slot \<Rightarrow>
                let selected = the (ms_valid scan ! slot);
                    count = of_nat (length (filter (\<lambda>copy. copy \<noteq> None) (ms_valid scan))) :: u32 in
                on_value (compare_manifest_copies (ms_valid scan) selected False) w
                  (\<lambda>stabilization_required.
                    (ESP_OK, update_db (\<lambda>s. s\<lparr>db_manifest := selected, db_manifest_slot := of_nat slot,
                       db_manifest_valid_copy_count := count,
                       db_manifest_stabilization_required :=
                         (stabilization_required \<or> count < of_nat manifest_slot_count)\<rparr>) w))))"

section \<open>What is on storage\<close>

lemma unat_succ: "unat (g + 1) = unat g + 1" if "g \<noteq> - 1" for g :: "'a::len word"
proof -
  have "unat g \<noteq> 2 ^ LENGTH('a) - 1"
    using that unat_max_word [where 'a = 'a] by (metis word_unat_eq_iff)
  then have "unat g + 1 < 2 ^ LENGTH('a)" using unat_less_pow [of g] by linarith
  then show ?thesis by (simp add: unat_add_exact)
qed

lemma manifest_region:
  assumes "working_store cfg dev img w"
  shows "store_exists cfg w kind_manifest 0" "store_size cfg w kind_manifest = 8192"
  using assms validate_storage_geometry_D(2) [of "db_geometry cfg (snd w)"]
  by (auto simp: working_store_def working_storage_def store_exists_def store_size_def region_exists_def region_size_def)

definition manifest_copy :: "config \<Rightarrow> ('d \<Rightarrow> bytes) \<Rightarrow> 'd world \<Rightarrow> nat \<Rightarrow> bytes" where
  "manifest_copy cfg img w slot = get (store_bytes cfg img w kind_manifest 0) (slot * 4096) 4096"

text \<open>A slot holds a manifest of its parity, or nothing a decoder would take for a newer version.\<close>

definition holds_manifest :: "config \<Rightarrow> ('d \<Rightarrow> bytes) \<Rightarrow> 'd world \<Rightarrow> nat \<Rightarrow> manifest_record \<Rightarrow> bool" where
  "holds_manifest cfg img w slot m \<longleftrightarrow>
     decode_manifest_record cfg (manifest_copy cfg img w slot) = Inr m \<and>
     unat (manifest_slot_of (mr_generation m)) = slot"

definition torn_manifest :: "config \<Rightarrow> bytes \<Rightarrow> bool" where
  "torn_manifest cfg b \<longleftrightarrow>
     (\<exists>status. decode_manifest_record cfg b = Inl status \<and> status \<noteq> FS_new_version \<and> status \<noteq> FS_invalid_revision)"

lemma manifest_slot_cases: "unat (manifest_slot_of g) = 0 \<or> unat (manifest_slot_of g) = 1"
proof -
  have "unat (manifest_slot_of g) = unat (g - 1) mod 2"
    by (simp add: manifest_slot_of_def format_consts unat_mod)
  then show ?thesis by linarith
qed

lemma manifest_slot_next:
  assumes "g \<noteq> 0" "g + 1 \<noteq> 0"
  shows "unat (manifest_slot_of (g + 1)) = 1 - unat (manifest_slot_of g)"
proof -
  have 0: "0 < unat g" using assms(1) by (simp add: unat_gt_0)
  have "unat (manifest_slot_of (g + 1)) = unat g mod 2" "unat (manifest_slot_of g) = unat (g - 1) mod 2"
    by (simp_all add: manifest_slot_of_def format_consts unat_mod)
  moreover have "unat (g - 1) = unat g - 1" using assms(1) by (simp add: unat_minus_one)
  moreover obtain k where "unat g = Suc k" using 0 by (cases "unat g") auto
  ultimately show ?thesis by (auto simp: mod_Suc)
qed

lemma scan_manifest_copy_read:
  assumes "working_store cfg dev img w" "slot < 2"
  shows "scan_manifest_copy cfg dev w slot scan =
    (case decode_manifest_record cfg (manifest_copy cfg img w slot) of
       Inl status \<Rightarrow> if status = FS_new_version \<or> status = FS_invalid_revision
                      then Inr (scan\<lparr>ms_newer_version := True\<rparr>) else Inr scan
     | Inr record \<Rightarrow>
         if unat (manifest_slot_of (mr_generation record)) \<noteq> slot then Inl ESP_ERR_INVALID_CRC
         else Inr (scan\<lparr>ms_valid := (ms_valid scan)[slot := Some record],
                   ms_selected := (case ms_selected scan of None \<Rightarrow> Some slot
                     | Some t \<Rightarrow> if mr_generation record > mr_generation (the (ms_valid scan ! t))
                                then Some slot else Some t)\<rparr>))"
proof -
  have o: "unat (of_nat slot * of_nat manifest_slot_size :: u64) = slot * 4096"
  proof -
    have "slot = 0 \<or> slot = 1" using assms(2) by linarith
    then show ?thesis by (auto simp: format_consts)
  qed
  have "read_store cfg dev kind_manifest 0 (of_nat slot * of_nat manifest_slot_size) 4096 w =
      Inr (manifest_copy cfg img w slot)"
    using read_store_ok [OF assms(1) manifest_region(1) [OF assms(1)], of "of_nat slot * of_nat manifest_slot_size" 4096]
      manifest_region(2) [OF assms(1)] assms(2)
    by (simp add: o manifest_copy_def)
  then show ?thesis by (simp add: scan_manifest_copy_def format_consts)
qed

text \<open>One copy is enough; it must be rewritten before a slot it names is reused.\<close>

lemma load_manifest_single:
  assumes "working_store cfg dev img w" "slot < 2" "holds_manifest cfg img w slot m"
    "torn_manifest cfg (manifest_copy cfg img w (1 - slot))"
  shows "load_manifest cfg dev w = (ESP_OK, update_db (\<lambda>s. s\<lparr>db_manifest := m, db_manifest_slot := of_nat slot,
     db_manifest_valid_copy_count := 1, db_manifest_stabilization_required := True\<rparr>) w)"
proof -
  have nc: "\<not> manifest_copy_inconsistent m m"
    by (auto simp: manifest_copy_inconsistent_def storage_geometry_equal_iff logical_limits_equal_iff)
  have slot: "slot = 0 \<or> slot = 1" using assms(2) by linarith
  have two: "replicate manifest_slot_count None = [None, None]" "of_nat manifest_slot_count = (2 :: u32)"
    by (simp_all add: format_consts numeral_eq_Suc)
  show ?thesis
    using slot assms(3,4) nc
    by (elim disjE) (auto simp: load_manifest_def scan_manifest_copy_read [OF assms(1)] holds_manifest_def torn_manifest_def
        two)
qed

lemma load_manifest_pair:
  assumes "working_store cfg dev img w" "slot < 2" "holds_manifest cfg img w slot m"
    "holds_manifest cfg img w (1 - slot) old" "mr_generation old < mr_generation m"
    "\<not> manifest_copy_inconsistent old m"
  shows "load_manifest cfg dev w = (ESP_OK, update_db (\<lambda>s. s\<lparr>db_manifest := m, db_manifest_slot := of_nat slot,
     db_manifest_valid_copy_count := 2,
     db_manifest_stabilization_required := manifest_copy_differs old m\<rparr>) w)"
proof -
  have nc: "\<not> manifest_copy_inconsistent m m"
    by (auto simp: manifest_copy_inconsistent_def storage_geometry_equal_iff logical_limits_equal_iff)
  have lt: "\<not> mr_generation m < mr_generation old" using assms(5) by (simp add: not_less order.strict_implies_order)
  have slot: "slot = 0 \<or> slot = 1" using assms(2) by linarith
  have two: "replicate manifest_slot_count None = [None, None]" "of_nat manifest_slot_count = (2 :: u32)"
    by (simp_all add: format_consts numeral_eq_Suc)
  show ?thesis
    using slot assms(3-6) nc lt
    by (elim disjE) (auto simp: load_manifest_def scan_manifest_copy_read [OF assms(1)] holds_manifest_def two)
qed

section \<open>Publishing a manifest\<close>

lemma manifest_copy_put:
  assumes "slot < 2" "slot' < 2" "length b = 8192" "length src = 4096"
  shows "get (put b (slot * 4096) src) (slot' * 4096) 4096 =
    (if slot' = slot then src else get b (slot' * 4096) 4096)"
proof -
  have "(slot = 0 \<or> slot = 1) \<and> (slot' = 0 \<or> slot' = 1)" using assms by linarith
  then show ?thesis using assms by (auto simp: buffer_simps)
qed

lemma manifest_offset:
  "unat (manifest_slot_of g * of_nat manifest_slot_size) = unat (manifest_slot_of g) * 4096"
  using manifest_slot_cases [of g]
  by (simp add: format_consts unat_mult_exact) (auto simp: unat_mult_exact)

text \<open>
  Publication: the record reaches its own slot and nothing else on storage changes, the state
  follows, and the slot decodes to what the format stores.
\<close>

lemma write_manifest_copy_ok:
  fixes m state
  defines "n \<equiv> m\<lparr>mr_generation := mr_generation m + 1, mr_state := state\<rparr>"
  assumes store: "working_store cfg dev img (d, s)" and m: "db_manifest s = m" "mr_generation m \<noteq> - 1"
    and valid: "valid_manifest_record cfg n"
  obtains d' b where "write_manifest_copy cfg dev (mr_generation m + 1) state (d, s) =
      (ESP_OK, d', s\<lparr>db_manifest := n, db_manifest_slot := ucast (manifest_slot_of (mr_generation n))\<rparr>)"
    "working_store cfg dev img (d', s)" "encode_manifest_record cfg (zeroes 4096) n = Some b"
    "decode_manifest_record cfg b = Inr (stored_manifest n)" "length b = 4096"
    "store_bytes cfg img (d', s) kind_manifest 0 =
       put (store_bytes cfg img (d, s) kind_manifest 0) (unat (manifest_slot_of (mr_generation n)) * 4096) b"
    "\<And>k i. store_exists cfg (d, s) k i \<Longrightarrow> (k, i) \<noteq> (kind_manifest, 0) \<Longrightarrow>
       store_bytes cfg img (d', s) k i = store_bytes cfg img (d, s) k i"
proof -
  obtain b where b: "encode_manifest_record cfg (zeroes 4096) n = Some b" "length b = 4096"
    "decode_manifest_record cfg b = Inr (stored_manifest n)"
    using manifest_record_roundtrip [OF valid, of "zeroes 4096"] by auto
  let ?o = "manifest_slot_of (mr_generation n) * of_nat manifest_slot_size"
  have o: "unat ?o = unat (manifest_slot_of (mr_generation n)) * 4096" by (rule manifest_offset)
  have sl: "unat (manifest_slot_of (mr_generation n)) = 0 \<or> unat (manifest_slot_of (mr_generation n)) = 1"
    by (rule manifest_slot_cases)
  note R = manifest_region [OF store]
  have fit: "unat ?o + length b \<le> store_size cfg (d, s) kind_manifest" "4096 dvd unat ?o" "4096 dvd length b"
    using sl b(2) R(2) by (auto simp: o)
  obtain d1 where d1: "write_store cfg dev kind_manifest 0 ?o b (d, s) = (ESP_OK, d1, s)"
    "working_store cfg dev img (d1, s)"
    "store_bytes cfg img (d1, s) kind_manifest 0 = put (store_bytes cfg img (d, s) kind_manifest 0) (unat ?o) b"
    "\<And>k i. store_exists cfg (d, s) k i \<Longrightarrow> (k, i) \<noteq> (kind_manifest, 0) \<Longrightarrow>
       store_bytes cfg img (d1, s) k i = store_bytes cfg img (d, s) k i"
    using write_store_ok [OF store R(1) fit] by (auto simp: case_prod_beta)
  obtain d2 where d2: "sync_store dev (d1, s) = (ESP_OK, d2, s)" "working_store cfg dev img (d2, s)" "img d2 = img d1"
    using sync_store_ok [OF d1(2)] by auto
  have same: "store_bytes cfg img (d2, s) = store_bytes cfg img (d1, s)"
    by (simp add: store_bytes_def fun_eq_iff d2(3))
  have gen: "mr_generation m + 1 \<noteq> 0" "mr_generation n = mr_generation m + 1"
    using m(2) by (simp_all add: n_def eq_neg_iff_add_eq_0)
  have id: "mr_database_id m \<noteq> 0"
    using valid by (auto simp: valid_manifest_record_def manifest_content_invalid_def n_def
        split: option.splits prod.splits)
  have 4096: "manifest_record_size = 4096" by (simp add: format_consts)
  show thesis
  proof (rule that)
    show "write_manifest_copy cfg dev (mr_generation m + 1) state (d, s) =
      (ESP_OK, d2, s\<lparr>db_manifest := n, db_manifest_slot := ucast (manifest_slot_of (mr_generation n))\<rparr>)"
      using gen m id b(1) d1(1) d2(1)
      by (simp add: write_manifest_copy_def 4096 n_def [symmetric] update_db_def)
  qed (use b d1 d2 same o in \<open>simp_all\<close>)
qed

end
