(* ===== verification/Manifest_Correctness.thy ===== *)
theory Manifest_Correctness
  imports Manifest_Store Memtable_Correctness Storage_Correctness
begin

text \<open>
  The property the two manifest slots exist for: publishing a new manifest is atomic, whatever a
  power loss leaves in the slot being written.
\<close>

lemma restart_geometry:
  assumes "mr_geometry (db_manifest s) = get_build_geometry cfg"
  shows "working_store cfg dev img (d, initial_db cfg) = working_store cfg dev img (d, s)"
    "store_bytes cfg img (d, initial_db cfg) = store_bytes cfg img (d, s)"
proof -
  have "db_geometry cfg (initial_db cfg) = db_geometry cfg s"
    using assms by (simp add: db_geometry_def initial_db_def empty_manifest_def)
  then show "working_store cfg dev img (d, initial_db cfg) = working_store cfg dev img (d, s)"
    "store_bytes cfg img (d, initial_db cfg) = store_bytes cfg img (d, s)"
    by (simp_all add: working_store_def store_bytes_def fun_eq_iff)
qed

lemma stored_manifest_simps [simp]:
  "mr_generation (stored_manifest m) = mr_generation m" "mr_state (stored_manifest m) = mr_state m"
  "mr_geometry (stored_manifest m) = mr_geometry m" "mr_database_id (stored_manifest m) = mr_database_id m"
  by (simp_all add: stored_manifest_def)

lemma generation_step:
  fixes g :: u64
  assumes "g \<noteq> 0" "g \<noteq> - 1"
  shows "g + 1 \<noteq> 0" "g < g + 1" "unat (manifest_slot_of (g + 1)) = 1 - unat (manifest_slot_of g)"
proof -
  show ne: "g + 1 \<noteq> 0" using assms(2) by (simp add: eq_neg_iff_add_eq_0)
  show "g < g + 1" using unat_succ [OF assms(2)] by (simp add: word_less_nat_alt)
  show "unat (manifest_slot_of (g + 1)) = 1 - unat (manifest_slot_of g)"
    by (rule manifest_slot_next [OF assms(1) ne])
qed

text \<open>What the two slots hold after the slot of the other parity was replaced.\<close>

lemma replaced_copy:
  assumes "working_store cfg dev img (d, s)" "mr_geometry (db_manifest s) = get_build_geometry cfg"
    and "store_bytes cfg img (d', s) kind_manifest 0 =
      put (store_bytes cfg img (d, s) kind_manifest 0) ((1 - slot) * 4096) src"
    and "length src = 4096" "slot < 2"
  shows "manifest_copy cfg img (d', initial_db cfg) (1 - slot) = src"
    "manifest_copy cfg img (d', initial_db cfg) slot = manifest_copy cfg img (d, s) slot"
proof -
  let ?b = "store_bytes cfg img (d, s) kind_manifest 0"
  have len: "length ?b = 8192"
    using length_store_bytes [OF assms(1)] manifest_region [OF assms(1)] by simp
  have ne: "slot \<noteq> 1 - slot" using assms(5) by arith
  show "manifest_copy cfg img (d', initial_db cfg) (1 - slot) = src"
    unfolding manifest_copy_def restart_geometry(2) [OF assms(2)] assms(3)
    using manifest_copy_put [of "1 - slot" "1 - slot" ?b src] len assms(4) by simp
  show "manifest_copy cfg img (d', initial_db cfg) slot = manifest_copy cfg img (d, s) slot"
    unfolding manifest_copy_def restart_geometry(2) [OF assms(2)] assms(3)
    using manifest_copy_put [of "1 - slot" slot ?b src] len assms(4,5) ne by simp
qed

text \<open>A slot that holds the new record, beside the old one: the new one is selected.\<close>

lemma manifest_complete:
  assumes store: "working_store cfg dev img (d, s)" "working_store cfg dev img (dc, s)"
    and geometry: "mr_geometry (db_manifest s) = get_build_geometry cfg"
    and g: "mr_generation old \<noteq> 0" "mr_generation old \<noteq> - 1" "mr_generation n = mr_generation old + 1"
    and old: "holds_manifest cfg img (d, s) slot old"
    and b: "length b = 4096" "decode_manifest_record cfg b = Inr (stored_manifest n)"
      "store_bytes cfg img (dc, s) kind_manifest 0 = put (store_bytes cfg img (d, s) kind_manifest 0) ((1 - slot) * 4096) b"
    and follows: "\<not> manifest_copy_inconsistent old (stored_manifest n)"
  shows "\<exists>s1. load_manifest cfg dev (dc, initial_db cfg) = (ESP_OK, dc, s1) \<and> db_manifest s1 = stored_manifest n"
proof -
  note step = generation_step [OF g(1,2)]
  have slot: "slot = unat (manifest_slot_of (mr_generation old))" "slot < 2"
    using old manifest_slot_cases [of "mr_generation old"] by (auto simp: holds_manifest_def)
  note C = replaced_copy [OF store(1) geometry b(3,1) slot(2)]
  have w': "working_store cfg dev img (dc, initial_db cfg)"
    by (simp only: restart_geometry(1) [OF geometry] store(2))
  have newer: "holds_manifest cfg img (dc, initial_db cfg) (1 - slot) (stored_manifest n)"
    using C(1) b(2) step(3) slot(1) by (simp add: holds_manifest_def g(3))
  have flip: "1 - (1 - slot) = slot" using slot(2) by arith
  have older: "holds_manifest cfg img (dc, initial_db cfg) (1 - (1 - slot)) old"
    using old C(2) unfolding flip holds_manifest_def by simp
  have lt: "mr_generation old < mr_generation (stored_manifest n)" using step(2) by (simp add: g(3))
  show ?thesis
    using load_manifest_pair [OF w' _ newer older lt follows] by (simp add: update_db_def)
qed

lemma manifest_written:
  assumes store: "working_store cfg dev img (d, s)"
    and geometry: "mr_geometry (db_manifest s) = get_build_geometry cfg"
    and g: "mr_generation (db_manifest s) \<noteq> 0" "mr_generation (db_manifest s) \<noteq> - 1"
    and n: "n = (db_manifest s)\<lparr>mr_generation := mr_generation (db_manifest s) + 1, mr_state := state\<rparr>"
    and valid: "valid_manifest_record cfg n"
    and old: "holds_manifest cfg img (d, s) slot old" "mr_generation old = mr_generation (db_manifest s)"
    and follows: "\<not> manifest_copy_inconsistent old (stored_manifest n)"
  shows "\<exists>d' s' s1. write_manifest_copy cfg dev (mr_generation (db_manifest s) + 1) state (d, s) = (ESP_OK, d', s') \<and>
    db_manifest s' = n \<and> load_manifest cfg dev (d', initial_db cfg) = (ESP_OK, d', s1) \<and>
    db_manifest s1 = stored_manifest n"
proof -
  let ?g = "mr_generation (db_manifest s)"
  note step = generation_step [OF g]
  have slot: "slot = unat (manifest_slot_of ?g)" using old by (simp add: holds_manifest_def)
  have gen: "mr_generation n = ?g + 1" by (simp add: n)
  show ?thesis
  proof (rule write_manifest_copy_ok [OF store refl g(2) valid [unfolded n], folded n])
    fix d' b
    assume w: "write_manifest_copy cfg dev (?g + 1) state (d, s) =
        (ESP_OK, d', s\<lparr>db_manifest := n, db_manifest_slot := ucast (manifest_slot_of (mr_generation n))\<rparr>)"
      and st: "working_store cfg dev img (d', s)"
      and b: "decode_manifest_record cfg b = Inr (stored_manifest n)" "length b = 4096"
      and img: "store_bytes cfg img (d', s) kind_manifest 0 =
       put (store_bytes cfg img (d, s) kind_manifest 0) (unat (manifest_slot_of (mr_generation n)) * 4096) b"
    have img': "store_bytes cfg img (d', s) kind_manifest 0 =
       put (store_bytes cfg img (d, s) kind_manifest 0) ((1 - slot) * 4096) b"
      using img step(3) slot by (simp add: gen)
    obtain s1 where l: "load_manifest cfg dev (d', initial_db cfg) = (ESP_OK, d', s1)" "db_manifest s1 = stored_manifest n"
      using manifest_complete [OF store st geometry _ _ _ old(1) b(2,1) img' follows] g old(2) gen by auto
    show ?thesis
      by (intro exI conjI, rule w, simp, rule l(1), rule l(2))
  qed
qed

text \<open>A slot that was not touched: the start finds what it would have found before.\<close>

lemma load_manifest_copies:
  assumes "working_store cfg dev img (d, s)" "working_store cfg dev img (d', s)"
    and "manifest_copy cfg img (d', s) 0 = manifest_copy cfg img (d, s) 0" "manifest_copy cfg img (d', s) 1 = manifest_copy cfg img (d, s) 1"
    and "load_manifest cfg dev (d, s) = (ret, d, s1)"
  shows "load_manifest cfg dev (d', s) = (ret, d', s1)"
proof -
  let ?start = "\<lparr>ms_valid = replicate manifest_slot_count None, ms_selected = None, ms_newer_version = False\<rparr>"
  have "scan_manifest_copy cfg dev (d', s) 0 = scan_manifest_copy cfg dev (d, s) 0"
    "scan_manifest_copy cfg dev (d', s) 1 = scan_manifest_copy cfg dev (d, s) 1"
    using assms(3,4) by (auto simp: fun_eq_iff scan_manifest_copy_read [OF assms(1)] scan_manifest_copy_read [OF assms(2)])
  then show ?thesis
    using assms(5)
    by (cases "then_read (scan_manifest_copy cfg dev (d, s) 0 ?start) (scan_manifest_copy cfg dev (d, s) 1)")
      (auto simp: load_manifest_def Let_def on_value_def update_db_def split: if_splits option.splits sum.splits)
qed

lemma manifest_untouched:
  assumes store: "working_store cfg dev img (d, s)" "working_store cfg dev img (dc, s)"
    and geometry: "mr_geometry (db_manifest s) = get_build_geometry cfg" and slot: "slot < 2"
    and same: "store_bytes cfg img (dc, s) kind_manifest 0 =
      put (store_bytes cfg img (d, s) kind_manifest 0) ((1 - slot) * 4096) (manifest_copy cfg img (d, s) (1 - slot))"
    and load: "load_manifest cfg dev (d, initial_db cfg) = (ret, d, s0)"
  shows "load_manifest cfg dev (dc, initial_db cfg) = (ret, dc, s0)"
proof -
  have w: "working_store cfg dev img (d', initial_db cfg) = working_store cfg dev img (d', s)" for d'
    by (rule restart_geometry(1) [OF geometry])
  have before: "manifest_copy cfg img (d, initial_db cfg) i = manifest_copy cfg img (d, s) i" for i
    by (simp add: manifest_copy_def restart_geometry(2) [OF geometry])
  have "length (store_bytes cfg img (d, s) kind_manifest 0) = 8192"
    using length_store_bytes [OF store(1)] manifest_region [OF store(1)] by simp
  then have "length (manifest_copy cfg img (d, s) (1 - slot)) = 4096" using slot by (simp add: manifest_copy_def)
  note C = replaced_copy [OF store(1) geometry same this slot]
  have "slot = 0 \<or> slot = 1" using slot by arith
  then have "manifest_copy cfg img (dc, initial_db cfg) 0 = manifest_copy cfg img (d, initial_db cfg) 0"
    "manifest_copy cfg img (dc, initial_db cfg) 1 = manifest_copy cfg img (d, initial_db cfg) 1"
    using C by (auto simp: before)
  with store show ?thesis by (intro load_manifest_copies [where img = img, OF _ _ _ _ load]) (simp_all add: w)
qed

lemma manifest_torn:
  assumes store: "working_store cfg dev img (d, s)" "working_store cfg dev img (dc, s)"
    and geometry: "mr_geometry (db_manifest s) = get_build_geometry cfg"
    and old: "holds_manifest cfg img (d, s) slot old"
    and junk: "length junk = 4096" "torn_manifest cfg junk"
      "store_bytes cfg img (dc, s) kind_manifest 0 =
         put (store_bytes cfg img (d, s) kind_manifest 0) ((1 - slot) * 4096) junk"
  shows "\<exists>s1. load_manifest cfg dev (dc, initial_db cfg) = (ESP_OK, dc, s1) \<and>
    db_manifest s1 = old \<and> db_manifest_stabilization_required s1"
proof -
  have slot: "slot < 2"
    using old manifest_slot_cases [of "mr_generation old"] by (auto simp: holds_manifest_def)
  note C = replaced_copy [OF store(1) geometry junk(3,1) slot]
  have w: "working_store cfg dev img (dc, initial_db cfg)"
    by (simp only: restart_geometry(1) [OF geometry] store(2))
  have h: "holds_manifest cfg img (dc, initial_db cfg) slot old"
    using old C(2) by (simp add: holds_manifest_def)
  have t: "torn_manifest cfg (manifest_copy cfg img (dc, initial_db cfg) (1 - slot))"
    using C(1) junk(2) by simp
  show ?thesis
    using load_manifest_single [OF w slot h t] by (simp add: update_db_def)
qed

text \<open>
  What an interrupted write of a manifest leaves in its slot: the bytes that were there before, bytes the decoder
  refuses as damaged, or the complete record.
\<close>

definition interrupted_slot :: "config \<Rightarrow> bytes \<Rightarrow> manifest_record \<Rightarrow> bytes \<Rightarrow> bool" where
  "interrupted_slot cfg before m after \<longleftrightarrow>
     length after = 4096 \<and>
     (after = before \<or> torn_manifest cfg after \<or> decode_manifest_record cfg after = Inr (stored_manifest m))"

text \<open>
  C5: publishing a manifest that follows the old one is atomic. Let a start find \<open>old\<close>, the newest copy on storage. If
  the write completes, a restart selects the new manifest. If power is lost during it, so that the slot being
  written is untouched, holds bytes the decoder refuses, or holds the complete record, a restart
  selects the old manifest in the first two cases and the new one in the last; after a torn write it knows that the other slot
  must be rewritten. The new manifest follows the old one when the comparison of the copies at the start accepts them together.
\<close>

theorem manifest_update_atomic:
  assumes store: "working_store cfg dev img (d, s)"
    and geometry: "mr_geometry (db_manifest s) = get_build_geometry cfg"
    and new: "new = (db_manifest s)\<lparr>mr_generation := mr_generation (db_manifest s) + 1, mr_state := state\<rparr>"
      "mr_generation (db_manifest s) \<noteq> - 1" "valid_manifest_record cfg new"
    and old: "holds_manifest cfg img (d, s) slot old" "mr_generation old = mr_generation (db_manifest s)"
      "mr_generation old \<noteq> 0"
    and found: "load_manifest cfg dev (d, initial_db cfg) = (ESP_OK, d, s0)" "db_manifest s0 = old"
    and follows: "\<not> manifest_copy_inconsistent old (stored_manifest new)"
  shows "(\<exists>d' s' s1. write_manifest_copy cfg dev (mr_generation new) state (d, s) = (ESP_OK, d', s') \<and>
            db_manifest s' = new \<and>
            load_manifest cfg dev (d', initial_db cfg) = (ESP_OK, d', s1) \<and>
            db_manifest s1 = stored_manifest new) \<and>
         (\<forall>dc after. working_store cfg dev img (dc, s) \<longrightarrow>
            interrupted_slot cfg (manifest_copy cfg img (d, s) (1 - slot)) new after \<longrightarrow>
            store_bytes cfg img (dc, s) kind_manifest 0 =
              put (store_bytes cfg img (d, s) kind_manifest 0) ((1 - slot) * 4096) after \<longrightarrow>
            (\<exists>s1. load_manifest cfg dev (dc, initial_db cfg) = (ESP_OK, dc, s1) \<and>
              db_manifest s1 = (if decode_manifest_record cfg after = Inr (stored_manifest new) then stored_manifest new else old) \<and>
              (torn_manifest cfg after \<longrightarrow> db_manifest_stabilization_required s1)))"
proof (intro conjI allI impI)
  show "\<exists>d' s' s1. write_manifest_copy cfg dev (mr_generation new) state (d, s) = (ESP_OK, d', s') \<and> db_manifest s' = new \<and>
      load_manifest cfg dev (d', initial_db cfg) = (ESP_OK, d', s1) \<and> db_manifest s1 = stored_manifest new"
    using manifest_written [OF store geometry _ new(2) new(1) new(3) old(1,2) follows] old(2,3) by (simp add: new(1))
  fix dc after
  assume dc: "working_store cfg dev img (dc, s)"
    and left: "interrupted_slot cfg (manifest_copy cfg img (d, s) (1 - slot)) new after"
    and bytes: "store_bytes cfg img (dc, s) kind_manifest 0 =
        put (store_bytes cfg img (d, s) kind_manifest 0) ((1 - slot) * 4096) after"
  have len: "length after = 4096" using left by (simp add: interrupted_slot_def)
  have slot: "slot < 2" using old(1) manifest_slot_cases [of "mr_generation old"] by (auto simp: holds_manifest_def)
  have gen: "mr_generation old \<noteq> - 1" "mr_generation new = mr_generation old + 1" using new(2) old(2) by (simp_all add: new(1))
  consider "decode_manifest_record cfg after = Inr (stored_manifest new)" | "torn_manifest cfg after"
    | "decode_manifest_record cfg after \<noteq> Inr (stored_manifest new)" "\<not> torn_manifest cfg after"
        "after = manifest_copy cfg img (d, s) (1 - slot)"
    using left unfolding interrupted_slot_def by blast
  then show "\<exists>s1. load_manifest cfg dev (dc, initial_db cfg) = (ESP_OK, dc, s1) \<and>
      db_manifest s1 = (if decode_manifest_record cfg after = Inr (stored_manifest new) then stored_manifest new else old) \<and>
      (torn_manifest cfg after \<longrightarrow> db_manifest_stabilization_required s1)"
  proof cases
    case 1
    then have "\<not> torn_manifest cfg after" by (simp add: torn_manifest_def)
    then show ?thesis
      using manifest_complete [OF store dc geometry old(3) gen old(1) len 1 bytes follows] 1 by simp
  next
    case 2
    then have "decode_manifest_record cfg after \<noteq> Inr (stored_manifest new)" by (auto simp: torn_manifest_def)
    then show ?thesis using manifest_torn [OF store dc geometry old(1) len 2 bytes] by auto
  next
    case 3
    from manifest_untouched [OF store dc geometry slot bytes [unfolded 3(3)] found(1)] show ?thesis
      using 3(1,2) found(2) by simp
  qed
qed

lemma collect_generation [simp]:
  "collect_table_references (m\<lparr>mr_generation := g, mr_state := st\<rparr>) slots s = collect_table_references m slots s"
proof -
  have "table_reference_step (m\<lparr>mr_generation := g, mr_state := st\<rparr>) t i s = table_reference_step m t i s" for t i s
    by (rule table_reference_step_cong) (simp_all add: bank_geometry_valid_def bank_start_def bank_end_def)
  then show ?thesis by (induction slots arbitrary: s) (simp_all cong: Option.bind_cong)
qed

text \<open>A later generation of a valid ready manifest is valid.\<close>

lemma valid_later_generation:
  assumes "valid_manifest_record cfg m" "mr_state m = manifest_state_ready" "3 \<le> g"
  shows "valid_manifest_record cfg (m\<lparr>mr_generation := g, mr_state := manifest_state_ready\<rparr>)"
proof -
  have "bank_geometry_valid (m\<lparr>mr_generation := g, mr_state := manifest_state_ready\<rparr>) = bank_geometry_valid m"
    by (simp add: bank_geometry_valid_def)
  moreover have "g \<noteq> 0" "\<not> g < 3" using assms(3) by auto
  ultimately show ?thesis
    using assms(1,2)
    by (auto simp: valid_manifest_record_def manifest_summary_def manifest_arrays_def manifest_content_invalid_def
        split: option.splits if_splits)
qed

lemma zero_manifest_torn: "torn_manifest cfg (zeroes 4096)"
proof -
  have "zeroes 4 = [0, 0, 0, 0]" by (simp add: zeroes_def eval_nat_numeral)
  then have "le_value (zeroes 4) \<noteq> manifest_magic" by (simp add: manifest_magic_def)
  then show ?thesis
    by (simp add: torn_manifest_def decode_manifest_record_def decode_file_prefix_def format_consts buffer_simps check_def)
qed

theorem manifest_update_atomic_witness:
  "\<exists>d d' s' s1. write_manifest_copy host_config (memory_device 512) 10 manifest_state_ready (d, host_db) = (ESP_OK, d', s') \<and>
     load_manifest host_config (memory_device 512) (d', initial_db host_config) = (ESP_OK, d', s1) \<and>
     mr_generation (db_manifest s1) = 10"
proof -
  let ?g = "get_build_geometry host_config" and ?dev = "memory_device 512"
  have geo: "mr_geometry (db_manifest host_db) = ?g" "db_geometry host_config host_db = ?g"
    by (simp_all add: host_db_def sample_manifest_def db_geometry_def)
  have m: "db_manifest host_db = sample_manifest" "mr_generation sample_manifest = 9"
    "mr_state sample_manifest = manifest_state_ready"
    by (simp_all add: host_db_def sample_manifest_def)
  obtain b where b: "length b = 4096" "decode_manifest_record host_config b = Inr (stored_manifest sample_manifest)"
    using manifest_record_roundtrip [OF sample_manifest_valid, of "zeroes 4096"] by auto
  let ?d = "put host_image 0 b"
  have img: "length ?d = 1155072" by (simp add: host_image_def)
  have store: "working_store host_config ?dev id (?d, host_db)"
    using host_storage by (simp add: working_store_def geo working_storage_def host_image_def)
  have bytes: "get (store_bytes host_config id (?d, host_db) kind_manifest 0) 0 4096 = b"
    and other: "get (store_bytes host_config id (?d, host_db) kind_manifest 0) 4096 4096 = zeroes 4096"
  proof -
    have "region_start ?g kind_manifest 0 = 0" "region_size ?g kind_manifest = 8192"
      by (simp_all add: region_start_def region_size_def get_build_geometry_def host_config_def format_consts)
    then show "get (store_bytes host_config id (?d, host_db) kind_manifest 0) 0 4096 = b"
      "get (store_bytes host_config id (?d, host_db) kind_manifest 0) 4096 4096 = zeroes 4096"
      using b(1) by (simp_all add: store_bytes_def geo region_bytes_def get_get buffer_simps host_image_def get_zeroes)
  qed
  have old: "holds_manifest host_config id (?d, host_db) 0 (stored_manifest sample_manifest)"
    using b(2) bytes m(2) by (simp add: holds_manifest_def manifest_copy_def manifest_slot_of_def format_consts)
  have new: "valid_manifest_record host_config (sample_manifest\<lparr>mr_generation := 10, mr_state := manifest_state_ready\<rparr>)"
    by (rule valid_later_generation [OF sample_manifest_valid m(3)]) simp
  have follows: "\<not> manifest_copy_inconsistent (stored_manifest sample_manifest)
      (stored_manifest (sample_manifest\<lparr>mr_generation := 10, mr_state := manifest_state_ready\<rparr>))"
    using m by (auto simp: manifest_copy_inconsistent_def stored_manifest_def storage_geometry_equal_iff
        logical_limits_equal_iff table_reference_equal_iff format_consts)
  have torn: "torn_manifest host_config (manifest_copy host_config id (?d, initial_db host_config) (1 - 0))"
    "working_store host_config ?dev id (?d, initial_db host_config)"
    "holds_manifest host_config id (?d, initial_db host_config) 0 (stored_manifest sample_manifest)"
  proof -
    have copy: "manifest_copy host_config id (?d, initial_db host_config) i = manifest_copy host_config id (?d, host_db) i" for i
      by (simp add: manifest_copy_def restart_geometry(2) [OF geo(1)])
    show "torn_manifest host_config (manifest_copy host_config id (?d, initial_db host_config) (1 - 0))"
      unfolding copy using other zero_manifest_torn by (simp add: manifest_copy_def)
    show "working_store host_config ?dev id (?d, initial_db host_config)" using store by (simp only: restart_geometry(1) [OF geo(1)])
    show "holds_manifest host_config id (?d, initial_db host_config) 0 (stored_manifest sample_manifest)"
      using old by (simp add: holds_manifest_def copy)
  qed
  have found: "load_manifest host_config ?dev (?d, initial_db host_config) = (ESP_OK, ?d, (initial_db host_config)\<lparr>
      db_manifest := stored_manifest sample_manifest, db_manifest_slot := of_nat 0, db_manifest_valid_copy_count := 1,
      db_manifest_stabilization_required := True\<rparr>)"
    using load_manifest_single [OF torn(2) _ torn(3,1)] by (simp add: update_db_def)
  have g9: "mr_generation (db_manifest host_db) \<noteq> - 1" by (simp add: m)
  have r: "sample_manifest\<lparr>mr_generation := 10, mr_state := manifest_state_ready\<rparr> = (db_manifest host_db)
      \<lparr>mr_generation := mr_generation (db_manifest host_db) + 1, mr_state := manifest_state_ready\<rparr>"
    by (simp add: m)
  have o: "mr_generation (stored_manifest sample_manifest) = mr_generation (db_manifest host_db)"
    "mr_generation (stored_manifest sample_manifest) \<noteq> 0" by (simp_all add: m)
  obtain d' s' s1 where "write_manifest_copy host_config ?dev 10 manifest_state_ready (?d, host_db) = (ESP_OK, d', s')"
    "load_manifest host_config ?dev (d', initial_db host_config) = (ESP_OK, d', s1)"
    "mr_generation (db_manifest s1) = 10"
    using manifest_update_atomic [OF store geo(1) r g9 new old o found _ follows] by auto
  then show ?thesis by blast
qed

end
