(* ===== verification/Redundant_Copies.thy ===== *)
theory Redundant_Copies
  imports Store
begin

text \<open>
  The contract of a record kept in two redundant copies: the loop that reads every copy, skips the
  undecodable ones and insists that the others agree. \<open>Wal_Header\<close> interprets the locale on the codec of
  the WAL header.
\<close>

text \<open>
  One turn of the loop per copy; \<open>found\<close> is the record selected so far. The parameters are the
  decoder of the record, its equality function, and what the caller expects of the content.
\<close>

fun load_copies ::
  "(bytes \<Rightarrow> format_status + 'a) \<Rightarrow> ('a \<Rightarrow> 'a \<Rightarrow> bool) \<Rightarrow> ('a \<Rightarrow> bool) \<Rightarrow> (esp_err + bytes) list \<Rightarrow>
     'a option \<Rightarrow> esp_err + 'a option" where
  "load_copies decode same matches [] found = Inr found"
| "load_copies decode same matches (copy # copies) found =
     (case copy of
        Inl e \<Rightarrow> Inl e
      | Inr encoded \<Rightarrow>
          (case decode encoded of
             Inl status \<Rightarrow>
               if status = FS_new_version \<or> status = FS_invalid_revision then Inl ESP_ERR_INVALID_VERSION
               else load_copies decode same matches copies found
           | Inr candidate \<Rightarrow>
               if \<not> matches candidate then Inl ESP_ERR_INVALID_CRC
               else if (case found of None \<Rightarrow> False | Some selected \<Rightarrow> \<not> same selected candidate)
               then Inl ESP_ERR_INVALID_CRC
               else load_copies decode same matches copies (Some candidate)))"

locale redundant_record =
  fixes decode :: "bytes \<Rightarrow> format_status + 'a"
    and same :: "'a \<Rightarrow> 'a \<Rightarrow> bool"
  assumes same_iff: "same x y \<longleftrightarrow> x = y"
begin

text \<open>A copy that is the record, or one the decoder rejects without claiming a newer version.\<close>

definition good_or_torn :: "'a \<Rightarrow> bytes \<Rightarrow> bool" where
  "good_or_torn x encoded \<longleftrightarrow>
     decode encoded = Inr x \<or>
     (\<exists>status. decode encoded = Inl status \<and> status \<noteq> FS_new_version \<and> status \<noteq> FS_invalid_revision)"

lemma same_refl: "same x x"
  by (simp only: same_iff)

lemma load_copies_agree:
  assumes "\<forall>c \<in> set copies. \<exists>b. c = Inr b \<and> good_or_torn x b" "matches x" "found = None \<or> found = Some x"
  shows "load_copies decode same matches copies found =
     Inr (if found = Some x \<or> (\<exists>b. Inr b \<in> set copies \<and> decode b = Inr x) then Some x else None)"
  using assms
proof (induction copies arbitrary: found)
  case (Cons c copies)
  then obtain b where b: "c = Inr b" "good_or_torn x b" by auto
  then show ?case
  proof (cases "decode b")
    case (Inl status)
    with b have "status \<noteq> FS_new_version" "status \<noteq> FS_invalid_revision"
      by (auto simp: good_or_torn_def)
    then show ?thesis
      using Cons.IH [of found] Cons.prems b Inl by auto
  next
    case (Inr y)
    with b have y: "y = x" by (auto simp: good_or_torn_def)
    show ?thesis
      using Cons.IH [of "Some x"] Cons.prems b Inr y same_refl [of x] by auto
  qed
qed auto

text \<open>Whatever is loaded was in one of the copies, and every decodable copy is that record.\<close>

lemma load_copies_SomeD:
  assumes "load_copies decode same matches copies found = Inr (Some x)"
  shows "(found = Some x \<or> (\<exists>b. Inr b \<in> set copies \<and> decode b = Inr x \<and> matches x)) \<and>
    (\<forall>b y. Inr b \<in> set copies \<longrightarrow> decode b = Inr y \<longrightarrow> y = x) \<and> (\<forall>z. found = Some z \<longrightarrow> z = x)"
  using assms
proof (induction copies arbitrary: found)
  case (Cons c copies)
  from Cons.prems obtain b where b: "c = Inr b" by (cases c) simp_all
  show ?case
  proof (cases "decode b")
    case (Inl status)
    with Cons.prems b have "load_copies decode same matches copies found = Inr (Some x)" by (simp split: if_splits)
    note ih = Cons.IH [OF this]
    have "decode b' \<noteq> Inr y" if "Inr b' = c" for b' y using that Inl b by simp
    then show ?thesis using ih unfolding list.set(2) by blast
  next
    case (Inr y)
    with Cons.prems b have y: "matches y" "load_copies decode same matches copies (Some y) = Inr (Some x)"
      "\<And>z. found = Some z \<Longrightarrow> same z y"
      by (cases found; simp split: if_splits)+
    from Cons.IH [OF y(2)] have yx: "y = x" by blast
    have 1: "Inr b \<in> set (c # copies) \<and> decode b = Inr x \<and> matches x" using b Inr y(1) yx by simp
    have 2: "\<forall>b' y'. Inr b' \<in> set (c # copies) \<longrightarrow> decode b' = Inr y' \<longrightarrow> y' = x"
    proof (intro allI impI)
      fix b' y' assume m: "Inr b' \<in> set (c # copies)" "decode b' = Inr y'"
      show "y' = x"
      proof (cases "b' = b")
        case True
        then show ?thesis using m(2) Inr yx by simp
      next
        case False
        then have "Inr b' \<in> set copies" using m(1) b by simp
        then show ?thesis using Cons.IH [OF y(2)] m(2) by blast
      qed
    qed
    have 3: "\<forall>z. found = Some z \<longrightarrow> z = x" using y(3) yx same_iff by blast
    from 1 2 3 show ?thesis by blast
  qed
qed simp

end

end
