(* ===== verification/Wal_Header.thy ===== *)
theory Wal_Header
  imports Redundant_Copies Manifest_Store Wal_Format
begin

text \<open>
  The two redundant headers of a WAL slot (\<open>on9kvdb_wal.cpp\<close>): written together when a
  generation starts, read back with the rule of \<open>Redundant_Copies\<close>.
\<close>

definition wal_header_offset :: "nat \<Rightarrow> u64" where
  "wal_header_offset copy_slot = of_nat wal_header_region_offset + of_nat copy_slot * of_nat wal_header_slot_size"

definition make_wal_header :: "manifest_record \<Rightarrow> u32 \<Rightarrow> u64 \<Rightarrow> u64 \<Rightarrow> wal_header" where
  "make_wal_header m slot generation first_transaction_sequence = \<lparr>
     wh_database_id = mr_database_id m,
     wh_generation = generation,
     wh_first_transaction_sequence = first_transaction_sequence,
     wh_slot = slot,
     wh_record_region_start = of_nat wal_record_region_offset,
     wh_record_region_end = sg_wal_size (mr_geometry m),
     wh_frame_size = of_nat wal_frame_size,
     wh_state = wal_header_state_active\<rparr>"

fun write_wal_headers ::
  "config \<Rightarrow> 'd block_device \<Rightarrow> u32 \<Rightarrow> wal_header \<Rightarrow> nat list \<Rightarrow> 'd world \<Rightarrow> esp_err \<times> 'd world" where
  "write_wal_headers cfg dev slot header [] w = (ESP_OK, w)"
| "write_wal_headers cfg dev slot header (copy_slot # copy_slots) w =
     (case encode_wal_header (zeroes wal_header_slot_size) header of
        None \<Rightarrow> (ESP_ERR_INVALID_STATE, w)
      | Some io_frame \<Rightarrow>
          on_ok (write_store cfg dev kind_wal slot (wal_header_offset copy_slot) io_frame w)
            (write_wal_headers cfg dev slot header copy_slots))"

definition ensure_wal_header ::
  "config \<Rightarrow> 'd block_device \<Rightarrow> u32 \<Rightarrow> u64 \<Rightarrow> u64 \<Rightarrow> 'd world \<Rightarrow> esp_err \<times> 'd world" where
  "ensure_wal_header cfg dev slot generation first_transaction_sequence w =
     (if unat slot \<ge> wal_file_count \<or> generation = 0 \<or> first_transaction_sequence = 0
      then (ESP_ERR_INVALID_ARG, w)
      else
        on_ok (write_wal_headers cfg dev slot
                 (make_wal_header (db_manifest (snd w)) slot generation first_transaction_sequence)
                 [0..<wal_header_slot_count] w)
          (sync_store dev))"

definition initialise_first_wal :: "config \<Rightarrow> 'd block_device \<Rightarrow> 'd world \<Rightarrow> esp_err \<times> 'd world" where
  "initialise_first_wal cfg dev w = ensure_wal_header cfg dev 0 1 1 w"

definition wal_header_matches :: "manifest_record \<Rightarrow> u32 \<Rightarrow> u64 \<Rightarrow> wal_header \<Rightarrow> bool" where
  "wal_header_matches m slot expected_generation candidate \<longleftrightarrow>
     wh_database_id candidate = mr_database_id m \<and> wh_slot candidate = slot \<and>
     wh_generation candidate = expected_generation \<and>
     wh_record_region_end candidate = sg_wal_size (mr_geometry m)"

definition load_wal_header ::
  "config \<Rightarrow> 'd block_device \<Rightarrow> u32 \<Rightarrow> u64 \<Rightarrow> 'd world \<Rightarrow> esp_err + wal_header" where
  "load_wal_header cfg dev slot expected_generation w =
     (if unat slot \<ge> wal_file_count \<or> expected_generation = 0 then Inl ESP_ERR_INVALID_ARG
      else
        then_read
          (load_copies decode_wal_header wal_header_equal
             (wal_header_matches (db_manifest (snd w)) slot expected_generation)
             (map (\<lambda>copy_slot. read_store cfg dev kind_wal slot (wal_header_offset copy_slot) wal_header_size w)
               [0..<wal_header_slot_count]) None)
          (\<lambda>selected. case selected of None \<Rightarrow> Inl ESP_ERR_INVALID_CRC | Some header \<Rightarrow> Inr header))"

interpretation wal_headers: redundant_record decode_wal_header wal_header_equal
  by unfold_locales (rule wal_header_equal_iff)

section \<open>A header survives the loss of one copy\<close>

lemma wal_slots:
  "i < 2 \<Longrightarrow> unat (wal_header_offset i) = 8192 + i * 4096" "[0..<wal_header_slot_count] = [0, 1]"
proof -
  show "[0..<wal_header_slot_count] = [0, 1]" by (simp add: format_consts upt_rec)
  assume "i < 2"
  then have "i = 0 \<or> i = 1" by linarith
  then show "unat (wal_header_offset i) = 8192 + i * 4096"
    by (auto simp: wal_header_offset_def format_consts)
qed

lemma wal_region:
  assumes "working_store cfg dev img w" "unat slot < 2"
  shows "store_exists cfg w kind_wal slot" "store_size cfg w kind_wal = unat (sg_wal_size (db_geometry cfg (snd w)))"
    "20480 \<le> store_size cfg w kind_wal" "4096 dvd store_size cfg w kind_wal"
proof -
  have g: "validate_storage_geometry (db_geometry cfg (snd w))"
    using assms(1) by (simp add: working_store_def working_storage_def)
  note D = validate_storage_geometry_D [OF g]
  show "store_exists cfg w kind_wal slot"
    using assms(2) D(3) by (simp add: store_exists_def region_exists_def word_less_nat_alt)
  show "store_size cfg w kind_wal = unat (sg_wal_size (db_geometry cfg (snd w)))"
    "20480 \<le> store_size cfg w kind_wal" "4096 dvd store_size cfg w kind_wal"
    using D(8,11) by (simp_all add: store_size_def region_size_def)
qed

text \<open>The header of a slot, as both copies should hold it.\<close>

definition wal_header_copy :: "config \<Rightarrow> ('d \<Rightarrow> bytes) \<Rightarrow> 'd world \<Rightarrow> u32 \<Rightarrow> nat \<Rightarrow> bytes" where
  "wal_header_copy cfg img w slot copy_slot = get (store_bytes cfg img w kind_wal slot) (8192 + copy_slot * 4096) 64"

lemma load_wal_header_redundant:
  assumes "working_store cfg dev img w" "unat slot < 2" "generation \<noteq> 0"
    "wal_header_matches (db_manifest (snd w)) slot generation h"
    "\<forall>i < 2. wal_headers.good_or_torn h (wal_header_copy cfg img w slot i)"
    "i < 2" "decode_wal_header (wal_header_copy cfg img w slot i) = Inr h"
  shows "load_wal_header cfg dev slot generation w = Inr h"
proof -
  note R = wal_region [OF assms(1,2)]
  have read: "read_store cfg dev kind_wal slot (wal_header_offset k) wal_header_size w = Inr (wal_header_copy cfg img w slot k)"
    if "k < 2" for k
    using read_store_ok [OF assms(1) R(1), of "wal_header_offset k" wal_header_size] R(3) that
    by (simp add: wal_slots format_consts wal_header_copy_def)
  let ?copies = "map (\<lambda>k. read_store cfg dev kind_wal slot (wal_header_offset k) wal_header_size w) [0..<wal_header_slot_count]"
  have copies: "?copies = map (\<lambda>k. Inr (wal_header_copy cfg img w slot k)) [0, 1]"
    unfolding wal_slots(2) using read by simp
  have i: "i = 0 \<or> i = 1" using assms(6) by linarith
  have "load_copies decode_wal_header wal_header_equal (wal_header_matches (db_manifest (snd w)) slot generation)
      ?copies None = Inr (Some h)"
    using wal_headers.load_copies_agree [of ?copies h "wal_header_matches (db_manifest (snd w)) slot generation" None]
      assms(4,5,7) i unfolding copies by fastforce
  then show ?thesis
    using assms(2,3) by (simp add: load_wal_header_def format_consts)
qed

lemma load_wal_header_InrD:
  assumes "load_wal_header cfg dev slot generation w = Inr h"
  shows "\<not> wal_header_invalid h" "wal_header_matches (db_manifest (snd w)) slot generation h" "unat slot < 2"
proof -
  obtain copies where c: "load_copies decode_wal_header wal_header_equal
      (wal_header_matches (db_manifest (snd w)) slot generation) copies None = Inr (Some h)"
    using assms by (auto simp: load_wal_header_def then_read_Inr split: if_splits option.splits)
  then obtain b where "decode_wal_header b = Inr h" "wal_header_matches (db_manifest (snd w)) slot generation h"
    using wal_headers.load_copies_SomeD [OF c] by blast
  then show "\<not> wal_header_invalid h" "wal_header_matches (db_manifest (snd w)) slot generation h"
    using decode_wal_header_InrD by simp_all
  show "unat slot < 2"
    using assms by (simp add: load_wal_header_def format_consts split: if_splits)
qed

end
