(* ===== verification/Wal_Payload.thy ===== *)
theory Wal_Payload
  imports Memtable Store
begin

text \<open>
  The payload of a WAL transaction (\<open>on9kvdb_wal.cpp\<close>): the byte stream a transaction is written
  as, produced in slices that fit a frame, and its parser at recovery. The lemmas show that the
  slices are those of one stream, that the running checksum is the checksum of it, and that parsing
  the stream gives a transaction with the same effect on the memtable.
\<close>

definition transaction_header_size :: nat where [format_consts]: "transaction_header_size = 8"
definition mutation_header_size :: nat where [format_consts]: "mutation_header_size = 32"
definition mutation_flag_external_value :: u8 where [format_consts]: "mutation_flag_external_value = 1"

definition max_transaction_payload_size :: "config \<Rightarrow> u32" where
  "max_transaction_payload_size cfg =
     cfg_transaction_staging_size cfg + of_nat transaction_header_size + of_nat max_name_len +
     cfg_max_transaction_mutations cfg * (of_nat mutation_header_size + of_nat max_name_len)"

section \<open>The stream\<close>

definition calc_mutation_checksum :: "bytes \<Rightarrow> bytes \<Rightarrow> bytes \<Rightarrow> u32" where
  "calc_mutation_checksum header key val =
     (let crc = calc_crc32_update (- 1) (get header 0 28);
          crc = calc_crc32_update crc (zeroes 4);
          crc = calc_crc32_update crc key;
          crc = calc_crc32_update crc val in NOT crc)"

definition is_zero_bytes :: "bytes \<Rightarrow> nat \<Rightarrow> bool" where
  "is_zero_bytes data n \<longleftrightarrow> (\<forall>index \<in> set [0..<n]. data ! index = 0)"

definition mutation_inline_size :: "mutation_slot \<Rightarrow> nat" where
  "mutation_inline_size m = (if mu_external_value m then 0 else unat (mu_value_size m))"

definition mutation_inline_value :: "bytes \<Rightarrow> mutation_slot \<Rightarrow> bytes" where
  "mutation_inline_value staging m =
     (if mu_external_value m then [] else get staging (unat (mu_value_offset m)) (unat (mu_value_size m)))"

text \<open>The header of a mutation before its checksum is entered.\<close>

definition mutation_fields :: "mutation_slot \<Rightarrow> bytes" where
  "mutation_fields m =
     (let h = zeroes mutation_header_size;
          h = put h 0 [mu_kind m];
          h = put h 1 [mu_reserved0 m];
          h = put h 2 (le_bytes 2 (of_nat (length (mu_key m)) :: u16));
          h = put h 4 (le_bytes 4 (mu_value_size m)) in
      if mu_external_value m then
        let r = mu_external_value_ref m;
            h = put h 8 [mutation_flag_external_value];
            h = put h 9 [vr_bank_slot r];
            h = put h 12 (le_bytes 8 (vr_bank_generation r));
            h = put h 20 (le_bytes 4 (vr_first_chunk_offset r)) in
        put h 24 (le_bytes 4 (vr_value_checksum r))
      else h)"

definition mutation_header :: "bytes \<Rightarrow> mutation_slot \<Rightarrow> bytes" where
  "mutation_header staging m =
     (let h = mutation_fields m in
      put h 28 (le_bytes 4 (calc_mutation_checksum h (mu_key m) (mutation_inline_value staging m))))"

definition mutation_segments :: "bytes \<Rightarrow> mutation_slot \<Rightarrow> bytes list" where
  "mutation_segments staging m =
     [mutation_header staging m, mu_key m] @
     (if mutation_inline_size m > 0 then [mutation_inline_value staging m] else [])"

definition transaction_header :: "handle_slot \<Rightarrow> transaction_slot \<Rightarrow> bytes" where
  "transaction_header handle t =
     (let h = zeroes transaction_header_size;
          h = put h 0 (le_bytes 2 (of_nat (length (hs_namespace_name handle)) :: u16)) in
      put h 2 (le_bytes 2 (tx_mutation_count t)))"

definition used_mutations :: "transaction_slot \<Rightarrow> mutation_slot list" where
  "used_mutations t = take (unat (tx_mutation_count t)) (tx_mutations t)"

definition payload_segments :: "bytes \<Rightarrow> transaction_slot \<Rightarrow> handle_slot \<Rightarrow> bytes list" where
  "payload_segments staging t handle =
     [transaction_header handle t, hs_namespace_name handle] @
     concat (map (mutation_segments staging) (used_mutations t))"

definition mutation_payload_size :: "mutation_slot \<Rightarrow> nat" where
  "mutation_payload_size m = mutation_header_size + length (mu_key m) + mutation_inline_size m"

definition transaction_payload_size :: "transaction_slot \<Rightarrow> handle_slot \<Rightarrow> nat" where
  "transaction_payload_size t handle =
     transaction_header_size + length (hs_namespace_name handle) +
     sum_list (map mutation_payload_size (used_mutations t))"

section \<open>Copying a slice of the stream\<close>

record wal_payload_copy_state =
  pc_stream_offset :: u32
  pc_request_size :: nat
  pc_destination :: bytes
  pc_logical_offset :: u32
  pc_copied :: nat

definition copy_wal_payload_segment :: "bytes \<Rightarrow> wal_payload_copy_state \<Rightarrow> wal_payload_copy_state" where
  "copy_wal_payload_segment data copy_state =
     (let logical_offset = unat (pc_logical_offset copy_state);
          segment_end = logical_offset + length data;
          request_start = unat (pc_stream_offset copy_state);
          request_end = request_start + pc_request_size copy_state;
          copy_state =
            (if segment_end > request_start \<and> logical_offset < request_end then
               let begin_at = (if request_start > logical_offset then request_start - logical_offset else 0);
                   end_at = (if request_end < segment_end then request_end - logical_offset else length data);
                   len = end_at - begin_at in
               copy_state\<lparr>pc_destination := put (pc_destination copy_state) (pc_copied copy_state) (get data begin_at len),
                          pc_copied := pc_copied copy_state + len\<rparr>
             else copy_state)
      in copy_state\<lparr>pc_logical_offset := pc_logical_offset copy_state + of_nat (length data)\<rparr>)"

text \<open>The slice of \<open>length destination\<close> bytes from \<open>stream_offset\<close>; the result is the filled buffer.\<close>

definition copy_transaction_payload ::
  "bytes \<Rightarrow> transaction_slot \<Rightarrow> handle_slot \<Rightarrow> u32 \<Rightarrow> bytes \<Rightarrow> esp_err + bytes" where
  "copy_transaction_payload staging t handle stream_offset destination =
     (let total_size = transaction_payload_size t handle in
      if unat stream_offset > total_size \<or> length destination > total_size - unat stream_offset
      then Inl ESP_ERR_INVALID_SIZE
      else
        let copy_state = fold copy_wal_payload_segment (payload_segments staging t handle)
              \<lparr>pc_stream_offset = stream_offset, pc_request_size = length destination,
               pc_destination = destination, pc_logical_offset = 0, pc_copied = 0\<rparr> in
        if pc_copied copy_state = length destination then Inr (pc_destination copy_state)
        else Inl ESP_ERR_INVALID_SIZE)"

text \<open>The running checksum over the slices of at most one frame's capacity.\<close>

function payload_checksum ::
  "bytes \<Rightarrow> transaction_slot \<Rightarrow> handle_slot \<Rightarrow> nat \<Rightarrow> nat \<Rightarrow> u32 \<Rightarrow> esp_err + u32" where
  "payload_checksum staging t handle payload_size offset crc =
     (if offset < payload_size then
        let chunk_size = min (payload_size - offset) wal_frame_payload_capacity in
        (case copy_transaction_payload staging t handle (of_nat offset) (zeroes chunk_size) of
           Inl e \<Rightarrow> Inl e
         | Inr chunk \<Rightarrow>
             payload_checksum staging t handle payload_size (offset + chunk_size) (calc_crc32_update crc chunk))
      else Inr crc)"
  by pat_completeness auto
termination
  by (relation "measure (\<lambda>(_, _, _, payload_size, offset, _). payload_size - offset)") (auto simp: format_consts)

declare payload_checksum.simps [simp del]

definition calculate_transaction_payload ::
  "config \<Rightarrow> bytes \<Rightarrow> transaction_slot \<Rightarrow> handle_slot \<Rightarrow> esp_err + (u32 \<times> u32)" where
  "calculate_transaction_payload cfg staging t handle =
     (if tx_mutation_count t = 0 \<or> ucast (tx_mutation_count t) > cfg_max_transaction_mutations cfg
      then Inl ESP_ERR_INVALID_ARG
      else
        let payload_size = transaction_payload_size t handle in
        if payload_size > unat (max_transaction_payload_size cfg) \<or> payload_size > unat (- 1 :: u32)
        then Inl ESP_ERR_INVALID_SIZE
        else
          (case payload_checksum staging t handle payload_size 0 (- 1) of
             Inl e \<Rightarrow> Inl e
           | Inr crc \<Rightarrow> Inr (of_nat payload_size, NOT crc)))"

section \<open>Parsing a recovered transaction\<close>

definition recovered_mutation_invalid :: "config \<Rightarrow> storage_geometry \<Rightarrow> mutation_slot \<Rightarrow> bool" where
  "recovered_mutation_invalid cfg g m \<longleftrightarrow>
     (if mu_kind m = mutation_kind_tombstone
      then mu_reserved0 m \<noteq> 0 \<or> mu_value_size m \<noteq> 0 \<or> mu_external_value m
      else mu_kind m \<noteq> mutation_kind_set \<or> mu_reserved0 m \<noteq> 0 \<or>
        (if mu_external_value m
         then mu_value_size m \<le> cfg_inline_value_size cfg \<or>
              \<not> value_ref_is_valid (mu_external_value_ref m) (sg_value_bank_size g)
         else mu_value_size m > cfg_inline_value_size cfg))"

text \<open>The external reference of a mutation header, read at the start of the mutation.\<close>

definition recovered_value_ref :: "bytes \<Rightarrow> nat \<Rightarrow> u32 \<Rightarrow> value_ref option" where
  "recovered_value_ref payload mutation_start value_size = do {
     bank_generation \<leftarrow> read_u64_le payload (mutation_start + 12);
     first_chunk_offset \<leftarrow> read_u32_le payload (mutation_start + 20);
     value_checksum \<leftarrow> read_u32_le payload (mutation_start + 24);
     Some (empty_value_ref\<lparr>vr_bank_slot := payload ! (mutation_start + 9), vr_bank_generation := bank_generation,
       vr_first_chunk_offset := first_chunk_offset, vr_value_checksum := value_checksum,
       vr_value_size := value_size\<rparr>) }"

text \<open>
  One turn of the parser's loop; \<open>previous\<close> are the mutations parsed before. The result is the
  mutation, the offset behind it and the updated sum of the inline values.
\<close>

definition parse_mutation ::
  "config \<Rightarrow> storage_geometry \<Rightarrow> bytes \<Rightarrow> mutation_slot list \<Rightarrow> nat \<Rightarrow> u32 \<Rightarrow> esp_err + (mutation_slot \<times> nat \<times> u32)" where
  "parse_mutation cfg g payload previous mutation_start staged_value_bytes =
     require_that (mutation_start \<le> length payload \<and> mutation_header_size \<le> length payload - mutation_start)
       ESP_ERR_INVALID_RESPONSE
    (case do {
        key_size \<leftarrow> read_u16_le payload (mutation_start + 2);
        value_size \<leftarrow> read_u32_le payload (mutation_start + 4);
        mutation_checksum \<leftarrow> read_u32_le payload (mutation_start + 28);
        Some (key_size, value_size, mutation_checksum) }
     of None \<Rightarrow> Inl ESP_ERR_INVALID_RESPONSE
     | Some (key_size, value_size, mutation_checksum) \<Rightarrow>
       let flags = payload ! (mutation_start + 8);
           external = (flags AND mutation_flag_external_value \<noteq> 0);
           offset = mutation_start + mutation_header_size in
       require_that (flags AND NOT mutation_flag_external_value = 0 \<and> payload ! (mutation_start + 10) = 0 \<and>
                     payload ! (mutation_start + 11) = 0 \<and>
                     (external \<or> is_zero_bytes (drop (mutation_start + 9) payload) 19)) ESP_ERR_INVALID_RESPONSE
      (require_that (key_size \<noteq> 0 \<and> unat key_size \<le> max_name_len \<and> unat key_size \<le> length payload - offset)
         ESP_ERR_INVALID_RESPONSE
      (let key = get payload offset (unat key_size) in
       require_that (\<forall>p \<in> set previous. \<not> (length (mu_key p) = length key \<and> memcmp (mu_key p) key (length key) = 0))
         ESP_ERR_INVALID_RESPONSE
      (let offset = offset + unat key_size;
           inline_value_size = (if external then 0 else value_size) in
       require_that (unat inline_value_size \<le> length payload - offset \<and>
                     (external \<or> value_size \<le> cfg_inline_value_size cfg)) ESP_ERR_INVALID_RESPONSE
      (require_that (calc_mutation_checksum (drop mutation_start payload) key
                       (get payload offset (unat inline_value_size)) = mutation_checksum) ESP_ERR_INVALID_CRC
      (case if external then recovered_value_ref payload mutation_start value_size else Some empty_value_ref
       of None \<Rightarrow> Inl ESP_ERR_INVALID_RESPONSE
       | Some reference \<Rightarrow>
         let m = empty_mutation\<lparr>mu_kind := payload ! mutation_start, mu_reserved0 := payload ! (mutation_start + 1),
                   mu_key := key, mu_value_offset := of_nat offset, mu_value_size := value_size,
                   mu_external_value := external, mu_external_value_ref := reference\<rparr> in
         require_that (\<not> recovered_mutation_invalid cfg g m) ESP_ERR_INVALID_RESPONSE
        (require_that (inline_value_size \<le> cfg_transaction_staging_size cfg - staged_value_bytes) ESP_ERR_INVALID_SIZE
        (Inr (m, offset + unat inline_value_size, staged_value_bytes + inline_value_size)))))))))"

fun parse_mutations ::
  "config \<Rightarrow> storage_geometry \<Rightarrow> bytes \<Rightarrow> nat \<Rightarrow> mutation_slot list \<Rightarrow> nat \<Rightarrow> u32 \<Rightarrow>
     esp_err + (mutation_slot list \<times> nat \<times> u32)" where
  "parse_mutations cfg g payload 0 previous offset staged_value_bytes = Inr (previous, offset, staged_value_bytes)"
| "parse_mutations cfg g payload (Suc n) previous offset staged_value_bytes =
     (case parse_mutation cfg g payload previous offset staged_value_bytes of
        Inl e \<Rightarrow> Inl e
      | Inr (m, offset, staged_value_bytes) \<Rightarrow>
          parse_mutations cfg g payload n (previous @ [m]) offset staged_value_bytes)"

text \<open>
  The namespace name and the transaction. On an error the source leaves the slot partly filled; the
  recovery it belongs to fails as a whole and the initialisation discards the slot.
\<close>

definition parse_recovered_transaction ::
  "config \<Rightarrow> storage_geometry \<Rightarrow> bytes \<Rightarrow> u16 \<Rightarrow> esp_err + (bytes \<times> transaction_slot)" where
  "parse_recovered_transaction cfg g payload expected_mutation_count =
     require_that (transaction_header_size \<le> length payload \<and> expected_mutation_count \<noteq> 0 \<and>
                   ucast expected_mutation_count \<le> cfg_max_transaction_mutations cfg) ESP_ERR_INVALID_ARG
    (case do {
        namespace_size \<leftarrow> read_u16_le payload 0;
        mutation_count \<leftarrow> read_u16_le payload 2;
        reserved \<leftarrow> read_u32_le payload 4;
        Some (namespace_size, mutation_count, reserved) }
     of None \<Rightarrow> Inl ESP_ERR_INVALID_RESPONSE
     | Some (namespace_size, mutation_count, reserved) \<Rightarrow>
       require_that (reserved = 0 \<and> mutation_count = expected_mutation_count \<and> namespace_size \<noteq> 0 \<and>
                     unat namespace_size \<le> max_name_len \<and>
                     unat namespace_size \<le> length payload - transaction_header_size) ESP_ERR_INVALID_RESPONSE
      (case parse_mutations cfg g payload (unat mutation_count) []
              (transaction_header_size + unat namespace_size) 0 of
         Inl e \<Rightarrow> Inl e
       | Inr (ms, offset, staged_value_bytes) \<Rightarrow>
           require_that (offset = length payload) ESP_ERR_INVALID_RESPONSE
          (Inr (get payload transaction_header_size (unat namespace_size),
                empty_transaction\<lparr>tx_mutation_count := mutation_count, tx_staged_value_bytes := staged_value_bytes,
                  tx_mutations := ms @ drop (length ms) (tx_mutations empty_transaction)\<rparr>))))"

section \<open>The slices are slices of one stream\<close>

definition transaction_stream :: "bytes \<Rightarrow> transaction_slot \<Rightarrow> handle_slot \<Rightarrow> bytes" where
  "transaction_stream staging t handle = concat (payload_segments staging t handle)"

text \<open>The inline values of the mutations lie inside the staging buffer.\<close>

definition values_staged :: "bytes \<Rightarrow> transaction_slot \<Rightarrow> bool" where
  "values_staged staging t \<longleftrightarrow>
     (\<forall>m \<in> set (used_mutations t). \<not> mu_external_value m \<longrightarrow>
        unat (mu_value_offset m) + unat (mu_value_size m) \<le> length staging)"

lemma length_mutation_header [simp]: "length (mutation_header staging m) = 32"
  by (simp add: mutation_header_def mutation_fields_def Let_def format_consts)

lemma length_transaction_header [simp]: "length (transaction_header handle t) = 8"
  by (simp add: transaction_header_def Let_def format_consts)

lemma mutation_segments_concat:
  "concat (mutation_segments staging m) = mutation_header staging m @ mu_key m @ mutation_inline_value staging m"
  by (simp add: mutation_segments_def mutation_inline_value_def mutation_inline_size_def)

lemma length_mutation_segments:
  assumes "\<not> mu_external_value m \<longrightarrow> unat (mu_value_offset m) + unat (mu_value_size m) \<le> length staging"
  shows "length (concat (mutation_segments staging m)) = mutation_payload_size m"
  using assms
  by (simp only: mutation_segments_concat)
     (simp add: mutation_payload_size_def mutation_inline_value_def mutation_inline_size_def format_consts)

lemma length_transaction_stream:
  assumes "values_staged staging t"
  shows "length (transaction_stream staging t handle) = transaction_payload_size t handle"
proof -
  have "length (concat (concat (map (mutation_segments staging) ms))) = sum_list (map mutation_payload_size ms)"
    if "set ms \<subseteq> set (used_mutations t)" for ms
    using that
  proof (induction ms)
    case (Cons m ms)
    then show ?case
      using length_mutation_segments [of m staging] assms by (simp add: values_staged_def)
  qed simp
  from this [of "used_mutations t"] show ?thesis
    by (simp add: transaction_stream_def payload_segments_def transaction_payload_size_def format_consts)
qed

text \<open>After the segments \<open>xs\<close> the slice holds the part of it that lies in their concatenation.\<close>

definition slice_of :: "u32 \<Rightarrow> nat \<Rightarrow> bytes \<Rightarrow> wal_payload_copy_state \<Rightarrow> bool" where
  "slice_of start n xs st \<longleftrightarrow>
     pc_stream_offset st = start \<and> pc_request_size st = n \<and> length (pc_destination st) = n \<and>
     unat (pc_logical_offset st) = length xs \<and> pc_copied st = length (get xs (unat start) n) \<and>
     take (pc_copied st) (pc_destination st) = get xs (unat start) n"

lemma get_append_split:
  "get (xs @ ys) i n = get xs i n @ get ys (i - length xs) (n - (length xs - i))"
  by (simp add: get_def)

lemma take_upto_length: "take n xs = take (min n (length xs)) xs"
  by (simp add: min_def)

lemma copy_segment_slice:
  assumes "slice_of start n xs st" "length (xs @ data) < 2 ^ 32"
  shows "slice_of start n (xs @ data) (copy_wal_payload_segment data st)"
proof -
  let ?rs = "unat start" and ?L = "length xs"
  define piece where "piece = get data (?rs - ?L) (n - (?L - ?rs))"
  have eq: "get (xs @ data) ?rs n = get xs ?rs n @ piece"
    by (simp add: get_append_split piece_def)
  have fit: "pc_copied st + length piece \<le> n"
    using assms(1) arg_cong [OF eq, of length] length_get_le [of "xs @ data" ?rs n] by (simp add: slice_of_def)
  have lo: "unat (pc_logical_offset st + of_nat (length data)) = ?L + length data"
    using assms by (simp add: slice_of_def unat_add_exact)
  have move: "get data (if ?rs > ?L then ?rs - ?L else 0)
      ((if ?rs + n < ?L + length data then ?rs + n - ?L else length data) - (if ?rs > ?L then ?rs - ?L else 0)) = piece"
    if "?L + length data > ?rs" "?L < ?rs + n"
    using that unfolding piece_def get_def
    by (subst (2) take_upto_length) (auto simp: min_def intro!: arg_cong2 [of _ _ _ _ take])
  have none: "piece = []" if "\<not> (?L + length data > ?rs \<and> ?L < ?rs + n)"
    using that by (auto simp: piece_def get_def)
  have before: "take (length (get xs ?rs n)) (pc_destination st) = get xs ?rs n"
    using assms(1) by (auto simp: slice_of_def)
  show ?thesis
  proof (cases "?L + length data > ?rs \<and> ?L < ?rs + n")
    case True
    let ?b = "if ?rs > ?L then ?rs - ?L else 0"
      and ?e = "if ?rs + n < ?L + length data then ?rs + n - ?L else length data"
    have len: "?e - ?b = length piece"
      using True by (auto simp: piece_def get_def)
    have "copy_wal_payload_segment data st = st\<lparr>pc_destination := put (pc_destination st) (pc_copied st) piece,
        pc_copied := pc_copied st + length piece,
        pc_logical_offset := pc_logical_offset st + of_nat (length data)\<rparr>"
      using True assms(1) move len by (simp add: copy_wal_payload_segment_def slice_of_def Let_def)
    moreover have "take (pc_copied st + length piece) (put (pc_destination st) (pc_copied st) piece) =
        take (pc_copied st) (pc_destination st) @ piece"
      using fit assms(1) by (simp add: put_def slice_of_def)
    ultimately show ?thesis
      using assms(1) fit lo eq before by (simp add: slice_of_def)
  next
    case False
    then have "copy_wal_payload_segment data st =
        st\<lparr>pc_logical_offset := pc_logical_offset st + of_nat (length data)\<rparr>"
      using assms(1) by (auto simp: copy_wal_payload_segment_def slice_of_def Let_def)
    then show ?thesis
      using assms(1) lo eq before none [OF False] by (simp add: slice_of_def)
  qed
qed

lemma copy_segments_slice:
  assumes "slice_of start n xs st" "length (xs @ concat segments) < 2 ^ 32"
  shows "slice_of start n (xs @ concat segments) (fold copy_wal_payload_segment segments st)"
  using assms
proof (induction segments arbitrary: xs st)
  case (Cons data segments)
  have "slice_of start n (xs @ data) (copy_wal_payload_segment data st)"
    using Cons.prems by (intro copy_segment_slice) simp_all
  then show ?case
    using Cons.IH [of "xs @ data"] Cons.prems(2) by simp
qed simp

lemma copy_transaction_payload_stream:
  assumes "values_staged staging t" "transaction_payload_size t handle < 2 ^ 32"
    "unat start + length destination \<le> transaction_payload_size t handle"
  shows "copy_transaction_payload staging t handle start destination =
    Inr (get (transaction_stream staging t handle) (unat start) (length destination))"
proof -
  let ?S = "transaction_stream staging t handle" and ?n = "length destination"
  let ?st = "fold copy_wal_payload_segment (payload_segments staging t handle)
    \<lparr>pc_stream_offset = start, pc_request_size = ?n, pc_destination = destination,
     pc_logical_offset = 0, pc_copied = 0\<rparr>"
  have len: "length ?S = transaction_payload_size t handle" by (rule length_transaction_stream [OF assms(1)])
  have "slice_of start ?n ([] @ concat (payload_segments staging t handle)) ?st"
    using assms(2) len by (intro copy_segments_slice) (simp_all add: slice_of_def get_def transaction_stream_def)
  then have "slice_of start ?n ?S ?st" by (simp add: transaction_stream_def)
  then have "pc_copied ?st = ?n" "pc_destination ?st = get ?S (unat start) ?n"
    using assms(3) len by (auto simp: slice_of_def)
  then show ?thesis
    using assms(3) by (simp add: copy_transaction_payload_def Let_def)
qed

lemma payload_checksum_stream:
  assumes "values_staged staging t" "transaction_payload_size t handle < 2 ^ 32"
    "n = transaction_payload_size t handle" "offset \<le> n"
  shows "payload_checksum staging t handle n offset crc =
    Inr (calc_crc32_update crc (drop offset (transaction_stream staging t handle)))"
  using assms(4)
proof (induction "n - offset" arbitrary: offset crc rule: less_induct)
  case less
  let ?S = "transaction_stream staging t handle"
  have len: "length ?S = n" using length_transaction_stream [OF assms(1)] assms(3) by simp
  show ?case
  proof (cases "offset < n")
    case True
    define k where "k = min (n - offset) wal_frame_payload_capacity"
    have k: "0 < k" "offset + k \<le> n" using True by (auto simp: k_def format_consts)
    have "copy_transaction_payload staging t handle (of_nat offset) (zeroes k) = Inr (get ?S offset k)"
      using copy_transaction_payload_stream [OF assms(1,2), of "of_nat offset" "zeroes k"] assms(2,3) k by simp
    moreover have "drop offset ?S = get ?S offset k @ drop (offset + k) ?S"
      by (simp add: get_def add.commute flip: drop_drop)
    moreover have "n - (offset + k) < n - offset" using k True by simp
    ultimately show ?thesis
      using less.hyps [of "offset + k" "calc_crc32_update crc (get ?S offset k)"] True k
      by (subst payload_checksum.simps) (simp add: Let_def calc_crc32_update_append flip: k_def)
  next
    case False
    then show ?thesis
      using less.prems len by (subst payload_checksum.simps) simp
  qed
qed

lemma calculate_transaction_payload_stream:
  assumes "values_staged staging t" "tx_mutation_count t \<noteq> 0"
    "ucast (tx_mutation_count t) \<le> cfg_max_transaction_mutations cfg"
    "transaction_payload_size t handle \<le> unat (max_transaction_payload_size cfg)"
  shows "calculate_transaction_payload cfg staging t handle =
    Inr (of_nat (transaction_payload_size t handle), calc_crc32 (transaction_stream staging t handle))"
proof -
  have "transaction_payload_size t handle < 2 ^ 32"
    using assms(4) unat_less_pow [of "max_transaction_payload_size cfg"] by simp
  then show ?thesis
    using assms payload_checksum_stream [OF assms(1), of handle "transaction_payload_size t handle" 0 "- 1"]
    by (simp add: calculate_transaction_payload_def Let_def calc_crc32_def unat_max_word not_less not_le)
qed

section \<open>Parsing the stream\<close>

text \<open>What the parser accepts of a mutation; the staging operations establish it.\<close>

definition recoverable_mutation :: "config \<Rightarrow> storage_geometry \<Rightarrow> bytes \<Rightarrow> mutation_slot \<Rightarrow> bool" where
  "recoverable_mutation cfg g staging m \<longleftrightarrow>
     valid_name (mu_key m) \<and> \<not> recovered_mutation_invalid cfg g m \<and>
     (if mu_external_value m then vr_value_size (mu_external_value_ref m) = mu_value_size m
      else unat (mu_value_offset m) + unat (mu_value_size m) \<le> length staging)"

text \<open>The mutation the parser makes of it: the same, with the value at its place in the payload.\<close>

definition recovered_mutation :: "mutation_slot \<Rightarrow> nat \<Rightarrow> mutation_slot" where
  "recovered_mutation m value_offset = m\<lparr>mu_value_offset := of_nat value_offset,
     mu_previous_value_size := 0, mu_previous_state := 0,
     mu_external_value_ref := (if mu_external_value m then mu_external_value_ref m else empty_value_ref)\<rparr>"

lemmas mutation_header_defs = mutation_header_def mutation_fields_def Let_def format_consts buffer_simps
  calc_mutation_checksum_def

lemma mutation_header_fields:
  "mutation_header staging m ! 0 = mu_kind m" "mutation_header staging m ! 1 = mu_reserved0 m"
  "le_value (get (mutation_header staging m) 2 2) = (of_nat (length (mu_key m)) :: u16)"
  "le_value (get (mutation_header staging m) 4 4) = mu_value_size m"
  "mutation_header staging m ! 8 = (if mu_external_value m then mutation_flag_external_value else 0)"
  "mutation_header staging m ! 10 = 0" "mutation_header staging m ! 11 = 0"
  "le_value (get (mutation_header staging m) 28 4) =
     calc_mutation_checksum (mutation_header staging m) (mu_key m) (mutation_inline_value staging m)"
  by (simp_all add: mutation_header_defs)

lemma mutation_header_inline:
  "\<not> mu_external_value m \<Longrightarrow> get (mutation_header staging m) 9 19 = zeroes 19"
  by (simp add: mutation_header_defs)

lemma mutation_header_external:
  assumes "mu_external_value m"
  shows "mutation_header staging m ! 9 = vr_bank_slot (mu_external_value_ref m)"
    "le_value (get (mutation_header staging m) 12 8) = vr_bank_generation (mu_external_value_ref m)"
    "le_value (get (mutation_header staging m) 20 4) = vr_first_chunk_offset (mu_external_value_ref m)"
    "le_value (get (mutation_header staging m) 24 4) = vr_value_checksum (mu_external_value_ref m)"
  using assms by (simp_all add: mutation_header_defs)

text \<open>A header at an offset of the payload reads like the header itself.\<close>

lemma header_at:
  assumes "off + 32 \<le> length payload" "get payload off 32 = h"
  shows "\<And>i. i < 32 \<Longrightarrow> payload ! (off + i) = h ! i"
    "\<And>i n. i + n \<le> 32 \<Longrightarrow> get payload (off + i) n = get h i n"
proof -
  show "payload ! (off + i) = h ! i" if "i < 32" for i
    using nth_get [of i 32 off payload] assms that by simp
  show "get payload (off + i) n = get h i n" if "i + n \<le> 32" for i n
    using get_get [of i n 32 payload off] assms(2) that by simp
qed

lemma header_at_zero:
  assumes "off + 32 \<le> length payload" "get payload off 32 = mutation_header staging m" "\<not> mu_external_value m"
  shows "is_zero_bytes (drop (off + 9) payload) 19"
proof -
  have "payload ! (off + 9 + i) = 0" if "i < 19" for i
  proof -
    have "payload ! (off + (9 + i)) = mutation_header staging m ! (9 + i)"
      using that by (intro header_at(1) [OF assms(1,2)]) simp
    moreover have "mutation_header staging m ! (9 + i) = get (mutation_header staging m) 9 19 ! i"
      using that by (simp add: nth_get)
    ultimately show ?thesis
      using that mutation_header_inline [OF assms(3)] by (simp add: nth_zeroes add.assoc)
  qed
  then show ?thesis using assms(1) by (simp add: is_zero_bytes_def)
qed

lemma recovered_value_ref_header:
  assumes "off + 32 \<le> length payload" "get payload off 32 = mutation_header staging m" "mu_external_value m"
    "vr_value_size (mu_external_value_ref m) = v"
  shows "recovered_value_ref payload off v = Some (mu_external_value_ref m)"
  using assms
  by (simp add: recovered_value_ref_def read_le header_at [OF assms(1,2)] mutation_header_external)

lemma of_nat_key_size: "valid_name key \<Longrightarrow> unat (of_nat (length key) :: u16) = length key"
  by (simp add: valid_name_length)

lemma parse_mutation_encoded:
  assumes at: "off + mutation_payload_size m \<le> length payload"
      "get payload off (mutation_payload_size m) = concat (mutation_segments staging m)"
    and ok: "recoverable_mutation cfg g staging m"
    and fresh: "\<forall>p \<in> set previous. mu_key p \<noteq> mu_key m"
    and room: "of_nat (mutation_inline_size m) \<le> cfg_transaction_staging_size cfg - staged"
  shows "parse_mutation cfg g payload previous off staged =
    Inr (recovered_mutation m (off + 32 + length (mu_key m)), off + mutation_payload_size m,
         staged + of_nat (mutation_inline_size m))"
proof -
  let ?h = "mutation_header staging m" and ?k = "length (mu_key m)" and ?v = "mutation_inline_value staging m"
  have key: "0 < ?k" "?k \<le> 128" using ok by (auto simp: recoverable_mutation_def valid_name_length)
  then have k16: "unat (of_nat ?k :: u16) = ?k" "(of_nat ?k :: u16) \<noteq> 0"
    by (simp_all add: unat_eq_zero [symmetric])
  have v: "length ?v = mutation_inline_size m"
    using ok by (auto simp: recoverable_mutation_def mutation_inline_value_def mutation_inline_size_def)
  have size: "mutation_payload_size m = 32 + ?k + length ?v"
    by (simp add: mutation_payload_size_def v format_consts)
  have E: "get payload off (32 + ?k + length ?v) = ?h @ mu_key m @ ?v"
    using at(2) by (simp add: size mutation_segments_concat)
  have at': "off + 32 + ?k + length ?v \<le> length payload" using at(1) by (simp add: size)
  have H: "get payload off 32 = ?h"
    using arg_cong [OF E, of "take 32"] by (simp add: get_def)
  have K: "get payload (off + 32) ?k = mu_key m"
    using arg_cong [OF E, of "\<lambda>x. take ?k (drop 32 x)"] by (simp add: get_def drop_take add.commute)
  have V: "get payload (off + 32 + ?k) (length ?v) = ?v"
    using arg_cong [OF E, of "drop (32 + ?k)"] by (simp add: get_def drop_take add.commute add.left_commute)
  note P = header_at [OF _ H]
  have fit: "off + 32 \<le> length payload" using at' by simp
  have crc: "calc_mutation_checksum (drop off payload) key val = calc_mutation_checksum ?h key val" for key val
    using P(2) [OF fit, of 0 28] by (simp add: calc_mutation_checksum_def get_def)
  have inl: "unat (if mu_external_value m then 0 else mu_value_size m) = length ?v"
    by (simp add: v mutation_inline_size_def)
  have inl': "of_nat (length ?v) = (if mu_external_value m then 0 else mu_value_size m)"
    by (simp add: v mutation_inline_size_def)
  have uniq: "\<not> (length (mu_key p) = ?k \<and> memcmp (mu_key p) (mu_key m) ?k = 0)" if "p \<in> set previous" for p
    using fresh that by (auto simp: memcmp_def mem_cmp_0_iff)
  have small: "mu_external_value m \<or> mu_value_size m \<le> cfg_inline_value_size cfg"
    using ok by (auto simp: recoverable_mutation_def recovered_mutation_invalid_def split: if_splits)
  have ref: "(if mu_external_value m then recovered_value_ref payload off (mu_value_size m) else Some empty_value_ref) =
      Some (if mu_external_value m then mu_external_value_ref m else empty_value_ref)"
    using recovered_value_ref_header [OF fit H] ok by (simp add: recoverable_mutation_def)
  have zero: "mu_external_value m \<or> is_zero_bytes (drop (off + 9) payload) 19"
    using header_at_zero [OF fit H] by blast
  let ?m = "recovered_mutation m (off + 32 + ?k)"
  have valid: "\<not> recovered_mutation_invalid cfg g ?m"
    using ok by (auto simp: recoverable_mutation_def recovered_mutation_invalid_def recovered_mutation_def)
  have reserved: "mu_reserved0 m = 0" using ok by (auto simp: recoverable_mutation_def recovered_mutation_invalid_def split: if_splits)
  have mk: "empty_mutation\<lparr>mu_kind := mu_kind m, mu_reserved0 := mu_reserved0 m, mu_key := mu_key m,
      mu_value_offset := of_nat (off + 32 + ?k), mu_value_size := mu_value_size m,
      mu_external_value := mu_external_value m,
      mu_external_value_ref := (if mu_external_value m then mu_external_value_ref m else empty_value_ref)\<rparr> = ?m"
    by (cases m) (simp add: empty_mutation_def recovered_mutation_def)
  have read: "read_u16_le payload (off + 2) = Some (of_nat ?k)" "read_u32_le payload (off + 4) = Some (mu_value_size m)"
    "read_u32_le payload (off + 28) = Some (calc_mutation_checksum ?h (mu_key m) ?v)"
    using fit P(2) [OF fit, of 2 2] P(2) [OF fit, of 4 4] P(2) [OF fit, of 28 4]
    by (simp_all add: read_le mutation_header_fields)
  have byte: "payload ! off = mu_kind m" "payload ! (off + 1) = mu_reserved0 m" "payload ! (off + 10) = 0"
    "payload ! (off + 11) = 0" "payload ! (off + 8) = (if mu_external_value m then mutation_flag_external_value else 0)"
    using P(1) [OF fit, of 0] P(1) [OF fit, of 1] P(1) [OF fit, of 8] P(1) [OF fit, of 10] P(1) [OF fit, of 11]
      mutation_header_fields [of staging m]
    by simp_all
  have flag: "((if mu_external_value m then mutation_flag_external_value else 0) AND mutation_flag_external_value \<noteq> 0) =
      mu_external_value m" "(if mu_external_value m then mutation_flag_external_value else 0) AND
      NOT mutation_flag_external_value = 0"
    by (simp_all add: mutation_flag_external_value_def)
  have K': "get payload (off + mutation_header_size) ?k = mu_key m"
    and V': "get payload (off + mutation_header_size + ?k) (length ?v) = ?v"
    and fit': "mutation_header_size \<le> length payload - off" "off \<le> length payload"
      "?k \<le> max_name_len" "?k \<le> length payload - (off + mutation_header_size)"
      "length ?v \<le> length payload - (off + mutation_header_size + ?k)"
    using K V key at' by (simp_all add: format_consts)
  have room': "(if mu_external_value m then 0 else mu_value_size m) \<le> cfg_transaction_staging_size cfg - staged"
    using room by (simp add: inl' [symmetric] v)
  have mk': "empty_mutation\<lparr>mu_kind := mu_kind m, mu_reserved0 := mu_reserved0 m, mu_key := mu_key m,
      mu_value_offset := of_nat (off + mutation_header_size + ?k), mu_value_size := mu_value_size m,
      mu_external_value := mu_external_value m,
      mu_external_value_ref := (if mu_external_value m then mu_external_value_ref m else empty_value_ref)\<rparr> = ?m"
    using mk by (simp add: format_consts)
  have end': "off + mutation_header_size + ?k + length ?v = off + mutation_payload_size m"
    by (simp add: size format_consts)
  have "parse_mutation cfg g payload previous off staged =
      Inr (?m, off + mutation_header_size + ?k + length ?v, staged + (if mu_external_value m then 0 else mu_value_size m))"
    unfolding parse_mutation_def require_that_def Let_def read byte flag bind.bind_lunit option.case prod.case
      k16(1) K' ref crc inl V' mk'
    using fit' k16(2) zero uniq small valid room' by simp
  then show ?thesis unfolding end' by (simp add: inl' [symmetric] v)
qed

fun recovered_mutations :: "nat \<Rightarrow> mutation_slot list \<Rightarrow> mutation_slot list" where
  "recovered_mutations off [] = []"
| "recovered_mutations off (m # ms) =
     recovered_mutation m (off + 32 + length (mu_key m)) # recovered_mutations (off + mutation_payload_size m) ms"

lemma recovered_mutation_simps [simp]:
  "mu_key (recovered_mutation m off) = mu_key m" "mu_kind (recovered_mutation m off) = mu_kind m"
  "mu_value_size (recovered_mutation m off) = mu_value_size m"
  "mu_external_value (recovered_mutation m off) = mu_external_value m"
  "mu_reserved0 (recovered_mutation m off) = mu_reserved0 m"
  "mu_value_offset (recovered_mutation m off) = of_nat off"
  "mu_external_value m \<Longrightarrow> mu_external_value_ref (recovered_mutation m off) = mu_external_value_ref m"
  by (simp_all add: recovered_mutation_def)

lemma length_recovered_mutations [simp]: "length (recovered_mutations off ms) = length ms"
  by (induction ms arbitrary: off) simp_all

lemma room_left:
  fixes limit staged :: u32
  assumes "unat staged + (n + rest) \<le> unat limit"
  shows "of_nat n \<le> limit - staged" "unat (staged + of_nat n) = unat staged + n"
proof -
  have n: "unat (of_nat n :: u32) = n" using assms unat_less_pow [of limit] by simp
  have "staged \<le> limit" using assms by (simp add: word_le_nat_alt)
  then show "of_nat n \<le> limit - staged"
    using assms n by (simp add: word_le_nat_alt word_sub_unat)
  show "unat (staged + of_nat n) = unat staged + n"
    using assms n unat_less_pow [of limit] by (simp add: unat_add_exact)
qed

lemma parse_mutations_encoded:
  assumes "off + length (concat (concat (map (mutation_segments staging) ms))) \<le> length payload"
    "get payload off (length (concat (concat (map (mutation_segments staging) ms)))) =
       concat (concat (map (mutation_segments staging) ms))"
    "\<forall>m \<in> set ms. recoverable_mutation cfg g staging m"
    "distinct (map mu_key previous @ map mu_key ms)"
    "unat staged + sum_list (map mutation_inline_size ms) \<le> unat (cfg_transaction_staging_size cfg)"
  shows "parse_mutations cfg g payload (length ms) previous off staged =
    Inr (previous @ recovered_mutations off ms, off + sum_list (map mutation_payload_size ms),
         staged + of_nat (sum_list (map mutation_inline_size ms)))"
  using assms
proof (induction ms arbitrary: previous off staged)
  case (Cons m ms)
  let ?E = "concat (mutation_segments staging m)" and ?R = "concat (concat (map (mutation_segments staging) ms))"
  have ok: "recoverable_mutation cfg g staging m" using Cons.prems(3) by simp
  have size: "length ?E = mutation_payload_size m"
    using ok by (intro length_mutation_segments) (simp add: recoverable_mutation_def)
  have E: "get payload off (mutation_payload_size m + length ?R) = ?E @ ?R"
    using Cons.prems(2) by (simp add: size [symmetric] del: length_concat)
  have E1: "get payload off (mutation_payload_size m) = ?E"
    using arg_cong [OF E, of "take (mutation_payload_size m)"] by (simp add: get_def size [symmetric] del: length_concat)
  have E2: "get payload (off + mutation_payload_size m) (length ?R) = ?R"
    using arg_cong [OF E, of "drop (mutation_payload_size m)"]
    by (simp add: get_def size [symmetric] drop_take add.commute del: length_concat)
  have fit: "off + mutation_payload_size m + length ?R \<le> length payload"
    using Cons.prems(1) by (simp add: size [symmetric] del: length_concat)
  note room = room_left [of staged "mutation_inline_size m" "sum_list (map mutation_inline_size ms)"
      "cfg_transaction_staging_size cfg"]
  have fresh: "\<forall>p \<in> set previous. mu_key p \<noteq> mu_key m"
  proof -
    have "mu_key m \<notin> mu_key ` set previous" using Cons.prems(4) by auto
    then show ?thesis by (metis imageI)
  qed
  have here: "off + mutation_payload_size m \<le> length payload" using fit by (rule add_leD1)
  have step: "parse_mutation cfg g payload previous off staged =
      Inr (recovered_mutation m (off + 32 + length (mu_key m)), off + mutation_payload_size m,
           staged + of_nat (mutation_inline_size m))"
    by (rule parse_mutation_encoded [OF here E1 ok fresh room(1)]) (use Cons.prems(5) in simp)
  have "parse_mutations cfg g payload (length ms) (previous @ [recovered_mutation m (off + 32 + length (mu_key m))])
      (off + mutation_payload_size m) (staged + of_nat (mutation_inline_size m)) =
    Inr ((previous @ [recovered_mutation m (off + 32 + length (mu_key m))]) @
         recovered_mutations (off + mutation_payload_size m) ms,
         off + mutation_payload_size m + sum_list (map mutation_payload_size ms),
         staged + of_nat (mutation_inline_size m) + of_nat (sum_list (map mutation_inline_size ms)))"
  proof (rule Cons.IH)
    show "distinct (map mu_key (previous @ [recovered_mutation m (off + 32 + length (mu_key m))]) @ map mu_key ms)"
      using Cons.prems(4) by simp
    show "unat (staged + of_nat (mutation_inline_size m)) + sum_list (map mutation_inline_size ms) \<le>
        unat (cfg_transaction_staging_size cfg)"
      using Cons.prems(5) by (subst room(2)) simp_all
    show "\<forall>m \<in> set ms. recoverable_mutation cfg g staging m" using Cons.prems(3) by simp
  qed (fact fit E2)+
  then show ?case using step by (simp add: add.assoc)
qed simp

definition recoverable_transaction ::
  "config \<Rightarrow> storage_geometry \<Rightarrow> bytes \<Rightarrow> transaction_slot \<Rightarrow> handle_slot \<Rightarrow> bool" where
  "recoverable_transaction cfg g staging t handle \<longleftrightarrow>
     tx_mutation_count t \<noteq> 0 \<and> ucast (tx_mutation_count t) \<le> cfg_max_transaction_mutations cfg \<and>
     unat (tx_mutation_count t) \<le> length (tx_mutations t) \<and> valid_name (hs_namespace_name handle) \<and>
     (\<forall>m \<in> set (used_mutations t). recoverable_mutation cfg g staging m) \<and>
     distinct (map mu_key (used_mutations t)) \<and>
     sum_list (map mutation_inline_size (used_mutations t)) \<le> unat (cfg_transaction_staging_size cfg)"

definition recovered_transaction :: "transaction_slot \<Rightarrow> handle_slot \<Rightarrow> transaction_slot" where
  "recovered_transaction t handle =
     (let ms = recovered_mutations (8 + length (hs_namespace_name handle)) (used_mutations t) in
      empty_transaction\<lparr>tx_mutation_count := tx_mutation_count t,
        tx_staged_value_bytes := of_nat (sum_list (map mutation_inline_size (used_mutations t))),
        tx_mutations := ms @ drop (length ms) (tx_mutations empty_transaction)\<rparr>)"

lemma recoverable_values_staged:
  "recoverable_transaction cfg g staging t handle \<Longrightarrow> values_staged staging t"
  by (auto simp: recoverable_transaction_def values_staged_def recoverable_mutation_def)

lemma parse_recovered_transaction_stream:
  assumes ok: "recoverable_transaction cfg g staging t handle"
  shows "parse_recovered_transaction cfg g (transaction_stream staging t handle) (tx_mutation_count t) =
    Inr (hs_namespace_name handle, recovered_transaction t handle)"
proof -
  let ?S = "transaction_stream staging t handle" and ?ns = "hs_namespace_name handle"
    and ?ms = "used_mutations t" and ?h = "transaction_header handle t"
  let ?E = "concat (concat (map (mutation_segments staging) ?ms))"
  have S: "?S = ?h @ ?ns @ ?E" by (simp add: transaction_stream_def payload_segments_def)
  have h: "le_value (get ?h 0 2) = (of_nat (length ?ns) :: u16)" "le_value (get ?h 2 2) = tx_mutation_count t"
    "le_value (get ?h 4 4) = (0 :: u32)"
    by (simp_all add: transaction_header_def Let_def format_consts buffer_simps)
  have ns: "0 < length ?ns" "length ?ns \<le> 128"
    using ok by (auto simp: recoverable_transaction_def valid_name_length)
  then have k16: "unat (of_nat (length ?ns) :: u16) = length ?ns" "(of_nat (length ?ns) :: u16) \<noteq> 0"
    by (simp_all add: unat_eq_zero [symmetric])
  have count: "unat (tx_mutation_count t) = length ?ms"
    using ok by (simp add: used_mutations_def recoverable_transaction_def)
  have get_h: "get ?S i n = get ?h i n" if "i + n \<le> 8" for i n
    using that by (simp add: S get_def)
  have len8: "8 \<le> length ?S" by (simp add: S)
  have read: "read_u16_le ?S 0 = Some (of_nat (length ?ns))" "read_u16_le ?S 2 = Some (tx_mutation_count t)"
    "read_u32_le ?S 4 = Some 0"
    using len8 h by (simp_all add: read_le get_h)
  have name: "get ?S 8 (length ?ns) = ?ns" by (simp add: S get_def)
  have fit: "8 + length ?ns + length ?E \<le> length ?S" by (simp add: S del: length_concat)
  have E: "get ?S (8 + length ?ns) (length ?E) = ?E" by (simp add: S get_def del: length_concat)
  have parse: "parse_mutations cfg g ?S (length ?ms) [] (8 + length ?ns) 0 =
      Inr (recovered_mutations (8 + length ?ns) ?ms, 8 + length ?ns + sum_list (map mutation_payload_size ?ms),
           of_nat (sum_list (map mutation_inline_size ?ms)))"
    using parse_mutations_encoded [OF fit E, of cfg g "[]" 0] ok by (simp add: recoverable_transaction_def)
  have end_at: "8 + length ?ns + sum_list (map mutation_payload_size ?ms) = length ?S"
    using length_transaction_stream [OF recoverable_values_staged [OF ok], of handle]
    by (simp add: transaction_payload_size_def format_consts)
  have "ucast (tx_mutation_count t) \<le> cfg_max_transaction_mutations cfg" "tx_mutation_count t \<noteq> 0"
    using ok by (simp_all add: recoverable_transaction_def)
  then show ?thesis
    using len8 ns fit
    by (simp add: parse_recovered_transaction_def require_that_def transaction_header_size_def max_name_len_def
        read name k16 count parse end_at recovered_transaction_def Let_def del: length_concat)
qed

end
