(* ===== verification/Key_Filter.thy ===== *)
theory Key_Filter
  imports Database_State
begin

text \<open>
  The bit filter kept for every table slot (\<open>on9kvdb_table.cpp\<close>): three probes into 2048 bits,
  derived from one hash of the composite key. A key that was added is never ruled out.
\<close>

definition filter_hash :: "composite_key \<Rightarrow> u32" where
  "filter_hash key =
     (let mix = \<lambda>(b :: u8) (hash :: u32). (hash XOR ucast b) * 16777619;
          hash = 2166136261 :: u32;
          hash = mix (of_nat (length (ck_namespace key))) hash;
          hash = fold mix (ck_namespace key) hash;
          hash = mix (of_nat (length (ck_key key))) hash
      in fold mix (ck_key key) hash)"

text \<open>The three bits of a key.\<close>

definition filter_bit :: "composite_key \<Rightarrow> nat \<Rightarrow> nat" where
  "filter_bit key probe =
     (let first = filter_hash key;
          step = (drop_bit 16 first XOR 0x9e3779b9) OR 1 in
      unat ((first + of_nat probe * step) mod of_nat (table_key_filter_bytes * 8)))"

definition filter_mask :: "nat \<Rightarrow> u8" where
  "filter_mask b = push_bit (b mod 8) 1"

definition set_filter_bit :: "nat \<Rightarrow> bytes \<Rightarrow> bytes" where
  "set_filter_bit b bits = bits[b div 8 := bits ! (b div 8) OR filter_mask b]"

definition empty_key_filter :: table_key_filter_slot where
  "empty_key_filter = \<lparr>kf_generation = 0, kf_valid = False, kf_bits = zeroes table_key_filter_bytes\<rparr>"

definition table_slot_exists :: "db \<Rightarrow> u32 \<Rightarrow> bool" where
  "table_slot_exists s slot \<longleftrightarrow> slot < sg_table_count (mr_geometry (db_manifest s))"

definition reset_table_key_filter :: "u32 \<Rightarrow> db \<Rightarrow> db" where
  "reset_table_key_filter slot s =
     (if table_slot_exists s slot
      then s\<lparr>db_table_key_filters := (db_table_key_filters s)[unat slot := empty_key_filter]\<rparr> else s)"

definition add_table_key_filter :: "u32 \<Rightarrow> composite_key \<Rightarrow> db \<Rightarrow> db" where
  "add_table_key_filter slot key s =
     (if \<not> table_slot_exists s slot then s
      else
        let filter_slot = db_table_key_filters s ! unat slot in
        s\<lparr>db_table_key_filters := (db_table_key_filters s)[unat slot :=
          filter_slot\<lparr>kf_bits := fold (\<lambda>probe. set_filter_bit (filter_bit key probe)) [0..<3] (kf_bits filter_slot)\<rparr>]\<rparr>)"

definition publish_table_key_filter :: "table_reference \<Rightarrow> db \<Rightarrow> db" where
  "publish_table_key_filter reference s =
     s\<lparr>db_table_key_filters := (db_table_key_filters s)[unat (tr_slot reference) :=
       (db_table_key_filters s ! unat (tr_slot reference))\<lparr>kf_generation := tr_generation reference, kf_valid := True\<rparr>]\<rparr>"

definition table_key_filter_may_contain :: "db \<Rightarrow> table_reference \<Rightarrow> composite_key \<Rightarrow> bool" where
  "table_key_filter_may_contain s reference key =
     (if \<not> table_slot_exists s (tr_slot reference) then True
      else
        let filter_slot = db_table_key_filters s ! unat (tr_slot reference) in
        if \<not> kf_valid filter_slot \<or> kf_generation filter_slot \<noteq> tr_generation reference then True
        else \<forall>probe \<in> set [0..<3]. kf_bits filter_slot ! (filter_bit key probe div 8) AND
                                   filter_mask (filter_bit key probe) \<noteq> 0)"

section \<open>No false negatives\<close>

lemma filter_bit_range: "filter_bit key probe div 8 < table_key_filter_bytes"
proof -
  have "unat (x mod of_nat (table_key_filter_bytes * 8)) < 2048" for x :: u32
    by (simp add: table_key_filter_bytes_def unat_mod)
  then have "filter_bit key probe < 2048" by (simp add: filter_bit_def Let_def)
  then show ?thesis by (simp add: table_key_filter_bytes_def)
qed

text \<open>The bits a filter has; adding a key only sets bits.\<close>

definition filter_has :: "bytes \<Rightarrow> nat \<Rightarrow> bool" where
  "filter_has bits b \<longleftrightarrow> bits ! (b div 8) AND filter_mask b \<noteq> 0"

lemma filter_mask_bit: "bit (filter_mask b) i \<longleftrightarrow> i = b mod 8"
  by (auto simp: filter_mask_def bit_simps)

lemma filter_has_bit: "filter_has bits b \<longleftrightarrow> bit (bits ! (b div 8)) (b mod 8)"
proof -
  have "filter_has bits b \<longleftrightarrow> (\<exists>i. bit (bits ! (b div 8) AND filter_mask b) i)"
    unfolding filter_has_def by (metis bit_0_eq bot_apply bot_bool_def bit_eqI)
  then show ?thesis by (auto simp: bit_simps filter_mask_bit)
qed

lemma length_set_filter_bit [simp]: "length (set_filter_bit b bits) = length bits"
  by (simp add: set_filter_bit_def)

lemma filter_has_set_bit:
  "b div 8 < length bits \<Longrightarrow> filter_has (set_filter_bit b bits) c \<longleftrightarrow> c = b \<or> filter_has bits c"
proof -
  assume "b div 8 < length bits"
  moreover have "c = b \<longleftrightarrow> c div 8 = b div 8 \<and> c mod 8 = b mod 8" by (metis div_mult_mod_eq)
  ultimately show ?thesis
    by (auto simp: filter_has_bit set_filter_bit_def nth_list_update bit_simps filter_mask_bit)
qed

lemma filter_has_set_bits:
  assumes "\<forall>b \<in> set bs. b div 8 < length bits"
  shows "filter_has (fold set_filter_bit bs bits) c \<longleftrightarrow> c \<in> set bs \<or> filter_has bits c"
  using assms by (induction bs arbitrary: bits) (auto simp: filter_has_set_bit)

text \<open>The filters of every table slot are there and have their size.\<close>

definition filters_sized :: "db \<Rightarrow> bool" where
  "filters_sized s \<longleftrightarrow>
     unat (sg_table_count (mr_geometry (db_manifest s))) \<le> length (db_table_key_filters s) \<and>
     (\<forall>f \<in> set (db_table_key_filters s). length (kf_bits f) = table_key_filter_bytes)"

definition filter_covers :: "db \<Rightarrow> u32 \<Rightarrow> composite_key \<Rightarrow> bool" where
  "filter_covers s slot key \<longleftrightarrow>
     (\<forall>probe < 3. filter_has (kf_bits (db_table_key_filters s ! unat slot)) (filter_bit key probe))"

lemma add_filter_covers:
  assumes "filters_sized s" "table_slot_exists s slot"
  shows "filters_sized (add_table_key_filter slot key s)"
    "filter_covers (add_table_key_filter slot key s) slot key"
    "filter_covers s slot other \<Longrightarrow> filter_covers (add_table_key_filter slot key s) slot other"
proof -
  let ?f = "db_table_key_filters s ! unat slot"
  have i: "unat slot < length (db_table_key_filters s)"
    using assms by (simp add: filters_sized_def table_slot_exists_def word_less_nat_alt)
  then have len: "length (kf_bits ?f) = table_key_filter_bytes"
    using assms(1) by (simp add: filters_sized_def)
  have eq: "fold (\<lambda>probe. set_filter_bit (filter_bit key probe)) ps bits =
      fold set_filter_bit (map (filter_bit key) ps) bits" for ps bits
    by (simp add: fold_map comp_def)
  have len': "length (fold set_filter_bit bs bits) = length bits" for bs bits
    by (induction bs arbitrary: bits) simp_all
  note has = filter_has_set_bits [of "map (filter_bit key) [0..<3]" "kf_bits ?f"]
  have sized: "\<forall>b \<in> set (map (filter_bit key) [0..<3]). b div 8 < length (kf_bits ?f)"
    unfolding len using filter_bit_range by auto
  have at: "db_table_key_filters (add_table_key_filter slot key s) ! unat slot =
      ?f\<lparr>kf_bits := fold set_filter_bit (map (filter_bit key) [0..<3]) (kf_bits ?f)\<rparr>"
    using i assms(2) by (simp add: add_table_key_filter_def Let_def eq)
  show "filters_sized (add_table_key_filter slot key s)"
    using assms i len unfolding filters_sized_def add_table_key_filter_def eq
    by (auto simp: Let_def len' dest!: set_update_subset_insert [THEN subsetD])
  show "filter_covers (add_table_key_filter slot key s) slot key"
    unfolding filter_covers_def at by (simp add: has [OF sized])
  show "filter_covers (add_table_key_filter slot key s) slot other" if "filter_covers s slot other"
    using that unfolding filter_covers_def at by (simp add: has [OF sized])
qed

lemma filter_covers_may_contain:
  assumes "filter_covers s (tr_slot reference) key"
  shows "table_key_filter_may_contain s reference key"
  using assms by (simp add: filter_covers_def table_key_filter_may_contain_def Let_def filter_has_def [symmetric])

end
