(* ===== verification/Table_Store.thy ===== *)
theory Table_Store
  imports Key_Filter Memtable Store
begin

text \<open>
  Reading sorted tables (\<open>on9kvdb_table.cpp\<close>): the validation of a complete table file, which
  also fills its key filter and index cache, and the lookup of a key in one table and across all of
  them. The scratch buffers the source decodes blocks in are local values.
\<close>

section \<open>Access to the table files\<close>

definition read_table_bytes ::
  "config \<Rightarrow> 'd block_device \<Rightarrow> u32 \<Rightarrow> u64 \<Rightarrow> nat \<Rightarrow> 'd world \<Rightarrow> esp_err + bytes" where
  "read_table_bytes cfg dev slot offset n w =
     (if slot \<ge> sg_table_count (mr_geometry (db_manifest (snd w))) then Inl ESP_ERR_INVALID_ARG
      else read_store cfg dev kind_table slot offset n w)"

definition write_table_bytes ::
  "config \<Rightarrow> 'd block_device \<Rightarrow> u32 \<Rightarrow> u64 \<Rightarrow> bytes \<Rightarrow> 'd world \<Rightarrow> esp_err \<times> 'd world" where
  "write_table_bytes cfg dev slot offset source w =
     (if slot \<ge> sg_table_count (mr_geometry (db_manifest (snd w))) then (ESP_ERR_INVALID_ARG, w)
      else write_store cfg dev kind_table slot offset source w)"

definition make_table_reference :: "table_metadata \<Rightarrow> table_reference" where
  "make_table_reference metadata = \<lparr>
     tr_active = True, tr_level = ucast (tm_level metadata), tr_slot = tm_slot metadata,
     tr_data_block_count = tm_data_block_count metadata, tr_generation = tm_generation metadata,
     tr_min_sequence = tm_min_sequence metadata, tr_max_sequence = tm_max_sequence metadata,
     tr_entry_count = tm_entry_count metadata, tr_data_bytes = tm_data_bytes metadata,
     tr_content_checksum = tm_content_checksum metadata,
     tr_min_key = tm_min_key metadata, tr_max_key = tm_max_key metadata\<rparr>"

definition table_block_bytes :: "db \<Rightarrow> u32" where
  "table_block_bytes s = ll_sstable_block_bytes (mr_limits (db_manifest s))"

definition table_footer_offset :: "db \<Rightarrow> u32" where
  "table_footer_offset s = sg_table_size (mr_geometry (db_manifest s)) - of_nat table_footer_slot_size"

definition table_index_offset :: "db \<Rightarrow> u32" where
  "table_index_offset s = table_footer_offset s - table_block_bytes s"

definition valid_table_value :: "bytes option \<Rightarrow> u32 \<Rightarrow> bool \<Rightarrow> bool \<Rightarrow> bool" where
  "valid_table_value val value_size tombstone external =
     (if tombstone then value_size = 0 \<and> \<not> external
      else external \<or> value_size = 0 \<or> val \<noteq> None)"

definition entry_key :: "table_entry \<Rightarrow> composite_key" where
  "entry_key entry = Composite_Key (te_namespace entry) (te_key entry)"

definition index_entry_key :: "table_index_entry \<Rightarrow> composite_key" where
  "index_entry_key entry = Composite_Key (tx_namespace entry) (tx_key entry)"

section \<open>The index cache\<close>

definition empty_index_cache :: table_index_cache_slot where
  "empty_index_cache = \<lparr>ic_generation = 0, ic_valid = False, ic_entries = []\<rparr>"

definition maximum_table_data_blocks :: "config \<Rightarrow> u32" where
  "maximum_table_data_blocks cfg =
     (cfg_sstable_file_size cfg - of_nat table_data_region_offset - cfg_sstable_block_size cfg -
      of_nat table_footer_slot_size) div cfg_sstable_block_size cfg"

definition set_index_cache :: "u32 \<Rightarrow> table_index_cache_slot \<Rightarrow> db \<Rightarrow> db" where
  "set_index_cache slot cached s = s\<lparr>db_table_index_cache := (db_table_index_cache s)[unat slot := cached]\<rparr>"

definition invalidate_table_index_cache :: "u32 \<Rightarrow> db \<Rightarrow> db" where
  "invalidate_table_index_cache slot s =
     (if db_table_index_cache s \<noteq> [] \<and> table_slot_exists s slot
      then set_index_cache slot empty_index_cache s else s)"

fun cached_index_entries :: "bytes \<Rightarrow> nat \<Rightarrow> nat \<Rightarrow> ((composite_key \<times> u32) list \<times> nat) option" where
  "cached_index_entries index_block 0 offset = Some ([], offset)"
| "cached_index_entries index_block (Suc n) offset =
     (case decode_table_index_entry index_block offset of
        Inl _ \<Rightarrow> None
      | Inr entry \<Rightarrow>
          (case cached_index_entries index_block n (offset + unat (tx_total_size entry)) of
             None \<Rightarrow> None
           | Some (entries, end_at) \<Rightarrow> Some ((index_entry_key entry, tx_block_offset entry) # entries, end_at)))"

definition cache_table_index ::
  "config \<Rightarrow> table_reference \<Rightarrow> bytes \<Rightarrow> db \<Rightarrow> esp_err \<times> db" where
  "cache_table_index cfg reference index_block s =
     (if \<not> tr_active reference \<or> \<not> table_slot_exists s (tr_slot reference) then (ESP_ERR_INVALID_ARG, s)
      else if db_table_index_cache s = [] then (ESP_OK, s)
      else if tr_data_block_count reference = 0 \<or> tr_data_block_count reference > maximum_table_data_blocks cfg
      then (ESP_ERR_INVALID_CRC, s)
      else
        let s = set_index_cache (tr_slot reference) empty_index_cache s in
        (case decode_table_index_header index_block of
           Inl _ \<Rightarrow> (ESP_ERR_INVALID_CRC, s)
         | Inr header \<Rightarrow>
             if ti_generation header \<noteq> tr_generation reference \<or>
                ti_entry_count header \<noteq> tr_data_block_count reference \<or>
                ti_data_block_count header \<noteq> tr_data_block_count reference then (ESP_ERR_INVALID_CRC, s)
             else
               (case cached_index_entries index_block (unat (ti_entry_count header)) table_index_header_size of
                  None \<Rightarrow> (ESP_ERR_INVALID_CRC, s)
                | Some (entries, offset) \<Rightarrow>
                    if offset \<noteq> table_index_header_size + unat (ti_payload_size header) then (ESP_ERR_INVALID_CRC, s)
                    else (ESP_OK, set_index_cache (tr_slot reference)
                      \<lparr>ic_generation = tr_generation reference, ic_valid = True, ic_entries = entries\<rparr> s))))"

section \<open>Validation of a table\<close>

text \<open>What the pass over the entries of a table has accumulated.\<close>

record table_scan =
  sc_content_crc :: u32
  sc_index_entry_offset :: nat
  sc_total_entries :: u32
  sc_total_data_bytes :: u32
  sc_previous_key :: "composite_key option"

definition table_entry_invalid ::
  "(value_ref \<Rightarrow> bool) \<Rightarrow> table_metadata \<Rightarrow> table_index_entry \<Rightarrow> bool \<Rightarrow> composite_key option \<Rightarrow> table_entry \<Rightarrow> bool" where
  "table_entry_invalid reference_ok footer index_entry first previous_key entry \<longleftrightarrow>
     te_transaction_sequence entry < tm_min_sequence footer \<or> te_transaction_sequence entry > tm_max_sequence footer \<or>
     te_reserved0 entry \<noteq> 0 \<or>
     \<not> valid_table_value (te_value entry) (te_value_size entry) (te_tombstone (te_flags entry)) (te_external (te_flags entry)) \<or>
     (te_external (te_flags entry) \<and> \<not> reference_ok (te_external_value entry)) \<or>
     (case previous_key of None \<Rightarrow> False | Some previous \<Rightarrow> compare_composite_key previous (entry_key entry) \<ge> 0) \<or>
     (first \<and>
       (length (tx_namespace index_entry) \<noteq> length (te_namespace entry) \<or>
        length (tx_key index_entry) \<noteq> length (te_key entry) \<or>
        memcmp (tx_namespace index_entry) (te_namespace entry) (length (te_namespace entry)) \<noteq> 0 \<or>
        memcmp (tx_key index_entry) (te_key entry) (length (te_key entry)) \<noteq> 0 \<or>
        tx_first_sequence index_entry \<noteq> te_transaction_sequence entry))"

fun validate_block_entries ::
  "(value_ref \<Rightarrow> bool) \<Rightarrow> table_metadata \<Rightarrow> table_index_entry \<Rightarrow> u32 \<Rightarrow> bytes \<Rightarrow> nat \<Rightarrow> bool \<Rightarrow> nat \<Rightarrow>
     table_scan \<Rightarrow> db \<Rightarrow> (esp_err + nat \<times> table_scan) \<times> db" where
  "validate_block_entries reference_ok footer index_entry slot data_block 0 first entry_offset scan s =
     (Inr (entry_offset, scan), s)"
| "validate_block_entries reference_ok footer index_entry slot data_block (Suc n) first entry_offset scan s =
     (case decode_table_entry data_block entry_offset of
        Inl _ \<Rightarrow> (Inl ESP_ERR_INVALID_CRC, s)
      | Inr entry \<Rightarrow>
          if table_entry_invalid reference_ok footer index_entry first (sc_previous_key scan) entry
          then (Inl ESP_ERR_INVALID_CRC, s)
          else
            validate_block_entries reference_ok footer index_entry slot data_block n False
              (entry_offset + unat (te_total_size entry))
              (scan\<lparr>sc_previous_key := Some (entry_key entry),
                    sc_total_data_bytes := sc_total_data_bytes scan + te_total_size entry,
                    sc_total_entries := sc_total_entries scan + 1\<rparr>)
              (add_table_key_filter slot (entry_key entry) s))"

definition expected_block_offset :: "db \<Rightarrow> nat \<Rightarrow> u32" where
  "expected_block_offset s block_index = of_nat table_data_region_offset + of_nat block_index * table_block_bytes s"

fun validate_blocks ::
  "config \<Rightarrow> 'd block_device \<Rightarrow> (value_ref \<Rightarrow> bool) \<Rightarrow> table_metadata \<Rightarrow> u32 \<Rightarrow> bytes \<Rightarrow> nat list \<Rightarrow>
     table_scan \<Rightarrow> 'd world \<Rightarrow> (esp_err + table_scan) \<times> 'd world" where
  "validate_blocks cfg dev reference_ok footer slot index_block [] scan w = (Inr scan, w)"
| "validate_blocks cfg dev reference_ok footer slot index_block (block_index # block_indices) scan w =
     (case decode_table_index_entry index_block (sc_index_entry_offset scan) of
        Inl _ \<Rightarrow> (Inl ESP_ERR_INVALID_CRC, w)
      | Inr index_entry \<Rightarrow>
          if tx_block_offset index_entry \<noteq> expected_block_offset (snd w) block_index then (Inl ESP_ERR_INVALID_CRC, w)
          else
            (case read_table_bytes cfg dev slot (ucast (expected_block_offset (snd w) block_index))
                    (unat (tm_block_size footer)) w of
               Inl e \<Rightarrow> (Inl e, w)
             | Inr data_block \<Rightarrow>
                 (case decode_table_block_header data_block of
                    Inl _ \<Rightarrow> (Inl ESP_ERR_INVALID_CRC, w)
                  | Inr header \<Rightarrow>
                      if tb_generation header \<noteq> tm_generation footer \<or> unat (tb_block_index header) \<noteq> block_index
                      then (Inl ESP_ERR_INVALID_CRC, w)
                      else
                        (case validate_block_entries reference_ok footer index_entry slot data_block
                                (unat (tb_entry_count header)) True table_block_header_size
                                (scan\<lparr>sc_index_entry_offset := sc_index_entry_offset scan + unat (tx_total_size index_entry),
                                      sc_content_crc := calc_crc32_update (sc_content_crc scan) data_block\<rparr>)
                                (snd w) of
                           (Inl e, s) \<Rightarrow> (Inl e, fst w, s)
                         | (Inr (entry_offset, scan), s) \<Rightarrow>
                             if entry_offset \<noteq> table_block_header_size + unat (tb_payload_size header)
                             then (Inl ESP_ERR_INVALID_CRC, fst w, s)
                             else validate_blocks cfg dev reference_ok footer slot index_block block_indices scan (fst w, s)))))"

text \<open>The redundant headers: every decodable one must equal the footer; the result is their number.\<close>

fun count_valid_headers ::
  "config \<Rightarrow> 'd block_device \<Rightarrow> u32 \<Rightarrow> table_metadata \<Rightarrow> nat list \<Rightarrow> nat \<Rightarrow> 'd world \<Rightarrow> esp_err + nat" where
  "count_valid_headers cfg dev slot footer [] valid_headers w = Inr valid_headers"
| "count_valid_headers cfg dev slot footer (copy # copies) valid_headers w =
     (case read_table_bytes cfg dev slot
             (of_nat table_header_region_offset + of_nat copy * of_nat table_header_slot_size) table_metadata_size w of
        Inl e \<Rightarrow> Inl e
      | Inr encoded \<Rightarrow>
          (case decode_table_metadata encoded table_header_magic of
             Inl status \<Rightarrow>
               if status = FS_new_version then Inl ESP_ERR_INVALID_VERSION
               else count_valid_headers cfg dev slot footer copies valid_headers w
           | Inr header \<Rightarrow>
               if \<not> table_metadata_equal header footer then Inl ESP_ERR_INVALID_CRC
               else count_valid_headers cfg dev slot footer copies (valid_headers + 1) w))"

definition load_table_footer ::
  "config \<Rightarrow> 'd block_device \<Rightarrow> table_reference \<Rightarrow> 'd world \<Rightarrow> esp_err + table_metadata" where
  "load_table_footer cfg dev reference w =
     then_read (read_table_bytes cfg dev (tr_slot reference) (ucast (table_footer_offset (snd w))) table_metadata_size w)
       (\<lambda>encoded.
         case decode_table_metadata encoded table_footer_magic of
           Inl status \<Rightarrow> Inl (if status = FS_new_version then ESP_ERR_INVALID_VERSION else ESP_ERR_INVALID_CRC)
         | Inr footer \<Rightarrow>
             require_that (table_reference_equal reference (make_table_reference footer) \<and>
                           tm_block_size footer = table_block_bytes (snd w) \<and>
                           tm_footer_offset footer = table_footer_offset (snd w)) ESP_ERR_INVALID_CRC
               (Inr footer))"

definition load_table_index ::
  "config \<Rightarrow> 'd block_device \<Rightarrow> u32 \<Rightarrow> table_metadata \<Rightarrow> 'd world \<Rightarrow> esp_err + bytes \<times> table_index_header" where
  "load_table_index cfg dev slot footer w =
     then_read (read_table_bytes cfg dev slot (ucast (tm_index_offset footer)) (unat (tm_block_size footer)) w)
       (\<lambda>index_block.
         case decode_table_index_header index_block of
           Inl _ \<Rightarrow> Inl ESP_ERR_INVALID_CRC
         | Inr header \<Rightarrow>
             require_that (ti_generation header = tm_generation footer \<and>
                           ti_data_block_count header = tm_data_block_count footer) ESP_ERR_INVALID_CRC
               (Inr (index_block, header)))"

text \<open>
  The value bank external references are checked against; \<open>None\<close> is the default argument
  \<open>UINT32_MAX\<close>, the active bank of the manifest.
\<close>

definition resolve_value_bank :: "db \<Rightarrow> (u32 \<times> u64 \<times> u32) option \<Rightarrow> esp_err + (u32 \<times> u64 \<times> u32)" where
  "resolve_value_bank s value_bank =
     then_read
       (case value_bank of
          Some bank \<Rightarrow> Inr bank
        | None \<Rightarrow>
            let m = db_manifest s; bank = mr_active_value_bank m in
            if unat bank \<ge> value_bank_count then Inl ESP_ERR_INVALID_CRC
            else Inr (bank, mr_value_bank_generation m ! unat bank, mr_value_bank_tail m ! unat bank))
       (\<lambda>(bank, generation, tail).
         require_that (unat bank < value_bank_count \<and> generation \<noteq> 0 \<and>
                       tail \<le> sg_value_bank_size (mr_geometry (db_manifest s))) ESP_ERR_INVALID_CRC
           (Inr (bank, generation, tail)))"

definition table_totals_match :: "table_scan \<Rightarrow> bytes \<Rightarrow> table_metadata \<Rightarrow> table_index_header \<Rightarrow> bool" where
  "table_totals_match scan index_block footer index_header \<longleftrightarrow>
     sc_index_entry_offset scan = table_index_header_size + unat (ti_payload_size index_header) \<and>
     sc_total_entries scan = tm_entry_count footer \<and> sc_total_data_bytes scan = tm_data_bytes footer \<and>
     NOT (calc_crc32_update (sc_content_crc scan) index_block) = tm_content_checksum footer"

definition validate_table ::
  "config \<Rightarrow> 'd block_device \<Rightarrow> table_reference \<Rightarrow> (u32 \<times> u64 \<times> u32) option \<Rightarrow> 'd world \<Rightarrow> esp_err \<times> 'd world" where
  "validate_table cfg dev reference value_bank w =
     (if \<not> tr_active reference \<or> \<not> table_slot_exists (snd w) (tr_slot reference) then (ESP_ERR_INVALID_ARG, w)
      else
        let slot = tr_slot reference;
            w = update_db (\<lambda>s. reset_table_key_filter slot (invalidate_table_index_cache slot s)) w in
        on_value (resolve_value_bank (snd w) value_bank) w (\<lambda>(bank, generation, tail).
        on_value (load_table_footer cfg dev reference w) w (\<lambda>footer.
        on_value (count_valid_headers cfg dev slot footer [0..<table_header_slot_count] 0 w) w (\<lambda>valid_headers.
        if valid_headers = 0 then (ESP_ERR_INVALID_CRC, w)
        else
        on_value (load_table_index cfg dev slot footer w) w (\<lambda>(index_block, index_header).
        on_result
          (validate_blocks cfg dev
             (\<lambda>r. value_ref_matches_bank cfg (mr_geometry (db_manifest (snd w))) r bank generation tail)
             footer slot index_block [0..<unat (tm_data_block_count footer)]
             \<lparr>sc_content_crc = - 1, sc_index_entry_offset = table_index_header_size, sc_total_entries = 0,
              sc_total_data_bytes = 0, sc_previous_key = None\<rparr> w)
          (\<lambda>scan w.
            if \<not> table_totals_match scan index_block footer index_header then (ESP_ERR_INVALID_CRC, w)
            else
              let w = update_db (publish_table_key_filter reference) w in
              (case cache_table_index cfg reference index_block (snd w) of (ret, s) \<Rightarrow> (ret, fst w, s))))))))"

section \<open>Lookup in one table\<close>

text \<open>The last block whose first key is not behind the key; \<open>UINT32_MAX\<close> if there is none.\<close>

fun select_cached_block :: "(composite_key \<times> u32) list \<Rightarrow> composite_key \<Rightarrow> u32 \<Rightarrow> u32" where
  "select_cached_block [] key selected = selected"
| "select_cached_block ((first_key, block_offset) # entries) key selected =
     (if compare_composite_key first_key key > 0 then selected
      else select_cached_block entries key block_offset)"

fun select_stored_block :: "bytes \<Rightarrow> nat \<Rightarrow> nat \<Rightarrow> composite_key \<Rightarrow> u32 \<Rightarrow> esp_err + u32" where
  "select_stored_block index_block 0 offset key selected = Inr selected"
| "select_stored_block index_block (Suc n) offset key selected =
     (case decode_table_index_entry index_block offset of
        Inl _ \<Rightarrow> Inl ESP_ERR_INVALID_CRC
      | Inr entry \<Rightarrow>
          if compare_composite_key (index_entry_key entry) key > 0 then Inr selected
          else select_stored_block index_block n (offset + unat (tx_total_size entry)) key (tx_block_offset entry))"

definition cached_index :: "db \<Rightarrow> table_reference \<Rightarrow> (composite_key \<times> u32) list option" where
  "cached_index s reference =
     (if db_table_index_cache s \<noteq> [] \<and> table_slot_exists s (tr_slot reference) then
        let candidate = db_table_index_cache s ! unat (tr_slot reference) in
        if ic_valid candidate \<and> ic_generation candidate = tr_generation reference \<and>
           length (ic_entries candidate) = unat (tr_data_block_count reference)
        then Some (ic_entries candidate) else None
      else None)"

definition select_block ::
  "config \<Rightarrow> 'd block_device \<Rightarrow> table_reference \<Rightarrow> composite_key \<Rightarrow> 'd world \<Rightarrow> esp_err + u32" where
  "select_block cfg dev reference key w =
     (case cached_index (snd w) reference of
        Some entries \<Rightarrow> Inr (select_cached_block entries key (- 1))
      | None \<Rightarrow>
          then_read (read_table_bytes cfg dev (tr_slot reference) (ucast (table_index_offset (snd w)))
                       (unat (table_block_bytes (snd w))) w)
            (\<lambda>index_block.
              case decode_table_index_header index_block of
                Inl _ \<Rightarrow> Inl ESP_ERR_INVALID_CRC
              | Inr header \<Rightarrow>
                  if ti_generation header \<noteq> tr_generation reference \<or>
                     ti_data_block_count header \<noteq> tr_data_block_count reference then Inl ESP_ERR_INVALID_CRC
                  else select_stored_block index_block (unat (ti_entry_count header)) table_index_header_size key (- 1)))"

definition entry_view :: "table_entry \<Rightarrow> value_view" where
  "entry_view entry = \<lparr>
     vv_value = te_value entry, vv_transaction_sequence = te_transaction_sequence entry,
     vv_value_size = te_value_size entry, vv_external_value = te_external_value entry,
     vv_tombstone = te_tombstone (te_flags entry), vv_is_external = te_external (te_flags entry)\<rparr>"

fun search_block :: "bytes \<Rightarrow> nat \<Rightarrow> nat \<Rightarrow> composite_key \<Rightarrow> esp_err + value_view" where
  "search_block data_block 0 offset key = Inl ESP_ERR_NOT_FOUND"
| "search_block data_block (Suc n) offset key =
     (case decode_table_entry data_block offset of
        Inl _ \<Rightarrow> Inl ESP_ERR_INVALID_CRC
      | Inr entry \<Rightarrow>
          let comparison = compare_composite_key (entry_key entry) key in
          if comparison = 0 then Inr (entry_view entry)
          else if comparison > 0 then Inl ESP_ERR_NOT_FOUND
          else search_block data_block n (offset + unat (te_total_size entry)) key)"

definition lookup_table ::
  "config \<Rightarrow> 'd block_device \<Rightarrow> table_reference \<Rightarrow> composite_key \<Rightarrow> 'd world \<Rightarrow> esp_err + value_view" where
  "lookup_table cfg dev reference key w =
     (if \<not> tr_active reference then Inl ESP_ERR_INVALID_ARG
      else
        then_read (select_block cfg dev reference key w)
          (\<lambda>selected_block_offset.
            if selected_block_offset = - 1 then Inl ESP_ERR_NOT_FOUND
            else
              then_read (read_table_bytes cfg dev (tr_slot reference) (ucast selected_block_offset)
                           (unat (table_block_bytes (snd w))) w)
                (\<lambda>data_block.
                  case decode_table_block_header data_block of
                    Inl _ \<Rightarrow> Inl ESP_ERR_INVALID_CRC
                  | Inr header \<Rightarrow>
                      if tb_generation header \<noteq> tr_generation reference then Inl ESP_ERR_INVALID_CRC
                      else search_block data_block (unat (tb_entry_count header)) table_block_header_size key)))"

section \<open>Lookup across the tables\<close>

definition table_plausible :: "db \<Rightarrow> composite_key \<Rightarrow> u32 \<Rightarrow> nat \<Rightarrow> bool" where
  "table_plausible s key examined_slots candidate_slot \<longleftrightarrow>
     (let candidate = mr_tables (db_manifest s) ! candidate_slot in
      examined_slots AND push_bit candidate_slot 1 = 0 \<and> tr_active candidate \<and>
      compare_composite_key key (tr_min_key candidate) \<ge> 0 \<and>
      compare_composite_key key (tr_max_key candidate) \<le> 0 \<and>
      table_key_filter_may_contain s candidate key)"

text \<open>The plausible table with the greatest maximum sequence, the first one among equals.\<close>

definition select_table :: "db \<Rightarrow> composite_key \<Rightarrow> u32 \<Rightarrow> nat option" where
  "select_table s key examined_slots =
     fold (\<lambda>candidate_slot slot.
        if \<not> table_plausible s key examined_slots candidate_slot then slot
        else
          (case slot of
             None \<Rightarrow> Some candidate_slot
           | Some t \<Rightarrow>
               if tr_max_sequence (mr_tables (db_manifest s) ! candidate_slot) >
                  tr_max_sequence (mr_tables (db_manifest s) ! t) then Some candidate_slot else slot))
       [0..<unat (sg_table_count (mr_geometry (db_manifest s)))] None"

record lookup_state =
  lk_best_sequence :: u64
  lk_best_slot :: "nat option"
  lk_best :: "value_view option"

text \<open>The check on a value that goes into the stable lookup buffer.\<close>

definition buffered_value_invalid :: "config \<Rightarrow> value_view \<Rightarrow> bool" where
  "buffered_value_invalid cfg candidate \<longleftrightarrow>
     ((\<not> vv_is_external candidate \<and> vv_value_size candidate > cfg_inline_value_size cfg) \<or>
      (vv_value_size candidate \<noteq> 0 \<and> vv_value candidate = None)) \<and> \<not> vv_is_external candidate"

definition buffered_view :: "value_view \<Rightarrow> value_view" where
  "buffered_view candidate =
     candidate\<lparr>vv_value := (if vv_is_external candidate \<or> vv_value_size candidate = 0 then None else vv_value candidate)\<rparr>"

fun lookup_passes ::
  "config \<Rightarrow> 'd block_device \<Rightarrow> composite_key \<Rightarrow> 'd world \<Rightarrow> nat \<Rightarrow> u32 \<Rightarrow> lookup_state \<Rightarrow> esp_err + lookup_state" where
  "lookup_passes cfg dev key w 0 examined_slots best = Inr best"
| "lookup_passes cfg dev key w (Suc n) examined_slots best =
     (case select_table (snd w) key examined_slots of
        None \<Rightarrow> Inr best
      | Some slot \<Rightarrow>
          let reference = mr_tables (db_manifest (snd w)) ! slot;
              examined_slots = examined_slots OR push_bit slot 1 in
          if tr_max_sequence reference < lk_best_sequence best then Inr best
          else
            (case lookup_table cfg dev reference key w of
               Inl e \<Rightarrow> if e = ESP_ERR_NOT_FOUND then lookup_passes cfg dev key w n examined_slots best else Inl e
             | Inr candidate \<Rightarrow>
                 if vv_transaction_sequence candidate > lk_best_sequence best then
                   if db_table_index_cache (snd w) \<noteq> [] \<and> buffered_value_invalid cfg candidate
                   then Inl ESP_ERR_INVALID_CRC
                   else
                     lookup_passes cfg dev key w n examined_slots
                       \<lparr>lk_best_sequence = vv_transaction_sequence candidate, lk_best_slot = Some slot,
                        lk_best = Some (buffered_view candidate)\<rparr>
                 else lookup_passes cfg dev key w n examined_slots best))"

definition lookup_tables ::
  "config \<Rightarrow> 'd block_device \<Rightarrow> 'd world \<Rightarrow> bytes \<Rightarrow> bytes \<Rightarrow> esp_err + value_view" where
  "lookup_tables cfg dev w namespace_name key =
     (if \<not> valid_name namespace_name \<or> \<not> valid_name key then Inl ESP_ERR_INVALID_ARG
      else
        let composite = Composite_Key namespace_name key in
        then_read (lookup_passes cfg dev composite w (unat (sg_table_count (mr_geometry (db_manifest (snd w))))) 0
                     \<lparr>lk_best_sequence = 0, lk_best_slot = None, lk_best = None\<rparr>)
          (\<lambda>best.
            case lk_best_slot best of
              None \<Rightarrow> Inl ESP_ERR_NOT_FOUND
            | Some slot \<Rightarrow>
                if db_table_index_cache (snd w) \<noteq> [] then Inr (the (lk_best best))
                else lookup_table cfg dev (mr_tables (db_manifest (snd w)) ! slot) composite w))"

definition lookup_committed ::
  "config \<Rightarrow> 'd block_device \<Rightarrow> 'd world \<Rightarrow> bytes \<Rightarrow> bytes \<Rightarrow> esp_err + value_view" where
  "lookup_committed cfg dev w namespace_name key =
     (case lookup_memtable cfg (snd w) namespace_name key of
        Inl e \<Rightarrow> if e = ESP_ERR_NOT_FOUND then lookup_tables cfg dev w namespace_name key else Inl e
      | Inr view \<Rightarrow> Inr view)"

end
