(* ===== verification/Heap_Sort.thy ===== *)
theory Heap_Sort
  imports Memtable "HOL-Library.Multiset"
begin

text \<open>
  The in-place heap sort that orders the memtable records of a flush or compaction
  (\<open>on9kvdb_table.cpp\<close>), over the comparison function it uses. The locale states what the sort
  needs of the comparison; it is interpreted on the comparison of memtable records.
\<close>

section \<open>The algorithm\<close>

function sift_offsets :: "('a \<Rightarrow> 'a \<Rightarrow> int) \<Rightarrow> 'a list \<Rightarrow> nat \<Rightarrow> nat \<Rightarrow> 'a list" where
  "sift_offsets compare offsets n root =
     (if n < 2 \<or> root > (n - 2) div 2 then offsets
      else
        let child = root * 2 + 1;
            child = (if child + 1 < n \<and> compare (offsets ! child) (offsets ! (child + 1)) < 0
              then child + 1 else child) in
        if compare (offsets ! root) (offsets ! child) \<ge> 0 then offsets
        else sift_offsets compare (offsets[root := offsets ! child, child := offsets ! root]) n child)"
  by pat_completeness auto
termination
  by (relation "measure (\<lambda>(_, _, n, root). n - root)") (auto split: if_splits)

declare sift_offsets.simps [simp del]

definition heapify_offsets :: "('a \<Rightarrow> 'a \<Rightarrow> int) \<Rightarrow> 'a list \<Rightarrow> nat \<Rightarrow> 'a list" where
  "heapify_offsets compare offsets n =
     fold (\<lambda>root offsets. sift_offsets compare offsets n (root - 1)) (rev [1..<n div 2 + 1]) offsets"

definition sort_offsets :: "('a \<Rightarrow> 'a \<Rightarrow> int) \<Rightarrow> 'a list \<Rightarrow> nat \<Rightarrow> 'a list" where
  "sort_offsets compare offsets n =
     (if n < 2 then offsets
      else
        fold (\<lambda>end_at offsets.
            sift_offsets compare (offsets[0 := offsets ! (end_at - 1), end_at - 1 := offsets ! 0]) (end_at - 1) 0)
          (rev [2..<n + 1]) (heapify_offsets compare offsets n))"

text \<open>The comparison of the records at two offsets of the memtable arena.\<close>

definition memtable_composite_key :: "db \<Rightarrow> u32 \<Rightarrow> composite_key" where
  "memtable_composite_key s offset =
     (let header = the (db_memtable_data s (unat offset)) in
      Composite_Key (ns_name (db_namespaces s ! unat (rec_namespace_slot_index header))) (rec_key header))"

definition compare_memtable_records :: "db \<Rightarrow> u32 \<Rightarrow> u32 \<Rightarrow> int" where
  "compare_memtable_records s lhs rhs =
     compare_composite_key (memtable_composite_key s lhs) (memtable_composite_key s rhs)"

definition sift_memtable_offsets :: "db \<Rightarrow> u32 list \<Rightarrow> nat \<Rightarrow> nat \<Rightarrow> u32 list" where
  "sift_memtable_offsets s = sift_offsets (compare_memtable_records s)"

definition sort_memtable_offsets :: "db \<Rightarrow> u32 list \<Rightarrow> nat \<Rightarrow> u32 list" where
  "sort_memtable_offsets s = sort_offsets (compare_memtable_records s)"

section \<open>Correctness\<close>

lemma sift_offsets_mset:
  "n \<le> length xs \<Longrightarrow> mset (sift_offsets compare xs n root) = mset xs"
  "length (sift_offsets compare xs n root) = length xs"
proof (induction compare xs n root rule: sift_offsets.induct)
  case (1 compare xs n root)
  {
    case 1
    then show ?case
      using "1.IH"(1)
      by (subst sift_offsets.simps) (auto simp: Let_def mset_swap split: if_splits)
  next
    case 2
    then show ?case
      using "1.IH"(2) by (subst sift_offsets.simps) (auto simp: Let_def)
  }
qed

definition is_child :: "nat \<Rightarrow> nat \<Rightarrow> bool" where
  "is_child i c \<longleftrightarrow> c = 2 * i + 1 \<or> c = 2 * i + 2"

lemma is_child_simps: "is_child i c \<Longrightarrow> i < c" "is_child i c \<Longrightarrow> is_child j c \<Longrightarrow> i = j"
  by (auto simp: is_child_def)

locale comparison =
  fixes compare :: "'a \<Rightarrow> 'a \<Rightarrow> int"
  assumes total: "compare a b < 0 \<Longrightarrow> compare b a \<ge> 0"
    and trans: "compare a b \<ge> 0 \<Longrightarrow> compare b c \<ge> 0 \<Longrightarrow> compare a c \<ge> 0"
begin

lemma refl: "compare a a \<ge> 0"
  using total [of a a] by linarith

definition ge :: "'a \<Rightarrow> 'a \<Rightarrow> bool" where "ge a b \<longleftrightarrow> compare a b \<ge> 0"

text \<open>The heap property at every node from \<open>first\<close> on except \<open>hole\<close>, whose parent dominates its children.\<close>

definition heap_except :: "'a list \<Rightarrow> nat \<Rightarrow> nat \<Rightarrow> nat \<Rightarrow> bool" where
  "heap_except xs n first hole \<longleftrightarrow>
     (\<forall>i c. first \<le> i \<longrightarrow> i \<noteq> hole \<longrightarrow> is_child i c \<longrightarrow> c < n \<longrightarrow> ge (xs ! i) (xs ! c)) \<and>
     (\<forall>i c. first \<le> i \<longrightarrow> is_child i hole \<longrightarrow> is_child hole c \<longrightarrow> c < n \<longrightarrow> ge (xs ! i) (xs ! c))"

definition heap_from :: "'a list \<Rightarrow> nat \<Rightarrow> nat \<Rightarrow> bool" where
  "heap_from xs n first \<longleftrightarrow> (\<forall>i c. first \<le> i \<longrightarrow> is_child i c \<longrightarrow> c < n \<longrightarrow> ge (xs ! i) (xs ! c))"

lemma heap_except_start: "heap_from xs n (Suc root) \<Longrightarrow> heap_except xs n root root"
  by (auto simp: heap_except_def heap_from_def is_child_def)

lemma heap_fill_hole:
  assumes "heap_except xs n first hole" "\<forall>c. is_child hole c \<longrightarrow> c < n \<longrightarrow> ge (xs ! hole) (xs ! c)"
  shows "heap_from xs n first"
  using assms unfolding heap_except_def heap_from_def by blast

text \<open>Moving the hole down to its greatest child.\<close>

lemma heap_move_hole:
  assumes heap: "heap_except xs n first hole" and n: "n \<le> length xs"
    and child: "is_child hole child" "child < n" "first \<le> hole"
    and greatest: "\<forall>c. is_child hole c \<longrightarrow> c < n \<longrightarrow> ge (xs ! child) (xs ! c)"
    and below: "ge (xs ! child) (xs ! hole)"
  shows "heap_except (xs[hole := xs ! child, child := xs ! hole]) n first child"
proof -
  let ?ys = "xs[hole := xs ! child, child := xs ! hole]"
  have ne: "hole < child" by (rule is_child_simps(1) [OF child(1)])
  have ys: "?ys ! hole = xs ! child" "?ys ! child = xs ! hole" "\<And>i. i \<noteq> hole \<Longrightarrow> i \<noteq> child \<Longrightarrow> ?ys ! i = xs ! i"
    using ne child(2) n by auto
  have "ge (?ys ! i) (?ys ! c)" if i: "first \<le> i" "i \<noteq> child" "is_child i c" "c < n" for i c
  proof (cases "i = hole")
    case True
    then show ?thesis
      using i greatest below ys ne is_child_simps(1) [OF i(3)] by (cases "c = child") auto
  next
    case False
    have "c \<noteq> child" using is_child_simps(2) [OF i(3)] child(1) False by blast
    show ?thesis
    proof (cases "c = hole")
      case True
      then have "ge (xs ! i) (xs ! child)" using heap i child unfolding heap_except_def by blast
      then show ?thesis using ys False i(2) True by simp
    next
      case c: False
      then have "ge (xs ! i) (xs ! c)" using heap i False unfolding heap_except_def by blast
      then show ?thesis using ys False i(2) c \<open>c \<noteq> child\<close> by simp
    qed
  qed
  moreover have "ge (?ys ! i) (?ys ! c)" if i: "first \<le> i" "is_child i child" "is_child child c" "c < n" for i c
  proof -
    have "i = hole" using is_child_simps(2) i(2) child(1) by blast
    moreover have "ge (xs ! child) (xs ! c)"
      using heap child i(3,4) ne unfolding heap_except_def by (metis le_trans less_imp_le nat_neq_iff)
    moreover have "c \<noteq> hole" "c \<noteq> child" using is_child_simps(1) [OF i(3)] ne by auto
    ultimately show ?thesis using ys by simp
  qed
  ultimately show ?thesis unfolding heap_except_def by blast
qed

lemma sift_heap:
  assumes "heap_except xs n first root" "n \<le> length xs" "first \<le> root"
  shows "heap_from (sift_offsets compare xs n root) n first"
  using assms
proof (induction "n - root" arbitrary: xs root rule: less_induct)
  case less
  have leaf: "heap_from xs n first" if "\<not> root * 2 + 1 < n"
    using less.prems(1) that by (intro heap_fill_hole) (auto simp: is_child_def)
  define child where
    "child = (if root * 2 + 2 < n \<and> compare (xs ! (root * 2 + 1)) (xs ! (root * 2 + 2)) < 0
      then root * 2 + 2 else root * 2 + 1)"
  show ?case
  proof (cases "root * 2 + 1 < n")
    case False
    then show ?thesis using leaf [OF False] by (subst sift_offsets.simps) auto
  next
    case True
    then have range: "\<not> (n < 2 \<or> root > (n - 2) div 2)" by auto
    have child: "is_child root child" "child < n"
      using True by (auto simp: child_def is_child_def)
    have greatest: "ge (xs ! child) (xs ! c)" if "is_child root c" "c < n" for c
      using that total [of "xs ! (root * 2 + 1)" "xs ! (root * 2 + 2)"] refl
      by (auto simp: ge_def is_child_def child_def mult.commute split: if_splits)
    have unfold: "sift_offsets compare xs n root =
        (if compare (xs ! root) (xs ! child) \<ge> 0 then xs
         else sift_offsets compare (xs[root := xs ! child, child := xs ! root]) n child)"
      using range by (subst sift_offsets.simps) (simp add: Let_def child_def)
    show ?thesis
    proof (cases "compare (xs ! root) (xs ! child) \<ge> 0")
      case True
      then have "ge (xs ! root) (xs ! c)" if "is_child root c" "c < n" for c
        using greatest [OF that] trans unfolding ge_def by blast
      then show ?thesis
        unfolding unfold using True less.prems(1) by (simp add: heap_fill_hole)
    next
      case False
      then have below: "ge (xs ! child) (xs ! root)" using total by (simp add: ge_def not_le)
      have "heap_except (xs[root := xs ! child, child := xs ! root]) n first child"
        using heap_move_hole [OF less.prems(1,2) child less.prems(3) _ below] greatest by blast
      moreover have "root < child" by (rule is_child_simps(1) [OF child(1)])
      ultimately have "heap_from (sift_offsets compare (xs[root := xs ! child, child := xs ! root]) n child) n first"
        using less.prems(2,3) child(2) by (intro less.hyps) auto
      then show ?thesis unfolding unfold using False by simp
    qed
  qed
qed

text \<open>The sift leaves the positions outside the heap alone.\<close>

lemma sift_outside:
  assumes "n \<le> j" "root < n"
  shows "sift_offsets compare xs n root ! j = xs ! j"
  using assms
proof (induction "n - root" arbitrary: xs root rule: less_induct)
  case less
  define child where
    "child = (if root * 2 + 1 + 1 < n \<and> compare (xs ! (root * 2 + 1)) (xs ! (root * 2 + 1 + 1)) < 0
      then root * 2 + 1 + 1 else root * 2 + 1)"
  have step: "sift_offsets compare xs n root =
      (if n < 2 \<or> root > (n - 2) div 2 \<or> compare (xs ! root) (xs ! child) \<ge> 0 then xs
       else sift_offsets compare (xs[root := xs ! child, child := xs ! root]) n child)"
    by (subst sift_offsets.simps) (auto simp: Let_def child_def)
  show ?case
  proof (cases "n < 2 \<or> root > (n - 2) div 2 \<or> compare (xs ! root) (xs ! child) \<ge> 0")
    case False
    then have "root < child" "child < n" by (auto simp: child_def)
    then show ?thesis using False less.hyps [of child] less.prems by (simp add: step)
  qed (simp add: step)
qed

lemma heapify_heap:
  assumes "n \<le> length xs"
  shows "heap_from (heapify_offsets compare xs n) n 0 \<and> mset (heapify_offsets compare xs n) = mset xs \<and>
    length (heapify_offsets compare xs n) = length xs"
proof -
  have "heap_from (fold (\<lambda>root xs. sift_offsets compare xs n (root - 1)) (rev [1..<k + 1]) ys) n 0 \<and>
      mset (fold (\<lambda>root xs. sift_offsets compare xs n (root - 1)) (rev [1..<k + 1]) ys) = mset ys \<and>
      length (fold (\<lambda>root xs. sift_offsets compare xs n (root - 1)) (rev [1..<k + 1]) ys) = length ys"
    if "heap_from ys n k" "n \<le> length ys" for k ys
    using that
  proof (induction k arbitrary: ys)
    case (Suc k)
    let ?zs = "sift_offsets compare ys n k"
    have "heap_from ?zs n k"
      using Suc.prems by (intro sift_heap heap_except_start) auto
    then show ?case
      using Suc.IH [of ?zs] Suc.prems(2) by (simp add: sift_offsets_mset)
  qed simp
  moreover have "heap_from xs n (n div 2)" by (auto simp: heap_from_def is_child_def)
  ultimately show ?thesis using assms unfolding heapify_offsets_def by blast
qed

lemma heap_root_greatest:
  assumes "heap_from xs n 0" "i < n"
  shows "ge (xs ! 0) (xs ! i)"
  using assms(2)
proof (induction i rule: less_induct)
  case (less i)
  show ?case
  proof (cases "i = 0")
    case True
    then show ?thesis by (simp add: ge_def refl)
  next
    case False
    let ?p = "(i - 1) div 2"
    have "is_child ?p i" "?p < i" using False by (auto simp: is_child_def)
    then have "ge (xs ! ?p) (xs ! i)" "ge (xs ! 0) (xs ! ?p)"
      using assms(1) less unfolding heap_from_def by (blast, auto)
    then show ?thesis using trans unfolding ge_def by blast
  qed
qed

text \<open>From position \<open>n\<close> on, the list is sorted and not below anything before it.\<close>

definition sorted_tail :: "'a list \<Rightarrow> nat \<Rightarrow> nat \<Rightarrow> bool" where
  "sorted_tail xs total_count n \<longleftrightarrow> (\<forall>i j. i < j \<longrightarrow> n \<le> j \<longrightarrow> j < total_count \<longrightarrow> ge (xs ! j) (xs ! i))"

lemma extract_step:
  assumes heap: "heap_from xs (Suc n) 0" and tail: "sorted_tail xs N (Suc n)" and n: "0 < n" "Suc n \<le> N" "N \<le> length xs"
  defines "ys \<equiv> sift_offsets compare (xs[0 := xs ! n, n := xs ! 0]) n 0"
  shows "heap_from ys n 0" "sorted_tail ys N n" "mset ys = mset xs"
proof -
  let ?zs = "xs[0 := xs ! n, n := xs ! 0]"
  have len: "n \<le> length ?zs" "n < length xs" using n by auto
  have zs: "?zs ! n = xs ! 0" "\<And>j. n < j \<Longrightarrow> ?zs ! j = xs ! j" using n len by auto
  have "xs \<noteq> []" using len by auto
  then have front: "?zs ! i = xs ! (if i = 0 then n else i)" if "i < n" for i
    using that by (cases "i = 0") auto
  have "heap_except ?zs n 0 0"
    unfolding heap_except_def
  proof (intro conjI allI impI)
    fix i c assume i: "i \<noteq> 0" "is_child i c" "c < n"
    then have "i < c" using is_child_simps(1) by blast
    then show "ge (?zs ! i) (?zs ! c)"
      using heap i unfolding heap_from_def by (auto simp: nth_list_update)
  qed (auto simp: is_child_def)
  then show heap': "heap_from ys n 0" unfolding ys_def using len by (intro sift_heap) auto
  show mset: "mset ys = mset xs"
    unfolding ys_def using len mset_swap [of n xs 0] by (cases xs) (simp_all add: sift_offsets_mset)
  have out: "ys ! j = ?zs ! j" if "n \<le> j" for j
    unfolding ys_def using that n(1) by (rule sift_outside)
  have mset_front: "ys ! i \<in> set (take (Suc n) xs)" if "i < n" for i
  proof -
    have drop: "drop n ys = drop n ?zs"
      using out unfolding ys_def by (intro nth_equalityI) (simp_all add: sift_offsets_mset)
    have "mset (take n ys) + mset (drop n ys) = mset (take n ?zs) + mset (drop n ?zs)"
      using sift_offsets_mset(1) [of n ?zs compare 0] len
      unfolding ys_def mset_append [symmetric] append_take_drop_id by simp
    then have "mset (take n ys) = mset (take n ?zs)" unfolding drop by simp
    then have "set (take n ys) = set (take n ?zs)" by (rule mset_eq_setD)
    moreover have "ys ! i \<in> set (take n ys)"
      using that len unfolding in_set_conv_nth ys_def by (auto simp: sift_offsets_mset)
    moreover have "set (take n ?zs) \<subseteq> set (take (Suc n) xs)"
    proof
      fix x assume "x \<in> set (take n ?zs)"
      then obtain i where i: "i < n" "x = ?zs ! i" by (auto simp: in_set_conv_nth)
      let ?k = "if i = 0 then n else i"
      have "x = take (Suc n) xs ! ?k" "?k < length (take (Suc n) xs)" using i len front by simp_all
      then show "x \<in> set (take (Suc n) xs)" by (metis nth_mem)
    qed
    ultimately show ?thesis by blast
  qed
  show "sorted_tail ys N n"
    unfolding sorted_tail_def
  proof (intro allI impI)
    fix i j assume ij: "i < j" "n \<le> j" "j < N"
    have top: "ge (xs ! 0) x" if "x \<in> set (take (Suc n) xs)" for x
      using that heap_root_greatest [OF heap] len by (auto simp: in_set_conv_nth)
    have later: "ge (xs ! j) x" if "x \<in> set (take (Suc n) xs)" "n < j" for x
      using that tail ij len unfolding sorted_tail_def in_set_conv_nth by auto
    show "ge (ys ! j) (ys ! i)"
    proof (cases "j = n")
      case True
      then show ?thesis using top mset_front [of i] ij out zs by simp
    next
      case False
      then have j: "n < j" using ij by simp
      show ?thesis
      proof (cases "i < n")
        case True
        then show ?thesis using later [OF mset_front j] out zs ij j by simp
      next
        case i: False
        show ?thesis
        proof (cases "i = n")
          case True
          have "xs ! 0 \<in> set (take (Suc n) xs)" using len by (cases xs) auto
          then show ?thesis using later [OF _ j] True out zs ij j by simp
        next
          case False
          then show ?thesis using tail ij i j out zs unfolding sorted_tail_def by simp
        qed
      qed
    qed
  qed
qed

lemma extract_sorted:
  assumes "heap_from xs (Suc n) 0" "sorted_tail xs N (Suc n)" "Suc n \<le> N" "N \<le> length xs"
  shows "sorted_tail (fold (\<lambda>end_at xs. sift_offsets compare (xs[0 := xs ! (end_at - 1), end_at - 1 := xs ! 0])
      (end_at - 1) 0) (rev [2..<n + 2]) xs) N 1 \<and>
    mset (fold (\<lambda>end_at xs. sift_offsets compare (xs[0 := xs ! (end_at - 1), end_at - 1 := xs ! 0])
      (end_at - 1) 0) (rev [2..<n + 2]) xs) = mset xs"
  using assms
proof (induction n arbitrary: xs)
  case (Suc n)
  note step = extract_step [OF Suc.prems(1,2) _ Suc.prems(3,4)]
  let ?ys = "sift_offsets compare (xs[0 := xs ! Suc n, Suc n := xs ! 0]) (Suc n) 0"
  have "length ?ys = length xs" by (simp add: sift_offsets_mset)
  then show ?case
    using Suc.IH [of ?ys] step Suc.prems(3,4) by simp
qed (simp)

text \<open>The sorted prefix is a permutation of the input, in ascending order.\<close>

theorem sort_offsets_sorted:
  assumes "n \<le> length xs"
  shows "mset (sort_offsets compare xs n) = mset xs"
    "i < j \<Longrightarrow> j < n \<Longrightarrow> compare (sort_offsets compare xs n ! j) (sort_offsets compare xs n ! i) \<ge> 0"
proof -
  have *: "mset (sort_offsets compare xs n) = mset xs \<and> sorted_tail (sort_offsets compare xs n) n 1"
  proof (cases "n < 2")
    case True
    then show ?thesis by (auto simp: sort_offsets_def sorted_tail_def)
  next
    case False
    then obtain m where m: "n = Suc m" by (cases n) auto
    let ?h = "heapify_offsets compare xs n"
    have "heap_from ?h n 0" "mset ?h = mset xs" "length ?h = length xs" using heapify_heap [OF assms] by auto
    moreover have "sorted_tail ?h n n" by (simp add: sorted_tail_def)
    ultimately show ?thesis
      using extract_sorted [of ?h m n] assms False unfolding m by (simp add: sort_offsets_def)
  qed
  then show "mset (sort_offsets compare xs n) = mset xs" by blast
  show "compare (sort_offsets compare xs n ! j) (sort_offsets compare xs n ! i) \<ge> 0" if "i < j" "j < n"
    using * that unfolding sorted_tail_def ge_def by auto
qed

end

section \<open>The memtable records\<close>

interpretation memtable_order: comparison "compare_memtable_records s" for s :: db
proof
  fix a b c :: u32
  show "compare_memtable_records s a b < 0 \<Longrightarrow> compare_memtable_records s b a \<ge> 0"
    using less_composite_key_def by (metis compare_memtable_records_def not_less not_less_iff_gr_or_eq)
  show "compare_memtable_records s a b \<ge> 0 \<Longrightarrow> compare_memtable_records s b c \<ge> 0 \<Longrightarrow> compare_memtable_records s a c \<ge> 0"
    unfolding compare_memtable_records_def by (metis less_composite_key_def not_less order_trans)
qed

end
