(* ===== verification/Table_Build.thy ===== *)
theory Table_Build
  imports Table_Store Heap_Sort
begin

text \<open>
  Writing sorted tables (\<open>on9kvdb_table.cpp\<close>, \<open>on9kvdb_compaction.cpp\<close>): the data block under
  construction, its index, and the completion of a table file with its footer and redundant headers.
  Flush and compaction share these steps.
\<close>

record table_build =
  bs_data_block :: bytes
  bs_index_block :: bytes
  bs_generation :: u64
  bs_slot :: u32
  bs_data_block_count :: u32
  bs_entry_count :: u32
  bs_data_bytes :: u32
  bs_data_payload_size :: u32
  bs_index_payload_size :: u32
  bs_content_crc :: u32
  bs_data_block_entry_count :: u16

text \<open>The builder and the metadata collected for the table.\<close>

record table_output =
  to_build :: table_build
  to_metadata :: table_metadata
  to_maximum_data_blocks :: u32

definition align_table_entry_size :: "u32 \<Rightarrow> u32" where
  "align_table_entry_size n = (n + 7) AND NOT 7"

definition empty_table_metadata :: table_metadata where
  "empty_table_metadata = \<lparr>tm_database_id = 0, tm_generation = 0, tm_min_sequence = 0, tm_max_sequence = 0,
     tm_slot = 0, tm_block_size = 0, tm_data_region_start = 0, tm_data_block_count = 0, tm_index_offset = 0,
     tm_footer_offset = 0, tm_entry_count = 0, tm_data_bytes = 0, tm_content_checksum = 0, tm_level = 0,
     tm_min_key = empty_composite_key, tm_max_key = empty_composite_key\<rparr>"

definition start_table_output :: "db \<Rightarrow> u32 \<Rightarrow> u64 \<Rightarrow> table_output" where
  "start_table_output s slot generation = \<lparr>
     to_build = \<lparr>bs_data_block = zeroes (unat (table_block_bytes s)),
        bs_index_block = zeroes (unat (table_block_bytes s)), bs_generation = generation, bs_slot = slot,
        bs_data_block_count = 0, bs_entry_count = 0, bs_data_bytes = 0, bs_data_payload_size = 0,
        bs_index_payload_size = 0, bs_content_crc = - 1, bs_data_block_entry_count = 0\<rparr>,
     to_metadata = empty_table_metadata\<lparr>tm_database_id := mr_database_id (db_manifest s),
        tm_generation := generation, tm_slot := slot, tm_block_size := table_block_bytes s,
        tm_data_region_start := of_nat table_data_region_offset, tm_index_offset := table_index_offset s,
        tm_footer_offset := table_footer_offset s\<rparr>,
     to_maximum_data_blocks =
        (table_index_offset s - of_nat table_data_region_offset) div table_block_bytes s\<rparr>"

definition finish_table_data_block ::
  "config \<Rightarrow> 'd block_device \<Rightarrow> table_build \<Rightarrow> 'd world \<Rightarrow> (esp_err + table_build) \<times> 'd world" where
  "finish_table_data_block cfg dev state w =
     (if bs_data_block_entry_count state = 0 \<or> bs_data_payload_size state = 0 then (Inl ESP_ERR_INVALID_STATE, w)
      else
        let header = \<lparr>tb_generation = bs_generation state, tb_block_index = bs_data_block_count state,
              tb_entry_count = bs_data_block_entry_count state, tb_payload_size = bs_data_payload_size state\<rparr> in
        (case encode_table_block_header (bs_data_block state) header of
           None \<Rightarrow> (Inl ESP_ERR_INVALID_STATE, w)
         | Some data_block \<Rightarrow>
             let offset = of_nat table_data_region_offset +
                   ucast (bs_data_block_count state) * ucast (table_block_bytes (snd w)) :: u64 in
             (case write_table_bytes cfg dev (bs_slot state) offset data_block w of
                (ret, w) \<Rightarrow>
                  if ret \<noteq> ESP_OK then (Inl ret, w)
                  else (Inr (state\<lparr>
                     bs_content_crc := calc_crc32_update (bs_content_crc state) data_block,
                     bs_data_block_count := bs_data_block_count state + 1,
                     bs_data_payload_size := 0, bs_data_block_entry_count := 0,
                     bs_data_block := zeroes (unat (table_block_bytes (snd w)))\<rparr>), w))))"

text \<open>Make room for an entry: close a full block, and enter the first key of a new one in the index.\<close>

definition block_full :: "db \<Rightarrow> u32 \<Rightarrow> table_build \<Rightarrow> bool" where
  "block_full s encoded_size state \<longleftrightarrow>
     bs_data_block_entry_count state > 0 \<and>
     encoded_size > table_block_bytes s - of_nat table_block_header_size - bs_data_payload_size state"

definition enter_index :: "db \<Rightarrow> composite_key \<Rightarrow> u64 \<Rightarrow> u32 \<Rightarrow> table_build \<Rightarrow> esp_err + table_build" where
  "enter_index s key transaction_sequence maximum_data_blocks state =
     (if bs_data_block_entry_count state \<noteq> 0 then Inr state
      else if bs_data_block_count state \<ge> maximum_data_blocks then Inl ESP_ERR_NO_MEM
      else
        let index_entry = \<lparr>tx_first_sequence = transaction_sequence,
              tx_block_offset = of_nat table_data_region_offset + bs_data_block_count state * table_block_bytes s,
              tx_total_size = 0, tx_namespace = ck_namespace key, tx_key = ck_key key\<rparr> in
        (case encode_table_index_entry (bs_index_block state)
                (table_index_header_size + unat (bs_index_payload_size state)) index_entry of
           None \<Rightarrow> Inl ESP_ERR_NO_MEM
         | Some (index_block, added_size) \<Rightarrow>
             Inr (state\<lparr>bs_index_block := index_block,
                        bs_index_payload_size := bs_index_payload_size state + added_size\<rparr>)))"

definition make_room ::
  "config \<Rightarrow> 'd block_device \<Rightarrow> composite_key \<Rightarrow> u64 \<Rightarrow> u32 \<Rightarrow> table_output \<Rightarrow> 'd world \<Rightarrow>
     (esp_err + table_output) \<times> 'd world" where
  "make_room cfg dev key transaction_sequence encoded_size output w =
     (case (if block_full (snd w) encoded_size (to_build output)
            then finish_table_data_block cfg dev (to_build output) w else (Inr (to_build output), w)) of
        (Inl e, w) \<Rightarrow> (Inl e, w)
      | (Inr state, w) \<Rightarrow>
          (case enter_index (snd w) key transaction_sequence (to_maximum_data_blocks output) state of
             Inl e \<Rightarrow> (Inl e, w)
           | Inr state \<Rightarrow> (Inr (output\<lparr>to_build := state\<rparr>), w)))"

text \<open>Account for an entry of \<open>actual_size\<close> bytes that was placed in the block.\<close>

definition extend_metadata :: "bool \<Rightarrow> composite_key \<Rightarrow> u64 \<Rightarrow> table_metadata \<Rightarrow> table_metadata" where
  "extend_metadata first key sequence metadata =
     (let metadata = (if first then metadata\<lparr>tm_min_key := key, tm_min_sequence := sequence, tm_max_sequence := sequence\<rparr>
            else metadata);
          metadata = metadata\<lparr>tm_max_key := key\<rparr>;
          metadata = (if sequence < tm_min_sequence metadata then metadata\<lparr>tm_min_sequence := sequence\<rparr> else metadata) in
      (if sequence > tm_max_sequence metadata then metadata\<lparr>tm_max_sequence := sequence\<rparr> else metadata))"

definition account_entry :: "composite_key \<Rightarrow> u64 \<Rightarrow> bytes \<Rightarrow> u32 \<Rightarrow> table_output \<Rightarrow> table_output" where
  "account_entry key sequence data_block actual_size output =
     (let state = to_build output in
      output\<lparr>to_metadata := extend_metadata (bs_entry_count state = 0) key sequence (to_metadata output),
             to_build := state\<lparr>bs_data_block := data_block,
               bs_data_payload_size := bs_data_payload_size state + actual_size,
               bs_data_block_entry_count := bs_data_block_entry_count state + 1,
               bs_entry_count := bs_entry_count state + 1,
               bs_data_bytes := bs_data_bytes state + actual_size\<rparr>\<rparr>)"

text \<open>The table entry of a memtable record.\<close>

definition record_composite_key :: "db \<Rightarrow> memtable_record \<Rightarrow> composite_key" where
  "record_composite_key s header =
     Composite_Key (ns_name (db_namespaces s ! unat (rec_namespace_slot_index header))) (rec_key header)"

definition record_encoded_size :: "db \<Rightarrow> memtable_record \<Rightarrow> u32" where
  "record_encoded_size s header =
     align_table_entry_size (of_nat table_entry_header_size +
       of_nat (length (ns_name (db_namespaces s ! unat (rec_namespace_slot_index header)))) +
       of_nat (length (rec_key header)) +
       (if rec_external header then of_nat value_ref_encoded_size else rec_value_size header))"

definition record_table_entry :: "db \<Rightarrow> memtable_record \<Rightarrow> table_entry" where
  "record_table_entry s header = \<lparr>
     te_transaction_sequence = rec_transaction_sequence header,
     te_total_size = 0,
     te_value_size = rec_value_size header,
     te_reserved0 = rec_reserved0 header,
     te_flags = (if rec_tombstone header then table_entry_flag_tombstone else 0) OR
                (if rec_external header then table_entry_flag_external_value else 0),
     te_external_value = (if rec_external header then rec_external_value header else empty_value_ref),
     te_namespace = ns_name (db_namespaces s ! unat (rec_namespace_slot_index header)),
     te_key = rec_key header,
     te_value = (if rec_external header then None else Some (rec_value header))\<rparr>"

text \<open>Where the next entry goes in the data block.\<close>

definition entry_position :: "table_output \<Rightarrow> nat" where
  "entry_position output = table_block_header_size + unat (bs_data_payload_size (to_build output))"

definition append_record_entry ::
  "config \<Rightarrow> 'd block_device \<Rightarrow> memtable_record \<Rightarrow> table_output \<Rightarrow> 'd world \<Rightarrow>
     (esp_err + table_output) \<times> 'd world" where
  "append_record_entry cfg dev header output w =
     (let key = record_composite_key (snd w) header; sequence = rec_transaction_sequence header in
      case make_room cfg dev key sequence (record_encoded_size (snd w) header) output w of
        (Inl e, w) \<Rightarrow> (Inl e, w)
      | (Inr output, w) \<Rightarrow>
          (case encode_table_entry (bs_data_block (to_build output)) (entry_position output)
                  (record_table_entry (snd w) header) of
             None \<Rightarrow> (Inl ESP_ERR_INVALID_SIZE, w)
           | Some (data_block, actual_size) \<Rightarrow> (Inr (account_entry key sequence data_block actual_size output), w)))"

section \<open>Completing a table\<close>

definition write_metadata_slot ::
  "config \<Rightarrow> 'd block_device \<Rightarrow> u32 \<Rightarrow> u64 \<Rightarrow> u32 \<Rightarrow> table_metadata \<Rightarrow> 'd world \<Rightarrow> esp_err \<times> 'd world" where
  "write_metadata_slot cfg dev slot offset magic metadata w =
     (case encode_table_metadata (zeroes wal_frame_size) magic metadata of
        None \<Rightarrow> (ESP_ERR_INVALID_STATE, w)
      | Some io_frame \<Rightarrow> write_store cfg dev kind_table slot offset io_frame w)"

text \<open>The footer, then the redundant headers, then one sync.\<close>

definition write_table_metadata ::
  "config \<Rightarrow> 'd block_device \<Rightarrow> table_metadata \<Rightarrow> 'd world \<Rightarrow> esp_err \<times> 'd world" where
  "write_table_metadata cfg dev metadata w =
     (let slot = tm_slot metadata;
          header = (\<lambda>copy. write_metadata_slot cfg dev slot
            (of_nat table_header_region_offset + of_nat copy * of_nat table_header_slot_size) table_header_magic metadata) in
      on_ok (write_metadata_slot cfg dev slot (ucast (tm_footer_offset metadata)) table_footer_magic metadata w) (\<lambda>w.
      on_ok (header 0 w) (\<lambda>w. on_ok (header 1 w) (sync_store dev))))"

definition finish_table_output ::
  "config \<Rightarrow> 'd block_device \<Rightarrow> table_output \<Rightarrow> 'd world \<Rightarrow> (esp_err + table_metadata) \<times> 'd world" where
  "finish_table_output cfg dev output w =
     (let state = to_build output;
          index_header = \<lparr>ti_generation = bs_generation state, ti_entry_count = bs_data_block_count state,
            ti_payload_size = bs_index_payload_size state, ti_data_block_count = bs_data_block_count state\<rparr> in
      case encode_table_index_header (bs_index_block state) index_header of
        None \<Rightarrow> (Inl ESP_ERR_INVALID_STATE, w)
      | Some index_block \<Rightarrow>
          (case write_table_bytes cfg dev (bs_slot state) (ucast (tm_index_offset (to_metadata output))) index_block w of
             (ret, w) \<Rightarrow>
               if ret \<noteq> ESP_OK then (Inl ret, w)
               else
                 let metadata = (to_metadata output)\<lparr>tm_data_block_count := bs_data_block_count state,
                       tm_entry_count := bs_entry_count state, tm_data_bytes := bs_data_bytes state,
                       tm_content_checksum := NOT (calc_crc32_update (bs_content_crc state) index_block)\<rparr> in
                 (case write_table_metadata cfg dev metadata w of
                    (ret, w) \<Rightarrow> (if ret \<noteq> ESP_OK then Inl ret else Inr metadata, w))))"

text \<open>The file bytes a table accounts for.\<close>

definition table_file_bytes :: "db \<Rightarrow> u32 \<Rightarrow> u64" where
  "table_file_bytes s data_block_count =
     of_nat table_header_region_size + ucast (data_block_count + 1) * ucast (table_block_bytes s) +
     of_nat table_footer_slot_size"

end
