(* ===== verification/Table_Cursor.thy ===== *)
theory Table_Cursor
  imports Table_Store
begin

text \<open>
  Cursors over the entries of a table (\<open>on9kvdb_compaction.cpp\<close>) and the recovery of the tables at
  start, which merges one cursor per table to rebuild the counters (\<open>on9kvdb_table.cpp\<close>). A
  cursor keeps the current key and its position on storage, never a whole block.
\<close>

record compaction_cursor =
  cc_key :: composite_key
  cc_transaction_sequence :: u64
  cc_source_slot :: u32
  cc_block_index :: u32
  cc_entry_offset :: u32
  cc_block_payload_end :: u32
  cc_total_size :: u32
  cc_value_size :: u32
  cc_external_value :: value_ref
  cc_entry_index :: u16
  cc_block_entry_count :: u16
  cc_reserved0 :: u8
  cc_flags :: u8
  cc_active :: bool

definition new_cursor :: "u32 \<Rightarrow> compaction_cursor" where
  "new_cursor source_slot = \<lparr>cc_key = empty_composite_key, cc_transaction_sequence = 0,
     cc_source_slot = source_slot, cc_block_index = 0, cc_entry_offset = 0, cc_block_payload_end = 0,
     cc_total_size = 0, cc_value_size = 0, cc_external_value = empty_value_ref, cc_entry_index = 0,
     cc_block_entry_count = 0, cc_reserved0 = 0, cc_flags = 0, cc_active = False\<rparr>"

definition cursor_reference :: "db \<Rightarrow> compaction_cursor \<Rightarrow> table_reference" where
  "cursor_reference s cursor = mr_tables (db_manifest s) ! unat (cc_source_slot cursor)"

section \<open>Loading and advancing a cursor\<close>

definition cursor_block_offset :: "db \<Rightarrow> compaction_cursor \<Rightarrow> u32" where
  "cursor_block_offset s cursor =
     of_nat table_data_region_offset + cc_block_index cursor * table_block_bytes s"

text \<open>
  The entry count and payload size of the cursor's block: from the whole validated block, or from its
  64 header bytes alone when no validation buffer is passed.
\<close>

definition load_cursor_block ::
  "config \<Rightarrow> 'd block_device \<Rightarrow> bool \<Rightarrow> compaction_cursor \<Rightarrow> 'd world \<Rightarrow> esp_err + u16 \<times> u32" where
  "load_cursor_block cfg dev validate cursor w =
     (let generation = tr_generation (cursor_reference (snd w) cursor);
          block_offset = ucast (cursor_block_offset (snd w) cursor) in
      if validate then
        then_read (read_table_bytes cfg dev (cc_source_slot cursor) block_offset (unat (table_block_bytes (snd w))) w)
          (\<lambda>block.
            case decode_table_block_header block of
              Inl _ \<Rightarrow> Inl ESP_ERR_INVALID_CRC
            | Inr header \<Rightarrow>
                require_that (tb_generation header = generation \<and> tb_block_index header = cc_block_index cursor)
                  ESP_ERR_INVALID_CRC (Inr (tb_entry_count header, tb_payload_size header)))
      else
        then_read (read_table_bytes cfg dev (cc_source_slot cursor) block_offset table_block_header_size w)
          (\<lambda>io_frame.
            case do {
              magic \<leftarrow> read_u32_le io_frame 0;
              revision \<leftarrow> read_u16_le io_frame 4;
              header_size \<leftarrow> read_u16_le io_frame 6;
              encoded_generation \<leftarrow> read_u64_le io_frame 8;
              encoded_block_index \<leftarrow> read_u32_le io_frame 16;
              entry_count \<leftarrow> read_u16_le io_frame 20;
              reserved \<leftarrow> read_u16_le io_frame 22;
              payload_size \<leftarrow> read_u32_le io_frame 24;
              if magic \<noteq> table_block_magic \<or> revision \<noteq> table_block_revision \<or>
                 unat header_size \<noteq> table_block_header_size \<or> encoded_generation \<noteq> generation \<or>
                 encoded_block_index \<noteq> cc_block_index cursor \<or> entry_count = 0 \<or> reserved \<noteq> 0 \<or>
                 payload_size = 0 \<or>
                 payload_size > table_block_bytes (snd w) - of_nat table_block_header_size then None
              else Some (entry_count, payload_size) }
            of None \<Rightarrow> Inl ESP_ERR_INVALID_CRC
             | Some block \<Rightarrow> Inr block))"

definition cursor_entry_invalid :: "compaction_cursor \<Rightarrow> nat \<Rightarrow> nat \<Rightarrow> u8 \<Rightarrow> u8 \<Rightarrow> u32 \<Rightarrow> u32 \<Rightarrow> u64 \<Rightarrow> bool" where
  "cursor_entry_invalid cursor namespace_size key_size reserved0 flags total_size value_size transaction_sequence \<longleftrightarrow>
     namespace_size = 0 \<or> namespace_size > max_name_len \<or> key_size = 0 \<or> key_size > max_name_len \<or>
     reserved0 \<noteq> 0 \<or> value_size > max_value_len \<or> transaction_sequence = 0 \<or>
     total_size < entry_meaningful_size namespace_size key_size flags value_size \<or> unat total_size mod 8 \<noteq> 0 \<or>
     cc_entry_offset cursor > cc_block_payload_end cursor \<or>
     total_size > cc_block_payload_end cursor - cc_entry_offset cursor \<or>
     te_unknown_flags flags \<or> (te_tombstone flags \<and> value_size \<noteq> 0)"

definition load_cursor_value_ref :: "storage_geometry \<Rightarrow> bytes \<Rightarrow> u32 \<Rightarrow> esp_err + value_ref" where
  "load_cursor_value_ref g encoded_ref value_size =
     (case do {
        bank_generation \<leftarrow> read_u64_le encoded_ref 4;
        first_chunk_offset \<leftarrow> read_u32_le encoded_ref 12;
        value_checksum \<leftarrow> read_u32_le encoded_ref 16;
        if \<not> is_zero_range encoded_ref 1 3 \<or> \<not> is_zero_range encoded_ref 20 4 then None
        else Some \<lparr>vr_bank_generation = bank_generation, vr_first_chunk_offset = first_chunk_offset,
               vr_value_size = value_size, vr_value_checksum = value_checksum, vr_bank_slot = encoded_ref ! 0\<rparr> }
      of None \<Rightarrow> Inl ESP_ERR_INVALID_CRC
       | Some reference \<Rightarrow>
           require_that (value_ref_is_valid reference (sg_value_bank_size g)) ESP_ERR_INVALID_CRC (Inr reference))"

definition load_cursor_entry ::
  "config \<Rightarrow> 'd block_device \<Rightarrow> compaction_cursor \<Rightarrow> 'd world \<Rightarrow> esp_err + compaction_cursor" where
  "load_cursor_entry cfg dev cursor w =
     (let absolute_offset = cursor_block_offset (snd w) cursor + cc_entry_offset cursor in
      then_read (read_table_bytes cfg dev (cc_source_slot cursor) (ucast absolute_offset) table_entry_header_size w)
        (\<lambda>io_frame.
          case do {
            total_size \<leftarrow> read_u32_le io_frame 0;
            value_size \<leftarrow> read_u32_le io_frame 4;
            transaction_sequence \<leftarrow> read_u64_le io_frame 8;
            Some (total_size, value_size, transaction_sequence) }
          of None \<Rightarrow> Inl ESP_ERR_INVALID_CRC
           | Some (total_size, value_size, transaction_sequence) \<Rightarrow>
             let namespace_size = unat (io_frame ! 16); key_size = unat (io_frame ! 17);
                 reserved0 = io_frame ! 18; flags = io_frame ! 19; external = te_external flags;
                 descriptor_bytes = (if external then value_ref_encoded_size else 0) in
             require_that (\<not> cursor_entry_invalid cursor namespace_size key_size reserved0 flags total_size
                             value_size transaction_sequence) ESP_ERR_INVALID_CRC
            (then_read (read_table_bytes cfg dev (cc_source_slot cursor)
                          (ucast (absolute_offset + of_nat table_entry_header_size))
                          (namespace_size + key_size + descriptor_bytes) w)
              (\<lambda>names.
                then_read
                  (if external
                   then load_cursor_value_ref (mr_geometry (db_manifest (snd w)))
                          (get names (namespace_size + key_size) descriptor_bytes) value_size
                   else Inr empty_value_ref)
                  (\<lambda>reference.
                    Inr (cursor\<lparr>cc_key := Composite_Key (get names 0 namespace_size) (get names namespace_size key_size),
                      cc_transaction_sequence := transaction_sequence, cc_total_size := total_size,
                      cc_value_size := value_size, cc_reserved0 := reserved0, cc_flags := flags,
                      cc_external_value := reference, cc_active := True\<rparr>))))))"

definition load_compaction_cursor ::
  "config \<Rightarrow> 'd block_device \<Rightarrow> bool \<Rightarrow> compaction_cursor \<Rightarrow> 'd world \<Rightarrow> esp_err + compaction_cursor" where
  "load_compaction_cursor cfg dev validate cursor w =
     (if \<not> table_slot_exists (snd w) (cc_source_slot cursor) \<or> \<not> tr_active (cursor_reference (snd w) cursor)
      then Inl ESP_ERR_INVALID_ARG
      else if cc_block_entry_count cursor = 0 then
        if cc_block_index cursor \<ge> tr_data_block_count (cursor_reference (snd w) cursor)
        then Inr (cursor\<lparr>cc_active := False\<rparr>)
        else
          then_read (load_cursor_block cfg dev validate cursor w)
            (\<lambda>(entry_count, payload_size).
              load_cursor_entry cfg dev (cursor\<lparr>cc_entry_index := 0,
                cc_entry_offset := of_nat table_block_header_size, cc_block_entry_count := entry_count,
                cc_block_payload_end := of_nat table_block_header_size + payload_size\<rparr>) w)
      else load_cursor_entry cfg dev cursor w)"

definition advance_compaction_cursor ::
  "config \<Rightarrow> 'd block_device \<Rightarrow> bool \<Rightarrow> compaction_cursor \<Rightarrow> 'd world \<Rightarrow> esp_err + compaction_cursor" where
  "advance_compaction_cursor cfg dev validate cursor w =
     (if \<not> cc_active cursor \<or> cc_entry_index cursor \<ge> cc_block_entry_count cursor then Inl ESP_ERR_INVALID_ARG
      else
        let cursor = cursor\<lparr>cc_entry_offset := cc_entry_offset cursor + cc_total_size cursor,
                            cc_entry_index := cc_entry_index cursor + 1\<rparr> in
        if cc_entry_index cursor = cc_block_entry_count cursor then
          if cc_entry_offset cursor \<noteq> cc_block_payload_end cursor then Inl ESP_ERR_INVALID_CRC
          else load_compaction_cursor cfg dev validate
                 (cursor\<lparr>cc_block_index := cc_block_index cursor + 1, cc_block_entry_count := 0\<rparr>) w
        else load_compaction_cursor cfg dev validate cursor w)"

section \<open>Merging cursors\<close>

text \<open>The smallest key of the active cursors, starting from a key found before.\<close>

fun smallest_cursor_key :: "compaction_cursor list \<Rightarrow> composite_key option \<Rightarrow> composite_key option" where
  "smallest_cursor_key [] smallest = smallest"
| "smallest_cursor_key (cursor # cursors) smallest =
     smallest_cursor_key cursors
       (if cc_active cursor \<and>
           (case smallest of None \<Rightarrow> True | Some key \<Rightarrow> compare_composite_key (cc_key cursor) key < 0)
        then Some (cc_key cursor) else smallest)"

definition cursor_matches :: "composite_key \<Rightarrow> compaction_cursor \<Rightarrow> bool" where
  "cursor_matches key cursor \<longleftrightarrow> cc_active cursor \<and> composite_key_equal (cc_key cursor) key"

text \<open>Advance every cursor that carries the key.\<close>

fun advance_matching ::
  "config \<Rightarrow> 'd block_device \<Rightarrow> bool \<Rightarrow> composite_key \<Rightarrow> compaction_cursor list \<Rightarrow> 'd world \<Rightarrow>
     esp_err + compaction_cursor list" where
  "advance_matching cfg dev validate key [] w = Inr []"
| "advance_matching cfg dev validate key (cursor # cursors) w =
     then_read (if cursor_matches key cursor then advance_compaction_cursor cfg dev validate cursor w else Inr cursor)
       (\<lambda>cursor. then_read (advance_matching cfg dev validate key cursors w) (\<lambda>cursors. Inr (cursor # cursors)))"

text \<open>Drop the exhausted cursors at the end of the list.\<close>

definition drop_finished :: "compaction_cursor list \<Rightarrow> compaction_cursor list" where
  "drop_finished cursors = rev (dropWhile (\<lambda>cursor. \<not> cc_active cursor) (rev cursors))"

section \<open>Recovering the tables\<close>

definition recover_one_table ::
  "config \<Rightarrow> 'd block_device \<Rightarrow> nat \<Rightarrow> 'd world \<Rightarrow> esp_err \<times> 'd world" where
  "recover_one_table cfg dev slot w =
     (let reference = mr_tables (db_manifest (snd w)) ! slot in
      if \<not> tr_active reference then (ESP_OK, w)
      else
        on_ok (validate_table cfg dev reference None w) (\<lambda>w.
        on_value (read_table_bytes cfg dev (tr_slot reference) (ucast (table_footer_offset (snd w)))
                    table_footer_slot_size w) w (\<lambda>io_frame.
          case decode_table_metadata io_frame table_footer_magic of
            Inl _ \<Rightarrow> (ESP_ERR_INVALID_CRC, w)
          | Inr footer \<Rightarrow>
              if tm_generation footer \<noteq> tr_generation reference \<or> tm_slot footer \<noteq> tr_slot reference
              then (ESP_ERR_INVALID_CRC, w)
              else (ESP_OK, update_db (\<lambda>s.
                s\<lparr>db_manifest := (db_manifest s)\<lparr>mr_tables := (mr_tables (db_manifest s))[slot :=
                    reference\<lparr>tr_min_key := tm_min_key footer, tr_max_key := tm_max_key footer\<rparr>]\<rparr>,
                  db_stats := (db_stats s)\<lparr>st_table_bytes_used := st_table_bytes_used (db_stats s) +
                    of_nat table_header_region_size +
                    ucast (tr_data_block_count reference + 1) * ucast (table_block_bytes s) +
                    of_nat table_footer_slot_size\<rparr>\<rparr>) w))))"

fun recover_each_table :: "config \<Rightarrow> 'd block_device \<Rightarrow> nat list \<Rightarrow> 'd world \<Rightarrow> esp_err \<times> 'd world" where
  "recover_each_table cfg dev [] w = (ESP_OK, w)"
| "recover_each_table cfg dev (slot # slots) w =
     on_ok (recover_one_table cfg dev slot w) (recover_each_table cfg dev slots)"

text \<open>One validating cursor per active table, at most half as many as there are slots.\<close>

fun open_recovery_cursors ::
  "config \<Rightarrow> 'd block_device \<Rightarrow> nat list \<Rightarrow> nat \<Rightarrow> 'd world \<Rightarrow> esp_err + compaction_cursor list" where
  "open_recovery_cursors cfg dev [] maximum_cursor_count w = Inr []"
| "open_recovery_cursors cfg dev (slot # slots) maximum_cursor_count w =
     (if \<not> tr_active (mr_tables (db_manifest (snd w)) ! slot)
      then open_recovery_cursors cfg dev slots maximum_cursor_count w
      else if maximum_cursor_count = 0 then Inl ESP_ERR_INVALID_CRC
      else
        then_read (load_compaction_cursor cfg dev True (new_cursor (of_nat slot)) w) (\<lambda>cursor.
          require_that (cc_active cursor) ESP_ERR_INVALID_CRC
           (then_read (open_recovery_cursors cfg dev slots (maximum_cursor_count - 1) w)
             (\<lambda>cursors. Inr (cursor # cursors)))))"

text \<open>
  The winner among the cursors at the smallest key: the greatest sequence. Two cursors with the same
  sequence at the same key are an error.
\<close>

definition cursor_winner :: "compaction_cursor list \<Rightarrow> compaction_cursor option" where
  "cursor_winner matching =
     fold (\<lambda>candidate winner.
        case winner of
          None \<Rightarrow> Some candidate
        | Some best \<Rightarrow>
            if cc_transaction_sequence candidate > cc_transaction_sequence best then Some candidate else winner)
       matching None"

definition count_recovered_entry :: "compaction_cursor \<Rightarrow> u64 \<Rightarrow> db_stats \<Rightarrow> db_stats" where
  "count_recovered_entry winner logical_entry_size st =
     (let st = st\<lparr>st_logical_state_bytes := st_logical_state_bytes st + logical_entry_size\<rparr> in
      if te_tombstone (cc_flags winner) then st\<lparr>st_tombstone_count := st_tombstone_count st + 1\<rparr>
      else st\<lparr>st_live_key_count := st_live_key_count st + 1,
              st_logical_value_bytes := st_logical_value_bytes st + ucast (cc_value_size winner)\<rparr>)"

text \<open>
  The merge. Every turn advances the cursors at the smallest key by an entry. The loop of the source has no bound, so
  the model is a function that may not return: \<open>None\<close> is a merge that goes on for ever, and \<open>Some\<close> holds the result
  and the world a merge returns with. \<open>Merge_Termination\<close> proves that it returns.
\<close>

partial_function (option) merge_recovery ::
  "config \<Rightarrow> 'd block_device \<Rightarrow> compaction_cursor list \<Rightarrow> 'd world \<Rightarrow> (esp_err \<times> 'd world) option" where
  [code]: "merge_recovery cfg dev cursors w =
     (if cursors = [] then Some (ESP_OK, w)
      else
        (case smallest_cursor_key cursors None of
           None \<Rightarrow> Some (ESP_ERR_INVALID_CRC, w)
         | Some smallest \<Rightarrow>
             let matching = filter (cursor_matches smallest) cursors in
             if \<not> distinct (map cc_transaction_sequence matching) then Some (ESP_ERR_INVALID_CRC, w)
             else
               (case cursor_winner matching of
                  None \<Rightarrow> Some (ESP_ERR_INVALID_CRC, w)
                | Some winner \<Rightarrow>
                    (case ensure_namespace_capacity cfg (snd w) (ck_namespace (cc_key winner)) True of
                       (Inl e, s) \<Rightarrow> Some (e, fst w, s)
                     | (Inr namespace_index, s) \<Rightarrow>
                         let w = (fst w, s);
                             logical_entry_size = logical_record_size (of_nat (length (ck_namespace (cc_key winner))))
                               (of_nat (length (ck_key (cc_key winner)))) (cc_value_size winner) in
                         if logical_entry_size >
                            sg_max_live_bytes (mr_geometry (db_manifest s)) - st_logical_state_bytes (db_stats s)
                         then Some (ESP_ERR_INVALID_CRC, w)
                         else
                           let w = update_db (\<lambda>s. s\<lparr>db_stats := count_recovered_entry winner logical_entry_size (db_stats s)\<rparr>) w in
                           (case advance_matching cfg dev True smallest cursors w of
                              Inl e \<Rightarrow> Some (e, w)
                            | Inr cursors \<Rightarrow> merge_recovery cfg dev (drop_finished cursors) w)))))"

text \<open>A merge that does not return has no result; \<open>ESP_FAIL\<close>, which the source never returns here, stands for it.\<close>

definition recover_tables :: "config \<Rightarrow> 'd block_device \<Rightarrow> 'd world \<Rightarrow> esp_err \<times> 'd world" where
  "recover_tables cfg dev w =
     (let slots = [0..<unat (sg_table_count (mr_geometry (db_manifest (snd w))))];
          w = update_db (\<lambda>s. s\<lparr>db_stats := (db_stats s)\<lparr>st_table_bytes_used := 0\<rparr>\<rparr>) w in
      on_ok (recover_each_table cfg dev slots w) (\<lambda>w.
      on_value (open_recovery_cursors cfg dev slots (length slots div 2) w) w (\<lambda>cursors.
        case merge_recovery cfg dev cursors w of None \<Rightarrow> (ESP_FAIL, w) | Some result \<Rightarrow> result)))"

end
