(* ===== verification/Value_Store.thy ===== *)
theory Value_Store
  imports Store Memtable
begin

text \<open>
  External values on storage (\<open>on9kvdb_value.cpp\<close>): the chunked writer, the relocation of a value
  into the other bank, the readers with their whole-value checksum, and the pins that keep a bank
  from being recycled. The reader and writer buffers are separate memory in the source and survive
  the reset of their slots.
\<close>

section \<open>Tokens and pins\<close>

definition get_value_reader :: "config \<Rightarrow> db \<Rightarrow> u64 \<Rightarrow> esp_err + nat" where
  "get_value_reader cfg s raw =
     (case decode_handle_value raw of
        None \<Rightarrow> Inl ESP_ERR_INVALID_ARG
      | Some (index, generation) \<Rightarrow>
          if ucast index \<ge> cfg_max_value_readers cfg \<or> \<not> rd_used (db_value_readers s ! unat index) \<or>
             rd_generation (db_value_readers s ! unat index) \<noteq> generation
          then Inl ESP_ERR_INVALID_ARG else Inr (unat index))"

definition get_value_writer :: "db \<Rightarrow> u64 \<Rightarrow> esp_err + value_writer_slot" where
  "get_value_writer s raw =
     (case decode_handle_value raw of
        None \<Rightarrow> Inl ESP_ERR_INVALID_ARG
      | Some (index, generation) \<Rightarrow>
          if index \<noteq> 0 \<or> \<not> ww_active (db_value_writer s) \<or> ww_generation (db_value_writer s) \<noteq> generation
          then Inl ESP_ERR_INVALID_ARG else Inr (db_value_writer s))"

definition value_bank_is_pinned :: "config \<Rightarrow> db \<Rightarrow> u32 \<Rightarrow> bool" where
  "value_bank_is_pinned cfg s bank_slot \<longleftrightarrow>
     unat bank_slot < value_bank_count \<and>
     (\<exists>index \<in> set [0..<unat (cfg_max_value_readers cfg)].
        let reader = db_value_readers s ! index in
        rd_used reader \<and> rd_external reader \<and> ucast (vr_bank_slot (rd_external_value reader)) = bank_slot)"

definition value_bank_has_staged_reference :: "db \<Rightarrow> u32 \<Rightarrow> bool" where
  "value_bank_has_staged_reference s bank_slot \<longleftrightarrow>
     unat bank_slot < value_bank_count \<and> tx_active (db_transaction s) \<and>
     (\<exists>m \<in> set (take (unat (tx_mutation_count (db_transaction s))) (tx_mutations (db_transaction s))).
        mu_external_value m \<and> ucast (vr_bank_slot (mu_external_value_ref m)) = bank_slot)"

definition set_writer :: "value_writer_slot \<Rightarrow> 'd world \<Rightarrow> 'd world" where
  "set_writer writer = update_db (\<lambda>s. s\<lparr>db_value_writer := writer\<rparr>)"

text \<open>\<open>*writer = {}\<close> with the generation kept; the buffer is not part of the slot.\<close>

definition clear_writer :: "value_writer_slot \<Rightarrow> value_writer_slot" where
  "clear_writer writer = empty_writer\<lparr>ww_generation := ww_generation writer, ww_buffer := ww_buffer writer\<rparr>"

section \<open>Writing a value\<close>

definition flush_value_writer_chunk ::
  "config \<Rightarrow> 'd block_device \<Rightarrow> bool \<Rightarrow> 'd world \<Rightarrow> esp_err \<times> 'd world" where
  "flush_value_writer_chunk cfg dev final_chunk w =
     (let writer = db_value_writer (snd w); m = db_manifest (snd w) in
      if \<not> ww_active writer \<or> ww_chunk_payload_size writer = 0 \<or>
         ww_next_chunk_offset writer > sg_value_bank_size (mr_geometry m) - of_nat value_chunk_size \<or>
         final_chunk \<noteq> (ww_written_size writer = ww_expected_size writer) then (ESP_ERR_INVALID_STATE, w)
      else
        let header = \<lparr>vc_database_id = mr_database_id m,
              vc_bank_generation = vr_bank_generation (ww_reference writer),
              vc_first_chunk_offset = vr_first_chunk_offset (ww_reference writer),
              vc_value_size = ww_expected_size writer,
              vc_value_offset = ww_written_size writer - ww_chunk_payload_size writer,
              vc_payload_size = ucast (ww_chunk_payload_size writer),
              vc_flags = (if final_chunk then value_chunk_flag_final else 0), vc_payload_checksum = 0\<rparr> in
        (case encode_value_chunk (zeroes value_chunk_size) header (ww_buffer writer) of
           None \<Rightarrow> (ESP_ERR_INVALID_STATE, w)
         | Some io_frame \<Rightarrow>
             on_ok (write_store cfg dev kind_value_bank (ucast (vr_bank_slot (ww_reference writer)))
                      (ucast (ww_next_chunk_offset writer)) io_frame w)
               (\<lambda>w. (ESP_OK, set_writer (writer\<lparr>
                  ww_next_chunk_offset := ww_next_chunk_offset writer + of_nat value_chunk_size,
                  ww_chunk_payload_size := 0, ww_buffer := zeroes value_chunk_size\<rparr>) w))))"

lemma flush_value_writer_chunk_OK:
  assumes "flush_value_writer_chunk cfg dev final w = (ESP_OK, w')"
  shows "ww_chunk_payload_size (db_value_writer (snd w')) = 0"
  using assms
  by (auto simp: flush_value_writer_chunk_def Let_def on_ok_OK set_writer_def split: if_splits option.splits)

text \<open>The room left in the current chunk, and the part of the data that goes into it.\<close>

definition chunk_room :: "value_writer_slot \<Rightarrow> u32" where
  "chunk_room writer = of_nat value_chunk_payload_size - ww_chunk_payload_size writer"

definition next_part :: "value_writer_slot \<Rightarrow> bytes \<Rightarrow> nat" where
  "next_part writer data = (if length data > unat (chunk_room writer) then unat (chunk_room writer) else length data)"

definition buffer_part :: "bytes \<Rightarrow> value_writer_slot \<Rightarrow> value_writer_slot" where
  "buffer_part part writer = writer\<lparr>
     ww_buffer := put (ww_buffer writer) (unat (ww_chunk_payload_size writer)) part,
     ww_checksum_state := ucast (calc_crc32_update (ucast (ww_checksum_state writer)) part),
     ww_chunk_payload_size := ww_chunk_payload_size writer + of_nat (length part),
     ww_written_size := ww_written_size writer + of_nat (length part)\<rparr>"

definition chunk_complete :: "value_writer_slot \<Rightarrow> bool" where
  "chunk_complete writer \<longleftrightarrow>
     unat (ww_chunk_payload_size writer) = value_chunk_payload_size \<or>
     ww_written_size writer = ww_expected_size writer"

lemma chunk_room_empty:
  assumes "unat (chunk_room writer) = 0"
  shows "unat (ww_chunk_payload_size writer) = value_chunk_payload_size"
proof -
  have "chunk_room writer = 0" using assms by (simp add: unat_eq_zero)
  then have "ww_chunk_payload_size writer = of_nat value_chunk_payload_size" by (simp add: chunk_room_def)
  then show ?thesis by (simp add: format_consts)
qed

text \<open>The loop makes progress: a turn stages data or empties a full chunk.\<close>

definition write_progress :: "bytes \<Rightarrow> 'd world \<Rightarrow> nat" where
  "write_progress data w = 2 * length data +
     (if unat (ww_chunk_payload_size (db_value_writer (snd w))) = value_chunk_payload_size then 1 else 0)"

lemma next_part_0:
  "next_part writer data = 0 \<Longrightarrow> data \<noteq> [] \<Longrightarrow> unat (ww_chunk_payload_size writer) = value_chunk_payload_size"
  using chunk_room_empty by (auto simp: next_part_def split: if_splits)

lemma write_progress_flush:
  assumes "data \<noteq> []" "(ESP_OK, w') = flush_value_writer_chunk cfg dev final w''"
  shows "write_progress (drop (next_part (db_value_writer (snd w)) data) data) w' < write_progress data w"
proof -
  have "ww_chunk_payload_size (db_value_writer (snd w')) = 0"
    using assms(2) by (intro flush_value_writer_chunk_OK) (rule sym)
  then show ?thesis
    using next_part_0 [of "db_value_writer (snd w)" data] assms(1)
    by (cases "next_part (db_value_writer (snd w)) data = 0") (auto simp: write_progress_def format_consts)
qed

lemma write_progress_buffer:
  assumes "data \<noteq> []" "\<not> chunk_complete (buffer_part (take (next_part (db_value_writer (snd w)) data) data) (db_value_writer (snd w)))"
  shows "write_progress (drop (next_part (db_value_writer (snd w)) data) data) w' < write_progress data w"
proof -
  have "next_part (db_value_writer (snd w)) data \<noteq> 0"
  proof
    assume "next_part (db_value_writer (snd w)) data = 0"
    with next_part_0 [OF this assms(1)] assms(2) show False by (simp add: chunk_complete_def buffer_part_def)
  qed
  then show ?thesis using assms(1) by (cases data) (auto simp: write_progress_def)
qed

function write_value_chunks ::
  "config \<Rightarrow> 'd block_device \<Rightarrow> bytes \<Rightarrow> 'd world \<Rightarrow> esp_err \<times> 'd world" where
  "write_value_chunks cfg dev data w =
     (if data = [] then (ESP_OK, w)
      else
        let part = next_part (db_value_writer (snd w)) data;
            writer = buffer_part (take part data) (db_value_writer (snd w)) in
        if chunk_complete writer then
          (case flush_value_writer_chunk cfg dev (ww_written_size writer = ww_expected_size writer) (set_writer writer w) of
             (ret, w') \<Rightarrow> if ret \<noteq> ESP_OK then (ret, w') else write_value_chunks cfg dev (drop part data) w')
        else write_value_chunks cfg dev (drop part data) (set_writer writer w))"
  by pat_completeness auto
termination
  by (relation "measure (\<lambda>(_, _, data, w). write_progress data w)")
     (auto intro: write_progress_flush write_progress_buffer)

declare write_value_chunks.simps [simp del]

definition write_value_bytes :: "config \<Rightarrow> 'd block_device \<Rightarrow> bytes \<Rightarrow> 'd world \<Rightarrow> esp_err \<times> 'd world" where
  "write_value_bytes cfg dev data w =
     (let writer = db_value_writer (snd w) in
      if \<not> ww_active writer \<or> length data > unat (ww_expected_size writer - ww_written_size writer)
      then (ESP_ERR_INVALID_ARG, w)
      else if ww_inline_value writer then
        (ESP_OK, set_writer (writer\<lparr>
           ww_buffer := put (ww_buffer writer) (unat (ww_written_size writer)) data,
           ww_checksum_state := (if data = [] then ww_checksum_state writer
             else ucast (calc_crc32_update (ucast (ww_checksum_state writer)) data)),
           ww_written_size := ww_written_size writer + of_nat (length data)\<rparr>) w)
      else write_value_chunks cfg dev data w)"

section \<open>Relocating a value into the other bank\<close>

text \<open>The part of a value chunk \<open>index\<close> carries.\<close>

definition chunk_logical_offset :: "nat \<Rightarrow> u32" where
  "chunk_logical_offset index = of_nat (index * value_chunk_payload_size)"

definition chunk_expected_payload :: "u32 \<Rightarrow> u32 \<Rightarrow> u32" where
  "chunk_expected_payload value_size logical_offset =
     (if value_size - logical_offset < of_nat value_chunk_payload_size then value_size - logical_offset
      else of_nat value_chunk_payload_size)"

text \<open>The check of a chunk against the reference it is read for.\<close>

definition chunk_matches ::
  "u64 \<Rightarrow> value_ref \<Rightarrow> u32 \<Rightarrow> u32 \<Rightarrow> u32 \<Rightarrow> bool \<Rightarrow> value_chunk_header \<Rightarrow> bool" where
  "chunk_matches database_id reference value_size logical_offset expected_payload expected_final header \<longleftrightarrow>
     vc_database_id header = database_id \<and> vc_bank_generation header = vr_bank_generation reference \<and>
     vc_first_chunk_offset header = vr_first_chunk_offset reference \<and> vc_value_size header = value_size \<and>
     vc_value_offset header = logical_offset \<and> ucast (vc_payload_size header) = expected_payload \<and>
     expected_final = (vc_flags header AND value_chunk_flag_final \<noteq> 0)"

fun copy_chunks ::
  "config \<Rightarrow> 'd block_device \<Rightarrow> value_ref \<Rightarrow> value_ref \<Rightarrow> nat \<Rightarrow> nat list \<Rightarrow> u32 \<Rightarrow> u32 \<Rightarrow> 'd world \<Rightarrow>
     (esp_err + u32 \<times> u32) \<times> 'd world" where
  "copy_chunks cfg dev source destination chunk_count [] checksum_state output_offset w =
     (Inr (checksum_state, output_offset), w)"
| "copy_chunks cfg dev source destination chunk_count (index # indices) checksum_state output_offset w =
     (case read_store cfg dev kind_value_bank (ucast (vr_bank_slot source))
             (ucast (vr_first_chunk_offset source) + of_nat index * of_nat value_chunk_size) value_chunk_size w of
        Inl e \<Rightarrow> (Inl e, w)
      | Inr io_frame \<Rightarrow>
          (case decode_value_chunk io_frame of
             Inl status \<Rightarrow>
               (Inl (if status = FS_new_version \<or> status = FS_invalid_revision then ESP_ERR_INVALID_VERSION
                     else ESP_ERR_INVALID_CRC), w)
           | Inr (input_header, payload) \<Rightarrow>
               let logical_offset = chunk_logical_offset index;
                   expected_payload = chunk_expected_payload (vr_value_size source) logical_offset in
               if \<not> chunk_matches (mr_database_id (db_manifest (snd w))) source (vr_value_size source) logical_offset
                    expected_payload (index + 1 = chunk_count) input_header then (Inl ESP_ERR_INVALID_CRC, w)
               else
                 let output_header = input_header\<lparr>vc_bank_generation := vr_bank_generation destination,
                       vc_first_chunk_offset := vr_first_chunk_offset destination\<rparr> in
                 (case encode_value_chunk (zeroes value_chunk_size) output_header payload of
                    None \<Rightarrow> (Inl ESP_ERR_INVALID_STATE, w)
                  | Some value_writer_buffer \<Rightarrow>
                      let w = set_writer ((db_value_writer (snd w))\<lparr>ww_buffer := value_writer_buffer\<rparr>) w in
                      (case write_store cfg dev kind_value_bank (ucast (vr_bank_slot destination)) (ucast output_offset)
                              value_writer_buffer w of
                         (ret, w) \<Rightarrow>
                           if ret \<noteq> ESP_OK then (Inl ret, w)
                           else copy_chunks cfg dev source destination chunk_count indices
                                  (calc_crc32_update checksum_state payload)
                                  (output_offset + of_nat value_chunk_size) w))))"

text \<open>The new reference and the new tail of the destination bank.\<close>

definition copy_external_value ::
  "config \<Rightarrow> 'd block_device \<Rightarrow> value_ref \<Rightarrow> u32 \<Rightarrow> u64 \<Rightarrow> u32 \<Rightarrow> 'd world \<Rightarrow>
     (esp_err + value_ref \<times> u32) \<times> 'd world" where
  "copy_external_value cfg dev source destination_bank destination_generation destination_tail w =
     (let bank_size = sg_value_bank_size (mr_geometry (db_manifest (snd w))) in
      if \<not> value_ref_is_valid source bank_size \<or> unat destination_bank \<ge> value_bank_count \<or>
         destination_generation = 0 \<or> ucast (vr_bank_slot source) = destination_bank \<or>
         unat destination_tail < identity_region_size \<or>
         destination_tail > bank_size - of_nat value_chunk_size \<or>
         unat destination_tail mod value_chunk_size \<noteq> 0 then (Inl ESP_ERR_INVALID_ARG, w)
      else
        let chunk_count = chunk_count_of (vr_value_size source);
            required_bytes = chunk_count * of_nat value_chunk_size in
        if required_bytes > ucast (bank_size - destination_tail) then (Inl ESP_ERR_NO_MEM, w)
        else
          let destination = source\<lparr>vr_bank_slot := ucast destination_bank,
                vr_bank_generation := destination_generation, vr_first_chunk_offset := destination_tail\<rparr> in
          (case copy_chunks cfg dev source destination (unat chunk_count) [0..<unat chunk_count] (- 1)
                  destination_tail w of
             (Inl e, w) \<Rightarrow> (Inl e, w)
           | (Inr (checksum_state, output_offset), w) \<Rightarrow>
               if NOT checksum_state \<noteq> vr_value_checksum source then (Inl ESP_ERR_INVALID_CRC, w)
               else (Inr (destination, output_offset), w)))"

section \<open>Readers\<close>

definition reader_at :: "nat \<Rightarrow> 'd world \<Rightarrow> value_reader_slot" where
  "reader_at index w = db_value_readers (snd w) ! index"

definition set_reader :: "nat \<Rightarrow> value_reader_slot \<Rightarrow> 'd world \<Rightarrow> 'd world" where
  "set_reader index reader = update_db (\<lambda>s. s\<lparr>db_value_readers := (db_value_readers s)[index := reader]\<rparr>)"

text \<open>\<open>*reader = {}\<close>; the buffer is not part of the slot.\<close>

definition fresh_reader :: "value_reader_slot \<Rightarrow> value_reader_slot" where
  "fresh_reader reader = empty_reader\<lparr>rd_buffer := rd_buffer reader\<rparr>"

definition take_handle_generation :: "db \<Rightarrow> u64 \<times> db" where
  "take_handle_generation s =
     (let generation = db_handle_generation_counter s in
      (generation, s\<lparr>db_handle_generation_counter :=
         (if generation = max_handle_generation then 0 else generation + 1)\<rparr>))"

definition open_value_unsafe :: "config \<Rightarrow> value_view \<Rightarrow> 'd world \<Rightarrow> (esp_err + u64) \<times> 'd world" where
  "open_value_unsafe cfg view w =
     (if vv_tombstone view then (Inl ESP_ERR_NOT_FOUND, w)
      else if (vv_is_external view \<and> \<not> active_bank_ref cfg (snd w) (vv_external_value view)) \<or>
              (\<not> vv_is_external view \<and> vv_value_size view \<noteq> 0 \<and> vv_value view = None)
      then (Inl ESP_ERR_INVALID_CRC, w)
      else if db_handle_generation_counter (snd w) = 0 then (Inl ESP_ERR_INVALID_STATE, w)
      else
        (case find (\<lambda>index. \<not> rd_used (reader_at index w)) [0..<unat (cfg_max_value_readers cfg)] of
           None \<Rightarrow> (Inl ESP_ERR_NO_MEM, w)
         | Some index \<Rightarrow>
             (case take_handle_generation (snd w) of (generation, s) \<Rightarrow>
               let w = (fst w, s);
                   reader = (fresh_reader (reader_at index w))\<lparr>rd_generation := generation,
                     rd_value_size := vv_value_size view, rd_used := True, rd_external := vv_is_external view,
                     rd_checksum_enabled := vv_is_external view, rd_checksum_state := - 1,
                     rd_external_value := vv_external_value view\<rparr>;
                   reader = (if \<not> vv_is_external view \<and> vv_value_size view > 0
                     then reader\<lparr>rd_buffer := put (rd_buffer reader) 0
                                   (get (the (vv_value view)) 0 (unat (vv_value_size view))),
                                 rd_buffer_size := vv_value_size view\<rparr>
                     else reader) in
               (Inr (make_handle_value (of_nat index) generation), set_reader index reader w))))"

definition fill_reader_buffer :: "config \<Rightarrow> 'd block_device \<Rightarrow> nat \<Rightarrow> 'd world \<Rightarrow> esp_err \<times> 'd world" where
  "fill_reader_buffer cfg dev index w =
     (let reader = reader_at index w; m = db_manifest (snd w); bank_size = sg_value_bank_size (mr_geometry m) in
      if \<not> rd_used reader \<or> \<not> rd_external reader \<or> rd_cursor reader \<ge> rd_value_size reader \<or>
         \<not> value_ref_is_valid (rd_external_value reader) bank_size then (ESP_ERR_INVALID_ARG, w)
      else
        let chunk_index = rd_cursor reader div of_nat value_chunk_payload_size;
            payload_offset = rd_cursor reader mod of_nat value_chunk_payload_size;
            logical_chunk_offset = chunk_index * of_nat value_chunk_payload_size;
            expected_payload = chunk_expected_payload (rd_value_size reader) logical_chunk_offset;
            expected_final = (logical_chunk_offset + expected_payload = rd_value_size reader);
            chunk_offset = ucast (vr_first_chunk_offset (rd_external_value reader)) +
              ucast chunk_index * of_nat value_chunk_size :: u64 in
        if chunk_offset > ucast (bank_size - of_nat value_chunk_size) then (ESP_ERR_INVALID_CRC, w)
        else
          (case read_store cfg dev kind_value_bank (ucast (vr_bank_slot (rd_external_value reader))) chunk_offset
                  value_chunk_size w of
             Inl e \<Rightarrow> (e, w)
           | Inr buffer \<Rightarrow>
               let w = set_reader index (reader\<lparr>rd_buffer := buffer\<rparr>) w in
               (case decode_value_chunk buffer of
                  Inl status \<Rightarrow>
                    (if status = FS_new_version \<or> status = FS_invalid_revision then ESP_ERR_INVALID_VERSION
                     else ESP_ERR_INVALID_CRC, w)
                | Inr (header, payload) \<Rightarrow>
                    if \<not> chunk_matches (mr_database_id m) (rd_external_value reader) (rd_value_size reader)
                         logical_chunk_offset expected_payload expected_final header \<or>
                       unat payload_offset \<ge> unat (vc_payload_size header) then (ESP_ERR_INVALID_CRC, w)
                    else
                      let available = ucast (vc_payload_size header) - payload_offset in
                      (ESP_OK, set_reader index (reader\<lparr>
                         rd_buffer := put buffer 0 (get payload (unat payload_offset) (unat available)),
                         rd_buffer_value_offset := rd_cursor reader, rd_buffer_size := available\<rparr>) w))))"

text \<open>The cursor is outside the buffered part of the value.\<close>

definition reader_unbuffered :: "value_reader_slot \<Rightarrow> bool" where
  "reader_unbuffered reader \<longleftrightarrow>
     rd_cursor reader < rd_buffer_value_offset reader \<or>
     rd_cursor reader \<ge> rd_buffer_value_offset reader + rd_buffer_size reader"

definition refill_reader :: "config \<Rightarrow> 'd block_device \<Rightarrow> nat \<Rightarrow> 'd world \<Rightarrow> esp_err \<times> 'd world" where
  "refill_reader cfg dev index w =
     (if reader_unbuffered (reader_at index w) then
        if rd_external (reader_at index w) then fill_reader_buffer cfg dev index w
        else (ESP_ERR_INVALID_STATE, w)
      else (ESP_OK, w))"

text \<open>The buffered bytes from the cursor on.\<close>

definition reader_data :: "value_reader_slot \<Rightarrow> bytes" where
  "reader_data reader =
     (let buffer_offset = rd_cursor reader - rd_buffer_value_offset reader in
      get (rd_buffer reader) (unat buffer_offset) (unat (rd_buffer_size reader - buffer_offset)))"

text \<open>Move the cursor over \<open>part\<close> bytes of the buffer, through the checksum when it is enabled.\<close>

definition advance_reader :: "nat \<Rightarrow> value_reader_slot \<Rightarrow> value_reader_slot" where
  "advance_reader part reader =
     (let part_bytes = get (rd_buffer reader) (unat (rd_cursor reader - rd_buffer_value_offset reader)) part;
          reader = (if rd_external reader \<and> rd_checksum_enabled reader
            then reader\<lparr>rd_checksum_state := calc_crc32_update (rd_checksum_state reader) part_bytes\<rparr> else reader) in
      reader\<lparr>rd_cursor := rd_cursor reader + of_nat part\<rparr>)"

definition reader_part :: "value_reader_slot \<Rightarrow> nat \<Rightarrow> nat" where
  "reader_part reader n =
     min (unat (rd_buffer_size reader - (rd_cursor reader - rd_buffer_value_offset reader))) n"

definition reader_checksum_wrong :: "value_reader_slot \<Rightarrow> bool" where
  "reader_checksum_wrong reader \<longleftrightarrow>
     rd_external reader \<and> rd_checksum_enabled reader \<and> rd_cursor reader = rd_value_size reader \<and>
     NOT (rd_checksum_state reader) \<noteq> vr_value_checksum (rd_external_value reader)"

text \<open>
  The loops of \<open>consume_value\<close> and \<open>read_value_into\<close>. Every turn moves the cursor by at least
  one byte, so one unit of fuel per byte asked for is enough. \<open>consume_loop\<close> returns what is left to
  consume without a checksum, \<open>read_loop\<close> the bytes copied out.
\<close>

fun consume_loop ::
  "config \<Rightarrow> 'd block_device \<Rightarrow> nat \<Rightarrow> nat \<Rightarrow> nat \<Rightarrow> 'd world \<Rightarrow> (esp_err \<times> nat) \<times> 'd world" where
  "consume_loop cfg dev 0 index remaining w = ((ESP_OK, remaining), w)"
| "consume_loop cfg dev (Suc fuel) index remaining w =
     (if remaining > 0 \<and> rd_external (reader_at index w) \<and> rd_checksum_enabled (reader_at index w) then
        (case refill_reader cfg dev index w of
           (ret, w) \<Rightarrow>
             if ret \<noteq> ESP_OK then ((ret, remaining), w)
             else
               let part = reader_part (reader_at index w) remaining in
               consume_loop cfg dev fuel index (remaining - part)
                 (set_reader index (advance_reader part (reader_at index w)) w))
      else ((ESP_OK, remaining), w))"

fun read_loop ::
  "config \<Rightarrow> 'd block_device \<Rightarrow> nat \<Rightarrow> nat \<Rightarrow> nat \<Rightarrow> bytes \<Rightarrow> 'd world \<Rightarrow> (esp_err \<times> bytes) \<times> 'd world" where
  "read_loop cfg dev 0 index destination_size output w = ((ESP_OK, output), w)"
| "read_loop cfg dev (Suc fuel) index destination_size output w =
     (if length output < destination_size \<and> rd_cursor (reader_at index w) < rd_value_size (reader_at index w) then
        (case refill_reader cfg dev index w of
           (ret, w) \<Rightarrow>
             if ret \<noteq> ESP_OK then ((ret, output), w)
             else
               let copy_size = reader_part (reader_at index w) (destination_size - length output) in
               read_loop cfg dev fuel index destination_size
                 (output @ take copy_size (reader_data (reader_at index w)))
                 (set_reader index (advance_reader copy_size (reader_at index w)) w))
      else ((ESP_OK, output), w))"

definition peek_value :: "config \<Rightarrow> 'd block_device \<Rightarrow> u64 \<Rightarrow> 'd world \<Rightarrow> (esp_err + bytes) \<times> 'd world" where
  "peek_value cfg dev raw = under_lock_result (\<lambda>w.
     (case get_value_reader cfg (snd w) raw of
        Inl e \<Rightarrow> (Inl e, w)
      | Inr index \<Rightarrow>
          (case (if rd_cursor (reader_at index w) < rd_value_size (reader_at index w)
                 then refill_reader cfg dev index w else (ESP_OK, w)) of
             (ret, w) \<Rightarrow>
               if ret \<noteq> ESP_OK then (Inl ret, w)
               else if rd_cursor (reader_at index w) < rd_value_size (reader_at index w)
               then (Inr (reader_data (reader_at index w)), w)
               else (Inr [], w))))"

definition consume_value :: "config \<Rightarrow> 'd block_device \<Rightarrow> u64 \<Rightarrow> u32 \<Rightarrow> 'd world \<Rightarrow> esp_err \<times> 'd world" where
  "consume_value cfg dev raw n = under_lock (\<lambda>w.
     on_value (get_value_reader cfg (snd w) raw) w (\<lambda>index.
       if n > rd_value_size (reader_at index w) - rd_cursor (reader_at index w) then (ESP_ERR_INVALID_SIZE, w)
       else
         (case consume_loop cfg dev (unat n) index (unat n) w of
            ((ret, remaining), w) \<Rightarrow>
              if ret \<noteq> ESP_OK then (ret, w)
              else
                let reader = (reader_at index w)\<lparr>rd_cursor := rd_cursor (reader_at index w) + of_nat remaining\<rparr>;
                    w = set_reader index reader w in
                (if reader_checksum_wrong reader then ESP_ERR_INVALID_CRC else ESP_OK, w))))"

text \<open>The bytes read are returned with every result, as the source counts them also on an error.\<close>

definition read_value_into ::
  "config \<Rightarrow> 'd block_device \<Rightarrow> u64 \<Rightarrow> u32 \<Rightarrow> 'd world \<Rightarrow> (esp_err \<times> bytes) \<times> 'd world" where
  "read_value_into cfg dev raw destination_size w =
     (if \<not> operation_allowed (snd w) then ((ESP_ERR_INVALID_STATE, []), w)
      else case get_value_reader cfg (snd w) raw of
        Inl e \<Rightarrow> ((e, []), w)
      | Inr index \<Rightarrow>
          (case read_loop cfg dev (unat destination_size) index (unat destination_size) [] w of
             ((ret, output), w) \<Rightarrow>
               (if ret = ESP_OK \<and> reader_checksum_wrong (reader_at index w) then (ESP_ERR_INVALID_CRC, output)
                else (ret, output), w)))"

definition get_value_size :: "config \<Rightarrow> u64 \<Rightarrow> 'd world \<Rightarrow> esp_err + u32" where
  "get_value_size cfg raw w =
     require_that (operation_allowed (snd w)) ESP_ERR_INVALID_STATE (then_read (get_value_reader cfg (snd w) raw) (\<lambda>index. Inr (rd_value_size (reader_at index w))))"

definition seek_value :: "config \<Rightarrow> u64 \<Rightarrow> u32 \<Rightarrow> 'd world \<Rightarrow> esp_err \<times> 'd world" where
  "seek_value cfg raw offset = under_lock (\<lambda>w.
     on_value (get_value_reader cfg (snd w) raw) w (\<lambda>index.
       let reader = reader_at index w in
       if offset > rd_value_size reader then (ESP_ERR_INVALID_SIZE, w)
       else
         let reader = (if \<not> rd_external reader then reader
               else if offset = 0 then reader\<lparr>rd_checksum_state := - 1, rd_checksum_enabled := True\<rparr>
               else if offset \<noteq> rd_cursor reader then reader\<lparr>rd_checksum_enabled := False\<rparr>
               else reader) in
         (ESP_OK, set_reader index (reader\<lparr>rd_cursor := offset\<rparr>) w)))"

definition close_value_reader :: "config \<Rightarrow> u64 \<Rightarrow> 'd world \<Rightarrow> esp_err \<times> 'd world" where
  "close_value_reader cfg raw = under_lock (\<lambda>w.
     on_value (get_value_reader cfg (snd w) raw) w (\<lambda>index.
       let reader = reader_at index w in
       (ESP_OK, set_reader index ((fresh_reader reader)\<lparr>rd_generation := rd_generation reader\<rparr>) w)))"

definition abort_value_write :: "u64 \<Rightarrow> 'd world \<Rightarrow> esp_err \<times> 'd world" where
  "abort_value_write raw = under_lock (\<lambda>w.
     on_value (get_value_writer (snd w) raw) w (\<lambda>writer. (ESP_OK, set_writer (clear_writer writer) w)))"

definition write_value :: "config \<Rightarrow> 'd block_device \<Rightarrow> u64 \<Rightarrow> bytes \<Rightarrow> 'd world \<Rightarrow> esp_err \<times> 'd world" where
  "write_value cfg dev raw data = under_lock (\<lambda>w.
     on_value (get_value_writer (snd w) raw) w (\<lambda>writer. write_value_bytes cfg dev data w))"

end
