(* ===== verification/Compaction.thy ===== *)
theory Compaction
  imports Table_Build Table_Cursor Value_Store Manifest_Store
begin

text \<open>
  The full compaction (\<open>on9kvdb_compaction.cpp\<close>) and the flush of the memtable
  (\<open>on9kvdb_table.cpp\<close>): a merge of the memtable and every table of the active bank into the
  other bank, with the external values relocated into the other value bank, published by one
  manifest; and the flush into a free table slot, which becomes a compaction when there is none. The
  clock the statistics read is a parameter.
\<close>

section \<open>The output of a compaction\<close>

text \<open>An output table, and the fields that only a compaction has.\<close>

record compaction_state =
  co_output :: "table_output option"
  co_output_count :: nat
  co_destination_tail :: u32
  co_logical_state_bytes :: u64
  co_greatest_sequence :: u64

definition start_compaction_output ::
  "u32 \<Rightarrow> u64 \<Rightarrow> 'd world \<Rightarrow> (esp_err + table_output) \<times> 'd world" where
  "start_compaction_output slot generation w =
     (if \<not> table_slot_exists (snd w) slot \<or> generation = 0 then (Inl ESP_ERR_INVALID_ARG, w)
      else (Inr (start_table_output (snd w) slot generation), update_db (invalidate_table_index_cache slot) w))"

text \<open>A winner of the merge: the cursor of a table or a memtable record.\<close>

datatype merge_source = From_Cursor compaction_cursor | From_Record memtable_record

definition source_key :: "db \<Rightarrow> merge_source \<Rightarrow> composite_key" where
  "source_key s source =
     (case source of From_Cursor cursor \<Rightarrow> cc_key cursor | From_Record header \<Rightarrow> record_composite_key s header)"

definition source_sequence :: "merge_source \<Rightarrow> u64" where
  "source_sequence source =
     (case source of From_Cursor cursor \<Rightarrow> cc_transaction_sequence cursor
      | From_Record header \<Rightarrow> rec_transaction_sequence header)"

definition source_tombstone :: "merge_source \<Rightarrow> bool" where
  "source_tombstone source =
     (case source of From_Cursor cursor \<Rightarrow> te_tombstone (cc_flags cursor) | From_Record header \<Rightarrow> rec_tombstone header)"

definition source_value_size :: "merge_source \<Rightarrow> u32" where
  "source_value_size source =
     (case source of From_Cursor cursor \<Rightarrow> cc_value_size cursor | From_Record header \<Rightarrow> rec_value_size header)"

definition source_encoded_size :: "db \<Rightarrow> merge_source \<Rightarrow> u32" where
  "source_encoded_size s source =
     (case source of From_Cursor cursor \<Rightarrow> cc_total_size cursor | From_Record header \<Rightarrow> record_encoded_size s header)"

definition source_logical_size :: "db \<Rightarrow> merge_source \<Rightarrow> u64" where
  "source_logical_size s source =
     logical_record_size (of_nat (length (ck_namespace (source_key s source))))
       (of_nat (length (ck_key (source_key s source)))) (source_value_size source)"

text \<open>
  Place the winner in the data block. The entry of a table is copied as it is, unless it has an
  external value, which is relocated and the entry encoded again. The result is the error code, the
  data block as it is left, the size of the entry and the tail of the destination bank.
\<close>

definition place_source ::
  "config \<Rightarrow> 'd block_device \<Rightarrow> merge_source \<Rightarrow> table_output \<Rightarrow> u32 \<Rightarrow> u64 \<Rightarrow> u32 \<Rightarrow> 'd world \<Rightarrow>
     (esp_err \<times> bytes \<times> u32 \<times> u32) \<times> 'd world" where
  "place_source cfg dev source output destination_bank destination_generation destination_tail w =
     (let block = bs_data_block (to_build output); position = entry_position output;
          failed = (\<lambda>e block w. ((e, block, 0, destination_tail), w)) in
      case source of
        From_Cursor cursor \<Rightarrow>
          (case read_table_bytes cfg dev (cc_source_slot cursor)
                  (ucast (cursor_block_offset (snd w) cursor + cc_entry_offset cursor)) (unat (cc_total_size cursor)) w of
             Inl e \<Rightarrow> failed e block w
           | Inr encoded \<Rightarrow>
               let block = put block position encoded in
               (case decode_table_entry block position of
                  Inl _ \<Rightarrow> failed ESP_ERR_INVALID_CRC block w
                | Inr decoded \<Rightarrow>
                    if te_total_size decoded \<noteq> cc_total_size cursor \<or>
                       te_transaction_sequence decoded \<noteq> cc_transaction_sequence cursor
                    then failed ESP_ERR_INVALID_CRC block w
                    else if te_external (te_flags decoded) then
                      (case copy_external_value cfg dev (te_external_value decoded) destination_bank
                              destination_generation destination_tail w of
                         (Inl e, w) \<Rightarrow> failed e block w
                       | (Inr (relocated, tail), w) \<Rightarrow>
                           (case encode_table_entry block position
                                   (decoded\<lparr>te_namespace := ck_namespace (cc_key cursor), te_key := ck_key (cc_key cursor),
                                            te_external_value := relocated\<rparr>) of
                              None \<Rightarrow> failed ESP_ERR_INVALID_STATE block w
                            | Some (block, actual_size) \<Rightarrow> ((ESP_OK, block, actual_size, tail), w)))
                    else ((ESP_OK, block, te_total_size decoded, destination_tail), w)))
      | From_Record header \<Rightarrow>
          (case (if rec_external header
                 then copy_external_value cfg dev (rec_external_value header) destination_bank
                        destination_generation destination_tail w
                 else (Inr (empty_value_ref, destination_tail), w)) of
             (Inl e, w) \<Rightarrow> failed e block w
           | (Inr (relocated, tail), w) \<Rightarrow>
               (case encode_table_entry block position
                       ((record_table_entry (snd w) header)\<lparr>te_external_value := relocated\<rparr>) of
                  None \<Rightarrow> failed ESP_ERR_INVALID_SIZE block w
                | Some (block, actual_size) \<Rightarrow> ((ESP_OK, block, actual_size, tail), w))))"

text \<open>
  The result carries the output and the tail also on an error: \<open>ESP_ERR_NO_MEM\<close> makes the caller
  complete the output as it is left and go on with the next one.
\<close>

definition append_compaction_entry ::
  "config \<Rightarrow> 'd block_device \<Rightarrow> merge_source \<Rightarrow> u32 \<Rightarrow> u64 \<Rightarrow> table_output \<times> u32 \<Rightarrow> 'd world \<Rightarrow>
     (esp_err \<times> table_output \<times> u32) \<times> 'd world" where
  "append_compaction_entry cfg dev source destination_bank destination_generation target w =
     (case target of (output, destination_tail) \<Rightarrow>
      let key = source_key (snd w) source; sequence = source_sequence source in
      case (if block_full (snd w) (source_encoded_size (snd w) source) (to_build output)
            then finish_table_data_block cfg dev (to_build output) w else (Inr (to_build output), w)) of
        (Inl e, w) \<Rightarrow> ((e, output, destination_tail), w)
      | (Inr state, w) \<Rightarrow>
          let output = output\<lparr>to_build := state\<rparr> in
          (case enter_index (snd w) key sequence (to_maximum_data_blocks output) state of
             Inl e \<Rightarrow> ((e, output, destination_tail), w)
           | Inr state \<Rightarrow>
               let output = output\<lparr>to_build := state\<rparr> in
               (case place_source cfg dev source output destination_bank destination_generation destination_tail w of
                  ((ret, block, actual_size, tail), w) \<Rightarrow>
                    if ret = ESP_OK then ((ESP_OK, account_entry key sequence block actual_size output, tail), w)
                    else ((ret, output\<lparr>to_build := state\<lparr>bs_data_block := block\<rparr>\<rparr>, tail), w))))"

definition finish_compaction_output ::
  "config \<Rightarrow> 'd block_device \<Rightarrow> table_output \<Rightarrow> u32 \<times> u64 \<times> u32 \<Rightarrow> 'd world \<Rightarrow>
     (esp_err + table_reference) \<times> 'd world" where
  "finish_compaction_output cfg dev output value_bank w =
     (if bs_entry_count (to_build output) = 0 then (Inl ESP_ERR_INVALID_ARG, w)
      else
        (case (if bs_data_block_entry_count (to_build output) > 0
               then finish_table_data_block cfg dev (to_build output) w else (Inr (to_build output), w)) of
           (Inl e, w) \<Rightarrow> (Inl e, w)
         | (Inr state, w) \<Rightarrow>
             (case finish_table_output cfg dev (output\<lparr>to_build := state\<rparr>) w of
                (Inl e, w) \<Rightarrow> (Inl e, w)
              | (Inr metadata, w) \<Rightarrow>
                  (case validate_table cfg dev (make_table_reference metadata) (Some value_bank) w of
                     (ret, w) \<Rightarrow> (if ret \<noteq> ESP_OK then Inl ret else Inr (make_table_reference metadata), w)))))"

section \<open>The merge\<close>

text \<open>What a compaction works on: the banks, and the table slots it fills.\<close>

record compaction_plan =
  cp_bank_size :: nat
  cp_input_start :: nat
  cp_output_start :: nat
  cp_destination_bank :: u32
  cp_destination_generation :: u64

definition set_table :: "nat \<Rightarrow> table_reference \<Rightarrow> 'd world \<Rightarrow> 'd world" where
  "set_table slot reference = update_db (\<lambda>s. s\<lparr>db_manifest := (db_manifest s)
     \<lparr>mr_tables := (mr_tables (db_manifest s))[slot := reference]\<rparr>\<rparr>)"

definition clear_tables :: "nat \<Rightarrow> nat \<Rightarrow> 'd world \<Rightarrow> 'd world" where
  "clear_tables start n w = fold (\<lambda>slot. set_table slot empty_table_reference) [start..<start + n] w"

definition start_plan_output ::
  "compaction_plan \<Rightarrow> compaction_state \<Rightarrow> 'd world \<Rightarrow> (esp_err + table_output) \<times> 'd world" where
  "start_plan_output plan state w =
     start_compaction_output (of_nat (cp_output_start plan + co_output_count state))
       (mr_next_table_generation (db_manifest (snd w)) + of_nat (co_output_count state)) w"

text \<open>Complete the current output and enter it in the manifest in memory.\<close>

definition finish_plan_output ::
  "config \<Rightarrow> 'd block_device \<Rightarrow> compaction_plan \<Rightarrow> table_output \<Rightarrow> compaction_state \<Rightarrow> 'd world \<Rightarrow>
     (esp_err + compaction_state) \<times> 'd world" where
  "finish_plan_output cfg dev plan output state w =
     (case finish_compaction_output cfg dev output
             (cp_destination_bank plan, cp_destination_generation plan, co_destination_tail state) w of
        (Inl e, w) \<Rightarrow> (Inl e, w)
      | (Inr reference, w) \<Rightarrow>
          (Inr (state\<lparr>co_output := None, co_output_count := co_output_count state + 1\<rparr>),
           set_table (cp_output_start plan + co_output_count state) reference w))"

definition append_to_plan ::
  "config \<Rightarrow> 'd block_device \<Rightarrow> compaction_plan \<Rightarrow> merge_source \<Rightarrow> table_output \<Rightarrow> compaction_state \<Rightarrow> 'd world \<Rightarrow>
     (esp_err \<times> compaction_state) \<times> 'd world" where
  "append_to_plan cfg dev plan source output state w =
     (case append_compaction_entry cfg dev source (cp_destination_bank plan) (cp_destination_generation plan)
             (output, co_destination_tail state) w of
        ((ret, output, tail), w) \<Rightarrow> ((ret, state\<lparr>co_output := Some output, co_destination_tail := tail\<rparr>), w))"

text \<open>
  Emit a live winner: into the current output, or, when that is full, into the next one. Errors stop
  the merge.
\<close>

definition emit_winner ::
  "config \<Rightarrow> 'd block_device \<Rightarrow> compaction_plan \<Rightarrow> merge_source \<Rightarrow> compaction_state \<Rightarrow> 'd world \<Rightarrow>
     (esp_err + compaction_state) \<times> 'd world" where
  "emit_winner cfg dev plan source state w =
     (let logical = source_logical_size (snd w) source in
      if logical > sg_max_live_bytes (mr_geometry (db_manifest (snd w))) - co_logical_state_bytes state
      then (Inl ESP_ERR_NO_MEM, w)
      else
        let state = state\<lparr>co_logical_state_bytes := co_logical_state_bytes state + logical\<rparr> in
        (case (case co_output state of
                 Some output \<Rightarrow> (Inr output, w)
               | None \<Rightarrow>
                   if co_output_count state \<ge> cp_bank_size plan then (Inl ESP_ERR_NO_MEM, w)
                   else start_plan_output plan state w) of
           (Inl e, w) \<Rightarrow> (Inl e, w)
         | (Inr output, w) \<Rightarrow>
             (case append_to_plan cfg dev plan source output state w of
                ((ret, state), w) \<Rightarrow>
                  if ret = ESP_OK then (Inr state, w)
                  else if ret \<noteq> ESP_ERR_NO_MEM then (Inl ret, w)
                  else
                    (case finish_plan_output cfg dev plan (the (co_output state)) state w of
                       (Inl e, w) \<Rightarrow> (Inl e, w)
                     | (Inr state, w) \<Rightarrow>
                         if co_output_count state \<ge> cp_bank_size plan then (Inl ESP_ERR_NO_MEM, w)
                         else
                           (case start_plan_output plan state w of
                              (Inl e, w) \<Rightarrow> (Inl e, w)
                            | (Inr output, w) \<Rightarrow>
                                (case append_to_plan cfg dev plan source output state w of
                                   ((ret, state), w) \<Rightarrow> (if ret = ESP_OK then Inr state else Inl ret, w)))))))"

text \<open>
  The winner at the smallest key: the memtable record or the cursor with the greatest sequence. Two
  sources with the same sequence at the same key are an error.
\<close>

fun select_winner ::
  "composite_key \<Rightarrow> compaction_cursor list \<Rightarrow> merge_source option \<Rightarrow> u64 \<Rightarrow> esp_err + merge_source option" where
  "select_winner smallest [] winner winner_sequence = Inr winner"
| "select_winner smallest (cursor # cursors) winner winner_sequence =
     (if \<not> cursor_matches smallest cursor then select_winner smallest cursors winner winner_sequence
      else if cc_transaction_sequence cursor = winner_sequence then Inl ESP_ERR_INVALID_CRC
      else if cc_transaction_sequence cursor > winner_sequence
      then select_winner smallest cursors (Some (From_Cursor cursor)) (cc_transaction_sequence cursor)
      else select_winner smallest cursors winner winner_sequence)"

definition record_namespace_invalid :: "config \<Rightarrow> db \<Rightarrow> memtable_record \<Rightarrow> bool" where
  "record_namespace_invalid cfg s header \<longleftrightarrow>
     ucast (rec_namespace_slot_index header) \<ge> cfg_max_namespaces cfg \<or>
     \<not> ns_used (db_namespaces s ! unat (rec_namespace_slot_index header))"

definition offset_record :: "db \<Rightarrow> u32 \<Rightarrow> memtable_record" where
  "offset_record s offset = the (db_memtable_data s (unat offset))"

text \<open>The memtable record at the front of the merge.\<close>

definition front_record :: "config \<Rightarrow> db \<Rightarrow> u32 list \<Rightarrow> esp_err + memtable_record option" where
  "front_record cfg s offsets =
     (case offsets of
        [] \<Rightarrow> Inr None
      | offset # _ \<Rightarrow>
          if record_namespace_invalid cfg s (offset_record s offset) then Inl ESP_ERR_INVALID_STATE
          else Inr (Some (offset_record s offset)))"

text \<open>The offsets after the record at the smallest key was consumed.\<close>

definition consume_record :: "db \<Rightarrow> composite_key \<Rightarrow> u32 list \<Rightarrow> u32 list" where
  "consume_record s smallest offsets =
     (case offsets of
        [] \<Rightarrow> []
      | offset # rest \<Rightarrow>
          if composite_key_equal (record_composite_key s (offset_record s offset)) smallest then rest else offsets)"

definition emit_unless_tombstone ::
  "config \<Rightarrow> 'd block_device \<Rightarrow> compaction_plan \<Rightarrow> merge_source \<Rightarrow> compaction_state \<Rightarrow> 'd world \<Rightarrow>
     (esp_err + compaction_state) \<times> 'd world" where
  "emit_unless_tombstone cfg dev plan winner state w =
     (let state = (if source_sequence winner > co_greatest_sequence state
            then state\<lparr>co_greatest_sequence := source_sequence winner\<rparr> else state) in
      if source_tombstone winner then (Inr state, w) else emit_winner cfg dev plan winner state w)"

text \<open>
  The merge. Every turn consumes the memtable record or the entries of the cursors at the smallest key. As the merge at
  recovery it is a function that may not return: \<open>None\<close> is a merge that goes on for ever. \<open>Merge_Termination\<close> proves
  that it returns.
\<close>

partial_function (option) merge_tables ::
  "config \<Rightarrow> 'd block_device \<Rightarrow> compaction_plan \<Rightarrow> u32 list \<Rightarrow> compaction_cursor list \<Rightarrow>
     compaction_state \<Rightarrow> 'd world \<Rightarrow> ((esp_err + compaction_state) \<times> 'd world) option" where
  [code]: "merge_tables cfg dev plan offsets cursors state w =
     (if offsets = [] \<and> cursors = [] then Some (Inr state, w)
      else
        (case front_record cfg (snd w) offsets of
           Inl e \<Rightarrow> Some (Inl e, w)
         | Inr front \<Rightarrow>
             (case smallest_cursor_key cursors (map_option (record_composite_key (snd w)) front) of
                None \<Rightarrow> Some (Inr state, w)
              | Some smallest \<Rightarrow>
                  let from_memtable = (case front of None \<Rightarrow> None
                        | Some header \<Rightarrow>
                            if composite_key_equal (record_composite_key (snd w) header) smallest
                            then Some (From_Record header) else None) in
                  (case select_winner smallest cursors from_memtable
                          (case from_memtable of None \<Rightarrow> 0 | Some source \<Rightarrow> source_sequence source) of
                     Inl e \<Rightarrow> Some (Inl e, w)
                   | Inr None \<Rightarrow> Some (Inl ESP_FAIL, w)
                   | Inr (Some winner) \<Rightarrow>
                       (case emit_unless_tombstone cfg dev plan winner state w of
                          (Inl e, w) \<Rightarrow> Some (Inl e, w)
                        | (Inr state, w) \<Rightarrow>
                            (case advance_matching cfg dev False smallest cursors w of
                               Inl e \<Rightarrow> Some (Inl e, w)
                             | Inr cursors \<Rightarrow>
                                 merge_tables cfg dev plan (consume_record (snd w) smallest offsets)
                                   (drop_finished cursors) state w))))))"

section \<open>Compaction\<close>

definition live_offsets :: "db \<Rightarrow> u32 list" where
  "live_offsets s =
     map mb_record_offset (filter (\<lambda>bucket. \<not> bucket_empty bucket) (db_memtable_index s))"

definition record_input_bytes :: "db \<Rightarrow> memtable_record \<Rightarrow> u64" where
  "record_input_bytes s header =
     ucast (align_table_entry_size (of_nat table_entry_header_size +
       of_nat (length (ns_name (db_namespaces s ! unat (rec_namespace_slot_index header)))) +
       of_nat (length (rec_key header)) + rec_value_size header))"

definition active_slots :: "db \<Rightarrow> nat \<Rightarrow> nat \<Rightarrow> nat list" where
  "active_slots s start n = filter (\<lambda>slot. tr_active (mr_tables (db_manifest s) ! slot)) [start..<start + n]"

fun validate_inputs :: "config \<Rightarrow> 'd block_device \<Rightarrow> nat list \<Rightarrow> 'd world \<Rightarrow> esp_err \<times> 'd world" where
  "validate_inputs cfg dev [] w = (ESP_OK, w)"
| "validate_inputs cfg dev (slot # slots) w =
     on_ok (validate_table cfg dev (mr_tables (db_manifest (snd w)) ! slot) None w) (validate_inputs cfg dev slots)"

fun open_compaction_cursors ::
  "config \<Rightarrow> 'd block_device \<Rightarrow> nat list \<Rightarrow> 'd world \<Rightarrow> esp_err + compaction_cursor list" where
  "open_compaction_cursors cfg dev [] w = Inr []"
| "open_compaction_cursors cfg dev (slot # slots) w =
     then_read (load_compaction_cursor cfg dev False (new_cursor (of_nat slot)) w) (\<lambda>cursor.
       then_read (open_compaction_cursors cfg dev slots w) (\<lambda>cursors. Inr (cursor # cursors)))"

text \<open>
  The values staged by the current transaction move with the bank. The result lists the references
  of its mutations after the move, and the tail of the destination bank.
\<close>

fun relocate_staged ::
  "config \<Rightarrow> 'd block_device \<Rightarrow> compaction_plan \<Rightarrow> mutation_slot list \<Rightarrow> u32 \<Rightarrow> 'd world \<Rightarrow>
     (esp_err + value_ref list \<times> u32) \<times> 'd world" where
  "relocate_staged cfg dev plan [] tail w = (Inr ([], tail), w)"
| "relocate_staged cfg dev plan (m # ms) tail w =
     (if \<not> mu_external_value m then
        (case relocate_staged cfg dev plan ms tail w of
           (Inl e, w) \<Rightarrow> (Inl e, w)
         | (Inr (references, tail), w) \<Rightarrow> (Inr (mu_external_value_ref m # references, tail), w))
      else
        let manifest = db_manifest (snd w); bank = mr_active_value_bank manifest; r = mu_external_value_ref m in
        if ucast (vr_bank_slot r) \<noteq> bank \<or> vr_bank_generation r \<noteq> mr_value_bank_generation manifest ! unat bank
        then (Inl ESP_ERR_INVALID_STATE, w)
        else
          (case copy_external_value cfg dev r (cp_destination_bank plan) (cp_destination_generation plan) tail w of
             (Inl e, w) \<Rightarrow> (Inl e, w)
           | (Inr (relocated, tail), w) \<Rightarrow>
               (case relocate_staged cfg dev plan ms tail w of
                  (Inl e, w) \<Rightarrow> (Inl e, w)
                | (Inr (references, tail), w) \<Rightarrow> (Inr (relocated # references, tail), w))))"

definition staged_mutations :: "db \<Rightarrow> mutation_slot list" where
  "staged_mutations s =
     (let t = db_transaction s in
      if tx_active t then take (unat (tx_mutation_count t)) (tx_mutations t) else [])"

definition set_staged_references :: "value_ref list \<Rightarrow> db \<Rightarrow> db" where
  "set_staged_references references s =
     (let t = db_transaction s in
      if \<not> tx_active t then s
      else
        let ms = map2 (\<lambda>m r. m\<lparr>mu_external_value_ref := r\<rparr>) (staged_mutations s) references in
        s\<lparr>db_transaction := t\<lparr>tx_mutations := ms @ drop (length ms) (tx_mutations t)\<rparr>\<rparr>)"

text \<open>The manifest that makes the output live.\<close>

definition swapped_manifest ::
  "compaction_plan \<Rightarrow> compaction_state \<Rightarrow> u32 \<Rightarrow> manifest_record \<Rightarrow> manifest_record" where
  "swapped_manifest plan state tail m = m\<lparr>
     mr_tables := fold (\<lambda>slot tables. tables[slot := empty_table_reference])
       [cp_input_start plan..<cp_input_start plan + cp_bank_size plan] (mr_tables m),
     mr_active_table_bank := 1 - mr_active_table_bank m,
     mr_active_value_bank := cp_destination_bank plan,
     mr_value_bank_generation := (mr_value_bank_generation m)[unat (cp_destination_bank plan) := cp_destination_generation plan],
     mr_value_bank_tail := (mr_value_bank_tail m)[unat (cp_destination_bank plan) := tail],
     mr_safe_checkpoint_sequence := co_greatest_sequence state,
     mr_next_table_generation := mr_next_table_generation m + of_nat (co_output_count state),
     mr_wal_generation := (mr_wal_generation m)[unat (1 - mr_active_wal_slot m) := 0]\<rparr>"

definition saturating_add :: "u64 \<Rightarrow> u64 \<Rightarrow> u64" where
  "saturating_add lhs rhs = (if rhs > - 1 - lhs then - 1 else lhs + rhs)"

text \<open>The state after the publication, before the stabilisation.\<close>

definition published_state ::
  "config \<Rightarrow> compaction_plan \<Rightarrow> compaction_state \<Rightarrow> value_ref list \<Rightarrow> db \<Rightarrow> db" where
  "published_state cfg plan state references s =
     (let s = reset_memtable cfg (set_staged_references references s);
          m = db_manifest s;
          inactive_wal_slot = unat (1 - mr_active_wal_slot m);
          outputs = map (\<lambda>slot. mr_tables m ! slot) [cp_output_start plan..<cp_output_start plan + co_output_count state];
          tail = (db_wal_tail s)[inactive_wal_slot := of_nat wal_record_region_offset] in
      s\<lparr>db_manifest_stabilization_required := True,
        db_wal_tail := tail,
        db_stats := (db_stats s)\<lparr>
          st_wal_bytes_used := ucast (tail ! unat (mr_active_wal_slot m) - of_nat wal_record_region_offset),
          st_logical_state_bytes := co_logical_state_bytes state,
          st_tombstone_count := 0,
          st_table_bytes_used := sum_list (map (\<lambda>r. table_file_bytes s (tr_data_block_count r)) outputs)\<rparr>\<rparr>)"

definition compaction_statistics :: "u64 \<Rightarrow> u64 \<Rightarrow> u64 \<Rightarrow> db \<Rightarrow> db" where
  "compaction_statistics elapsed_us input_record_bytes output_record_bytes s =
     (let st = db_stats s in
      s\<lparr>db_stats := st\<lparr>
        st_compaction_count := saturating_add (st_compaction_count st) 1,
        st_compaction_input_record_bytes := saturating_add (st_compaction_input_record_bytes st) input_record_bytes,
        st_compaction_output_record_bytes := saturating_add (st_compaction_output_record_bytes st) output_record_bytes,
        st_last_compaction_time_us := elapsed_us,
        st_maximum_compaction_time_us :=
          (if elapsed_us > st_maximum_compaction_time_us st then elapsed_us else st_maximum_compaction_time_us st)\<rparr>\<rparr>)"

definition make_plan :: "db \<Rightarrow> compaction_plan" where
  "make_plan s =
     (let m = db_manifest s; bank_size = unat (sg_table_count (mr_geometry m) div 2);
          destination = 1 - mr_active_value_bank m in
      \<lparr>cp_bank_size = bank_size,
       cp_input_start = unat (mr_active_table_bank m * of_nat bank_size),
       cp_output_start = unat ((1 - mr_active_table_bank m) * of_nat bank_size),
       cp_destination_bank = destination,
       cp_destination_generation = mr_value_bank_generation m ! unat destination + 1\<rparr>)"

text \<open>The guards before anything is touched.\<close>

definition compaction_refused :: "config \<Rightarrow> db \<Rightarrow> esp_err option" where
  "compaction_refused cfg s =
     (let m = db_manifest s; plan = make_plan s in
      if mr_next_table_generation m > - 1 - of_nat (cp_bank_size plan) \<or> mr_generation m > - 1 - 2 \<or>
         unat (mr_active_value_bank m) \<ge> value_bank_count \<or>
         mr_value_bank_generation m ! unat (cp_destination_bank plan) = - 1 then Some ESP_ERR_INVALID_SIZE
      else if value_bank_is_pinned cfg s (cp_destination_bank plan) \<or>
              value_bank_has_staged_reference s (cp_destination_bank plan) then Some ESP_ERR_INVALID_STATE
      else None)"

text \<open>
  The merge into the other bank, with the outputs dropped again when it fails. A merge that does not return has no
  result; \<open>ESP_FAIL\<close> stands for it.
\<close>

definition merge_into_bank ::
  "config \<Rightarrow> 'd block_device \<Rightarrow> compaction_plan \<Rightarrow> u32 list \<Rightarrow> compaction_cursor list \<Rightarrow> 'd world \<Rightarrow>
     (esp_err + compaction_state \<times> value_ref list) \<times> 'd world" where
  "merge_into_bank cfg dev plan offsets cursors w =
     (let dropped = (\<lambda>e w. (Inl e, clear_tables (cp_output_start plan) (cp_bank_size plan) w));
          start = \<lparr>co_output = None, co_output_count = 0, co_destination_tail = of_nat identity_region_size,
            co_logical_state_bytes = 0, co_greatest_sequence = 0\<rparr> in
      case (case merge_tables cfg dev plan offsets cursors start w of None \<Rightarrow> (Inl ESP_FAIL, w) | Some result \<Rightarrow> result) of
        (Inl e, w) \<Rightarrow> dropped e w
      | (Inr state, w) \<Rightarrow>
          (case (case co_output state of None \<Rightarrow> (Inr state, w)
                 | Some output \<Rightarrow> finish_plan_output cfg dev plan output state w) of
             (Inl e, w) \<Rightarrow> dropped e w
           | (Inr state, w) \<Rightarrow>
               if co_greatest_sequence state \<noteq> db_next_transaction_sequence (snd w) - 1
               then dropped ESP_ERR_INVALID_STATE w
               else
                 (case relocate_staged cfg dev plan (staged_mutations (snd w)) (co_destination_tail state) w of
                    (Inl e, w) \<Rightarrow> dropped e w
                  | (Inr (references, tail), w) \<Rightarrow> (Inr (state\<lparr>co_destination_tail := tail\<rparr>, references), w))))"

text \<open>\<open>clock n\<close> is the elapsed time the timer reports for the compaction number \<open>n\<close>.\<close>

definition publish_compaction ::
  "config \<Rightarrow> 'd block_device \<Rightarrow> (u64 \<Rightarrow> u64) \<Rightarrow> compaction_plan \<Rightarrow> compaction_state \<Rightarrow> value_ref list \<Rightarrow> u64 \<Rightarrow>
     'd world \<Rightarrow> esp_err \<times> 'd world" where
  "publish_compaction cfg dev clock plan state references input_record_bytes w =
     (let previous = db_manifest (snd w);
          w = update_db (\<lambda>s. s\<lparr>db_manifest := swapped_manifest plan state (co_destination_tail state) previous\<rparr>) w in
      case on_ok (sync_store dev w)
             (\<lambda>w. write_manifest_copy cfg dev (mr_generation (db_manifest (snd w)) + 1) manifest_state_ready w) of
        (ret, w) \<Rightarrow>
          if ret \<noteq> ESP_OK then
            (ret, clear_tables (cp_output_start plan) (cp_bank_size plan)
                    (update_db (\<lambda>s. s\<lparr>db_manifest := previous\<rparr>) w))
          else
            let w = update_db (published_state cfg plan state references) w;
                output_record_bytes = sum_list (map (\<lambda>slot. ucast (tr_data_bytes (mr_tables (db_manifest (snd w)) ! slot)))
                  [cp_output_start plan..<cp_output_start plan + co_output_count state]);
                elapsed_us = clock (st_compaction_count (db_stats (snd w))) in
            (case stabilize_manifest cfg dev w of
               (ret, w) \<Rightarrow> (ret, update_db (compaction_statistics elapsed_us input_record_bytes output_record_bytes) w)))"

definition compact_tables :: "config \<Rightarrow> 'd block_device \<Rightarrow> (u64 \<Rightarrow> u64) \<Rightarrow> 'd world \<Rightarrow> esp_err \<times> 'd world" where
  "compact_tables cfg dev clock w =
     (case compaction_refused cfg (snd w) of
        Some e \<Rightarrow> (e, w)
      | None \<Rightarrow>
          let plan = make_plan (snd w) in
          on_ok (validate_inputs cfg dev (active_slots (snd w) (cp_input_start plan) (cp_bank_size plan)) w) (\<lambda>w.
            let s = snd w; slots = active_slots s (cp_input_start plan) (cp_bank_size plan);
                offsets = live_offsets s; records = map (offset_record s) offsets in
            if active_slots s (cp_output_start plan) (cp_bank_size plan) \<noteq> [] then (ESP_ERR_INVALID_STATE, w)
            else if (\<exists>header \<in> set records. record_namespace_invalid cfg s header) \<or>
                    of_nat (length offsets) \<noteq> db_memtable_entry_count s then (ESP_ERR_INVALID_STATE, w)
            else
              let input_record_bytes = sum_list (map (\<lambda>slot. ucast (tr_data_bytes (mr_tables (db_manifest s) ! slot))) slots) +
                    sum_list (map (record_input_bytes s) records) in
              on_value (open_compaction_cursors cfg dev slots w) w (\<lambda>cursors.
                (case merge_into_bank cfg dev plan (sort_memtable_offsets s offsets (length offsets)) cursors w of
                   (Inl e, w) \<Rightarrow> (e, w)
                 | (Inr (state, references), w) \<Rightarrow>
                     publish_compaction cfg dev clock plan state references input_record_bytes w))))"

end
