(* ===== verification/Flush.thy ===== *)
theory Flush
  imports Compaction
begin

text \<open>
  The flush of the memtable into a free table of the active bank (\<open>on9kvdb_table.cpp\<close>): check
  and sort the live records, write them as one table, publish it by a manifest, empty the memtable.
  Without a free table slot the flush becomes a compaction.
\<close>

text \<open>The check of a live bucket and the record behind it.\<close>

definition flush_record_invalid :: "config \<Rightarrow> db \<Rightarrow> memtable_bucket \<Rightarrow> bool" where
  "flush_record_invalid cfg s bucket \<longleftrightarrow>
     unat (mb_record_size bucket) < sizeof_memtable_record_header \<or>
     mb_record_size bucket > cfg_memtable_data_size cfg \<or>
     mb_record_offset bucket > cfg_memtable_data_size cfg - mb_record_size bucket \<or>
     (case db_memtable_data s (unat (mb_record_offset bucket)) of
        None \<Rightarrow> True
      | Some header \<Rightarrow> memtable_record_invalid cfg s bucket header)"

definition collect_flush_offsets :: "config \<Rightarrow> db \<Rightarrow> esp_err + u32 list" where
  "collect_flush_offsets cfg s =
     (let buckets = filter (\<lambda>bucket. \<not> bucket_empty bucket) (db_memtable_index s) in
      if (\<exists>bucket \<in> set buckets. flush_record_invalid cfg s bucket) \<or>
         of_nat (length buckets) \<noteq> db_memtable_entry_count s then Inl ESP_ERR_INVALID_STATE
      else Inr (map mb_record_offset buckets))"

fun append_records ::
  "config \<Rightarrow> 'd block_device \<Rightarrow> u32 list \<Rightarrow> table_output \<Rightarrow> 'd world \<Rightarrow> (esp_err + table_output) \<times> 'd world" where
  "append_records cfg dev [] output w = (Inr output, w)"
| "append_records cfg dev (offset # offsets) output w =
     (case append_record_entry cfg dev (offset_record (snd w) offset) output w of
        (Inl e, w) \<Rightarrow> (Inl e, w)
      | (Inr output, w) \<Rightarrow> append_records cfg dev offsets output w)"

text \<open>The body of the table, its index and its metadata, without the validation.\<close>

definition write_flush_table ::
  "config \<Rightarrow> 'd block_device \<Rightarrow> u32 \<Rightarrow> u32 list \<Rightarrow> 'd world \<Rightarrow> (esp_err + table_metadata) \<times> 'd world" where
  "write_flush_table cfg dev table_slot offsets w =
     (case append_records cfg dev offsets
             (start_table_output (snd w) table_slot (mr_next_table_generation (db_manifest (snd w)))) w of
        (Inl e, w) \<Rightarrow> (Inl e, w)
      | (Inr output, w) \<Rightarrow>
          (case finish_table_data_block cfg dev (to_build output) w of
             (Inl e, w) \<Rightarrow> (Inl e, w)
           | (Inr state, w) \<Rightarrow> finish_table_output cfg dev (output\<lparr>to_build := state\<rparr>) w))"

text \<open>The manifest that makes the table live, written over the old one; restored when that fails.\<close>

definition flushed_manifest :: "u32 \<Rightarrow> table_metadata \<Rightarrow> manifest_record \<Rightarrow> manifest_record" where
  "flushed_manifest table_slot metadata m = m\<lparr>
     mr_tables := (mr_tables m)[unat table_slot := make_table_reference metadata],
     mr_safe_checkpoint_sequence := tm_max_sequence metadata,
     mr_next_table_generation := mr_next_table_generation m + 1\<rparr>"

definition unflushed_manifest :: "u32 \<Rightarrow> manifest_record \<Rightarrow> manifest_record \<Rightarrow> manifest_record" where
  "unflushed_manifest table_slot previous m = m\<lparr>
     mr_tables := (mr_tables m)[unat table_slot := empty_table_reference],
     mr_safe_checkpoint_sequence := mr_safe_checkpoint_sequence previous,
     mr_next_table_generation := mr_next_table_generation previous\<rparr>"

definition publish_flush ::
  "config \<Rightarrow> 'd block_device \<Rightarrow> u32 \<Rightarrow> table_metadata \<Rightarrow> 'd world \<Rightarrow> esp_err \<times> 'd world" where
  "publish_flush cfg dev table_slot metadata w =
     (let previous = db_manifest (snd w);
          w = update_db (\<lambda>s. s\<lparr>db_manifest := flushed_manifest table_slot metadata previous\<rparr>) w in
      case write_manifest_copy cfg dev (mr_generation previous + 1) manifest_state_ready w of
        (ret, w) \<Rightarrow>
          if ret \<noteq> ESP_OK then
            (ret, update_db (\<lambda>s. s\<lparr>db_manifest := unflushed_manifest table_slot previous (db_manifest s)\<rparr>) w)
          else
            (ESP_OK, update_db (\<lambda>s. reset_memtable cfg
               (s\<lparr>db_stats := (db_stats s)\<lparr>st_table_bytes_used := st_table_bytes_used (db_stats s) +
                   table_file_bytes s (tm_data_block_count metadata)\<rparr>\<rparr>)) w))"

text \<open>The first free slot of the active table bank.\<close>

definition free_table_slot :: "db \<Rightarrow> nat option" where
  "free_table_slot s =
     (let plan = make_plan s in
      find (\<lambda>slot. \<not> tr_active (mr_tables (db_manifest s) ! slot))
        [cp_input_start plan..<cp_input_start plan + cp_bank_size plan])"

definition flush_memtable :: "config \<Rightarrow> 'd block_device \<Rightarrow> (u64 \<Rightarrow> u64) \<Rightarrow> 'd world \<Rightarrow> esp_err \<times> 'd world" where
  "flush_memtable cfg dev clock w =
     (let m = db_manifest (snd w) in
      if db_memtable_entry_count (snd w) = 0 then (ESP_OK, w)
      else if mr_next_table_generation m = 0 \<or> mr_next_table_generation m = - 1 then (ESP_ERR_INVALID_STATE, w)
      else
        (case free_table_slot (snd w) of
           None \<Rightarrow> compact_tables cfg dev clock w
         | Some slot \<Rightarrow>
             let table_slot = of_nat slot; w = update_db (invalidate_table_index_cache table_slot) w in
             on_value (collect_flush_offsets cfg (snd w)) w (\<lambda>offsets.
             on_result (write_flush_table cfg dev table_slot
                          (sort_memtable_offsets (snd w) offsets (length offsets)) w) (\<lambda>metadata w.
             on_ok (validate_table cfg dev (make_table_reference metadata) None w)
               (publish_flush cfg dev table_slot metadata)))))"

end
