(* ===== verification/Wal_Log.thy ===== *)
theory Wal_Log
  imports Flush Transaction Wal_Header Wal_Payload
begin

text \<open>
  The write-ahead log (\<open>on9kvdb_wal.cpp\<close>): appending a transaction as frames, with the rotation
  to the other slot when the active one is full, and the recovery at start, which scans the slots
  and replays every transaction behind the checkpoint. Offsets in a slot are numbers below its size;
  an accepted header has a record region of at least one frame, so the subtractions of the source do
  not wrap.
\<close>

section \<open>Rotation\<close>

definition set_active_wal :: "u32 \<Rightarrow> u32 \<Rightarrow> u64 \<Rightarrow> 'd world \<Rightarrow> 'd world" where
  "set_active_wal active slot generation = update_db (\<lambda>s. s\<lparr>db_manifest := (db_manifest s)\<lparr>
     mr_active_wal_slot := active,
     mr_wal_generation := (mr_wal_generation (db_manifest s))[unat slot := generation]\<rparr>\<rparr>)"

definition set_wal_tail :: "u32 \<Rightarrow> u32 \<Rightarrow> 'd world \<Rightarrow> 'd world" where
  "set_wal_tail slot tail = update_db (\<lambda>s. s\<lparr>db_wal_tail := (db_wal_tail s)[unat slot := tail]\<rparr>)"

definition rotate_wal :: "config \<Rightarrow> 'd block_device \<Rightarrow> 'd world \<Rightarrow> esp_err \<times> 'd world" where
  "rotate_wal cfg dev w =
     (let m = db_manifest (snd w); old = mr_active_wal_slot m; new = 1 - old;
          generation = mr_wal_generation m ! unat old in
      if unat old \<ge> wal_file_count \<or> generation = 0 \<or> mr_wal_generation m ! unat new \<noteq> 0 \<or> generation = - 1 \<or>
         mr_generation m > - 1 - 2 then (ESP_ERR_NO_MEM, w)
      else
        on_ok (stabilize_manifest cfg dev w) (\<lambda>w.
        on_ok (ensure_wal_header cfg dev new (generation + 1) (db_next_transaction_sequence (snd w)) w) (\<lambda>w.
        let w = set_active_wal new new (generation + 1) w in
        case write_manifest_copy cfg dev (mr_generation (db_manifest (snd w)) + 1) manifest_state_ready w of
          (ret, w) \<Rightarrow>
            if ret \<noteq> ESP_OK then (ret, set_active_wal old new 0 w)
            else
              stabilize_manifest cfg dev
                (update_db (\<lambda>s. s\<lparr>db_manifest_stabilization_required := True\<rparr>)
                  (set_wal_tail new (of_nat wal_record_region_offset) w)))))"

section \<open>Appending a transaction\<close>

definition wal_frame_of ::
  "db \<Rightarrow> u32 \<Rightarrow> u32 \<Rightarrow> u32 \<Rightarrow> nat \<Rightarrow> nat \<Rightarrow> nat \<Rightarrow> wal_frame_header" where
  "wal_frame_of s slot payload_size transaction_checksum frame_count frame_index frame_payload_size = \<lparr>
     wf_database_id = mr_database_id (db_manifest s),
     wf_wal_generation = mr_wal_generation (db_manifest s) ! unat slot,
     wf_transaction_sequence = db_next_transaction_sequence s,
     wf_frame_index = of_nat frame_index,
     wf_frame_count = of_nat frame_count,
     wf_mutation_count = tx_mutation_count (db_transaction s),
     wf_flags = (if frame_index + 1 = frame_count then wal_frame_flag_commit else 0),
     wf_payload_size = of_nat frame_payload_size,
     wf_transaction_payload_size = payload_size,
     wf_transaction_checksum = transaction_checksum,
     wf_payload_checksum = 0\<rparr>"

fun write_wal_frames ::
  "config \<Rightarrow> 'd block_device \<Rightarrow> handle_slot \<Rightarrow> u32 \<Rightarrow> u32 \<Rightarrow> u32 \<Rightarrow> nat \<Rightarrow> nat list \<Rightarrow> nat \<Rightarrow> 'd world \<Rightarrow> esp_err \<times> 'd world" where
  "write_wal_frames cfg dev handle slot payload_size transaction_checksum frame_count [] payload_offset w = (ESP_OK, w)"
| "write_wal_frames cfg dev handle slot payload_size transaction_checksum frame_count (frame_index # frame_indices)
     payload_offset w =
     (let frame_payload_size = min (unat payload_size - payload_offset) wal_frame_payload_capacity; s = snd w in
      case copy_transaction_payload (db_transaction_staging s) (db_transaction s) handle (of_nat payload_offset)
             (zeroes frame_payload_size) of
        Inl e \<Rightarrow> (e, w)
      | Inr payload \<Rightarrow>
          (case encode_wal_frame (zeroes wal_frame_size)
                  (wal_frame_of s slot payload_size transaction_checksum frame_count frame_index frame_payload_size) payload of
             None \<Rightarrow> (ESP_ERR_INVALID_STATE, w)
           | Some io_frame \<Rightarrow>
               on_ok (write_store cfg dev kind_wal slot
                        (ucast (db_wal_tail s ! unat slot) + of_nat frame_index * of_nat wal_frame_size) io_frame w)
                 (write_wal_frames cfg dev handle slot payload_size transaction_checksum frame_count frame_indices
                    (payload_offset + frame_payload_size))))"

definition wal_frame_count :: "u32 \<Rightarrow> u32" where
  "wal_frame_count payload_size =
     (payload_size + of_nat wal_frame_payload_capacity - 1) div of_nat wal_frame_payload_capacity"

definition wal_transaction_bytes :: "u32 \<Rightarrow> u64" where
  "wal_transaction_bytes payload_size = ucast (wal_frame_count payload_size) * of_nat wal_frame_size"

text \<open>The active slot has no room for the transaction.\<close>

definition wal_full :: "u64 \<Rightarrow> db \<Rightarrow> bool" where
  "wal_full transaction_bytes s \<longleftrightarrow>
     transaction_bytes > ucast (sg_wal_size (mr_geometry (db_manifest s)) -
       db_wal_tail s ! unat (mr_active_wal_slot (db_manifest s)))"

text \<open>
  Free the other slot and rotate to it. The result tells whether a compaction may have moved the
  external values of the current transaction.
\<close>

definition make_wal_room ::
  "config \<Rightarrow> 'd block_device \<Rightarrow> (u64 \<Rightarrow> u64) \<Rightarrow> 'd world \<Rightarrow> (esp_err + bool) \<times> 'd world" where
  "make_wal_room cfg dev clock w =
     (let m = db_manifest (snd w); target_slot = 1 - mr_active_wal_slot m;
          (moved, freed) =
            (if mr_wal_generation m ! unat target_slot \<noteq> 0 then (True, compact_tables cfg dev clock w)
             else if db_memtable_entry_count (snd w) > 0 then (True, flush_memtable cfg dev clock w)
             else (False, (ESP_OK, w))) in
      case on_ok freed (rotate_wal cfg dev) of
        (ret, w) \<Rightarrow> (if ret \<noteq> ESP_OK then Inl ret else Inr moved, w))"

text \<open>The checksum of the transaction, computed again after its values may have moved.\<close>

definition checked_payload :: "config \<Rightarrow> handle_slot \<Rightarrow> u32 \<times> u32 \<Rightarrow> bool \<Rightarrow> db \<Rightarrow> esp_err + u32" where
  "checked_payload cfg handle payload moved s =
     (if \<not> moved then Inr (snd payload)
      else
        then_read (calculate_transaction_payload cfg (db_transaction_staging s) (db_transaction s) handle)
          (\<lambda>(payload_size, checksum). require_that (payload_size = fst payload) ESP_ERR_INVALID_STATE (Inr checksum)))"

definition append_transaction ::
  "config \<Rightarrow> 'd block_device \<Rightarrow> (u64 \<Rightarrow> u64) \<Rightarrow> handle_slot \<Rightarrow> 'd world \<Rightarrow> esp_err \<times> 'd world" where
  "append_transaction cfg dev clock handle w =
     (if db_next_transaction_sequence (snd w) = 0 \<or> db_next_transaction_sequence (snd w) = - 1
      then (ESP_ERR_INVALID_STATE, w)
      else
        on_ok (stabilize_manifest cfg dev w) (\<lambda>w.
        on_value (calculate_transaction_payload cfg (db_transaction_staging (snd w)) (db_transaction (snd w)) handle) w
          (\<lambda>(payload_size, transaction_checksum).
        let transaction_bytes = wal_transaction_bytes payload_size in
        on_result (if wal_full transaction_bytes (snd w) then make_wal_room cfg dev clock w else (Inr False, w)) (\<lambda>moved w.
        if wal_full transaction_bytes (snd w) then (ESP_ERR_NO_MEM, w)
        else
          on_value (checked_payload cfg handle (payload_size, transaction_checksum) moved (snd w)) w (\<lambda>transaction_checksum.
          let slot = mr_active_wal_slot (db_manifest (snd w)); frame_count = unat (wal_frame_count payload_size) in
          on_ok (write_wal_frames cfg dev handle slot payload_size transaction_checksum frame_count
                   [0..<frame_count] 0 w) (\<lambda>w.
          on_ok (sync_store dev w) (\<lambda>w.
            (ESP_OK, update_db (\<lambda>s. s\<lparr>
               db_wal_tail := (db_wal_tail s)[unat slot := db_wal_tail s ! unat slot + ucast transaction_bytes],
               db_stats := (db_stats s)\<lparr>st_wal_bytes_used := st_wal_bytes_used (db_stats s) + transaction_bytes\<rparr>\<rparr>) w))))))))"

section \<open>Scanning a slot\<close>

definition version_status :: "format_status \<Rightarrow> bool" where
  "version_status status \<longleftrightarrow> status = FS_new_version \<or> status = FS_invalid_revision"

text \<open>Is there a frame of this generation, not older than the sequence, at or behind \<open>offset\<close>?\<close>

function search_later_frame ::
  "config \<Rightarrow> 'd block_device \<Rightarrow> u32 \<Rightarrow> nat \<Rightarrow> nat \<Rightarrow> u64 \<Rightarrow> u64 \<Rightarrow> 'd world \<Rightarrow> esp_err + bool" where
  "search_later_frame cfg dev slot offset region_end generation minimum_sequence w =
     (if offset + wal_frame_size \<le> region_end then
        (case read_store cfg dev kind_wal slot (of_nat offset) wal_frame_size w of
           Inl e \<Rightarrow> Inl e
         | Inr io_frame \<Rightarrow>
             (case decode_wal_frame io_frame of
                Inl status \<Rightarrow>
                  if version_status status then Inl ESP_ERR_INVALID_VERSION
                  else search_later_frame cfg dev slot (offset + wal_frame_size) region_end generation minimum_sequence w
              | Inr (candidate, payload) \<Rightarrow>
                  if wf_database_id candidate = mr_database_id (db_manifest (snd w)) \<and>
                     wf_wal_generation candidate = generation \<and> wf_transaction_sequence candidate \<ge> minimum_sequence
                  then Inr True
                  else search_later_frame cfg dev slot (offset + wal_frame_size) region_end generation minimum_sequence w))
      else Inr False)"
  by pat_completeness auto
termination
  by (relation "measure (\<lambda>(_, _, _, offset, region_end, _). region_end - offset)") (auto simp: format_consts)

declare search_later_frame.simps [simp del]

definition find_later_wal_frame ::
  "config \<Rightarrow> 'd block_device \<Rightarrow> u32 \<Rightarrow> nat \<Rightarrow> nat \<Rightarrow> u64 \<Rightarrow> u64 \<Rightarrow> 'd world \<Rightarrow> esp_err + bool" where
  "find_later_wal_frame cfg dev slot start_offset region_end generation minimum_sequence w =
     (if unat slot \<ge> wal_file_count \<or> start_offset > region_end \<or> generation = 0 \<or> minimum_sequence = 0
      then Inl ESP_ERR_INVALID_ARG
      else search_later_frame cfg dev slot start_offset region_end generation minimum_sequence w)"

text \<open>
  The frames of one transaction: their payload and its checksum, or the index of the first frame that
  does not belong to it, with the payload before it.
\<close>

datatype frame_scan = Complete bytes u32 | Torn nat bytes

definition frame_continues :: "wal_frame_header \<Rightarrow> nat \<Rightarrow> nat \<Rightarrow> wal_frame_header \<Rightarrow> bool" where
  "frame_continues first frame_index payload_offset frame \<longleftrightarrow>
     wf_database_id frame = wf_database_id first \<and> wf_wal_generation frame = wf_wal_generation first \<and>
     wf_transaction_sequence frame = wf_transaction_sequence first \<and> unat (wf_frame_index frame) = frame_index \<and>
     wf_frame_count frame = wf_frame_count first \<and> wf_mutation_count frame = wf_mutation_count first \<and>
     wf_transaction_payload_size frame = wf_transaction_payload_size first \<and>
     wf_transaction_checksum frame = wf_transaction_checksum first \<and>
     unat (wf_payload_size frame) \<le> unat (wf_transaction_payload_size first) - payload_offset"

fun read_wal_frames ::
  "config \<Rightarrow> 'd block_device \<Rightarrow> u32 \<Rightarrow> nat \<Rightarrow> wal_frame_header \<Rightarrow> nat list \<Rightarrow> bytes \<Rightarrow> u32 \<Rightarrow> 'd world \<Rightarrow> esp_err + frame_scan" where
  "read_wal_frames cfg dev slot offset first [] payload transaction_crc w = Inr (Complete payload transaction_crc)"
| "read_wal_frames cfg dev slot offset first (frame_index # frame_indices) payload transaction_crc w =
     (case read_store cfg dev kind_wal slot (of_nat (offset + frame_index * wal_frame_size)) wal_frame_size w of
        Inl e \<Rightarrow> Inl e
      | Inr io_frame \<Rightarrow>
          (case decode_wal_frame io_frame of
             Inl status \<Rightarrow>
               if version_status status then Inl ESP_ERR_INVALID_VERSION else Inr (Torn frame_index payload)
           | Inr (frame, part) \<Rightarrow>
               if \<not> frame_continues first frame_index (length payload) frame then Inr (Torn frame_index payload)
               else
                 read_wal_frames cfg dev slot offset first frame_indices (payload @ part)
                   (calc_crc32_update transaction_crc part) w))"

text \<open>The reservation of the value bank follows the external values of the recovered transactions.\<close>

definition recover_value_tail :: "config \<Rightarrow> mutation_slot \<Rightarrow> db \<Rightarrow> esp_err \<times> db" where
  "recover_value_tail cfg m s =
     (let manifest = db_manifest s; r = mu_external_value_ref m; bank = ucast (vr_bank_slot r) :: u32;
          end_at = ucast (vr_first_chunk_offset r) + chunk_count_of (vr_value_size r) * of_nat value_chunk_size :: u64 in
      if \<not> mu_external_value m then (ESP_OK, s)
      else if bank \<noteq> mr_active_value_bank manifest \<or>
              end_at > ucast (sg_value_bank_size (mr_geometry manifest)) \<or>
              \<not> value_ref_matches_bank cfg (mr_geometry manifest) r bank
                  (mr_value_bank_generation manifest ! unat bank) (sg_value_bank_size (mr_geometry manifest))
      then (ESP_ERR_INVALID_CRC, s)
      else if end_at > ucast (mr_value_bank_tail manifest ! unat bank)
      then (ESP_OK, s\<lparr>db_manifest := manifest\<lparr>mr_value_bank_tail := (mr_value_bank_tail manifest)[unat bank := ucast end_at]\<rparr>\<rparr>)
      else (ESP_OK, s))"

fun recover_value_tails :: "config \<Rightarrow> mutation_slot list \<Rightarrow> db \<Rightarrow> esp_err \<times> db" where
  "recover_value_tails cfg [] s = (ESP_OK, s)"
| "recover_value_tails cfg (m # ms) s = on_ok (recover_value_tail cfg m s) (recover_value_tails cfg ms)"

text \<open>Replay a complete transaction whose payload is at the start of the staging area.\<close>

definition replay_transaction ::
  "config \<Rightarrow> 'd block_device \<Rightarrow> bytes \<Rightarrow> u16 \<Rightarrow> u64 \<Rightarrow> 'd world \<Rightarrow> esp_err \<times> 'd world" where
  "replay_transaction cfg dev payload mutation_count sequence w =
     on_value (parse_recovered_transaction cfg (mr_geometry (db_manifest (snd w))) payload mutation_count) w
       (\<lambda>(namespace_name, t).
       case recover_value_tails cfg (used_mutations t) ((snd w)\<lparr>db_transaction := t\<rparr>) of
         (ret, s) \<Rightarrow>
           if ret \<noteq> ESP_OK then (ret, fst w, s)
           else
             (case preflight_memtable_transaction cfg s (lookup_tables cfg dev (fst w, s)) t namespace_name of
                (Inl e, t) \<Rightarrow> (e, fst w, s\<lparr>db_transaction := t\<rparr>)
              | (Inr _, t) \<Rightarrow>
                  (case ensure_namespace_capacity cfg (s\<lparr>db_transaction := t\<rparr>) namespace_name True of
                     (Inl e, s) \<Rightarrow> (e, fst w, s)
                   | (Inr namespace_index, s) \<Rightarrow>
                       (case apply_transaction_to_memtable cfg t namespace_index sequence s of
                          (ret, s) \<Rightarrow> (ret, fst w, if ret = ESP_OK then clear_transaction cfg s else s)))))"

definition stage_recovered :: "bytes \<Rightarrow> 'd world \<Rightarrow> 'd world" where
  "stage_recovered payload =
     update_db (\<lambda>s. s\<lparr>db_transaction_staging := put (db_transaction_staging s) 0 payload\<rparr>)"

text \<open>The end of the log is at \<open>offset\<close>, unless a later frame proves that something is missing.\<close>

definition end_wal_scan ::
  "config \<Rightarrow> 'd block_device \<Rightarrow> u32 \<Rightarrow> nat \<Rightarrow> nat \<Rightarrow> u64 \<Rightarrow> u64 \<Rightarrow> nat \<Rightarrow> 'd world \<Rightarrow> (esp_err + u64) \<times> 'd world" where
  "end_wal_scan cfg dev slot later_offset region_end generation expected_sequence offset w =
     (case find_later_wal_frame cfg dev slot later_offset region_end generation expected_sequence w of
        Inl e \<Rightarrow> (Inl e, w)
      | Inr later_valid \<Rightarrow>
          if later_valid then (Inl ESP_ERR_INVALID_CRC, w)
          else (Inr expected_sequence, set_wal_tail slot (of_nat offset) w))"

definition wal_start_invalid :: "config \<Rightarrow> u64 \<Rightarrow> nat \<Rightarrow> nat \<Rightarrow> wal_frame_header \<Rightarrow> bool" where
  "wal_start_invalid cfg expected_sequence offset region_end first \<longleftrightarrow>
     wf_transaction_sequence first \<noteq> expected_sequence \<or> wf_frame_index first \<noteq> 0 \<or> wf_frame_count first = 0 \<or>
     wf_transaction_payload_size first > max_transaction_payload_size cfg \<or>
     unat (wf_frame_count first) * wal_frame_size > region_end - offset"

lemma wal_scan_progress:
  assumes "offset + wal_frame_size \<le> region_end" "\<not> wal_start_invalid cfg expected_sequence offset region_end first"
  shows "region_end - (offset + unat (wf_frame_count first) * wal_frame_size) < region_end - offset"
proof -
  have "wf_frame_count first \<noteq> 0" using assms(2) by (simp add: wal_start_invalid_def)
  then have "0 < unat (wf_frame_count first)" by (simp add: unat_gt_0)
  then have "0 < unat (wf_frame_count first) * wal_frame_size" by (simp add: format_consts)
  then show ?thesis using assms(1) by (simp add: format_consts)
qed

text \<open>
  The loop over the transactions of a slot. The result is the next expected sequence; the tail of the
  slot is set to the end of the last complete transaction.
\<close>

function scan_wal_transactions ::
  "config \<Rightarrow> 'd block_device \<Rightarrow> u32 \<Rightarrow> nat \<Rightarrow> nat \<Rightarrow> u64 \<Rightarrow> u64 \<Rightarrow> 'd world \<Rightarrow> (esp_err + u64) \<times> 'd world" where
  "scan_wal_transactions cfg dev slot offset region_end generation expected_sequence w =
     (if \<not> offset + wal_frame_size \<le> region_end then (Inr expected_sequence, set_wal_tail slot (of_nat offset) w)
      else
        (case read_store cfg dev kind_wal slot (of_nat offset) wal_frame_size w of
           Inl e \<Rightarrow> (Inl e, w)
         | Inr io_frame \<Rightarrow>
             (case decode_wal_frame io_frame of
                Inl status \<Rightarrow>
                  if version_status status then (Inl ESP_ERR_INVALID_VERSION, w)
                  else end_wal_scan cfg dev slot (offset + wal_frame_size) region_end generation expected_sequence offset w
              | Inr (first, _) \<Rightarrow>
                  if wf_database_id first \<noteq> mr_database_id (db_manifest (snd w)) \<or> wf_wal_generation first \<noteq> generation
                  then end_wal_scan cfg dev slot (offset + wal_frame_size) region_end generation expected_sequence offset w
                  else if wal_start_invalid cfg expected_sequence offset region_end first then (Inl ESP_ERR_INVALID_CRC, w)
                  else
                    (case read_wal_frames cfg dev slot offset first [0..<unat (wf_frame_count first)] [] (- 1) w of
                       Inl e \<Rightarrow> (Inl e, w)
                     | Inr (Torn frame_index payload) \<Rightarrow>
                         end_wal_scan cfg dev slot (offset + (frame_index + 1) * wal_frame_size) region_end generation
                           expected_sequence offset (stage_recovered payload w)
                     | Inr (Complete payload transaction_crc) \<Rightarrow>
                         let w = stage_recovered payload w;
                             next_offset = offset + unat (wf_frame_count first) * wal_frame_size in
                         if length payload \<noteq> unat (wf_transaction_payload_size first) \<or>
                            NOT transaction_crc \<noteq> wf_transaction_checksum first
                         then end_wal_scan cfg dev slot next_offset region_end generation expected_sequence offset w
                         else
                           (case (if expected_sequence > mr_safe_checkpoint_sequence (db_manifest (snd w))
                                  then replay_transaction cfg dev payload (wf_mutation_count first) expected_sequence w
                                  else (ESP_OK, w)) of
                              (ret, w) \<Rightarrow>
                                if ret \<noteq> ESP_OK then (Inl ret, w)
                                else
                                  let w = update_db (\<lambda>s. s\<lparr>db_stats := (db_stats s)\<lparr>st_wal_bytes_used :=
                                        st_wal_bytes_used (db_stats s) + of_nat (next_offset - offset)\<rparr>\<rparr>) w in
                                  if expected_sequence + 1 = 0 then (Inl ESP_ERR_INVALID_STATE, w)
                                  else
                                    scan_wal_transactions cfg dev slot next_offset region_end generation
                                      (expected_sequence + 1) w)))))"
  by pat_completeness auto
termination
  by (relation "measure (\<lambda>(_, _, _, offset, region_end, _). region_end - offset)")
     (auto intro!: wal_scan_progress)

declare scan_wal_transactions.simps [simp del]

definition scan_wal_slot ::
  "config \<Rightarrow> 'd block_device \<Rightarrow> u32 \<Rightarrow> u64 \<Rightarrow> u64 \<Rightarrow> 'd world \<Rightarrow> (esp_err + u64) \<times> 'd world" where
  "scan_wal_slot cfg dev slot generation expected_sequence w =
     (if unat slot \<ge> wal_file_count \<or> generation = 0 \<or> expected_sequence = 0 then (Inl ESP_ERR_INVALID_ARG, w)
      else
        (case load_wal_header cfg dev slot generation w of
           Inl e \<Rightarrow> (Inl e, w)
         | Inr header \<Rightarrow>
             if wh_first_transaction_sequence header \<noteq> expected_sequence then (Inl ESP_ERR_INVALID_CRC, w)
             else
               scan_wal_transactions cfg dev slot (unat (wh_record_region_start header))
                 (unat (wh_record_region_end header)) generation expected_sequence w))"

section \<open>Recovery\<close>

text \<open>The state before the tables and the log are read: no statistics, namespaces or records.\<close>

definition reset_for_recovery :: "config \<Rightarrow> db \<Rightarrow> db" where
  "reset_for_recovery cfg s =
     reset_memtable cfg (s\<lparr>db_stats := empty_stats, db_namespace_count := 0,
       db_namespaces := replicate (unat (cfg_max_namespaces cfg)) \<lparr>ns_used = False, ns_name = []\<rparr>\<rparr>)"

text \<open>The slot the log starts in, if the generations are in order.\<close>

definition first_wal_slot :: "manifest_record \<Rightarrow> esp_err + u32" where
  "first_wal_slot m =
     (let active = mr_active_wal_slot m; older = 1 - active in
      if mr_wal_generation m ! unat older \<noteq> 0 \<and>
         mr_wal_generation m ! unat older \<ge> mr_wal_generation m ! unat active then Inl ESP_ERR_INVALID_CRC
      else Inr (if mr_wal_generation m ! unat older \<noteq> 0 then older else active))"

definition scan_wal_slots ::
  "config \<Rightarrow> 'd block_device \<Rightarrow> u32 \<Rightarrow> u64 \<Rightarrow> 'd world \<Rightarrow> (esp_err + u64) \<times> 'd world" where
  "scan_wal_slots cfg dev first_slot expected_sequence w =
     (let m = db_manifest (snd w); active = mr_active_wal_slot m in
      case scan_wal_slot cfg dev first_slot (mr_wal_generation m ! unat first_slot) expected_sequence w of
        (Inl e, w) \<Rightarrow> (Inl e, w)
      | (Inr expected_sequence, w) \<Rightarrow>
          if first_slot \<noteq> active
          then scan_wal_slot cfg dev active (mr_wal_generation m ! unat active) expected_sequence w
          else (Inr expected_sequence, set_wal_tail (1 - active) (of_nat wal_record_region_offset) w))"

definition recover_wal :: "config \<Rightarrow> 'd block_device \<Rightarrow> 'd world \<Rightarrow> esp_err \<times> 'd world" where
  "recover_wal cfg dev w =
     (let m = db_manifest (snd w) in
      if mr_state m \<noteq> manifest_state_ready \<or> unat (mr_active_wal_slot m) \<ge> wal_file_count \<or>
         mr_wal_generation m ! unat (mr_active_wal_slot m) = 0 then (ESP_ERR_INVALID_CRC, w)
      else
        on_ok (recover_tables cfg dev (update_db (reset_for_recovery cfg) w)) (\<lambda>w.
        let m = db_manifest (snd w) in
        on_value (first_wal_slot m) w (\<lambda>first_slot.
        on_value (load_wal_header cfg dev first_slot (mr_wal_generation m ! unat first_slot) w) w (\<lambda>first_header.
        if mr_safe_checkpoint_sequence m = - 1 \<or>
           wh_first_transaction_sequence first_header > mr_safe_checkpoint_sequence m + 1 then (ESP_ERR_INVALID_CRC, w)
        else
          on_result (scan_wal_slots cfg dev first_slot (wh_first_transaction_sequence first_header) w)
            (\<lambda>expected_sequence w.
              if expected_sequence - 1 < mr_safe_checkpoint_sequence (db_manifest (snd w)) then (ESP_ERR_INVALID_CRC, w)
              else
                stabilize_manifest cfg dev (update_db (\<lambda>s. s\<lparr>db_next_transaction_sequence := expected_sequence,
                  db_stats := (db_stats s)\<lparr>st_committed_transaction_count := expected_sequence - 1\<rparr>\<rparr>) w))))))"

end
