(* ===== verification/Api.thy ===== *)
theory Api
  imports Wal_Log
begin

text \<open>
  The public operations (\<open>on9kvdb_api.cpp\<close>, \<open>on9kvdb_value.cpp\<close>): handles, transactions, staged and
  streamed values, commit and statistics. Each is one guarded step under the operation lock.
\<close>

section \<open>Handles\<close>

definition open_handle ::
  "config \<Rightarrow> bytes \<Rightarrow> open_mode \<Rightarrow> 'd world \<Rightarrow> (esp_err + u64) \<times> 'd world" where
  "open_handle cfg namespace_name mode w =
     (if \<not> valid_name namespace_name then (Inl ESP_ERR_INVALID_ARG, w)
      else under_lock_result (\<lambda>w.
        let found = find_namespace cfg (snd w) namespace_name;
            found = (if found = Inl ESP_ERR_NOT_FOUND \<and> mode = read_write
              then fst (ensure_namespace_capacity cfg (snd w) namespace_name False) else found) in
        case found of
          Inl e \<Rightarrow> (Inl e, w)
        | Inr _ \<Rightarrow>
            (case find (\<lambda>idx. \<not> hs_used (db_handles (snd w) ! idx)) [0..<unat (cfg_max_open_handles cfg)] of
               None \<Rightarrow> (Inl ESP_ERR_NO_MEM, w)
             | Some idx \<Rightarrow>
                 if db_handle_generation_counter (snd w) = 0 then (Inl ESP_ERR_INVALID_STATE, w)
                 else
                   (case take_handle_generation (snd w) of (generation, s) \<Rightarrow>
                     (Inr (make_handle_value (of_nat idx) generation),
                      fst w, s\<lparr>db_handles := (db_handles s)[idx := \<lparr>hs_generation = generation, hs_used = True,
                        hs_transaction_active = False, hs_mode = mode, hs_namespace_name = namespace_name\<rparr>]\<rparr>)))) w)"

definition close_handle :: "config \<Rightarrow> u64 \<Rightarrow> 'd world \<Rightarrow> esp_err \<times> 'd world" where
  "close_handle cfg raw = under_lock (\<lambda>w.
     on_value (get_handle_slot cfg (snd w) raw) w (\<lambda>idx.
       let slot = db_handles (snd w) ! unat idx in
       if hs_transaction_active slot then (ESP_ERR_INVALID_STATE, w)
       else (ESP_OK, update_db (\<lambda>s. s\<lparr>db_handles := (db_handles s)[unat idx :=
              empty_handle\<lparr>hs_generation := hs_generation slot\<rparr>]\<rparr>) w)))"

section \<open>Transactions\<close>

definition begin_transaction :: "config \<Rightarrow> u64 \<Rightarrow> 'd world \<Rightarrow> (esp_err + u64) \<times> 'd world" where
  "begin_transaction cfg raw = under_lock_result (\<lambda>w.
     let s = snd w in
     case get_handle_slot cfg s raw of
       Inl e \<Rightarrow> (Inl e, w)
     | Inr idx \<Rightarrow>
         let handle = db_handles s ! unat idx; generation = db_transaction_generation_counter s in
         if hs_mode handle \<noteq> read_write then (Inl ESP_ERR_NOT_ALLOWED, w)
         else if tx_active (db_transaction s) \<or> hs_transaction_active handle \<or> generation = 0
         then (Inl ESP_ERR_INVALID_STATE, w)
         else
           (Inr (make_handle_value 0 generation),
            fst w, s\<lparr>db_transaction_generation_counter := (if generation = max_handle_generation then 0 else generation + 1),
              db_transaction := empty_transaction\<lparr>tx_generation := generation, tx_handle_slot_index := idx,
                tx_handle_generation := hs_generation handle, tx_active := True\<rparr>,
              db_handles := (db_handles s)[unat idx := handle\<lparr>hs_transaction_active := True\<rparr>]\<rparr>))"

definition erase_key :: "config \<Rightarrow> 'd block_device \<Rightarrow> u64 \<Rightarrow> bytes \<Rightarrow> 'd world \<Rightarrow> esp_err \<times> 'd world" where
  "erase_key cfg dev raw key w =
     (if \<not> valid_name key then (ESP_ERR_INVALID_ARG, w)
      else under_lock (\<lambda>w.
        on_value (get_transaction cfg (snd w) raw) w (\<lambda>t.
        on_value (lookup_transaction (snd w) (lookup_committed cfg dev w) t (transaction_handle (snd w)) key) w (\<lambda>current.
          if vv_tombstone current then (ESP_ERR_NOT_FOUND, w)
          else
            (case stage_value cfg raw key [] mutation_kind_tombstone (snd w) of (ret, s) \<Rightarrow> (ret, fst w, s))))) w)"

text \<open>A transaction with an open writer can neither be committed nor aborted.\<close>

definition writer_pending :: "u64 \<Rightarrow> db \<Rightarrow> bool" where
  "writer_pending raw s \<longleftrightarrow>
     ww_active (db_value_writer s) \<and> ww_transaction_handle_raw (db_value_writer s) = raw"

definition abort_transaction :: "config \<Rightarrow> u64 \<Rightarrow> 'd world \<Rightarrow> esp_err \<times> 'd world" where
  "abort_transaction cfg raw = under_lock (\<lambda>w.
     on_value (get_transaction cfg (snd w) raw) w (\<lambda>t.
       if writer_pending raw (snd w) then (ESP_ERR_INVALID_STATE, w)
       else (ESP_OK, update_db (clear_transaction cfg) w)))"

section \<open>Streamed values\<close>

definition value_bank_full :: "db \<Rightarrow> u32 \<Rightarrow> bool" where
  "value_bank_full s value_size \<longleftrightarrow>
     (let m = db_manifest s; bank_size = sg_value_bank_size (mr_geometry m);
          tail = mr_value_bank_tail m ! unat (mr_active_value_bank m);
          required_bytes = chunk_count_of value_size * of_nat value_chunk_size in
      unat tail < identity_region_size \<or> tail > bank_size \<or> required_bytes > ucast (bank_size - tail))"

definition fresh_writer :: "u64 \<Rightarrow> bytes \<Rightarrow> u32 \<Rightarrow> u64 \<Rightarrow> bool \<Rightarrow> db \<Rightarrow> value_writer_slot" where
  "fresh_writer transaction_raw key value_size generation inline s =
     (let m = db_manifest s; bank = mr_active_value_bank m; tail = mr_value_bank_tail m ! unat bank in
      empty_writer\<lparr>ww_generation := generation, ww_transaction_handle_raw := transaction_raw,
        ww_expected_size := value_size, ww_next_chunk_offset := (if inline then 0 else tail), ww_key := key,
        ww_inline_value := inline,
        ww_reference := (if inline then empty_value_ref\<lparr>vr_value_size := value_size\<rparr>
          else empty_value_ref\<lparr>vr_bank_slot := ucast bank, vr_bank_generation := mr_value_bank_generation m ! unat bank,
                 vr_first_chunk_offset := tail, vr_value_size := value_size\<rparr>),
        ww_active := True, ww_buffer := zeroes value_chunk_size\<rparr>)"

definition begin_value_write_unsafe ::
  "config \<Rightarrow> 'd block_device \<Rightarrow> (u64 \<Rightarrow> u64) \<Rightarrow> u64 \<Rightarrow> bytes \<Rightarrow> u32 \<Rightarrow> 'd world \<Rightarrow> (esp_err + u64) \<times> 'd world" where
  "begin_value_write_unsafe cfg dev clock raw key value_size w =
     (if \<not> valid_name key \<or> value_size > max_value_len then (Inl ESP_ERR_INVALID_ARG, w)
      else
        (case get_transaction cfg (snd w) raw of
           Inl e \<Rightarrow> (Inl e, w)
         | Inr _ \<Rightarrow>
             if ww_active (db_value_writer (snd w)) \<or> db_handle_generation_counter (snd w) = 0 \<or>
                unat (mr_active_value_bank (db_manifest (snd w))) \<ge> value_bank_count then (Inl ESP_ERR_INVALID_STATE, w)
             else
               let inline = (value_size \<le> cfg_inline_value_size cfg) in
               (case (if \<not> inline \<and> value_bank_full (snd w) value_size then
                        on_ok (compact_tables cfg dev clock w)
                          (\<lambda>w. (if value_bank_full (snd w) value_size then ESP_ERR_NO_MEM else ESP_OK, w))
                      else (ESP_OK, w)) of
                  (ret, w) \<Rightarrow>
                    if ret \<noteq> ESP_OK then (Inl ret, w)
                    else
                      (case take_handle_generation (snd w) of (generation, s) \<Rightarrow>
                        (Inr (make_handle_value 0 generation),
                         set_writer (fresh_writer raw key value_size generation inline s) (fst w, s))))))"

definition finish_value_write_unsafe :: "config \<Rightarrow> 'd world \<Rightarrow> esp_err \<times> 'd world" where
  "finish_value_write_unsafe cfg w =
     (let writer = db_value_writer (snd w) in
      if \<not> ww_active writer \<or> ww_written_size writer \<noteq> ww_expected_size writer \<or> ww_chunk_payload_size writer \<noteq> 0
      then (ESP_ERR_INVALID_STATE, w)
      else
        let reference = (ww_reference writer)\<lparr>vr_value_checksum := NOT (ucast (ww_checksum_state writer))\<rparr>;
            bank = unat (vr_bank_slot reference);
            (ret, s) =
              (if ww_inline_value writer
               then stage_value cfg (ww_transaction_handle_raw writer) (ww_key writer)
                      (get (ww_buffer writer) 0 (unat (ww_expected_size writer))) mutation_kind_set (snd w)
               else stage_external_value cfg (ww_transaction_handle_raw writer) (ww_key writer) reference (snd w));
            s = (if ret = ESP_OK \<and> \<not> ww_inline_value writer
              then s\<lparr>db_manifest := (db_manifest s)\<lparr>mr_value_bank_tail :=
                       (mr_value_bank_tail (db_manifest s))[bank := ww_next_chunk_offset writer]\<rparr>,
                     db_value_bank_dirty_mask := db_value_bank_dirty_mask s OR push_bit bank 1\<rparr> else s) in
        (ret, set_writer (clear_writer writer) (fst w, s)))"

definition begin_value_write ::
  "config \<Rightarrow> 'd block_device \<Rightarrow> (u64 \<Rightarrow> u64) \<Rightarrow> u64 \<Rightarrow> bytes \<Rightarrow> u32 \<Rightarrow> 'd world \<Rightarrow> (esp_err + u64) \<times> 'd world" where
  "begin_value_write cfg dev clock raw key value_size =
     under_lock_result (begin_value_write_unsafe cfg dev clock raw key value_size)"

definition finish_value_write :: "config \<Rightarrow> u64 \<Rightarrow> 'd world \<Rightarrow> esp_err \<times> 'd world" where
  "finish_value_write cfg raw = under_lock (\<lambda>w.
     on_value (get_value_writer (snd w) raw) w (\<lambda>writer. finish_value_write_unsafe cfg w))"

text \<open>A value beyond the inline limit goes through the one writer of the instance.\<close>

definition set_external_value ::
  "config \<Rightarrow> 'd block_device \<Rightarrow> (u64 \<Rightarrow> u64) \<Rightarrow> u64 \<Rightarrow> bytes \<Rightarrow> bytes \<Rightarrow> 'd world \<Rightarrow> esp_err \<times> 'd world" where
  "set_external_value cfg dev clock raw key val w =
     (case on_result (begin_value_write_unsafe cfg dev clock raw key (of_nat (length val)) w)
             (\<lambda>_ w. on_ok (write_value_bytes cfg dev val w) (finish_value_write_unsafe cfg)) of
        (ret, w) \<Rightarrow>
          (ret, if ret \<noteq> ESP_OK \<and> ww_active (db_value_writer (snd w))
                then set_writer (clear_writer (db_value_writer (snd w))) w else w))"

definition set_value ::
  "config \<Rightarrow> 'd block_device \<Rightarrow> (u64 \<Rightarrow> u64) \<Rightarrow> u64 \<Rightarrow> bytes \<Rightarrow> bytes \<Rightarrow> 'd world \<Rightarrow> esp_err \<times> 'd world" where
  "set_value cfg dev clock raw key val w =
     (if \<not> valid_name key \<or> length val > unat max_value_len then (ESP_ERR_INVALID_ARG, w)
      else under_lock (\<lambda>w.
        if length val \<le> unat (cfg_inline_value_size cfg)
        then (case stage_value cfg raw key val mutation_kind_set (snd w) of (ret, s) \<Rightarrow> (ret, fst w, s))
        else set_external_value cfg dev clock raw key val w) w)"

definition open_value ::
  "config \<Rightarrow> 'd block_device \<Rightarrow> u64 \<Rightarrow> bytes \<Rightarrow> 'd world \<Rightarrow> (esp_err + u64) \<times> 'd world" where
  "open_value cfg dev raw key w =
     (if \<not> valid_name key then (Inl ESP_ERR_INVALID_ARG, w)
      else under_lock_result (\<lambda>w.
        case then_read (get_handle_slot cfg (snd w) raw)
               (\<lambda>idx. lookup_committed cfg dev w (hs_namespace_name (db_handles (snd w) ! unat idx)) key) of
          Inl e \<Rightarrow> (Inl e, w)
        | Inr view \<Rightarrow> open_value_unsafe cfg view w) w)"

section \<open>Commit\<close>

text \<open>The preflight of the current transaction, which keeps what it finds in the transaction.\<close>

definition preflight_current ::
  "config \<Rightarrow> 'd block_device \<Rightarrow> bytes \<Rightarrow> 'd world \<Rightarrow> esp_err \<times> 'd world" where
  "preflight_current cfg dev namespace_name w =
     (case preflight_memtable_transaction cfg (snd w) (lookup_tables cfg dev w) (db_transaction (snd w)) namespace_name of
        (result, t) \<Rightarrow>
          (case result of Inl e \<Rightarrow> e | Inr _ \<Rightarrow> ESP_OK, update_db (\<lambda>s. s\<lparr>db_transaction := t\<rparr>) w))"

definition preflight_or_flush ::
  "config \<Rightarrow> 'd block_device \<Rightarrow> (u64 \<Rightarrow> u64) \<Rightarrow> bytes \<Rightarrow> 'd world \<Rightarrow> esp_err \<times> 'd world" where
  "preflight_or_flush cfg dev clock namespace_name w =
     (case preflight_current cfg dev namespace_name w of
        (ret, w) \<Rightarrow>
          if ret = ESP_ERR_NO_MEM \<and> db_memtable_entry_count (snd w) > 0
          then on_ok (flush_memtable cfg dev clock w) (preflight_current cfg dev namespace_name)
          else (ret, w))"

definition sync_dirty_banks :: "'d block_device \<Rightarrow> 'd world \<Rightarrow> esp_err \<times> 'd world" where
  "sync_dirty_banks dev w =
     (if db_value_bank_dirty_mask (snd w) = 0 then (ESP_OK, w)
      else on_ok (sync_store dev w) (\<lambda>w. (ESP_OK, update_db (\<lambda>s. s\<lparr>db_value_bank_dirty_mask := 0\<rparr>) w)))"

text \<open>Publish the durable transaction in the memtable.\<close>

definition publish_transaction :: "config \<Rightarrow> bytes \<Rightarrow> 'd world \<Rightarrow> esp_err \<times> 'd world" where
  "publish_transaction cfg namespace_name w =
     (case ensure_namespace_capacity cfg (snd w) namespace_name True of
        (Inl e, s) \<Rightarrow> (e, fst w, s)
      | (Inr namespace_index, s) \<Rightarrow>
          (case apply_transaction_to_memtable cfg (db_transaction s) namespace_index (db_next_transaction_sequence s) s of
             (ret, s) \<Rightarrow>
               (ret, fst w,
                if ret = ESP_OK
                then clear_transaction cfg (s\<lparr>db_next_transaction_sequence := db_next_transaction_sequence s + 1\<rparr>) else s)))"

text \<open>An error after the WAL record is durable is latched until the next recovery.\<close>

definition latch_fault :: "config \<Rightarrow> esp_err \<times> 'd world \<Rightarrow> esp_err \<times> 'd world" where
  "latch_fault cfg r =
     (case r of (ret, w) \<Rightarrow>
        (ret, if ret = ESP_OK then w
              else update_db (\<lambda>s. clear_transaction cfg (s\<lparr>db_storage_faulted := True\<rparr>)) w))"

definition commit_mutations ::
  "config \<Rightarrow> 'd block_device \<Rightarrow> (u64 \<Rightarrow> u64) \<Rightarrow> handle_slot \<Rightarrow> 'd world \<Rightarrow> esp_err \<times> 'd world" where
  "commit_mutations cfg dev clock handle w =
     on_ok (preflight_or_flush cfg dev clock (hs_namespace_name handle) w) (\<lambda>w.
     on_ok (sync_dirty_banks dev w) (\<lambda>w.
     on_ok (append_transaction cfg dev clock handle w) (\<lambda>w.
       latch_fault cfg (publish_transaction cfg (hs_namespace_name handle) w))))"

definition commit_transaction ::
  "config \<Rightarrow> 'd block_device \<Rightarrow> (u64 \<Rightarrow> u64) \<Rightarrow> u64 \<Rightarrow> 'd world \<Rightarrow> esp_err \<times> 'd world" where
  "commit_transaction cfg dev clock raw = under_lock (\<lambda>w.
     on_value (get_transaction cfg (snd w) raw) w (\<lambda>t.
       if writer_pending raw (snd w) then (ESP_ERR_INVALID_STATE, w)
       else if tx_mutation_count t = 0 then (ESP_OK, update_db (clear_transaction cfg) w)
       else commit_mutations cfg dev clock (transaction_handle (snd w)) w))"

section \<open>Statistics\<close>

text \<open>\<open>memory_bytes\<close> and \<open>scratch_bytes\<close> are the sizes of the allocations, which are not modelled.\<close>

definition get_stats :: "u64 \<Rightarrow> u64 \<Rightarrow> db \<Rightarrow> esp_err + db_stats" where
  "get_stats memory_bytes scratch_bytes s =
     (let m = db_manifest s; g = mr_geometry m;
          wals = filter (\<lambda>slot. mr_wal_generation m ! slot \<noteq> 0) [0..<wal_file_count] in
      require_that (diagnostics_allowed s) ESP_ERR_INVALID_STATE
        (Inr ((db_stats s)\<lparr>
           st_logical_state_capacity_bytes := sg_max_live_bytes g,
           st_provisioned_database_bytes := sg_provisioned_size g,
           st_runtime_memory_bytes := memory_bytes,
           st_runtime_scratch_bytes := scratch_bytes,
           st_manifest_generation := mr_generation m,
           st_safe_checkpoint_sequence := mr_safe_checkpoint_sequence m,
           st_valid_manifest_copy_count := db_manifest_valid_copy_count s,
           st_active_table_bank := mr_active_table_bank m,
           st_active_wal_slot := mr_active_wal_slot m,
           st_manifest_stabilization_required := db_manifest_stabilization_required s,
           st_storage_faulted := db_storage_faulted s,
           st_active_table_count := st_active_table_count (db_stats s) +
             of_nat (length (active_slots s 0 (unat (sg_table_count g)))),
           st_referenced_wal_count := st_referenced_wal_count (db_stats s) + of_nat (length wals),
           st_wal_record_capacity_bytes := st_wal_record_capacity_bytes (db_stats s) +
             of_nat (length wals) * ucast (sg_wal_size g - of_nat wal_record_region_offset)\<rparr>)))"

end
