(* ===== verification/Provisioning.thy ===== *)
theory Provisioning
  imports Api
begin

text \<open>
  The start of an instance (\<open>on9kvdb_manifest.cpp\<close>, \<open>on9kvdb.cpp\<close>): a blank range becomes a new
  database, an interrupted provisioning is taken up again, and a ready database is recovered. The
  random database id is drawn from a stream of random words; the memory the instance gets is a
  parameter, as the sizes of its C++ structs are.
\<close>

section \<open>The manifest at start\<close>

text \<open>The loop that draws a database id; it ends at the first pair of words that is not zero.\<close>

partial_function (option) draw_database_id :: "(nat \<Rightarrow> u32) \<Rightarrow> nat \<Rightarrow> u64 option" where
  [code]: "draw_database_id random n =
     (let database_id = push_bit 32 (ucast (random n)) OR ucast (random (n + 1)) in
      if database_id \<noteq> 0 then Some database_id else draw_database_id random (n + 2))"

definition set_valid_copies :: "nat \<Rightarrow> 'd world \<Rightarrow> 'd world" where
  "set_valid_copies n = update_db (\<lambda>s. s\<lparr>db_manifest_valid_copy_count := of_nat n\<rparr>)"

definition new_manifest :: "config \<Rightarrow> u64 \<Rightarrow> manifest_record" where
  "new_manifest cfg database_id = empty_manifest\<lparr>
     mr_database_id := database_id, mr_geometry := get_build_geometry cfg, mr_limits := get_build_limits cfg,
     mr_active_wal_slot := 0, mr_active_value_bank := 0,
     mr_value_bank_generation := replicate value_bank_count 1,
     mr_value_bank_tail := replicate value_bank_count (of_nat identity_region_size)\<rparr>"

definition create_manifest :: "config \<Rightarrow> 'd block_device \<Rightarrow> u64 \<Rightarrow> 'd world \<Rightarrow> esp_err \<times> 'd world" where
  "create_manifest cfg dev database_id w =
     on_ok (write_manifest_copy cfg dev 1 manifest_state_provisioning_owned
              (set_valid_copies 0 (update_db (\<lambda>s. s\<lparr>db_manifest := new_manifest cfg database_id\<rparr>) w))) (\<lambda>w.
     on_ok (write_manifest_copy cfg dev 2 manifest_state_provisioning_owned (set_valid_copies 1 w)) (\<lambda>w.
       (ESP_OK, set_valid_copies 2 w)))"

definition open_existing_manifest :: "config \<Rightarrow> 'd block_device \<Rightarrow> 'd world \<Rightarrow> esp_err \<times> 'd world" where
  "open_existing_manifest cfg dev w =
     on_ok (load_manifest cfg dev w) (\<lambda>w.
       let m = db_manifest (snd w) in
       if \<not> storage_geometry_equal (mr_geometry m) (get_build_geometry cfg) \<or>
          \<not> logical_limits_equal (mr_limits m) (get_build_limits cfg) then (ESP_ERR_INVALID_SIZE, w)
       else if mr_state m = manifest_state_provisioning_owned \<and>
               unat (db_manifest_valid_copy_count (snd w)) < manifest_slot_count then
         if mr_generation m = - 1 then (ESP_ERR_INVALID_CRC, w)
         else
           on_ok (write_manifest_copy cfg dev (mr_generation m + 1) manifest_state_provisioning_owned w)
             (\<lambda>w. (ESP_OK, set_valid_copies manifest_slot_count w))
       else (ESP_OK, w))"

definition setup_manifest :: "config \<Rightarrow> 'd block_device \<Rightarrow> u64 \<Rightarrow> 'd world \<Rightarrow> esp_err \<times> 'd world" where
  "setup_manifest cfg dev database_id w =
     on_value (storage_region_is_blank cfg dev (fst w)) w (\<lambda>blank.
       if blank then create_manifest cfg dev database_id w else open_existing_manifest cfg dev w)"

section \<open>The identities of the data files\<close>

definition identity_matches :: "file_identity \<Rightarrow> file_kind \<Rightarrow> u64 \<Rightarrow> u64 \<Rightarrow> u32 \<Rightarrow> bool" where
  "identity_matches identity kind database_id file_size slot \<longleftrightarrow>
     fi_kind identity = kind \<and> fi_generation identity = 1 \<and> fi_database_id identity = database_id \<and>
     fi_file_size identity = file_size \<and> fi_slot identity = slot"

definition is_data_file_kind :: "file_kind \<Rightarrow> bool" where
  "is_data_file_kind kind \<longleftrightarrow> kind = kind_wal \<or> kind = kind_table \<or> kind = kind_value_bank"

definition data_file_size :: "storage_geometry \<Rightarrow> file_kind \<Rightarrow> u64" where
  "data_file_size geometry kind =
     (if kind = kind_wal then ucast (sg_wal_size geometry)
      else if kind = kind_table then ucast (sg_table_size geometry)
      else if kind = kind_value_bank then ucast (sg_value_bank_size geometry) else 0)"

definition identity_offset :: "nat \<Rightarrow> u64" where
  "identity_offset copy_slot = of_nat copy_slot * of_nat identity_slot_size"

definition write_file_identity_copy ::
  "config \<Rightarrow> 'd block_device \<Rightarrow> file_kind \<Rightarrow> u32 \<Rightarrow> nat \<Rightarrow> 'd world \<Rightarrow> esp_err \<times> 'd world" where
  "write_file_identity_copy cfg dev kind slot copy_slot w =
     (let m = db_manifest (snd w) in
      if copy_slot \<ge> identity_slot_count \<or> \<not> is_data_file_kind kind then (ESP_ERR_INVALID_ARG, w)
      else
        (case encode_file_identity (zeroes identity_slot_size)
                \<lparr>fi_generation = 1, fi_database_id = mr_database_id m,
                 fi_file_size = data_file_size (mr_geometry m) kind, fi_slot = slot, fi_kind = kind\<rparr> of
           None \<Rightarrow> (ESP_ERR_INVALID_STATE, w)
         | Some io_frame \<Rightarrow> write_store cfg dev kind slot (identity_offset copy_slot) io_frame w))"

text \<open>
  Which of the copies are valid; an error leaves the copies not yet read at \<open>False\<close>, as the array of
  the caller is initialised.
\<close>

definition identity_copy_status :: "manifest_record \<Rightarrow> file_kind \<Rightarrow> u32 \<Rightarrow> bytes \<Rightarrow> esp_err + bool" where
  "identity_copy_status m kind slot encoded =
     (case decode_file_identity encoded kind of
        Inl status \<Rightarrow>
          if status = FS_new_version \<or> status = FS_invalid_revision then Inl ESP_ERR_INVALID_VERSION else Inr False
      | Inr identity \<Rightarrow>
          require_that (identity_matches identity kind (mr_database_id m) (data_file_size (mr_geometry m) kind) slot)
            ESP_ERR_INVALID_CRC (Inr True))"

fun load_identity_copies ::
  "config \<Rightarrow> 'd block_device \<Rightarrow> file_kind \<Rightarrow> u32 \<Rightarrow> nat list \<Rightarrow> 'd world \<Rightarrow> esp_err \<times> bool list" where
  "load_identity_copies cfg dev kind slot [] w = (ESP_OK, [])"
| "load_identity_copies cfg dev kind slot (copy_slot # copy_slots) w =
     (case then_read (read_store cfg dev kind slot (identity_offset copy_slot) file_identity_size w)
             (identity_copy_status (db_manifest (snd w)) kind slot) of
        Inl e \<Rightarrow> (e, replicate (length copy_slots + 1) False)
      | Inr valid \<Rightarrow>
          (case load_identity_copies cfg dev kind slot copy_slots w of
             (ret, valid_copies) \<Rightarrow> (ret, valid # valid_copies)))"

definition load_file_identity ::
  "config \<Rightarrow> 'd block_device \<Rightarrow> file_kind \<Rightarrow> u32 \<Rightarrow> 'd world \<Rightarrow> esp_err \<times> bool list" where
  "load_file_identity cfg dev kind slot w =
     (if \<not> is_data_file_kind kind then (ESP_ERR_INVALID_ARG, replicate identity_slot_count False)
      else
        (case load_identity_copies cfg dev kind slot [0..<identity_slot_count] w of
           (ret, valid_copies) \<Rightarrow>
             (if ret = ESP_OK \<and> True \<notin> set valid_copies then ESP_ERR_NOT_FOUND else ret, valid_copies)))"

section \<open>Provisioning\<close>

fun write_zero_slots ::
  "config \<Rightarrow> 'd block_device \<Rightarrow> u32 \<Rightarrow> u64 list \<Rightarrow> 'd world \<Rightarrow> esp_err \<times> 'd world" where
  "write_zero_slots cfg dev slot [] w = (ESP_OK, w)"
| "write_zero_slots cfg dev slot (offset # offsets) w =
     on_ok (write_store cfg dev kind_table slot offset (zeroes table_header_slot_size) w)
       (write_zero_slots cfg dev slot offsets)"

text \<open>Zero publication markers for a table slot: its headers and its footer.\<close>

definition clear_table_markers :: "config \<Rightarrow> 'd block_device \<Rightarrow> u32 \<Rightarrow> 'd world \<Rightarrow> esp_err \<times> 'd world" where
  "clear_table_markers cfg dev slot w =
     on_ok (write_zero_slots cfg dev slot
              (map (\<lambda>copy. of_nat table_header_region_offset + of_nat copy * of_nat table_header_slot_size)
                 [0..<table_header_slot_count] @ [ucast (table_footer_offset (snd w))]) w)
       (sync_store dev)"

fun write_missing_identities ::
  "config \<Rightarrow> 'd block_device \<Rightarrow> file_kind \<Rightarrow> u32 \<Rightarrow> (nat \<times> bool) list \<Rightarrow> 'd world \<Rightarrow> esp_err \<times> 'd world" where
  "write_missing_identities cfg dev kind slot [] w = (ESP_OK, w)"
| "write_missing_identities cfg dev kind slot ((copy_slot, valid) # copies) w =
     (if valid then write_missing_identities cfg dev kind slot copies w
      else on_ok (write_file_identity_copy cfg dev kind slot copy_slot w)
             (write_missing_identities cfg dev kind slot copies))"

definition provision_one_data_file ::
  "config \<Rightarrow> 'd block_device \<Rightarrow> file_kind \<Rightarrow> u32 \<Rightarrow> 'd world \<Rightarrow> esp_err \<times> 'd world" where
  "provision_one_data_file cfg dev kind slot w =
     (let owned = (mr_state (db_manifest (snd w)) = manifest_state_provisioning_owned);
          (ret, valid_copies) = load_file_identity cfg dev kind slot w;
          ret = (if ret = ESP_ERR_NOT_FOUND then (if owned then ESP_OK else ESP_ERR_INVALID_CRC) else ret) in
      if ret \<noteq> ESP_OK then (ret, w)
      else if \<not> owned then (ESP_OK, w)
      else
        on_ok (if kind = kind_table then clear_table_markers cfg dev slot w else (ESP_OK, w)) (\<lambda>w.
        on_ok (write_missing_identities cfg dev kind slot (enumerate 0 valid_copies) w) (\<lambda>w.
        on_ok (sync_store dev w) (\<lambda>w.
          case load_file_identity cfg dev kind slot w of
            (ret, final_copies) \<Rightarrow>
              (if ret = ESP_OK \<and> False \<in> set final_copies then ESP_ERR_INVALID_CRC else ret, w)))))"

fun provision_data_files ::
  "config \<Rightarrow> 'd block_device \<Rightarrow> (file_kind \<times> nat) list \<Rightarrow> 'd world \<Rightarrow> esp_err \<times> 'd world" where
  "provision_data_files cfg dev [] w = (ESP_OK, w)"
| "provision_data_files cfg dev ((kind, slot) # files) w =
     on_ok (provision_one_data_file cfg dev kind (of_nat slot) w) (provision_data_files cfg dev files)"

definition data_files :: "storage_geometry \<Rightarrow> (file_kind \<times> nat) list" where
  "data_files g =
     map (Pair kind_wal) [0..<unat (sg_wal_count g)] @ map (Pair kind_table) [0..<unat (sg_table_count g)] @
     map (Pair kind_value_bank) [0..<unat (sg_value_bank_count g)]"

text \<open>The step from an owned to a ready database: the first WAL, then the ready manifest in both slots.\<close>

definition ready_manifest :: "manifest_record \<Rightarrow> manifest_record" where
  "ready_manifest m = m\<lparr>mr_active_wal_slot := 0, mr_wal_generation := (mr_wal_generation m)[0 := 1, 1 := 0],
     mr_safe_checkpoint_sequence := 0\<rparr>"

definition provision_all_data_files :: "config \<Rightarrow> 'd block_device \<Rightarrow> 'd world \<Rightarrow> esp_err \<times> 'd world" where
  "provision_all_data_files cfg dev w =
     on_ok (provision_data_files cfg dev (data_files (mr_geometry (db_manifest (snd w)))) w) (\<lambda>w.
       let m = db_manifest (snd w) in
       if mr_state m = manifest_state_ready then (ESP_OK, w)
       else if mr_state m \<noteq> manifest_state_provisioning_owned \<or> mr_generation m = - 1 then (ESP_ERR_INVALID_CRC, w)
       else
         on_ok (initialise_first_wal cfg dev w) (\<lambda>w.
         on_ok (write_manifest_copy cfg dev (mr_generation (db_manifest (snd w)) + 1) manifest_state_ready
                  (update_db (\<lambda>s. s\<lparr>db_manifest := ready_manifest (db_manifest s)\<rparr>) w)) (\<lambda>w.
           stabilize_manifest cfg dev (update_db (\<lambda>s. s\<lparr>db_manifest_stabilization_required := True\<rparr>) w))))"

definition initialise_storage :: "config \<Rightarrow> 'd block_device \<Rightarrow> u64 \<Rightarrow> 'd world \<Rightarrow> esp_err \<times> 'd world" where
  "initialise_storage cfg dev database_id w =
     on_ok (setup_manifest cfg dev database_id w) (provision_all_data_files cfg dev)"

section \<open>Lifecycle\<close>

text \<open>What the allocation of the runtime memory yields: an error, or whether the index cache fits.\<close>

datatype allocation = Refused esp_err | Allocated bool

text \<open>
  The state after the allocation, and, without the arrays nobody may read, after the shutdown. The
  counters the tokens are made from are members of the object and survive.
\<close>

definition fresh_runtime :: "config \<Rightarrow> bool \<Rightarrow> db \<Rightarrow> db" where
  "fresh_runtime cfg index_cache s = (initial_db cfg)\<lparr>
     db_table_index_cache := (if index_cache then db_table_index_cache (initial_db cfg) else []),
     db_handle_generation_counter := db_handle_generation_counter s,
     db_transaction_generation_counter := db_transaction_generation_counter s\<rparr>"

definition init_args_invalid :: "config \<Rightarrow> 'd block_device \<Rightarrow> u64 \<Rightarrow> bool" where
  "init_args_invalid cfg dev block_count \<longleftrightarrow>
     (let geometry = get_build_geometry cfg; block_size = bd_block_size dev in
      \<not> validate_compaction_capacity cfg geometry (get_build_limits cfg) \<or> block_size = 0 \<or>
      unat block_size > format_alignment \<or> format_alignment mod unat block_size \<noteq> 0 \<or>
      unat (sg_provisioned_size geometry) mod unat block_size \<noteq> 0 \<or>
      unat block_count < unat (sg_provisioned_size geometry) div unat block_size)"

definition init_instance ::
  "config \<Rightarrow> 'd block_device \<Rightarrow> u64 \<Rightarrow> allocation \<Rightarrow> u64 \<Rightarrow> 'd world \<Rightarrow> esp_err \<times> 'd world" where
  "init_instance cfg dev block_count allocated database_id w =
     (let closed = update_db (fresh_runtime cfg False) in
      if db_initialized (snd w) \<or> db_shutting_down (snd w) then (ESP_ERR_INVALID_STATE, w)
      else if init_args_invalid cfg dev block_count then (ESP_ERR_INVALID_SIZE, closed w)
      else
        (case allocated of
           Refused e \<Rightarrow> (e, closed w)
         | Allocated index_cache \<Rightarrow>
             (case on_ok (initialise_storage cfg dev database_id (update_db (fresh_runtime cfg index_cache) w))
                     (recover_wal cfg dev) of
                (ret, w) \<Rightarrow>
                  if ret = ESP_OK then (ESP_OK, update_db (\<lambda>s. s\<lparr>db_initialized := True\<rparr>) w)
                  else (ret, closed w))))"

definition resources_busy :: "config \<Rightarrow> db \<Rightarrow> bool" where
  "resources_busy cfg s \<longleftrightarrow>
     tx_active (db_transaction s) \<or>
     (\<exists>idx \<in> set [0..<unat (cfg_max_open_handles cfg)]. hs_used (db_handles s ! idx)) \<or>
     (\<exists>idx \<in> set [0..<unat (cfg_max_value_readers cfg)]. rd_used (db_value_readers s ! idx)) \<or>
     ww_active (db_value_writer s)"

definition deinit_instance :: "config \<Rightarrow> bool \<Rightarrow> 'd world \<Rightarrow> esp_err \<times> 'd world" where
  "deinit_instance cfg force w =
     (if \<not> db_initialized (snd w) then (ESP_OK, w)
      else if resources_busy cfg (snd w) \<and> \<not> force then (ESP_ERR_INVALID_STATE, w)
      else (ESP_OK, update_db (fresh_runtime cfg False) w))"

end
