(* ===== verification/Staging.thy ===== *)
theory Staging
  imports Transaction Wal_Payload
begin

text \<open>
  The meaning of a staged transaction: a map from keys to what is staged for them. The inline values
  fill the staging area without a gap and without overlap; staging keeps this layout and is an update
  of the map. What is staged is always accepted by the parser that recovers it from the log.
\<close>

section \<open>Layouts of the staging area\<close>

text \<open>Pieces \<open>j < n\<close> at \<open>offs j\<close> of length \<open>lens j\<close> fill the first \<open>L\<close> bytes, disjointly.\<close>

definition layout :: "(nat \<Rightarrow> nat) \<Rightarrow> (nat \<Rightarrow> nat) \<Rightarrow> nat \<Rightarrow> nat \<Rightarrow> bool" where
  "layout lens offs n L \<longleftrightarrow>
     (\<Sum>j<n. lens j) = L \<and> (\<forall>j<n. 0 < lens j \<longrightarrow> offs j + lens j \<le> L) \<and>
     (\<forall>j<n. \<forall>k<n. j \<noteq> k \<longrightarrow> 0 < lens j \<longrightarrow> 0 < lens k \<longrightarrow>
        offs j + lens j \<le> offs k \<or> offs k + lens k \<le> offs j)"

lemma layout_cong:
  assumes "\<And>j. j < n \<Longrightarrow> lens j = lens' j" "\<And>j. j < n \<Longrightarrow> 0 < lens j \<Longrightarrow> offs j = offs' j"
  shows "layout lens offs n L \<longleftrightarrow> layout lens' offs' n L"
proof -
  have "(\<Sum>j<n. lens j) = (\<Sum>j<n. lens' j)" using assms(1) by (intro sum.cong) auto
  then show ?thesis using assms unfolding layout_def by auto
qed

lemma sum_fun_upd:
  fixes i n x :: nat
  assumes "i < n"
  shows "(\<Sum>j<n. (f(i := x)) j) + f i = (\<Sum>j<n. f j) + x"
proof -
  from assms have "(\<Sum>j<n. g j) = g i + (\<Sum>j \<in> {..<n} - {i}. g j)" for g :: "nat \<Rightarrow> nat"
    by (intro sum.remove) auto
  note this [of "f(i := x)"] this [of f]
  moreover have "(\<Sum>j \<in> {..<n} - {i}. (f(i := x)) j) = (\<Sum>j \<in> {..<n} - {i}. f j)" by (intro sum.cong) auto
  ultimately show ?thesis by simp
qed

lemma layout_remove:
  assumes "layout lens offs n L" "i < n" "0 < lens i"
  shows "layout (lens(i := 0)) (\<lambda>j. if 0 < lens j \<and> offs i < offs j then offs j - lens i else offs j) n (L - lens i)"
    (is "layout ?lens ?offs n ?L")
proof -
  have sum: "(\<Sum>j<n. ?lens j) = ?L" using sum_fun_upd [OF assms(2), of lens 0] assms(1) by (simp add: layout_def)
  have apart: "offs j + lens j \<le> offs i \<or> offs i + lens i \<le> offs j" if "j < n" "j \<noteq> i" "0 < lens j" for j
    using assms that unfolding layout_def by blast
  have fits: "offs j + lens j \<le> L" if "j < n" "0 < lens j" for j using assms that unfolding layout_def by blast
  have pair: "offs j + lens j \<le> offs k \<or> offs k + lens k \<le> offs j"
    if "j < n" "k < n" "j \<noteq> k" "0 < lens j" "0 < lens k" for j k
    using assms that unfolding layout_def by blast
  show ?thesis
    unfolding layout_def
  proof (intro conjI allI impI)
    fix j assume j: "j < n" "0 < ?lens j"
    then show "?offs j + ?lens j \<le> ?L"
      using apart [of j] fits [of j] fits [OF assms(2,3)] by (auto split: if_splits)
  next
    fix j k assume jk: "j < n" "k < n" "j \<noteq> k" "0 < ?lens j" "0 < ?lens k"
    then show "?offs j + ?lens j \<le> ?offs k \<or> ?offs k + ?lens k \<le> ?offs j"
      using apart [of j] apart [of k] pair [of j k] by (auto split: if_splits)
  qed (rule sum)
qed

lemma layout_enter:
  assumes "layout (lens(i := 0)) offs n L" "i < n"
  shows "layout (lens(i := k)) (offs(i := L)) n (L + k)"
proof -
  have "(\<Sum>j<n. (lens(i := k)) j) = L + k"
    using sum_fun_upd [OF assms(2), of "lens(i := 0)" k] assms(1) by (simp add: layout_def)
  moreover have "offs j + lens j \<le> L" if "j < n" "j \<noteq> i" "0 < lens j" for j
    using assms(1) that unfolding layout_def by (auto split: if_splits)
  moreover have "offs j + lens j \<le> offs k \<or> offs k + lens k \<le> offs j"
    if "j < n" "k < n" "j \<noteq> k" "j \<noteq> i" "k \<noteq> i" "0 < lens j" "0 < lens k" for j k
  proof -
    have "\<forall>j<n. \<forall>k<n. j \<noteq> k \<longrightarrow> 0 < (lens(i := 0)) j \<longrightarrow> 0 < (lens(i := 0)) k \<longrightarrow>
        offs j + (lens(i := 0)) j \<le> offs k \<or> offs k + (lens(i := 0)) k \<le> offs j"
      using assms(1) unfolding layout_def by blast
    from this [rule_format, of j k] show ?thesis using that by simp
  qed
  ultimately show ?thesis unfolding layout_def by (fastforce split: if_splits)
qed

lemma layout_add: "layout lens offs n L \<Longrightarrow> layout (lens(n := 0)) offs (Suc n) L"
  by (auto simp: layout_def less_Suc_eq)

section \<open>What is staged\<close>

datatype staged = Staged_Erase | Staged_Inline bytes | Staged_External value_ref

definition staged_meaning :: "bytes \<Rightarrow> mutation_slot \<Rightarrow> staged" where
  "staged_meaning staging m =
     (if mu_external_value m then Staged_External (mu_external_value_ref m)
      else if mu_kind m = mutation_kind_tombstone then Staged_Erase
      else Staged_Inline (get staging (unat (mu_value_offset m)) (unat (mu_value_size m))))"

definition staged_map :: "db \<Rightarrow> bytes \<Rightarrow> staged option" where
  "staged_map s key =
     map_option (\<lambda>i. staged_meaning (db_transaction_staging s) (tx_mutations (db_transaction s) ! i))
       (find_staged_mutation (db_transaction s) key)"

definition staged_lens :: "transaction_slot \<Rightarrow> nat \<Rightarrow> nat" where
  "staged_lens t j = mutation_inline_size (tx_mutations t ! j)"

definition staged_offs :: "transaction_slot \<Rightarrow> nat \<Rightarrow> nat" where
  "staged_offs t j = unat (mu_value_offset (tx_mutations t ! j))"

definition staged_mutation_ok :: "config \<Rightarrow> storage_geometry \<Rightarrow> mutation_slot \<Rightarrow> bool" where
  "staged_mutation_ok cfg g m \<longleftrightarrow>
     valid_name (mu_key m) \<and> \<not> recovered_mutation_invalid cfg g m \<and>
     (mu_external_value m \<longrightarrow> vr_value_size (mu_external_value_ref m) = mu_value_size m) \<and>
     (\<not> mu_external_value m \<longrightarrow>
        unat (mu_value_offset m) + unat (mu_value_size m) \<le> unat (cfg_transaction_staging_size cfg))"

definition staging_inv :: "config \<Rightarrow> db \<Rightarrow> bool" where
  "staging_inv cfg s \<longleftrightarrow>
     (let t = db_transaction s; n = unat (tx_mutation_count t) in
      n \<le> unat (cfg_max_transaction_mutations cfg) \<and> length (tx_mutations t) = max_transaction_mutations \<and>
      unat (tx_staged_value_bytes t) \<le> unat (cfg_transaction_staging_size cfg) \<and>
      unat (cfg_transaction_staging_size cfg) \<le> length (db_transaction_staging s) \<and>
      (\<forall>i<n. \<forall>j<n. mu_key (tx_mutations t ! i) = mu_key (tx_mutations t ! j) \<longrightarrow> i = j) \<and>
      layout (staged_lens t) (staged_offs t) n (unat (tx_staged_value_bytes t)) \<and>
      (\<forall>j<n. staged_mutation_ok cfg (mr_geometry (db_manifest s)) (tx_mutations t ! j)))"

lemma staged_size_unat: "unat (staged_size m) = mutation_inline_size m"
  by (simp add: staged_size_def mutation_inline_size_def)

lemma staged_piece: "0 < mutation_inline_size m \<longleftrightarrow> \<not> mu_external_value m \<and> mu_value_size m > 0"
  by (auto simp: mutation_inline_size_def word_less_nat_alt)

lemma find_staged_mutation_find:
  "find_staged_mutation t key =
     (if valid_name key then find (\<lambda>i. mu_key (tx_mutations t ! i) = key) [0..<unat (tx_mutation_count t)] else None)"
proof -
  have "length x = length key \<and> memcmp x key (length key) = 0 \<longleftrightarrow> x = key" for x
    by (auto simp: memcmp_def mem_cmp_0_iff)
  then show ?thesis by (simp add: find_staged_mutation_def)
qed

lemma find_staged_mutation_Some:
  assumes "find_staged_mutation t key = Some i"
  shows "i < unat (tx_mutation_count t)" "mu_key (tx_mutations t ! i) = key" "valid_name key"
  using assms by (auto simp: find_staged_mutation_find find_Some_iff split: if_splits)

lemma find_staged_mutation_None:
  assumes "find_staged_mutation t key = None" "valid_name key" "i < unat (tx_mutation_count t)"
  shows "mu_key (tx_mutations t ! i) \<noteq> key"
  using assms by (auto simp: find_staged_mutation_find find_None_iff)

text \<open>Keys are distinct, so the index of a key is the index of its mutation.\<close>

lemma find_staged_mutation_at:
  assumes "staging_inv cfg s" "j < unat (tx_mutation_count (db_transaction s))"
  shows "find_staged_mutation (db_transaction s) (mu_key (tx_mutations (db_transaction s) ! j)) = Some j"
proof -
  let ?t = "db_transaction s"
  have "valid_name (mu_key (tx_mutations ?t ! j))"
    using assms by (simp add: staging_inv_def Let_def staged_mutation_ok_def)
  moreover have "\<forall>i<j. mu_key (tx_mutations ?t ! i) \<noteq> mu_key (tx_mutations ?t ! j)"
  proof (intro allI impI notI)
    fix i assume "i < j" "mu_key (tx_mutations ?t ! i) = mu_key (tx_mutations ?t ! j)"
    moreover have "\<forall>i<unat (tx_mutation_count ?t). \<forall>j<unat (tx_mutation_count ?t).
        mu_key (tx_mutations ?t ! i) = mu_key (tx_mutations ?t ! j) \<longrightarrow> i = j"
      using assms(1) by (simp add: staging_inv_def Let_def)
    ultimately show False using assms(2) by (metis less_irrefl less_trans)
  qed
  ultimately show ?thesis
    using assms(2) by (auto simp: find_staged_mutation_find find_Some_iff intro!: exI [of _ j])
qed

section \<open>Removing the old value\<close>

text \<open>The bytes of a piece before or behind the gap are the same after the tail moved down.\<close>

lemma closed_gap:
  assumes "gap + len \<le> L" "L \<le> length b"
  defines "b' \<equiv> put b gap (get b (gap + len) (L - (gap + len)))"
  shows "length b' = length b"
    "off + n \<le> gap \<Longrightarrow> get b' off n = get b off n"
    "gap + len \<le> off \<Longrightarrow> off + n \<le> L \<Longrightarrow> get b' (off - len) n = get b off n"
proof -
  have l: "length (get b (gap + len) (L - (gap + len))) = L - (gap + len)"
    using assms(1,2) by (intro length_get) simp
  show "length b' = length b" unfolding b'_def by (rule length_put)
  show "get b' off n = get b off n" if "off + n \<le> gap" using that unfolding b'_def by (rule get_put_before)
  show "get b' (off - len) n = get b off n" if "gap + len \<le> off" "off + n \<le> L"
  proof -
    have "get b' (off - len) n = get (get b (gap + len) (L - (gap + len))) (off - len - gap) n"
      unfolding b'_def using that assms(1,2) l by (intro get_put_inside) simp_all
    also have "\<dots> = get b (gap + len + (off - len - gap)) n" using that by (intro get_get) simp
    also have "gap + len + (off - len - gap) = off" using that by simp
    finally show ?thesis .
  qed
qed

text \<open>What a state holds for the keys of all mutations but \<open>idx\<close>.\<close>

definition meanings_except :: "nat set \<Rightarrow> db \<Rightarrow> (bytes \<times> staged) set" where
  "meanings_except I s =
     (\<lambda>j. (mu_key (tx_mutations (db_transaction s) ! j),
           staged_meaning (db_transaction_staging s) (tx_mutations (db_transaction s) ! j))) `
       {j. j < unat (tx_mutation_count (db_transaction s)) \<and> j \<notin> I}"

text \<open>The staging area is in order but for mutation \<open>idx\<close>, whose value is not there.\<close>

definition staging_open :: "config \<Rightarrow> nat \<Rightarrow> bytes \<Rightarrow> db \<Rightarrow> bool" where
  "staging_open cfg idx key s \<longleftrightarrow>
     (let t = db_transaction s; n = unat (tx_mutation_count t) in
      n \<le> unat (cfg_max_transaction_mutations cfg) \<and> idx < n \<and> length (tx_mutations t) = max_transaction_mutations \<and>
      unat (cfg_transaction_staging_size cfg) \<le> length (db_transaction_staging s) \<and>
      (\<forall>i<n. i \<noteq> idx \<longrightarrow> mu_key (tx_mutations t ! i) \<noteq> key) \<and>
      (\<forall>i<n. \<forall>j<n. i \<noteq> idx \<longrightarrow> j \<noteq> idx \<longrightarrow> mu_key (tx_mutations t ! i) = mu_key (tx_mutations t ! j) \<longrightarrow> i = j) \<and>
      layout ((staged_lens t)(idx := 0)) (staged_offs t) n (unat (tx_staged_value_bytes t)) \<and>
      (\<forall>j<n. j \<noteq> idx \<longrightarrow> staged_mutation_ok cfg (mr_geometry (db_manifest s)) (tx_mutations t ! j)))"

lemma staging_invD:
  assumes "staging_inv cfg s" "j < unat (tx_mutation_count (db_transaction s))"
  shows "staged_mutation_ok cfg (mr_geometry (db_manifest s)) (tx_mutations (db_transaction s) ! j)"
    "length (tx_mutations (db_transaction s)) = max_transaction_mutations"
    "unat (tx_mutation_count (db_transaction s)) \<le> unat (cfg_max_transaction_mutations cfg)"
    "0 < mutation_inline_size (tx_mutations (db_transaction s) ! j) \<Longrightarrow>
       unat (mu_value_offset (tx_mutations (db_transaction s) ! j)) + mutation_inline_size (tx_mutations (db_transaction s) ! j)
         \<le> unat (tx_staged_value_bytes (db_transaction s))"
    "unat (tx_staged_value_bytes (db_transaction s)) \<le> unat (cfg_transaction_staging_size cfg)"
    "unat (cfg_transaction_staging_size cfg) \<le> length (db_transaction_staging s)"
  using assms by (simp_all add: staging_inv_def Let_def layout_def staged_lens_def staged_offs_def)

lemma staged_map_meanings:
  assumes "staging_inv cfg s"
  shows "staged_map s k = Some v \<longleftrightarrow> (k, v) \<in> meanings_except {} s"
proof
  assume "staged_map s k = Some v"
  then show "(k, v) \<in> meanings_except {} s"
    by (auto simp: staged_map_def meanings_except_def dest: find_staged_mutation_Some)
next
  assume "(k, v) \<in> meanings_except {} s"
  then obtain j where j: "j < unat (tx_mutation_count (db_transaction s))"
    "k = mu_key (tx_mutations (db_transaction s) ! j)"
    "v = staged_meaning (db_transaction_staging s) (tx_mutations (db_transaction s) ! j)"
    by (auto simp: meanings_except_def)
  then show "staged_map s k = Some v"
    using find_staged_mutation_at [OF assms j(1)] by (simp add: staged_map_def)
qed

lemma remove_staged_value_spec:
  fixes s :: db and i :: nat
  assumes cfg: "valid_config cfg" and inv: "staging_inv cfg s" and i: "i < unat (tx_mutation_count (db_transaction s))"
    and piece: "0 < mutation_inline_size (tx_mutations (db_transaction s) ! i)"
  defines "s' \<equiv> remove_staged_value i s" and "m \<equiv> tx_mutations (db_transaction s) ! i"
  shows "length (db_transaction_staging s') = length (db_transaction_staging s)"
    "unat (tx_staged_value_bytes (db_transaction s')) =
       unat (tx_staged_value_bytes (db_transaction s)) - mutation_inline_size m"
    "staging_open cfg i (mu_key m) s'" "meanings_except {i} s' = meanings_except {i} s"
proof -
  let ?t = "db_transaction s" and ?b = "db_transaction_staging s"
  let ?t' = "db_transaction s'" and ?b' = "db_transaction_staging s'"
  let ?n = "unat (tx_mutation_count ?t)" and ?L = "unat (tx_staged_value_bytes ?t)"
  let ?off = "unat (mu_value_offset m)" and ?len = "mutation_inline_size m"
  note D = staging_invD [OF inv i]
  have fit: "?off + ?len \<le> ?L" using D(4) piece by (simp add: m_def)
  have tail: "unat (mu_value_offset m + staged_size m) = ?off + ?len"
    using fit unat_less_pow [of "tx_staged_value_bytes ?t"]
    by (subst unat_add_exact) (simp_all add: staged_size_unat)
  have size: "unat (tx_staged_value_bytes ?t - (mu_value_offset m + staged_size m)) = ?L - (?off + ?len)"
    using fit tail by (subst word_sub_unat) (simp_all add: word_le_nat_alt)
  have b': "?b' = put ?b ?off (get ?b (?off + ?len) (?L - (?off + ?len)))"
    by (simp only: s'_def remove_staged_value_def Let_def m_def [symmetric] size tail) simp
  have L: "?L \<le> length ?b" using D(5,6) by simp
  note gap = closed_gap [OF fit L, folded b']
  show "length ?b' = length ?b" by (rule gap(1))
  have cnt: "tx_mutation_count ?t' = tx_mutation_count ?t" "length (tx_mutations ?t') = length (tx_mutations ?t)"
    "db_manifest s' = db_manifest s"
    by (simp_all add: s'_def remove_staged_value_def Let_def)
  have "staged_size m \<le> tx_staged_value_bytes ?t"
    using fit by (simp add: word_le_nat_alt staged_size_unat)
  then show staged': "unat (tx_staged_value_bytes ?t') = ?L - ?len"
    by (simp add: s'_def remove_staged_value_def Let_def m_def [symmetric] word_sub_unat staged_size_unat)
  have n: "?n \<le> length (tx_mutations ?t)" using cfg D by (simp add: valid_config_def)
  define new where "new j = (let c = tx_mutations ?t ! j in
      if j \<noteq> i \<and> 0 < mutation_inline_size c \<and> ?off < unat (mu_value_offset c)
      then c\<lparr>mu_value_offset := mu_value_offset c - staged_size m\<rparr> else c)" for j
  have mut: "tx_mutations ?t' ! j = new j" if "j < ?n" for j
    using that n by (simp add: s'_def remove_staged_value_def Let_def m_def [symmetric] new_def staged_piece
        word_less_nat_alt)
  have same: "mu_key (new j) = mu_key (tx_mutations ?t ! j)" "mutation_inline_size (new j) = mutation_inline_size (tx_mutations ?t ! j)"
    "mu_external_value (new j) = mu_external_value (tx_mutations ?t ! j)" "mu_kind (new j) = mu_kind (tx_mutations ?t ! j)"
    "mu_external_value_ref (new j) = mu_external_value_ref (tx_mutations ?t ! j)"
    "mu_value_size (new j) = mu_value_size (tx_mutations ?t ! j)" "mu_reserved0 (new j) = mu_reserved0 (tx_mutations ?t ! j)" for j
    by (simp_all add: new_def Let_def mutation_inline_size_def)
  have lay: "layout (staged_lens ?t) (staged_offs ?t) ?n ?L" using inv by (simp add: staging_inv_def Let_def)
  have apart: "staged_offs ?t j + staged_lens ?t j \<le> ?off \<or> ?off + ?len \<le> staged_offs ?t j"
    if "j < ?n" "j \<noteq> i" "0 < staged_lens ?t j" for j
    using lay i that piece unfolding layout_def by (auto simp: staged_offs_def staged_lens_def m_def)
  have offs: "unat (mu_value_offset (new j)) =
      (if j \<noteq> i \<and> 0 < staged_lens ?t j \<and> ?off < staged_offs ?t j then staged_offs ?t j - ?len else staged_offs ?t j)"
    if "j < ?n" for j
  proof (cases "j \<noteq> i \<and> 0 < staged_lens ?t j \<and> ?off < staged_offs ?t j")
    case True
    then have "?off + ?len \<le> staged_offs ?t j" using apart [of j] that by auto
    then have "staged_size m \<le> mu_value_offset (tx_mutations ?t ! j)"
      by (simp add: word_le_nat_alt staged_size_unat staged_offs_def)
    then show ?thesis
      using True by (simp add: new_def Let_def staged_offs_def staged_lens_def word_sub_unat staged_size_unat)
  next
    case False
    then show ?thesis by (auto simp: new_def Let_def staged_offs_def staged_lens_def)
  qed
  have "layout ((staged_lens ?t)(i := 0)) (\<lambda>j. if 0 < staged_lens ?t j \<and> staged_offs ?t i < staged_offs ?t j
      then staged_offs ?t j - staged_lens ?t i else staged_offs ?t j) ?n (?L - staged_lens ?t i)"
    using piece by (intro layout_remove [OF lay i]) (simp add: staged_lens_def)
  then have lay': "layout ((staged_lens ?t')(i := 0)) (staged_offs ?t') ?n (?L - ?len)"
    using layout_cong [of ?n "(staged_lens ?t')(i := 0)" "(staged_lens ?t)(i := 0)" "staged_offs ?t'"
        "\<lambda>j. if 0 < staged_lens ?t j \<and> staged_offs ?t i < staged_offs ?t j
          then staged_offs ?t j - staged_lens ?t i else staged_offs ?t j" "?L - ?len"]
    using offs by (simp add: staged_lens_def staged_offs_def mut same m_def split: if_splits)
  have keys: "\<forall>i<?n. \<forall>j<?n. mu_key (tx_mutations ?t ! i) = mu_key (tx_mutations ?t ! j) \<longrightarrow> i = j"
    using inv by (simp add: staging_inv_def Let_def)
  have oks: "staged_mutation_ok cfg g (new j)" if "j < ?n" "staged_mutation_ok cfg g (tx_mutations ?t ! j)" for j g
    using that offs [OF that(1)]
    by (auto simp: staged_mutation_ok_def recovered_mutation_invalid_def same staged_offs_def split: if_splits)
  show "staging_open cfg i (mu_key m) s'"
    unfolding staging_open_def Let_def cnt staged'
    using D i lay' keys oks [OF _ staging_invD(1) [OF inv]] \<open>length ?b' = length ?b\<close>
    by (simp add: mut same m_def) (metis i)
  show "meanings_except {i} s' = meanings_except {i} s"
  proof -
    have "staged_meaning ?b' (new j) = staged_meaning ?b (tx_mutations ?t ! j)" if j: "j < ?n" "j \<noteq> i" for j
    proof (cases "0 < staged_lens ?t j")
      case True
      have "staged_offs ?t j + staged_lens ?t j \<le> ?L" using lay j True unfolding layout_def by auto
      then have "get ?b' (unat (mu_value_offset (new j))) (staged_lens ?t j) = get ?b (staged_offs ?t j) (staged_lens ?t j)"
        using apart [OF j True] offs [OF j(1)] True j(2) gap(2,3) piece
        by (auto simp: m_def [symmetric] split: if_splits)
      then show ?thesis
        using True by (auto simp: staged_meaning_def same staged_lens_def staged_offs_def mutation_inline_size_def)
    next
      case False
      then have "mu_external_value (tx_mutations ?t ! j) \<or> unat (mu_value_size (tx_mutations ?t ! j)) = 0"
        by (auto simp: staged_lens_def mutation_inline_size_def split: if_splits)
      then show ?thesis by (auto simp: staged_meaning_def same)
    qed
    then show ?thesis unfolding meanings_except_def cnt by (intro image_cong) (simp_all add: mut same)
  qed
qed


section \<open>Entering the new value\<close>

definition entered_meaning :: "u8 \<Rightarrow> bytes \<Rightarrow> staged" where
  "entered_meaning kind val = (if kind = mutation_kind_tombstone then Staged_Erase else Staged_Inline val)"

lemma enter_staged_value_spec:
  fixes s :: db and i :: nat
  assumes cfg: "valid_config cfg" and opened: "staging_open cfg i key s"
    and key: "valid_name key" and len: "length val \<le> unat (cfg_inline_value_size cfg)"
    and kind: "kind = mutation_kind_set \<or> kind = mutation_kind_tombstone \<and> val = []"
    and total: "unat new_size = unat (tx_staged_value_bytes (db_transaction s)) + length val"
      "new_size \<le> cfg_transaction_staging_size cfg"
  defines "s' \<equiv> enter_staged_value key val kind new_size i s"
  shows "staging_inv cfg s'" "meanings_except {} s' = insert (key, entered_meaning kind val) (meanings_except {i} s)"
proof -
  let ?t = "db_transaction s" and ?b = "db_transaction_staging s"
  let ?t' = "db_transaction s'" and ?b' = "db_transaction_staging s'"
  let ?n = "unat (tx_mutation_count ?t)" and ?L = "unat (tx_staged_value_bytes ?t)"
  have O: "?n \<le> unat (cfg_max_transaction_mutations cfg)" "i < ?n" "length (tx_mutations ?t) = max_transaction_mutations"
    "unat (cfg_transaction_staging_size cfg) \<le> length ?b" "layout ((staged_lens ?t)(i := 0)) (staged_offs ?t) ?n ?L"
    "\<And>j. j < ?n \<Longrightarrow> j \<noteq> i \<Longrightarrow> staged_mutation_ok cfg (mr_geometry (db_manifest s)) (tx_mutations ?t ! j)"
    "\<And>j. j < ?n \<Longrightarrow> j \<noteq> i \<Longrightarrow> mu_key (tx_mutations ?t ! j) \<noteq> key"
    "\<And>j k. j < ?n \<Longrightarrow> k < ?n \<Longrightarrow> j \<noteq> i \<Longrightarrow> k \<noteq> i \<Longrightarrow> mu_key (tx_mutations ?t ! j) = mu_key (tx_mutations ?t ! k) \<Longrightarrow> j = k"
    using opened by (auto simp: staging_open_def Let_def)
  have n: "?n \<le> length (tx_mutations ?t)" using cfg O by (simp add: valid_config_def)
  define m where "m = (tx_mutations ?t ! i)\<lparr>mu_value_offset := tx_staged_value_bytes ?t, mu_value_size := of_nat (length val),
      mu_reserved0 := 0, mu_kind := kind, mu_external_value := False, mu_external_value_ref := empty_value_ref, mu_key := key\<rparr>"
  have s': "?b' = put ?b ?L val" "tx_mutation_count ?t' = tx_mutation_count ?t" "db_manifest s' = db_manifest s"
    "tx_staged_value_bytes ?t' = new_size" "tx_mutations ?t' = (tx_mutations ?t)[i := m]"
    by (simp_all add: s'_def enter_staged_value_def m_def Let_def)
  have mut: "tx_mutations ?t' ! j = (if j = i then m else tx_mutations ?t ! j)" if "j < ?n" for j
    using that n by (simp add: s')
  have size: "unat (of_nat (length val) :: u32) = length val"
    using len unat_less_pow [of "cfg_inline_value_size cfg"] by simp
  have M: "mu_key m = key" "mu_kind m = kind" "\<not> mu_external_value m" "mu_reserved0 m = 0"
    "unat (mu_value_size m) = length val" "mutation_inline_size m = length val" "unat (mu_value_offset m) = ?L"
    by (simp_all add: m_def size mutation_inline_size_def)
  have bound: "?L + length val \<le> length ?b" using total O(4) by (simp add: word_le_nat_alt)
  have "?L + length val \<le> unat (cfg_transaction_staging_size cfg)" using total by (simp add: word_le_nat_alt)
  then have ok: "staged_mutation_ok cfg g m" for g
    using M key kind len by (auto simp: staged_mutation_ok_def recovered_mutation_invalid_def format_consts
        word_less_nat_alt unat_eq_zero [symmetric])
  have "layout ((staged_lens ?t)(i := length val)) ((staged_offs ?t)(i := ?L)) ?n (?L + length val)"
    by (rule layout_enter [OF O(5,2)])
  then have lay: "layout (staged_lens ?t') (staged_offs ?t') ?n (?L + length val)"
    using layout_cong [of ?n "staged_lens ?t'" "(staged_lens ?t)(i := length val)" "staged_offs ?t'"
        "(staged_offs ?t)(i := ?L)" "?L + length val"]
    by (simp add: staged_lens_def staged_offs_def mut M)
  have keys: "j = k" if "j < ?n" "k < ?n" "mu_key (tx_mutations ?t' ! j) = mu_key (tx_mutations ?t' ! k)" for j k
    using that O(7) [of j] O(7) [of k] O(8) [of j k] by (auto simp: mut M split: if_splits)
  have oks: "staged_mutation_ok cfg (mr_geometry (db_manifest s)) (tx_mutations ?t' ! j)" if "j < ?n" for j
    using that O(6) ok by (simp add: mut)
  show "staging_inv cfg s'"
    unfolding staging_inv_def Let_def s'(2,3)
  proof (intro conjI allI impI)
    show "layout (staged_lens ?t') (staged_offs ?t') ?n (unat (tx_staged_value_bytes ?t'))"
      using lay by (simp add: s'(4) total)
    show "j = k" if "j < ?n" "k < ?n" "mu_key (tx_mutations ?t' ! j) = mu_key (tx_mutations ?t' ! k)" for j k
      using that by (rule keys)
  qed (use O(1,3,4) total oks in \<open>simp_all add: s'(1,4,5) word_le_nat_alt\<close>)
  have fits: "staged_offs ?t j + staged_lens ?t j \<le> ?L" if "j < ?n" "j \<noteq> i" "0 < staged_lens ?t j" for j
    using O(5) that unfolding layout_def by auto
  have old: "staged_meaning ?b' (tx_mutations ?t ! j) = staged_meaning ?b (tx_mutations ?t ! j)" if "j < ?n" "j \<noteq> i" for j
  proof (cases "0 < staged_lens ?t j")
    case True
    then show ?thesis
      using fits [OF that True] by (simp add: staged_meaning_def s'(1) staged_lens_def staged_offs_def
          mutation_inline_size_def get_put_before split: if_splits)
  next
    case False
    then have "mu_external_value (tx_mutations ?t ! j) \<or> unat (mu_value_size (tx_mutations ?t ! j)) = 0"
      by (auto simp: staged_lens_def mutation_inline_size_def split: if_splits)
    then show ?thesis by (auto simp: staged_meaning_def)
  qed
  have new: "staged_meaning ?b' m = entered_meaning kind val"
    using bound M kind by (auto simp: staged_meaning_def entered_meaning_def s'(1) get_put_same format_consts)
  have split: "{j. j < ?n \<and> j \<notin> {}} = insert i {j. j < ?n \<and> j \<notin> {i}}" using O(2) by auto
  have "(\<lambda>j. (mu_key (tx_mutations ?t' ! j), staged_meaning ?b' (tx_mutations ?t' ! j))) ` {j. j < ?n \<and> j \<notin> {i}} =
      (\<lambda>j. (mu_key (tx_mutations ?t ! j), staged_meaning ?b (tx_mutations ?t ! j))) ` {j. j < ?n \<and> j \<notin> {i}}"
    by (intro image_cong) (simp_all add: mut old)
  moreover have "(mu_key (tx_mutations ?t' ! i), staged_meaning ?b' (tx_mutations ?t' ! i)) = (key, entered_meaning kind val)"
    using O(2) by (simp add: mut M new)
  ultimately show "meanings_except {} s' = insert (key, entered_meaning kind val) (meanings_except {i} s)"
    unfolding meanings_except_def s'(2) split by simp
qed

lemma add_mutation_spec:
  fixes s :: db
  assumes cfg: "valid_config cfg" and inv: "staging_inv cfg s" and fresh: "find_staged_mutation (db_transaction s) key = None"
    and key: "valid_name key" and room: "\<not> ucast (tx_mutation_count (db_transaction s)) \<ge> cfg_max_transaction_mutations cfg"
    and add: "add_mutation s = (i, s')"
  shows "staging_open cfg i key s'" "meanings_except {i} s' = meanings_except {} s"
    "tx_staged_value_bytes (db_transaction s') = tx_staged_value_bytes (db_transaction s)"
proof -
  let ?t = "db_transaction s" and ?t' = "db_transaction s'"
  let ?n = "unat (tx_mutation_count ?t)"
  have max: "unat (cfg_max_transaction_mutations cfg) \<le> 10" using cfg by (simp add: valid_config_def format_consts)
  have "unat (ucast (tx_mutation_count ?t) :: u32) = ?n"
    using unat_less_pow [of "tx_mutation_count ?t"] by (simp add: unsigned_ucast_eq take_bit_nat_eq_self)
  then have n: "?n < unat (cfg_max_transaction_mutations cfg)" using room by (simp add: word_le_nat_alt)
  then have Suc: "unat (tx_mutation_count ?t + 1) = Suc ?n" using max by (subst unat_add_exact) simp_all
  have I: "length (tx_mutations ?t) = max_transaction_mutations"
    "unat (cfg_transaction_staging_size cfg) \<le> length (db_transaction_staging s)"
    "layout (staged_lens ?t) (staged_offs ?t) ?n (unat (tx_staged_value_bytes ?t))"
    "\<And>j. j < ?n \<Longrightarrow> staged_mutation_ok cfg (mr_geometry (db_manifest s)) (tx_mutations ?t ! j)"
    "\<And>j k. j < ?n \<Longrightarrow> k < ?n \<Longrightarrow> mu_key (tx_mutations ?t ! j) = mu_key (tx_mutations ?t ! k) \<Longrightarrow> j = k"
    using inv by (auto simp: staging_inv_def Let_def)
  have s': "i = ?n" "?t' = ?t\<lparr>tx_mutations := (tx_mutations ?t)[?n := empty_mutation],
      tx_mutation_count := tx_mutation_count ?t + 1\<rparr>" "db_manifest s' = db_manifest s"
    "db_transaction_staging s' = db_transaction_staging s"
    using add by (auto simp: add_mutation_def Let_def)
  have mut: "tx_mutations ?t' ! j = tx_mutations ?t ! j" if "j < ?n" for j using that by (simp add: s')
  have lay: "layout ((staged_lens ?t')(?n := 0)) (staged_offs ?t') (Suc ?n) (unat (tx_staged_value_bytes ?t))"
    by (rule iffD2 [OF layout_cong layout_add [OF I(3)]])
       (auto simp: staged_lens_def staged_offs_def mut less_Suc_eq split: if_splits)
  show "staging_open cfg i key s'"
    unfolding staging_open_def Let_def
  proof (intro conjI allI impI)
    fix j assume "j < unat (tx_mutation_count ?t')" "j \<noteq> i"
    then have j: "j < ?n" by (simp add: s' Suc)
    then show "mu_key (tx_mutations ?t' ! j) \<noteq> key"
      using find_staged_mutation_None [OF fresh key j] by (simp add: mut)
    show "staged_mutation_ok cfg (mr_geometry (db_manifest s')) (tx_mutations ?t' ! j)"
      using I(4) j by (simp add: mut s'(3))
  next
    fix j k assume "j < unat (tx_mutation_count ?t')" "k < unat (tx_mutation_count ?t')" "j \<noteq> i" "k \<noteq> i"
      and eq: "mu_key (tx_mutations ?t' ! j) = mu_key (tx_mutations ?t' ! k)"
    then have "j < ?n" "k < ?n" by (simp_all add: s' Suc)
    then show "j = k" using I(5) eq by (simp add: mut)
  qed (use n I(1,2) lay in \<open>simp_all add: s' Suc\<close>)
  have "(\<lambda>j. (mu_key (tx_mutations ?t' ! j), staged_meaning (db_transaction_staging s') (tx_mutations ?t' ! j))) `
      {j. j < Suc ?n \<and> j \<notin> {?n}} =
    (\<lambda>j. (mu_key (tx_mutations ?t ! j), staged_meaning (db_transaction_staging s) (tx_mutations ?t ! j))) ` {j. j < ?n \<and> j \<notin> {}}"
    by (intro image_cong) (auto simp: mut s'(4))
  then show "meanings_except {i} s' = meanings_except {} s"
    by (simp add: meanings_except_def s'(1) s'(2) Suc)
  show "tx_staged_value_bytes ?t' = tx_staged_value_bytes ?t" by (simp add: s')
qed

section \<open>Staging is an update of the map\<close>

text \<open>The build's ranges (\<open>Kconfig\<close>: 131072 and 4096 at most) keep the size of the staging area from wrapping.\<close>

definition staging_fits :: "config \<Rightarrow> bool" where
  "staging_fits cfg \<longleftrightarrow> unat (cfg_transaction_staging_size cfg) + unat (cfg_inline_value_size cfg) < 2 ^ 32"

lemma staged_map_insert:
  assumes "staging_inv cfg s'" "meanings_except {} s' = insert (key, v) M"
    "\<And>k w. k \<noteq> key \<Longrightarrow> (k, w) \<in> M \<longleftrightarrow> staged_map s k = Some w" "\<And>w. (key, w) \<notin> M"
  shows "staged_map s' = (staged_map s)(key \<mapsto> v)"
proof
  fix k
  have "staged_map s' k = Some w \<longleftrightarrow> ((staged_map s)(key \<mapsto> v)) k = Some w" for w
    using assms by (auto simp: staged_map_meanings [OF assms(1)])
  then show "staged_map s' k = ((staged_map s)(key \<mapsto> v)) k" by (metis not_None_eq)
qed

lemma meanings_except_one:
  assumes inv: "staging_inv cfg s" and i: "i < unat (tx_mutation_count (db_transaction s))"
    and key: "key = mu_key (tx_mutations (db_transaction s) ! i)"
  shows "k \<noteq> key \<Longrightarrow> (k, w) \<in> meanings_except {i} s \<longleftrightarrow> staged_map s k = Some w"
    "(key, w) \<notin> meanings_except {i} s"
proof -
  show "(k, w) \<in> meanings_except {i} s \<longleftrightarrow> staged_map s k = Some w" if "k \<noteq> key"
    using that key i unfolding staged_map_meanings [OF inv] by (auto simp: meanings_except_def image_iff)
  have "\<forall>j<unat (tx_mutation_count (db_transaction s)). mu_key (tx_mutations (db_transaction s) ! i) =
      mu_key (tx_mutations (db_transaction s) ! j) \<longrightarrow> i = j"
    using inv i by (simp add: staging_inv_def Let_def)
  then show "(key, w) \<notin> meanings_except {i} s" using key by (auto simp: meanings_except_def)
qed

lemma staging_open_same:
  assumes inv: "staging_inv cfg s" and i: "i < unat (tx_mutation_count (db_transaction s))"
    and empty: "mutation_inline_size (tx_mutations (db_transaction s) ! i) = 0"
  shows "staging_open cfg i (mu_key (tx_mutations (db_transaction s) ! i)) s"
proof -
  have "(staged_lens (db_transaction s))(i := 0) = staged_lens (db_transaction s)"
    using empty by (simp add: fun_upd_idem staged_lens_def)
  then show ?thesis using inv i unfolding staging_open_def staging_inv_def Let_def by auto
qed

text \<open>Staging leaves the tokens alone.\<close>

definition transaction_token :: "transaction_slot \<Rightarrow> bool \<times> u64 \<times> u16 \<times> u64" where
  "transaction_token t = (tx_active t, tx_generation t, tx_handle_slot_index t, tx_handle_generation t)"

lemma get_transaction_cong:
  assumes "transaction_token (db_transaction s') = transaction_token (db_transaction s)" "db_handles s' = db_handles s"
  shows "get_transaction cfg s' raw = map_sum id (\<lambda>_. db_transaction s') (get_transaction cfg s raw)"
  using assms by (simp add: get_transaction_def transaction_token_def Let_def split: option.split prod.split)

lemma stage_value_token:
  assumes "stage_value cfg raw key val kind s = (ret, s')"
  shows "transaction_token (db_transaction s') = transaction_token (db_transaction s)" "db_handles s' = db_handles s"
    "db_manifest s' = db_manifest s"
proof -
  have "transaction_token (db_transaction (remove_staged_value i s)) = transaction_token (db_transaction s)"
    "db_handles (remove_staged_value i s) = db_handles s"
    "transaction_token (db_transaction (enter_staged_value key val kind n i s)) = transaction_token (db_transaction s)"
    "db_handles (enter_staged_value key val kind n i s) = db_handles s"
    "db_manifest (remove_staged_value i s) = db_manifest s" "db_manifest (enter_staged_value key val kind n i s) = db_manifest s"
    for i n s
    by (simp_all add: remove_staged_value_def enter_staged_value_def Let_def transaction_token_def)
  moreover have "transaction_token (db_transaction (snd (add_mutation s))) = transaction_token (db_transaction s)"
    "db_handles (snd (add_mutation s)) = db_handles s" "db_manifest (snd (add_mutation s)) = db_manifest s"
    by (simp_all add: add_mutation_def Let_def transaction_token_def)
  ultimately show "transaction_token (db_transaction s') = transaction_token (db_transaction s)" "db_handles s' = db_handles s"
    "db_manifest s' = db_manifest s"
    using assms
    by (auto simp: stage_value_def on_value_def Let_def split: if_splits sum.splits option.splits prod.splits)
qed

lemma get_transaction_error: "get_transaction cfg s raw \<noteq> Inl ESP_OK"
  by (simp add: get_transaction_def Let_def split: option.split prod.split)

lemma get_transaction_value: "get_transaction cfg s raw = Inr t \<Longrightarrow> t = db_transaction s"
  by (auto simp: get_transaction_def Let_def split: if_splits option.splits prod.splits)

lemma stage_value_update:
  fixes s :: db
  assumes cfg: "valid_config cfg" "staging_fits cfg" and inv: "staging_inv cfg s"
    and kind: "kind = mutation_kind_tombstone \<longrightarrow> val = []"
    and stage: "stage_value cfg raw key val kind s = (ret, s')"
  shows "staging_inv cfg s' \<and> db_manifest s' = db_manifest s \<and>
    (if ret = ESP_OK then staged_map s' = (staged_map s)(key \<mapsto> entered_meaning kind val) else s' = s)"
proof (cases "ret = ESP_OK")
  case False
  then have "s' = s"
    using stage by (auto simp: stage_value_def on_value_def Let_def split: if_splits sum.splits prod.splits)
  then show ?thesis using False inv by simp
next
  case True
  note manifest = stage_value_token(3) [OF stage]
  let ?t = "db_transaction s"
  let ?found = "find_staged_mutation ?t key"
  let ?old = "case ?found of None \<Rightarrow> 0 | Some idx \<Rightarrow> staged_size (tx_mutations ?t ! idx)"
  let ?new = "tx_staged_value_bytes ?t - ?old + of_nat (length val)"
  obtain t where t: "get_transaction cfg s raw = Inr t" and key: "valid_name key"
    and len: "length val \<le> unat (cfg_inline_value_size cfg)"
    and k: "kind = mutation_kind_set \<or> kind = mutation_kind_tombstone"
    using stage True get_transaction_error [of cfg s raw]
    by (auto simp: stage_value_def on_value_def split: if_splits sum.splits)
  have "t = ?t" using t by (rule get_transaction_value)
  then have room: "?new \<le> cfg_transaction_staging_size cfg"
    and full: "\<not> (?found = None \<and> ucast (tx_mutation_count ?t) \<ge> cfg_max_transaction_mutations cfg)"
    using stage True t by (auto simp: stage_value_def Let_def not_less split: if_splits)
  have kind': "kind = mutation_kind_set \<or> kind = mutation_kind_tombstone \<and> val = []" using k kind by blast
  have s': "s' = (case (case ?found of Some idx \<Rightarrow> (idx, if ?old > 0 then remove_staged_value idx s else s)
      | None \<Rightarrow> add_mutation s) of (i, s1) \<Rightarrow> enter_staged_value key val kind ?new i s1)"
    using stage True t \<open>t = ?t\<close> by (auto simp: stage_value_def Let_def split: if_splits option.splits prod.splits)
  have small: "unat (cfg_transaction_staging_size cfg) + length val < 2 ^ 32"
    using cfg(2) len by (simp add: staging_fits_def)
  have staged: "unat (tx_staged_value_bytes ?t) \<le> unat (cfg_transaction_staging_size cfg)"
    using inv by (simp add: staging_inv_def Let_def)
  show ?thesis
  proof (cases ?found)
    case None
    obtain i s1 where add: "add_mutation s = (i, s1)" by force
    note A = add_mutation_spec [OF cfg(1) inv None key _ add]
    have full': "\<not> ucast (tx_mutation_count ?t) \<ge> cfg_max_transaction_mutations cfg" using full None by blast
    have new: "unat ?new = unat (tx_staged_value_bytes (db_transaction s1)) + length val"
      using None small staged A(3) [OF full'] by (simp add: unat_add_exact)
    have "s' = enter_staged_value key val kind ?new i s1" using s' None add by simp
    then have E: "staging_inv cfg s'" "meanings_except {} s' = insert (key, entered_meaning kind val) (meanings_except {} s)"
      using enter_staged_value_spec [OF cfg(1) A(1) [OF full'] key len kind' new room] A(2) [OF full'] by simp_all
    have "staged_map s key = None" using None by (simp add: staged_map_def)
    then have "staged_map s' = (staged_map s)(key \<mapsto> entered_meaning kind val)"
      by (intro staged_map_insert [OF E]) (simp_all add: staged_map_meanings [OF inv, symmetric])
    then show ?thesis using E(1) True manifest by simp
  next
    case (Some i)
    let ?m = "tx_mutations ?t ! i" and ?s1 = "if ?old > 0 then remove_staged_value i s else s"
    note F = find_staged_mutation_Some [OF Some]
    have old: "?old = staged_size ?m" using Some by simp
    have S: "staging_open cfg i key ?s1" "meanings_except {i} ?s1 = meanings_except {i} s"
      "unat (tx_staged_value_bytes (db_transaction ?s1)) = unat (tx_staged_value_bytes ?t) - mutation_inline_size ?m"
      using remove_staged_value_spec [OF cfg(1) inv F(1)] staging_open_same [OF inv F(1)] F(2)
      by (auto simp: old word_less_nat_alt staged_size_unat)
    have fit: "mutation_inline_size ?m \<le> unat (tx_staged_value_bytes ?t)"
      using staging_invD(4) [OF inv F(1)] by (cases "mutation_inline_size ?m") auto
    then have "unat (tx_staged_value_bytes ?t - ?old) = unat (tx_staged_value_bytes ?t) - mutation_inline_size ?m"
      unfolding old by (subst word_sub_unat) (simp_all add: word_le_nat_alt staged_size_unat)
    then have new: "unat ?new = unat (tx_staged_value_bytes (db_transaction ?s1)) + length val"
      unfolding S(3) using small staged by (subst unat_add_exact) simp_all
    have "s' = enter_staged_value key val kind ?new i ?s1" using s' Some by simp
    then have E: "staging_inv cfg s'" "meanings_except {} s' = insert (key, entered_meaning kind val) (meanings_except {i} s)"
      using enter_staged_value_spec [OF cfg(1) S(1) key len kind' new room] S(2) by simp_all
    have "staged_map s' = (staged_map s)(key \<mapsto> entered_meaning kind val)"
      by (intro staged_map_insert [OF E] meanings_except_one [OF inv F(1) F(2) [symmetric]])
    then show ?thesis using E(1) True manifest by simp
  qed
qed

text \<open>A staged value of no inline bytes becomes a reference.\<close>

definition make_external :: "nat \<Rightarrow> value_ref \<Rightarrow> db \<Rightarrow> db" where
  "make_external i reference s =
     (let t = db_transaction s; m = (tx_mutations t ! i)\<lparr>mu_value_size := vr_value_size reference,
            mu_external_value := True, mu_external_value_ref := reference\<rparr> in
      s\<lparr>db_transaction := t\<lparr>tx_mutations := (tx_mutations t)[i := m]\<rparr>\<rparr>)"

lemma make_external_spec:
  fixes s :: db and i :: nat
  assumes cfg: "valid_config cfg" and inv: "staging_inv cfg s" and i: "i < unat (tx_mutation_count (db_transaction s))"
    and key: "mu_key (tx_mutations (db_transaction s) ! i) = key"
    and none: "mutation_inline_size (tx_mutations (db_transaction s) ! i) = 0"
    and kind: "staged_meaning (db_transaction_staging s) (tx_mutations (db_transaction s) ! i) = Staged_Inline x"
    and ref: "vr_value_size r > cfg_inline_value_size cfg" "value_ref_is_valid r (sg_value_bank_size (mr_geometry (db_manifest s)))"
  shows "staging_inv cfg (make_external i r s)"
    "staged_map (make_external i r s) = (staged_map s)(key \<mapsto> Staged_External r)"
proof -
  let ?s' = "make_external i r s"
  let ?t = "db_transaction s" and ?t' = "db_transaction ?s'" and ?b = "db_transaction_staging s"
  let ?n = "unat (tx_mutation_count ?t)"
  define m where "m = (tx_mutations ?t ! i)\<lparr>mu_value_size := vr_value_size r, mu_external_value := True,
      mu_external_value_ref := r\<rparr>"
  have n: "?n \<le> length (tx_mutations ?t)"
    using cfg staging_invD(2,3) [OF inv i] by (simp add: valid_config_def)
  have s': "tx_mutations ?t' = (tx_mutations ?t)[i := m]" "tx_mutation_count ?t' = tx_mutation_count ?t"
    "tx_staged_value_bytes ?t' = tx_staged_value_bytes ?t" "db_transaction_staging ?s' = ?b" "db_manifest ?s' = db_manifest s"
    by (simp_all add: make_external_def m_def Let_def)
  have mut: "tx_mutations ?t' ! j = (if j = i then m else tx_mutations ?t ! j)" if "j < ?n" for j
    using that n by (simp add: s')
  have M: "mu_key m = key" "mu_external_value m" "mutation_inline_size m = 0" "mu_external_value_ref m = r"
    by (simp_all add: m_def key mutation_inline_size_def)
  have ok: "staged_mutation_ok cfg (mr_geometry (db_manifest s)) m"
    using staging_invD(1) [OF inv i] kind ref
    by (auto simp: staged_mutation_ok_def recovered_mutation_invalid_def m_def staged_meaning_def split: if_splits)
  have lay: "layout (staged_lens ?t') (staged_offs ?t') ?n (unat (tx_staged_value_bytes ?t))"
  proof (rule iffD2 [OF layout_cong])
    show "layout (staged_lens ?t) (staged_offs ?t) ?n (unat (tx_staged_value_bytes ?t))"
      using inv by (simp add: staging_inv_def Let_def)
  qed (use none in \<open>auto simp: staged_lens_def staged_offs_def mut M split: if_splits\<close>)
  have keys: "mu_key (tx_mutations ?t' ! j) = mu_key (tx_mutations ?t ! j)" if "j < ?n" for j
    using that by (simp add: mut M key)
  have oks: "staged_mutation_ok cfg (mr_geometry (db_manifest s)) (tx_mutations ?t' ! j)" if "j < ?n" for j
    using that ok staging_invD(1) [OF inv that] by (simp add: mut)
  show inv': "staging_inv cfg ?s'"
    using inv lay unfolding staging_inv_def Let_def by (auto simp: s'(2-5) keys oks) (simp add: s'(1))
  have split: "{j. j < ?n \<and> j \<notin> {}} = insert i {j. j < ?n \<and> j \<notin> {i}}" using i by auto
  have "(\<lambda>j. (mu_key (tx_mutations ?t' ! j), staged_meaning ?b (tx_mutations ?t' ! j))) ` {j. j < ?n \<and> j \<notin> {i}} =
      (\<lambda>j. (mu_key (tx_mutations ?t ! j), staged_meaning ?b (tx_mutations ?t ! j))) ` {j. j < ?n \<and> j \<notin> {i}}"
    by (intro image_cong) (simp_all add: mut)
  moreover have "(mu_key (tx_mutations ?t' ! i), staged_meaning ?b (tx_mutations ?t' ! i)) = (key, Staged_External r)"
    using i by (simp add: mut M staged_meaning_def)
  ultimately have E: "meanings_except {} ?s' = insert (key, Staged_External r) (meanings_except {i} s)"
    unfolding meanings_except_def s'(2,4) split by simp
  show "staged_map ?s' = (staged_map s)(key \<mapsto> Staged_External r)"
    by (intro staged_map_insert [OF inv' E] meanings_except_one [OF inv i key [symmetric]])
qed

lemma stage_external_update:
  fixes s :: db
  assumes cfg: "valid_config cfg" "staging_fits cfg" and inv: "staging_inv cfg s"
    and stage: "stage_external_value cfg raw key r s = (ret, s')"
  shows "staging_inv cfg s' \<and> db_manifest s' = db_manifest s \<and>
    (if ret = ESP_OK then staged_map s' = (staged_map s)(key \<mapsto> Staged_External r) else s' = s)"
proof -
  let ?g = "mr_geometry (db_manifest s)" and ?bank = "mr_active_value_bank (db_manifest s)"
  let ?ok = "value_ref_matches_bank cfg ?g r ?bank (mr_value_bank_generation (db_manifest s) ! unat ?bank) (sg_value_bank_size ?g)"
  obtain e s1 where s1: "stage_value cfg raw key [] mutation_kind_set s = (e, s1)" by force
  note U = stage_value_update [OF cfg inv impI [OF refl] s1]
  have entered: "entered_meaning mutation_kind_set [] = Staged_Inline []" by (simp add: entered_meaning_def format_consts)
  show ?thesis
  proof (cases "?ok \<and> e = ESP_OK")
    case False
    have "stage_external_value cfg raw key r s = (if ?ok then (e, s1) else (ESP_ERR_INVALID_ARG, s))"
      using False by (simp add: stage_external_value_def Let_def s1)
    then have "ret = (if ?ok then e else ESP_ERR_INVALID_ARG)" "s' = (if ?ok then s1 else s)"
      using stage by (simp_all split: if_splits)
    then show ?thesis using False U inv by (simp split: if_splits)
  next
    case True
    then have ok: ?ok and e: "e = ESP_OK" by blast+
    have large: "vr_value_size r > cfg_inline_value_size cfg"
      using ok by (rule contrapos_pp) (simp add: value_ref_matches_bank_def not_less)
    note ref = large value_ref_matches_bank_D(1) [OF ok]
    have U: "staging_inv cfg s1" "staged_map s1 = (staged_map s)(key \<mapsto> Staged_Inline [])" "db_manifest s1 = db_manifest s"
      using U entered by (simp_all only: e if_True simp_thms)
    have "staged_map s1 key = Some (Staged_Inline [])" by (simp add: U(2))
    then obtain i where i: "find_staged_mutation (db_transaction s1) key = Some i"
      "staged_meaning (db_transaction_staging s1) (tx_mutations (db_transaction s1) ! i) = Staged_Inline []"
      by (auto simp: staged_map_def)
    note F = find_staged_mutation_Some [OF i(1)]
    have none: "mutation_inline_size (tx_mutations (db_transaction s1) ! i) = 0"
    proof (rule ccontr)
      assume "mutation_inline_size (tx_mutations (db_transaction s1) ! i) \<noteq> 0"
      then have "length (get (db_transaction_staging s1) (unat (mu_value_offset (tx_mutations (db_transaction s1) ! i)))
          (mutation_inline_size (tx_mutations (db_transaction s1) ! i))) = mutation_inline_size (tx_mutations (db_transaction s1) ! i)"
        using staging_invD(4,5,6) [OF U(1) F(1)] by (intro length_get) simp
      then show False
        using i(2) \<open>mutation_inline_size _ \<noteq> 0\<close>
        by (auto simp: staged_meaning_def mutation_inline_size_def split: if_splits)
    qed
    note X = make_external_spec [OF cfg(1) U(1) F(1,2) none i(2) ref [folded U(3)]]
    obtain t where "get_transaction cfg s raw = Inr t"
      using s1 True get_transaction_error [of cfg s raw]
      by (auto simp: stage_value_def on_value_def split: if_splits sum.splits)
    then have "get_transaction cfg s1 raw = Inr (db_transaction s1)"
      using get_transaction_cong [OF stage_value_token(1,2) [OF s1]] by simp
    then have "ret = ESP_OK \<and> s' = make_external i r s1"
      using stage True by (simp add: stage_external_value_def s1 i Let_def make_external_def)
    moreover have "db_manifest (make_external i r s1) = db_manifest s1" by (simp add: make_external_def Let_def)
    ultimately show ?thesis using X U by (simp only: if_True fun_upd_upd simp_thms)
  qed
qed

section \<open>Empty and committed transactions\<close>

lemma no_staged:
  assumes "tx_mutation_count (db_transaction s) = 0" "tx_staged_value_bytes (db_transaction s) = 0"
    "length (tx_mutations (db_transaction s)) = max_transaction_mutations"
    "unat (cfg_transaction_staging_size cfg) \<le> length (db_transaction_staging s)"
  shows "staging_inv cfg s" "staged_map s = Map.empty"
  using assms
  by (simp_all add: staging_inv_def layout_def fun_eq_iff staged_map_def find_staged_mutation_find)

lemma clear_transaction_staging:
  assumes "length (db_transaction_staging s) \<ge> unat (cfg_transaction_staging_size cfg)"
  shows "staging_inv cfg (clear_transaction cfg s)" "staged_map (clear_transaction cfg s) = Map.empty"
  by (rule no_staged [where cfg = cfg]; use assms in \<open>simp add: clear_transaction_def Let_def empty_transaction_def\<close>)+

text \<open>What is staged is what the parser of the log accepts.\<close>

lemma staging_inv_recoverable:
  assumes cfg: "valid_config cfg" and inv: "staging_inv cfg s" and some: "tx_mutation_count (db_transaction s) \<noteq> 0"
    and name: "valid_name (hs_namespace_name handle)"
  shows "recoverable_transaction cfg (mr_geometry (db_manifest s)) (db_transaction_staging s) (db_transaction s) handle"
proof -
  let ?t = "db_transaction s"
  let ?n = "unat (tx_mutation_count ?t)"
  have n0: "0 < ?n" using some by (simp add: unat_gt_0)
  note D = staging_invD [OF inv n0]
  have n: "?n \<le> length (tx_mutations ?t)" using cfg D(2,3) by (simp add: valid_config_def)
  have used: "map f (used_mutations ?t) = map (\<lambda>j. f (tx_mutations ?t ! j)) [0..<?n]" for f :: "mutation_slot \<Rightarrow> 'b"
    using n by (intro nth_equalityI) (simp_all add: used_mutations_def)
  have small: "unat (ucast (tx_mutation_count ?t) :: u32) = ?n"
    using unat_less_pow [of "tx_mutation_count ?t"] by (simp add: unsigned_ucast_eq take_bit_nat_eq_self)
  have keys: "\<forall>i<?n. \<forall>j<?n. mu_key (tx_mutations ?t ! i) = mu_key (tx_mutations ?t ! j) \<longrightarrow> i = j"
    and lay: "layout (staged_lens ?t) (staged_offs ?t) ?n (unat (tx_staged_value_bytes ?t))"
    using inv by (simp_all add: staging_inv_def Let_def)
  have each: "recoverable_mutation cfg (mr_geometry (db_manifest s)) (db_transaction_staging s) m"
    if m: "m \<in> set (used_mutations ?t)" for m
  proof -
    obtain j where j: "j < ?n" "m = tx_mutations ?t ! j"
      using m n by (auto simp: used_mutations_def in_set_conv_nth)
    note J = staging_invD [OF inv j(1)]
    have "unat (mu_value_offset m) + unat (mu_value_size m) \<le> length (db_transaction_staging s)"
      if "\<not> mu_external_value m"
      using J(1,6) that j(2) by (simp add: staged_mutation_ok_def)
    then show ?thesis using J(1) by (simp add: recoverable_mutation_def staged_mutation_ok_def j(2))
  qed
  have "distinct (map mu_key (used_mutations ?t))"
    unfolding used using keys by (auto simp: distinct_map inj_on_def)
  moreover have "sum_list (map mutation_inline_size (used_mutations ?t)) = unat (tx_staged_value_bytes ?t)"
    using lay unfolding used by (simp add: layout_def staged_lens_def interv_sum_list_conv_sum_set_nat atLeast0LessThan)
  ultimately show ?thesis
    using some name n D(3,5) each small by (auto simp: recoverable_transaction_def word_le_nat_alt)
qed

end
