(* ===== verification/Wal_Frames.thy ===== *)
theory Wal_Frames
  imports Wal_Log
begin

text \<open>
  The frames of a transaction on a working device: what \<open>write_wal_frames\<close> leaves in the record
  region, and what \<open>read_wal_frames\<close> reads back from it, completely or up to the first frame a power
  loss did not let through.
\<close>

lemma frame_capacity: "wal_frame_payload_capacity = 4032"
  by (simp add: format_consts)

text \<open>Frame \<open>i\<close> of a payload: the slice of the stream it carries.\<close>

definition frame_part :: "bytes \<Rightarrow> nat \<Rightarrow> bytes" where
  "frame_part stream i = get stream (i * wal_frame_payload_capacity)
     (min (length stream - i * wal_frame_payload_capacity) wal_frame_payload_capacity)"

lemma length_frame_part: "length (frame_part stream i) = min (length stream - i * 4032) 4032"
  by (simp add: frame_part_def get_def format_consts min_def)

lemma take_frame_part:
  "take (i * 4032) stream @ frame_part stream i = take (Suc i * 4032) stream"
  "drop (i * 4032) stream = frame_part stream i @ drop (Suc i * 4032) stream"
proof -
  have part: "frame_part stream i = take 4032 (drop (i * 4032) stream)"
    by (simp add: frame_part_def get_def format_consts min_def)
  show "take (i * 4032) stream @ frame_part stream i = take (Suc i * 4032) stream"
    unfolding part by (simp add: take_add [symmetric] add.commute)
  have "drop 4032 (drop (i * 4032) stream) = drop (Suc i * 4032) stream" by (simp add: add.commute)
  then show "drop (i * 4032) stream = frame_part stream i @ drop (Suc i * 4032) stream"
    unfolding part by (metis append_take_drop_id)
qed

text \<open>
  What is written for frame \<open>i\<close>, and what the header is decoded to. The transaction, the slot and the
  sequence are those of the state.
\<close>

definition frame_header :: "db \<Rightarrow> u32 \<Rightarrow> bytes \<Rightarrow> nat \<Rightarrow> nat \<Rightarrow> wal_frame_header" where
  "frame_header s slot stream k i =
     wal_frame_of s slot (of_nat (length stream)) (calc_crc32 stream) k i (length (frame_part stream i))"

definition frame_bytes :: "db \<Rightarrow> u32 \<Rightarrow> bytes \<Rightarrow> nat \<Rightarrow> nat \<Rightarrow> bytes option" where
  "frame_bytes s slot stream k i =
     encode_wal_frame (zeroes wal_frame_size) (frame_header s slot stream k i) (frame_part stream i)"

definition decoded_header :: "db \<Rightarrow> u32 \<Rightarrow> bytes \<Rightarrow> nat \<Rightarrow> nat \<Rightarrow> wal_frame_header" where
  "decoded_header s slot stream k i =
     (frame_header s slot stream k i)\<lparr>wf_payload_checksum := calc_crc32 (frame_part stream i)\<rparr>"

lemma frame_bytes_decoded:
  assumes "frame_bytes s slot stream k i = Some f"
  shows "decode_wal_frame f = Inr (decoded_header s slot stream k i, frame_part stream i)" "length f = 4096"
proof -
  have "\<not> wal_frame_invalid (frame_header s slot stream k i)"
    "length (frame_part stream i) = unat (wf_payload_size (frame_header s slot stream k i))"
    "length (frame_part stream i) \<le> 4032"
    using assms by (auto simp: frame_bytes_def encode_wal_frame_def format_consts split: if_splits)
  from wal_frame_roundtrip [OF this, of "zeroes 4096"]
  show "decode_wal_frame f = Inr (decoded_header s slot stream k i, frame_part stream i)" "length f = 4096"
    using assms by (auto simp: frame_bytes_def decoded_header_def format_consts)
qed

text \<open>The frames a transaction of this size has.\<close>

definition frames_fit :: "bytes \<Rightarrow> nat \<Rightarrow> bool" where
  "frames_fit stream k \<longleftrightarrow> length stream < 2 ^ 32 \<and> k < 2 ^ 16 \<and> length stream \<le> k * 4032 \<and> (\<forall>j<k. j * 4032 < length stream)"

lemma wal_frame_count_fits:
  assumes "0 < length stream" "length stream \<le> 2 ^ 27"
  shows "frames_fit stream (unat (wal_frame_count (of_nat (length stream))))" "0 < unat (wal_frame_count (of_nat (length stream)))"
    "unat (wal_transaction_bytes (of_nat (length stream))) = unat (wal_frame_count (of_nat (length stream))) * 4096"
proof -
  let ?L = "length stream" and ?k = "unat (wal_frame_count (of_nat (length stream)))"
  have L: "unat (of_nat ?L :: u32) = ?L" using assms(2) by (intro unat_of_nat_eq) simp
  have "unat (of_nat ?L + of_nat wal_frame_payload_capacity - 1 :: u32) = ?L + 4031"
    using assms L by (simp add: frame_capacity unat_add_exact unat_sub word_le_nat_alt)
  then have k: "?k = (?L + 4031) div 4032"
    by (simp add: wal_frame_count_def frame_capacity unat_div)
  have "?k * 4032 + (?L + 4031) mod 4032 = ?L + 4031" unfolding k by (rule div_mult_mod_eq)
  moreover have "(?L + 4031) mod 4032 < 4032" by simp
  ultimately have bounds: "?k * 4032 \<le> ?L + 4031" "?L + 4031 < ?k * 4032 + 4032" by linarith+
  have small: "?k < 2 ^ 16" using assms(2) unfolding k by (simp add: div_less_iff_less_mult)
  show "0 < ?k" using assms(1) bounds by (cases ?k) simp_all
  show "frames_fit stream ?k"
    unfolding frames_fit_def
  proof (intro conjI allI impI)
    show "?L \<le> ?k * 4032" using bounds by simp
    show "j * 4032 < ?L" if "j < ?k" for j
    proof -
      have "Suc j * 4032 \<le> ?k * 4032" using that by (intro mult_le_mono1) simp
      then show ?thesis using bounds by simp
    qed
  qed (use assms small in simp_all)
  have "unat (ucast (wal_frame_count (of_nat ?L)) :: u64) = ?k"
    using unat_less_pow [of "wal_frame_count (of_nat ?L)"] by (simp add: unsigned_ucast_eq take_bit_nat_eq_self)
  then show "unat (wal_transaction_bytes (of_nat ?L)) = ?k * 4096"
    using small by (simp add: wal_transaction_bytes_def format_consts unat_mult_exact)
qed

lemma frame_bytes_exist:
  assumes "frames_fit stream k" "i < k" "mr_database_id (db_manifest s) \<noteq> 0"
    "mr_wal_generation (db_manifest s) ! unat slot \<noteq> 0" "db_next_transaction_sequence s \<noteq> 0"
    "tx_mutation_count (db_transaction s) \<noteq> 0" "unat (tx_mutation_count (db_transaction s)) \<le> 10"
  shows "\<exists>f. frame_bytes s slot stream k i = Some f"
proof -
  have fit: "0 < length stream" "length stream < 2 ^ 32" "k < 2 ^ 16" using assms(1,2) by (auto simp: frames_fit_def)
  have u: "unat (of_nat i :: u16) = i" "unat (of_nat k :: u16) = k" "unat (of_nat (length stream) :: u32) = length stream"
    "unat (of_nat (length (frame_part stream i)) :: u32) = length (frame_part stream i)"
    using fit assms(2) length_frame_part [of stream i] by (intro unat_of_nat_eq; simp)+
  have zero: "(of_nat (length stream) :: u32) \<noteq> 0" "(of_nat k :: u16) \<noteq> 0"
    using fit(1) assms(2) u by (auto simp: unat_eq_zero [symmetric])
  have "length (frame_part stream i) \<le> length stream" by (simp add: length_frame_part)
  then have "\<not> wal_frame_invalid (frame_header s slot stream k i)"
    using assms(2-7) zero fit
    by (auto simp: wal_frame_invalid_def wal_final_frame_def frame_header_def wal_frame_of_def u format_consts
        word_less_nat_alt word_le_nat_alt)
  moreover have "length (frame_part stream i) = unat (wf_payload_size (frame_header s slot stream k i))"
    by (simp add: frame_header_def wal_frame_of_def u)
  moreover have "length (frame_part stream i) \<le> 4032" by (simp add: length_frame_part)
  ultimately show ?thesis
    using wal_frame_roundtrip [of "frame_header s slot stream k i" "frame_part stream i" "zeroes 4096"]
    by (auto simp: frame_bytes_def format_consts)
qed

section \<open>Writing\<close>

text \<open>Frames \<open>i..<k\<close> of the stream are in the slot, from \<open>tail\<close> on.\<close>

definition frames_stored :: "config \<Rightarrow> ('d \<Rightarrow> bytes) \<Rightarrow> u32 \<Rightarrow> nat \<Rightarrow> bytes \<Rightarrow> nat \<Rightarrow> nat set \<Rightarrow> db \<Rightarrow> 'd world \<Rightarrow> bool" where
  "frames_stored cfg img slot tail stream k I s w \<longleftrightarrow>
     (\<forall>i\<in>I. frame_bytes s slot stream k i = Some (get (store_bytes cfg img w kind_wal slot) (tail + i * 4096) 4096))"

lemma wal_frame_offset:
  assumes "unat tail + k * 4096 < 2 ^ 64" "i < k"
  shows "unat (ucast (tail :: u32) + of_nat i * of_nat wal_frame_size :: u64) = unat tail + i * 4096"
proof -
  have "unat (ucast tail :: u64) = unat tail"
    using unat_less_pow [of tail] by (simp add: unsigned_ucast_eq take_bit_nat_eq_self)
  moreover have "unat tail + i * 4096 < 2 ^ 64" using assms by simp
  moreover from this have "unat (of_nat (i * 4096) :: u64) = i * 4096" by (intro unat_of_nat_eq) simp
  ultimately have "unat (ucast tail + of_nat (i * 4096) :: u64) = unat tail + i * 4096"
    by (subst unat_add_exact) simp_all
  then show ?thesis by (simp add: format_consts)
qed

lemma write_wal_frames_stored:
  assumes "working_store cfg dev img w" "unat slot < 2"
    and "tail = db_wal_tail (snd w) ! unat slot" "4096 dvd unat tail" "unat tail + k * 4096 \<le> store_size cfg w kind_wal"
    and "values_staged (db_transaction_staging (snd w)) (db_transaction (snd w))"
    and "stream = transaction_stream (db_transaction_staging (snd w)) (db_transaction (snd w)) handle"
    and "length stream < 2 ^ 32" "i \<le> k" "\<forall>j<k. j * 4032 < length stream"
    and "\<forall>j<k. \<exists>f. frame_bytes (snd w) slot stream k j = Some f" "i < k \<longrightarrow> p = i * 4032"
  shows "\<exists>w'. write_wal_frames cfg dev handle slot (of_nat (length stream)) (calc_crc32 stream) k [i..<k] p w = (ESP_OK, w') \<and>
    working_store cfg dev img w' \<and> snd w' = snd w \<and>
    frames_stored cfg img slot (unat tail) stream k {i..<k} (snd w) w' \<and>
    (\<forall>off n. off + n \<le> unat tail + i * 4096 \<longrightarrow>
       get (store_bytes cfg img w' kind_wal slot) off n = get (store_bytes cfg img w kind_wal slot) off n)"
  using assms
proof (induction "k - i" arbitrary: i w p)
  case 0
  then have "i = k" by simp
  then show ?case using 0 by (simp add: frames_stored_def)
next
  case (Suc d)
  note prems = Suc.prems
  let ?s = "snd w"
  have ik: "i < k" "k - Suc i = d" using Suc.hyps(2) by simp_all
  have upt: "[i..<k] = i # [Suc i..<k]" using ik by (simp add: upt_conv_Cons)
  have size: "unat (of_nat (length stream) :: u32) = length stream" using prems(8) by (intro unat_of_nat_eq) simp
  have p: "p < length stream" "p = i * 4032" using prems(10,12) ik by auto
  have off: "unat (of_nat p :: u32) = p" using prems(8) p by (intro unat_of_nat_eq) simp
  let ?n = "min (length stream - p) 4032"
  have len: "length stream = transaction_payload_size (db_transaction ?s) handle"
    using length_transaction_stream [OF prems(6), of handle] prems(7) by simp
  have part: "frame_part stream i = get stream p ?n" by (simp add: frame_part_def format_consts p(2))
  have copy: "copy_transaction_payload (db_transaction_staging ?s) (db_transaction ?s) handle (of_nat p) (zeroes ?n) =
      Inr (frame_part stream i)"
    using copy_transaction_payload_stream [OF prems(6), of handle "of_nat p" "zeroes ?n"] len prems(8) p(1)
    by (simp add: off prems(7) [symmetric] part)
  have n: "?n = length (frame_part stream i)" by (simp add: length_frame_part p(2))
  obtain f where f: "frame_bytes ?s slot stream k i = Some f" using prems(11) ik by blast
  note D = frame_bytes_decoded [OF f]
  have off64: "unat (ucast tail + of_nat i * of_nat wal_frame_size :: u64) = unat tail + i * 4096"
    using prems(5) ik region_size_bound [of "db_geometry cfg ?s" kind_wal]
    by (intro wal_frame_offset [where k = k]) (simp_all add: store_size_def)
  have bound: "unat tail + i * 4096 + 4096 \<le> store_size cfg w kind_wal"
  proof -
    have "Suc i * 4096 \<le> k * 4096" using ik by (intro mult_le_mono1) simp
    then show ?thesis using prems(5) by simp
  qed
  obtain d' where W: "write_store cfg dev kind_wal slot (ucast tail + of_nat i * of_nat wal_frame_size) f w = (ESP_OK, d', ?s)"
    "working_store cfg dev img (d', ?s)"
    "store_bytes cfg img (d', ?s) kind_wal slot = put (store_bytes cfg img w kind_wal slot) (unat tail + i * 4096) f"
  proof (rule write_store_ok [OF prems(1) wal_region(1) [OF prems(1,2)],
        of "ucast tail + of_nat i * of_nat wal_frame_size" f])
    show "unat (ucast tail + of_nat i * of_nat wal_frame_size :: u64) + length f \<le> store_size cfg w kind_wal"
      unfolding off64 D(2) using bound by simp
    show "4096 dvd unat (ucast tail + of_nat i * of_nat wal_frame_size :: u64)"
      unfolding off64 using prems(4) by simp
    show "4096 dvd length f" by (simp add: D(2))
  qed (use that off64 in simp)
  let ?w1 = "(d', ?s)"
  have B: "length (store_bytes cfg img w kind_wal slot) = store_size cfg w kind_wal"
    by (rule length_store_bytes [OF prems(1) wal_region(1) [OF prems(1,2)]])
  have next_p: "Suc i < k \<longrightarrow> p + ?n = Suc i * 4032"
    using prems(10) p by (auto simp: min_def)
  have "\<exists>w'. write_wal_frames cfg dev handle slot (of_nat (length stream)) (calc_crc32 stream) k [Suc i..<k] (p + ?n) ?w1 = (ESP_OK, w') \<and>
    working_store cfg dev img w' \<and> snd w' = snd ?w1 \<and>
    frames_stored cfg img slot (unat tail) stream k {Suc i..<k} (snd ?w1) w' \<and>
    (\<forall>off n. off + n \<le> unat tail + Suc i * 4096 \<longrightarrow>
       get (store_bytes cfg img w' kind_wal slot) off n = get (store_bytes cfg img ?w1 kind_wal slot) off n)"
    by (rule Suc.hyps(1) [OF ik(2) [symmetric] _ _ _ _ _ _ _ _ _ _ _ next_p])
       (use W(2) prems(2-8,10,11) ik in simp_all)
  then obtain w' where rest: "write_wal_frames cfg dev handle slot (of_nat (length stream)) (calc_crc32 stream) k [Suc i..<k] (p + ?n) ?w1 = (ESP_OK, w')"
    and IH: "working_store cfg dev img w'" "snd w' = ?s" "frames_stored cfg img slot (unat tail) stream k {Suc i..<k} ?s w'"
      "\<And>off n. off + n \<le> unat tail + Suc i * 4096 \<Longrightarrow>
         get (store_bytes cfg img w' kind_wal slot) off n = get (store_bytes cfg img ?w1 kind_wal slot) off n"
    by auto
  have all: "write_wal_frames cfg dev handle slot (of_nat (length stream)) (calc_crc32 stream) k [i..<k] p w = (ESP_OK, w')"
    using copy f W(1) rest
    by (simp add: upt Let_def size frame_capacity n [symmetric] prems(3) [symmetric] frame_bytes_def frame_header_def)
  have here: "get (store_bytes cfg img w' kind_wal slot) (unat tail + i * 4096) 4096 = f"
    using IH(4) bound D(2) B by (simp add: W(3) get_put_same)
  have "frames_stored cfg img slot (unat tail) stream k {i..<k} ?s w'"
    unfolding frames_stored_def
  proof
    fix j assume "j \<in> {i..<k}"
    then consider "j = i" | "j \<in> {Suc i..<k}" by force
    then show "frame_bytes ?s slot stream k j = Some (get (store_bytes cfg img w' kind_wal slot) (unat tail + j * 4096) 4096)"
      using IH(3) here f by cases (simp_all add: frames_stored_def)
  qed
  moreover have "get (store_bytes cfg img w' kind_wal slot) off n = get (store_bytes cfg img w kind_wal slot) off n"
    if "off + n \<le> unat tail + i * 4096" for off n
    using IH(4) that by (simp add: W(3) get_put_before)
  ultimately show ?case using IH(1,2) all by blast
qed

section \<open>Reading\<close>

lemma read_wal_frame:
  assumes "working_store cfg dev img w" "unat slot < 2" "tail + k * 4096 \<le> store_size cfg w kind_wal" "i < k"
  shows "read_store cfg dev kind_wal slot (of_nat (tail + i * wal_frame_size)) wal_frame_size w =
    Inr (get (store_bytes cfg img w kind_wal slot) (tail + i * 4096) 4096)"
proof -
  have "Suc i * 4096 \<le> k * 4096" using assms(4) by (intro mult_le_mono1) simp
  then have bound: "tail + i * 4096 + 4096 \<le> store_size cfg w kind_wal" using assms(3) by simp
  then have "unat (of_nat (tail + i * 4096) :: u64) = tail + i * 4096"
    using region_size_bound [of "db_geometry cfg (snd w)" kind_wal] by (intro unat_of_nat_eq) (simp add: store_size_def)
  then show ?thesis
    using read_store_ok [OF assms(1) wal_region(1) [OF assms(1,2)], of "of_nat (tail + i * 4096)" 4096] bound
    by (simp add: format_consts del: of_nat_add of_nat_mult)
qed

lemma frame_part_continues:
  assumes "frames_fit stream k" "i < k"
  shows "frame_continues (decoded_header s slot stream k 0) i (length (take (i * 4032) stream)) (decoded_header s slot stream k i)"
proof -
  have "i * 4032 < length stream" "k < 2 ^ 16" "length stream < 2 ^ 32" using assms by (auto simp: frames_fit_def)
  moreover have "unat (of_nat i :: u16) = i" using calculation assms(2) by (intro unat_of_nat_eq) simp
  moreover have "unat (of_nat (length (frame_part stream i)) :: u32) = length (frame_part stream i)"
    using calculation by (intro unat_of_nat_eq) (simp add: length_frame_part)
  moreover have "unat (of_nat (length stream) :: u32) = length stream" using calculation by (intro unat_of_nat_eq) simp
  ultimately show ?thesis
    by (simp add: frame_continues_def decoded_header_def frame_header_def wal_frame_of_def length_frame_part)
qed

text \<open>The frames that are there are read one by one; what follows decides how the scan ends.\<close>

lemma read_stored_frames:
  assumes "working_store cfg dev img w" "unat slot < 2" "tail + k * 4096 \<le> store_size cfg w kind_wal"
    and "frames_fit stream k" "frames_stored cfg img slot tail stream k {i..<j} s w" "i \<le> j" "j \<le> k"
  shows "read_wal_frames cfg dev slot tail (decoded_header s slot stream k 0) [i..<k] (take (i * 4032) stream)
      (calc_crc32_update (- 1) (take (i * 4032) stream)) w =
    read_wal_frames cfg dev slot tail (decoded_header s slot stream k 0) [j..<k] (take (j * 4032) stream)
      (calc_crc32_update (- 1) (take (j * 4032) stream)) w"
  using assms(5,6)
proof (induction "j - i" arbitrary: i)
  case (Suc d)
  have ij: "i < j" "i < k" "j - Suc i = d" using Suc.hyps(2) assms(7) by simp_all
  have "frame_bytes s slot stream k i = Some (get (store_bytes cfg img w kind_wal slot) (tail + i * 4096) 4096)"
    using Suc.prems(1) ij by (simp add: frames_stored_def)
  note D = frame_bytes_decoded(1) [OF this]
  have "read_wal_frames cfg dev slot tail (decoded_header s slot stream k 0) [i..<k] (take (i * 4032) stream)
      (calc_crc32_update (- 1) (take (i * 4032) stream)) w =
    read_wal_frames cfg dev slot tail (decoded_header s slot stream k 0) [Suc i..<k] (take (Suc i * 4032) stream)
      (calc_crc32_update (- 1) (take (Suc i * 4032) stream)) w"
    using frame_part_continues [OF assms(4) ij(2), of s slot]
    by (simp add: upt_conv_Cons [OF ij(2)] read_wal_frame [OF assms(1-3) ij(2)] D take_frame_part(1) [symmetric]
        calc_crc32_update_append del: mult_Suc of_nat_add of_nat_mult)
  then show ?case
    using Suc.hyps(1) [OF ij(3) [symmetric]] Suc.prems(1) ij by (simp add: frames_stored_def)
qed simp

lemma read_complete_frames:
  assumes "working_store cfg dev img w" "unat slot < 2" "tail + k * 4096 \<le> store_size cfg w kind_wal"
    and "frames_fit stream k" "frames_stored cfg img slot tail stream k {0..<k} s w"
  shows "read_wal_frames cfg dev slot tail (decoded_header s slot stream k 0) [0..<k] [] (- 1) w =
    Inr (Complete stream (calc_crc32_update (- 1) stream))"
  using read_stored_frames [OF assms] assms(4) by (simp add: frames_fit_def)

text \<open>A frame that did not get through, or that belongs to something else, tears the transaction.\<close>

definition frame_missing :: "wal_frame_header \<Rightarrow> nat \<Rightarrow> nat \<Rightarrow> bytes \<Rightarrow> bool" where
  "frame_missing first i read_before frame \<longleftrightarrow>
     (case decode_wal_frame frame of Inl status \<Rightarrow> \<not> version_status status
      | Inr (h, part) \<Rightarrow> \<not> frame_continues first i read_before h)"

lemma read_torn_frames:
  assumes "working_store cfg dev img w" "unat slot < 2" "tail + k * 4096 \<le> store_size cfg w kind_wal"
    and "frames_fit stream k" "frames_stored cfg img slot tail stream k {0..<j} s w" "j < k"
    and "frame_missing (decoded_header s slot stream k 0) j (j * 4032)
           (get (store_bytes cfg img w kind_wal slot) (tail + j * 4096) 4096)"
  shows "read_wal_frames cfg dev slot tail (decoded_header s slot stream k 0) [0..<k] [] (- 1) w =
    Inr (Torn j (take (j * 4032) stream))"
proof -
  have "length (take (j * 4032) stream) = j * 4032" using assms(4,6) by (auto simp: frames_fit_def)
  then have "read_wal_frames cfg dev slot tail (decoded_header s slot stream k 0) [j..<k] (take (j * 4032) stream)
      (calc_crc32_update (- 1) (take (j * 4032) stream)) w = Inr (Torn j (take (j * 4032) stream))"
    using assms(7)
    by (auto simp: upt_conv_Cons [OF assms(6)] read_wal_frame [OF assms(1-3,6)] frame_missing_def simp del: of_nat_add of_nat_mult split: sum.splits)
  then show ?thesis using read_stored_frames [OF assms(1-5)] assms(6) by simp
qed

section \<open>The end of the log\<close>

text \<open>A place of the region that holds no frame of this database and generation.\<close>

definition frame_dead :: "u64 \<Rightarrow> u64 \<Rightarrow> bytes \<Rightarrow> bool" where
  "frame_dead database_id generation frame \<longleftrightarrow>
     (case decode_wal_frame frame of Inl status \<Rightarrow> \<not> version_status status
      | Inr (h, part) \<Rightarrow> wf_database_id h \<noteq> database_id \<or> wf_wal_generation h \<noteq> generation)"

lemma read_region:
  assumes "working_store cfg dev img w" "unat slot < 2" "offset + 4096 \<le> store_size cfg w kind_wal"
  shows "read_store cfg dev kind_wal slot (of_nat offset) wal_frame_size w =
    Inr (get (store_bytes cfg img w kind_wal slot) offset 4096)"
  using read_wal_frame [OF assms(1,2), of offset 1 0] assms(3) by simp

text \<open>A place that holds no frame of this generation from the given sequence on.\<close>

definition frame_stale :: "u64 \<Rightarrow> u64 \<Rightarrow> u64 \<Rightarrow> bytes \<Rightarrow> bool" where
  "frame_stale database_id generation sequence frame \<longleftrightarrow>
     (case decode_wal_frame frame of Inl status \<Rightarrow> \<not> version_status status
      | Inr (h, part) \<Rightarrow> wf_database_id h \<noteq> database_id \<or> wf_wal_generation h \<noteq> generation \<or> wf_transaction_sequence h < sequence)"

lemma dead_stale: "frame_dead database_id generation frame \<Longrightarrow> frame_stale database_id generation sequence frame"
  by (auto simp: frame_dead_def frame_stale_def split: sum.splits)

text \<open>
  What a torn append leaves in the slot: the frames \<open>I\<close> of the transaction at their places, no frame of this log
  generation at the place of the first one if that is missing, and at every other place up to the end of the slot
  nothing newer than the transactions before it.
\<close>

definition torn_frames ::
  "config \<Rightarrow> ('d \<Rightarrow> bytes) \<Rightarrow> u32 \<Rightarrow> nat \<Rightarrow> nat \<Rightarrow> bytes \<Rightarrow> nat \<Rightarrow> nat set \<Rightarrow> db \<Rightarrow> 'd world \<Rightarrow> bool" where
  "torn_frames cfg img slot tail region_end stream k I s v \<longleftrightarrow>
     (let database_id = mr_database_id (db_manifest s); generation = mr_wal_generation (db_manifest s) ! unat slot;
          place = (\<lambda>i. get (store_bytes cfg img v kind_wal slot) (tail + i * 4096) 4096) in
      I \<subset> {0..<k} \<and> frames_stored cfg img slot tail stream k I s v \<and>
      (0 \<notin> I \<longrightarrow> frame_dead database_id generation (place 0)) \<and>
      (\<forall>i. i \<notin> I \<longrightarrow> tail + i * 4096 + 4096 \<le> region_end \<longrightarrow>
         frame_stale database_id generation (db_next_transaction_sequence s) (place i)))"

lemma torn_framesD:
  assumes "torn_frames cfg img slot tail region_end stream k I s v"
  shows "I \<subset> {0..<k}" "frames_stored cfg img slot tail stream k I s v"
    "0 \<notin> I \<Longrightarrow> frame_dead (mr_database_id (db_manifest s)) (mr_wal_generation (db_manifest s) ! unat slot)
       (get (store_bytes cfg img v kind_wal slot) tail 4096)"
    "i \<notin> I \<Longrightarrow> tail + i * 4096 + 4096 \<le> region_end \<Longrightarrow>
       frame_stale (mr_database_id (db_manifest s)) (mr_wal_generation (db_manifest s) ! unat slot) (db_next_transaction_sequence s)
         (get (store_bytes cfg img v kind_wal slot) (tail + i * 4096) 4096)"
  using assms by (simp_all add: torn_frames_def Let_def)

lemma decoded_identity:
  "wf_transaction_sequence (decoded_header s slot stream k i) = db_next_transaction_sequence s"
  "wf_database_id (decoded_header s slot stream k i) = mr_database_id (db_manifest s)"
  "wf_wal_generation (decoded_header s slot stream k i) = mr_wal_generation (db_manifest s) ! unat slot"
  by (simp_all add: decoded_header_def frame_header_def wal_frame_of_def)

text \<open>The search behind the tear answers whether a frame of the transaction lies there.\<close>

lemma search_torn:
  assumes dev: "working_store cfg dev img v" and slot: "unat slot < 2"
    and torn: "torn_frames cfg img slot tail region_end stream k I s v"
    and region: "tail + k * 4096 \<le> region_end" "region_end \<le> store_size cfg v kind_wal"
    and same: "mr_database_id (db_manifest (snd v)) = mr_database_id (db_manifest s)"
  shows "search_later_frame cfg dev slot (tail + n * 4096) region_end (mr_wal_generation (db_manifest s) ! unat slot)
    (db_next_transaction_sequence s) v = Inr (\<exists>i\<in>I. n \<le> i)"
proof (induction "region_end - (tail + n * 4096)" arbitrary: n rule: less_induct)
  case less
  note T = torn_framesD [OF torn]
  have size: "wal_frame_size = 4096" by (simp add: format_consts)
  show ?case
  proof (cases "tail + n * 4096 + 4096 \<le> region_end")
    case True
    note read = read_region [OF dev slot, of "tail + n * 4096"]
    show ?thesis
    proof (cases "n \<in> I")
      case here: True
      then have "frame_bytes s slot stream k n = Some (get (store_bytes cfg img v kind_wal slot) (tail + n * 4096) 4096)"
        using T(2) by (simp add: frames_stored_def)
      note F = frame_bytes_decoded(1) [OF this]
      have "\<exists>i\<in>I. n \<le> i" using here by blast
      then show ?thesis
        using True read region(2) F same
        by (subst search_later_frame.simps) (simp add: size decoded_identity del: of_nat_add of_nat_mult)
    next
      case gone: False
      define p where "p = tail + n * 4096"
      note stale = T(4) [OF gone True, folded p_def, unfolded frame_stale_def]
      have same_answer: "(\<exists>i\<in>I. Suc n \<le> i) = (\<exists>i\<in>I. n \<le> i)" using gone by (metis Suc_leD Suc_leI le_neq_implies_less)
      have "tail + Suc n * 4096 = p + 4096" by (simp add: p_def)
      note rest = less.hyps [of "Suc n", unfolded this same_answer]
      have rest: "search_later_frame cfg dev slot (p + 4096) region_end (mr_wal_generation (db_manifest s) ! unat slot)
          (db_next_transaction_sequence s) v = Inr (\<exists>i\<in>I. n \<le> i)"
        by (rule rest) (use True p_def in simp)
      show ?thesis
        unfolding p_def [symmetric]
        using True [folded p_def] read [folded p_def] region(2) stale rest same
        by (subst search_later_frame.simps) (auto simp: size not_less split: sum.splits)
    qed
  next
    case False
    have "\<not> n \<le> i" if "i \<in> I" for i
    proof
      assume "n \<le> i"
      then have "Suc n * 4096 \<le> k * 4096" using T(1) that by (intro mult_le_mono1) auto
      then show False using False region(1) by simp
    qed
    then show ?thesis using False by (subst search_later_frame.simps) (auto simp: size)
  qed
qed

end
