(* ===== verification/Sample_State.thy ===== *)
theory Sample_State
  imports Staging Wal_Frames Storage_Correctness Memtable_Correctness
begin

text \<open>
  A concrete state for the examples that follow the properties: the host build on a device in memory,
  with one open handle and a current transaction that has staged one inline value.
\<close>

definition sample_staged :: mutation_slot where
  "sample_staged = empty_mutation\<lparr>mu_kind := mutation_kind_set, mu_key := [98], mu_value_size := 3\<rparr>"

definition sample_handle :: handle_slot where
  "sample_handle = \<lparr>hs_generation = 1, hs_used = True, hs_transaction_active = True, hs_mode = read_write,
     hs_namespace_name = [97]\<rparr>"

definition sample_open :: transaction_slot where
  "sample_open = empty_transaction\<lparr>tx_generation := 1, tx_handle_generation := 1, tx_active := True,
     tx_mutation_count := 1, tx_staged_value_bytes := 3, tx_mutations := (tx_mutations empty_transaction)[0 := sample_staged]\<rparr>"

definition sample_db :: db where
  "sample_db = host_db\<lparr>db_initialized := True, db_handles := (db_handles host_db)[0 := sample_handle],
     db_transaction := sample_open, db_transaction_staging := put (db_transaction_staging host_db) 0 [1, 2, 3],
     db_wal_tail := [16384, 16384], db_next_transaction_sequence := 21, db_handle_generation_counter := 2,
     db_transaction_generation_counter := 2\<rparr>"

definition sample_world :: "bytes world" where
  "sample_world = (host_image, sample_db)"

definition sample_device :: "bytes block_device" where
  "sample_device = memory_device 512"

lemma sample_geometry: "mr_geometry (db_manifest sample_db) = get_build_geometry host_config"
  "db_geometry host_config sample_db = get_build_geometry host_config"
  by (simp_all add: sample_db_def host_db_def sample_manifest_def db_geometry_def)

lemma sample_store: "working_store host_config sample_device id sample_world"
  using host_storage by (simp add: working_store_def sample_world_def sample_device_def sample_geometry)

lemma sample_transaction_open:
  "tx_mutation_count (db_transaction sample_db) = 1" "tx_active (db_transaction sample_db)"
  "tx_mutations (db_transaction sample_db) ! 0 = sample_staged" "tx_staged_value_bytes (db_transaction sample_db) = 3"
  "length (tx_mutations (db_transaction sample_db)) = max_transaction_mutations"
  by (simp_all add: sample_db_def sample_open_def empty_transaction_def max_transaction_mutations_def)

lemma sample_staging: "staging_inv host_config sample_db"
proof -
  have "staged_mutation_ok host_config g sample_staged" for g
    by (simp add: staged_mutation_ok_def recovered_mutation_invalid_def sample_staged_def empty_mutation_def
        valid_name_length host_config_def format_consts)
  moreover have "layout (staged_lens (db_transaction sample_db)) (staged_offs (db_transaction sample_db)) 1 3"
    by (simp add: layout_def staged_lens_def staged_offs_def sample_transaction_open mutation_inline_size_def)
       (simp add: sample_staged_def empty_mutation_def)
  moreover have "length (db_transaction_staging sample_db) = 8192 + transaction_recovery_overhead"
    by (simp add: sample_db_def host_db_def initial_db_def host_config_def)
  ultimately show ?thesis
    by (simp add: staging_inv_def sample_transaction_open) (simp add: host_config_def)
qed

lemma sample_name: "valid_name (hs_namespace_name sample_handle)"
  by (simp add: sample_handle_def valid_name_length)

text \<open>The token of slot 0 in generation 1 names both the handle and the transaction.\<close>

lemma sample_token: "decode_handle_value 513 = Some (0, 1)"
  by (simp add: decode_handle_value_def handle_consts)

lemma sample_handle_at: "db_handles sample_db ! 0 = sample_handle" "transaction_handle sample_db = sample_handle"
  by (simp_all add: sample_db_def host_db_def initial_db_def host_config_def transaction_handle_def sample_open_def
      empty_transaction_def)

lemma sample_get_transaction: "get_transaction host_config sample_db 513 = Inr (db_transaction sample_db)"
proof -
  have "tx_handle_slot_index (db_transaction sample_db) = 0" "tx_generation (db_transaction sample_db) = 1"
    "tx_handle_generation (db_transaction sample_db) = 1"
    by (simp_all add: sample_db_def sample_open_def empty_transaction_def)
  then show ?thesis
    using sample_transaction_open(2)
    by (simp add: get_transaction_def sample_token Let_def sample_handle_at(1)) (simp add: sample_handle_def host_config_def)
qed

lemma sample_allowed: "operation_allowed sample_db"
  by (simp add: operation_allowed_def diagnostics_allowed_def sample_db_def host_db_def initial_db_def)

lemma sample_fields:
  "db_manifest sample_db = sample_manifest" "db_wal_tail sample_db = [16384, 16384]" "db_next_transaction_sequence sample_db = 21"
  "\<not> db_manifest_stabilization_required sample_db" "mr_active_wal_slot sample_manifest = 1" "mr_database_id sample_manifest = 77"
  "mr_wal_generation sample_manifest = [3, 4]" "mr_geometry sample_manifest = get_build_geometry host_config"
  "mr_safe_checkpoint_sequence sample_manifest = 20" "sg_wal_size (get_build_geometry host_config) = 65536"
  "sg_provisioned_size (get_build_geometry host_config) = 1155072" "snd sample_world = sample_db"
  by (simp_all add: sample_db_def host_db_def initial_db_def sample_manifest_def get_build_geometry_def host_config_def sample_world_def)

end
