(* ===== verification/Wal_Correctness.thy ===== *)
theory Wal_Correctness
  imports Sample_State
begin

text \<open>
  What the log guarantees. The payload of a staged transaction is parsed back to a transaction that
  stages the same values; the slices the frames are filled from are slices of it; the frames a commit
  writes are read back by the recovery as this payload with the checksum that was recorded for it.
\<close>

section \<open>The recovered transaction stages the same values\<close>

lemma get_of_get: "get b off n = x \<Longrightarrow> i + k \<le> n \<Longrightarrow> get b (off + i) k = get x i k"
  by (auto simp: get_get)

lemma recovered_mutations_meaning:
  assumes "get payload off (length (concat (concat (map (mutation_segments staging) ms)))) =
       concat (concat (map (mutation_segments staging) ms))"
    "\<forall>m \<in> set ms. recoverable_mutation cfg g staging m"
    "off + length (concat (concat (map (mutation_segments staging) ms))) < 2 ^ 32" "j < length ms"
  shows "staged_meaning payload (recovered_mutations off ms ! j) = staged_meaning staging (ms ! j)"
  using assms
proof (induction ms arbitrary: off j)
  case (Cons m ms)
  let ?E = "concat (mutation_segments staging m)" and ?R = "concat (concat (map (mutation_segments staging) ms))"
  have ok: "recoverable_mutation cfg g staging m" using Cons.prems(2) by simp
  have size: "length ?E = mutation_payload_size m"
    using ok by (intro length_mutation_segments) (simp add: recoverable_mutation_def)
  have E: "get payload off (mutation_payload_size m + length ?R) = ?E @ ?R"
    using Cons.prems(1) by (simp add: size [symmetric] del: length_concat)
  have bound: "off + mutation_payload_size m + length ?R < 2 ^ 32"
    using Cons.prems(3) by (simp add: size [symmetric] del: length_concat)
  show ?case
  proof (cases j)
    case 0
    have "get payload (off + (32 + length (mu_key m))) (mutation_inline_size m) = mutation_inline_value staging m"
    proof -
      have v: "length (mutation_inline_value staging m) = mutation_inline_size m"
        using ok by (simp add: mutation_inline_value_def mutation_inline_size_def recoverable_mutation_def)
      have "get payload (off + (32 + length (mu_key m))) (mutation_inline_size m) =
          get (?E @ ?R) (32 + length (mu_key m)) (mutation_inline_size m)"
        by (rule get_of_get [OF E]) (simp add: mutation_payload_size_def format_consts)
      also have "\<dots> = mutation_inline_value staging m"
        by (simp add: mutation_segments_concat get_def v)
      finally show ?thesis .
    qed
    moreover have "unat (of_nat (off + 32 + length (mu_key m)) :: u32) = off + 32 + length (mu_key m)"
      using bound by (intro unat_of_nat_eq) (simp add: mutation_payload_size_def format_consts)
    ultimately show ?thesis
      by (simp add: 0 staged_meaning_def mutation_inline_value_def mutation_inline_size_def add.assoc
          split: if_splits)
  next
    case (Suc j')
    have "get payload (off + mutation_payload_size m) (length ?R) = get (?E @ ?R) (mutation_payload_size m) (length ?R)"
      by (rule get_of_get [OF E]) simp
    then have "get payload (off + mutation_payload_size m) (length ?R) = ?R"
      by (simp add: get_def size [symmetric] del: length_concat)
    then show ?thesis
      using Cons.IH [of "off + mutation_payload_size m" j'] Cons.prems(2,4) bound by (simp add: Suc)
  qed
qed simp

lemma staged_stream_size:
  assumes cfg: "valid_config cfg" and ok: "recoverable_transaction cfg g staging t handle"
  shows "length (transaction_stream staging t handle) \<le>
    unat (cfg_transaction_staging_size cfg) + 136 + unat (cfg_max_transaction_mutations cfg) * 160"
    "0 < length (transaction_stream staging t handle)" "unat (tx_mutation_count t) \<le> 10"
proof -
  have keys: "length (mu_key m) \<le> 128" if "m \<in> set (used_mutations t)" for m
    using ok that by (auto simp: recoverable_transaction_def recoverable_mutation_def valid_name_length)
  have name: "length (hs_namespace_name handle) \<le> 128"
    using ok by (simp add: recoverable_transaction_def valid_name_length)
  have sum: "sum_list (map mutation_payload_size ms) \<le> 160 * length ms + sum_list (map mutation_inline_size ms)"
    if "set ms \<subseteq> set (used_mutations t)" for ms
    using that
  proof (induction ms)
    case (Cons m ms)
    then show ?case using keys [of m] by (simp add: mutation_payload_size_def format_consts)
  qed simp
  have small: "unat (ucast (tx_mutation_count t) :: u32) = unat (tx_mutation_count t)"
    using unat_less_pow [of "tx_mutation_count t"] by (simp add: unsigned_ucast_eq take_bit_nat_eq_self)
  then have n: "unat (tx_mutation_count t) \<le> unat (cfg_max_transaction_mutations cfg)"
    using ok by (simp add: recoverable_transaction_def word_le_nat_alt)
  then show "unat (tx_mutation_count t) \<le> 10" using cfg by (simp add: valid_config_def format_consts)
  have "length (used_mutations t) \<le> unat (cfg_max_transaction_mutations cfg)"
    using n by (simp add: used_mutations_def)
  then have "sum_list (map mutation_payload_size (used_mutations t)) \<le>
      160 * unat (cfg_max_transaction_mutations cfg) + unat (cfg_transaction_staging_size cfg)"
    using sum [of "used_mutations t"] ok by (simp add: recoverable_transaction_def)
  then show "length (transaction_stream staging t handle) \<le>
      unat (cfg_transaction_staging_size cfg) + 136 + unat (cfg_max_transaction_mutations cfg) * 160"
    "0 < length (transaction_stream staging t handle)"
    unfolding length_transaction_stream [OF recoverable_values_staged [OF ok], of handle]
    using name by (simp_all add: transaction_payload_size_def format_consts)
qed

lemma staged_stream_buffer:
  assumes "valid_config cfg" "recoverable_transaction cfg g staging t handle"
  shows "length (transaction_stream staging t handle) \<le> unat (cfg_transaction_staging_size cfg) + transaction_recovery_overhead"
proof -
  have "unat (cfg_max_transaction_mutations cfg) \<le> 10" using assms(1) by (simp add: valid_config_def format_consts)
  then show ?thesis using staged_stream_size(1) [OF assms] by (simp add: transaction_recovery_overhead_def format_consts)
qed

text \<open>The state recovery stages the payload \<open>stream\<close> in.\<close>

definition recovered_state :: "bytes \<Rightarrow> transaction_slot \<Rightarrow> db \<Rightarrow> db" where
  "recovered_state stream t s =
     s\<lparr>db_transaction_staging := put (db_transaction_staging s) 0 stream, db_transaction := t\<rparr>"

lemma recovered_staged_map:
  assumes cfg: "valid_config cfg" and inv: "staging_inv cfg s" and some: "tx_mutation_count (db_transaction s) \<noteq> 0"
    and name: "valid_name (hs_namespace_name handle)"
    and space: "unat (cfg_transaction_staging_size cfg) + transaction_recovery_overhead \<le> length (db_transaction_staging r)"
    and fits: "unat (cfg_transaction_staging_size cfg) + transaction_recovery_overhead < 2 ^ 32"
  defines "stream \<equiv> transaction_stream (db_transaction_staging s) (db_transaction s) handle"
  shows "staged_map (recovered_state stream (recovered_transaction (db_transaction s) handle) r) = staged_map s"
proof
  fix key
  let ?t = "db_transaction s" and ?st = "db_transaction_staging s"
  let ?ns = "hs_namespace_name handle" and ?ms = "used_mutations (db_transaction s)"
  let ?rt = "recovered_transaction ?t handle" and ?n = "unat (tx_mutation_count (db_transaction s))"
  let ?g = "mr_geometry (db_manifest s)" and ?payload = "put (db_transaction_staging r) 0 stream"
  note ok = staging_inv_recoverable [OF cfg inv some name]
  have bound: "length stream \<le> unat (cfg_transaction_staging_size cfg) + transaction_recovery_overhead"
    unfolding stream_def by (rule staged_stream_buffer [OF cfg ok])
  have n: "?n \<le> length (tx_mutations ?t)" using ok by (simp add: recoverable_transaction_def)
  then have len: "length ?ms = ?n" by (simp add: used_mutations_def)
  have nth: "?ms ! j = tx_mutations ?t ! j" if "j < ?n" for j using that by (simp add: used_mutations_def)
  have count: "tx_mutation_count ?rt = tx_mutation_count ?t" by (simp add: recovered_transaction_def Let_def)
  have rt: "tx_mutations ?rt ! j = recovered_mutations (8 + length ?ns) ?ms ! j" if "j < ?n" for j
    using that len by (simp_all add: recovered_transaction_def Let_def nth_append)
  have keys: "map mu_key (recovered_mutations off ms) = map mu_key ms" for off ms
    by (induction ms arbitrary: off) simp_all
  then have key: "mu_key (tx_mutations ?rt ! j) = mu_key (tx_mutations ?t ! j)" if "j < ?n" for j
    using that len nth rt by (metis length_map nth_map)
  have S: "stream = transaction_header handle ?t @ ?ns @ concat (concat (map (mutation_segments ?st) ?ms))"
    by (simp add: stream_def transaction_stream_def payload_segments_def)
  have "get ?payload 0 (length stream) = stream" using bound space by (simp add: get_put_same)
  then have "get ?payload (0 + (8 + length ?ns)) (length (concat (concat (map (mutation_segments ?st) ?ms)))) =
      get stream (8 + length ?ns) (length (concat (concat (map (mutation_segments ?st) ?ms))))"
    by (rule get_of_get) (simp add: S del: length_concat)
  then have E: "get ?payload (8 + length ?ns) (length (concat (concat (map (mutation_segments ?st) ?ms)))) =
      concat (concat (map (mutation_segments ?st) ?ms))"
    by (simp add: S get_def del: length_concat)
  have mean: "staged_meaning ?payload (tx_mutations ?rt ! j) = staged_meaning ?st (tx_mutations ?t ! j)" if "j < ?n" for j
    using recovered_mutations_meaning [OF E, of cfg ?g j] that bound fits ok len nth rt
    by (simp add: S recoverable_transaction_def del: length_concat)
  have "find_staged_mutation ?rt key = find_staged_mutation ?t key"
    unfolding find_staged_mutation_find using key by (auto simp: count intro!: find_cong)
  then show "staged_map (recovered_state stream ?rt r) key = staged_map s key"
    using find_staged_mutation_Some(1) [of ?t key] mean
    by (cases "find_staged_mutation ?t key") (simp_all add: staged_map_def recovered_state_def)
qed

section \<open>Appending on a working device\<close>

text \<open>
  The active slot can take a transaction: its tail is the start of a frame, the identifiers a frame
  carries are set, and the manifest is stable. The configured staging area is small enough for the
  16-bit frame count (\<open>Kconfig\<close>: 131072 at most).
\<close>

definition log_fits :: "config \<Rightarrow> bool" where
  "log_fits cfg \<longleftrightarrow> unat (cfg_transaction_staging_size cfg) \<le> 2 ^ 26"

definition log_ready :: "db \<Rightarrow> bool" where
  "log_ready s \<longleftrightarrow>
     (let m = db_manifest s; slot = mr_active_wal_slot m in
      \<not> db_manifest_stabilization_required s \<and> length (db_wal_tail s) = 2 \<and> sg_provisioned_size (mr_geometry m) \<noteq> 0 \<and> unat slot < 2 \<and>
      mr_database_id m \<noteq> 0 \<and> mr_wal_generation m ! unat slot \<noteq> 0 \<and>
      db_next_transaction_sequence s \<noteq> 0 \<and> db_next_transaction_sequence s \<noteq> - 1 \<and>
      4096 dvd unat (db_wal_tail s ! unat slot) \<and> db_wal_tail s ! unat slot \<le> sg_wal_size (mr_geometry m))"

definition active_stream :: "db \<Rightarrow> handle_slot \<Rightarrow> bytes" where
  "active_stream s handle = transaction_stream (db_transaction_staging s) (db_transaction s) handle"

definition stream_frames :: "bytes \<Rightarrow> nat" where
  "stream_frames stream = unat (wal_frame_count (of_nat (length stream)))"

lemma max_payload_size:
  assumes "valid_config cfg" "log_fits cfg"
  shows "unat (max_transaction_payload_size cfg) =
    unat (cfg_transaction_staging_size cfg) + 136 + unat (cfg_max_transaction_mutations cfg) * 160"
proof -
  have "unat (cfg_max_transaction_mutations cfg) \<le> 10" "unat (cfg_transaction_staging_size cfg) \<le> 67108864"
    using assms by (simp_all add: valid_config_def log_fits_def format_consts)
  then have "unat (cfg_max_transaction_mutations cfg * 160) = unat (cfg_max_transaction_mutations cfg) * 160"
    by (simp add: unat_mult_exact)
  then show ?thesis
    using \<open>unat (cfg_max_transaction_mutations cfg) \<le> 10\<close> \<open>unat (cfg_transaction_staging_size cfg) \<le> _\<close>
    by (simp add: max_transaction_payload_size_def format_consts unat_add_exact)
qed

lemma append_stored:
  assumes cfg: "valid_config cfg" "log_fits cfg" and dev: "working_store cfg dev img w" and ready: "log_ready (snd w)"
    and inv: "staging_inv cfg (snd w)" and some: "tx_mutation_count (db_transaction (snd w)) \<noteq> 0"
    and name: "valid_name (hs_namespace_name handle)"
    and room: "\<not> wal_full (wal_transaction_bytes (of_nat (length (active_stream (snd w) handle)))) (snd w)"
  defines "s \<equiv> snd w" and "stream \<equiv> active_stream (snd w) handle" and "k \<equiv> stream_frames (active_stream (snd w) handle)"
    and "slot \<equiv> mr_active_wal_slot (db_manifest (snd w))"
  shows "\<exists>w'. append_transaction cfg dev clock handle w = (ESP_OK, w') \<and> working_store cfg dev img w' \<and>
    snd w' = s\<lparr>db_wal_tail := (db_wal_tail s)[unat slot := db_wal_tail s ! unat slot + of_nat (k * 4096)],
      db_stats := (db_stats s)\<lparr>st_wal_bytes_used := st_wal_bytes_used (db_stats s) + of_nat (k * 4096)\<rparr>\<rparr> \<and>
    frames_stored cfg img slot (unat (db_wal_tail s ! unat slot)) stream k {0..<k} s w' \<and>
    unat (db_wal_tail s ! unat slot) + k * 4096 \<le> store_size cfg w kind_wal \<and> 0 < k \<and> frames_fit stream k \<and>
    (\<forall>off n. off + n \<le> unat (db_wal_tail s ! unat slot) \<longrightarrow>
       get (store_bytes cfg img w' kind_wal slot) off n = get (store_bytes cfg img w kind_wal slot) off n)"
proof -
  let ?t = "db_transaction s" and ?tail = "db_wal_tail s ! unat slot" and ?g = "mr_geometry (db_manifest s)"
  have R: "\<not> db_manifest_stabilization_required s" "sg_provisioned_size ?g \<noteq> 0" "unat slot < 2"
    "mr_database_id (db_manifest s) \<noteq> 0" "mr_wal_generation (db_manifest s) ! unat slot \<noteq> 0"
    "db_next_transaction_sequence s \<noteq> 0" "db_next_transaction_sequence s \<noteq> - 1" "4096 dvd unat ?tail" "?tail \<le> sg_wal_size ?g"
    using ready by (simp_all add: log_ready_def Let_def s_def slot_def)
  note ok = staging_inv_recoverable [OF cfg(1) inv some name, folded s_def]
  have active: "mr_active_wal_slot (db_manifest s) = slot" by (simp add: s_def slot_def)
  have room': "\<not> wal_full (wal_transaction_bytes (of_nat (length stream))) s"
    using room by (simp add: stream_def s_def)
  have stream: "stream = transaction_stream (db_transaction_staging s) ?t handle"
    by (simp add: stream_def active_stream_def s_def)
  note V = recoverable_values_staged [OF ok] and Z = staged_stream_size [OF cfg(1) ok, folded stream]
  have size: "length stream = transaction_payload_size ?t handle"
    unfolding stream by (rule length_transaction_stream [OF V])
  have max: "length stream \<le> unat (max_transaction_payload_size cfg)" using Z(1) max_payload_size [OF cfg] by simp
  have "length stream \<le> 2 ^ 27"
    using Z(1) cfg by (simp add: log_fits_def valid_config_def format_consts)
  note F = wal_frame_count_fits [OF Z(2) this]
  have k: "k = unat (wal_frame_count (of_nat (length stream)))" by (simp add: k_def stream_frames_def stream_def)
  note F = F [folded k]
  have payload: "calculate_transaction_payload cfg (db_transaction_staging s) ?t handle =
      Inr (of_nat (length stream), calc_crc32 stream)"
    using calculate_transaction_payload_stream [OF V, of cfg handle] ok max
    by (simp add: size stream [symmetric] recoverable_transaction_def)
  have bytes: "unat (wal_transaction_bytes (of_nat (length stream))) = k * 4096" by (rule F(3))
  have "unat (sg_wal_size ?g - ?tail) = unat (sg_wal_size ?g) - unat ?tail" by (rule word_sub_unat [OF R(9)])
  moreover have "unat (ucast (sg_wal_size ?g - ?tail) :: u64) = unat (sg_wal_size ?g - ?tail)"
    using unat_less_pow [of "sg_wal_size ?g - ?tail"] by (simp add: unsigned_ucast_eq take_bit_nat_eq_self)
  ultimately have "k * 4096 \<le> unat (sg_wal_size ?g) - unat ?tail"
    using room' bytes by (simp add: wal_full_def active word_le_nat_alt not_less)
  then have fit: "unat ?tail + k * 4096 \<le> store_size cfg w kind_wal"
    using R(2,9) wal_region(2) [OF dev R(3)] by (simp add: db_geometry_def s_def [symmetric] word_le_nat_alt)
  obtain w1 where W: "write_wal_frames cfg dev handle slot (of_nat (length stream)) (calc_crc32 stream) k [0..<k] 0 w = (ESP_OK, w1)"
    "working_store cfg dev img w1" "snd w1 = s" "frames_stored cfg img slot (unat ?tail) stream k {0..<k} s w1"
    "\<And>off n. off + n \<le> unat ?tail \<Longrightarrow>
       get (store_bytes cfg img w1 kind_wal slot) off n = get (store_bytes cfg img w kind_wal slot) off n"
    using write_wal_frames_stored [OF dev R(3) refl, of k stream handle 0 0] R(8) fit V stream F(1)
      frame_bytes_exist [OF F(1) _ R(4-6)] some Z(3)
    by (auto simp: s_def [symmetric] frames_fit_def)
  obtain d where D: "sync_store dev w1 = (ESP_OK, d, s)" "working_store cfg dev img (d, s)" "img d = img (fst w1)"
    using sync_store_ok [OF W(2)] W(3) by auto
  have same: "store_bytes cfg img (d, s) = store_bytes cfg img w1"
    using D(3) W(3) by (simp add: fun_eq_iff store_bytes_def)
  let ?s' = "s\<lparr>db_wal_tail := (db_wal_tail s)[unat slot := ?tail + of_nat (k * 4096)],
      db_stats := (db_stats s)\<lparr>st_wal_bytes_used := st_wal_bytes_used (db_stats s) + of_nat (k * 4096)\<rparr>\<rparr>"
  have words: "wal_transaction_bytes (of_nat (length stream)) = of_nat (k * 4096)"
    using arg_cong [OF bytes, of "of_nat :: nat \<Rightarrow> u64"] by simp
  have cast: "(ucast (of_nat (k * 4096) :: u64) :: u32) = of_nat (k * 4096)"
    using bytes unfolding words by (metis of_nat_unat)
  have "append_transaction cfg dev clock handle w = (ESP_OK, d, ?s')"
    using R(1,6,7) room' words
    by (simp add: append_transaction_def stabilize_manifest_def checked_payload_def Let_def payload s_def [symmetric]
        active W(1) k [symmetric] D(1) update_db_def W(3) cast del: of_nat_mult)
  moreover have geo: "mr_geometry (db_manifest ?s') = mr_geometry (db_manifest s)" by simp
  have "working_store cfg dev img (d, ?s')" using D(2) by (simp only: store_cong(1) [OF geo])
  moreover have bs: "store_bytes cfg img (d, ?s') = store_bytes cfg img w1"
    by (simp only: store_cong(2) [OF geo] same)
  have "frames_stored cfg img slot (unat ?tail) stream k {0..<k} s (d, ?s')"
    using W(4) unfolding frames_stored_def bs .
  ultimately show ?thesis using F(1,2) fit W(5) unfolding bs [symmetric] by (intro exI conjI) (assumption | simp)+
qed

section \<open>Scanning what was appended\<close>

text \<open>The bytes of the log a scanned transaction is counted with.\<close>

definition count_wal_bytes :: "nat \<Rightarrow> 'd world \<Rightarrow> 'd world" where
  "count_wal_bytes n = update_db (\<lambda>s. s\<lparr>db_stats := (db_stats s)\<lparr>st_wal_bytes_used :=
     st_wal_bytes_used (db_stats s) + of_nat n\<rparr>\<rparr>)"

lemma decoded_first:
  assumes "frames_fit stream k" "0 < k"
  shows "wf_transaction_sequence (decoded_header s slot stream k 0) = db_next_transaction_sequence s"
    "wf_database_id (decoded_header s slot stream k 0) = mr_database_id (db_manifest s)"
    "wf_wal_generation (decoded_header s slot stream k 0) = mr_wal_generation (db_manifest s) ! unat slot"
    "wf_frame_index (decoded_header s slot stream k 0) = 0" "unat (wf_frame_count (decoded_header s slot stream k 0)) = k"
    "wf_mutation_count (decoded_header s slot stream k 0) = tx_mutation_count (db_transaction s)"
    "unat (wf_transaction_payload_size (decoded_header s slot stream k 0)) = length stream"
    "wf_transaction_checksum (decoded_header s slot stream k 0) = calc_crc32 stream"
proof -
  have "k < 2 ^ 16" "length stream < 2 ^ 32" using assms(1) by (auto simp: frames_fit_def)
  then show "unat (wf_frame_count (decoded_header s slot stream k 0)) = k"
    "unat (wf_transaction_payload_size (decoded_header s slot stream k 0)) = length stream"
    by (simp_all add: decoded_header_def frame_header_def wal_frame_of_def)
qed (simp_all add: decoded_header_def frame_header_def wal_frame_of_def)

lemma scan_appended:
  assumes dev: "working_store cfg dev img v" and slot: "unat slot < 2"
    and stored: "frames_stored cfg img slot tail stream k {0..<k} s v"
    and fit: "frames_fit stream k" "0 < k" "length stream \<le> unat (max_transaction_payload_size cfg)"
    and region: "tail + k * 4096 \<le> region_end" "region_end \<le> store_size cfg v kind_wal"
    and same: "mr_database_id (db_manifest (snd v)) = mr_database_id (db_manifest s)"
    and seq: "db_next_transaction_sequence s \<noteq> - 1"
  defines "sequence \<equiv> db_next_transaction_sequence s"
    and "generation \<equiv> mr_wal_generation (db_manifest s) ! unat slot"
  shows "scan_wal_transactions cfg dev slot tail region_end generation sequence v =
    (case (if sequence > mr_safe_checkpoint_sequence (db_manifest (snd v))
           then replay_transaction cfg dev stream (tx_mutation_count (db_transaction s)) sequence (stage_recovered stream v)
           else (ESP_OK, stage_recovered stream v)) of
       (ret, u) \<Rightarrow>
         if ret \<noteq> ESP_OK then (Inl ret, u)
         else scan_wal_transactions cfg dev slot (tail + k * 4096) region_end generation (sequence + 1)
                (count_wal_bytes (k * 4096) u))"
proof -
  let ?first = "decoded_header s slot stream k 0"
  note first = decoded_first [OF fit(1,2)]
  have tail: "tail + k * 4096 \<le> store_size cfg v kind_wal" using region by simp
  have "frame_bytes s slot stream k 0 = Some (get (store_bytes cfg img v kind_wal slot) (tail + 0 * 4096) 4096)"
    using stored fit(2) unfolding frames_stored_def by simp
  note F = frame_bytes_decoded(1) [OF this]
  have read: "read_store cfg dev kind_wal slot (of_nat tail) wal_frame_size v =
      Inr (get (store_bytes cfg img v kind_wal slot) tail 4096)"
    using read_wal_frame [OF dev slot tail fit(2)] by simp
  note all = read_complete_frames [OF dev slot tail fit(1) stored]
  have k4096: "4096 \<le> k * 4096" using fit(2) by simp
  have size: "wal_frame_size = 4096" by (simp add: format_consts)
  have "tail + 4096 \<le> region_end" using region k4096 by linarith
  moreover have "\<not> wal_start_invalid cfg sequence tail region_end ?first"
    using first fit region by (simp add: wal_start_invalid_def sequence_def size word_less_nat_alt unat_eq_zero [symmetric]
        not_less)
  moreover have "sequence + 1 \<noteq> 0" using seq by (simp add: sequence_def eq_neg_iff_add_eq_0)
  moreover have "NOT (calc_crc32_update (- 1) stream) = calc_crc32 stream" by (simp add: calc_crc32_def)
  ultimately show ?thesis
    using F read all first same
    by (subst scan_wal_transactions.simps)
       (simp add: size generation_def sequence_def stage_recovered_def count_wal_bytes_def Let_def split: prod.split)
qed

lemma wal_tail_advances:
  assumes "unat (tail :: u32) + n \<le> store_size cfg w kind_wal"
  shows "unat (tail + of_nat n) = unat tail + n"
proof -
  have "unat tail + n < 2 ^ 32"
    using assms region_size_bound [of "db_geometry cfg (snd w)" kind_wal] by (simp add: store_size_def)
  then show ?thesis by (simp add: unat_add_exact)
qed

section \<open>Properties of the log\<close>

text \<open>
  A state the database can be restarted in after \<open>w'\<close>: the same bytes on the device, the same geometry
  and database.
\<close>

definition restarted :: "config \<Rightarrow> 'd block_device \<Rightarrow> ('d \<Rightarrow> bytes) \<Rightarrow> 'd world \<Rightarrow> 'd world \<Rightarrow> bool" where
  "restarted cfg dev img w' v \<longleftrightarrow>
     working_store cfg dev img v \<and> img (fst v) = img (fst w') \<and>
     mr_geometry (db_manifest (snd v)) = mr_geometry (db_manifest (snd w')) \<and>
     mr_database_id (db_manifest (snd v)) = mr_database_id (db_manifest (snd w'))"

lemma restarted_store:
  assumes "restarted cfg dev img w' v"
  shows "store_bytes cfg img v = store_bytes cfg img w'" "store_size cfg v = store_size cfg w'"
  using assms by (simp_all add: restarted_def store_bytes_def store_size_def db_geometry_def fun_eq_iff)

text \<open>
  C1: what a transaction staged survives a restart. If the active log slot has room, appending the
  current transaction succeeds; it changes nothing before the tail and moves the tail by whole frames.
  Whenever the database is started again from these bytes, the scan that arrives at the old tail
  replays exactly the payload that was appended, under its sequence number, and goes on at the new tail.
\<close>

theorem append_transaction_durable:
  assumes cfg: "valid_config cfg" "log_fits cfg" and dev: "working_store cfg dev img w" and ready: "log_ready (snd w)"
    and inv: "staging_inv cfg (snd w)" and some: "tx_mutation_count (db_transaction (snd w)) \<noteq> 0"
    and name: "valid_name (hs_namespace_name handle)"
    and room: "\<not> wal_full (wal_transaction_bytes (of_nat (length (active_stream (snd w) handle)))) (snd w)"
    and slot: "slot = mr_active_wal_slot (db_manifest (snd w))" and tail: "tail = db_wal_tail (snd w) ! unat slot"
    and region: "region_end = store_size cfg w kind_wal"
  shows "\<exists>w' tail'. append_transaction cfg dev clock handle w = (ESP_OK, w') \<and> working_store cfg dev img w' \<and>
    db_wal_tail (snd w') ! unat slot = tail' \<and> tail < tail' \<and> unat tail' \<le> region_end \<and>
    (\<forall>off n. off + n \<le> unat tail \<longrightarrow>
       get (store_bytes cfg img w' kind_wal slot) off n = get (store_bytes cfg img w kind_wal slot) off n) \<and>
    (\<forall>v u. restarted cfg dev img w' v \<longrightarrow>
       mr_safe_checkpoint_sequence (db_manifest (snd v)) < db_next_transaction_sequence (snd w) \<longrightarrow>
       replay_transaction cfg dev (active_stream (snd w) handle) (tx_mutation_count (db_transaction (snd w)))
         (db_next_transaction_sequence (snd w)) (stage_recovered (active_stream (snd w) handle) v) = (ESP_OK, u) \<longrightarrow>
       scan_wal_transactions cfg dev slot (unat tail) region_end (mr_wal_generation (db_manifest (snd w)) ! unat slot)
         (db_next_transaction_sequence (snd w)) v =
       scan_wal_transactions cfg dev slot (unat tail') region_end (mr_wal_generation (db_manifest (snd w)) ! unat slot)
         (db_next_transaction_sequence (snd w) + 1) (count_wal_bytes (unat tail' - unat tail) u))"
proof -
  let ?stream = "active_stream (snd w) handle"
  let ?k = "stream_frames ?stream"
  have R: "unat slot < 2" "length (db_wal_tail (snd w)) = 2" "db_next_transaction_sequence (snd w) \<noteq> - 1"
    using ready by (simp_all add: log_ready_def Let_def slot)
  obtain w' where W: "append_transaction cfg dev clock handle w = (ESP_OK, w')" "working_store cfg dev img w'"
    and snd: "snd w' = (snd w)\<lparr>db_wal_tail := (db_wal_tail (snd w))[unat slot := tail + of_nat (?k * 4096)],
      db_stats := (db_stats (snd w))\<lparr>st_wal_bytes_used := st_wal_bytes_used (db_stats (snd w)) + of_nat (?k * 4096)\<rparr>\<rparr>"
    and stored: "frames_stored cfg img slot (unat tail) ?stream ?k {0..<?k} (snd w) w'"
    and fit: "unat tail + ?k * 4096 \<le> region_end" "0 < ?k" "frames_fit ?stream ?k"
    and before: "\<forall>off n. off + n \<le> unat tail \<longrightarrow>
       get (store_bytes cfg img w' kind_wal slot) off n = get (store_bytes cfg img w kind_wal slot) off n"
    using append_stored [OF cfg dev ready inv some name room, of clock] unfolding slot tail region by blast
  let ?tail' = "tail + of_nat (?k * 4096)"
  have tail': "unat ?tail' = unat tail + ?k * 4096" using fit(1) unfolding region by (rule wal_tail_advances)
  have max: "length ?stream \<le> unat (max_transaction_payload_size cfg)"
    using staged_stream_size(1) [OF cfg(1) staging_inv_recoverable [OF cfg(1) inv some name]] max_payload_size [OF cfg]
    by (simp add: active_stream_def)
  have scan: "scan_wal_transactions cfg dev slot (unat tail) region_end (mr_wal_generation (db_manifest (snd w)) ! unat slot)
         (db_next_transaction_sequence (snd w)) v =
       scan_wal_transactions cfg dev slot (unat ?tail') region_end (mr_wal_generation (db_manifest (snd w)) ! unat slot)
         (db_next_transaction_sequence (snd w) + 1) (count_wal_bytes (unat ?tail' - unat tail) u)"
    if v: "restarted cfg dev img w' v" and new: "mr_safe_checkpoint_sequence (db_manifest (snd v)) < db_next_transaction_sequence (snd w)"
      and replay: "replay_transaction cfg dev ?stream (tx_mutation_count (db_transaction (snd w)))
         (db_next_transaction_sequence (snd w)) (stage_recovered ?stream v) = (ESP_OK, u)" for v u
  proof -
    have "store_size cfg w' = store_size cfg w" using snd by (simp add: store_size_def db_geometry_def fun_eq_iff)
    then have le: "region_end \<le> store_size cfg v kind_wal" using restarted_store(2) [OF v] by (simp add: region)
    have "frames_stored cfg img slot (unat tail) ?stream ?k {0..<?k} (snd w) v"
      using stored unfolding frames_stored_def restarted_store(1) [OF v] .
    from scan_appended [OF _ R(1) this fit(3,2) max fit(1) le _ R(3)]
    show ?thesis using v new replay by (simp add: restarted_def snd tail' del: of_nat_mult)
  qed
  show ?thesis
  proof (intro exI conjI allI impI)
    show "db_wal_tail (snd w') ! unat slot = ?tail'" using R by (simp add: snd)
    show "tail < ?tail'" using fit(2) tail' by (simp add: word_less_nat_alt)
    show "unat ?tail' \<le> region_end" using fit(1) tail' by simp
  qed (use W before scan in blast)+
qed

lemma sample_stream_size: "length (active_stream sample_db sample_handle) = 45"
proof -
  have "values_staged (db_transaction_staging sample_db) (db_transaction sample_db)"
    by (rule recoverable_values_staged)
       (rule staging_inv_recoverable [OF host_config_valid sample_staging _ sample_name], simp add: sample_transaction_open)
  moreover have "used_mutations (db_transaction sample_db) = [sample_staged]"
    using sample_transaction_open by (cases "tx_mutations (db_transaction sample_db)")
      (simp_all add: used_mutations_def max_transaction_mutations_def)
  ultimately show ?thesis
    by (simp add: active_stream_def length_transaction_stream transaction_payload_size_def mutation_payload_size_def
        mutation_inline_size_def sample_handle_def sample_staged_def empty_mutation_def format_consts)
qed

lemma sample_log: "log_ready sample_db" "log_fits host_config"
  "\<not> wal_full (wal_transaction_bytes (of_nat (length (active_stream sample_db sample_handle)))) sample_db"
proof -
  show "log_ready sample_db" by (simp add: log_ready_def sample_fields)
  show "log_fits host_config" by (simp add: log_fits_def host_config_def)
  show "\<not> wal_full (wal_transaction_bytes (of_nat (length (active_stream sample_db sample_handle)))) sample_db"
    unfolding sample_stream_size
    by (simp add: wal_full_def sample_fields wal_transaction_bytes_def wal_frame_count_def format_consts)
qed

theorem append_transaction_durable_witness:
  "\<exists>w' tail'. append_transaction host_config sample_device (\<lambda>t. t) sample_handle sample_world = (ESP_OK, w') \<and>
     db_wal_tail (snd w') ! 1 = tail' \<and> 16384 < tail'"
proof -
  have "tx_mutation_count (db_transaction sample_db) \<noteq> 0" by (simp add: sample_transaction_open)
  note D = append_transaction_durable [OF host_config_valid sample_log(2) sample_store, unfolded sample_fields(12),
      OF sample_log(1) sample_staging this sample_name sample_log(3) refl refl refl, of "\<lambda>t. t"]
  have at: "unat (mr_active_wal_slot (db_manifest sample_db)) = 1" "db_wal_tail sample_db ! 1 = 16384"
    by (simp_all add: sample_fields)
  show ?thesis using D unfolding at by blast
qed

text \<open>
  C2: recovering a transaction stages what was staged. The payload a transaction is written as is
  accepted by the parser, which returns the namespace and a transaction that, with the payload as its
  staging area, maps every key to the value, erasure or external reference that was staged for it.
\<close>

theorem staged_transaction_recovered:
  assumes cfg: "valid_config cfg" "log_fits cfg" and inv: "staging_inv cfg s"
    and some: "tx_mutation_count (db_transaction s) \<noteq> 0" and name: "valid_name (hs_namespace_name handle)"
    and space: "length (db_transaction_staging r) = unat (cfg_transaction_staging_size cfg) + transaction_recovery_overhead"
  shows "\<exists>t. parse_recovered_transaction cfg (mr_geometry (db_manifest s)) (active_stream s handle)
       (tx_mutation_count (db_transaction s)) = Inr (hs_namespace_name handle, t) \<and>
     staged_map (r\<lparr>db_transaction_staging := put (db_transaction_staging r) 0 (active_stream s handle), db_transaction := t\<rparr>) =
       staged_map s"
proof -
  have "unat (cfg_transaction_staging_size cfg) + transaction_recovery_overhead < 2 ^ 32"
    using cfg(2) by (simp add: log_fits_def transaction_recovery_overhead_def format_consts)
  then show ?thesis
    using parse_recovered_transaction_stream [OF staging_inv_recoverable [OF cfg(1) inv some name]]
      recovered_staged_map [OF cfg(1) inv some name, of r] space
    by (simp add: active_stream_def recovered_state_def)
qed

theorem staged_transaction_recovered_witness:
  "\<exists>t. parse_recovered_transaction host_config (mr_geometry (db_manifest sample_db)) (active_stream sample_db sample_handle) 1 =
     Inr ([97], t)"
proof -
  have "tx_mutation_count (db_transaction sample_db) \<noteq> 0" by (simp add: sample_transaction_open)
  moreover have "length (db_transaction_staging (initial_db host_config)) =
      unat (cfg_transaction_staging_size host_config) + transaction_recovery_overhead"
    by (simp add: initial_db_def)
  ultimately show ?thesis
    using staged_transaction_recovered [OF host_config_valid sample_log(2) sample_staging _ sample_name,
        of "initial_db host_config"]
    by (auto simp: sample_transaction_open sample_handle_def)
qed

text \<open>
  C24: a slice of the payload that a frame is filled with is the slice of the one stream the checksum is
  computed over, wherever the slice begins and whatever segments it crosses.
\<close>

theorem payload_slices_of_stream:
  assumes staged: "values_staged staging t" and count: "tx_mutation_count t \<noteq> 0"
      "ucast (tx_mutation_count t) \<le> cfg_max_transaction_mutations cfg"
    and bound: "transaction_payload_size t handle \<le> unat (max_transaction_payload_size cfg)"
    and slice: "unat start + length destination \<le> transaction_payload_size t handle"
  shows "copy_transaction_payload staging t handle start destination =
      Inr (get (concat (payload_segments staging t handle)) (unat start) (length destination)) \<and>
    calculate_transaction_payload cfg staging t handle =
      Inr (of_nat (length (concat (payload_segments staging t handle))), calc_crc32 (concat (payload_segments staging t handle)))"
proof -
  have "transaction_payload_size t handle < 2 ^ 32"
    using bound unat_less_pow [of "max_transaction_payload_size cfg"] by simp
  then show ?thesis
    using copy_transaction_payload_stream [OF staged _ slice] calculate_transaction_payload_stream [OF staged count bound]
      length_transaction_stream [OF staged, of handle]
    by (simp add: transaction_stream_def)
qed

theorem payload_slices_of_stream_witness:
  "copy_transaction_payload (db_transaction_staging sample_db) (db_transaction sample_db) sample_handle 40 (zeroes 5) =
     Inr (get (concat (payload_segments (db_transaction_staging sample_db) (db_transaction sample_db) sample_handle)) 40 5)"
proof -
  have ok: "recoverable_transaction host_config (mr_geometry (db_manifest sample_db)) (db_transaction_staging sample_db)
      (db_transaction sample_db) sample_handle"
    by (rule staging_inv_recoverable [OF host_config_valid sample_staging _ sample_name]) (simp add: sample_transaction_open)
  note staged = recoverable_values_staged [OF ok]
  have "transaction_payload_size (db_transaction sample_db) sample_handle = 45"
    using length_transaction_stream [OF staged, of sample_handle] sample_stream_size by (simp add: active_stream_def)
  moreover have "45 \<le> unat (max_transaction_payload_size host_config)"
    by (simp add: max_transaction_payload_size_def host_config_def format_consts)
  ultimately show ?thesis
    using payload_slices_of_stream [OF staged, of host_config sample_handle 40 "zeroes 5"] ok
    by (simp add: recoverable_transaction_def)
qed








end
