(* ===== verification/Untouched.thy ===== *)
theory Untouched
  imports Api Staging
begin

text \<open>
  What the storage operations leave alone. A view is what a client reads of the database state. The
  locales collect the fields an operation may write, smallest first: building and validating tables
  only writes their caches, relocating a value also the buffer of the writer, maintenance (flush,
  compaction, rotation, commit) also the manifest, the memtable and the log. A view that ignores these
  fields is kept by the operation, whatever its outcome.
\<close>

section \<open>Keeping a view\<close>

definition keeps :: "(db \<Rightarrow> 'v) \<Rightarrow> 'e \<times> 'd world \<Rightarrow> 'd world \<Rightarrow> bool" where
  "keeps view r w \<longleftrightarrow> view (snd (snd r)) = view (snd w)"

named_theorems keeping \<open>operations that keep a view\<close>

lemma keepsD: "keeps view (e, w') w \<Longrightarrow> view (snd w') = view (snd w)"
  by (simp add: keeps_def)

lemma keeps_refl: "keeps view (e, w) w"
  by (simp add: keeps_def)

lemma keeps_state: "view s = view (snd w) \<Longrightarrow> keeps view (e, d, s) w"
  by (simp add: keeps_def)

lemma keeps_update: "view (f (snd w)) = view (snd w) \<Longrightarrow> keeps view (e, update_db f w) w"
  by (simp add: keeps_def)

lemma keeps_trans: "keeps view r w' \<Longrightarrow> view (snd w') = view (snd w) \<Longrightarrow> keeps view r w"
  by (simp add: keeps_def)

lemma keeps_on_ok:
  "keeps view r w \<Longrightarrow> (\<And>w'. keeps view (k w') w') \<Longrightarrow> keeps view (on_ok r k) w"
  by (cases r) (auto simp: on_ok_def keeps_def)

lemma keeps_on_value: "(\<And>x. keeps view (k x) w) \<Longrightarrow> keeps view (on_value r w k) w"
  by (cases r) (auto simp: keeps_def)

lemma keeps_on_result:
  "keeps view r w \<Longrightarrow> (\<And>x w'. keeps view (k x w') w') \<Longrightarrow> keeps view (on_result r k) w"
  by (cases r; cases "fst r") (auto simp: on_result_def keeps_def)

lemma keeps_if: "(c \<Longrightarrow> keeps view a w) \<Longrightarrow> (\<not> c \<Longrightarrow> keeps view b w) \<Longrightarrow> keeps view (if c then a else b) w"
  by simp

lemma keeps_sum: "(\<And>e. keeps view (a e) w) \<Longrightarrow> (\<And>x. keeps view (b x) w) \<Longrightarrow> keeps view (case r of Inl e \<Rightarrow> a e | Inr x \<Rightarrow> b x) w"
  by (cases r) simp_all

lemma keeps_option: "keeps view a w \<Longrightarrow> (\<And>x. keeps view (b x) w) \<Longrightarrow> keeps view (case r of None \<Rightarrow> a | Some x \<Rightarrow> b x) w"
  by (cases r) simp_all

lemma keeps_list: "keeps view a w \<Longrightarrow> (\<And>x y. keeps view (b x y) w) \<Longrightarrow> keeps view (case r of [] \<Rightarrow> a | x # y \<Rightarrow> b x y) w"
  by (cases r) simp_all

lemma keeps_pair: "(\<And>x y. keeps view (b x y) w) \<Longrightarrow> keeps view (case r of (x, y) \<Rightarrow> b x y) w"
  by (cases r) simp_all

text \<open>A step followed by a case distinction on its result.\<close>

lemma keeps_then: "keeps view r w \<Longrightarrow> (\<And>e w'. keeps view (k e w') w') \<Longrightarrow> keeps view (case r of (e, w') \<Rightarrow> k e w') w"
  by (cases r) (auto simp: keeps_def)

lemma keeps_let: "(\<And>x. keeps view (k x) w) \<Longrightarrow> keeps view (Let x k) w"
  by simp

lemmas keeps_cases = keeps_refl keeps_on_value keeps_if keeps_sum keeps_option keeps_list

section \<open>Device accesses\<close>

lemma keeps_write_store [keeping]: "keeps view (write_store cfg dev kind slot offset source w) w"
  by (simp add: keeps_def write_store_def split: prod.split)

lemma keeps_sync_store [keeping]: "keeps view (sync_store dev w) w"
  by (simp add: keeps_def sync_store_def split: prod.split)

lemma keeps_write_table_bytes [keeping]: "keeps view (write_table_bytes cfg dev slot offset source w) w"
  unfolding write_table_bytes_def by (intro keeps_cases keeping)

lemma keeps_finish_table_data_block [keeping]: "keeps view (finish_table_data_block cfg dev state w) w"
  unfolding finish_table_data_block_def Let_def by (intro keeps_cases keeping keeps_then)

lemma keeps_make_room [keeping]: "keeps view (make_room cfg dev key sequence encoded_size output w) w"
  unfolding make_room_def by (intro keeps_cases keeping keeps_then)

lemma keeps_append_record_entry [keeping]: "keeps view (append_record_entry cfg dev header output w) w"
  unfolding append_record_entry_def Let_def by (intro keeps_then keeps_cases keeping keeps_pair)

lemma keeps_write_metadata_slot [keeping]: "keeps view (write_metadata_slot cfg dev slot offset magic metadata w) w"
  unfolding write_metadata_slot_def by (intro keeps_cases keeping)

lemma keeps_write_table_metadata [keeping]: "keeps view (write_table_metadata cfg dev metadata w) w"
  unfolding write_table_metadata_def Let_def by (intro keeps_on_ok keeping)

lemma keeps_finish_table_output [keeping]: "keeps view (finish_table_output cfg dev output w) w"
  unfolding finish_table_output_def Let_def by (intro keeps_then keeps_cases keeping)

lemma keeps_append_records [keeping]: "keeps view (append_records cfg dev offsets out w) w"
proof (induction offsets arbitrary: out w)
  case (Cons offset offsets)
  then show ?case by (subst append_records.simps) (intro keeps_then keeps_cases keeping)
qed (simp add: keeps_refl)

lemma keeps_write_flush_table [keeping]: "keeps view (write_flush_table cfg dev slot offsets w) w"
  unfolding write_flush_table_def by (intro keeps_then keeps_cases keeping)

lemma keeps_write_wal_headers [keeping]: "keeps view (write_wal_headers cfg dev slot header copies w) w"
proof (induction copies arbitrary: w)
  case (Cons copy copies)
  then show ?case by (subst write_wal_headers.simps) (intro keeps_cases keeps_on_ok keeping)
qed (simp add: keeps_refl)

lemma keeps_ensure_wal_header [keeping]: "keeps view (ensure_wal_header cfg dev slot generation sequence w) w"
  unfolding ensure_wal_header_def by (intro keeps_cases keeps_on_ok keeping)

lemma keeps_write_wal_frames [keeping]:
  "keeps view (write_wal_frames cfg dev handle slot payload_size checksum k indices offset w) w"
proof (induction indices arbitrary: offset w)
  case (Cons i indices)
  then show ?case by (subst write_wal_frames.simps) (unfold Let_def, intro keeps_cases keeps_on_ok keeping)
qed (simp add: keeps_refl)

section \<open>Views that ignore the table caches\<close>

locale table_view =
  fixes view :: "db \<Rightarrow> 'v"
  assumes ignores_index_cache: "view (s\<lparr>db_table_index_cache := caches\<rparr>) = view s"
    and ignores_key_filters: "view (s\<lparr>db_table_key_filters := filters\<rparr>) = view s"
begin

lemma view_table_caches:
  "view (invalidate_table_index_cache slot s) = view s" "view (set_index_cache slot cached s) = view s"
  "view (reset_table_key_filter slot s) = view s" "view (add_table_key_filter slot key s) = view s"
  "view (publish_table_key_filter reference s) = view s" "view (snd (cache_table_index cfg reference index_block s)) = view s"
  by (simp_all add: invalidate_table_index_cache_def set_index_cache_def reset_table_key_filter_def
      add_table_key_filter_def publish_table_key_filter_def cache_table_index_def Let_def
      ignores_index_cache ignores_key_filters split: sum.split option.split)

lemma view_validate_block_entries:
  "view (snd (validate_block_entries reference_ok footer index_entry slot data_block n first entry_offset scan s)) = view s"
proof (induction n arbitrary: first entry_offset scan s)
  case (Suc n)
  then show ?case
    by (subst validate_block_entries.simps) (simp add: view_table_caches split: sum.split)
qed simp

lemma keeps_validate_blocks:
  "keeps view (validate_blocks cfg dev reference_ok footer slot index_block indices scan w) w"
proof (induction indices arbitrary: scan w)
  case (Cons i indices)
  have step: "keeps view (case validate_block_entries reference_ok footer index_entry slot data_block n first entry_offset scan (snd w) of
      (Inl e, s) \<Rightarrow> (Inl e, fst w, s)
    | (Inr (entry_offset, scan), s) \<Rightarrow>
        if c entry_offset then (Inl ESP_ERR_INVALID_CRC, fst w, s)
        else validate_blocks cfg dev reference_ok footer slot index_block indices scan (fst w, s)) w"
    for index_entry data_block n first entry_offset scan c w
    using view_validate_block_entries [of reference_ok footer index_entry slot data_block n first entry_offset scan "snd w"]
      Cons.IH
    by (auto simp: keeps_def split: prod.split sum.split)
  show ?case
    by (subst validate_blocks.simps) (intro keeps_cases step)
qed (simp add: keeps_refl)

lemma keeps_validate_table:
  fixes w :: "'d world"
  shows "keeps view (validate_table cfg dev reference value_bank w) w"
proof -
  let ?s = "\<lambda>s. reset_table_key_filter (tr_slot reference) (invalidate_table_index_cache (tr_slot reference) s)"
  have cached: "keeps view (case cache_table_index cfg reference index_block (snd w) of (ret, s) \<Rightarrow> (ret, fst w, s)) w"
    for index_block :: bytes and w :: "'d world"
    by (auto simp: keeps_def view_table_caches split: prod.split)
       (metis snd_conv view_table_caches(6))
  have last: "keeps view (case cache_table_index cfg reference index_block (snd (update_db (publish_table_key_filter reference) w)) of
      (ret, s) \<Rightarrow> (ret, fst (update_db (publish_table_key_filter reference) w), s)) w"
    for index_block :: bytes and w :: "'d world"
    using cached [of "update_db (publish_table_key_filter reference) w" index_block]
    by (rule keeps_trans) (simp add: view_table_caches)
  have reset: "keeps view r w" if "keeps view r (update_db ?s w)" for r :: "esp_err \<times> 'd world"
    using that by (rule keeps_trans) (simp add: view_table_caches)
  show ?thesis
    unfolding validate_table_def Let_def
    by (rule keeps_if, rule keeps_refl, rule reset, intro keeps_cases keeps_pair keeps_on_result keeps_validate_blocks last)
qed

lemma keeps_start_compaction_output: "keeps view (start_compaction_output slot generation w) w"
  unfolding start_compaction_output_def by (intro keeps_cases keeps_update view_table_caches)

end

section \<open>Views that also ignore the buffer of the writer\<close>

locale writer_view = table_view +
  assumes ignores_value_writer: "view (s\<lparr>db_value_writer := writer\<rparr>) = view s"
begin

lemma view_set_writer: "view (snd (set_writer writer w)) = view (snd w)"
  by (simp add: set_writer_def ignores_value_writer)

lemma keeps_set_writer: "keeps view (e, set_writer writer w) w"
  by (simp add: keeps_def view_set_writer)

lemma keeps_copy_chunks:
  "keeps view (copy_chunks cfg dev source destination chunk_count indices checksum_state output_offset w) w"
proof (induction indices arbitrary: checksum_state output_offset w)
  case (Cons i indices)
  have step: "keeps view (case write_store cfg dev kind slot offset buffer (set_writer writer w) of
      (ret, w) \<Rightarrow>
        if ret \<noteq> ESP_OK then (Inl ret, w)
        else copy_chunks cfg dev source destination chunk_count indices (crc w) (off w) w) w"
    for kind slot offset buffer writer w crc off
    by (rule keeps_trans [OF _ view_set_writer [of writer]]) (intro keeps_then keeps_cases keeping Cons.IH)
  show ?case
    by (subst copy_chunks.simps) (unfold Let_def, intro keeps_cases keeps_pair step)
qed (simp add: keeps_refl)

lemma keeps_copy_external_value: "keeps view (copy_external_value cfg dev source bank generation tail w) w"
  unfolding copy_external_value_def Let_def by (intro keeps_cases keeps_then keeps_copy_chunks keeps_pair)

lemma keeps_place_source:
  "keeps view (place_source cfg dev source out bank generation tail w) w"
  unfolding place_source_def Let_def
  by (cases source) (simp_all only: merge_source.case, (intro keeps_cases keeps_then keeps_copy_external_value keeps_pair)+)

lemma keeps_append_compaction_entry: "keeps view (append_compaction_entry cfg dev source bank generation target w) w"
  unfolding append_compaction_entry_def Let_def
  by (intro keeps_pair keeps_then keeps_cases keeping keeps_place_source)

lemma keeps_finish_compaction_output: "keeps view (finish_compaction_output cfg dev out value_bank w) w"
  unfolding finish_compaction_output_def by (intro keeps_cases keeps_then keeping keeps_validate_table)

lemma keeps_flush_value_writer_chunk: "keeps view (flush_value_writer_chunk cfg dev final w) w"
  unfolding flush_value_writer_chunk_def Let_def
  by (intro keeps_cases keeps_on_ok keeping keeps_set_writer)

lemma keeps_write_value_chunks: "keeps view (write_value_chunks cfg dev data w) w"
proof (induction cfg dev data w rule: write_value_chunks.induct)
  case (1 cfg dev data w)
  let ?part = "next_part (db_value_writer (snd w)) data"
  let ?writer = "buffer_part (take ?part data) (db_value_writer (snd w))"
  have flushed: "keeps view (flush_value_writer_chunk cfg dev final (set_writer ?writer w)) w" for final
    by (rule keeps_trans [OF keeps_flush_value_writer_chunk view_set_writer])
  show ?case
  proof (cases "data = []")
    case True
    then show ?thesis by (simp add: write_value_chunks.simps keeps_refl)
  next
    case False
    show ?thesis
    proof (cases "chunk_complete ?writer")
      case complete: True
      obtain ret w' where f: "flush_value_writer_chunk cfg dev (ww_written_size ?writer = ww_expected_size ?writer) (set_writer ?writer w) = (ret, w')"
        by (rule prod.exhaust)
      then have w': "view (snd w') = view (snd w)" using flushed [of "ww_written_size ?writer = ww_expected_size ?writer"] keepsD by simp
      have "keeps view (write_value_chunks cfg dev (drop ?part data) w') w'" if "ret = ESP_OK"
        using 1(1) [OF False refl refl complete f [symmetric]] that by simp
      then show ?thesis
        using False complete f w' by (subst write_value_chunks.simps) (auto simp: keeps_def Let_def)
    next
      case incomplete: False
      then show ?thesis
        using False 1(2) [OF False refl refl incomplete] view_set_writer
        by (subst write_value_chunks.simps) (simp add: keeps_def Let_def)
    qed
  qed
qed

lemma keeps_write_value_bytes: "keeps view (write_value_bytes cfg dev data w) w"
  unfolding write_value_bytes_def Let_def
  by (intro keeps_cases keeps_set_writer keeps_write_value_chunks)

lemma keeps_validate_inputs: "keeps view (validate_inputs cfg dev slots w) w"
proof (induction slots arbitrary: w)
  case (Cons slot slots)
  then show ?case by (subst validate_inputs.simps) (intro keeps_on_ok keeps_validate_table)
qed (simp add: keeps_refl)

lemma keeps_relocate_staged: "keeps view (relocate_staged cfg dev plan ms tail w) w"
proof (induction ms arbitrary: tail w)
  case (Cons m ms)
  then show ?case
    by (subst relocate_staged.simps) (unfold Let_def, intro keeps_cases keeps_then keeps_pair keeps_copy_external_value)
qed (simp add: keeps_refl)

end

section \<open>Views that ignore what maintenance writes\<close>

locale maintenance_view = writer_view +
  assumes ignores_manifest: "view (s\<lparr>db_manifest := m\<rparr>) = view s"
    and ignores_manifest_slot: "view (s\<lparr>db_manifest_slot := n\<rparr>) = view s"
    and ignores_valid_copies: "view (s\<lparr>db_manifest_valid_copy_count := n\<rparr>) = view s"
    and ignores_stabilization: "view (s\<lparr>db_manifest_stabilization_required := b\<rparr>) = view s"
    and ignores_fault: "view (s\<lparr>db_storage_faulted := b\<rparr>) = view s"
    and ignores_memtable_index: "view (s\<lparr>db_memtable_index := buckets\<rparr>) = view s"
    and ignores_memtable_data: "view (s\<lparr>db_memtable_data := arena\<rparr>) = view s"
    and ignores_data_used: "view (s\<lparr>db_memtable_data_used := n\<rparr>) = view s"
    and ignores_entry_count: "view (s\<lparr>db_memtable_entry_count := n\<rparr>) = view s"
    and ignores_namespaces: "view (s\<lparr>db_namespaces := names\<rparr>) = view s"
    and ignores_namespace_count: "view (s\<lparr>db_namespace_count := n\<rparr>) = view s"
    and ignores_stats: "view (s\<lparr>db_stats := st\<rparr>) = view s"
    and ignores_wal_tail: "view (s\<lparr>db_wal_tail := tails\<rparr>) = view s"
    and ignores_next_sequence: "view (s\<lparr>db_next_transaction_sequence := q\<rparr>) = view s"
    and ignores_dirty_mask: "view (s\<lparr>db_value_bank_dirty_mask := bits\<rparr>) = view s"
    and ignores_staged: "transaction_token t = transaction_token (db_transaction s) \<Longrightarrow> view (s\<lparr>db_transaction := t\<rparr>) = view s"
begin

lemmas ignores = ignores_manifest ignores_manifest_slot ignores_valid_copies ignores_stabilization ignores_fault
  ignores_memtable_index ignores_memtable_data ignores_data_used ignores_entry_count ignores_namespaces
  ignores_namespace_count ignores_stats ignores_wal_tail ignores_next_sequence ignores_dirty_mask

lemma keeps_write_manifest_copy: "keeps view (write_manifest_copy cfg dev generation state w) w"
proof -
  have io: "keeps view (on_ok (write_store cfg dev kind slot off buf w) (sync_store dev)) w" for kind slot off buf
    by (intro keeps_on_ok keeping)
  show ?thesis
    unfolding write_manifest_copy_def Let_def
    by (intro keeps_cases keeps_then io keeps_update) (simp_all add: ignores)
qed

lemma keeps_stabilize_manifest: "keeps view (stabilize_manifest cfg dev w) w"
  unfolding stabilize_manifest_def Let_def
  by (intro keeps_cases keeps_on_ok keeps_write_manifest_copy keeps_update) (simp add: ignores)

lemma view_set_table: "view (snd (set_table slot reference w)) = view (snd w)"
  by (simp add: set_table_def ignores)

lemma view_clear_tables: "view (snd (clear_tables start n w)) = view (snd w)"
proof -
  have "view (snd (fold (\<lambda>slot. set_table slot empty_table_reference) slots w)) = view (snd w)" for slots
    by (induction slots arbitrary: w) (simp_all add: view_set_table)
  then show ?thesis by (simp add: clear_tables_def)
qed

lemma view_reset_memtable: "view (reset_memtable cfg s) = view s"
  by (simp add: reset_memtable_def ignores)

lemma view_set_staged_references: "view (set_staged_references references s) = view s"
  by (simp add: set_staged_references_def Let_def ignores_staged transaction_token_def)

lemma view_published_state: "view (published_state cfg plan state references s) = view s"
  by (simp add: published_state_def Let_def ignores view_reset_memtable view_set_staged_references)

lemma view_compaction_statistics: "view (compaction_statistics elapsed n k s) = view s"
  by (simp add: compaction_statistics_def Let_def ignores)

lemma keeps_finish_plan_output: "keeps view (finish_plan_output cfg dev plan out state w) w"
  unfolding finish_plan_output_def
  by (intro keeps_then keeps_finish_compaction_output keeps_cases) (simp add: keeps_def view_set_table)

lemma keeps_start_plan_output: "keeps view (start_plan_output plan state w) w"
  unfolding start_plan_output_def by (rule keeps_start_compaction_output)

lemma keeps_append_to_plan: "keeps view (append_to_plan cfg dev plan source out state w) w"
  unfolding append_to_plan_def by (intro keeps_then keeps_append_compaction_entry keeps_pair keeps_refl)

lemma keeps_emit_winner: "keeps view (emit_winner cfg dev plan source state w) w"
  unfolding emit_winner_def Let_def
  by (intro keeps_cases keeps_then keeps_start_plan_output keeps_append_to_plan keeps_finish_plan_output keeps_pair)

lemma keeps_emit_unless_tombstone: "keeps view (emit_unless_tombstone cfg dev plan winner state w) w"
  unfolding emit_unless_tombstone_def Let_def by (intro keeps_if keeps_refl keeps_emit_winner)

lemma keeps_merge_tables: "merge_tables cfg dev plan offsets cursors state w = Some r \<Longrightarrow> keeps view r w"
proof (induction rule: merge_tables.raw_induct [rotated, consumes 1, case_names turn])
  case (turn merge cfg dev plan offsets cursors state w r)
  have emit: "keeps view r w"
    if "(case emit_unless_tombstone cfg dev plan winner state w of
          (Inl e, w) \<Rightarrow> Some (Inl e, w)
        | (Inr state, w) \<Rightarrow>
            (case advance_matching cfg dev False key cursors w of
               Inl e \<Rightarrow> Some (Inl e, w)
             | Inr cursors \<Rightarrow> merge cfg dev plan (consume_record (snd w) key offsets) (drop_finished cursors) state w)) = Some r"
    for winner key
  proof -
    obtain x w' where e: "emit_unless_tombstone cfg dev plan winner state w = (x, w')" by (rule prod.exhaust)
    have kept: "view (snd w') = view (snd w)" using keeps_emit_unless_tombstone e by (metis keepsD)
    have "keeps view r w'"
      using that by (cases x; cases "advance_matching cfg dev False key cursors w'") (auto simp: e keeps_refl intro: turn.IH)
    then show ?thesis using kept by (rule keeps_trans)
  qed
  show ?case
    using turn.hyps by (auto simp: Let_def keeps_refl split: if_splits sum.splits option.splits intro: emit)
qed

lemma keeps_merge_into_bank: "keeps view (merge_into_bank cfg dev plan offsets cursors w) w"
proof -
  have dropped: "keeps view (Inl e, clear_tables start n w) w" for e :: esp_err and start n w
    by (simp add: keeps_def view_clear_tables)
  have merged: "keeps view (case merge_tables cfg dev plan offsets cursors state w of None \<Rightarrow> (Inl ESP_FAIL, w) | Some r \<Rightarrow> r) w" for state
    by (cases "merge_tables cfg dev plan offsets cursors state w") (simp_all add: keeps_refl keeps_merge_tables)
  show ?thesis
    unfolding merge_into_bank_def Let_def
    by (intro keeps_then merged keeps_cases dropped keeps_finish_plan_output keeps_pair keeps_relocate_staged)
qed

lemma keeps_publish_compaction: "keeps view (publish_compaction cfg dev clock plan state references n w) w"
proof -
  have io: "keeps view (on_ok (sync_store dev w) (\<lambda>w. write_manifest_copy cfg dev (g w) st w)) w" for g st w
    by (intro keeps_on_ok keeping keeps_write_manifest_copy)
  have stable: "keeps view (case stabilize_manifest cfg dev (update_db (published_state cfg plan state references) w) of
      (ret, w) \<Rightarrow> (ret, update_db (compaction_statistics elapsed n k) w)) w" for elapsed k w
    by (rule keeps_trans [where w' = "update_db (published_state cfg plan state references) w"])
       (intro keeps_then keeps_stabilize_manifest keeps_update, simp_all add: view_compaction_statistics view_published_state)
  have restored: "keeps view (e, clear_tables start k (update_db (\<lambda>s. s\<lparr>db_manifest := m\<rparr>) w)) w" for e :: esp_err and start k m w
    by (simp add: keeps_def view_clear_tables ignores)
  show ?thesis
    unfolding publish_compaction_def Let_def
    by (rule keeps_trans [where w' = "update_db (\<lambda>s. s\<lparr>db_manifest :=
          swapped_manifest plan state (co_destination_tail state) (db_manifest (snd w))\<rparr>) w"])
       (intro keeps_then io keeps_if restored stable, simp add: ignores)
qed

lemma keeps_compact_tables: "keeps view (compact_tables cfg dev clock w) w"
  unfolding compact_tables_def Let_def
  by (intro keeps_cases keeps_on_ok keeps_validate_inputs keeps_then keeps_merge_into_bank keeps_publish_compaction keeps_pair)

lemma keeps_publish_flush: "keeps view (publish_flush cfg dev slot metadata w) w"
proof -
  let ?f = "\<lambda>m. update_db (\<lambda>s. s\<lparr>db_manifest := m\<rparr>) w"
  have published: "keeps view (e, update_db (\<lambda>s. reset_memtable cfg (s\<lparr>db_stats := st s\<rparr>)) w) w" for e :: esp_err and st w
    by (rule keeps_update) (simp add: view_reset_memtable ignores)
  show ?thesis
    unfolding publish_flush_def Let_def
    by (rule keeps_trans [where w' = "?f (flushed_manifest slot metadata (db_manifest (snd w)))"])
       (intro keeps_then keeps_write_manifest_copy keeps_if keeps_update published, simp_all add: ignores)
qed

lemma keeps_flush_memtable: "keeps view (flush_memtable cfg dev clock w) w"
proof -
  have flush: "keeps view (on_value (collect_flush_offsets cfg s) w' (\<lambda>offsets.
      on_result (write_flush_table cfg dev slot (sort_memtable_offsets s offsets (length offsets)) w') (\<lambda>metadata w.
      on_ok (validate_table cfg dev (make_table_reference metadata) None w) (publish_flush cfg dev slot metadata)))) w"
    if "w' = update_db (invalidate_table_index_cache slot) w" for s slot w' w
    by (rule keeps_trans [where w' = w'])
       (intro keeps_cases keeps_on_result keeping keeps_on_ok keeps_validate_table keeps_publish_flush,
        simp add: that view_table_caches)
  show ?thesis
    unfolding flush_memtable_def Let_def
    by (intro keeps_cases keeps_compact_tables flush refl)
qed

lemma keeps_rotate_wal: "keeps view (rotate_wal cfg dev w) w"
proof -
  have active: "view (snd (set_active_wal a b c w)) = view (snd w)" "view (snd (set_wal_tail a t w)) = view (snd w)"
    for a b c t w
    by (simp_all add: set_active_wal_def set_wal_tail_def ignores)
  have undo: "keeps view (e, set_active_wal a b c w) w" for e :: esp_err and a b c w by (simp add: keeps_def active)
  have stable: "keeps view (stabilize_manifest cfg dev (update_db (\<lambda>s. s\<lparr>db_manifest_stabilization_required := True\<rparr>) (set_wal_tail a t w))) w"
    for a t w
    by (rule keeps_trans [OF keeps_stabilize_manifest]) (simp add: ignores active)
  have rotated: "keeps view (case write_manifest_copy cfg dev (g (set_active_wal a b c w)) st (set_active_wal a b c w) of
      (ret, w) \<Rightarrow> if ret \<noteq> ESP_OK then (ret, set_active_wal old b 0 w) else
        stabilize_manifest cfg dev (update_db (\<lambda>s. s\<lparr>db_manifest_stabilization_required := True\<rparr>) (set_wal_tail b t w))) w"
    for g a b c st old t w
    by (rule keeps_trans [where w' = "set_active_wal a b c w"])
       (intro keeps_then keeps_write_manifest_copy keeps_if undo stable, rule active)
  show ?thesis
    unfolding rotate_wal_def Let_def
    by (intro keeps_cases keeps_on_ok keeps_stabilize_manifest keeping rotated)
qed

lemma keeps_make_wal_room: "keeps view (make_wal_room cfg dev clock w) w"
proof -
  have room: "keeps view (case on_ok freed (rotate_wal cfg dev) of (ret, w) \<Rightarrow> (if ret \<noteq> ESP_OK then Inl ret else Inr moved, w)) w"
    if "keeps view freed w" for freed and moved :: bool
    by (intro keeps_then keeps_on_ok keeps_rotate_wal that keeps_refl)
  show ?thesis
    unfolding make_wal_room_def Let_def
    using room [OF keeps_refl, of False ESP_OK] by (simp add: room keeps_compact_tables keeps_flush_memtable)
qed

lemma keeps_append_transaction: "keeps view (append_transaction cfg dev clock handle w) w"
  unfolding append_transaction_def Let_def
  by (intro keeps_cases keeps_on_ok keeps_stabilize_manifest keeps_on_result keeps_make_wal_room keeping keeps_pair keeps_update)
     (simp add: ignores)

text \<open>The parts of a commit.\<close>

lemma preflight_token: "transaction_token (snd (preflight_memtable_transaction cfg s tables t name)) = transaction_token t"
proof -
  have "transaction_token (snd (preflight_mutations cfg s tables name ns idxs t totals)) = transaction_token t"
    for ns idxs t totals
  proof (induction idxs arbitrary: t totals)
    case (Cons i idxs)
    then show ?case by (auto simp: transaction_token_def split: prod.split sum.split)
  qed simp
  then show ?thesis
    by (auto simp: preflight_memtable_transaction_def split: sum.split prod.split) (metis snd_conv)+
qed

lemma keeps_preflight_current: "keeps view (preflight_current cfg dev name w) w"
  using preflight_token [of cfg "snd w" "lookup_tables cfg dev w" "db_transaction (snd w)" name]
  by (auto simp: preflight_current_def keeps_def ignores_staged split: prod.split)

lemma keeps_preflight_or_flush: "keeps view (preflight_or_flush cfg dev clock name w) w"
  unfolding preflight_or_flush_def
  by (intro keeps_then keeps_preflight_current keeps_cases keeps_on_ok keeps_flush_memtable)

lemma keeps_sync_dirty_banks: "keeps view (sync_dirty_banks dev w) w"
  unfolding sync_dirty_banks_def by (intro keeps_cases keeps_on_ok keeping keeps_update) (simp add: ignores)

lemma view_ensure_namespace: "view (snd (ensure_namespace_capacity cfg s name publish)) = view s"
  by (simp add: ensure_namespace_capacity_def ignores split: sum.split option.split)

lemma view_apply_transaction: "view (snd (apply_transaction_to_memtable cfg t ns q s)) = view s"
proof -
  have one: "view (snd (apply_mutation cfg ns q m s)) = view s" for m s
    by (simp add: apply_mutation_def retire_record_def retire_table_record_def remove_memtable_record_def
        publish_record_def Let_def ignores split: sum.split prod.split)
  have "view (snd (apply_mutations cfg ns q ms s)) = view s" for ms s
  proof (induction ms arbitrary: s)
    case (Cons m ms)
    show ?case
      using one [of m s] Cons.IH by (auto split: prod.split)
  qed (simp add: ignores)
  then show ?thesis by (simp add: apply_transaction_to_memtable_def)
qed

end

section \<open>Views that ignore the value readers\<close>

lemma keeps_under_lock: "(\<And>w. keeps view (f w) w) \<Longrightarrow> keeps view (under_lock f w) w"
  by (simp add: under_lock_def keeps_def)

lemma keeps_under_lock_result: "(\<And>w. keeps view (f w) w) \<Longrightarrow> keeps view (under_lock_result f w) w"
  by (simp add: under_lock_result_def keeps_def)

locale reader_view =
  fixes view :: "db \<Rightarrow> 'v"
  assumes ignores_value_readers: "view (s\<lparr>db_value_readers := readers\<rparr>) = view s"
begin

lemma view_set_reader: "view (snd (set_reader index reader w)) = view (snd w)"
  by (simp add: set_reader_def ignores_value_readers)

lemma keeps_set_reader: "keeps view (e, set_reader index reader w) w"
  by (simp add: keeps_def view_set_reader)

lemma keeps_set_reader_twice: "keeps view (e, set_reader index reader (set_reader index' reader' w)) w"
  by (simp add: keeps_def view_set_reader)

lemma keeps_fill_reader_buffer: "keeps view (fill_reader_buffer cfg dev index w) w"
  unfolding fill_reader_buffer_def Let_def
  by (intro keeps_cases keeps_pair keeps_set_reader keeps_set_reader_twice)

lemma keeps_refill_reader: "keeps view (refill_reader cfg dev index w) w"
  unfolding refill_reader_def by (intro keeps_cases keeps_fill_reader_buffer)

lemma keeps_consume_loop: "keeps view (consume_loop cfg dev fuel index remaining w) w"
proof (induction fuel arbitrary: remaining w)
  case (Suc fuel)
  have "keeps view (consume_loop cfg dev fuel index n (set_reader index r w)) w" for n r w
    by (rule keeps_trans [OF Suc.IH view_set_reader])
  then show ?case
    by (subst consume_loop.simps) (unfold Let_def, intro keeps_cases keeps_then keeps_refill_reader)
qed (simp add: keeps_refl)

lemma keeps_read_loop: "keeps view (read_loop cfg dev fuel index n out w) w"
proof (induction fuel arbitrary: out w)
  case (Suc fuel)
  have "keeps view (read_loop cfg dev fuel index n xs (set_reader index r w)) w" for xs r w
    by (rule keeps_trans [OF Suc.IH view_set_reader])
  then show ?case
    by (subst read_loop.simps) (unfold Let_def, intro keeps_cases keeps_then keeps_refill_reader)
qed (simp add: keeps_refl)

lemma keeps_reader_operations:
  "keeps view (peek_value cfg dev raw w) w" "keeps view (consume_value cfg dev raw n w) w"
  "keeps view (read_value_into cfg dev raw n w) w" "keeps view (seek_value cfg raw offset w) w"
  "keeps view (close_value_reader cfg raw w) w"
proof -
  have refill: "keeps view (if c w then refill_reader cfg dev index w else (ESP_OK, w)) w" for c index w
    by (intro keeps_cases keeps_refill_reader)
  show "keeps view (peek_value cfg dev raw w) w"
    unfolding peek_value_def by (intro keeps_under_lock_result keeps_cases keeps_then refill)
  show "keeps view (consume_value cfg dev raw n w) w"
    unfolding consume_value_def Let_def
    by (intro keeps_under_lock keeps_cases keeps_then keeps_consume_loop keeps_pair keeps_set_reader)
  show "keeps view (read_value_into cfg dev raw n w) w"
    unfolding read_value_into_def by (intro keeps_cases keeps_then keeps_read_loop keeps_pair)
  show "keeps view (seek_value cfg raw offset w) w"
    unfolding seek_value_def Let_def by (intro keeps_under_lock keeps_cases keeps_set_reader)
  show "keeps view (close_value_reader cfg raw w) w"
    unfolding close_value_reader_def Let_def by (intro keeps_under_lock keeps_cases keeps_set_reader)
qed

end

section \<open>Views that ignore the staged values\<close>

locale staging_view =
  fixes view :: "db \<Rightarrow> 'v"
  assumes ignores_staging: "view (s\<lparr>db_transaction_staging := bs\<rparr>) = view s"
    and ignores_mutations: "transaction_token t = transaction_token (db_transaction s) \<Longrightarrow> view (s\<lparr>db_transaction := t\<rparr>) = view s"
begin

lemma view_stage_value: "view (snd (stage_value cfg raw key val kind s)) = view s"
proof -
  have removed: "view (remove_staged_value i s) = view s" for i s
    using ignores_mutations [of _ "s\<lparr>db_transaction_staging := _\<rparr>"]
    by (simp add: remove_staged_value_def Let_def transaction_token_def ignores_staging)
  have entered: "view (enter_staged_value key val kind n i s) = view s" for n i s
    using ignores_mutations [of _ "s\<lparr>db_transaction_staging := _\<rparr>"]
    by (simp add: enter_staged_value_def Let_def transaction_token_def ignores_staging)
  have added: "view (snd (add_mutation s)) = view s" for s
    by (simp add: add_mutation_def Let_def ignores_mutations transaction_token_def)
  have "view (snd (case prepared of (idx, s) \<Rightarrow> (ESP_OK, enter_staged_value key val kind n idx s))) = view s"
    if "view (snd prepared) = view s" for prepared n
    using that by (cases prepared) (simp add: entered)
  then show ?thesis
    by (auto simp: stage_value_def on_value_def Let_def removed added split: sum.split option.split)
qed

lemma view_stage_external_value: "view (snd (stage_external_value cfg raw key reference s)) = view s"
proof -
  have entered: "view (snd (on_value (get_transaction cfg s' raw) s' (\<lambda>t.
      case find_staged_mutation t key of None \<Rightarrow> (ESP_ERR_INVALID_STATE, s')
      | Some i \<Rightarrow> let m = f t i in (ESP_OK, s'\<lparr>db_transaction := t\<lparr>tx_mutations := (tx_mutations t)[i := m]\<rparr>\<rparr>)))) = view s'" for s' f
    by (auto simp: get_transaction_def on_value_def Let_def ignores_mutations transaction_token_def split: option.split prod.split)
  show ?thesis
    using view_stage_value [of cfg raw key "[]" mutation_kind_set s]
    unfolding stage_external_value_def Let_def [of "db_manifest s"] Let_def [of "mr_active_value_bank (db_manifest s)"]
    by (cases "stage_value cfg raw key [] mutation_kind_set s") (simp add: on_ok_def entered)
qed

end

end
