(* ===== verification/Session.thy ===== *)
theory Session
  imports Untouched
begin

text \<open>
  Handles and the one transaction as a state machine. The session of a database state is what the
  tokens of handles and transactions are checked against; its moves are an abstract specification of
  what the public operations do to it. Tokens carry a generation that is drawn from a counter which
  never hands out a value twice, so a token that was given back is never accepted again.
\<close>

section \<open>The session of a state\<close>

record session =
  se_handles :: "handle_slot list"
  se_active :: bool
  se_generation :: u64
  se_handle_index :: u16
  se_handle_generation :: u64
  se_handle_counter :: u64
  se_transaction_counter :: u64

definition session_of :: "db \<Rightarrow> session" where
  "session_of s = (let t = db_transaction s in
     \<lparr>se_handles = db_handles s, se_active = tx_active t, se_generation = tx_generation t,
      se_handle_index = tx_handle_slot_index t, se_handle_generation = tx_handle_generation t,
      se_handle_counter = db_handle_generation_counter s,
      se_transaction_counter = db_transaction_generation_counter s\<rparr>)"

lemma session_of_simps [simp]:
  "se_handles (session_of s) = db_handles s" "se_active (session_of s) = tx_active (db_transaction s)"
  "se_generation (session_of s) = tx_generation (db_transaction s)"
  "se_handle_index (session_of s) = tx_handle_slot_index (db_transaction s)"
  "se_handle_generation (session_of s) = tx_handle_generation (db_transaction s)"
  "se_handle_counter (session_of s) = db_handle_generation_counter s"
  "se_transaction_counter (session_of s) = db_transaction_generation_counter s"
  by (simp_all add: session_of_def Let_def)

interpretation session_maintenance: maintenance_view session_of
  by unfold_locales (simp_all add: session_of_def transaction_token_def Let_def)

interpretation session_staging: staging_view session_of
  by unfold_locales (simp_all add: session_of_def transaction_token_def Let_def)

interpretation session_readers: reader_view session_of
  by unfold_locales (simp add: session_of_def Let_def)

section \<open>The moves\<close>

definition next_generation :: "u64 \<Rightarrow> u64" where
  "next_generation g = (if g = max_handle_generation then 0 else g + 1)"

text \<open>The end of the transaction, by a commit or an abort.\<close>

definition end_session :: "config \<Rightarrow> session \<Rightarrow> session" where
  "end_session cfg S =
     (let index = unat (se_handle_index S); handle = se_handles S ! index in
      S\<lparr>se_handles := (if se_active S \<and> ucast (se_handle_index S) < cfg_max_open_handles cfg \<and> hs_used handle \<and>
             hs_generation handle = se_handle_generation S
           then (se_handles S)[index := handle\<lparr>hs_transaction_active := False\<rparr>] else se_handles S),
        se_active := False, se_handle_index := 0, se_handle_generation := 0\<rparr>)"

text \<open>The session after the allocation of a runtime: nothing is open, the counters go on.\<close>

definition fresh_session :: "config \<Rightarrow> session \<Rightarrow> session" where
  "fresh_session cfg S = S\<lparr>se_handles := replicate (unat (cfg_max_open_handles cfg)) empty_handle,
     se_active := False, se_generation := 0, se_handle_index := 0, se_handle_generation := 0\<rparr>"

inductive session_move :: "config \<Rightarrow> session \<Rightarrow> session \<Rightarrow> bool" for cfg where
  draw: "se_handle_counter S \<noteq> 0 \<Longrightarrow>
    session_move cfg S (S\<lparr>se_handle_counter := next_generation (se_handle_counter S)\<rparr>)"
| opened: "se_handle_counter S \<noteq> 0 \<Longrightarrow> i < unat (cfg_max_open_handles cfg) \<Longrightarrow> \<not> hs_used (se_handles S ! i) \<Longrightarrow>
    session_move cfg S (S\<lparr>se_handle_counter := next_generation (se_handle_counter S),
      se_handles := (se_handles S)[i := \<lparr>hs_generation = se_handle_counter S, hs_used = True,
        hs_transaction_active = False, hs_mode = mode, hs_namespace_name = namespace_name\<rparr>]\<rparr>)"
| closed: "i < unat (cfg_max_open_handles cfg) \<Longrightarrow> hs_used (se_handles S ! i) \<Longrightarrow>
    \<not> hs_transaction_active (se_handles S ! i) \<Longrightarrow>
    session_move cfg S (S\<lparr>se_handles :=
      (se_handles S)[i := empty_handle\<lparr>hs_generation := hs_generation (se_handles S ! i)\<rparr>]\<rparr>)"
| begun: "unat index < unat (cfg_max_open_handles cfg) \<Longrightarrow> hs_used (se_handles S ! unat index) \<Longrightarrow>
    hs_mode (se_handles S ! unat index) = read_write \<Longrightarrow> \<not> hs_transaction_active (se_handles S ! unat index) \<Longrightarrow>
    \<not> se_active S \<Longrightarrow> se_transaction_counter S \<noteq> 0 \<Longrightarrow>
    session_move cfg S (S\<lparr>se_transaction_counter := next_generation (se_transaction_counter S),
      se_active := True, se_generation := se_transaction_counter S, se_handle_index := index,
      se_handle_generation := hs_generation (se_handles S ! unat index),
      se_handles := (se_handles S)[unat index := (se_handles S ! unat index)\<lparr>hs_transaction_active := True\<rparr>]\<rparr>)"
| ended: "session_move cfg S (end_session cfg S)"
| restarted: "session_move cfg S (fresh_session cfg S)"

inductive_cases session_moveE: "session_move cfg S S'"

section \<open>The invariant\<close>

text \<open>A generation the counter has passed; a counter that is used up stays at zero.\<close>

definition issued :: "u64 \<Rightarrow> u64 \<Rightarrow> bool" where
  "issued g counter \<longleftrightarrow> g = 0 \<or> counter = 0 \<or> g < counter"

definition session_inv :: "config \<Rightarrow> session \<Rightarrow> bool" where
  "session_inv cfg S \<longleftrightarrow>
     (let n = unat (cfg_max_open_handles cfg) in
      length (se_handles S) = n \<and>
      se_handle_counter S \<le> max_handle_generation \<and> se_transaction_counter S \<le> max_handle_generation \<and>
      (\<forall>i<n. issued (hs_generation (se_handles S ! i)) (se_handle_counter S)) \<and>
      issued (se_generation S) (se_transaction_counter S) \<and>
      (\<forall>i<n. hs_transaction_active (se_handles S ! i) \<longrightarrow> se_active S \<and> unat (se_handle_index S) = i) \<and>
      (se_active S \<longrightarrow> unat (se_handle_index S) < n \<and> hs_used (se_handles S ! unat (se_handle_index S)) \<and>
         hs_generation (se_handles S ! unat (se_handle_index S)) = se_handle_generation S \<and>
         hs_transaction_active (se_handles S ! unat (se_handle_index S))))"

lemma max_generation_nat: "unat max_handle_generation = 2 ^ 55 - 1"
  by (simp add: max_handle_generation_def handle_slot_bits_def unat_drop_bit_eq unat_max_word drop_bit_eq_div)

lemma next_generation_nat:
  assumes "c \<le> max_handle_generation" "next_generation c \<noteq> 0"
  shows "unat (next_generation c) = Suc (unat c)" "unat c < 2 ^ 55 - 1"
proof -
  have "c \<noteq> max_handle_generation" using assms(2) by (auto simp: next_generation_def)
  then have "c < max_handle_generation" using assms(1) by simp
  then show c: "unat c < 2 ^ 55 - 1" using max_generation_nat by (simp add: word_less_nat_alt)
  have "unat (c + 1) = unat c + 1" using c by (subst unat_add_exact) simp_all
  then show "unat (next_generation c) = Suc (unat c)" using \<open>c \<noteq> _\<close> by (simp add: next_generation_def)
qed

lemma next_generation_bound: "c \<le> max_handle_generation \<Longrightarrow> next_generation c \<le> max_handle_generation"
  using next_generation_nat [of c] max_generation_nat
  by (cases "next_generation c = 0") (simp_all add: word_le_nat_alt)

lemma issued_next:
  assumes "c \<le> max_handle_generation"
  shows "issued c (next_generation c)" "issued g c \<Longrightarrow> c \<noteq> 0 \<Longrightarrow> issued g (next_generation c)"
  using next_generation_nat [OF assms]
  by (cases "next_generation c = 0"; auto simp: issued_def word_less_nat_alt)+

lemma issued_fresh: "issued g c \<Longrightarrow> g \<noteq> 0 \<Longrightarrow> c \<noteq> 0 \<Longrightarrow> g \<noteq> c"
  by (auto simp: issued_def)

lemma handle_count_word: "ucast (index :: u16) < cfg_max_open_handles cfg \<longleftrightarrow> unat index < unat (cfg_max_open_handles cfg)"
  using unat_less_pow [of index] by (simp add: word_less_nat_alt unsigned_ucast_eq take_bit_nat_eq_self)

lemma session_invD:
  assumes "session_inv cfg S"
  shows "length (se_handles S) = unat (cfg_max_open_handles cfg)"
    "se_handle_counter S \<le> max_handle_generation" "se_transaction_counter S \<le> max_handle_generation"
    "i < unat (cfg_max_open_handles cfg) \<Longrightarrow> issued (hs_generation (se_handles S ! i)) (se_handle_counter S)"
    "issued (se_generation S) (se_transaction_counter S)"
    "i < unat (cfg_max_open_handles cfg) \<Longrightarrow> hs_transaction_active (se_handles S ! i) \<Longrightarrow> se_active S"
    "i < unat (cfg_max_open_handles cfg) \<Longrightarrow> hs_transaction_active (se_handles S ! i) \<Longrightarrow> i = unat (se_handle_index S)"
    "se_active S \<Longrightarrow> unat (se_handle_index S) < unat (cfg_max_open_handles cfg)"
    "se_active S \<Longrightarrow> hs_used (se_handles S ! unat (se_handle_index S))"
    "se_active S \<Longrightarrow> hs_generation (se_handles S ! unat (se_handle_index S)) = se_handle_generation S"
    "se_active S \<Longrightarrow> hs_transaction_active (se_handles S ! unat (se_handle_index S))"
  using assms unfolding session_inv_def Let_def by blast+

lemma session_invI:
  assumes "length (se_handles S) = unat (cfg_max_open_handles cfg)"
    "se_handle_counter S \<le> max_handle_generation" "se_transaction_counter S \<le> max_handle_generation"
    "\<And>i. i < unat (cfg_max_open_handles cfg) \<Longrightarrow> issued (hs_generation (se_handles S ! i)) (se_handle_counter S)"
    "issued (se_generation S) (se_transaction_counter S)"
    "\<And>i. i < unat (cfg_max_open_handles cfg) \<Longrightarrow> hs_transaction_active (se_handles S ! i) \<Longrightarrow>
       se_active S \<and> unat (se_handle_index S) = i"
    "se_active S \<Longrightarrow> unat (se_handle_index S) < unat (cfg_max_open_handles cfg) \<and>
       hs_used (se_handles S ! unat (se_handle_index S)) \<and>
       hs_generation (se_handles S ! unat (se_handle_index S)) = se_handle_generation S \<and>
       hs_transaction_active (se_handles S ! unat (se_handle_index S))"
  shows "session_inv cfg S"
  unfolding session_inv_def Let_def
proof (intro conjI)
  show "\<forall>i<unat (cfg_max_open_handles cfg). issued (hs_generation (se_handles S ! i)) (se_handle_counter S)"
    using assms(4) by simp
  show "\<forall>i<unat (cfg_max_open_handles cfg). hs_transaction_active (se_handles S ! i) \<longrightarrow>
      se_active S \<and> unat (se_handle_index S) = i"
    using assms(6) by blast
  show "se_active S \<longrightarrow> unat (se_handle_index S) < unat (cfg_max_open_handles cfg) \<and>
       hs_used (se_handles S ! unat (se_handle_index S)) \<and>
       hs_generation (se_handles S ! unat (se_handle_index S)) = se_handle_generation S \<and>
       hs_transaction_active (se_handles S ! unat (se_handle_index S))"
    using assms(7) by (rule impI)
qed (fact assms)+

lemma session_inv_draw:
  assumes inv: "session_inv cfg S" and c: "se_handle_counter S \<noteq> 0"
  shows "session_inv cfg (S\<lparr>se_handle_counter := next_generation (se_handle_counter S)\<rparr>)"
    (is "session_inv cfg ?S")
proof (rule session_invI)
  note D = session_invD [OF inv]
  show "issued (hs_generation (se_handles ?S ! i)) (se_handle_counter ?S)"
    if "i < unat (cfg_max_open_handles cfg)" for i
    using issued_next(2) [OF D(2) D(4) [OF that] c] by simp
  show "se_active ?S \<and> unat (se_handle_index ?S) = i"
    if "i < unat (cfg_max_open_handles cfg)" "hs_transaction_active (se_handles ?S ! i)" for i
    using D(6,7) [OF that(1)] that(2) by simp
  show "unat (se_handle_index ?S) < unat (cfg_max_open_handles cfg) \<and>
       hs_used (se_handles ?S ! unat (se_handle_index ?S)) \<and>
       hs_generation (se_handles ?S ! unat (se_handle_index ?S)) = se_handle_generation ?S \<and>
       hs_transaction_active (se_handles ?S ! unat (se_handle_index ?S))" if "se_active ?S"
    using D(8-11) that by simp
qed (use session_invD(1-3,5) [OF inv] in \<open>simp_all add: next_generation_bound\<close>)

text \<open>A handle that has no transaction may be replaced by one that has none.\<close>

lemma session_inv_handle:
  assumes inv: "session_inv cfg S" and h: "\<not> hs_transaction_active (se_handles S ! i)" "\<not> hs_transaction_active h"
    and g: "issued (hs_generation h) (se_handle_counter S)"
  shows "session_inv cfg (S\<lparr>se_handles := (se_handles S)[i := h]\<rparr>)"
proof (rule session_invI)
  note D = session_invD [OF inv]
  let ?S = "S\<lparr>se_handles := (se_handles S)[i := h]\<rparr>"
  show "issued (hs_generation (se_handles ?S ! j)) (se_handle_counter ?S)" if "j < unat (cfg_max_open_handles cfg)" for j
    using D(1) D(4) [OF that] g that by (cases "j = i") simp_all
  show "se_active ?S \<and> unat (se_handle_index ?S) = j"
    if "j < unat (cfg_max_open_handles cfg)" "hs_transaction_active (se_handles ?S ! j)" for j
    using D(1) D(6,7) [OF that(1)] that h by (cases "j = i") simp_all
  show "unat (se_handle_index ?S) < unat (cfg_max_open_handles cfg) \<and>
       hs_used (se_handles ?S ! unat (se_handle_index ?S)) \<and>
       hs_generation (se_handles ?S ! unat (se_handle_index ?S)) = se_handle_generation ?S \<and>
       hs_transaction_active (se_handles ?S ! unat (se_handle_index ?S))" if "se_active ?S"
  proof -
    have active: "se_active S" using that by simp
    then have "unat (se_handle_index S) \<noteq> i" using h(1) D(11) by auto
    then show ?thesis using D(8-11) [OF active] by simp
  qed
qed (use session_invD(1-3,5) [OF inv] in simp_all)

lemma session_inv_begin:
  assumes inv: "session_inv cfg S" and h: "unat index < unat (cfg_max_open_handles cfg)" "hs_used (se_handles S ! unat index)"
    and off: "\<not> se_active S" and c: "se_transaction_counter S \<noteq> 0"
  shows "session_inv cfg (S\<lparr>se_transaction_counter := next_generation (se_transaction_counter S),
      se_active := True, se_generation := se_transaction_counter S, se_handle_index := index,
      se_handle_generation := hs_generation (se_handles S ! unat index),
      se_handles := (se_handles S)[unat index := (se_handles S ! unat index)\<lparr>hs_transaction_active := True\<rparr>]\<rparr>)"
    (is "session_inv cfg ?S")
proof (rule session_invI)
  note D = session_invD [OF inv]
  show "issued (hs_generation (se_handles ?S ! j)) (se_handle_counter ?S)" if "j < unat (cfg_max_open_handles cfg)" for j
    using D(1) D(4) [OF that] that h by (cases "j = unat index") simp_all
  show "se_active ?S \<and> unat (se_handle_index ?S) = j"
    if "j < unat (cfg_max_open_handles cfg)" "hs_transaction_active (se_handles ?S ! j)" for j
    using D(1) D(6) [OF that(1)] that off by (cases "j = unat index") simp_all
  show "issued (se_generation ?S) (se_transaction_counter ?S)" using issued_next(1) [OF D(3)] by simp
qed (use session_invD(1-3) [OF inv] h in \<open>simp_all add: next_generation_bound\<close>)

lemma end_session_simps [simp]:
  "se_handle_counter (end_session cfg S) = se_handle_counter S"
  "se_transaction_counter (end_session cfg S) = se_transaction_counter S"
  "se_generation (end_session cfg S) = se_generation S" "\<not> se_active (end_session cfg S)"
  "length (se_handles (end_session cfg S)) = length (se_handles S)"
  by (simp_all add: end_session_def Let_def)

lemma end_session_handles:
  assumes inv: "session_inv cfg S"
  shows "se_handles (end_session cfg S) = (if se_active S
    then (se_handles S)[unat (se_handle_index S) := (se_handles S ! unat (se_handle_index S))\<lparr>hs_transaction_active := False\<rparr>]
    else se_handles S)"
  using session_invD(8-10) [OF inv] by (simp add: end_session_def Let_def handle_count_word)

lemma session_inv_end:
  assumes inv: "session_inv cfg S"
  shows "session_inv cfg (end_session cfg S)"
proof (rule session_invI)
  note D = session_invD [OF inv]
  note H = end_session_handles [OF inv]
  let ?S = "end_session cfg S" and ?i = "unat (se_handle_index S)"
  show "issued (hs_generation (se_handles ?S ! j)) (se_handle_counter ?S)" if "j < unat (cfg_max_open_handles cfg)" for j
    using D(1) D(4) [OF that] that by (cases "j = ?i") (simp_all add: H)
  show "se_active ?S \<and> unat (se_handle_index ?S) = j"
    if j: "j < unat (cfg_max_open_handles cfg)" and active: "hs_transaction_active (se_handles ?S ! j)" for j
  proof (cases "se_active S \<and> j = ?i")
    case True
    then show ?thesis using D(1) j active by (simp add: H)
  next
    case False
    then have "hs_transaction_active (se_handles S ! j)" using active by (auto simp: H split: if_splits)
    then have "se_active S" "j = ?i" using D(6,7) [OF j] by blast+
    then show ?thesis using False by blast
  qed
qed (use session_invD(1-3,5) [OF inv] in simp_all)

lemma session_inv_step:
  assumes step: "session_move cfg S S'" and inv: "session_inv cfg S"
  shows "session_inv cfg S'"
  using step
proof cases
  case draw
  then show ?thesis using session_inv_draw [OF inv] by simp
next
  case (opened i mode namespace_name)
  let ?h = "\<lparr>hs_generation = se_handle_counter S, hs_used = True, hs_transaction_active = False,
    hs_mode = mode, hs_namespace_name = namespace_name\<rparr>"
  let ?S = "S\<lparr>se_handle_counter := next_generation (se_handle_counter S)\<rparr>"
  note D = session_invD [OF session_inv_draw [OF inv opened(2)]] session_invD [OF inv]
  have "\<not> hs_transaction_active (se_handles ?S ! i)"
    using D(6,7) [OF opened(3)] D(9) opened(4) by auto
  then have "session_inv cfg (?S\<lparr>se_handles := (se_handles ?S)[i := ?h]\<rparr>)"
    using issued_next(1) [OF session_invD(2) [OF inv]] by (intro session_inv_handle [OF session_inv_draw [OF inv opened(2)]]) simp_all
  then show ?thesis by (simp add: opened(1))
next
  case (closed i)
  then show ?thesis
    using session_inv_handle [OF inv closed(4)] session_invD(4) [OF inv closed(2)] by (simp add: empty_handle_def)
next
  case (begun index)
  then show ?thesis using session_inv_begin [OF inv] by simp
next
  case ended
  then show ?thesis using session_inv_end [OF inv] by simp
next
  case restarted
  have "issued 0 c" for c by (simp add: issued_def)
  then show ?thesis
    using session_invD(2,3) [OF inv] unfolding restarted
    by (intro session_invI) (simp_all add: fresh_session_def empty_handle_def)
qed

end
