(* ===== verification/Lifecycle.thy ===== *)
theory Lifecycle
  imports Session Provisioning
begin

text \<open>
  The start and the stop of an instance, and what they do to the session: the start leaves the session
  of the freshly allocated runtime, recovery included, and both keep the counters the tokens are made
  from.
\<close>

section \<open>Without a transaction\<close>

definition idle :: "db \<Rightarrow> bool" where
  "idle s \<longleftrightarrow> transaction_token (db_transaction s) = (False, 0, 0, 0)"

lemma idle_session: "session_of s = session_of s' \<Longrightarrow> idle s = idle s'"
  by (auto simp: idle_def transaction_token_def session_of_def Let_def)

lemma idle_cong: "transaction_token (db_transaction s) = transaction_token (db_transaction s') \<Longrightarrow> idle s = idle s'"
  by (simp add: idle_def)

lemma session_idle:
  "idle s \<Longrightarrow> transaction_token t = (False, 0, 0, 0) \<Longrightarrow> session_of (s\<lparr>db_transaction := t\<rparr>) = session_of s"
  by (rule session_maintenance.ignores_staged) (simp add: idle_def)

lemma clear_transaction_idle: "idle s \<Longrightarrow> session_of (clear_transaction cfg s) = session_of s"
  by (simp add: clear_transaction_def Let_def idle_def transaction_token_def session_of_def empty_transaction_def)

lemma parsed_transaction_idle:
  "parse_recovered_transaction cfg g payload n = Inr (name, t) \<Longrightarrow> transaction_token t = (False, 0, 0, 0)"
  by (auto simp: parse_recovered_transaction_def transaction_token_def empty_transaction_def require_that_def Let_def
      split: if_splits option.splits sum.splits prod.splits)

text \<open>A sequence of steps that keep the session of a state without a transaction.\<close>

lemma idle_on_ok:
  assumes "idle (snd w)" "keeps session_of r w" "\<And>w'. idle (snd w') \<Longrightarrow> keeps session_of (k w') w'"
  shows "keeps session_of (on_ok r k) w"
proof (cases r)
  case (fields e d s)
  then have same: "session_of s = session_of (snd w)" using assms(2) by (simp add: keeps_def)
  then have "idle s" using assms(1) idle_session by blast
  then show ?thesis using assms(3) [of "(d, s)"] same by (auto simp: fields on_ok_def keeps_def)
qed

lemma idle_on_result:
  assumes "idle (snd w)" "keeps session_of r w" "\<And>x w'. idle (snd w') \<Longrightarrow> keeps session_of (k x w') w'"
  shows "keeps session_of (on_result r k) w"
proof (cases r)
  case (fields x d s)
  then have same: "session_of s = session_of (snd w)" using assms(2) by (simp add: keeps_def)
  then have "idle s" using assms(1) idle_session by blast
  then show ?thesis using assms(3) [of "(d, s)"] same by (cases x) (auto simp: fields on_result_def keeps_def)
qed

section \<open>Provisioning keeps the session\<close>

lemma keeps_manifest_after:
  "session_of (snd w') = session_of (snd w) \<Longrightarrow> keeps session_of (write_manifest_copy cfg dev generation state w') w"
  by (rule keeps_trans [OF session_maintenance.keeps_write_manifest_copy])

lemma session_set_valid_copies: "session_of (snd (set_valid_copies n w)) = session_of (snd w)"
  by (simp add: set_valid_copies_def session_maintenance.ignores)

lemma keeps_set_valid_copies: "keeps session_of (e, set_valid_copies n w) w"
  by (simp add: keeps_def session_set_valid_copies)

lemma keeps_create_manifest: "keeps session_of (create_manifest cfg dev database_id w) w"
  unfolding create_manifest_def
  by (intro keeps_on_ok keeps_manifest_after keeps_set_valid_copies)
     (simp_all add: session_set_valid_copies session_maintenance.ignores)

lemma keeps_load_manifest: "keeps session_of (load_manifest cfg dev w) w"
  unfolding load_manifest_def Let_def
  by (intro keeps_cases keeps_update) (simp add: session_maintenance.ignores)

lemma keeps_open_existing_manifest: "keeps session_of (open_existing_manifest cfg dev w) w"
  unfolding open_existing_manifest_def Let_def
  by (intro keeps_cases keeps_on_ok keeps_load_manifest session_maintenance.keeps_write_manifest_copy keeps_set_valid_copies)

lemma keeps_write_zero_slots: "keeps session_of (write_zero_slots cfg dev slot offsets w) w"
  by (induction offsets arbitrary: w) (auto intro: keeps_refl keeps_on_ok keeping)

lemma keeps_write_missing_identities: "keeps session_of (write_missing_identities cfg dev kind slot copies w) w"
proof (induction copies arbitrary: w)
  case (Cons copy copies)
  have "keeps session_of (write_file_identity_copy cfg dev kind slot i w) w" for i w
    unfolding write_file_identity_copy_def Let_def by (intro keeps_cases keeping)
  then show ?case
    by (cases copy) (simp only: write_missing_identities.simps, intro keeps_if keeps_on_ok Cons.IH)
qed (simp add: keeps_refl)

lemma keeps_provision_one_data_file: "keeps session_of (provision_one_data_file cfg dev kind slot w) w"
  unfolding provision_one_data_file_def clear_table_markers_def Let_def
  by (intro keeps_pair keeps_cases keeps_on_ok keeping keeps_write_zero_slots keeps_write_missing_identities)

lemma keeps_provision_data_files: "keeps session_of (provision_data_files cfg dev files w) w"
proof (induction files arbitrary: w)
  case (Cons entry files)
  then show ?case
    by (cases entry) (simp only: provision_data_files.simps, intro keeps_on_ok keeps_provision_one_data_file)
qed (simp add: keeps_refl)

lemma keeps_stabilize_marked:
  "keeps session_of (stabilize_manifest cfg dev (update_db (\<lambda>s. s\<lparr>db_manifest_stabilization_required := True\<rparr>) w)) w"
  by (rule keeps_trans [OF session_maintenance.keeps_stabilize_manifest]) (simp add: session_maintenance.ignores)

lemma keeps_initialise_storage: "keeps session_of (initialise_storage cfg dev database_id w) w"
  unfolding initialise_storage_def setup_manifest_def provision_all_data_files_def initialise_first_wal_def Let_def
  by (intro keeps_on_ok keeps_cases keeps_create_manifest keeps_open_existing_manifest keeps_provision_data_files keeping
      keeps_stabilize_marked keeps_manifest_after) (simp add: session_maintenance.ignores)

section \<open>Recovery keeps the session\<close>

lemma session_reset_for_recovery: "session_of (reset_for_recovery cfg s) = session_of s"
  by (simp add: reset_for_recovery_def session_maintenance.view_reset_memtable session_maintenance.ignores)

lemma keeps_recover_one_table: "keeps session_of (recover_one_table cfg dev slot w) w"
  unfolding recover_one_table_def Let_def
  by (intro keeps_cases keeps_on_ok session_maintenance.keeps_validate_table keeps_update)
     (simp add: session_maintenance.ignores)

lemma keeps_recover_each_table: "keeps session_of (recover_each_table cfg dev slots w) w"
proof (induction slots arbitrary: w)
  case (Cons slot slots)
  then show ?case by (simp only: recover_each_table.simps) (intro keeps_on_ok keeps_recover_one_table)
qed (simp add: keeps_refl)

lemma keeps_merge_recovery: "merge_recovery cfg dev cursors w = Some r \<Longrightarrow> keeps session_of r w"
proof (induction rule: merge_recovery.raw_induct [rotated, consumes 1, case_names turn])
  case (turn merge cfg dev cursors w r)
  let ?counted = "\<lambda>winner n s. s\<lparr>db_stats := count_recovered_entry winner n (db_stats s)\<rparr>"
  have counted: "session_of (snd (update_db (?counted winner n) (d, s))) = session_of (snd w)"
    if "session_of s = session_of (snd w)" for d s winner n
    using that by (simp add: session_maintenance.ignores)
  have merged: "keeps session_of r w"
    if "session_of s = session_of (snd w)" "merge cfg dev cs (update_db (?counted winner n) (d, s)) = Some r" for cs d s winner n
    using turn.IH [OF that(2)] counted [OF that(1)] by (rule keeps_trans)
  have left: "keeps session_of (e, update_db (?counted winner n) (d, s)) w"
    if "session_of s = session_of (snd w)" for e :: esp_err and d s winner n
    using keeps_refl counted [OF that] by (rule keeps_trans)
  have named: "session_of s = session_of (snd w)" if "ensure_namespace_capacity cfg (snd w) name True = (x, s)" for name x s
    using session_maintenance.view_ensure_namespace [of cfg "snd w" name True] that by simp
  have refl: "keeps session_of (e, w) w" for e :: esp_err by (rule keeps_refl)
  have moved: "keeps session_of (e, d, s) w" if "session_of s = session_of (snd w)" for e :: esp_err and d s
    using that by (rule keeps_state)
  show ?case
    using turn.hyps
    by (auto simp: Let_def refl split: if_splits sum.splits option.splits prod.splits dest!: named intro: moved merged left)
qed

lemma keeps_recover_tables: "keeps session_of (recover_tables cfg dev w) w"
proof -
  have merged: "keeps session_of (case merge_recovery cfg dev cursors w of None \<Rightarrow> (ESP_FAIL, w) | Some r \<Rightarrow> r) w" for cursors w
    by (cases "merge_recovery cfg dev cursors w") (simp_all add: keeps_refl keeps_merge_recovery)
  have "keeps session_of (on_ok (recover_each_table cfg dev slots w') (\<lambda>w.
      on_value (open_recovery_cursors cfg dev slots n w) w (\<lambda>cursors.
        case merge_recovery cfg dev cursors w of None \<Rightarrow> (ESP_FAIL, w) | Some r \<Rightarrow> r))) w"
    if "session_of (snd w') = session_of (snd w)" for slots n w'
    by (rule keeps_trans [OF keeps_on_ok that]) (intro keeps_on_value keeps_recover_each_table merged)+
  then show ?thesis
    unfolding recover_tables_def Let_def by (simp add: session_maintenance.ignores)
qed

text \<open>The transaction a replay puts in place is not an open one, and is cleared again.\<close>

lemma session_recover_value_tails: "session_of (snd (recover_value_tails cfg ms s)) = session_of s"
proof (induction ms arbitrary: s)
  case (Cons m ms)
  have "session_of (snd (recover_value_tail cfg m s)) = session_of s"
    by (simp add: recover_value_tail_def Let_def session_maintenance.ignores)
  then show ?case using Cons.IH by (cases "recover_value_tail cfg m s") (auto simp: on_ok_def)
qed simp

lemma keeps_replay_transaction:
  assumes "idle (snd w)"
  shows "keeps session_of (replay_transaction cfg dev payload mutation_count sequence w) w"
proof -
  have published: "session_of (snd (snd (case ensure_namespace_capacity cfg s name True of
      (Inl e, s) \<Rightarrow> (e, fst w, s)
    | (Inr i, s) \<Rightarrow>
        (case apply_transaction_to_memtable cfg t i sequence s of
           (ret, s) \<Rightarrow> (ret, fst w, if ret = ESP_OK then clear_transaction cfg s else s))))) = session_of (snd w)"
    if s: "session_of s = session_of (snd w)" for name s t
  proof (cases "ensure_namespace_capacity cfg s name True")
    case (Pair r s1)
    have s1: "session_of s1 = session_of (snd w)"
      using session_maintenance.view_ensure_namespace [of cfg s name True] s by (simp add: Pair)
    have applied: "session_of (snd (apply_transaction_to_memtable cfg t i sequence s1)) = session_of (snd w)" for i
      by (simp add: session_maintenance.view_apply_transaction s1)
    have "idle (snd (apply_transaction_to_memtable cfg t i sequence s1))" for i
      using idle_session [OF applied] assms by simp
    then show ?thesis
      using applied by (auto simp: Pair s1 clear_transaction_idle split: sum.split prod.split) (metis clear_transaction_idle snd_conv)+
  qed
  show ?thesis
  proof (cases "parse_recovered_transaction cfg (mr_geometry (db_manifest (snd w))) payload mutation_count")
    case (Inr p)
    obtain name t where p: "p = (name, t)" by fastforce
    have t: "transaction_token t = (False, 0, 0, 0)" using parsed_transaction_idle Inr p by blast
    obtain ret s where tails: "recover_value_tails cfg (used_mutations t) ((snd w)\<lparr>db_transaction := t\<rparr>) = (ret, s)" by fastforce
    have s: "session_of s = session_of (snd w)"
      using session_recover_value_tails [of cfg "used_mutations t" "(snd w)\<lparr>db_transaction := t\<rparr>"] session_idle [OF assms t] tails
      by simp
    obtain r t' where pre: "preflight_memtable_transaction cfg s (lookup_tables cfg dev (fst w, s)) t name = (r, t')" by fastforce
    have "transaction_token t' = (False, 0, 0, 0)"
      using session_maintenance.preflight_token t pre by (metis snd_conv)
    moreover have "idle s" using idle_session [OF s] assms by simp
    ultimately have "session_of (s\<lparr>db_transaction := t'\<rparr>) = session_of (snd w)" using session_idle s by simp
    then show ?thesis
      using published [where s = "s\<lparr>db_transaction := t'\<rparr>" and name = name and t = t'] s
      by (cases r) (simp_all add: replay_transaction_def Inr p tails pre keeps_def on_value_def)
  qed (simp add: replay_transaction_def on_value_def keeps_refl)
qed

lemma session_stage_recovered: "session_of (snd (stage_recovered payload w)) = session_of (snd w)"
  by (simp add: stage_recovered_def session_staging.ignores_staging)

lemma session_set_wal_tail: "session_of (snd (set_wal_tail slot t w)) = session_of (snd w)"
  by (simp add: set_wal_tail_def session_maintenance.ignores)

lemma keeps_end_wal_scan:
  "session_of (snd w') = session_of (snd w) \<Longrightarrow>
     keeps session_of (end_wal_scan cfg dev slot later region_end generation expected offset w') w"
  by (auto simp: end_wal_scan_def keeps_def session_set_wal_tail split: sum.split)

lemma keeps_scan_wal_transactions:
  "idle (snd w) \<Longrightarrow>
     keeps session_of (scan_wal_transactions cfg dev slot offset region_end generation expected w) w"
proof (induction "region_end - offset" arbitrary: offset expected w rule: less_induct)
  case less
  have turn: "keeps session_of
      (case (if c then replay_transaction cfg dev payload n expected (stage_recovered payload w)
             else (ESP_OK, stage_recovered payload w)) of
         (ret, w) \<Rightarrow>
           if ret \<noteq> ESP_OK then (Inl ret, w)
           else if e then (Inl ESP_ERR_INVALID_STATE, update_db (\<lambda>s. s\<lparr>db_stats := f s\<rparr>) w)
           else scan_wal_transactions cfg dev slot next region_end generation expected'
                  (update_db (\<lambda>s. s\<lparr>db_stats := f s\<rparr>) w)) w"
    if "region_end - next < region_end - offset" for c payload n e f "next" expected'
  proof -
    have staged: "session_of (snd (stage_recovered payload w)) = session_of (snd w)" by (rule session_stage_recovered)
    then have "idle (snd (stage_recovered payload w))" using idle_session less.prems by blast
    then have replayed: "keeps session_of (if c then replay_transaction cfg dev payload n expected (stage_recovered payload w)
             else (ESP_OK, stage_recovered payload w)) (stage_recovered payload w)"
      by (intro keeps_cases keeps_replay_transaction)
    show ?thesis
    proof (cases "if c then replay_transaction cfg dev payload n expected (stage_recovered payload w)
             else (ESP_OK, stage_recovered payload w)")
      case (fields ret d s)
      let ?w = "update_db (\<lambda>s. s\<lparr>db_stats := f s\<rparr>) (d, s)"
      have s: "session_of s = session_of (snd w)" using replayed staged by (simp add: fields keeps_def)
      then have w: "session_of (snd ?w) = session_of (snd w)" by (simp add: session_maintenance.ignores)
      then have "idle (snd ?w)" using idle_session less.prems by blast
      from keeps_trans [OF less.hyps [OF that this] w] show ?thesis
        using s w by (simp only: fields prod.case) (simp add: keeps_def)
    qed
  qed
  have wrapped: "session_of (snd w') = session_of (snd w) \<Longrightarrow> keeps session_of (e, w') w" for e :: "esp_err + u64" and w'
    by (simp add: keeps_def)
  have frames: "keeps session_of (case r of Complete payload crc \<Rightarrow> a payload crc | Torn i payload \<Rightarrow> b i payload) w"
    if "\<And>payload crc. keeps session_of (a payload crc) w" "\<And>i payload. keeps session_of (b i payload) w" for r a b
    using that by (cases r) simp_all
  show ?case
    by (subst scan_wal_transactions.simps, unfold Let_def)
       (intro keeps_cases keeps_pair frames keeps_end_wal_scan wrapped turn session_set_wal_tail session_stage_recovered refl;
        simp add: wal_scan_progress)
qed

lemma keeps_recover_wal:
  assumes "idle (snd w)"
  shows "keeps session_of (recover_wal cfg dev w) w"
proof -
  have scan: "keeps session_of (scan_wal_slot cfg dev slot generation expected w) w" if "idle (snd w)" for slot generation expected w
    unfolding scan_wal_slot_def using that by (intro keeps_cases keeps_scan_wal_transactions)
  have slots: "keeps session_of (scan_wal_slots cfg dev first expected w) w" if idle: "idle (snd w)" for first expected w
  proof (cases "scan_wal_slot cfg dev first (mr_wal_generation (db_manifest (snd w)) ! unat first) expected w")
    case (fields r d s)
    have s: "session_of s = session_of (snd w)" using scan [OF idle] by (simp add: keeps_def) (metis fields snd_conv)
    then have "idle s" using idle_session idle by blast
    then have "keeps session_of (scan_wal_slot cfg dev slot generation expected (d, s)) w" for slot generation expected
      using keeps_trans [OF scan [of "(d, s)"]] s by simp
    then show ?thesis
      by (cases r) (simp_all add: scan_wal_slots_def fields Let_def, simp_all add: keeps_def s session_set_wal_tail)
  qed
  have idle: "idle (snd (update_db (reset_for_recovery cfg) w))"
    using idle_session [OF session_reset_for_recovery] assms by simp
  have "keeps session_of (recover_wal cfg dev w) (update_db (reset_for_recovery cfg) w)"
    if "\<not> (mr_state (db_manifest (snd w)) \<noteq> manifest_state_ready \<or>
         unat (mr_active_wal_slot (db_manifest (snd w))) \<ge> wal_file_count \<or>
         mr_wal_generation (db_manifest (snd w)) ! unat (mr_active_wal_slot (db_manifest (snd w))) = 0)"
    unfolding recover_wal_def Let_def if_not_P [OF that]
    by (intro idle_on_ok [OF idle] keeps_recover_tables keeps_cases idle_on_result slots)
       (auto intro!: keeps_trans [OF session_maintenance.keeps_stabilize_manifest] simp: session_maintenance.ignores)
  then have "keeps session_of (recover_wal cfg dev w) w"
    if "\<not> (mr_state (db_manifest (snd w)) \<noteq> manifest_state_ready \<or>
         unat (mr_active_wal_slot (db_manifest (snd w))) \<ge> wal_file_count \<or>
         mr_wal_generation (db_manifest (snd w)) ! unat (mr_active_wal_slot (db_manifest (snd w))) = 0)"
    using that by (simp add: keeps_def session_reset_for_recovery)
  then show ?thesis
    unfolding recover_wal_def Let_def by (intro keeps_if keeps_refl) (simp add: recover_wal_def Let_def)
qed

section \<open>Start and stop\<close>

lemma session_fresh_runtime: "session_of (fresh_runtime cfg cached s) = fresh_session cfg (session_of s)"
  by (simp add: fresh_runtime_def fresh_session_def session_of_def initial_db_def empty_transaction_def Let_def)

lemma idle_fresh_runtime: "idle (fresh_runtime cfg cached s)"
  by (simp add: idle_def transaction_token_def fresh_runtime_def initial_db_def empty_transaction_def)

lemma session_init_instance:
  "session_of (snd (snd (init_instance cfg dev block_count allocated database_id w))) \<in>
     {session_of (snd w), fresh_session cfg (session_of (snd w))}"
proof -
  let ?S = "fresh_session cfg (session_of (snd w))"
  have counters: "fresh_session cfg S = fresh_session cfg S'"
    if "se_handle_counter S = se_handle_counter S'" "se_transaction_counter S = se_transaction_counter S'" for S S'
    using that by (simp add: fresh_session_def)
  have started: "keeps session_of (on_ok (initialise_storage cfg dev database_id (update_db (fresh_runtime cfg cached) w))
      (recover_wal cfg dev)) (update_db (fresh_runtime cfg cached) w)" for cached
    by (intro idle_on_ok keeps_initialise_storage keeps_recover_wal) (simp add: idle_fresh_runtime)
  have "session_of (snd (snd (case on_ok (initialise_storage cfg dev database_id (update_db (fresh_runtime cfg cached) w))
      (recover_wal cfg dev) of (ret, w) \<Rightarrow>
        if ret = ESP_OK then (ESP_OK, update_db (\<lambda>s. s\<lparr>db_initialized := True\<rparr>) w)
        else (ret, update_db (fresh_runtime cfg False) w)))) = ?S" for cached
  proof (cases "on_ok (initialise_storage cfg dev database_id (update_db (fresh_runtime cfg cached) w)) (recover_wal cfg dev)")
    case (fields ret d s)
    have s: "session_of s = ?S" using started [of cached] by (simp add: fields keeps_def session_fresh_runtime)
    moreover have "session_of (s\<lparr>db_initialized := True\<rparr>) = session_of s" by (simp add: session_of_def Let_def)
    ultimately show ?thesis by (simp add: fields session_fresh_runtime) (simp add: fresh_session_def)
  qed
  then show ?thesis
    by (simp add: init_instance_def Let_def session_fresh_runtime split: allocation.split)
qed

lemma session_deinit_instance:
  "session_of (snd (snd (deinit_instance cfg force w))) \<in> {session_of (snd w), fresh_session cfg (session_of (snd w))}"
  by (simp add: deinit_instance_def session_fresh_runtime)

end
