(* ===== verification/Session_Correctness.thy ===== *)
theory Session_Correctness
  imports Lifecycle Sample_State
begin

text \<open>
  The public operations as steps of a running instance, and the session they drive. Every public
  operation makes at most one move of the session, whatever its outcome, so the invariant of the
  session holds in every reachable state and a token that was given back stays refused.
\<close>

section \<open>At most one move\<close>

definition one_move :: "config \<Rightarrow> 'e \<times> 'd world \<Rightarrow> 'd world \<Rightarrow> bool" where
  "one_move cfg r w \<longleftrightarrow> (session_move cfg)\<^sup>=\<^sup>= (session_of (snd w)) (session_of (snd (snd r)))"

lemma one_move_keeps: "keeps session_of r w \<Longrightarrow> one_move cfg r w"
  by (simp add: one_move_def keeps_def)

lemma one_move_step: "session_move cfg (session_of (snd w)) (session_of s) \<Longrightarrow> one_move cfg (e, d, s) w"
  by (simp add: one_move_def)

lemma one_move_on_value: "(\<And>x. one_move cfg (k x) w) \<Longrightarrow> one_move cfg (on_value r w k) w"
  by (cases r) (simp_all add: one_move_def)

lemma one_move_if: "(c \<Longrightarrow> one_move cfg a w) \<Longrightarrow> (\<not> c \<Longrightarrow> one_move cfg b w) \<Longrightarrow> one_move cfg (if c then a else b) w"
  by simp

lemma one_move_sum:
  "(\<And>e. r = Inl e \<Longrightarrow> one_move cfg (a e) w) \<Longrightarrow> (\<And>x. r = Inr x \<Longrightarrow> one_move cfg (b x) w) \<Longrightarrow> one_move cfg (case r of Inl e \<Rightarrow> a e | Inr x \<Rightarrow> b x) w"
  by (cases r) simp_all

lemma one_move_trans: "one_move cfg r w' \<Longrightarrow> session_of (snd w') = session_of (snd w) \<Longrightarrow> one_move cfg r w"
  by (simp add: one_move_def)

lemma one_move_then:
  assumes "keeps session_of r w" "\<And>e w'. one_move cfg (k e w') w'"
  shows "one_move cfg (case r of (e, w') \<Rightarrow> k e w') w"
proof (cases r)
  case (fields e d s)
  then show ?thesis using one_move_trans [OF assms(2) [of e "(d, s)"]] assms(1) by (simp add: keeps_def)
qed

lemma one_move_on_ok:
  assumes "keeps session_of r w" "\<And>w'. one_move cfg (k w') w'"
  shows "one_move cfg (on_ok r k) w"
proof (cases r)
  case (fields e d s)
  then show ?thesis using one_move_trans [OF assms(2) [of "(d, s)"]] one_move_keeps [OF assms(1)] assms(1) by (simp add: on_ok_def keeps_def)
qed

lemma one_move_last:
  "one_move cfg r w \<Longrightarrow> (\<And>e w'. keeps session_of (k e w') w') \<Longrightarrow> one_move cfg (case r of (e, w') \<Rightarrow> k e w') w"
  by (cases r) (auto simp: one_move_def keeps_def)

lemma one_move_on_result:
  "one_move cfg r w \<Longrightarrow> (\<And>x w'. keeps session_of (k x w') w') \<Longrightarrow> one_move cfg (on_result r k) w"
  by (cases r; cases "fst r") (auto simp: on_result_def one_move_def keeps_def)

lemma one_move_under_lock: "(\<And>w. one_move cfg (f w) w) \<Longrightarrow> one_move cfg (under_lock f w) w"
  by (simp add: under_lock_def one_move_def)

lemma one_move_under_lock_result: "(\<And>w. one_move cfg (f w) w) \<Longrightarrow> one_move cfg (under_lock_result f w) w"
  by (simp add: under_lock_result_def one_move_def)

lemma one_move_refl: "one_move cfg (e, w) w"
  by (simp add: one_move_def)

lemmas one_move_cases = one_move_refl one_move_on_value one_move_if one_move_sum

section \<open>Tokens that were given back\<close>

definition transaction_live :: "session \<Rightarrow> u64 \<Rightarrow> bool" where
  "transaction_live S g \<longleftrightarrow> se_active S \<and> se_generation S = g"

definition handle_live :: "config \<Rightarrow> session \<Rightarrow> nat \<Rightarrow> u64 \<Rightarrow> bool" where
  "handle_live cfg S i g \<longleftrightarrow>
     i < unat (cfg_max_open_handles cfg) \<and> hs_used (se_handles S ! i) \<and> hs_generation (se_handles S ! i) = g"

lemma transaction_spent_step:
  assumes move: "session_move cfg S S'" and inv: "session_inv cfg S"
    and g: "g \<noteq> 0" "issued g (se_transaction_counter S)" "\<not> transaction_live S g"
  shows "issued g (se_transaction_counter S') \<and> \<not> transaction_live S' g"
  using move
proof cases
  case (begun index)
  then show ?thesis
    using issued_fresh [OF g(2,1) begun(7)] issued_next(2) [OF session_invD(3) [OF inv] g(2) begun(7)]
    by (simp add: transaction_live_def)
qed (use g in \<open>simp_all add: transaction_live_def fresh_session_def\<close>)

lemma handle_spent_step:
  assumes move: "session_move cfg S S'" and inv: "session_inv cfg S"
    and g: "g \<noteq> 0" "issued g (se_handle_counter S)" "\<not> handle_live cfg S i g"
  shows "issued g (se_handle_counter S') \<and> \<not> handle_live cfg S' i g"
  using move
proof cases
  case draw
  then show ?thesis
    using issued_next(2) [OF session_invD(2) [OF inv] g(2)] g(3) by (simp add: handle_live_def)
next
  case (opened j mode namespace_name)
  then show ?thesis
    using issued_fresh [OF g(2,1) opened(2)] issued_next(2) [OF session_invD(2) [OF inv] g(2) opened(2)] g(3)
      session_invD(1) [OF inv]
    by (cases "i = j") (simp_all add: handle_live_def)
next
  case (closed j)
  then show ?thesis
    using g session_invD(1) [OF inv] by (cases "i = j") (simp_all add: handle_live_def empty_handle_def)
next
  case (begun index)
  then show ?thesis
    using g session_invD(1) [OF inv] by (cases "i = unat index") (simp_all add: handle_live_def)
next
  case ended
  then show ?thesis
    using g session_invD(1,8,9) [OF inv]
    by (cases "se_active S"; cases "i = unat (se_handle_index S)")
       (simp_all add: handle_live_def end_session_handles [OF inv])
next
  case restarted
  then show ?thesis using g by (simp add: handle_live_def fresh_session_def empty_handle_def)
qed

section \<open>The public operations\<close>

inductive public_step :: "config \<Rightarrow> 'd block_device \<Rightarrow> (u64 \<Rightarrow> u64) \<Rightarrow> 'd world \<Rightarrow> 'd world \<Rightarrow> bool" for cfg dev clock where
  "public_step cfg dev clock w (snd (open_handle cfg namespace_name mode w))"
| "public_step cfg dev clock w (snd (close_handle cfg raw w))"
| "public_step cfg dev clock w (snd (begin_transaction cfg raw w))"
| "public_step cfg dev clock w (snd (set_value cfg dev clock raw key val w))"
| "public_step cfg dev clock w (snd (erase_key cfg dev raw key w))"
| "public_step cfg dev clock w (snd (commit_transaction cfg dev clock raw w))"
| "public_step cfg dev clock w (snd (abort_transaction cfg raw w))"
| "public_step cfg dev clock w (snd (begin_value_write cfg dev clock raw key value_size w))"
| "public_step cfg dev clock w (snd (write_value cfg dev raw val w))"
| "public_step cfg dev clock w (snd (finish_value_write cfg raw w))"
| "public_step cfg dev clock w (snd (abort_value_write raw w))"
| "public_step cfg dev clock w (snd (open_value cfg dev raw key w))"
| "public_step cfg dev clock w (snd (peek_value cfg dev raw w))"
| "public_step cfg dev clock w (snd (consume_value cfg dev raw n w))"
| "public_step cfg dev clock w (snd (read_value_into cfg dev raw capacity w))"
| "public_step cfg dev clock w (snd (seek_value cfg raw offset w))"
| "public_step cfg dev clock w (snd (close_value_reader cfg raw w))"
| "public_step cfg dev clock w (snd (init_instance cfg dev block_count allocated database_id w))"
| "public_step cfg dev clock w (snd (deinit_instance cfg force w))"

lemma keeps_stage: "keeps session_of (case stage_value cfg raw key val kind (snd w) of (ret, s) \<Rightarrow> (ret, fst w, s)) w"
  using session_staging.view_stage_value [of cfg raw key val kind "snd w"]
  by (auto simp: keeps_def split: prod.split)

lemma session_clear_transaction: "session_of (clear_transaction cfg s) = end_session cfg (session_of s)"
  by (simp add: session_of_def clear_transaction_def end_session_def Let_def empty_transaction_def)

lemma move_clear: "session_of s = session_of (snd w) \<Longrightarrow> one_move cfg (e, d, clear_transaction cfg s) w"
  by (rule one_move_step) (metis session_clear_transaction session_move.ended)

lemma session_take_generation:
  "session_of (snd (take_handle_generation s)) =
     (session_of s)\<lparr>se_handle_counter := next_generation (db_handle_generation_counter s)\<rparr>"
  by (simp add: take_handle_generation_def session_of_def next_generation_def Let_def)

lemma get_handle_slot_used:
  "get_handle_slot cfg s raw = Inr idx \<Longrightarrow>
     unat idx < unat (cfg_max_open_handles cfg) \<and> hs_used (db_handles s ! unat idx)"
  by (auto simp: get_handle_slot_def Let_def not_le handle_count_word [symmetric] split: option.splits prod.splits if_splits)

lemma move_open_handle: "one_move cfg (open_handle cfg namespace_name mode w) w"
proof -
  have "session_move cfg (session_of s) (session_of (s'\<lparr>db_handles := (db_handles s')[i := \<lparr>hs_generation = g, hs_used = True,
      hs_transaction_active = False, hs_mode = mode, hs_namespace_name = namespace_name\<rparr>]\<rparr>))"
    if "take_handle_generation s = (g, s')" "db_handle_generation_counter s \<noteq> 0"
      "find (\<lambda>i. \<not> hs_used (db_handles s ! i)) [0..<unat (cfg_max_open_handles cfg)] = Some i" for s s' g i
  proof -
    have i: "i < unat (cfg_max_open_handles cfg)" "\<not> hs_used (se_handles (session_of s) ! i)"
      using that(3) by (auto simp: find_Some_iff)
    have "g = db_handle_generation_counter s" "s' = s\<lparr>db_handle_generation_counter := next_generation g\<rparr>"
      using that(1) by (auto simp: take_handle_generation_def next_generation_def Let_def)
    then show ?thesis
      using session_move.opened [of "session_of s" i cfg mode namespace_name] i that(2)
      by (simp add: session_of_def Let_def)
  qed
  then show ?thesis
    unfolding open_handle_def Let_def
    by (intro one_move_cases one_move_under_lock_result)
       (auto simp: one_move_def split: option.split sum.split prod.split)
qed

lemma move_close_handle: "one_move cfg (close_handle cfg raw w) w"
proof -
  have "session_move cfg (session_of s) (session_of (s\<lparr>db_handles := (db_handles s)[unat i :=
      empty_handle\<lparr>hs_generation := hs_generation (db_handles s ! unat i)\<rparr>]\<rparr>))"
    if "get_handle_slot cfg s raw = Inr i" "\<not> hs_transaction_active (db_handles s ! unat i)" for s i
    using session_move.closed [of "unat i" cfg "session_of s"] get_handle_slot_used [OF that(1)] that(2)
    by (simp add: session_of_def Let_def)
  then show ?thesis
    unfolding close_handle_def Let_def
    by (intro one_move_under_lock) (auto simp: one_move_def on_value_def split: sum.split)
qed

lemma move_begin_transaction: "one_move cfg (begin_transaction cfg raw w) w"
proof -
  have "session_move cfg (session_of s) (session_of (s\<lparr>
      db_transaction_generation_counter := next_generation (db_transaction_generation_counter s),
      db_transaction := empty_transaction\<lparr>tx_generation := db_transaction_generation_counter s, tx_handle_slot_index := i,
        tx_handle_generation := hs_generation (db_handles s ! unat i), tx_active := True\<rparr>,
      db_handles := (db_handles s)[unat i := (db_handles s ! unat i)\<lparr>hs_transaction_active := True\<rparr>]\<rparr>))"
    if "get_handle_slot cfg s raw = Inr i" "hs_mode (db_handles s ! unat i) = read_write"
      "\<not> tx_active (db_transaction s)" "\<not> hs_transaction_active (db_handles s ! unat i)"
      "db_transaction_generation_counter s \<noteq> 0" for s i
    using session_move.begun [of i cfg "session_of s"] get_handle_slot_used [OF that(1)] that(2-5)
    by (simp add: session_of_def Let_def)
  then show ?thesis
    unfolding begin_transaction_def Let_def next_generation_def [symmetric]
    by (intro one_move_under_lock_result one_move_cases one_move_step) simp_all
qed

lemma move_draw:
  assumes "take_handle_generation (snd w) = (g, s)" "db_handle_generation_counter (snd w) \<noteq> 0"
    and "session_of (snd w') = session_of s"
  shows "one_move cfg (e, w') w"
proof -
  have "session_move cfg (session_of (snd w)) (session_of (snd w'))"
    using session_move.draw [of "session_of (snd w)" cfg] session_take_generation [of "snd w"] assms by simp
  then show ?thesis by (simp add: one_move_def)
qed

lemma move_begin_value_write: "one_move cfg (begin_value_write_unsafe cfg dev clock raw key value_size w) w"
proof -
  have room: "keeps session_of (if c then on_ok (compact_tables cfg dev clock w) (\<lambda>w. (e w, w)) else (ESP_OK, w)) w" for c e w
    by (intro keeps_cases keeps_on_ok session_maintenance.keeps_compact_tables)
  have drawn: "one_move cfg (case r of (ret, w) \<Rightarrow> if ret \<noteq> ESP_OK then (Inl ret, w) else
      (case take_handle_generation (snd w) of (g, s) \<Rightarrow> (Inr (f g), set_writer (k g s) (fst w, s)))) w"
    if r: "keeps session_of r w" and c: "db_handle_generation_counter (snd w) \<noteq> 0" for r w f k
  proof (cases r)
    case (fields ret d s)
    have "session_of s = session_of (snd w)" using r by (simp add: fields keeps_def)
    then have same: "one_move cfg x w" if "one_move cfg x (d, s)" for x using that by (simp add: one_move_def)
    have "db_handle_generation_counter s \<noteq> 0"
      using arg_cong [OF \<open>session_of s = _\<close>, of se_handle_counter] c by simp
    then have "one_move cfg (case take_handle_generation s of (g, s) \<Rightarrow> (Inr (f g) :: esp_err + _, set_writer (k g s) (d, s))) (d, s)"
      by (auto split: prod.split intro!: move_draw simp: session_maintenance.view_set_writer)
    from same [OF this] show ?thesis using \<open>session_of s = _\<close> by (simp add: fields) (simp add: one_move_def)
  qed
  then show ?thesis
    unfolding begin_value_write_unsafe_def Let_def
    by (intro one_move_cases drawn room) simp_all
qed

lemma keeps_finish_value_write: "keeps session_of (finish_value_write_unsafe cfg w) w"
  using session_staging.view_stage_value [of cfg _ _ _ _ "snd w"] session_staging.view_stage_external_value [of cfg _ _ _ "snd w"]
  by (auto simp: finish_value_write_unsafe_def Let_def keeps_def session_maintenance.view_set_writer
      session_maintenance.ignores split: prod.split) (metis snd_conv)+

lemma move_set_value: "one_move cfg (set_value cfg dev clock raw key val w) w"
proof -
  have "one_move cfg (set_external_value cfg dev clock raw key val w) w" for w
    unfolding set_external_value_def
    by (intro one_move_last one_move_on_result move_begin_value_write keeps_on_ok keeps_finish_value_write
        session_maintenance.keeps_write_value_bytes)
       (simp add: keeps_def session_maintenance.view_set_writer)
  then show ?thesis
    unfolding set_value_def
    by (intro one_move_cases one_move_under_lock one_move_keeps [OF keeps_stage])
qed

lemma move_open_value: "one_move cfg (open_value cfg dev raw key w) w"
proof -
  have "one_move cfg (open_value_unsafe cfg view w) w" for view w
  proof -
    have "one_move cfg (case take_handle_generation (snd w) of (g, s) \<Rightarrow> (Inr (f g), set_reader i (k g s) (fst w, s))) w"
      if "db_handle_generation_counter (snd w) \<noteq> 0" for f i k
      using that by (auto split: prod.split intro!: move_draw simp: session_readers.view_set_reader)
    then show ?thesis
      unfolding open_value_unsafe_def Let_def
      by (auto simp: one_move_refl split: option.split)
  qed
  then show ?thesis
    unfolding open_value_def by (intro one_move_cases one_move_under_lock_result)
qed

lemma move_commit: "one_move cfg (commit_transaction cfg dev clock raw w) w"
proof -
  have publish: "one_move cfg (latch_fault cfg (publish_transaction cfg name w)) w" for name w
  proof (cases "ensure_namespace_capacity cfg (snd w) name True")
    case (Pair ns s)
    have s: "session_of s = session_of (snd w)"
      using session_maintenance.view_ensure_namespace [of cfg "snd w" name True] by (simp add: Pair)
    show ?thesis
    proof (cases ns)
      case (Inl e)
      show ?thesis
        by (auto simp: publish_transaction_def latch_fault_def Pair Inl update_db_def s session_maintenance.ignores
            intro!: move_clear) (simp add: one_move_def s)
    next
      case (Inr i)
      obtain ret s' where a: "apply_transaction_to_memtable cfg (db_transaction s) i (db_next_transaction_sequence s) s = (ret, s')"
        by fastforce
      then have "session_of s' = session_of (snd w)"
        using session_maintenance.view_apply_transaction [of cfg "db_transaction s" i "db_next_transaction_sequence s" s] s by simp
      then show ?thesis
        by (auto simp: publish_transaction_def latch_fault_def Pair Inr a update_db_def session_maintenance.ignores
            intro!: move_clear)
    qed
  qed
  have "one_move cfg (commit_mutations cfg dev clock handle w) w" for handle w
    unfolding commit_mutations_def
    by (intro one_move_on_ok publish session_maintenance.keeps_preflight_or_flush session_maintenance.keeps_sync_dirty_banks
        session_maintenance.keeps_append_transaction)
  moreover have "one_move cfg (ESP_OK, update_db (clear_transaction cfg) w) w" for w
    unfolding update_db_def by (rule move_clear) simp
  ultimately show ?thesis
    unfolding commit_transaction_def by (intro one_move_under_lock one_move_cases)
qed

section \<open>Reachable states\<close>

lemma public_step_one_move:
  assumes "public_step cfg dev clock w w'"
  shows "one_move cfg ((), w') w"
proof -
  have result: "one_move cfg ((), snd r) w" if "one_move cfg r w" for r :: "'e \<times> 'a world"
    using that by (simp add: one_move_def)
  note keeps = result [OF one_move_keeps]
  note readers = session_readers.keeps_reader_operations [THEN keeps]
  from assms show ?thesis
  proof cases
    case (5 raw key)
    then show ?thesis
      unfolding erase_key_def
      by (auto intro!: result one_move_cases one_move_under_lock one_move_keeps [OF keeps_stage])
  next
    case (7 raw)
    then show ?thesis
      unfolding abort_transaction_def update_db_def
      by (auto intro!: result one_move_cases one_move_under_lock move_clear)
  next
    case (8 raw key value_size)
    then show ?thesis
      unfolding begin_value_write_def by (auto intro!: result one_move_under_lock_result move_begin_value_write)
  next
    case (9 raw val)
    then show ?thesis
      unfolding write_value_def
      by (auto intro!: keeps keeps_under_lock keeps_on_value session_maintenance.keeps_write_value_bytes)
  next
    case (10 raw)
    then show ?thesis
      unfolding finish_value_write_def by (auto intro!: keeps keeps_under_lock keeps_on_value keeps_finish_value_write)
  next
    case (11 raw)
    then show ?thesis
      unfolding abort_value_write_def
      by (auto intro!: keeps keeps_under_lock keeps_on_value session_maintenance.keeps_set_writer)
  next
    case (18 block_count allocated database_id)
    then show ?thesis
      using session_init_instance [of cfg dev block_count allocated database_id w] session_move.restarted
      by (auto simp: one_move_def)
  next
    case (19 force)
    then show ?thesis
      using session_deinit_instance [of cfg force w] session_move.restarted by (auto simp: one_move_def)
  qed (auto intro: result [OF move_open_handle] result [OF move_close_handle] result [OF move_begin_transaction]
      result [OF move_set_value] result [OF move_commit] result [OF move_open_value] readers)
qed

lemma initial_session: "session_inv cfg (session_of (initial_db cfg))"
  by (simp add: session_inv_def session_of_def initial_db_def empty_transaction_def empty_handle_def issued_def
      max_generation_nat word_le_nat_alt)

lemma public_steps_inv:
  "(public_step cfg dev clock)\<^sup>*\<^sup>* w w' \<Longrightarrow> session_inv cfg (session_of (snd w)) \<Longrightarrow> session_inv cfg (session_of (snd w'))"
proof (induction rule: rtranclp_induct)
  case (step w' w'')
  then show ?case
    using public_step_one_move [OF step(2)] session_inv_step by (auto simp: one_move_def)
qed

lemma steps_issued:
  "(public_step cfg dev clock)\<^sup>*\<^sup>* w w' \<Longrightarrow> session_inv cfg (session_of (snd w)) \<Longrightarrow>
     issued g (se_transaction_counter (session_of (snd w))) \<Longrightarrow> issued g (se_transaction_counter (session_of (snd w')))"
  "(public_step cfg dev clock)\<^sup>*\<^sup>* w w' \<Longrightarrow> session_inv cfg (session_of (snd w)) \<Longrightarrow>
     issued g (se_handle_counter (session_of (snd w))) \<Longrightarrow> issued g (se_handle_counter (session_of (snd w')))"
proof -
  have move: "(issued g (se_transaction_counter S) \<longrightarrow> issued g (se_transaction_counter S')) \<and>
      (issued g (se_handle_counter S) \<longrightarrow> issued g (se_handle_counter S'))"
    if "session_move cfg S S'" "session_inv cfg S" for S S'
    using that(1)
    by cases (use issued_next(2) [OF session_invD(2) [OF that(2)]] issued_next(2) [OF session_invD(3) [OF that(2)]]
      in \<open>auto simp: fresh_session_def\<close>)
  have "(issued g (se_transaction_counter (session_of (snd w))) \<longrightarrow> issued g (se_transaction_counter (session_of (snd w')))) \<and>
      (issued g (se_handle_counter (session_of (snd w))) \<longrightarrow> issued g (se_handle_counter (session_of (snd w'))))"
    if "(public_step cfg dev clock)\<^sup>*\<^sup>* w w'" "session_inv cfg (session_of (snd w))"
    using that
  proof (induction rule: rtranclp_induct)
    case (step v v')
    have "session_inv cfg (session_of (snd v))" using public_steps_inv step.hyps(1) step.prems by blast
    moreover have "session_move cfg (session_of (snd v)) (session_of (snd v')) \<or> session_of (snd v') = session_of (snd v)"
      using public_step_one_move [OF step.hyps(2)] by (auto simp: one_move_def)
    ultimately have
      "(issued g (se_transaction_counter (session_of (snd v))) \<longrightarrow> issued g (se_transaction_counter (session_of (snd v')))) \<and>
       (issued g (se_handle_counter (session_of (snd v))) \<longrightarrow> issued g (se_handle_counter (session_of (snd v'))))"
      using move by metis
    then show ?case using step.IH step.prems by blast
  qed simp
  then show "(public_step cfg dev clock)\<^sup>*\<^sup>* w w' \<Longrightarrow> session_inv cfg (session_of (snd w)) \<Longrightarrow>
     issued g (se_transaction_counter (session_of (snd w))) \<Longrightarrow> issued g (se_transaction_counter (session_of (snd w')))"
    "(public_step cfg dev clock)\<^sup>*\<^sup>* w w' \<Longrightarrow> session_inv cfg (session_of (snd w)) \<Longrightarrow>
     issued g (se_handle_counter (session_of (snd w))) \<Longrightarrow> issued g (se_handle_counter (session_of (snd w')))"
    by blast+
qed

lemma steps_spent:
  assumes steps: "(public_step cfg dev clock)\<^sup>*\<^sup>* w w'" and inv: "session_inv cfg (session_of (snd w))" and g: "g \<noteq> 0"
  shows "issued g (se_transaction_counter (session_of (snd w))) \<Longrightarrow> \<not> transaction_live (session_of (snd w)) g \<Longrightarrow>
      \<not> transaction_live (session_of (snd w')) g"
    and "issued g (se_handle_counter (session_of (snd w))) \<Longrightarrow> \<not> handle_live cfg (session_of (snd w)) i g \<Longrightarrow>
      \<not> handle_live cfg (session_of (snd w')) i g"
proof -
  have inv_v: "session_inv cfg (session_of (snd v))" if "(public_step cfg dev clock)\<^sup>*\<^sup>* w v" for v
    using public_steps_inv that inv by blast
  have one: "session_move cfg (session_of (snd v)) (session_of (snd v')) \<or> session_of (snd v') = session_of (snd v)"
    if "public_step cfg dev clock v v'" for v v'
    using public_step_one_move [OF that] by (auto simp: one_move_def)
  show "\<not> transaction_live (session_of (snd w')) g"
    if "issued g (se_transaction_counter (session_of (snd w)))" "\<not> transaction_live (session_of (snd w)) g"
    using steps
  proof (induction rule: rtranclp_induct)
    case (step v v')
    have "issued g (se_transaction_counter (session_of (snd v)))" using steps_issued(1) [OF step.hyps(1) inv that(1)] .
    then show ?case
      using one [OF step.hyps(2)] transaction_spent_step [OF _ inv_v [OF step.hyps(1)] g] step.IH by auto
  qed (rule that(2))
  show "\<not> handle_live cfg (session_of (snd w')) i g"
    if "issued g (se_handle_counter (session_of (snd w)))" "\<not> handle_live cfg (session_of (snd w)) i g"
    using steps
  proof (induction rule: rtranclp_induct)
    case (step v v')
    have "issued g (se_handle_counter (session_of (snd v)))" using steps_issued(2) [OF step.hyps(1) inv that(1)] .
    then show ?case
      using one [OF step.hyps(2)] handle_spent_step [OF _ inv_v [OF step.hyps(1)] g] step.IH by auto
  qed (rule that(2))
qed

section \<open>What the tokens of a state mean\<close>

lemma get_transaction_live:
  assumes inv: "session_inv cfg (session_of s)" and token: "decode_handle_value raw = Some (i, g)"
  shows "get_transaction cfg s raw =
    (if i = 0 \<and> transaction_live (session_of s) g then Inr (db_transaction s) else Inl ESP_ERR_INVALID_ARG)"
  using session_invD(8-11) [OF inv] token
  by (auto simp: get_transaction_def transaction_live_def Let_def not_le handle_count_word [symmetric])

lemma get_handle_slot_live:
  assumes token: "decode_handle_value raw = Some (i, g)"
  shows "get_handle_slot cfg s raw = (if handle_live cfg (session_of s) (unat i) g then Inr i else Inl ESP_ERR_INVALID_ARG)"
  using token handle_count_word [of i cfg] by (auto simp: get_handle_slot_def handle_live_def Let_def not_le)

lemma decoded_generation: "decode_handle_value raw = Some (i, g) \<Longrightarrow> g \<noteq> 0"
  by (auto simp: decode_handle_value_def Let_def split: if_splits)

section \<open>The sample state\<close>

lemma sample_session: "session_inv host_config (session_of sample_db)"
proof -
  have h: "db_handles sample_db ! j = (if j = 0 then sample_handle else empty_handle)" if "j < 4" for j
    using that by (simp add: sample_db_def host_db_def initial_db_def host_config_def nth_list_update)
  have "length (db_handles sample_db) = 4" "unat (cfg_max_open_handles host_config) = 4"
    "tx_generation (db_transaction sample_db) = 1" "tx_handle_slot_index (db_transaction sample_db) = 0"
    "tx_handle_generation (db_transaction sample_db) = 1" "db_handle_generation_counter sample_db = 2"
    "db_transaction_generation_counter sample_db = 2"
    by (simp_all add: sample_db_def host_db_def initial_db_def host_config_def sample_open_def empty_transaction_def)
  then show ?thesis
    using sample_transaction_open(2) max_generation_nat
    by (intro session_invI)
       (auto simp: h issued_def sample_handle_def empty_handle_def word_le_nat_alt split: if_splits)
qed

abbreviation sample_aborted :: "bytes world" where
  "sample_aborted \<equiv> snd (abort_transaction host_config 513 sample_world)"

lemma sample_aborted_eq: "sample_aborted = (host_image, clear_transaction host_config sample_db)"
proof -
  have "\<not> writer_pending 513 sample_db"
    by (simp add: writer_pending_def sample_db_def host_db_def initial_db_def empty_writer_def)
  then show ?thesis
    using sample_get_transaction sample_allowed
    by (simp add: abort_transaction_def sample_world_def on_value_def update_db_def)
qed

lemma sample_steps:
  "public_step host_config sample_device id sample_world sample_aborted"
  "public_step host_config sample_device id w (snd (begin_transaction host_config 513 w))"
  "public_step host_config sample_device id w (snd (close_handle host_config 513 w))"
  "public_step host_config sample_device id w (snd (open_handle host_config [97] read_write w))"
  by (rule public_step.intros)+

section \<open>Properties\<close>

text \<open>C11: Refinement. Every public operation, whatever its arguments and its outcome, including the
  start and the stop of the instance, makes at most one move of the session, the abstract state machine of
  the handles, the one transaction and the generation counters: storage maintenance inside an operation
  (compaction, flush, log rotation, recovery) never touches it.\<close>

theorem public_step_refines_session:
  assumes "public_step cfg dev clock w w'"
  shows "(session_move cfg)\<^sup>=\<^sup>= (session_of (snd w)) (session_of (snd w'))"
  using public_step_one_move [OF assms] by (simp add: one_move_def)

theorem public_step_refines_session_witness:
  "(session_move host_config)\<^sup>=\<^sup>= (session_of sample_db) (session_of (clear_transaction host_config sample_db))"
  using public_step_refines_session [OF sample_steps(1)] by (simp add: sample_aborted_eq) (simp add: sample_world_def)

text \<open>C12: Invariant. In every state that the public operations reach from a new object, the session is
  consistent: at most one handle is marked as having a transaction, it is the one the active transaction
  names, and every generation in use was drawn from its counter. So \<open>get_transaction\<close> never takes its
  \<open>ESP_ERR_INVALID_STATE\<close> exit.\<close>

theorem reachable_session:
  assumes "(public_step cfg dev clock)\<^sup>*\<^sup>* w w'" "snd w = initial_db cfg"
  shows "session_inv cfg (session_of (snd w')) \<and> get_transaction cfg (snd w') raw \<noteq> Inl ESP_ERR_INVALID_STATE"
proof -
  have inv: "session_inv cfg (session_of (snd w'))"
    using public_steps_inv [OF assms(1)] initial_session assms(2) by simp
  moreover have "get_transaction cfg (snd w') raw \<noteq> Inl ESP_ERR_INVALID_STATE"
    by (cases "decode_handle_value raw")
       (auto simp: get_transaction_live [OF inv] split: if_splits, simp add: get_transaction_def)
  ultimately show ?thesis ..
qed

theorem reachable_session_witness:
  "session_inv host_config (session_of (snd (snd (init_instance host_config sample_device 2256 (Allocated True) 77 (host_image, initial_db host_config))))) \<and>
   get_transaction host_config (snd (snd (init_instance host_config sample_device 2256 (Allocated True) 77 (host_image, initial_db host_config)))) 513
     \<noteq> Inl ESP_ERR_INVALID_STATE"
  by (rule reachable_session [where dev = sample_device and clock = id and w = "(host_image, initial_db host_config)"],
      rule r_into_rtranclp, rule public_step.intros) simp

text \<open>C13: Safety. A transaction token that was valid and then was not (because its transaction was committed
  or aborted, or the instance was stopped) is refused for ever, by every later state of the object, even after
  it was stopped and started again: generations are never drawn twice.\<close>

theorem ended_transaction_refused:
  assumes "session_inv cfg (session_of (snd a))" "(public_step cfg dev clock)\<^sup>*\<^sup>* a b" "(public_step cfg dev clock)\<^sup>*\<^sup>* b c"
    and "get_transaction cfg (snd a) raw = Inr t" "get_transaction cfg (snd b) raw = Inl e"
  shows "get_transaction cfg (snd c) raw = Inl ESP_ERR_INVALID_ARG"
proof -
  obtain i g where token: "decode_handle_value raw = Some (i, g)"
    using assms(4) by (cases "decode_handle_value raw") (auto simp: get_transaction_def)
  have inv: "session_inv cfg (session_of (snd b))" "session_inv cfg (session_of (snd c))"
    using public_steps_inv assms(1-3) rtranclp_trans by metis+
  have a: "i = 0" "transaction_live (session_of (snd a)) g"
    using assms(4) by (auto simp: get_transaction_live [OF assms(1) token] split: if_splits)
  then have "issued g (se_transaction_counter (session_of (snd a)))"
    using session_invD(5) [OF assms(1)] by (auto simp: transaction_live_def)
  then have "issued g (se_transaction_counter (session_of (snd b)))" by (rule steps_issued(1) [OF assms(2,1)])
  moreover have "\<not> transaction_live (session_of (snd b)) g"
    using assms(5) a(1) by (auto simp: get_transaction_live [OF inv(1) token] split: if_splits)
  ultimately have "\<not> transaction_live (session_of (snd c)) g"
    by (rule steps_spent(1) [OF assms(3) inv(1) decoded_generation [OF token]])
  then show ?thesis by (simp add: get_transaction_live [OF inv(2) token])
qed

theorem ended_transaction_refused_witness:
  "get_transaction host_config sample_db 513 = Inr (db_transaction sample_db) \<and>
   get_transaction host_config (snd (snd (begin_transaction host_config 513 sample_aborted))) 513 = Inl ESP_ERR_INVALID_ARG"
proof
  show "get_transaction host_config (snd (snd (begin_transaction host_config 513 sample_aborted))) 513 = Inl ESP_ERR_INVALID_ARG"
  proof (rule ended_transaction_refused [where a = sample_world and b = sample_aborted and t = "db_transaction sample_db"
        and dev = sample_device and clock = id and e = ESP_ERR_INVALID_ARG])
    show "get_transaction host_config (snd sample_aborted) 513 = Inl ESP_ERR_INVALID_ARG"
      by (simp add: sample_aborted_eq get_transaction_def sample_token clear_transaction_def empty_transaction_def Let_def)
  qed (simp_all add: sample_session sample_get_transaction sample_steps r_into_rtranclp sample_fields)
qed (rule sample_get_transaction)

text \<open>C14: Safety. The same for the tokens of handles: once closed, never valid again.\<close>

theorem closed_handle_refused:
  assumes "session_inv cfg (session_of (snd a))" "(public_step cfg dev clock)\<^sup>*\<^sup>* a b" "(public_step cfg dev clock)\<^sup>*\<^sup>* b c"
    and "get_handle_slot cfg (snd a) raw = Inr idx" "get_handle_slot cfg (snd b) raw = Inl e"
  shows "get_handle_slot cfg (snd c) raw = Inl ESP_ERR_INVALID_ARG"
proof -
  obtain i g where token: "decode_handle_value raw = Some (i, g)"
    using assms(4) by (cases "decode_handle_value raw") (auto simp: get_handle_slot_def)
  have inv: "session_inv cfg (session_of (snd b))" using public_steps_inv assms(1,2) by metis
  have a: "handle_live cfg (session_of (snd a)) (unat i) g"
    using assms(4) by (auto simp: get_handle_slot_live [OF token] split: if_splits)
  then have "issued g (se_handle_counter (session_of (snd a)))"
    using session_invD(4) [OF assms(1), of "unat i"] by (auto simp: handle_live_def)
  then have "issued g (se_handle_counter (session_of (snd b)))" by (rule steps_issued(2) [OF assms(2,1)])
  moreover have "\<not> handle_live cfg (session_of (snd b)) (unat i) g"
    using assms(5) by (auto simp: get_handle_slot_live [OF token] split: if_splits)
  ultimately have "\<not> handle_live cfg (session_of (snd c)) (unat i) g"
    by (rule steps_spent(2) [OF assms(3) inv decoded_generation [OF token]])
  then show ?thesis by (simp add: get_handle_slot_live [OF token])
qed

lemma sample_handle_closed:
  "get_handle_slot host_config (snd sample_aborted) 513 = Inr 0"
  "get_handle_slot host_config (snd (snd (close_handle host_config 513 sample_aborted))) 513 = Inl ESP_ERR_INVALID_ARG"
proof -
  have h: "db_handles (clear_transaction host_config sample_db) ! 0 = sample_handle\<lparr>hs_transaction_active := False\<rparr>"
    "length (db_handles (clear_transaction host_config sample_db)) = 4"
    using sample_transaction_open(2)
    by (simp_all add: clear_transaction_def Let_def sample_db_def sample_open_def host_db_def initial_db_def host_config_def
        empty_transaction_def sample_handle_def)
  have allowed: "operation_allowed (clear_transaction host_config sample_db)"
    using sample_allowed by (simp add: operation_allowed_def diagnostics_allowed_def clear_transaction_def Let_def)
  show slot: "get_handle_slot host_config (snd sample_aborted) 513 = Inr 0"
    by (simp add: sample_aborted_eq get_handle_slot_def sample_token Let_def h) (simp add: sample_handle_def host_config_def)
  show "get_handle_slot host_config (snd (snd (close_handle host_config 513 sample_aborted))) 513 = Inl ESP_ERR_INVALID_ARG"
    using slot allowed
    by (simp add: close_handle_def sample_aborted_eq on_value_def Let_def h update_db_def)
       (simp add: sample_handle_def get_handle_slot_def sample_token h empty_handle_def)
qed

theorem closed_handle_refused_witness:
  "get_handle_slot host_config (snd sample_aborted) 513 = Inr 0 \<and>
   get_handle_slot host_config (snd (snd (open_handle host_config [97] read_write (snd (close_handle host_config 513 sample_aborted))))) 513
     = Inl ESP_ERR_INVALID_ARG"
proof
  show "get_handle_slot host_config (snd (snd (open_handle host_config [97] read_write
      (snd (close_handle host_config 513 sample_aborted))))) 513 = Inl ESP_ERR_INVALID_ARG"
  proof (rule closed_handle_refused [where a = sample_aborted and b = "snd (close_handle host_config 513 sample_aborted)"
        and idx = 0 and dev = sample_device and clock = id and e = ESP_ERR_INVALID_ARG])
    show "session_inv host_config (session_of (snd sample_aborted))"
      by (simp add: sample_aborted_eq session_clear_transaction session_inv_end sample_session)
  qed (simp_all add: sample_steps sample_handle_closed r_into_rtranclp)
qed (rule sample_handle_closed)

end
