(* ===== verification/Io_Fatfs.thy ===== *)
theory Io_Fatfs
  imports Storage
begin

text \<open>
  The block device over one contiguous file of a mounted FATFS volume (\<open>on9kvdb_io_fatfs.cpp\<close>). The
  VFS and ESP-IDF calls are a parameter, a record of the functions over a file-system state; the limits
  of the platform's types and the path length of the build are fields of it too. \<open>posix_file\<close> states
  the documented behaviour of the calls on the open file.
\<close>

section \<open>The calls of the platform\<close>

text \<open>
  A transfer may be interrupted (\<open>EINTR\<close>), refused (another error, or no byte at all is \<open>Moved\<close> with
  nothing), or complete a part of the request. What it does may depend on the number of the attempt.
\<close>

datatype 'a transfer = Interrupted | Refused_transfer | Moved 'a

record file_stat =
  fs_regular :: bool
  fs_size :: int

record 'f posix =
  px_stat :: "'f \<Rightarrow> bytes \<Rightarrow> bool + file_stat"  \<comment> \<open>\<open>Inl True\<close> is \<open>ENOENT\<close>\<close>
  px_create_contiguous :: "'f \<Rightarrow> bytes \<Rightarrow> bytes \<Rightarrow> u64 \<Rightarrow> esp_err \<times> 'f"
  px_test_contiguous :: "'f \<Rightarrow> bytes \<Rightarrow> bytes \<Rightarrow> esp_err \<times> bool"
  px_open :: "'f \<Rightarrow> bytes \<Rightarrow> int \<times> 'f"
  px_close :: "'f \<Rightarrow> int \<Rightarrow> bool \<times> 'f"
  px_pread :: "'f \<Rightarrow> int \<Rightarrow> nat \<Rightarrow> nat \<Rightarrow> nat \<Rightarrow> bytes transfer"
  px_pwrite :: "'f \<Rightarrow> int \<Rightarrow> nat \<Rightarrow> nat \<Rightarrow> bytes \<Rightarrow> nat transfer \<times> 'f"
  px_fsync :: "'f \<Rightarrow> int \<Rightarrow> bool \<times> 'f"
  px_off_max :: nat
  px_size_max :: nat
  px_ssize_max :: nat
  px_path_max :: nat

section \<open>The adapter\<close>

record fatfs_io =
  ff_descriptor :: int
  ff_block_count :: u64
  ff_base_path :: bytes
  ff_file_path :: bytes

definition fatfs_block_size :: nat where "fatfs_block_size = 4096"

definition maximum_file_name_length :: nat where "maximum_file_name_length = 64"

definition clear_state :: fatfs_io where
  "clear_state = \<lparr>ff_descriptor = -1, ff_block_count = 0, ff_base_path = [], ff_file_path = []\<rparr>"

text \<open>The strings come without their terminator; 47 is the slash, 92 the backslash, 46 the dot.\<close>

definition build_paths :: "'f posix \<Rightarrow> bytes \<Rightarrow> bytes \<Rightarrow> fatfs_io \<Rightarrow> esp_err \<times> fatfs_io" where
  "build_paths os base_path file_name a =
     (let base_length = length base_path; name_length = length file_name;
          has_separator = (last base_path = 47);
          full_length = base_length + (if has_separator then 0 else 1) + name_length in
      if base_path = [] \<or> hd base_path \<noteq> 47 \<or> file_name = [] then (ESP_ERR_INVALID_ARG, a)
      else if base_length > px_path_max os \<or> name_length > maximum_file_name_length \<or>
              file_name = [46] \<or> file_name = [46, 46] then (ESP_ERR_INVALID_SIZE, a)
      else if list_ex (\<lambda>c. c = 47 \<or> c = 92) file_name then (ESP_ERR_INVALID_ARG, a)
      else if full_length \<ge> px_path_max os + 1 + maximum_file_name_length + 1 then (ESP_ERR_INVALID_SIZE, a)
      else (ESP_OK, a\<lparr>ff_base_path := base_path,
              ff_file_path := base_path @ (if has_separator then [] else [47]) @ file_name\<rparr>))"

definition validate_existing_file :: "'f posix \<Rightarrow> 'f \<Rightarrow> fatfs_io \<Rightarrow> u64 \<Rightarrow> esp_err" where
  "validate_existing_file os f a file_size =
     (case px_stat os f (ff_file_path a) of
        Inl _ \<Rightarrow> ESP_FAIL
      | Inr st \<Rightarrow>
          if \<not> fs_regular st \<or> fs_size st < 0 \<or> fs_size st \<noteq> uint file_size then ESP_ERR_INVALID_SIZE
          else
            (case px_test_contiguous os f (ff_base_path a) (ff_file_path a) of
               (ret, contiguous) \<Rightarrow>
                 if ret = ESP_OK \<and> contiguous then ESP_OK else if ret = ESP_OK then ESP_ERR_INVALID_STATE else ret))"

definition fatfs_init ::
  "'f posix \<Rightarrow> bytes \<Rightarrow> bytes \<Rightarrow> u64 \<Rightarrow> fatfs_io \<times> 'f \<Rightarrow> esp_err \<times> fatfs_io \<times> 'f" where
  "fatfs_init os base_path file_name file_size v =
     (case v of (a, f) \<Rightarrow>
        if ff_descriptor a \<ge> 0 then (ESP_ERR_INVALID_STATE, a, f)
        else if file_size = 0 \<or> unat file_size mod fatfs_block_size \<noteq> 0 \<or> unat file_size > px_off_max os
        then (ESP_ERR_INVALID_SIZE, a, f)
        else
          (case build_paths os base_path file_name clear_state of
             (ret, a) \<Rightarrow>
               if ret \<noteq> ESP_OK then (ret, clear_state, f)
               else
                 (case (case px_stat os f (ff_file_path a) of
                          Inl missing \<Rightarrow>
                            if \<not> missing then (ESP_FAIL, f)
                            else px_create_contiguous os f (ff_base_path a) (ff_file_path a) file_size
                        | Inr _ \<Rightarrow> (ESP_OK, f)) of
                    (ret, f) \<Rightarrow>
                      if ret \<noteq> ESP_OK then (ret, clear_state, f)
                      else
                        let ret = validate_existing_file os f a file_size in
                        if ret \<noteq> ESP_OK then (ret, clear_state, f)
                        else
                          (case px_open os f (ff_file_path a) of
                             (descriptor, f) \<Rightarrow>
                               if descriptor < 0 then (ESP_FAIL, clear_state, f)
                               else (ESP_OK, a\<lparr>ff_descriptor := descriptor,
                                       ff_block_count := file_size div of_nat fatfs_block_size\<rparr>, f)))))"

definition fatfs_deinit :: "'f posix \<Rightarrow> fatfs_io \<times> 'f \<Rightarrow> esp_err \<times> fatfs_io \<times> 'f" where
  "fatfs_deinit os v =
     (case v of (a, f) \<Rightarrow>
        if ff_descriptor a < 0 then (ESP_ERR_INVALID_STATE, a, f)
        else (case px_close os f (ff_descriptor a) of
                (closed, f) \<Rightarrow> (if closed then ESP_OK else ESP_FAIL, clear_state, f)))"

definition fatfs_range_is_valid :: "fatfs_io \<Rightarrow> u64 \<Rightarrow> u32 \<Rightarrow> bool" where
  "fatfs_range_is_valid a start_block block_count \<longleftrightarrow>
     ff_descriptor a \<ge> 0 \<and> start_block \<le> ff_block_count a \<and> ucast block_count \<le> ff_block_count a - start_block"

definition get_byte_range :: "'f posix \<Rightarrow> fatfs_io \<Rightarrow> u64 \<Rightarrow> u32 \<Rightarrow> (nat \<times> nat) option" where
  "get_byte_range os a start_block block_count =
     (if \<not> fatfs_range_is_valid a start_block block_count \<or> unat start_block > px_off_max os div fatfs_block_size \<or>
         unat block_count > px_size_max os div fatfs_block_size then None
      else Some (unat (start_block * of_nat fatfs_block_size), unat block_count * fatfs_block_size))"

text \<open>The loops retry an interrupted call for as long as it takes: they may not return.\<close>

partial_function (option) read_exact ::
  "'f posix \<Rightarrow> 'f \<Rightarrow> int \<Rightarrow> nat \<Rightarrow> nat \<Rightarrow> nat \<Rightarrow> bytes \<Rightarrow> (esp_err + bytes) option" where
  [code]: "read_exact os f fd attempt position remaining output =
     (if remaining = 0 then Some (Inr output)
      else
        (case px_pread os f fd attempt (if remaining < px_ssize_max os then remaining else px_ssize_max os) position of
           Interrupted \<Rightarrow> read_exact os f fd (attempt + 1) position remaining output
         | Refused_transfer \<Rightarrow> Some (Inl ESP_FAIL)
         | Moved part \<Rightarrow>
             if part = [] then Some (Inl ESP_FAIL)
             else read_exact os f fd (attempt + 1) (position + length part) (remaining - length part) (output @ part)))"

partial_function (option) write_exact ::
  "'f posix \<Rightarrow> 'f \<Rightarrow> int \<Rightarrow> nat \<Rightarrow> nat \<Rightarrow> bytes \<Rightarrow> (esp_err \<times> 'f) option" where
  [code]: "write_exact os f fd attempt position input =
     (if input = [] then Some (ESP_OK, f)
      else
        (case px_pwrite os f fd attempt position
                (take (if length input < px_ssize_max os then length input else px_ssize_max os) input) of
           (result, f) \<Rightarrow>
             (case result of
                Interrupted \<Rightarrow> write_exact os f fd (attempt + 1) position input
              | Refused_transfer \<Rightarrow> Some (ESP_FAIL, f)
              | Moved n \<Rightarrow>
                  if n = 0 then Some (ESP_FAIL, f)
                  else write_exact os f fd (attempt + 1) (position + n) (drop n input))))"

definition fatfs_read_blocks :: "'f posix \<Rightarrow> fatfs_io \<Rightarrow> 'f \<Rightarrow> u64 \<Rightarrow> u32 \<Rightarrow> (esp_err + bytes) option" where
  "fatfs_read_blocks os a f start_block block_count =
     (if block_count = 0
      then Some (if fatfs_range_is_valid a start_block block_count then Inr [] else Inl ESP_ERR_INVALID_ARG)
      else
        (case get_byte_range os a start_block block_count of
           None \<Rightarrow> Some (Inl ESP_ERR_INVALID_ARG)
         | Some (offset, n) \<Rightarrow> read_exact os f (ff_descriptor a) 0 offset n []))"

definition fatfs_write_blocks :: "'f posix \<Rightarrow> fatfs_io \<Rightarrow> 'f \<Rightarrow> u64 \<Rightarrow> bytes \<Rightarrow> u32 \<Rightarrow> (esp_err \<times> 'f) option" where
  "fatfs_write_blocks os a f start_block source block_count =
     (if block_count = 0
      then Some (if fatfs_range_is_valid a start_block block_count then ESP_OK else ESP_ERR_INVALID_ARG, f)
      else
        (case get_byte_range os a start_block block_count of
           None \<Rightarrow> Some (ESP_ERR_INVALID_ARG, f)
         | Some (offset, n) \<Rightarrow> write_exact os f (ff_descriptor a) 0 offset (take n source)))"

definition fatfs_sync :: "'f posix \<Rightarrow> fatfs_io \<Rightarrow> 'f \<Rightarrow> esp_err \<times> 'f" where
  "fatfs_sync os a f =
     (if ff_descriptor a < 0 then (ESP_ERR_INVALID_STATE, f)
      else (case px_fsync os f (ff_descriptor a) of (flushed, f) \<Rightarrow> (if flushed then ESP_OK else ESP_FAIL, f)))"

text \<open>The interface the database sees, where the calls return.\<close>

definition fatfs_device :: "'f posix \<Rightarrow> fatfs_io \<Rightarrow> 'f block_device" where
  "fatfs_device os a = \<lparr>bd_block_size = of_nat fatfs_block_size,
     bd_read_blocks = (\<lambda>f start count. the (fatfs_read_blocks os a f start count)),
     bd_write_blocks = (\<lambda>f start source count. the (fatfs_write_blocks os a f start source count)),
     bd_sync = fatfs_sync os a\<rparr>"

section \<open>The behaviour of an open file\<close>

text \<open>
  POSIX for a regular file of a fixed size: a transfer inside the file is interrupted or moves at least
  one byte and at most what was asked for; it is not interrupted for ever.
\<close>

definition posix_file :: "'f posix \<Rightarrow> int \<Rightarrow> nat \<Rightarrow> ('f \<Rightarrow> bytes) \<Rightarrow> bool" where
  "posix_file os fd extent img \<longleftrightarrow>
     (\<forall>f. length (img f) = extent) \<and>
     (\<forall>f attempt n pos. 0 < n \<longrightarrow> pos + n \<le> extent \<longrightarrow>
        px_pread os f fd attempt n pos = Interrupted \<or>
        (\<exists>k. 0 < k \<and> k \<le> n \<and> px_pread os f fd attempt n pos = Moved (get (img f) pos k))) \<and>
     (\<forall>f attempt n pos. \<exists>m \<ge> attempt. px_pread os f fd m n pos \<noteq> Interrupted) \<and>
     (\<forall>f attempt pos src. src \<noteq> [] \<longrightarrow> pos + length src \<le> extent \<longrightarrow>
        px_pwrite os f fd attempt pos src = (Interrupted, f) \<or>
        (\<exists>k f'. 0 < k \<and> k \<le> length src \<and> px_pwrite os f fd attempt pos src = (Moved k, f') \<and>
                img f' = put (img f) pos (take k src))) \<and>
     (\<forall>f attempt pos src. \<exists>m \<ge> attempt. fst (px_pwrite os f fd m pos src) \<noteq> Interrupted) \<and>
     (\<forall>f. \<exists>f'. px_fsync os f fd = (True, f') \<and> img f' = img f)"

lemma posix_fileD:
  assumes "posix_file os fd extent img"
  shows "length (img f) = extent"
    "0 < n \<Longrightarrow> pos + n \<le> extent \<Longrightarrow> px_pread os f fd attempt n pos \<noteq> Interrupted \<Longrightarrow>
       \<exists>k. 0 < k \<and> k \<le> n \<and> px_pread os f fd attempt n pos = Moved (get (img f) pos k)"
    "\<exists>m \<ge> attempt. px_pread os f fd m n pos \<noteq> Interrupted"
    "src \<noteq> [] \<Longrightarrow> pos + length src \<le> extent \<Longrightarrow> fst (px_pwrite os f fd attempt pos src) \<noteq> Interrupted \<Longrightarrow>
       \<exists>k f'. 0 < k \<and> k \<le> length src \<and> px_pwrite os f fd attempt pos src = (Moved k, f') \<and>
              img f' = put (img f) pos (take k src)"
    "src \<noteq> [] \<Longrightarrow> pos + length src \<le> extent \<Longrightarrow> fst (px_pwrite os f fd attempt pos src) = Interrupted \<Longrightarrow>
       px_pwrite os f fd attempt pos src = (Interrupted, f)"
    "\<exists>m \<ge> attempt. fst (px_pwrite os f fd m pos src) \<noteq> Interrupted"
    "\<exists>f'. px_fsync os f fd = (True, f') \<and> img f' = img f"
  using assms unfolding posix_file_def by (auto, (metis fst_conv transfer.distinct(3))+)

lemma read_exact_file:
  assumes posix: "posix_file os fd extent img" and chunk: "0 < px_ssize_max os"
  shows "position + remaining \<le> extent \<Longrightarrow>
    read_exact os f fd attempt position remaining acc = Some (Inr (acc @ get (img f) position remaining))"
proof (induction remaining arbitrary: position attempt acc rule: less_induct)
  case (less remaining)
  let ?n = "if remaining < px_ssize_max os then remaining else px_ssize_max os"
  let ?done = "\<lambda>attempt. read_exact os f fd attempt position remaining acc = Some (Inr (acc @ get (img f) position remaining))"
  show ?case
  proof (cases "remaining = 0")
    case True
    then show ?thesis by (simp add: read_exact.simps)
  next
    case False
    have request: "0 < ?n" "position + ?n \<le> extent" using False chunk less.prems by auto
    have moved: "?done t" if t: "px_pread os f fd t ?n position \<noteq> Interrupted" for t
    proof -
      obtain k where k: "0 < k" "k \<le> ?n" "px_pread os f fd t ?n position = Moved (get (img f) position k)"
        using posix_fileD(2) [OF posix _ _ t] request by blast
      have len: "k \<le> remaining" "length (get (img f) position k) = k"
        using k(2) less.prems posix_fileD(1) [OF posix] by (auto split: if_splits)
      then have "get (img f) position k \<noteq> []" using k(1) by auto
      moreover have "read_exact os f fd (t + 1) (position + k) (remaining - k) (acc @ get (img f) position k) =
          Some (Inr ((acc @ get (img f) position k) @ get (img f) (position + k) (remaining - k)))"
        using less.IH [of "remaining - k" "position + k"] k(1) len less.prems by simp
      moreover have "get (img f) position k @ get (img f) (position + k) (remaining - k) = get (img f) position remaining"
        using get_append [of position k "remaining - k" "img f"] len less.prems posix_fileD(1) [OF posix] by simp
      ultimately show ?thesis
        using False by (subst read_exact.simps) (simp only: k(3) len if_False transfer.case append.assoc)
    qed
    have retry: "?done t" if "px_pread os f fd t ?n position = Interrupted" "?done (t + 1)" for t
      using False that by (subst read_exact.simps) (simp only: that(1) if_False transfer.case that(2))
    obtain m where m: "attempt \<le> m" "px_pread os f fd m ?n position \<noteq> Interrupted"
      using posix_fileD(3) [OF posix] by blast
    show ?thesis
      using m(1)
    proof (induction rule: inc_induct)
      case base
      show ?case by (rule moved [OF m(2)])
    next
      case (step t)
      then show ?case using moved retry by (cases "px_pread os f fd t ?n position = Interrupted") simp_all
    qed
  qed
qed

lemma write_exact_file:
  assumes posix: "posix_file os fd extent img" and chunk: "0 < px_ssize_max os"
  shows "position + length input \<le> extent \<Longrightarrow>
    \<exists>f'. write_exact os f fd attempt position input = Some (ESP_OK, f') \<and> img f' = put (img f) position input"
proof (induction "length input" arbitrary: position attempt input f rule: less_induct)
  case less
  let ?src = "take (if length input < px_ssize_max os then length input else px_ssize_max os) input"
  let ?done = "\<lambda>attempt. \<exists>f'. write_exact os f fd attempt position input = Some (ESP_OK, f') \<and> img f' = put (img f) position input"
  show ?case
  proof (cases "input = []")
    case True
    then show ?thesis by (simp add: write_exact.simps put_def)
  next
    case False
    have src: "?src \<noteq> []" "position + length ?src \<le> extent" using False chunk less.prems by auto
    have moved: "?done t" if t: "fst (px_pwrite os f fd t position ?src) \<noteq> Interrupted" for t
    proof -
      obtain k f1 where k: "0 < k" "k \<le> length ?src" "px_pwrite os f fd t position ?src = (Moved k, f1)"
        "img f1 = put (img f) position (take k ?src)"
        using posix_fileD(4) [OF posix src t] by blast
      have len: "k \<le> length input" "take k ?src = take k input" using k(2) by (auto split: if_splits)
      obtain f2 where f2: "write_exact os f1 fd (t + 1) (position + k) (drop k input) = Some (ESP_OK, f2)"
        "img f2 = put (img f1) (position + k) (drop k input)"
        using less.hyps [of "drop k input" "position + k" f1 "t + 1"] k(1) len less.prems False by auto
      have "img f2 = put (img f) position input"
        using less.prems len posix_fileD(1) [OF posix, of f] unfolding f2(2) k(4) len(2)
        by (simp add: put_def min_def add.commute)
      then show ?thesis
        using False f2(1) k(1) by (subst write_exact.simps) (simp add: k(3))
    qed
    have retry: "?done t" if "fst (px_pwrite os f fd t position ?src) = Interrupted" "?done (t + 1)" for t
      using False posix_fileD(5) [OF posix src that(1)] that(2) by (subst write_exact.simps) simp
    obtain m where m: "attempt \<le> m" "fst (px_pwrite os f fd m position ?src) \<noteq> Interrupted"
      using posix_fileD(6) [OF posix] by blast
    show ?thesis
      using m(1)
    proof (induction rule: inc_induct)
      case base
      show ?case by (rule moved [OF m(2)])
    next
      case (step t)
      then show ?case using moved retry by (cases "fst (px_pwrite os f fd t position ?src) = Interrupted") simp_all
    qed
  qed
qed

section \<open>The adapter is a block device\<close>

text \<open>An adapter whose \<open>fatfs_init\<close> succeeded, on a platform whose \<open>size_t\<close> holds a file size.\<close>

definition fatfs_open :: "'f posix \<Rightarrow> fatfs_io \<Rightarrow> nat \<Rightarrow> bool" where
  "fatfs_open os a extent \<longleftrightarrow>
     0 \<le> ff_descriptor a \<and> extent = unat (ff_block_count a) * fatfs_block_size \<and> extent \<le> px_off_max os \<and>
     px_off_max os \<le> px_size_max os \<and> px_off_max os < 2 ^ 63 \<and> 0 < px_ssize_max os"

lemma byte_range:
  assumes opened: "fatfs_open os a extent"
  shows "get_byte_range os a start count =
    (if (unat start + unat count) * fatfs_block_size \<le> extent
     then Some (unat start * fatfs_block_size, unat count * fatfs_block_size) else None)"
proof -
  note o = opened [unfolded fatfs_open_def fatfs_block_size_def]
  have valid: "fatfs_range_is_valid a start count \<longleftrightarrow> unat start + unat count \<le> unat (ff_block_count a)"
    using o unat_sub_if' [of "ff_block_count a" start]
    by (auto simp: fatfs_range_is_valid_def word_le_nat_alt unsigned_ucast_eq take_bit_nat_eq_self unat_less_pow)
  show ?thesis
  proof (cases "unat start + unat count \<le> unat (ff_block_count a)")
    case True
    then have bound: "(unat start + unat count) * 4096 \<le> extent" using o by simp
    then have "unat start * 4096 \<le> px_off_max os" "unat count * 4096 \<le> px_size_max os" using o by simp_all
    then have "unat start \<le> px_off_max os div 4096" "unat count \<le> px_size_max os div 4096" by simp_all
    moreover have "unat (start * 4096) = unat start * 4096"
      using \<open>unat start * 4096 \<le> px_off_max os\<close> o by (simp add: unat_mult_exact)
    ultimately show ?thesis using bound True by (simp add: get_byte_range_def valid fatfs_block_size_def)
  next
    case False
    then have "\<not> (unat start + unat count) * 4096 \<le> extent" using o by simp
    then show ?thesis using False by (simp add: get_byte_range_def valid fatfs_block_size_def)
  qed
qed

lemma fatfs_read_blocks_file:
  assumes "posix_file os (ff_descriptor a) extent img" "fatfs_open os a extent"
  shows "(unat start + unat count) * fatfs_block_size \<le> extent \<Longrightarrow>
     fatfs_read_blocks os a f start count =
       Some (Inr (get (img f) (unat start * fatfs_block_size) (unat count * fatfs_block_size)))"
    "\<not> (unat start + unat count) * fatfs_block_size \<le> extent \<Longrightarrow>
     fatfs_read_blocks os a f start count = Some (Inl ESP_ERR_INVALID_ARG)"
proof -
  have zero: "fatfs_range_is_valid a start 0 \<longleftrightarrow> unat start * fatfs_block_size \<le> extent"
    using assms(2) by (auto simp: fatfs_open_def fatfs_range_is_valid_def word_le_nat_alt fatfs_block_size_def)
  note read = byte_range [OF assms(2)] read_exact_file [OF assms(1), of "unat start * fatfs_block_size" "unat count * fatfs_block_size" f 0 "[]"]
  show "fatfs_read_blocks os a f start count =
       Some (Inr (get (img f) (unat start * fatfs_block_size) (unat count * fatfs_block_size)))"
    if "(unat start + unat count) * fatfs_block_size \<le> extent"
    using that read assms(2) zero by (cases "count = 0") (auto simp: fatfs_read_blocks_def fatfs_open_def algebra_simps)
  show "fatfs_read_blocks os a f start count = Some (Inl ESP_ERR_INVALID_ARG)"
    if "\<not> (unat start + unat count) * fatfs_block_size \<le> extent"
    using that read(1) zero by (cases "count = 0") (auto simp: fatfs_read_blocks_def)
qed

lemma fatfs_write_blocks_file:
  assumes "posix_file os (ff_descriptor a) extent img" "fatfs_open os a extent"
  shows "(unat start + unat count) * fatfs_block_size \<le> extent \<Longrightarrow> length src = unat count * fatfs_block_size \<Longrightarrow>
     \<exists>f'. fatfs_write_blocks os a f start src count = Some (ESP_OK, f') \<and>
          img f' = put (img f) (unat start * fatfs_block_size) src"
    "\<not> (unat start + unat count) * fatfs_block_size \<le> extent \<Longrightarrow>
     fatfs_write_blocks os a f start src count = Some (ESP_ERR_INVALID_ARG, f)"
proof -
  have zero: "fatfs_range_is_valid a start 0 \<longleftrightarrow> unat start * fatfs_block_size \<le> extent"
    using assms(2) by (auto simp: fatfs_open_def fatfs_range_is_valid_def word_le_nat_alt fatfs_block_size_def)
  note range = byte_range [OF assms(2)]
  show "\<exists>f'. fatfs_write_blocks os a f start src count = Some (ESP_OK, f') \<and>
          img f' = put (img f) (unat start * fatfs_block_size) src"
    if "(unat start + unat count) * fatfs_block_size \<le> extent" "length src = unat count * fatfs_block_size"
  proof (cases "count = 0")
    case True
    then show ?thesis using that zero by (simp add: fatfs_write_blocks_def put_def)
  next
    case False
    have "unat start * fatfs_block_size + length src \<le> extent" "0 < px_ssize_max os"
      using that assms(2) by (simp_all add: fatfs_open_def algebra_simps)
    then obtain f' where "write_exact os f (ff_descriptor a) 0 (unat start * fatfs_block_size) src = Some (ESP_OK, f')"
      "img f' = put (img f) (unat start * fatfs_block_size) src"
      using write_exact_file [OF assms(1)] by blast
    then show ?thesis using that False range by (simp add: fatfs_write_blocks_def)
  qed
  show "fatfs_write_blocks os a f start src count = Some (ESP_ERR_INVALID_ARG, f)"
    if "\<not> (unat start + unat count) * fatfs_block_size \<le> extent"
    using that range zero by (cases "count = 0") (auto simp: fatfs_write_blocks_def)
qed

section \<open>A sample file system\<close>

text \<open>
  One file of 8192 bytes; every second call is interrupted, and a transfer moves at most 1000 bytes.
\<close>

definition sample_file :: "bytes \<Rightarrow> bytes" where
  "sample_file f = take 8192 (f @ zeroes 8192)"

definition sample_posix :: "bytes posix" where
  "sample_posix = \<lparr>px_stat = (\<lambda>f path. Inr \<lparr>fs_regular = True, fs_size = 8192\<rparr>),
     px_create_contiguous = (\<lambda>f base path n. (ESP_FAIL, f)),
     px_test_contiguous = (\<lambda>f base path. (ESP_OK, True)),
     px_open = (\<lambda>f path. (3, f)), px_close = (\<lambda>f fd. (True, f)),
     px_pread = (\<lambda>f fd attempt n pos.
       if even attempt then Interrupted else Moved (get (sample_file f) pos (min n 1000))),
     px_pwrite = (\<lambda>f fd attempt pos src.
       if even attempt then (Interrupted, f)
       else (Moved (min (length src) 1000), put (sample_file f) pos (take (min (length src) 1000) src))),
     px_fsync = (\<lambda>f fd. (True, f)),
     px_off_max = 2 ^ 31 - 1, px_size_max = 2 ^ 32 - 1, px_ssize_max = 2 ^ 31 - 1, px_path_max = 15\<rparr>"

definition sample_fatfs :: fatfs_io where
  "sample_fatfs = \<lparr>ff_descriptor = 3, ff_block_count = 2, ff_base_path = [47, 115], ff_file_path = [47, 115, 47, 100]\<rparr>"

lemma sample_posix_file: "posix_file sample_posix 3 8192 sample_file"
proof -
  have odd: "\<exists>m \<ge> n. odd m" for n :: nat by (cases "odd n") (auto intro: exI [of _ "Suc n"])
  have file_length: "length (sample_file f) = 8192" for f by (simp add: sample_file_def)
  have same: "sample_file (put (sample_file f) pos src) = put (sample_file f) pos src" for f pos src
    using length_put [of "sample_file f" pos src] file_length [of f] by (simp add: sample_file_def [of "put _ _ _"])
  have step: "0 < n \<Longrightarrow> \<exists>k>0. k \<le> n \<and> min n 1000 = k" for n :: nat by auto
  show ?thesis
    unfolding posix_file_def
  proof (intro conjI allI impI)
    show "\<exists>m\<ge>attempt. px_pread sample_posix f 3 m n pos \<noteq> Interrupted" for attempt f n pos
      using odd [of attempt] by (auto simp: sample_posix_def)
    show "\<exists>m\<ge>attempt. fst (px_pwrite sample_posix f 3 m pos src) \<noteq> Interrupted" for attempt f pos src
      using odd [of attempt] by (auto simp: sample_posix_def)
    show "px_pread sample_posix f 3 attempt n pos = Interrupted \<or>
        (\<exists>k>0. k \<le> n \<and> px_pread sample_posix f 3 attempt n pos = Moved (get (sample_file f) pos k))"
      if "0 < n" "pos + n \<le> 8192" for f attempt n pos
      using that by (auto simp: sample_posix_def intro!: exI [of _ "min n 1000"])
    show "px_pwrite sample_posix f 3 attempt pos src = (Interrupted, f) \<or>
        (\<exists>k f'. 0 < k \<and> k \<le> length src \<and> px_pwrite sample_posix f 3 attempt pos src = (Moved k, f') \<and>
                sample_file f' = put (sample_file f) pos (take k src))"
      if "src \<noteq> []" "pos + length src \<le> 8192" for f attempt pos src
      using that step [of "length src"] by (auto simp: sample_posix_def same)
    show "\<exists>f'. px_fsync sample_posix f 3 = (True, f') \<and> sample_file f' = sample_file f" for f
      by (simp add: sample_posix_def)
  qed (rule file_length)
qed

lemma sample_fatfs_open: "fatfs_open sample_posix sample_fatfs 8192"
  by (simp add: fatfs_open_def sample_posix_def sample_fatfs_def fatfs_block_size_def)

text \<open>The child of the mounted base with a name.\<close>

definition child_path :: "bytes \<Rightarrow> bytes \<Rightarrow> bytes" where
  "child_path base_path file_name = base_path @ (if last base_path = 47 then [] else [47]) @ file_name"

text \<open>The check of a file before it is opened.\<close>

lemma validate_existing_file_iff:
  "validate_existing_file os f a file_size = ESP_OK \<longleftrightarrow>
     (\<exists>st. px_stat os f (ff_file_path a) = Inr st \<and> fs_regular st \<and> fs_size st = uint file_size \<and>
        px_test_contiguous os f (ff_base_path a) (ff_file_path a) = (ESP_OK, True))"
  by (auto simp: validate_existing_file_def split: sum.splits prod.splits if_splits)

section \<open>Properties\<close>

text \<open>C19: Termination. The transfer loops of the FATFS adapter retry interrupted calls for as long as it
  takes. On a file whose calls are not interrupted for ever, every read and every write of complete blocks
  returns, in range or not.\<close>

theorem fatfs_transfers_return:
  assumes "posix_file os (ff_descriptor a) extent img" "fatfs_open os a extent"
    and "length src = unat count * fatfs_block_size"
  shows "(\<exists>r. fatfs_read_blocks os a f start count = Some r) \<and> (\<exists>r. fatfs_write_blocks os a f start src count = Some r)"
proof (cases "(unat start + unat count) * fatfs_block_size \<le> extent")
  case True
  then show ?thesis
    using fatfs_read_blocks_file(1) [OF assms(1,2) True] fatfs_write_blocks_file(1) [OF assms(1,2) True assms(3)] by blast
next
  case False
  then show ?thesis
    using fatfs_read_blocks_file(2) [OF assms(1,2) False] fatfs_write_blocks_file(2) [OF assms(1,2) False] by blast
qed

theorem fatfs_transfers_return_witness:
  "\<exists>r. fatfs_read_blocks sample_posix sample_fatfs [7, 8] 1 1 = Some r"
  using fatfs_transfers_return [where os = sample_posix and a = sample_fatfs and extent = 8192 and img = sample_file
      and src = "zeroes 4096" and count = 1 and f = "[7, 8]" and start = 1]
    sample_posix_file sample_fatfs_open
  by (simp add: sample_fatfs_def fatfs_block_size_def)

text \<open>C16: Refinement. The adapter over an open file is the block device the database is written against:
  it serves exactly the bytes of the file block by block, a write replaces exactly the blocks it names,
  however the calls split the transfer, and the barrier changes nothing.\<close>

theorem fatfs_refines_block_device:
  assumes "posix_file os (ff_descriptor a) extent img" "fatfs_open os a extent"
  shows "device_image (fatfs_device os a) img \<and> block_size_supported (bd_block_size (fatfs_device os a))"
proof
  note len = posix_fileD(1) [OF assms(1)]
  have bs: "unat (of_nat fatfs_block_size :: u32) = fatfs_block_size" by (simp add: fatfs_block_size_def)
  have sync: "\<exists>f'. fatfs_sync os a f = (ESP_OK, f') \<and> img f' = img f" for f
    using posix_fileD(7) [OF assms(1), of f] assms(2) by (auto simp: fatfs_sync_def fatfs_open_def)
  have stored: "\<exists>f'. the (fatfs_write_blocks os a f start src count) = (ESP_OK, f') \<and>
      img f' = put (img f) (unat start * fatfs_block_size) src"
    if "(unat start + unat count) * fatfs_block_size \<le> extent" "length src = unat count * fatfs_block_size" for f start src count
    using fatfs_write_blocks_file(1) [OF assms that, of f] by auto
  show "device_image (fatfs_device os a) img"
    unfolding device_image_def using sync stored
    by (simp add: fatfs_device_def bs len fatfs_read_blocks_file(1) [OF assms])
  show "block_size_supported (bd_block_size (fatfs_device os a))"
    by (simp add: fatfs_device_def block_size_supported_def fatfs_block_size_def format_consts)
qed

theorem fatfs_refines_block_device_witness:
  "device_image (fatfs_device sample_posix sample_fatfs) sample_file"
  using fatfs_refines_block_device [of sample_posix sample_fatfs 8192 sample_file] sample_posix_file sample_fatfs_open
  by (simp add: sample_fatfs_def)

text \<open>C30: Error behaviour. Opening the adapter either fails and leaves it closed, or yields the descriptor of
  a regular, contiguous file of exactly the requested size and the number of its blocks, on a path that is one child
  of the mounted base; the file was there, or it was missing and the platform created it with that size. A file that
  is there is never created or resized: the only call on it that may change the file system is the open, and one that
  is not regular, not contiguous or of another size is refused with the file system unchanged.\<close>

theorem fatfs_init_safe:
  assumes "fatfs_init os base_path file_name file_size (a, f) = (ret, a', f')" "ff_descriptor a < 0"
  shows "(ret = ESP_OK \<longrightarrow> 0 \<le> ff_descriptor a' \<and> unat (ff_block_count a') * fatfs_block_size = unat file_size \<and>
       47 \<notin> set file_name \<and> 92 \<notin> set file_name \<and> ff_file_path a' = child_path base_path file_name \<and>
       (\<exists>f1 st. (if px_stat os f (child_path base_path file_name) = Inl True then px_create_contiguous os f base_path (child_path base_path file_name) file_size = (ESP_OK, f1) else f1 = f) \<and>
          px_stat os f1 (child_path base_path file_name) = Inr st \<and> fs_regular st \<and> fs_size st = uint file_size \<and>
          px_test_contiguous os f1 base_path (child_path base_path file_name) = (ESP_OK, True) \<and> px_open os f1 (child_path base_path file_name) = (ff_descriptor a', f'))) \<and>
     (ret \<noteq> ESP_OK \<longrightarrow> ff_descriptor a' < 0) \<and>
     (\<forall>st. px_stat os f (child_path base_path file_name) = Inr st \<longrightarrow>
       (f' = f \<or> f' = snd (px_open os f (child_path base_path file_name))) \<and>
       (\<not> fs_regular st \<or> fs_size st \<noteq> uint file_size \<or> px_test_contiguous os f base_path (child_path base_path file_name) \<noteq> (ESP_OK, True) \<longrightarrow> ret \<noteq> ESP_OK \<and> f' = f))"
proof -
  have blocks: "unat (file_size div of_nat fatfs_block_size) * fatfs_block_size = unat file_size"
    if "unat file_size mod fatfs_block_size = 0"
    using that div_mult_mod_eq [of "unat file_size" fatfs_block_size] by (simp add: unat_div fatfs_block_size_def)
  have closed: "ff_descriptor clear_state < 0" by (simp add: clear_state_def)
  obtain ret1 a1 where paths: "build_paths os base_path file_name clear_state = (ret1, a1)" by fastforce
  have p: "ff_file_path a1 = child_path base_path file_name" "ff_base_path a1 = base_path" "47 \<notin> set file_name" "92 \<notin> set file_name" if "ret1 = ESP_OK"
    using paths that by (auto simp: build_paths_def Let_def list_ex_iff child_path_def split: if_splits)
  show ?thesis
    using assms p blocks closed
    by (auto simp: fatfs_init_def paths Let_def validate_existing_file_iff split: if_splits prod.splits sum.splits)
qed

theorem fatfs_init_safe_witness:
  "fst (fatfs_init sample_posix [47, 115] [100] 8192 (clear_state, [])) = ESP_OK \<and>
   unat (ff_block_count (fst (snd (fatfs_init sample_posix [47, 115] [100] 8192 (clear_state, []))))) * fatfs_block_size = 8192"
proof
  have ok: "fatfs_init sample_posix [47, 115] [100] 8192 (clear_state, []) = (ESP_OK, sample_fatfs, [])"
    by (simp add: fatfs_init_def clear_state_def sample_posix_def build_paths_def validate_existing_file_def
        maximum_file_name_length_def fatfs_block_size_def sample_fatfs_def)
  then show "fst (fatfs_init sample_posix [47, 115] [100] 8192 (clear_state, [])) = ESP_OK" by simp
  show "unat (ff_block_count (fst (snd (fatfs_init sample_posix [47, 115] [100] 8192 (clear_state, []))))) * fatfs_block_size = 8192"
    using fatfs_init_safe [OF ok] unfolding ok by (simp add: clear_state_def)
qed

end
