(* ===== verification/Io_Sdmmc.thy ===== *)
theory Io_Sdmmc
  imports Storage
begin

text \<open>
  The block device over the sectors of an SD or MMC card (\<open>on9kvdb_io_sdmmc.cpp\<close>): the database owns the
  suffix of the card that starts at \<open>first_block\<close>. The driver's calls are a parameter, a record of the
  functions over a card state; \<open>card_image\<close> states their documented behaviour.
\<close>

record sdmmc_card =
  sd_capacity :: int
  sd_sector_size :: int

record 'c sdmmc_driver =
  sd_read_sectors :: "'c \<Rightarrow> nat \<Rightarrow> nat \<Rightarrow> esp_err + bytes"
  sd_write_sectors :: "'c \<Rightarrow> bytes \<Rightarrow> nat \<Rightarrow> nat \<Rightarrow> esp_err \<times> 'c"
  sd_get_status :: "'c \<Rightarrow> esp_err"
  sd_size_max :: nat

record sdmmc_io =
  sm_card :: "sdmmc_card option"
  sm_first_block :: u64
  sm_block_count :: u64
  sm_block_size :: u32

definition sdmmc_init :: "sdmmc_card option \<Rightarrow> u32 \<Rightarrow> sdmmc_io \<Rightarrow> esp_err \<times> sdmmc_io" where
  "sdmmc_init new_card new_first_block a =
     (case new_card of
        None \<Rightarrow> (ESP_ERR_INVALID_ARG, a)
      | Some sdc \<Rightarrow>
          if sd_capacity sdc \<le> 0 \<or> sd_sector_size sdc \<le> 0 \<or> (ucast new_first_block :: u64) \<ge> of_int (sd_capacity sdc)
          then (ESP_ERR_INVALID_ARG, a)
          else (ESP_OK, a\<lparr>sm_card := Some sdc, sm_first_block := ucast new_first_block,
                  sm_block_count := of_int (sd_capacity sdc) - ucast new_first_block,
                  sm_block_size := of_int (sd_sector_size sdc)\<rparr>))"

definition sdmmc_range_is_valid :: "'c sdmmc_driver \<Rightarrow> sdmmc_io \<Rightarrow> u64 \<Rightarrow> u32 \<Rightarrow> bool" where
  "sdmmc_range_is_valid drv a start_block count \<longleftrightarrow>
     sm_card a \<noteq> None \<and> sm_block_size a \<noteq> 0 \<and> start_block \<le> sm_block_count a \<and>
     ucast count \<le> sm_block_count a - start_block \<and> sm_first_block a \<le> - 1 - start_block \<and>
     unat (sm_first_block a + start_block) \<le> sd_size_max drv"

definition sdmmc_read_blocks :: "'c sdmmc_driver \<Rightarrow> sdmmc_io \<Rightarrow> 'c \<Rightarrow> u64 \<Rightarrow> u32 \<Rightarrow> esp_err + bytes" where
  "sdmmc_read_blocks drv a c start_block count =
     (if \<not> sdmmc_range_is_valid drv a start_block count then Inl ESP_ERR_INVALID_ARG
      else if count = 0 then Inr []
      else sd_read_sectors drv c (unat (sm_first_block a + start_block)) (unat count))"

definition sdmmc_write_blocks :: "'c sdmmc_driver \<Rightarrow> sdmmc_io \<Rightarrow> 'c \<Rightarrow> u64 \<Rightarrow> bytes \<Rightarrow> u32 \<Rightarrow> esp_err \<times> 'c" where
  "sdmmc_write_blocks drv a c start_block source count =
     (if \<not> sdmmc_range_is_valid drv a start_block count then (ESP_ERR_INVALID_ARG, c)
      else if count = 0 then (ESP_OK, c)
      else sd_write_sectors drv c source (unat (sm_first_block a + start_block)) (unat count))"

definition sdmmc_sync :: "'c sdmmc_driver \<Rightarrow> sdmmc_io \<Rightarrow> 'c \<Rightarrow> esp_err \<times> 'c" where
  "sdmmc_sync drv a c = (if sm_card a = None then ESP_ERR_INVALID_STATE else sd_get_status drv c, c)"

definition sdmmc_device :: "'c sdmmc_driver \<Rightarrow> sdmmc_io \<Rightarrow> 'c block_device" where
  "sdmmc_device drv a = \<lparr>bd_block_size = sm_block_size a, bd_read_blocks = sdmmc_read_blocks drv a,
     bd_write_blocks = sdmmc_write_blocks drv a, bd_sync = sdmmc_sync drv a\<rparr>"

section \<open>The behaviour of a card\<close>

text \<open>
  A card of \<open>capacity\<close> sectors serves the bytes \<open>img\<close> sector by sector, and a write in range replaces
  exactly the sectors it names.
\<close>

definition card_image :: "'c sdmmc_driver \<Rightarrow> nat \<Rightarrow> nat \<Rightarrow> ('c \<Rightarrow> bytes) \<Rightarrow> bool" where
  "card_image drv sector capacity img \<longleftrightarrow>
     (\<forall>c. length (img c) = capacity * sector) \<and>
     (\<forall>c start count. start + count \<le> capacity \<longrightarrow>
        sd_read_sectors drv c start count = Inr (get (img c) (start * sector) (count * sector))) \<and>
     (\<forall>c start count src. start + count \<le> capacity \<longrightarrow> length src = count * sector \<longrightarrow>
        (\<exists>c'. sd_write_sectors drv c src start count = (ESP_OK, c') \<and> img c' = put (img c) (start * sector) src)) \<and>
     (\<forall>c. sd_get_status drv c = ESP_OK)"

lemma card_imageD:
  assumes "card_image drv sector capacity img"
  shows "length (img c) = capacity * sector"
    "start + count \<le> capacity \<Longrightarrow> sd_read_sectors drv c start count = Inr (get (img c) (start * sector) (count * sector))"
    "start + count \<le> capacity \<Longrightarrow> length src = count * sector \<Longrightarrow>
       \<exists>c'. sd_write_sectors drv c src start count = (ESP_OK, c') \<and> img c' = put (img c) (start * sector) src"
    "sd_get_status drv c = ESP_OK"
  using assms unfolding card_image_def by blast+

text \<open>The adapter after a successful \<open>sdmmc_init\<close> on a card whose numbers fit their C types.\<close>

lemma sdmmc_init_OK:
  assumes init: "sdmmc_init (Some sdc) first a0 = (ESP_OK, a)"
    and fits: "sd_capacity sdc < 2 ^ 31" "sd_sector_size sdc < 2 ^ 31"
  shows "sm_card a = Some sdc" "unat (sm_block_size a) = nat (sd_sector_size sdc)" "0 < nat (sd_sector_size sdc)"
    "unat (sm_first_block a) = unat first" "unat first < nat (sd_capacity sdc)"
    "unat (sm_block_count a) = nat (sd_capacity sdc) - unat first"
proof -
  have ok: "\<not> sd_capacity sdc \<le> 0" "\<not> sd_sector_size sdc \<le> 0"
    "\<not> (ucast first :: u64) \<ge> of_int (sd_capacity sdc)"
    using init by (auto simp: sdmmc_init_def split: if_splits)
  have a: "a = a0\<lparr>sm_card := Some sdc, sm_first_block := ucast first,
      sm_block_count := of_int (sd_capacity sdc) - ucast first, sm_block_size := of_int (sd_sector_size sdc)\<rparr>"
    using init ok by (simp add: sdmmc_init_def)
  obtain n where n: "sd_capacity sdc = int n" "n < 2 ^ 31"
    using ok(1) fits(1) by (intro that [of "nat (sd_capacity sdc)"]) simp_all
  obtain m where m: "sd_sector_size sdc = int m" "m < 2 ^ 31" "0 < m"
    using ok(2) fits(2) by (intro that [of "nat (sd_sector_size sdc)"]) simp_all
  have f: "unat (ucast first :: u64) = unat first" by (simp add: unsigned_ucast_eq take_bit_nat_eq_self unat_less_pow)
  have n64: "unat (of_nat n :: u64) = n" using n(2) by simp
  have less: "unat first < n" using ok(3) by (simp add: n word_le_nat_alt f n64)
  show "sm_card a = Some sdc" "unat (sm_first_block a) = unat first" by (simp_all add: a f)
  show "unat (sm_block_size a) = nat (sd_sector_size sdc)" "0 < nat (sd_sector_size sdc)" using m by (simp_all add: a)
  show "unat first < nat (sd_capacity sdc)" using less by (simp add: n)
  show "unat (sm_block_count a) = nat (sd_capacity sdc) - unat first"
    using less by (simp add: a n unat_sub_if' f n64)
qed

lemma sdmmc_range:
  assumes "sdmmc_init (Some sdc) first a0 = (ESP_OK, a)" "sd_capacity sdc < 2 ^ 31" "sd_sector_size sdc < 2 ^ 31"
    and drv: "2 ^ 32 - 1 \<le> sd_size_max drv"
  shows "sdmmc_range_is_valid drv a start count \<longleftrightarrow> unat start + unat count \<le> unat (sm_block_count a)"
    "sdmmc_range_is_valid drv a start count \<Longrightarrow> unat (sm_first_block a + start) = unat first + unat start"
proof -
  note i = sdmmc_init_OK [OF assms(1-3)]
  have size: "sm_block_size a \<noteq> 0" using i(2,3) by auto
  have cap: "nat (sd_capacity sdc) < 2 ^ 31" using assms(2) by simp
  have room: "unat start \<le> unat (sm_block_count a) \<Longrightarrow> unat first + unat start < 2 ^ 31" using i(5,6) cap by linarith
  then have sum: "unat start \<le> unat (sm_block_count a) \<Longrightarrow> unat (sm_first_block a + start) = unat first + unat start"
    using i(4) by (simp add: unat_add_exact)
  have "unat start \<le> 2 ^ 64 - 1" using unat_bound64 [of start] by simp
  then have top: "unat (- 1 - start) = 2 ^ 64 - 1 - unat start" by (simp add: unat_sub_if' unat_max_word)
  show range: "sdmmc_range_is_valid drv a start count \<longleftrightarrow> unat start + unat count \<le> unat (sm_block_count a)"
    using i(1,4) size room sum drv unat_sub_if' [of "sm_block_count a" start] top
    by (auto simp: sdmmc_range_is_valid_def word_le_nat_alt unsigned_ucast_eq take_bit_nat_eq_self unat_less_pow)
  show "unat (sm_first_block a + start) = unat first + unat start" if "sdmmc_range_is_valid drv a start count"
    using that range sum by simp
qed

text \<open>What an access in range does to the sectors of the card.\<close>

lemma sdmmc_accesses:
  assumes init: "sdmmc_init (Some sdc) first a0 = (ESP_OK, a)"
    and fits: "sd_capacity sdc < 2 ^ 31" "sd_sector_size sdc < 2 ^ 31" "2 ^ 32 - 1 \<le> sd_size_max drv"
    and medium: "card_image drv sector (nat (sd_capacity sdc)) img"
    and valid: "sdmmc_range_is_valid drv a start count"
  shows "sdmmc_read_blocks drv a c start count =
      Inr (get (drop (unat first * sector) (img c)) (unat start * sector) (unat count * sector))"
    "length src = unat count * sector \<Longrightarrow> (unat first + unat start) * sector + length src \<le> length (img c) \<and>
      (\<exists>c'. sdmmc_write_blocks drv a c start src count = (ESP_OK, c') \<and>
        img c' = put (img c) ((unat first + unat start) * sector) src)"
proof -
  note i = sdmmc_init_OK [OF init fits(1,2)] and range = sdmmc_range [OF init fits] and D = card_imageD [OF medium]
  have end_at: "unat first + unat start + unat count \<le> nat (sd_capacity sdc)"
    using valid i(5,6) by (simp add: range(1))
  have "get (drop (unat first * sector) b) (unat start * sector) m = get b ((unat first + unat start) * sector) m" for b m
    by (simp add: get_def algebra_simps)
  then show "sdmmc_read_blocks drv a c start count =
      Inr (get (drop (unat first * sector) (img c)) (unat start * sector) (unat count * sector))"
    using D(2) [OF end_at] range(2) [OF valid] valid by (simp add: sdmmc_read_blocks_def)
  assume len: "length src = unat count * sector"
  have "(unat first + unat start + unat count) * sector \<le> nat (sd_capacity sdc) * sector" using end_at by (rule mult_le_mono1)
  moreover have "\<exists>c'. sdmmc_write_blocks drv a c start src count = (ESP_OK, c') \<and>
      img c' = put (img c) ((unat first + unat start) * sector) src"
    using D(3) [OF end_at len, of c] range(2) [OF valid] valid len
    by (cases "count = 0") (simp_all add: sdmmc_write_blocks_def put_def)
  ultimately show "(unat first + unat start) * sector + length src \<le> length (img c) \<and>
      (\<exists>c'. sdmmc_write_blocks drv a c start src count = (ESP_OK, c') \<and>
        img c' = put (img c) ((unat first + unat start) * sector) src)"
    by (simp add: D(1) len add_mult_distrib)
qed

lemma put_behind:
  assumes "(f + k) * s + length src \<le> length b"
  shows "drop (f * s) (put b ((f + k) * s) src) = put (drop (f * s) b) (k * s) src"
    "take (f * s) (put b ((f + k) * s) src) = take (f * s) b"
  using assms by (auto simp: put_def add_mult_distrib drop_take min_def algebra_simps)

section \<open>Properties\<close>

text \<open>C17: Refinement. The adapter over a working card is the block device the database is written against,
  over the sectors from \<open>first_block\<close> on: it serves exactly their bytes and a write replaces exactly the
  sectors it names. An access that does not fit behind \<open>first_block\<close>, whatever its start and its length, is refused
  with the card unchanged, and no write of complete sectors, in range or not, changes a byte below \<open>first_block\<close>.\<close>

theorem sdmmc_refines_block_device:
  assumes init: "sdmmc_init (Some sdc) first a0 = (ESP_OK, a)"
    and fits: "sd_capacity sdc < 2 ^ 31" "sd_sector_size sdc < 2 ^ 31" "2 ^ 32 - 1 \<le> sd_size_max drv"
    and medium: "card_image drv (nat (sd_sector_size sdc)) (nat (sd_capacity sdc)) img"
  shows "device_image (sdmmc_device drv a) (\<lambda>c. drop (unat first * nat (sd_sector_size sdc)) (img c)) \<and>
    (\<forall>c start src count. \<not> (unat start + unat count) * nat (sd_sector_size sdc) \<le>
         length (drop (unat first * nat (sd_sector_size sdc)) (img c)) \<longrightarrow>
       bd_read_blocks (sdmmc_device drv a) c start count = Inl ESP_ERR_INVALID_ARG \<and>
       bd_write_blocks (sdmmc_device drv a) c start src count = (ESP_ERR_INVALID_ARG, c)) \<and>
    (\<forall>c start src count. length src = unat count * nat (sd_sector_size sdc) \<longrightarrow>
       take (unat first * nat (sd_sector_size sdc)) (img (snd (bd_write_blocks (sdmmc_device drv a) c start src count))) =
       take (unat first * nat (sd_sector_size sdc)) (img c))"
proof -
  let ?s = "nat (sd_sector_size sdc)" and ?n = "nat (sd_capacity sdc)" and ?f = "unat first"
  note i = sdmmc_init_OK [OF init fits(1,2)] and range = sdmmc_range [OF init fits]
  note D = card_imageD [OF medium]
  have room: "(unat start + unat count) * ?s \<le> length (drop (?f * ?s) (img c)) \<longleftrightarrow> sdmmc_range_is_valid drv a start count"
    for start count c
  proof -
    have "length (drop (?f * ?s) (img c)) = (?n - ?f) * ?s" by (simp add: D(1) diff_mult_distrib)
    then show ?thesis using i(3,6) by (simp add: range(1))
  qed
  note access = sdmmc_accesses [OF init fits medium]
  have sync: "sdmmc_sync drv a c = (ESP_OK, c)" for c by (simp add: sdmmc_sync_def i(1) D(4))
  show ?thesis
  proof (intro conjI allI impI)
    show "device_image (sdmmc_device drv a) (\<lambda>c. drop (?f * ?s) (img c))"
      unfolding device_image_def
    proof (intro conjI allI impI)
      show "bd_read_blocks (sdmmc_device drv a) c start count = Inr (get (drop (?f * ?s) (img c))
          (unat start * unat (bd_block_size (sdmmc_device drv a))) (unat count * unat (bd_block_size (sdmmc_device drv a))))"
        if "(unat start + unat count) * unat (bd_block_size (sdmmc_device drv a)) \<le> length (drop (?f * ?s) (img c))"
        for c start count
        using that access(1) [of start count c] by (simp add: sdmmc_device_def i(2) room del: length_drop)
      show "\<exists>c'. bd_write_blocks (sdmmc_device drv a) c start src count = (ESP_OK, c') \<and>
          drop (?f * ?s) (img c') = put (drop (?f * ?s) (img c)) (unat start * unat (bd_block_size (sdmmc_device drv a))) src"
        if "(unat start + unat count) * unat (bd_block_size (sdmmc_device drv a)) \<le> length (drop (?f * ?s) (img c))"
          "length src = unat count * unat (bd_block_size (sdmmc_device drv a))" for c start count src
        using that access(2) [of start count src c]
        by (auto simp: sdmmc_device_def i(2) room put_behind simp del: length_drop)
    qed (simp add: sdmmc_device_def sync)
    have refused: "sdmmc_read_blocks drv a c start count = Inl ESP_ERR_INVALID_ARG"
        "sdmmc_write_blocks drv a c start src count = (ESP_ERR_INVALID_ARG, c)"
      if "\<not> sdmmc_range_is_valid drv a start count" for c start src count
      using that by (simp_all add: sdmmc_read_blocks_def sdmmc_write_blocks_def)
    show "bd_read_blocks (sdmmc_device drv a) c start count = Inl ESP_ERR_INVALID_ARG"
      "bd_write_blocks (sdmmc_device drv a) c start src count = (ESP_ERR_INVALID_ARG, c)"
      if "\<not> (unat start + unat count) * ?s \<le> length (drop (?f * ?s) (img c))" for c start src count
      using that refused by (simp_all add: sdmmc_device_def room del: length_drop)
    show "take (?f * ?s) (img (snd (bd_write_blocks (sdmmc_device drv a) c start src count))) = take (?f * ?s) (img c)"
      if "length src = unat count * ?s" for c start src count
      using that access(2) [of start count src c] refused(2) [of start count c src]
      by (cases "sdmmc_range_is_valid drv a start count") (auto simp: sdmmc_device_def put_behind)
  qed
qed

text \<open>A card of 8 sectors of 512 bytes.\<close>

definition sample_driver :: "bytes sdmmc_driver" where
  "sample_driver = \<lparr>
     sd_read_sectors = (\<lambda>c start count. Inr (get (take 4096 (c @ zeroes 4096)) (start * 512) (count * 512))),
     sd_write_sectors = (\<lambda>c src start count. (ESP_OK, put (take 4096 (c @ zeroes 4096)) (start * 512) src)),
     sd_get_status = (\<lambda>c. ESP_OK), sd_size_max = 2 ^ 32 - 1\<rparr>"

definition sample_card :: sdmmc_card where
  "sample_card = \<lparr>sd_capacity = 8, sd_sector_size = 512\<rparr>"

theorem sdmmc_refines_block_device_witness:
  "device_image (sdmmc_device sample_driver (snd (sdmmc_init (Some sample_card) 3
      \<lparr>sm_card = None, sm_first_block = 0, sm_block_count = 0, sm_block_size = 0\<rparr>)))
    (\<lambda>c. drop 1536 (take 4096 (c @ zeroes 4096))) \<and>
   bd_write_blocks (sdmmc_device sample_driver (snd (sdmmc_init (Some sample_card) 3
      \<lparr>sm_card = None, sm_first_block = 0, sm_block_count = 0, sm_block_size = 0\<rparr>))) [5, 6] (- 3) (zeroes 512) 1 =
    (ESP_ERR_INVALID_ARG, [5, 6])"
proof -
  let ?img = "\<lambda>c. take 4096 (c @ zeroes 4096)"
  have len: "length (?img c) = 4096" for c by (simp only: length_take length_append length_zeroes)
  have same: "?img (put (?img c) pos src) = put (?img c) pos src" for c pos src
    using len by (simp only: take_append length_put len) simp
  have "card_image sample_driver (nat (sd_sector_size sample_card)) (nat (sd_capacity sample_card)) ?img"
    by (simp add: card_image_def sample_driver_def sample_card_def len same del: take_append)
  moreover have "sdmmc_init (Some sample_card) 3 \<lparr>sm_card = None, sm_first_block = 0, sm_block_count = 0, sm_block_size = 0\<rparr> =
      (ESP_OK, snd (sdmmc_init (Some sample_card) 3 \<lparr>sm_card = None, sm_first_block = 0, sm_block_count = 0, sm_block_size = 0\<rparr>))"
    by (simp add: sdmmc_init_def sample_card_def)
  ultimately show ?thesis
    using sdmmc_refines_block_device [of sample_card 3 _ _ sample_driver ?img] by (simp add: sample_card_def sample_driver_def)
qed

end
