(* ===== verification/Runtime_Memory.thy ===== *)
theory Runtime_Memory
  imports Provisioning
begin

text \<open>
  The runtime memory of an instance (\<open>on9kvdb.cpp\<close>): the budget \<open>validate_init_args\<close> demands, and the
  arena \<open>allocate_runtime_memory\<close> carves into the fixed structures, an optional index cache and the
  scratch memory. Addresses and sizes are natural numbers; the sizes and alignments of the structures are
  decided by the compiler and are a parameter, and so is what the allocator of the platform returns. The address 0
  is the null pointer.
\<close>

section \<open>Sizes\<close>

record struct_layout =
  sl_size :: nat
  sl_align :: nat

record memory_layout =
  ml_namespace_slot :: struct_layout
  ml_handle_slot :: struct_layout
  ml_transaction_slot :: struct_layout
  ml_memtable_bucket :: struct_layout
  ml_key_filter_slot :: struct_layout
  ml_value_reader_slot :: struct_layout
  ml_value_writer_slot :: struct_layout
  ml_index_cache_slot :: struct_layout
  ml_u64_align :: nat
  ml_cursor_size :: nat
  ml_manifest_size :: nat
  ml_value_ref_size :: nat

definition internal_io_bytes :: "config \<Rightarrow> nat" where
  "internal_io_bytes cfg = wal_frame_size * (3 + unat (cfg_max_value_readers cfg))"

definition table_sort_bytes :: "config \<Rightarrow> nat" where
  "table_sort_bytes cfg = unat (cfg_memtable_entry_count cfg) * 4"

definition manifest_scratch_bytes :: "memory_layout \<Rightarrow> nat" where
  "manifest_scratch_bytes ml =
     (ml_manifest_size ml + 15) div 16 * 16 + ml_manifest_size ml + max_transaction_mutations * ml_value_ref_size ml"

definition minimum_future_scratch_size :: "memory_layout \<Rightarrow> config \<Rightarrow> nat" where
  "minimum_future_scratch_size ml cfg =
     (let compaction_bytes = table_sort_bytes cfg + 2 * unat (cfg_sstable_block_size cfg) +
            unat (cfg_sstable_count cfg) div 2 * ml_cursor_size ml in
      if compaction_bytes > manifest_scratch_bytes ml then compaction_bytes else manifest_scratch_bytes ml)"

definition minimum_runtime_memory_budget :: "memory_layout \<Rightarrow> config \<Rightarrow> nat" where
  "minimum_runtime_memory_budget ml cfg =
     (let array = (\<lambda>l n. (sl_align l - 1) + sl_size l * n);
          buffer = (\<lambda>n. (ml_u64_align ml - 1) + n);
          arena_bytes =
            array (ml_namespace_slot ml) (unat (cfg_max_namespaces cfg)) +
            array (ml_handle_slot ml) (unat (cfg_max_open_handles cfg)) +
            array (ml_transaction_slot ml) 1 +
            array (ml_value_reader_slot ml) (unat (cfg_max_value_readers cfg)) +
            array (ml_value_writer_slot ml) 1 +
            array (ml_memtable_bucket ml) (unat (cfg_memtable_entry_count cfg)) +
            buffer (unat (cfg_transaction_staging_size cfg) + transaction_recovery_overhead) +
            buffer (unat (cfg_memtable_data_size cfg)) +
            array (ml_key_filter_slot ml) (unat (cfg_sstable_count cfg)) +
            buffer (minimum_future_scratch_size ml cfg) in
      internal_io_bytes cfg + arena_bytes)"

definition runtime_memory_budget_max :: nat where
  [format_consts]: "runtime_memory_budget_max = 200 * 1024 - 1"

definition budget_accepted :: "memory_layout \<Rightarrow> config \<Rightarrow> nat \<Rightarrow> bool" where
  "budget_accepted ml cfg budget \<longleftrightarrow>
     minimum_runtime_memory_budget ml cfg \<le> budget \<and> budget \<le> runtime_memory_budget_max"

section \<open>Carving\<close>

text \<open>
  The result is the address of the block, and the cursor and the room behind it. Rounding up to a power
  of two, which the code does with a mask, is written with a division.
\<close>

definition align_up :: "nat \<Rightarrow> nat \<Rightarrow> nat" where
  "align_up cursor alignment = (cursor + alignment - 1) div alignment * alignment"

definition carve_arena :: "nat \<Rightarrow> nat \<Rightarrow> nat \<Rightarrow> nat \<Rightarrow> (nat \<times> nat \<times> nat) option" where
  "carve_arena cursor remaining alignment n =
     (if cursor = 0 \<or> alignment = 0 \<or> alignment AND (alignment - 1) \<noteq> 0 then None
      else
        let aligned = align_up cursor alignment; padding = aligned - cursor in
        if padding > remaining \<or> n > remaining - padding then None
        else Some (aligned, cursor + padding + n, remaining - (padding + n)))"

fun carve_all :: "(nat \<times> nat) list \<Rightarrow> nat \<Rightarrow> nat \<Rightarrow> (nat list \<times> nat \<times> nat) option" where
  "carve_all [] cursor remaining = Some ([], cursor, remaining)"
| "carve_all ((alignment, n) # requests) cursor remaining = do {
     (block, cursor, remaining) \<leftarrow> carve_arena cursor remaining alignment n;
     (blocks, cursor, remaining) \<leftarrow> carve_all requests cursor remaining;
     Some (block # blocks, cursor, remaining) }"

definition array_request :: "struct_layout \<Rightarrow> nat \<Rightarrow> nat \<times> nat" where
  "array_request l n = (sl_align l, sl_size l * n)"

definition mandatory_requests :: "memory_layout \<Rightarrow> config \<Rightarrow> (nat \<times> nat) list" where
  "mandatory_requests ml cfg =
     [array_request (ml_namespace_slot ml) (unat (cfg_max_namespaces cfg)),
      array_request (ml_handle_slot ml) (unat (cfg_max_open_handles cfg)),
      array_request (ml_transaction_slot ml) 1,
      array_request (ml_memtable_bucket ml) (unat (cfg_memtable_entry_count cfg)),
      (ml_u64_align ml, unat (cfg_transaction_staging_size cfg) + transaction_recovery_overhead),
      (ml_u64_align ml, unat (cfg_memtable_data_size cfg)),
      array_request (ml_key_filter_slot ml) (unat (cfg_sstable_count cfg)),
      array_request (ml_value_reader_slot ml) (unat (cfg_max_value_readers cfg)),
      array_request (ml_value_writer_slot ml) 1]"

definition optional_requests :: "memory_layout \<Rightarrow> config \<Rightarrow> (nat \<times> nat) list" where
  "optional_requests ml cfg =
     [array_request (ml_index_cache_slot ml) (unat (cfg_sstable_count cfg)),
      (ml_u64_align ml, unat (cfg_inline_value_size cfg))]"

record runtime_arena =
  ra_blocks :: "nat list"
  ra_optional :: "nat list"  \<comment> \<open>empty, or the index cache and the lookup buffer\<close>
  ra_scratch :: nat
  ra_scratch_size :: nat

definition carve_runtime :: "memory_layout \<Rightarrow> config \<Rightarrow> nat \<Rightarrow> nat \<Rightarrow> runtime_arena option" where
  "carve_runtime ml cfg arena arena_size = do {
     (blocks, cursor, remaining) \<leftarrow> carve_all (mandatory_requests ml cfg) arena arena_size;
     let (optional, cursor, remaining) =
       (case carve_all (optional_requests ml cfg) cursor remaining of
          Some (bs, c, r) \<Rightarrow> if r \<ge> minimum_future_scratch_size ml cfg then (bs, c, r) else ([], cursor, remaining)
        | None \<Rightarrow> ([], cursor, remaining));
     (scratch, cursor, remaining) \<leftarrow> carve_arena cursor remaining (ml_u64_align ml) 0;
     if remaining < minimum_future_scratch_size ml cfg then None
     else Some \<lparr>ra_blocks = blocks, ra_optional = optional, ra_scratch = scratch, ra_scratch_size = remaining\<rparr> }"

text \<open>
  The allocation: \<open>io_memory\<close> and \<open>arena\<close> are the addresses the allocator returns, null when it has no room;
  \<open>psram_missing\<close> says that the build requires PSRAM and has none.
\<close>

definition allocate_runtime_memory ::
  "memory_layout \<Rightarrow> config \<Rightarrow> nat \<Rightarrow> bool \<Rightarrow> nat \<Rightarrow> nat \<Rightarrow> esp_err + runtime_arena" where
  "allocate_runtime_memory ml cfg budget psram_missing io_memory arena =
     (if budget \<le> internal_io_bytes cfg then Inl ESP_ERR_INVALID_STATE
      else if io_memory = 0 then Inl ESP_ERR_NO_MEM
      else if psram_missing then Inl ESP_ERR_NOT_SUPPORTED
      else if arena = 0 then Inl ESP_ERR_NO_MEM
      else
        (case carve_runtime ml cfg arena (budget - internal_io_bytes cfg) of
           None \<Rightarrow> Inl ESP_ERR_INVALID_SIZE
         | Some runtime \<Rightarrow> Inr runtime))"

text \<open>What the start of an instance sees of it.\<close>

definition allocation_of :: "esp_err + runtime_arena \<Rightarrow> allocation" where
  "allocation_of r = (case r of Inl e \<Rightarrow> Refused e | Inr runtime \<Rightarrow> Allocated (ra_optional runtime \<noteq> []))"

section \<open>Blocks\<close>

definition padded_size :: "nat \<times> nat \<Rightarrow> nat" where
  "padded_size request = (fst request - 1) + snd request"

definition power_of_two :: "nat \<Rightarrow> bool" where
  "power_of_two n \<longleftrightarrow> n \<noteq> 0 \<and> n AND (n - 1) = 0"

lemma align_up:
  assumes "0 < a"
  shows "c \<le> align_up c a" "align_up c a \<le> c + (a - 1)" "a dvd align_up c a" "a dvd c \<Longrightarrow> align_up c a = c"
proof -
  have "align_up c a = (c + a - 1) - (c + a - 1) mod a" by (simp add: align_up_def minus_mod_eq_div_mult)
  moreover have "(c + a - 1) mod a \<le> a - 1" using assms mod_less_divisor [OF assms, of "c + a - 1"] by linarith
  ultimately show 1: "c \<le> align_up c a" "align_up c a \<le> c + (a - 1)" using assms by linarith+
  show 2: "a dvd align_up c a" by (simp add: align_up_def)
  assume "a dvd c"
  then have "a dvd align_up c a - c" using 2 by (rule dvd_diff_nat [rotated])
  moreover have "align_up c a - c < a" using 1 assms by linarith
  ultimately show "align_up c a = c" using 1(1) by (metis dvd_imp_le le_antisym linorder_not_less neq0_conv diff_is_0_eq)
qed

lemma carve_arena_Some:
  assumes "carve_arena c r a n = Some (b, c', r')"
  shows "c \<le> b" "b + n = c'" "c' + r' = c + r" "a dvd b" "b = align_up c a" "0 < a"
proof -
  have a: "0 < a" and b: "b = align_up c a" and fits: "b - c \<le> r" "n \<le> r - (b - c)"
    and rest: "c' = c + (b - c) + n" "r' = r - ((b - c) + n)"
    using assms by (auto simp: carve_arena_def Let_def split: if_splits)
  note b' = align_up [OF a, of c, folded b]
  show "c \<le> b" "a dvd b" "b = align_up c a" "0 < a" by (fact b' b a)+
  show "b + n = c'" "c' + r' = c + r" using b'(1) fits rest by linarith+
qed

lemma carve_arena_fits:
  assumes a: "power_of_two a" and fits: "align_up c a - c + n \<le> r" and c: "0 < c"
  shows "\<exists>b c' r'. carve_arena c r a n = Some (b, c', r')"
  using assms by (auto simp: carve_arena_def Let_def power_of_two_def)

lemma carve_arena_fits_padded:
  assumes a: "power_of_two a" and fits: "(a - 1) + n \<le> r" and c: "0 < c"
  shows "\<exists>b c' r'. carve_arena c r a n = Some (b, c', r') \<and> r \<le> r' + (a - 1) + n"
proof -
  have a0: "0 < a" using a by (simp add: power_of_two_def)
  have "align_up c a - c + n \<le> r" using align_up(1,2) [OF a0, of c] fits by linarith
  from carve_arena_fits [OF a this c] obtain b c' r' where 1: "carve_arena c r a n = Some (b, c', r')" by blast
  have "r \<le> r' + (a - 1) + n" using carve_arena_Some(1-3,5) [OF 1] align_up(2) [OF a0, of c] by linarith
  with 1 show ?thesis by blast
qed

lemma carve_all_fits:
  "\<forall>request \<in> set requests. power_of_two (fst request) \<Longrightarrow> sum_list (map padded_size requests) \<le> r \<Longrightarrow> 0 < c \<Longrightarrow>
     \<exists>bs c' r'. carve_all requests c r = Some (bs, c', r') \<and> r \<le> r' + sum_list (map padded_size requests)"
proof (induction requests arbitrary: c r)
  case (Cons request requests)
  obtain a n where [simp]: "request = (a, n)" by fastforce
  have "power_of_two a" "(a - 1) + n \<le> r" using Cons.prems by (simp_all add: padded_size_def)
  then obtain b c1 r1 where 1: "carve_arena c r a n = Some (b, c1, r1)" "r \<le> r1 + (a - 1) + n"
    using carve_arena_fits_padded Cons.prems(3) by blast
  have c1: "0 < c1" using carve_arena_Some(1,2) [OF 1(1)] Cons.prems(3) by linarith
  have "padded_size request + sum_list (map padded_size requests) \<le> r" "padded_size request = (a - 1) + n"
    using Cons.prems(2) by (simp_all add: padded_size_def [of "(a, n)"])
  then have "sum_list (map padded_size requests) \<le> r1" using 1(2) by linarith
  then obtain bs c2 r2 where "carve_all requests c1 r1 = Some (bs, c2, r2)" "r1 \<le> r2 + sum_list (map padded_size requests)"
    using Cons.IH [of r1 c1] Cons.prems(1) c1 by auto
  moreover from this 1 have "r \<le> r2 + (padded_size request + sum_list (map padded_size requests))"
    by (simp add: padded_size_def [of "(a, n)"])
  ultimately show ?case using 1 by simp
qed simp

text \<open>The blocks lie one behind the other, aligned, between the old and the new cursor.\<close>

definition blocks_in :: "(nat \<times> nat) list \<Rightarrow> nat list \<Rightarrow> nat \<Rightarrow> nat \<Rightarrow> bool" where
  "blocks_in requests blocks first bound \<longleftrightarrow>
     length blocks = length requests \<and>
     (\<forall>i < length requests. fst (requests ! i) dvd blocks ! i \<and> first \<le> blocks ! i \<and>
        blocks ! i + snd (requests ! i) \<le> bound) \<and>
     (\<forall>i j. i < j \<longrightarrow> j < length requests \<longrightarrow> blocks ! i + snd (requests ! i) \<le> blocks ! j)"

lemma carve_all_blocks:
  "carve_all requests c r = Some (bs, c', r') \<Longrightarrow> c \<le> c' \<and> c' + r' = c + r \<and> blocks_in requests bs c c'"
proof (induction requests arbitrary: c r bs)
  case (Cons request requests)
  obtain a n where [simp]: "request = (a, n)" by fastforce
  obtain b c1 r1 bs1 where 1: "carve_arena c r a n = Some (b, c1, r1)" "carve_all requests c1 r1 = Some (bs1, c', r')"
    "bs = b # bs1"
    using Cons.prems by auto
  note b = carve_arena_Some [OF 1(1)]
  note bs = Cons.IH [OF 1(2)]
  have "blocks_in (request # requests) (b # bs1) c c'"
    unfolding blocks_in_def
  proof (intro conjI allI impI)
    show "length (b # bs1) = length (request # requests)" using bs by (simp add: blocks_in_def)
    fix i assume i: "i < length (request # requests)"
    show "fst ((request # requests) ! i) dvd (b # bs1) ! i" "c \<le> (b # bs1) ! i"
      "(b # bs1) ! i + snd ((request # requests) ! i) \<le> c'"
      using i b bs by (cases i; auto simp: blocks_in_def dest: le_trans [rotated])+
  next
    fix i j assume "i < j" "j < length (request # requests)"
    then show "(b # bs1) ! i + snd ((request # requests) ! i) \<le> (b # bs1) ! j"
      using b bs by (cases i; cases j) (auto simp: blocks_in_def)
  qed
  then show ?case using b bs 1(3) by simp
qed (auto simp: blocks_in_def)

section \<open>Properties\<close>

definition layout_ok :: "memory_layout \<Rightarrow> bool" where
  "layout_ok ml \<longleftrightarrow> power_of_two (ml_u64_align ml) \<and>
     list_all (\<lambda>l. power_of_two (sl_align l))
       [ml_namespace_slot ml, ml_handle_slot ml, ml_transaction_slot ml, ml_memtable_bucket ml, ml_key_filter_slot ml,
        ml_value_reader_slot ml, ml_value_writer_slot ml, ml_index_cache_slot ml]"

lemma mandatory_budget:
  "minimum_runtime_memory_budget ml cfg =
     internal_io_bytes cfg + sum_list (map padded_size (mandatory_requests ml cfg)) + (ml_u64_align ml - 1) +
     minimum_future_scratch_size ml cfg"
  by (simp add: minimum_runtime_memory_budget_def mandatory_requests_def padded_size_def array_request_def Let_def)

lemma mandatory_alignments: "layout_ok ml \<Longrightarrow> \<forall>request \<in> set (mandatory_requests ml cfg). power_of_two (fst request)"
  by (simp add: layout_ok_def mandatory_requests_def array_request_def)

lemma mandatory_need: "0 < sum_list (map padded_size (mandatory_requests ml cfg))"
proof -
  have "0 < transaction_recovery_overhead" by (simp add: transaction_recovery_overhead_def format_consts)
  then show ?thesis by (simp add: mandatory_requests_def padded_size_def del: transaction_recovery_overhead_def)
qed

lemma carve_optional:
  assumes "carve_all (optional_requests ml cfg) c r = Some (bs, c', r')"
  shows "\<exists>c1 r1 s. carve_arena c1 r1 (ml_u64_align ml) (unat (cfg_inline_value_size cfg)) = Some (s, c', r')"
  using assms by (auto simp: optional_requests_def array_request_def split: bind_splits)

text \<open>C27: Bounds. In a build whose inline value size is a multiple of the alignment of 64-bit words, as the
  default is, validation and allocation agree: with any budget that the start accepts, whatever addresses the
  allocator returns, the arena is large enough for every structure with its padding and for the scratch memory of a
  compaction, so the allocation never fails for want of room.\<close>

theorem accepted_budget_allocates:
  assumes "layout_ok ml" "budget_accepted ml cfg budget" "io_memory \<noteq> 0" "address \<noteq> 0" "\<not> psram_missing"
    and "ml_u64_align ml dvd unat (cfg_inline_value_size cfg)"
  shows "\<exists>runtime. allocate_runtime_memory ml cfg budget psram_missing io_memory address = Inr runtime \<and>
    minimum_future_scratch_size ml cfg \<le> ra_scratch_size runtime"
proof -
  let ?need = "sum_list (map padded_size (mandatory_requests ml cfg))" and ?scratch = "minimum_future_scratch_size ml cfg"
  let ?u = "ml_u64_align ml" and ?room = "budget - internal_io_bytes cfg"
  have u: "power_of_two ?u" using assms(1) by (simp add: layout_ok_def)
  then have u0: "0 < ?u" by (simp add: power_of_two_def)
  have "0 < ?need" by (rule mandatory_need)
  then have room: "?need + (?u - 1) + ?scratch \<le> ?room" "internal_io_bytes cfg < budget"
  proof -
    have "internal_io_bytes cfg + ?need + (?u - 1) + ?scratch \<le> budget"
      using assms(2) unfolding budget_accepted_def mandatory_budget by blast
    then show "?need + (?u - 1) + ?scratch \<le> ?room" "internal_io_bytes cfg < budget"
      using \<open>0 < ?need\<close> by linarith+
  qed
  have "?need \<le> ?room" using room(1) by linarith
  from carve_all_fits [OF mandatory_alignments [OF assms(1)] this, of address] assms(4)
  obtain bs c1 r1 where 1: "carve_all (mandatory_requests ml cfg) address ?room = Some (bs, c1, r1)" "?room \<le> r1 + ?need"
    by blast
  have c1: "0 < c1" using carve_all_blocks [OF 1(1)] assms(4) by linarith
  have r1: "(?u - 1) + ?scratch \<le> r1" using 1(2) room(1) by linarith
  define choice where "choice = (case carve_all (optional_requests ml cfg) c1 r1 of
      Some (bs, c, r) \<Rightarrow> if r \<ge> ?scratch then (bs, c, r) else ([], c1, r1) | None \<Rightarrow> ([], c1, r1))"
  obtain opt c2 r2 where 2: "choice = (opt, c2, r2)" by (cases choice) blast
  have c2: "0 < c2" using 2 c1 by (auto simp: choice_def split: option.splits prod.splits if_splits dest!: carve_all_blocks)
  have r2: "(?u - 1) + ?scratch \<le> r2 \<or> (?u dvd c2 \<and> ?scratch \<le> r2)"
  proof (cases "(opt, c2, r2) = ([], c1, r1)")
    case False
    then have opt: "carve_all (optional_requests ml cfg) c1 r1 = Some (opt, c2, r2)" "?scratch \<le> r2"
      using 2 by (simp_all add: choice_def split: option.splits prod.splits if_splits)
    obtain b c s where "carve_arena b c ?u (unat (cfg_inline_value_size cfg)) = Some (s, c2, r2)"
      using carve_optional [OF opt(1)] by blast
    from carve_arena_Some [OF this] have "?u dvd c2" using assms(6) by auto
    then show ?thesis using opt(2) by simp
  qed (use r1 in simp)
  then have fits: "align_up c2 ?u - c2 + ?scratch \<le> r2"
    using align_up(1,2,4) [OF u0, of c2] by auto
  then have "align_up c2 ?u - c2 + 0 \<le> r2" by linarith
  from carve_arena_fits [OF u this c2] obtain s c3 r3 where 3: "carve_arena c2 r2 ?u 0 = Some (s, c3, r3)" by blast
  have "?scratch \<le> r3" using fits carve_arena_Some(1-3,5) [OF 3] by linarith
  then have "carve_runtime ml cfg address ?room =
      Some \<lparr>ra_blocks = bs, ra_optional = opt, ra_scratch = s, ra_scratch_size = r3\<rparr>"
    unfolding carve_runtime_def 1(1) choice_def [symmetric] by (simp add: choice_def [symmetric] 2 3)
  then show ?thesis
    using assms(3-5) room(2) \<open>?scratch \<le> r3\<close> by (simp add: allocate_runtime_memory_def not_le)
qed

lemma blocks_in_append:
  assumes "blocks_in xs as a b" "blocks_in ys bs b c" "a \<le> b" "b \<le> c"
  shows "blocks_in (xs @ ys) (as @ bs) a c"
proof -
  have len: "length as = length xs" "length bs = length ys" using assms(1,2) by (simp_all add: blocks_in_def)
  have xs: "fst (xs ! i) dvd as ! i \<and> a \<le> as ! i \<and> as ! i + snd (xs ! i) \<le> b" if "i < length xs" for i
    using assms(1) that by (simp add: blocks_in_def)
  have ys: "fst (ys ! i) dvd bs ! i \<and> b \<le> bs ! i \<and> bs ! i + snd (ys ! i) \<le> c" if "i < length ys" for i
    using assms(2) that by (simp add: blocks_in_def)
  have xs2: "as ! i + snd (xs ! i) \<le> as ! j" if "i < j" "j < length xs" for i j
    using assms(1) that by (simp add: blocks_in_def)
  have ys2: "bs ! i + snd (ys ! i) \<le> bs ! j" if "i < j" "j < length ys" for i j
    using assms(2) that by (simp add: blocks_in_def)
  show ?thesis
    unfolding blocks_in_def
  proof (intro conjI allI impI)
    fix i assume "i < length (xs @ ys)"
    then have i: "i < length xs \<or> i - length xs < length ys" by auto
    show "fst ((xs @ ys) ! i) dvd (as @ bs) ! i" using i xs [of i] ys [of "i - length xs"] by (auto simp: nth_append len)
    show "a \<le> (as @ bs) ! i" using i xs [of i] ys [of "i - length xs"] assms(3) by (auto simp: nth_append len)
    show "(as @ bs) ! i + snd ((xs @ ys) ! i) \<le> c"
      using i xs [of i] ys [of "i - length xs"] assms(4) by (auto simp: nth_append len)
  next
    fix i j assume ij: "i < j" "j < length (xs @ ys)"
    consider "j < length xs" | "i < length xs" "length xs \<le> j" | "length xs \<le> i" by linarith
    then show "(as @ bs) ! i + snd ((xs @ ys) ! i) \<le> (as @ bs) ! j"
    proof cases
      case 1
      then show ?thesis using xs2 [OF ij(1)] ij by (simp add: nth_append len)
    next
      case 2
      then have "j - length xs < length ys" using ij(2) by (simp add: less_diff_conv2)
      from xs [OF 2(1)] ys [OF this] have "as ! i + snd (xs ! i) \<le> bs ! (j - length xs)" by linarith
      then show ?thesis using 2 by (simp add: nth_append len)
    next
      case 3
      then show ?thesis using ys2 [of "i - length xs" "j - length xs"] ij by (simp add: nth_append len)
    qed
  qed (simp add: len)
qed

text \<open>The sizes and alignments of all blocks of an arena, the optional ones where they were carved.\<close>

definition runtime_requests :: "memory_layout \<Rightarrow> config \<Rightarrow> runtime_arena \<Rightarrow> (nat \<times> nat) list" where
  "runtime_requests ml cfg runtime =
     mandatory_requests ml cfg @ (if ra_optional runtime = [] then [] else optional_requests ml cfg)"

text \<open>C28: Safety. Whatever address and size the arena has, the structures carved out of it are aligned, lie inside it
  and do not overlap; the scratch memory starts behind the last of them, is aligned for 64-bit words, ends with
  the arena and is never smaller than a flush or a compaction needs.\<close>

theorem runtime_blocks_disjoint:
  assumes "carve_runtime ml cfg arena arena_size = Some runtime"
  shows "blocks_in (runtime_requests ml cfg runtime) (ra_blocks runtime @ ra_optional runtime) arena (ra_scratch runtime) \<and>
    ml_u64_align ml dvd ra_scratch runtime \<and>
    ra_scratch runtime + ra_scratch_size runtime = arena + arena_size \<and>
    minimum_future_scratch_size ml cfg \<le> ra_scratch_size runtime"
proof -
  let ?scratch = "minimum_future_scratch_size ml cfg"
  obtain bs c1 r1 where 1: "carve_all (mandatory_requests ml cfg) arena arena_size = Some (bs, c1, r1)"
    using assms by (auto simp: carve_runtime_def split: bind_splits)
  define choice where "choice = (case carve_all (optional_requests ml cfg) c1 r1 of
      Some (bs, c, r) \<Rightarrow> if r \<ge> ?scratch then (bs, c, r) else ([], c1, r1) | None \<Rightarrow> ([], c1, r1))"
  obtain opt c2 r2 where 2: "choice = (opt, c2, r2)" by (cases choice) blast
  obtain s c3 r3 where 3: "carve_arena c2 r2 (ml_u64_align ml) 0 = Some (s, c3, r3)" and fits: "?scratch \<le> r3"
    and runtime: "runtime = \<lparr>ra_blocks = bs, ra_optional = opt, ra_scratch = s, ra_scratch_size = r3\<rparr>"
    using assms unfolding carve_runtime_def 1 choice_def [symmetric]
    by (auto simp: choice_def [symmetric] 2 split: bind_splits if_splits)
  note b1 = carve_all_blocks [OF 1] and b3 = carve_arena_Some [OF 3]
  have b2: "c1 \<le> c2 \<and> c2 + r2 = c1 + r1 \<and>
      blocks_in (if opt = [] then [] else optional_requests ml cfg) opt c1 c2"
  proof (cases "carve_all (optional_requests ml cfg) c1 r1 = Some (opt, c2, r2)")
    case True
    note b = carve_all_blocks [OF True]
    have "opt \<noteq> []" using b by (auto simp: blocks_in_def optional_requests_def)
    then show ?thesis using b by simp
  next
    case False
    then have "opt = []" "c2 = c1" "r2 = r1" using 2 by (auto simp: choice_def split: option.splits prod.splits if_splits)
    then show ?thesis by (simp add: blocks_in_def)
  qed
  have "blocks_in (mandatory_requests ml cfg @ (if opt = [] then [] else optional_requests ml cfg)) (bs @ opt) arena c2"
    using blocks_in_append [of _ bs arena c1 _ opt c2] b1 b2 by blast
  moreover have "blocks_in xs as a c2 \<Longrightarrow> blocks_in xs as a s" for xs as a
    using b3(1) by (auto simp: blocks_in_def intro: le_trans)
  ultimately show ?thesis
    using b1 b2 b3(1-4) fits by (simp add: runtime runtime_requests_def)
qed

section \<open>A concrete layout\<close>

definition eight_bytes :: "nat \<Rightarrow> struct_layout" where
  "eight_bytes n = \<lparr>sl_size = n, sl_align = 8\<rparr>"

definition sample_layout :: memory_layout where
  "sample_layout = \<lparr>ml_namespace_slot = eight_bytes 24, ml_handle_slot = eight_bytes 40,
     ml_transaction_slot = eight_bytes 4000, ml_memtable_bucket = eight_bytes 8, ml_key_filter_slot = eight_bytes 528,
     ml_value_reader_slot = eight_bytes 128, ml_value_writer_slot = eight_bytes 256,
     ml_index_cache_slot = eight_bytes 64, ml_u64_align = 8, ml_cursor_size = 512, ml_manifest_size = 4096,
     ml_value_ref_size = 40\<rparr>"

lemma eight_power_of_two: "power_of_two 8"
  by (simp add: power_of_two_def)

lemma sample_layout_ok: "layout_ok sample_layout"
  using eight_power_of_two by (simp add: layout_ok_def sample_layout_def eight_bytes_def)

lemma sample_layout_numbers:
  "internal_io_bytes (host_config\<lparr>cfg_inline_value_size := v\<rparr>) = 20480"
  "minimum_future_scratch_size sample_layout (host_config\<lparr>cfg_inline_value_size := v\<rparr>) = 33856"
  "mandatory_requests sample_layout (host_config\<lparr>cfg_inline_value_size := v\<rparr>) =
     [(8, 192), (8, 160), (8, 4000), (8, 128), (8, 9928), (8, 8192), (8, 2112), (8, 256), (8, 256)]"
  "optional_requests sample_layout (host_config\<lparr>cfg_inline_value_size := v\<rparr>) = [(8, 256), (8, unat v)]"
  by (simp_all add: internal_io_bytes_def minimum_future_scratch_size_def manifest_scratch_bytes_def table_sort_bytes_def
      mandatory_requests_def optional_requests_def array_request_def sample_layout_def eight_bytes_def host_config_def
      format_consts Let_def)

lemma sample_budget_accepted:
  "79630 \<le> budget \<Longrightarrow> budget < 204800 \<Longrightarrow> budget_accepted sample_layout (host_config\<lparr>cfg_inline_value_size := v\<rparr>) budget"
  unfolding budget_accepted_def mandatory_budget sample_layout_numbers
  by (simp add: padded_size_def runtime_memory_budget_max_def sample_layout_def)

lemma accepted_budget_allocates_witness:
  "\<exists>runtime. allocate_runtime_memory sample_layout (host_config\<lparr>cfg_inline_value_size := 1024\<rparr>) 79630 False 64 1001 = Inr runtime \<and>
     minimum_future_scratch_size sample_layout (host_config\<lparr>cfg_inline_value_size := 1024\<rparr>) \<le> ra_scratch_size runtime"
  by (rule accepted_budget_allocates [OF sample_layout_ok sample_budget_accepted])
    (simp_all add: sample_layout_def)

lemma sample_carving:
  "carve_runtime sample_layout (host_config\<lparr>cfg_inline_value_size := 1024\<rparr>) 1001 63000 =
     Some \<lparr>ra_blocks = [1008, 1200, 1360, 5360, 5488, 15416, 23608, 25720, 25976], ra_optional = [26232, 26488],
       ra_scratch = 27512, ra_scratch_size = 36489\<rparr>"
  unfolding sample_layout_numbers carve_runtime_def
  by (simp add: carve_arena_def align_up_def sample_layout_def Let_def)

lemma runtime_blocks_disjoint_witness:
  "blocks_in (mandatory_requests sample_layout (host_config\<lparr>cfg_inline_value_size := 1024\<rparr>) @
       optional_requests sample_layout (host_config\<lparr>cfg_inline_value_size := 1024\<rparr>))
     [1008, 1200, 1360, 5360, 5488, 15416, 23608, 25720, 25976, 26232, 26488] 1001 27512"
  using runtime_blocks_disjoint [OF sample_carving] by (simp add: runtime_requests_def)

section \<open>The padding of the scratch memory\<close>

text \<open>Carving uses the same bytes of every larger arena.\<close>

lemma carve_arena_exact:
  assumes "carve_arena c r a n = Some (b, c', r')"
  shows "carve_arena c (c' - c + x) a n = Some (b, c', x)"
proof -
  note carved = carve_arena_Some [OF assms]
  have "c \<noteq> 0" "a \<noteq> 0" "a AND (a - 1) = 0" using assms by (auto simp: carve_arena_def split: if_splits)
  moreover have "b - c \<le> c' - c + x" "n \<le> c' - c + x - (b - c)" "c + (b - c) + n = c'" "c' - c + x - ((b - c) + n) = x"
    using carved(1,2) by linarith+
  ultimately show ?thesis using carved(5) by (simp add: carve_arena_def Let_def)
qed

lemma carve_all_exact:
  "carve_all requests c r = Some (bs, c', r') \<Longrightarrow>
     carve_all requests c (c' - c + x) = Some (bs, c', x) \<and> c + sum_list (map snd requests) \<le> c'"
proof (induction requests arbitrary: c r bs)
  case (Cons request requests)
  obtain a n where [simp]: "request = (a, n)" by fastforce
  obtain b c1 r1 bs1 where 1: "carve_arena c r a n = Some (b, c1, r1)" "carve_all requests c1 r1 = Some (bs1, c', r')"
    "bs = b # bs1"
    using Cons.prems by auto
  note b = carve_arena_Some [OF 1(1)] and rest = Cons.IH [OF 1(2)]
  define y where "y = c' - c1 + x"
  have "c' - c + x = c1 - c + y" using b(1,2) carve_all_blocks [OF 1(2)] y_def by linarith
  then have "carve_arena c (c' - c + x) a n = Some (b, c1, y)" using carve_arena_exact [OF 1(1)] by metis
  moreover have "c + (n + sum_list (map snd requests)) \<le> c'" using b(1,2) rest by linarith
  ultimately show ?case using rest [folded y_def] 1(3) by simp
qed simp

lemma optional_alignments: "layout_ok ml \<Longrightarrow> \<forall>request \<in> set (optional_requests ml cfg). power_of_two (fst request)"
  by (simp add: layout_ok_def optional_requests_def array_request_def)

text \<open>Bytes that carving the mandatory and the optional structures uses at an address.\<close>

lemma carve_both:
  assumes "layout_ok ml" "address \<noteq> 0"
  obtains bs c1 opt c2 where
    "\<And>x. carve_all (mandatory_requests ml cfg) address (c2 - address + x) = Some (bs, c1, c2 - c1 + x)"
    "\<And>x. carve_all (optional_requests ml cfg) c1 (c2 - c1 + x) = Some (opt, c2, x)"
    "address + sum_list (map snd (mandatory_requests ml cfg)) + sum_list (map snd (optional_requests ml cfg)) \<le> c2"
    "c2 \<le> address + sum_list (map padded_size (mandatory_requests ml cfg)) + sum_list (map padded_size (optional_requests ml cfg))"
proof -
  let ?m = "sum_list (map padded_size (mandatory_requests ml cfg))" and ?o = "sum_list (map padded_size (optional_requests ml cfg))"
  obtain bs c1 r1 where 1: "carve_all (mandatory_requests ml cfg) address (?m + ?o) = Some (bs, c1, r1)" "?m + ?o \<le> r1 + ?m"
    using carve_all_fits [OF mandatory_alignments [OF assms(1)], of cfg "?m + ?o" address] assms(2) by auto
  note m = carve_all_blocks [OF 1(1)] carve_all_exact [OF 1(1)]
  have "?o \<le> r1" "0 < c1" using 1(2) m(1) assms(2) by linarith+
  then obtain opt c2 r2 where 2: "carve_all (optional_requests ml cfg) c1 r1 = Some (opt, c2, r2)"
    using carve_all_fits [OF optional_alignments [OF assms(1)], of cfg r1 c1] by auto
  note o = carve_all_blocks [OF 2] carve_all_exact [OF 2]
  show ?thesis
  proof (rule that)
    show "carve_all (optional_requests ml cfg) c1 (c2 - c1 + x) = Some (opt, c2, x)" for x using o(2) by blast
    show "carve_all (mandatory_requests ml cfg) address (c2 - address + x) = Some (bs, c1, c2 - c1 + x)" for x
    proof -
      have "c2 - address + x = c1 - address + (c2 - c1 + x)" using m(1) o(1) by linarith
      then show ?thesis using m(2) by metis
    qed
    show "address + sum_list (map snd (mandatory_requests ml cfg)) + sum_list (map snd (optional_requests ml cfg)) \<le> c2"
      using m(2) o(2) [of 0] by (metis add_le_mono1 le_trans)
    show "c2 \<le> address + ?m + ?o" using m(1) o(1) by linarith
  qed
qed

lemma padded_sum: "sum_list (map padded_size requests) = sum_list (map (\<lambda>r. fst r - 1) requests) + sum_list (map snd requests)"
  by (induction requests) (simp_all add: padded_size_def)

text \<open>C40: Error. In the other builds validation and allocation disagree: when the inline value size is not a multiple
  of the alignment of 64-bit words, the optional index cache and lookup buffer are at least as large as the padding in
  the minimum budget, and the largest budget has room for them, there is for every address the allocator may return a
  budget that the start accepts and the allocation refuses. With it the optional cache is carved and leaves exactly the minimum of scratch memory, but the
  scratch memory is then padded to its alignment.\<close>

theorem optional_cache_padding_refused:
  assumes layout: "layout_ok ml" and unaligned: "\<not> ml_u64_align ml dvd unat (cfg_inline_value_size cfg)"
    and large: "sum_list (map (\<lambda>request. fst request - 1) (mandatory_requests ml cfg)) + (ml_u64_align ml - 1) \<le>
      sum_list (map snd (optional_requests ml cfg))"
    and room: "minimum_runtime_memory_budget ml cfg + sum_list (map padded_size (optional_requests ml cfg)) \<le> runtime_memory_budget_max"
    and memory: "io_memory \<noteq> 0" "address \<noteq> 0"
  shows "\<exists>budget. budget_accepted ml cfg budget \<and>
    allocate_runtime_memory ml cfg budget False io_memory address = Inl ESP_ERR_INVALID_SIZE"
proof -
  let ?u = "ml_u64_align ml" and ?scratch = "minimum_future_scratch_size ml cfg"
  obtain bs c1 opt c2 where both:
    "\<And>x. carve_all (mandatory_requests ml cfg) address (c2 - address + x) = Some (bs, c1, c2 - c1 + x)"
    "\<And>x. carve_all (optional_requests ml cfg) c1 (c2 - c1 + x) = Some (opt, c2, x)"
    "address + sum_list (map snd (mandatory_requests ml cfg)) + sum_list (map snd (optional_requests ml cfg)) \<le> c2"
    "c2 \<le> address + sum_list (map padded_size (mandatory_requests ml cfg)) + sum_list (map padded_size (optional_requests ml cfg))"
    by (rule carve_both [OF layout memory(2), where cfg = cfg]) (rule that)
  define budget where "budget = internal_io_bytes cfg + (c2 - address) + ?scratch"
  have accepted: "budget_accepted ml cfg budget" "internal_io_bytes cfg < budget"
    using both(3,4) large room mandatory_need [of ml cfg]
    unfolding budget_accepted_def mandatory_budget budget_def padded_sum [of "mandatory_requests ml cfg"] by linarith+
  obtain c s where last: "carve_arena c (c2 - c + ?scratch) ?u (unat (cfg_inline_value_size cfg)) = Some (s, c2, ?scratch)"
    using carve_optional [OF both(2)] carve_arena_exact by blast
  have "\<not> ?u dvd c2" using carve_arena_Some(2,4) [OF last] unaligned dvd_add_right_iff by blast
  then have pad: "c2 < align_up c2 ?u"
    using align_up(1,3) [of ?u c2] layout by (metis layout_ok_def le_neq_implies_less power_of_two_def neq0_conv)
  have scratch: "r < ?scratch" if "carve_arena c2 ?scratch ?u 0 = Some (s', c', r)" for s' c' r
    using carve_arena_Some(2,3,5) [OF that] pad by linarith
  have carved: "carve_runtime ml cfg address (c2 - address + ?scratch) = None"
    unfolding carve_runtime_def both(1) bind.bind_lunit prod.case both(2)
    using scratch by (auto simp: both(2) split: bind_splits)
  have "budget - internal_io_bytes cfg = c2 - address + ?scratch" by (simp add: budget_def)
  then show ?thesis
    using accepted carved memory by (intro exI [of _ budget]) (simp add: allocate_runtime_memory_def not_le)
qed

theorem optional_cache_padding_refused_witness:
  "\<exists>budget. budget_accepted sample_layout (host_config\<lparr>cfg_inline_value_size := 1025\<rparr>) budget \<and>
     allocate_runtime_memory sample_layout (host_config\<lparr>cfg_inline_value_size := 1025\<rparr>) budget False 64 1001 =
       Inl ESP_ERR_INVALID_SIZE"
proof (rule optional_cache_padding_refused [OF sample_layout_ok])
  show "minimum_runtime_memory_budget sample_layout (host_config\<lparr>cfg_inline_value_size := 1025\<rparr>) +
      sum_list (map padded_size (optional_requests sample_layout (host_config\<lparr>cfg_inline_value_size := 1025\<rparr>))) \<le>
      runtime_memory_budget_max"
    unfolding mandatory_budget sample_layout_numbers
    by (simp add: padded_size_def runtime_memory_budget_max_def sample_layout_def)
  show "\<not> ml_u64_align sample_layout dvd unat (cfg_inline_value_size (host_config\<lparr>cfg_inline_value_size := 1025\<rparr>))"
    by (simp add: sample_layout_def)
qed (simp_all add: sample_layout_numbers, simp add: sample_layout_def)

end
