(* ===== verification/Lookup_Errors.thy ===== *)
theory Lookup_Errors
  imports Table_Store
begin

text \<open>
  Errors are errors: if the device never reports a failed read with \<open>ESP_OK\<close>, neither does any lookup.
\<close>

section \<open>Errors of a lookup\<close>

text \<open>A device that fails says so: no read returns \<open>ESP_OK\<close> as its error. Then no lookup does.\<close>

definition honest :: "esp_err + 'a \<Rightarrow> bool" where
  "honest r \<longleftrightarrow> r \<noteq> Inl ESP_OK"

definition errors_reported :: "'d block_device \<Rightarrow> bool" where
  "errors_reported dev \<longleftrightarrow> (\<forall>d start n. honest (bd_read_blocks dev d start n))"

lemma honest_simps [simp]: "honest (Inr x)" "honest (Inl e) \<longleftrightarrow> e \<noteq> ESP_OK"
  by (simp_all add: honest_def)

lemma honest_cases:
  "\<lbrakk>c \<Longrightarrow> honest a; \<not> c \<Longrightarrow> honest b\<rbrakk> \<Longrightarrow> honest (if c then a else b)"
  "\<lbrakk>honest a; \<And>x. honest (f x)\<rbrakk> \<Longrightarrow> honest (case opt of None \<Rightarrow> a | Some x \<Rightarrow> f x)"
  "\<lbrakk>honest r; \<And>e. e \<noteq> ESP_OK \<Longrightarrow> honest (g e); \<And>x. r = Inr x \<Longrightarrow> honest (h x)\<rbrakk> \<Longrightarrow>
     honest (case r of Inl e \<Rightarrow> g e | Inr x \<Rightarrow> h x)"
  "\<lbrakk>\<And>status. honest (g' status); \<And>x. honest (h x)\<rbrakk> \<Longrightarrow> honest (case decoded of Inl status \<Rightarrow> g' status | Inr x \<Rightarrow> h x)"
  "\<lbrakk>honest r; \<And>x. honest (h x)\<rbrakk> \<Longrightarrow> honest (then_read r h)"
  "(\<And>x y. honest (k x y)) \<Longrightarrow> honest (case p of (x, y) \<Rightarrow> k x y)"
  by (auto simp: honest_def then_read_def split: option.split sum.split prod.split)

lemma honest_read_bounced: "errors_reported dev \<Longrightarrow> honest (read_bounced dev d offset n out)"
proof (induction dev d offset n out rule: read_bounced.induct)
  case (1 dev d offset n out)
  then have "honest (bd_read_blocks dev d start k)" for start k by (simp add: errors_reported_def)
  with 1 show ?case
    by (subst read_bounced.simps) (auto simp: Let_def intro!: honest_cases(1,3))
qed

lemma honest_region: "honest (get_storage_region g kind slot)"
proof -
  have some: "honest (case opt of None \<Rightarrow> Inl ESP_ERR_INVALID_SIZE | Some offset \<Rightarrow> Inr (offset, len))" for opt len
    by (intro honest_cases) simp_all
  show ?thesis
    unfolding get_storage_region_def
    by (cases kind; simp only: file_kind.case; intro honest_cases(3) honest_cases(6) some)
      (auto intro: honest_cases(2))
qed

lemma honest_read_table_bytes: "errors_reported dev \<Longrightarrow> honest (read_table_bytes cfg dev slot offset n w)"
  unfolding read_table_bytes_def read_store_def read_storage_bytes_def Let_def
  by (intro honest_cases honest_region honest_read_bounced) (simp_all add: errors_reported_def)

lemma honest_search_block: "honest (search_block block n offset key)"
  by (induction block n offset key rule: search_block.induct) (auto simp: Let_def split: sum.splits)

lemma honest_select_stored_block: "honest (select_stored_block block n offset key selected)"
  by (induction block n offset key selected rule: select_stored_block.induct) (auto split: sum.splits)

lemma honest_lookup_table: "errors_reported dev \<Longrightarrow> honest (lookup_table cfg dev reference key w)"
  unfolding lookup_table_def select_block_def
  by (auto intro!: honest_cases(1,2,4,5) honest_read_table_bytes honest_search_block honest_select_stored_block)

lemma honest_lookup_passes: "errors_reported dev \<Longrightarrow> honest (lookup_passes cfg dev key w n examined best)"
  by (induction n arbitrary: examined best)
    (auto simp: Let_def intro!: honest_cases(1,2,3) honest_lookup_table)

lemma honest_lookup_tables: "errors_reported dev \<Longrightarrow> honest (lookup_tables cfg dev w name key)"
  unfolding lookup_tables_def Let_def
  by (intro honest_cases(1) honest_cases(5) honest_cases(2) honest_lookup_passes honest_lookup_table; simp)

lemma honest_probe_memtable: "honest (probe_memtable cfg s ns key hash probes)"
  by (induction cfg s ns key hash probes rule: probe_memtable.induct) (auto simp: Let_def split: option.split)

lemma honest_lookup_memtable: "honest (lookup_memtable cfg s name key)"
  unfolding lookup_memtable_def find_namespace_def find_memtable_bucket_def
  by (auto intro!: honest_cases(1,2,3) honest_probe_memtable split: prod.split)

lemma honest_lookup_committed: "errors_reported dev \<Longrightarrow> honest (lookup_committed cfg dev w name key)"
  unfolding lookup_committed_def by (intro honest_cases(1,3) honest_lookup_memtable honest_lookup_tables) simp_all

lemma honest_lookup_transaction:
  "(\<And>name key. honest (committed name key)) \<Longrightarrow> honest (lookup_transaction s committed t handle key)"
  unfolding lookup_transaction_def by (intro honest_cases) simp_all

lemma honest_count_valid_headers: "errors_reported dev \<Longrightarrow> honest (count_valid_headers cfg dev slot footer copies n w)"
proof (induction copies arbitrary: n)
  case (Cons copy copies)
  then show ?case
    by (simp only: count_valid_headers.simps, intro honest_cases(3) honest_read_table_bytes) (auto intro!: honest_cases(1,4))
qed simp

lemma honest_require_that: "e \<noteq> ESP_OK \<Longrightarrow> honest r \<Longrightarrow> honest (require_that p e r)"
  by (simp add: require_that_def)

lemma honest_load_table_footer: "errors_reported dev \<Longrightarrow> honest (load_table_footer cfg dev reference w)"
  unfolding load_table_footer_def
  by (intro honest_cases(5) honest_read_table_bytes honest_cases(4) honest_require_that) simp_all

lemma honest_load_table_index: "errors_reported dev \<Longrightarrow> honest (load_table_index cfg dev slot footer w)"
  unfolding load_table_index_def
  by (intro honest_cases(5) honest_read_table_bytes honest_cases(4) honest_require_that) simp_all

lemma honest_resolve_value_bank: "honest (resolve_value_bank s value_bank)"
  unfolding resolve_value_bank_def
  by (intro honest_cases(5)) (auto simp: Let_def intro!: honest_require_that split: option.split)

lemma honest_validate_block_entries:
  "honest (fst (validate_block_entries ok footer ie slot block n first offset scan s))"
  by (induction n arbitrary: first offset scan s) (auto split: sum.split)

lemma honest_validate_blocks:
  "errors_reported dev \<Longrightarrow> honest (fst (validate_blocks cfg dev ok footer slot index_block is scan w))"
proof (induction "is" arbitrary: scan w)
  case (Cons i "is")
  have read: "read_table_bytes cfg dev slot offset n w \<noteq> Inl ESP_OK" for offset n w
    using honest_read_table_bytes [OF Cons.prems] by (simp add: honest_def)
  have entries: "validate_block_entries ok footer ie slot block n first offset scan s \<noteq> (Inl ESP_OK, s')"
    for ie block n first offset scan s s'
    using honest_validate_block_entries [of ok footer ie slot block n first offset scan s] by (auto simp: honest_def)
  show ?case
    using Cons.IH [OF Cons.prems] by (auto simp: read entries split: sum.split prod.split)
qed simp

lemma on_value_succeeds:
  assumes "on_value r w k = (ESP_OK, w')" "honest r"
  obtains x where "r = Inr x" "k x = (ESP_OK, w')"
  using assms by (auto simp: on_value_def split: sum.splits)

lemma on_result_succeeds:
  assumes "on_result r k = (ESP_OK, w')" "honest (fst r)"
  obtains x w1 where "r = (Inr x, w1)" "k x w1 = (ESP_OK, w')"
  using assms by (cases r) (auto simp: on_result_def split: sum.splits)

end
