(* ===== verification/Staging_Correctness.thy ===== *)
theory Staging_Correctness
  imports Api Staging Lookup_Errors Sample_State
begin

text \<open>
  The public operations that stage a mutation refine an update of the map from keys to what is staged
  for them, and what a transaction reads of its own is that map over the committed state.
\<close>

section \<open>Writing\<close>

text \<open>What a staging operation promises: the update of the map if it succeeds, nothing else otherwise.\<close>

definition stages :: "config \<Rightarrow> 'd world \<Rightarrow> bytes \<Rightarrow> staged \<Rightarrow> esp_err \<times> 'd world \<Rightarrow> bool" where
  "stages cfg w key v r \<longleftrightarrow>
     (case r of (ret, w') \<Rightarrow>
       staging_inv cfg (snd w') \<and> fst w' = fst w \<and>
       (if ret = ESP_OK then staged_map (snd w') = (staged_map (snd w))(key \<mapsto> v) else w' = w))"

lemma stages_failed: "staging_inv cfg (snd w) \<Longrightarrow> e \<noteq> ESP_OK \<Longrightarrow> stages cfg w key v (e, w)"
  by (simp add: stages_def)

lemma stages_under_lock:
  "staging_inv cfg (snd w) \<Longrightarrow> stages cfg w key v (f w) \<Longrightarrow> stages cfg w key v (under_lock f w)"
  by (simp add: under_lock_def stages_failed)

lemma stages_on_value:
  "staging_inv cfg (snd w) \<Longrightarrow> honest r \<Longrightarrow> (\<And>x. stages cfg w key v (k x)) \<Longrightarrow> stages cfg w key v (on_value r w k)"
  by (cases r) (simp_all add: on_value_def stages_failed)

lemma stages_stage_value:
  assumes cfg: "valid_config cfg" "staging_fits cfg" and inv: "staging_inv cfg (snd w)"
    and kind: "kind = mutation_kind_tombstone \<longrightarrow> val = []"
  shows "stages cfg w key (entered_meaning kind val) (case stage_value cfg raw key val kind (snd w) of (ret, s) \<Rightarrow> (ret, fst w, s))"
proof -
  obtain ret s' where s': "stage_value cfg raw key val kind (snd w) = (ret, s')" by fastforce
  from stage_value_update [OF cfg inv kind s'] show ?thesis
    by (simp add: s' stages_def prod_eq_iff split: if_splits)
qed

lemma stages_set_value:
  assumes cfg: "valid_config cfg" "staging_fits cfg" and inv: "staging_inv cfg (snd w)"
    and small: "length val \<le> unat (cfg_inline_value_size cfg)"
  shows "stages cfg w key (Staged_Inline val) (set_value cfg dev clock raw key val w)"
proof -
  have "entered_meaning mutation_kind_set val = Staged_Inline val" "mutation_kind_set \<noteq> mutation_kind_tombstone"
    by (simp_all add: entered_meaning_def format_consts)
  then have "stages cfg w key (Staged_Inline val)
      (case stage_value cfg raw key val mutation_kind_set (snd w) of (ret, s) \<Rightarrow> (ret, fst w, s))"
    using stages_stage_value [OF cfg inv, of mutation_kind_set val key raw] by simp
  then show ?thesis
    unfolding set_value_def using small inv by (simp add: stages_failed stages_under_lock)
qed

lemma stages_erase_key:
  assumes cfg: "valid_config cfg" "staging_fits cfg" and inv: "staging_inv cfg (snd w)" and dev: "errors_reported dev"
  shows "stages cfg w key Staged_Erase (erase_key cfg dev raw key w)"
proof -
  have "entered_meaning mutation_kind_tombstone [] = Staged_Erase" by (simp add: entered_meaning_def)
  then have stage: "stages cfg w key Staged_Erase
      (case stage_value cfg raw key [] mutation_kind_tombstone (snd w) of (ret, s) \<Rightarrow> (ret, fst w, s))"
    using stages_stage_value [OF cfg inv, of mutation_kind_tombstone "[]" key raw] by simp
  have token: "honest (get_transaction cfg (snd w) raw)" using get_transaction_error by (simp add: honest_def)
  have failed: "stages cfg w key Staged_Erase (e, w)" if "e \<noteq> ESP_OK" for e by (rule stages_failed [OF inv that])
  show ?thesis
    unfolding erase_key_def
    by (simp add: failed stage inv token stages_under_lock stages_on_value
        honest_lookup_transaction [OF honest_lookup_committed [OF dev]])
qed

text \<open>C9: Refinement. Staging a value or an erasure, as the public interface does it, refines the update of a
  map from keys to what is staged: an operation that succeeds updates the map at its key and nowhere else,
  whatever moves in the staging area under it; one that fails, for want of room, a bad token or a lookup
  error, changes nothing. Neither touches the storage, and the layout of the staging area stays consistent.\<close>

theorem staging_refines_map:
  assumes "valid_config cfg" "staging_fits cfg" "staging_inv cfg (snd w)" "errors_reported dev"
    and "step = set_value cfg dev clock raw key val w \<and> length val \<le> unat (cfg_inline_value_size cfg) \<and> v = Staged_Inline val \<or>
      step = erase_key cfg dev raw key w \<and> v = Staged_Erase"
    and "step = (ret, w')"
  shows "staging_inv cfg (snd w') \<and> fst w' = fst w \<and>
    (if ret = ESP_OK then staged_map (snd w') = (staged_map (snd w))(key \<mapsto> v) else w' = w)"
proof -
  have "stages cfg w key v step"
    using assms(5) stages_set_value [OF assms(1-3)] stages_erase_key [OF assms(1-4)] by blast
  then show ?thesis by (simp add: assms(6) stages_def)
qed

lemma sample_errors: "errors_reported sample_device"
  by (simp add: errors_reported_def sample_device_def memory_device_def)

lemma sample_found: "find_staged_mutation (db_transaction sample_db) [98] = Some 0"
  by (simp add: find_staged_mutation_find sample_transaction_open valid_name_length) (simp add: sample_staged_def)

lemma sample_erase: "fst (erase_key host_config sample_device 513 [98] sample_world) = ESP_OK"
proof -
  have size: "staged_size sample_staged = 3" by (simp add: staged_size_def sample_staged_def empty_mutation_def)
  have current: "lookup_transaction sample_db c (db_transaction sample_db) h [98] = Inr (mutation_view sample_db sample_staged)" for c h
    by (simp add: lookup_transaction_def sample_found sample_transaction_open(3))
  have view: "\<not> vv_tombstone (mutation_view sample_db sample_staged)"
    by (simp add: mutation_view_def sample_staged_def format_consts)
  have "fst (stage_value host_config 513 [98] [] mutation_kind_tombstone sample_db) = ESP_OK"
    by (simp add: stage_value_def on_value_def sample_get_transaction sample_found Let_def size sample_transaction_open
        valid_name_length split: prod.split)
  then show ?thesis
    by (cases "stage_value host_config 513 [98] [] mutation_kind_tombstone sample_db")
      (simp add: erase_key_def valid_name_length under_lock_def sample_fields(12) sample_allowed sample_get_transaction
        current view on_value_def)
qed

theorem staging_refines_map_witness:
  "staging_inv host_config (snd (snd (erase_key host_config sample_device 513 [98] sample_world))) \<and>
   staged_map (snd (snd (erase_key host_config sample_device 513 [98] sample_world))) [98] = Some Staged_Erase"
proof -
  obtain ret w' where step: "erase_key host_config sample_device 513 [98] sample_world = (ret, w')" by (rule prod.exhaust)
  have "staging_fits host_config" by (simp add: staging_fits_def host_config_def)
  from staging_refines_map [OF host_config_valid this, of sample_world sample_device, unfolded sample_fields(12),
      OF sample_staging sample_errors disjI2 [OF conjI [OF refl refl]] step]
  show ?thesis using sample_erase by (simp add: step)
qed

section \<open>Reading\<close>

text \<open>What a view of a value shows of what is staged.\<close>

definition shows_staged :: "value_view \<Rightarrow> staged \<Rightarrow> bool" where
  "shows_staged view v \<longleftrightarrow>
     (case v of
        Staged_Erase \<Rightarrow> vv_tombstone view \<and> \<not> vv_is_external view
      | Staged_Inline val \<Rightarrow>
          \<not> vv_tombstone view \<and> \<not> vv_is_external view \<and> unat (vv_value_size view) = length val \<and>
          vv_value view = (if val = [] then None else Some val)
      | Staged_External reference \<Rightarrow>
          \<not> vv_tombstone view \<and> vv_is_external view \<and> vv_external_value view = reference \<and>
          vv_value_size view = vr_value_size reference)"

lemma mutation_view_shows:
  assumes inv: "staging_inv cfg s" and i: "i < unat (tx_mutation_count (db_transaction s))"
  shows "shows_staged (mutation_view s (tx_mutations (db_transaction s) ! i))
    (staged_meaning (db_transaction_staging s) (tx_mutations (db_transaction s) ! i))"
proof -
  let ?m = "tx_mutations (db_transaction s) ! i"
  note D = staging_invD [OF inv i]
  have fits: "\<not> mu_external_value ?m \<Longrightarrow> unat (mu_value_offset ?m) + unat (mu_value_size ?m) \<le> length (db_transaction_staging s)"
    using D(1,6) by (simp add: staged_mutation_ok_def)
  have nonempty: "get (db_transaction_staging s) (unat (mu_value_offset ?m)) (unat (mu_value_size ?m)) = [] \<longleftrightarrow> mu_value_size ?m = 0"
    if "\<not> mu_external_value ?m"
    using length_get [OF fits [OF that]] by (metis length_0_conv unat_eq_0)
  have len: "length (get (db_transaction_staging s) (unat (mu_value_offset ?m)) (unat (mu_value_size ?m))) = unat (mu_value_size ?m)"
    if "\<not> mu_external_value ?m" using fits [OF that] by (rule length_get)
  have kinds: "mu_external_value ?m \<Longrightarrow> mu_kind ?m \<noteq> mutation_kind_tombstone"
    using D(1) by (auto simp: staged_mutation_ok_def recovered_mutation_invalid_def split: if_splits)
  have "vr_value_size (mu_external_value_ref ?m) = mu_value_size ?m" if "mu_external_value ?m"
    using D(1) that by (simp add: staged_mutation_ok_def)
  then show ?thesis
    using kinds len nonempty
    by (simp add: shows_staged_def mutation_view_def staged_meaning_def word_gt_0)
qed

text \<open>C10: Refinement. A transaction reads its own writes: a lookup inside the transaction shows exactly what the map
  has for the key, the bytes staged last, a reference or an erasure, and only for a key that is not in the map
  it is the lookup in the committed state.\<close>

theorem transaction_reads_own_writes:
  assumes "staging_inv cfg s" "valid_name key"
  shows "case staged_map s key of
      Some v \<Rightarrow> \<exists>view. lookup_transaction s committed (db_transaction s) handle key = Inr view \<and> shows_staged view v
    | None \<Rightarrow> lookup_transaction s committed (db_transaction s) handle key = committed (hs_namespace_name handle) key"
proof (cases "find_staged_mutation (db_transaction s) key")
  case (Some i)
  from find_staged_mutation_Some [OF Some] mutation_view_shows [OF assms(1)] show ?thesis
    by (simp add: Some staged_map_def lookup_transaction_def)
qed (simp add: staged_map_def lookup_transaction_def)

theorem transaction_reads_own_writes_witness:
  "\<exists>view. lookup_transaction sample_db (\<lambda>_ _. Inl ESP_ERR_NOT_FOUND) (db_transaction sample_db) sample_handle [98] = Inr view \<and>
     shows_staged view (staged_meaning (db_transaction_staging sample_db) sample_staged)"
  using transaction_reads_own_writes [OF sample_staging, of "[98]" "\<lambda>_ _. Inl ESP_ERR_NOT_FOUND" sample_handle]
  by (simp add: staged_map_def sample_found sample_transaction_open(3) valid_name_length)

end
