(* ===== verification/Table_Lookup.thy ===== *)
theory Table_Lookup
  imports Lookup_Errors Heap_Sort Sample_State
begin

text \<open>
  What a sorted table means: the list of the entries its data blocks decode to. A table that passes
  validation has strictly ascending keys, and the lookup through the index, stored or cached, finds
  in it what a linear search finds. The memtable order the tables are written in is that of a sort.
\<close>

section \<open>The entries of a block and of an index\<close>

fun entries_at :: "bytes \<Rightarrow> nat \<Rightarrow> nat \<Rightarrow> table_entry list option" where
  "entries_at block 0 offset = Some []"
| "entries_at block (Suc n) offset =
     (case decode_table_entry block offset of
        Inl _ \<Rightarrow> None
      | Inr e \<Rightarrow> map_option ((#) e) (entries_at block n (offset + unat (te_total_size e))))"

fun index_entries_at :: "bytes \<Rightarrow> nat \<Rightarrow> nat \<Rightarrow> table_index_entry list option" where
  "index_entries_at block 0 offset = Some []"
| "index_entries_at block (Suc n) offset =
     (case decode_table_index_entry block offset of
        Inl _ \<Rightarrow> None
      | Inr e \<Rightarrow> map_option ((#) e) (index_entries_at block n (offset + unat (tx_total_size e))))"

definition index_list :: "table_index_entry list \<Rightarrow> (composite_key \<times> u32) list" where
  "index_list ies = map (\<lambda>ie. (index_entry_key ie, tx_block_offset ie)) ies"

text \<open>The linear search the lookup is compared with.\<close>

definition find_entry :: "table_entry list \<Rightarrow> composite_key \<Rightarrow> table_entry option" where
  "find_entry es key = find (\<lambda>e. entry_key e = key) es"

definition found_entry :: "table_entry option \<Rightarrow> esp_err + value_view" where
  "found_entry r = (case r of None \<Rightarrow> Inl ESP_ERR_NOT_FOUND | Some e \<Rightarrow> Inr (entry_view e))"

lemma find_entry_None: "find_entry es key = None \<longleftrightarrow> (\<forall>e \<in> set es. entry_key e \<noteq> key)"
  by (auto simp: find_entry_def find_None_iff)

lemma find_entry_append: "find_entry (as @ bs) key = (case find_entry as key of None \<Rightarrow> find_entry bs key | Some e \<Rightarrow> Some e)"
  by (induction as) (auto simp: find_entry_def)

lemma find_entry_skip:
  "\<forall>e \<in> set as. entry_key e \<noteq> key \<Longrightarrow> find_entry (as @ bs) key = find_entry bs key"
  "\<forall>e \<in> set bs. entry_key e \<noteq> key \<Longrightarrow> find_entry (as @ bs) key = find_entry as key"
  by (auto simp: find_entry_append find_entry_None [symmetric] split: option.split)

lemma compare_keys: "compare_composite_key a b < 0 \<longleftrightarrow> a < b" "compare_composite_key a b \<ge> 0 \<longleftrightarrow> b \<le> a"
  "compare_composite_key a b > 0 \<longleftrightarrow> b < a" "compare_composite_key a b = 0 \<longleftrightarrow> a = b"
proof -
  show 1: "compare_composite_key a b < 0 \<longleftrightarrow> a < b" by (simp add: less_composite_key_def)
  show "compare_composite_key a b \<ge> 0 \<longleftrightarrow> b \<le> a" using 1 by (simp add: not_less [symmetric])
  have 2: "compare_composite_key a b \<le> 0 \<longleftrightarrow> a \<le> b" by (simp add: less_eq_composite_key_def)
  show "compare_composite_key a b > 0 \<longleftrightarrow> b < a" using 2 by (simp add: not_le [symmetric])
  show "compare_composite_key a b = 0 \<longleftrightarrow> a = b" by (rule compare_composite_key_0)
qed

lemma search_block_entries:
  "entries_at block n offset = Some es \<Longrightarrow> sorted_wrt (<) (map entry_key es) \<Longrightarrow>
     search_block block n offset key = found_entry (find_entry es key)"
proof (induction n arbitrary: offset es)
  case 0
  then show ?case by (simp add: found_entry_def find_entry_def)
next
  case (Suc n)
  obtain e es' where e: "decode_table_entry block offset = Inr e" "es = e # es'"
    "entries_at block n (offset + unat (te_total_size e)) = Some es'"
    using Suc.prems(1) by (auto split: sum.splits)
  have later: "entry_key e < entry_key e'" if "e' \<in> set es'" for e' using Suc.prems(2) that by (simp add: e(2))
  note IH = Suc.IH [OF e(3)]
  consider "entry_key e = key" | "key < entry_key e" | "entry_key e < key" by (metis linorder_neqE)
  then show ?case
  proof cases
    case 2
    then have "find_entry es key = None" using later unfolding find_entry_None e(2) by fastforce
    then show ?thesis using 2 by (auto simp: e(1) Let_def compare_keys found_entry_def)
  next
    case 3
    then show ?thesis using IH Suc.prems(2) by (auto simp: e(1,2) Let_def compare_keys find_entry_def)
  qed (simp add: e Let_def compare_keys found_entry_def find_entry_def)
qed

lemma select_stored_block_entries:
  "index_entries_at block n offset = Some ies \<Longrightarrow>
     select_stored_block block n offset key selected = Inr (select_cached_block (index_list ies) key selected)"
  by (induction n arbitrary: offset ies selected) (auto simp: index_list_def split: sum.splits)

lemma cached_index_entries_list:
  "cached_index_entries block n offset = Some (entries, end_at) \<Longrightarrow>
     \<exists>ies. index_entries_at block n offset = Some ies \<and> entries = index_list ies"
  by (induction n arbitrary: offset entries) (fastforce simp: index_list_def split: sum.splits option.splits)+

section \<open>The selected block\<close>

lemma select_then_find:
  assumes "list_all2 (\<lambda>(k, offset) es. es \<noteq> [] \<and> k = entry_key (hd es)) entries ess"
    and "sorted_wrt (<) (map entry_key (concat ess))"
  shows "(select_cached_block entries key selected = selected \<and> (\<forall>e \<in> set (concat ess). key < entry_key e)) \<or>
    (\<exists>j < length ess. select_cached_block entries key selected = snd (entries ! j) \<and> entry_key (hd (ess ! j)) \<le> key \<and>
       find_entry (concat ess) key = find_entry (ess ! j) key)"
  using assms
proof (induction entries ess arbitrary: selected rule: list_all2_induct)
  case (Cons entry entries es ess)
  obtain k offset where [simp]: "entry = (k, offset)" by fastforce
  have es: "es \<noteq> []" "k = entry_key (hd es)" using Cons.hyps(1) by auto
  have sorted: "sorted_wrt (<) (map entry_key es)" "sorted_wrt (<) (map entry_key (concat ess))"
    "\<And>a b. a \<in> set es \<Longrightarrow> b \<in> set (concat ess) \<Longrightarrow> entry_key a < entry_key b"
    using Cons.prems by (auto simp: sorted_wrt_append)
  have first: "k \<le> entry_key a" if "a \<in> set es" for a
    using that sorted(1) es by (cases es) auto
  show ?case
  proof (cases "key < k")
    case True
    have "key < entry_key a" if "a \<in> set (concat (es # ess))" for a
      using that True first sorted(3) [of "hd es" a] es by fastforce
    then show ?thesis using True by (simp add: compare_keys)
  next
    case False
    have step: "select_cached_block (entry # entries) key selected = select_cached_block entries key offset"
      using False by (simp add: compare_keys)
    from Cons.IH [OF sorted(2), of offset] show ?thesis
    proof (elim disjE exE conjE)
      assume "select_cached_block entries key offset = offset" "\<forall>e\<in>set (concat ess). key < entry_key e"
      moreover from this(2) have "find_entry (es @ concat ess) key = find_entry es key" by (intro find_entry_skip(2)) auto
      ultimately show ?thesis using False es step by (intro disjI2 exI [of _ 0]) (simp add: not_less)
    next
      fix j assume j: "j < length ess" "select_cached_block entries key offset = snd (entries ! j)"
        "entry_key (hd (ess ! j)) \<le> key" "find_entry (concat ess) key = find_entry (ess ! j) key"
      have "ess ! j \<noteq> []" using list_all2_nthD2 [OF Cons.hyps(2) j(1)] by (auto split: prod.splits)
      then have "hd (ess ! j) \<in> set (concat ess)" using j(1) by (auto intro!: bexI [of _ "ess ! j"])
      then have "entry_key a \<noteq> key" if "a \<in> set es" for a using sorted(3) [OF that] j(3) by fastforce
      then have "find_entry (es @ concat ess) key = find_entry (ess ! j) key" using find_entry_skip(1) j(4) by simp
      then show ?thesis using j step by (intro disjI2 exI [of _ "Suc j"]) simp
    qed
  qed
qed simp

section \<open>What validation has checked\<close>

definition keys_after :: "composite_key option \<Rightarrow> table_entry list \<Rightarrow> composite_key list" where
  "keys_after previous es = (case previous of None \<Rightarrow> [] | Some k \<Rightarrow> [k]) @ map entry_key es"

definition last_key :: "composite_key option \<Rightarrow> table_entry list \<Rightarrow> composite_key option" where
  "last_key previous es = (if es = [] then previous else Some (entry_key (last es)))"

lemma sorted_join:
  fixes m :: "'a::linorder"
  shows "sorted_wrt (<) (xs @ [m]) \<Longrightarrow> sorted_wrt (<) (m # ys) \<Longrightarrow> sorted_wrt (<) (xs @ m # ys)"
  by (fastforce simp: sorted_wrt_append)

lemma keys_after_Cons:
  "sorted_wrt (<) (keys_after previous [e]) \<Longrightarrow> sorted_wrt (<) (keys_after (Some (entry_key e)) es) \<Longrightarrow>
     sorted_wrt (<) (keys_after previous (e # es))"
  using sorted_join [of "case previous of None \<Rightarrow> [] | Some k \<Rightarrow> [k]" "entry_key e" "map entry_key es"]
  by (simp add: keys_after_def)

lemma keys_after_append:
  "sorted_wrt (<) (keys_after previous as) \<Longrightarrow> sorted_wrt (<) (keys_after (last_key previous as) bs) \<Longrightarrow>
     sorted_wrt (<) (keys_after previous (as @ bs))"
proof (induction as arbitrary: previous)
  case (Cons a as)
  have "sorted_wrt (<) (keys_after previous [a])" "sorted_wrt (<) (keys_after (Some (entry_key a)) as)"
    using Cons.prems(1) by (auto simp: keys_after_def sorted_wrt_append)
  moreover have "last_key previous (a # as) = last_key (Some (entry_key a)) as" by (simp add: last_key_def)
  ultimately show ?case using Cons keys_after_Cons by simp
qed (simp add: last_key_def)

lemma last_key_append: "last_key previous (as @ bs) = last_key (last_key previous as) bs"
  by (simp add: last_key_def)

text \<open>The filter grows by the keys of the entries.\<close>

definition add_keys :: "u32 \<Rightarrow> table_entry list \<Rightarrow> db \<Rightarrow> db" where
  "add_keys slot es s = fold (\<lambda>e. add_table_key_filter slot (entry_key e)) es s"

lemma add_keys_simps:
  "add_keys slot [] s = s" "add_keys slot (e # es) s = add_keys slot es (add_table_key_filter slot (entry_key e) s)"
  "add_keys slot (as @ bs) s = add_keys slot bs (add_keys slot as s)"
  by (simp_all add: add_keys_def)

lemma add_table_key_filter_fields:
  "db_manifest (add_table_key_filter slot key s) = db_manifest s"
  "db_table_index_cache (add_table_key_filter slot key s) = db_table_index_cache s"
  by (simp_all add: add_table_key_filter_def Let_def)

lemma add_keys_fields [simp]:
  "db_manifest (add_keys slot es s) = db_manifest s" "db_table_index_cache (add_keys slot es s) = db_table_index_cache s"
  by (induction es arbitrary: s) (simp_all add: add_keys_simps add_table_key_filter_fields)

lemma add_keys_covers:
  assumes "filters_sized s" "table_slot_exists s slot"
  shows "filters_sized (add_keys slot es s) \<and>
    (\<forall>key. key \<in> entry_key ` set es \<or> filter_covers s slot key \<longrightarrow> filter_covers (add_keys slot es s) slot key)"
  using assms
proof (induction es arbitrary: s)
  case (Cons e es)
  have "table_slot_exists (add_table_key_filter slot (entry_key e) s) slot"
    using Cons.prems(2) by (simp add: table_slot_exists_def add_table_key_filter_fields)
  with Cons.IH [OF add_filter_covers(1) [OF Cons.prems]] add_filter_covers(2,3) [OF Cons.prems] show ?case
    by (auto simp: add_keys_simps)
qed (simp add: add_keys_simps)

lemma validate_block_entries_D:
  assumes "validate_block_entries ok footer ie slot block n first offset scan s = (Inr (offset', scan'), s')"
  shows "\<exists>es. entries_at block n offset = Some es \<and> length es = n \<and> s' = add_keys slot es s \<and>
    sc_previous_key scan' = last_key (sc_previous_key scan) es \<and>
    sc_index_entry_offset scan' = sc_index_entry_offset scan \<and>
    sc_total_entries scan' = sc_total_entries scan + of_nat (length es) \<and>
    sorted_wrt (<) (keys_after (sc_previous_key scan) es) \<and>
    (\<forall>e \<in> set es. te_transaction_sequence e \<le> tm_max_sequence footer) \<and>
    (first \<longrightarrow> es \<noteq> [] \<longrightarrow> index_entry_key ie = entry_key (hd es))"
  using assms
proof (induction n arbitrary: first offset scan s)
  case 0
  then show ?case by (auto simp: add_keys_simps last_key_def keys_after_def split: option.split)
next
  case (Suc n)
  obtain e where e: "decode_table_entry block offset = Inr e"
    and ok: "\<not> table_entry_invalid ok footer ie first (sc_previous_key scan) e"
    and rest: "validate_block_entries ok footer ie slot block n False (offset + unat (te_total_size e))
      (scan\<lparr>sc_previous_key := Some (entry_key e), sc_total_data_bytes := sc_total_data_bytes scan + te_total_size e,
        sc_total_entries := sc_total_entries scan + 1\<rparr>) (add_table_key_filter slot (entry_key e) s) = (Inr (offset', scan'), s')"
    using Suc.prems by (auto split: sum.splits if_splits)
  obtain es where es: "entries_at block n (offset + unat (te_total_size e)) = Some es" "length es = n"
    "s' = add_keys slot es (add_table_key_filter slot (entry_key e) s)"
    "sc_previous_key scan' = last_key (Some (entry_key e)) es" "sc_index_entry_offset scan' = sc_index_entry_offset scan"
    "sc_total_entries scan' = sc_total_entries scan + 1 + of_nat (length es)"
    "sorted_wrt (<) (keys_after (Some (entry_key e)) es)" "\<forall>e \<in> set es. te_transaction_sequence e \<le> tm_max_sequence footer"
    using Suc.IH [OF rest] by auto
  have "sorted_wrt (<) (keys_after (sc_previous_key scan) [e])"
    using ok by (auto simp: table_entry_invalid_def keys_after_def compare_keys split: option.splits)
  note sorted = keys_after_Cons [OF this es(7)]
  have names: "length a = length b \<Longrightarrow> memcmp a b (length b) = 0 \<Longrightarrow> a = b" for a b :: bytes
    by (simp add: memcmp_def mem_cmp_0_iff)
  have "index_entry_key ie = entry_key e" if first
    using ok that names by (auto simp: table_entry_invalid_def index_entry_key_def entry_key_def)
  moreover have "last_key (Some (entry_key e)) es = last_key (sc_previous_key scan) (e # es)" by (simp add: last_key_def)
  moreover have "te_transaction_sequence e \<le> tm_max_sequence footer"
    using ok by (simp add: table_entry_invalid_def not_less)
  ultimately show ?case
    using es sorted by (intro exI [of _ "e # es"]) (simp add: e add_keys_simps add_ac)
qed

lemma read_table_bytes_cong:
  "fst w = fst w' \<Longrightarrow> db_manifest (snd w) = db_manifest (snd w') \<Longrightarrow>
     read_table_bytes cfg dev slot offset n w = read_table_bytes cfg dev slot offset n w'"
  by (simp add: read_table_bytes_def read_store_def db_geometry_def)

text \<open>A block of a validated table and its entry in the index.\<close>

definition block_contents :: "config \<Rightarrow> 'd block_device \<Rightarrow> u32 \<Rightarrow> 'd world \<Rightarrow> nat \<Rightarrow> table_entry list option" where
  "block_contents cfg dev slot w block_index =
     (case read_table_bytes cfg dev slot (ucast (expected_block_offset (snd w) block_index)) (unat (table_block_bytes (snd w))) w of
        Inl _ \<Rightarrow> None
      | Inr block \<Rightarrow>
          (case decode_table_block_header block of
             Inl _ \<Rightarrow> None
           | Inr header \<Rightarrow> entries_at block (unat (tb_entry_count header)) table_block_header_size))"

definition block_generation :: "config \<Rightarrow> 'd block_device \<Rightarrow> u32 \<Rightarrow> 'd world \<Rightarrow> nat \<Rightarrow> u64 option" where
  "block_generation cfg dev slot w block_index =
     (case read_table_bytes cfg dev slot (ucast (expected_block_offset (snd w) block_index)) (unat (table_block_bytes (snd w))) w of
        Inl _ \<Rightarrow> None
      | Inr block \<Rightarrow> (case decode_table_block_header block of Inl _ \<Rightarrow> None | Inr header \<Rightarrow> Some (tb_generation header)))"

lemma block_contents_cong:
  assumes "fst w = fst w'" "db_manifest (snd w) = db_manifest (snd w')"
  shows "block_contents cfg dev slot w i = block_contents cfg dev slot w' i"
    "block_generation cfg dev slot w i = block_generation cfg dev slot w' i"
  using read_table_bytes_cong [OF assms] assms
  by (simp_all add: block_contents_def block_generation_def expected_block_offset_def table_block_bytes_def)

definition block_ok ::
  "config \<Rightarrow> 'd block_device \<Rightarrow> u32 \<Rightarrow> u64 \<Rightarrow> u64 \<Rightarrow> 'd world \<Rightarrow> nat \<Rightarrow> table_index_entry \<Rightarrow> table_entry list \<Rightarrow> bool" where
  "block_ok cfg dev slot generation max_sequence w i ie es \<longleftrightarrow>
     tx_block_offset ie = expected_block_offset (snd w) i \<and> block_contents cfg dev slot w i = Some es \<and>
     block_generation cfg dev slot w i = Some generation \<and> es \<noteq> [] \<and> index_entry_key ie = entry_key (hd es) \<and>
     (\<forall>e \<in> set es. te_transaction_sequence e \<le> max_sequence)"

lemma block_ok_cong:
  "fst w = fst w' \<Longrightarrow> db_manifest (snd w) = db_manifest (snd w') \<Longrightarrow>
     block_ok cfg dev slot generation q w i ie es \<longleftrightarrow> block_ok cfg dev slot generation q w' i ie es"
  by (simp add: block_ok_def block_contents_cong [of w w'] expected_block_offset_def table_block_bytes_def)

definition blocks_ok ::
  "config \<Rightarrow> 'd block_device \<Rightarrow> u32 \<Rightarrow> u64 \<Rightarrow> u64 \<Rightarrow> 'd world \<Rightarrow> nat list \<Rightarrow> table_index_entry list \<Rightarrow> table_entry list list \<Rightarrow> bool" where
  "blocks_ok cfg dev slot generation q w is ies ess \<longleftrightarrow>
     length ies = length is \<and> length ess = length is \<and>
     (\<forall>j < length is. block_ok cfg dev slot generation q w (is ! j) (ies ! j) (ess ! j))"

lemma blocks_ok_Cons:
  "block_ok cfg dev slot generation q w i ie es \<Longrightarrow> blocks_ok cfg dev slot generation q w is ies ess \<Longrightarrow>
     blocks_ok cfg dev slot generation q w (i # is) (ie # ies) (es # ess)"
  by (auto simp: blocks_ok_def nth_Cons split: nat.split)

lemma validate_blocks_D:
  assumes "validate_blocks cfg dev ok footer slot index_block is scan w = (Inr scan', w')"
    and "tm_block_size footer = table_block_bytes (snd w)"
  shows "\<exists>ies ess. index_entries_at index_block (length is) (sc_index_entry_offset scan) = Some ies \<and>
    blocks_ok cfg dev slot (tm_generation footer) (tm_max_sequence footer) w is ies ess \<and>
    sorted_wrt (<) (keys_after (sc_previous_key scan) (concat ess)) \<and>
    sc_total_entries scan' = sc_total_entries scan + of_nat (length (concat ess)) \<and>
    w' = (fst w, add_keys slot (concat ess) (snd w))"
  using assms
proof (induction "is" arbitrary: scan w)
  case Nil
  then show ?case
    by (auto simp: blocks_ok_def keys_after_def add_keys_simps prod_eq_iff split: option.split)
next
  case (Cons i "is")
  obtain ie block header es' offset' scan1 s1 where
    ie: "decode_table_index_entry index_block (sc_index_entry_offset scan) = Inr ie"
      "tx_block_offset ie = expected_block_offset (snd w) i"
    and block: "read_table_bytes cfg dev slot (ucast (expected_block_offset (snd w) i)) (unat (tm_block_size footer)) w = Inr block"
      "decode_table_block_header block = Inr header" "tb_generation header = tm_generation footer"
    and entries: "validate_block_entries ok footer ie slot block (unat (tb_entry_count header)) True table_block_header_size
        (scan\<lparr>sc_index_entry_offset := sc_index_entry_offset scan + unat (tx_total_size ie),
          sc_content_crc := calc_crc32_update (sc_content_crc scan) block\<rparr>) (snd w) = (Inr (offset', scan1), s1)"
    and rest: "validate_blocks cfg dev ok footer slot index_block is scan1 (fst w, s1) = (Inr scan', w')"
    using Cons.prems(1) by (auto split: sum.splits if_splits prod.splits)
  obtain es where es: "entries_at block (unat (tb_entry_count header)) table_block_header_size = Some es"
    "length es = unat (tb_entry_count header)" "s1 = add_keys slot es (snd w)"
    "sorted_wrt (<) (keys_after (sc_previous_key scan) es)" "\<forall>e \<in> set es. te_transaction_sequence e \<le> tm_max_sequence footer"
    "es \<noteq> [] \<longrightarrow> index_entry_key ie = entry_key (hd es)"
    "sc_previous_key scan1 = last_key (sc_previous_key scan) es"
    "sc_index_entry_offset scan1 = sc_index_entry_offset scan + unat (tx_total_size ie)"
    "sc_total_entries scan1 = sc_total_entries scan + of_nat (length es)"
    using validate_block_entries_D [OF entries] by (auto simp: unat_eq_0)
  have "tb_entry_count header \<noteq> 0"
    using decode_table_block_header_InrD(1) [OF block(2)] by (simp add: valid_table_block_header_def)
  then have "es \<noteq> []" using es(2) by (auto simp: unat_eq_0)
  then have first: "block_ok cfg dev slot (tm_generation footer) (tm_max_sequence footer) w i ie es"
    using ie(2) block es(1,5,6) Cons.prems(2) by (simp add: block_ok_def block_contents_def block_generation_def)
  have "tm_block_size footer = table_block_bytes (snd (fst w, s1))" using Cons.prems(2) by (simp add: es(3) table_block_bytes_def)
  from Cons.IH [OF rest this] obtain ies ess where tail:
    "index_entries_at index_block (length is) (sc_index_entry_offset scan1) = Some ies"
    "blocks_ok cfg dev slot (tm_generation footer) (tm_max_sequence footer) (fst w, s1) is ies ess"
    "sorted_wrt (<) (keys_after (sc_previous_key scan1) (concat ess))"
    "sc_total_entries scan' = sc_total_entries scan1 + of_nat (length (concat ess))"
    "w' = (fst w, add_keys slot (concat ess) s1)" by auto
  have "blocks_ok cfg dev slot (tm_generation footer) (tm_max_sequence footer) w is ies ess"
    using tail(2) block_ok_cong [of "(fst w, s1)" w] by (simp add: blocks_ok_def es(3))
  note all = blocks_ok_Cons [OF first this]
  show ?case
    using all tail(1,4,5) es(8,9) keys_after_append [OF es(4) tail(3) [unfolded es(7)]]
    by (intro exI [of _ "ie # ies"] exI [of _ "es # ess"]) (simp add: ie(1) add_keys_simps es(3) add_ac)
qed

section \<open>A validated table\<close>

text \<open>
  The entries of a table, read block by block from the first to the last. This is the reference the
  lookup is measured against.
\<close>

definition table_contents :: "config \<Rightarrow> 'd block_device \<Rightarrow> table_reference \<Rightarrow> 'd world \<Rightarrow> table_entry list option" where
  "table_contents cfg dev reference w =
     map_option concat (those (map (block_contents cfg dev (tr_slot reference) w) [0..<unat (tr_data_block_count reference)]))"

lemma those_map: "(\<forall>j < length is. f (is ! j) = Some (ys ! j)) \<Longrightarrow> length ys = length is \<Longrightarrow> those (map f is) = Some ys"
proof (induction "is" arbitrary: ys)
  case (Cons i "is")
  then obtain y ys' where ys: "ys = y # ys'" by (cases ys) auto
  have "f i = Some y" using Cons.prems(1) ys by (metis length_Cons nth_Cons_0 zero_less_Suc)
  moreover have "those (map f is) = Some ys'"
    using Cons.prems ys by (intro Cons.IH) (auto dest: spec [of _ "Suc _"])
  ultimately show ?case by (simp add: ys)
qed simp

definition caches_sized :: "db \<Rightarrow> bool" where
  "caches_sized s \<longleftrightarrow> db_table_index_cache s = [] \<or>
     unat (sg_table_count (mr_geometry (db_manifest s))) \<le> length (db_table_index_cache s)"

text \<open>What the validation of a table leaves behind.\<close>

definition table_validated ::
  "config \<Rightarrow> 'd block_device \<Rightarrow> table_reference \<Rightarrow> 'd world \<Rightarrow> table_index_entry list \<Rightarrow> table_entry list list \<Rightarrow> bool" where
  "table_validated cfg dev reference w ies ess \<longleftrightarrow>
     tr_active reference \<and>
     blocks_ok cfg dev (tr_slot reference) (tr_generation reference) (tr_max_sequence reference) w
       [0..<unat (tr_data_block_count reference)] ies ess \<and>
     (\<forall>ie \<in> set ies. tx_block_offset ie \<noteq> - 1) \<and>
     sorted_wrt (<) (map entry_key (concat ess)) \<and>
     of_nat (length (concat ess)) = tr_entry_count reference \<and>
     (cached_index (snd w) reference = None \<or> cached_index (snd w) reference = Some (index_list ies)) \<and>
     (\<exists>index_block header.
        read_table_bytes cfg dev (tr_slot reference) (ucast (table_index_offset (snd w))) (unat (table_block_bytes (snd w))) w =
          Inr index_block \<and>
        decode_table_index_header index_block = Inr header \<and> ti_generation header = tr_generation reference \<and>
        ti_data_block_count header = tr_data_block_count reference \<and>
        index_entries_at index_block (unat (ti_entry_count header)) table_index_header_size = Some ies) \<and>
     (\<forall>e \<in> set (concat ess). table_key_filter_may_contain (snd w) reference (entry_key e))"

lemma table_validated_contents:
  assumes "table_validated cfg dev reference w ies ess"
  shows "table_contents cfg dev reference w = Some (concat ess)"
proof -
  let ?is = "[0..<unat (tr_data_block_count reference)]"
  have "blocks_ok cfg dev (tr_slot reference) (tr_generation reference) (tr_max_sequence reference) w ?is ies ess"
    using assms by (simp add: table_validated_def)
  then have "those (map (block_contents cfg dev (tr_slot reference) w) ?is) = Some ess"
    by (intro those_map) (auto simp: blocks_ok_def block_ok_def)
  then show ?thesis by (simp add: table_contents_def)
qed

lemma table_validated_select:
  assumes "table_validated cfg dev reference w ies ess"
  shows "select_block cfg dev reference key w = Inr (select_cached_block (index_list ies) key (- 1))"
  using assms select_stored_block_entries
  by (auto simp: table_validated_def select_block_def then_read_def)

lemma table_validated_lookup:
  assumes table: "table_validated cfg dev reference w ies ess"
  shows "lookup_table cfg dev reference key w = found_entry (find_entry (concat ess) key)"
proof -
  let ?is = "[0..<unat (tr_data_block_count reference)]" and ?slot = "tr_slot reference"
  have active: "tr_active reference" and sorted: "sorted_wrt (<) (map entry_key (concat ess))"
    and offsets: "\<forall>ie \<in> set ies. tx_block_offset ie \<noteq> - 1"
    and blocks: "blocks_ok cfg dev ?slot (tr_generation reference) (tr_max_sequence reference) w ?is ies ess"
    using table by (simp_all add: table_validated_def)
  have len: "length ies = length ?is" "length ess = length ?is" using blocks by (simp_all add: blocks_ok_def)
  have block: "block_ok cfg dev ?slot (tr_generation reference) (tr_max_sequence reference) w j (ies ! j) (ess ! j)"
    if "j < length ess" for j
    using blocks that len by (auto simp: blocks_ok_def)
  have "list_all2 (\<lambda>(k, offset) es. es \<noteq> [] \<and> k = entry_key (hd es)) (index_list ies) ess"
    using block len by (auto simp: list_all2_conv_all_nth index_list_def block_ok_def)
  note select = select_then_find [OF this sorted, of key "- 1"]
  show ?thesis
    using select
  proof (elim disjE exE conjE)
    assume none: "select_cached_block (index_list ies) key (- 1) = - 1" "\<forall>e\<in>set (concat ess). key < entry_key e"
    have "find_entry (concat ess) key = None" using none(2) unfolding find_entry_None by force
    then show ?thesis
      using none(1) active by (simp add: lookup_table_def table_validated_select [OF table] then_read_def found_entry_def)
  next
    fix j assume j: "j < length ess" "select_cached_block (index_list ies) key (- 1) = snd (index_list ies ! j)"
      "find_entry (concat ess) key = find_entry (ess ! j) key"
    have select: "select_cached_block (index_list ies) key (- 1) = tx_block_offset (ies ! j)" "tx_block_offset (ies ! j) \<noteq> - 1"
      using j(1,2) len offsets by (auto simp: index_list_def)
    note ok = block [OF j(1)]
    obtain data_block header where data: "read_table_bytes cfg dev ?slot (ucast (tx_block_offset (ies ! j)))
        (unat (table_block_bytes (snd w))) w = Inr data_block"
      "decode_table_block_header data_block = Inr header" "tb_generation header = tr_generation reference"
      "entries_at data_block (unat (tb_entry_count header)) table_block_header_size = Some (ess ! j)"
      using ok by (auto simp: block_ok_def block_contents_def block_generation_def split: sum.splits)
    have "sorted_wrt (<) (map entry_key (ess ! j))"
    proof -
      have "concat ess = concat (take j ess) @ ess ! j @ concat (drop (Suc j) ess)"
        using id_take_nth_drop [OF j(1)] by (metis concat.simps(2) concat_append)
      then show ?thesis using sorted by (simp add: sorted_wrt_append)
    qed
    from search_block_entries [OF data(4) this] show ?thesis
      using active select data(1-3) by (simp add: lookup_table_def table_validated_select [OF table] then_read_def j(3))
  qed
qed

lemma index_entry_offset:
  assumes "decode_table_index_entry block offset = Inr ie"
  shows "tx_block_offset ie \<noteq> - 1"
proof -
  have "unat (tx_block_offset ie) mod format_alignment = 0"
    using assms by (auto simp: decode_table_index_entry_def decoded_or_Inr Let_def)
  then show ?thesis by (auto simp: format_alignment_def unat_max_word)
qed

lemma index_entries_offsets:
  "index_entries_at block n offset = Some ies \<Longrightarrow> \<forall>ie \<in> set ies. tx_block_offset ie \<noteq> - 1"
  by (induction n arbitrary: offset ies) (auto dest: index_entry_offset split: sum.splits)

lemma footer_index_offset:
  assumes "decode_table_metadata encoded magic = Inr footer" "tm_block_size footer = table_block_bytes s"
    "tm_footer_offset footer = table_footer_offset s"
  shows "tm_index_offset footer = table_index_offset s"
proof -
  have "valid_table_metadata footer"
    using assms(1) by (auto simp: decode_table_metadata_def Let_def decoded_or_Inr)
  then obtain e where "checked_add (ucast (tm_index_offset footer) :: u64) (ucast (tm_block_size footer)) = Some e"
    "ucast (tm_footer_offset footer) = e"
    by (auto simp: valid_table_metadata_def split: option.splits bind_splits)
  then have "unat (tm_footer_offset footer) = unat (tm_index_offset footer) + unat (tm_block_size footer)"
    using checked_add_unat by (fastforce simp: unat_ucast32)
  then have "unat (tm_footer_offset footer) = unat (tm_index_offset footer + tm_block_size footer)"
    using unat_add_exact [of "tm_index_offset footer" "tm_block_size footer"] unat_bound32 [of "tm_footer_offset footer"] by simp
  then have "tm_footer_offset footer = tm_index_offset footer + tm_block_size footer" by (simp only: word_unat_eq_iff)
  then show ?thesis using assms(2,3) by (simp add: table_index_offset_def)
qed

text \<open>The filter and the cache that are published.\<close>

lemma reset_filter:
  assumes "filters_sized s" "table_slot_exists s slot"
  shows "filters_sized (reset_table_key_filter slot s)" "table_slot_exists (reset_table_key_filter slot s) slot"
proof -
  show "table_slot_exists (reset_table_key_filter slot s) slot"
    using assms by (simp add: reset_table_key_filter_def table_slot_exists_def)
  have "length (kf_bits empty_key_filter) = table_key_filter_bytes" by (simp add: empty_key_filter_def)
  then show "filters_sized (reset_table_key_filter slot s)"
    using assms by (auto simp: filters_sized_def reset_table_key_filter_def dest!: set_update_subset_insert [THEN subsetD])
qed

lemma publish_filter_covers:
  "filters_sized s \<Longrightarrow> table_slot_exists s (tr_slot reference) \<Longrightarrow>
     filter_covers (publish_table_key_filter reference s) (tr_slot reference) key \<longleftrightarrow> filter_covers s (tr_slot reference) key"
  by (simp add: filter_covers_def publish_table_key_filter_def filters_sized_def table_slot_exists_def word_less_nat_alt)

lemma cache_table_index_fields:
  "cache_table_index cfg reference index_block s = (ret, s') \<Longrightarrow>
     db_manifest s' = db_manifest s \<and> db_table_key_filters s' = db_table_key_filters s"
  by (auto simp: cache_table_index_def set_index_cache_def Let_def split: if_splits sum.splits option.splits prod.splits)

lemma cache_table_index_cached:
  assumes "cache_table_index cfg reference index_block s = (ESP_OK, s')" "caches_sized s"
    and "decode_table_index_header index_block = Inr header"
    and "index_entries_at index_block (unat (ti_entry_count header)) table_index_header_size = Some ies"
  shows "cached_index s' reference = None \<or> cached_index s' reference = Some (index_list ies)"
proof (cases "db_table_index_cache s = []")
  case True
  then have "s' = s" using assms(1) by (auto simp: cache_table_index_def split: if_splits)
  then show ?thesis using True by (simp add: cached_index_def)
next
  case False
  then have slot: "unat (tr_slot reference) < length (db_table_index_cache s)"
    using assms(1,2) by (auto simp: cache_table_index_def caches_sized_def table_slot_exists_def word_less_nat_alt split: if_splits)
  obtain entries end_at where entries: "cached_index_entries index_block (unat (ti_entry_count header)) table_index_header_size =
      Some (entries, end_at)"
    "s' = set_index_cache (tr_slot reference) \<lparr>ic_generation = tr_generation reference, ic_valid = True, ic_entries = entries\<rparr>
       (set_index_cache (tr_slot reference) empty_index_cache s)"
    using assms(1,3) False
    by (auto simp: cache_table_index_def Let_def split: if_splits option.splits prod.splits)
  have "entries = index_list ies" using cached_index_entries_list [OF entries(1)] assms(4) by simp
  then show ?thesis using slot by (simp add: cached_index_def entries(2) set_index_cache_def Let_def)
qed

text \<open>The steps of a successful validation.\<close>

definition validation_start :: "u32 \<Rightarrow> 'd world \<Rightarrow> 'd world" where
  "validation_start slot w = update_db (\<lambda>s. reset_table_key_filter slot (invalidate_table_index_cache slot s)) w"

lemma validation_start_simps [simp]:
  "fst (validation_start slot w) = fst w" "db_manifest (snd (validation_start slot w)) = db_manifest (snd w)"
  by (simp_all add: validation_start_def reset_table_key_filter_def invalidate_table_index_cache_def set_index_cache_def)

lemma validate_table_succeeds:
  assumes validate: "validate_table cfg dev reference value_bank w = (ESP_OK, w')" and dev: "errors_reported dev"
  defines "w1 \<equiv> validation_start (tr_slot reference) w"
  shows "tr_active reference \<and> table_slot_exists (snd w) (tr_slot reference) \<and>
    (\<exists>footer index_block header ok scan w2.
      load_table_footer cfg dev reference w1 = Inr footer \<and>
      load_table_index cfg dev (tr_slot reference) footer w1 = Inr (index_block, header) \<and>
      validate_blocks cfg dev ok footer (tr_slot reference) index_block [0..<unat (tm_data_block_count footer)]
        \<lparr>sc_content_crc = - 1, sc_index_entry_offset = table_index_header_size, sc_total_entries = 0,
         sc_total_data_bytes = 0, sc_previous_key = None\<rparr> w1 = (Inr scan, w2) \<and>
      table_totals_match scan index_block footer header \<and>
      cache_table_index cfg reference index_block (publish_table_key_filter reference (snd w2)) = (ESP_OK, snd w') \<and>
      fst w' = fst w2)"
proof -
  let ?slot = "tr_slot reference"
  have active: "tr_active reference" and slot: "table_slot_exists (snd w) ?slot"
    using validate by (auto simp: validate_table_def split: if_splits)
  note run = validate [unfolded validate_table_def Let_def, folded validation_start_def w1_def]
  have not_error: "r = Inr (projr r)" if "on_value r w1 k = (ESP_OK, w')" "honest r" for r :: "esp_err + 'b" and k
    using that by (cases r) (simp_all add: on_value_def)
  have guard: "\<not> (\<not> tr_active reference \<or> \<not> table_slot_exists (snd w) ?slot)" using active slot by simp
  note run = run [unfolded if_not_P [OF guard]]
  obtain bank generation tail where "resolve_value_bank (snd w1) value_bank = Inr (bank, generation, tail)"
    using not_error [OF run honest_resolve_value_bank] by (metis prod_cases3)
  note run = run [unfolded this on_value_def [of "Inr _"] sum.case prod.case]
  obtain footer where footer: "load_table_footer cfg dev reference w1 = Inr footer"
    using not_error [OF run honest_load_table_footer [OF dev]] by blast
  note run = run [unfolded this on_value_def [of "Inr _"] sum.case]
  obtain n where "count_valid_headers cfg dev ?slot footer [0..<table_header_slot_count] 0 w1 = Inr n"
    using not_error [OF run honest_count_valid_headers [OF dev]] by blast
  note run = run [unfolded this on_value_def [of "Inr _"] sum.case]
  have n: "n \<noteq> 0" using run by (auto split: if_splits)
  note run = run [unfolded if_not_P [OF n]]
  obtain index_block header where index: "load_table_index cfg dev ?slot footer w1 = Inr (index_block, header)"
    using not_error [OF run honest_load_table_index [OF dev]] by (metis surj_pair)
  note run = run [unfolded this on_value_def [of "Inr _"] sum.case prod.case]
  obtain scan w2 where blocks: "validate_blocks cfg dev (\<lambda>r. value_ref_matches_bank cfg (mr_geometry (db_manifest (snd w1))) r bank
      generation tail) footer ?slot index_block [0..<unat (tm_data_block_count footer)]
      \<lparr>sc_content_crc = - 1, sc_index_entry_offset = table_index_header_size, sc_total_entries = 0,
       sc_total_data_bytes = 0, sc_previous_key = None\<rparr> w1 = (Inr scan, w2)"
    and last: "(if \<not> table_totals_match scan index_block footer header then (ESP_ERR_INVALID_CRC, w2)
      else (case cache_table_index cfg reference index_block (snd (update_db (publish_table_key_filter reference) w2)) of
        (ret, s) \<Rightarrow> (ret, fst (update_db (publish_table_key_filter reference) w2), s))) = (ESP_OK, w')"
    using on_result_succeeds [OF run honest_validate_blocks [OF dev]] by blast
  have "table_totals_match scan index_block footer header" using last by (auto split: if_splits)
  moreover have "cache_table_index cfg reference index_block (publish_table_key_filter reference (snd w2)) = (ESP_OK, snd w')"
    "fst w' = fst w2"
    using last by (auto split: if_splits prod.splits)
  ultimately show ?thesis using active slot footer index blocks by blast
qed

lemma decoded_then_Inr:
  "(case r of Inl status \<Rightarrow> Inl (g status) | Inr x \<Rightarrow> k x) = Inr y \<longleftrightarrow> (\<exists>x. r = Inr x \<and> k x = Inr y)"
  by (cases r) simp_all

lemma load_table_footer_D:
  assumes "load_table_footer cfg dev reference w = Inr footer" "tr_active reference"
  shows "tm_generation footer = tr_generation reference" "tm_data_block_count footer = tr_data_block_count reference"
    "tm_max_sequence footer = tr_max_sequence reference" "tm_entry_count footer = tr_entry_count reference"
    "tm_block_size footer = table_block_bytes (snd w)" "tm_index_offset footer = table_index_offset (snd w)"
proof -
  obtain encoded where decoded: "decode_table_metadata encoded table_footer_magic = Inr footer"
    and equal: "table_reference_equal reference (make_table_reference footer)"
    and sizes: "tm_block_size footer = table_block_bytes (snd w)" "tm_footer_offset footer = table_footer_offset (snd w)"
    using assms(1) by (auto simp: load_table_footer_def then_read_Inr require_that_Inr decoded_then_Inr)
  show "tm_generation footer = tr_generation reference" "tm_data_block_count footer = tr_data_block_count reference"
    "tm_max_sequence footer = tr_max_sequence reference" "tm_entry_count footer = tr_entry_count reference"
    using equal assms(2) by (simp_all add: table_reference_equal_def make_table_reference_def)
  show "tm_block_size footer = table_block_bytes (snd w)" by (fact sizes)
  show "tm_index_offset footer = table_index_offset (snd w)" by (rule footer_index_offset [OF decoded sizes])
qed

lemma load_table_index_D:
  assumes "load_table_index cfg dev slot footer w = Inr (index_block, header)"
  shows "read_table_bytes cfg dev slot (ucast (tm_index_offset footer)) (unat (tm_block_size footer)) w = Inr index_block"
    "decode_table_index_header index_block = Inr header" "ti_generation header = tm_generation footer"
    "ti_data_block_count header = tm_data_block_count footer" "ti_entry_count header = ti_data_block_count header"
proof -
  show *: "read_table_bytes cfg dev slot (ucast (tm_index_offset footer)) (unat (tm_block_size footer)) w = Inr index_block"
    "decode_table_index_header index_block = Inr header" "ti_generation header = tm_generation footer"
    "ti_data_block_count header = tm_data_block_count footer"
    using assms by (auto simp: load_table_index_def then_read_Inr require_that_Inr decoded_then_Inr)
  show "ti_entry_count header = ti_data_block_count header"
    using decode_table_index_header_InrD(1) [OF *(2)] by (simp add: valid_table_index_header_def)
qed

lemma invalidate_start:
  "filters_sized s \<Longrightarrow> filters_sized (invalidate_table_index_cache slot s)"
  "table_slot_exists (invalidate_table_index_cache slot s) slot' = table_slot_exists s slot'"
  by (simp_all add: invalidate_table_index_cache_def set_index_cache_def filters_sized_def table_slot_exists_def)

lemma caches_start: "caches_sized s \<Longrightarrow> caches_sized (reset_table_key_filter slot (invalidate_table_index_cache slot s))"
  by (auto simp: caches_sized_def reset_table_key_filter_def invalidate_table_index_cache_def set_index_cache_def)

lemma validate_table_validated:
  assumes validate: "validate_table cfg dev reference value_bank w = (ESP_OK, w')" and dev: "errors_reported dev"
    and sized: "filters_sized (snd w)" "caches_sized (snd w)"
  shows "fst w' = fst w \<and> db_manifest (snd w') = db_manifest (snd w) \<and> (\<exists>ies ess. table_validated cfg dev reference w' ies ess)"
proof -
  let ?slot = "tr_slot reference"
  define w1 where "w1 = validation_start ?slot w"
  obtain footer index_block header ok scan w2 where
    active: "tr_active reference" "table_slot_exists (snd w) ?slot"
    and footer: "load_table_footer cfg dev reference w1 = Inr footer"
    and index: "load_table_index cfg dev ?slot footer w1 = Inr (index_block, header)"
    and blocks: "validate_blocks cfg dev ok footer ?slot index_block [0..<unat (tm_data_block_count footer)]
        \<lparr>sc_content_crc = - 1, sc_index_entry_offset = table_index_header_size, sc_total_entries = 0,
         sc_total_data_bytes = 0, sc_previous_key = None\<rparr> w1 = (Inr scan, w2)"
    and totals: "table_totals_match scan index_block footer header"
    and cache: "cache_table_index cfg reference index_block (publish_table_key_filter reference (snd w2)) = (ESP_OK, snd w')"
    and same: "fst w' = fst w2"
    using validate_table_succeeds [OF validate dev] unfolding w1_def [symmetric] by blast
  note F = load_table_footer_D [OF footer active(1)] and I = load_table_index_D [OF index]
  obtain ies ess where B: "index_entries_at index_block (unat (tm_data_block_count footer)) table_index_header_size = Some ies"
    "blocks_ok cfg dev ?slot (tm_generation footer) (tm_max_sequence footer) w1 [0..<unat (tm_data_block_count footer)] ies ess"
    "sorted_wrt (<) (map entry_key (concat ess))" "sc_total_entries scan = of_nat (length (concat ess))"
    "w2 = (fst w1, add_keys ?slot (concat ess) (snd w1))"
    using validate_blocks_D [OF blocks F(5)] by (auto simp: keys_after_def)
  have w1: "fst w1 = fst w" "db_manifest (snd w1) = db_manifest (snd w)" by (simp_all add: w1_def)
  have published: "db_manifest (publish_table_key_filter reference s) = db_manifest s"
    "db_table_index_cache (publish_table_key_filter reference s) = db_table_index_cache s" for s
    by (simp_all add: publish_table_key_filter_def)
  note C = cache_table_index_fields [OF cache]
  have w': "fst w' = fst w1" "db_manifest (snd w') = db_manifest (snd w1)"
    using C same by (simp_all add: B(5) published)
  have entries: "index_entries_at index_block (unat (ti_entry_count header)) table_index_header_size = Some ies"
    using B(1) I(4,5) by simp
  have sized1: "filters_sized (snd w1)" "table_slot_exists (snd w1) ?slot" "caches_sized (snd w1)"
    using sized active(2)
    by (simp_all add: w1_def validation_start_def reset_filter invalidate_start caches_start)
  let ?s2 = "add_keys ?slot (concat ess) (snd w1)"
  have covers: "filters_sized ?s2" "\<forall>key \<in> entry_key ` set (concat ess). filter_covers ?s2 ?slot key" "table_slot_exists ?s2 ?slot"
    using add_keys_covers [OF sized1(1,2), of "concat ess"] sized1(2) by (auto simp: table_slot_exists_def)
  have "filter_covers (snd w') ?slot key \<longleftrightarrow> filter_covers (publish_table_key_filter reference ?s2) ?slot key" for key
    using C unfolding filter_covers_def B(5) snd_conv by simp
  then have "filter_covers (snd w') ?slot (entry_key e)" if "e \<in> set (concat ess)" for e
    using publish_filter_covers [OF covers(1,3)] covers(2) imageI [OF that, of entry_key] by blast
  then have contains: "\<forall>e \<in> set (concat ess). table_key_filter_may_contain (snd w') reference (entry_key e)"
    using filter_covers_may_contain by blast
  have "caches_sized (publish_table_key_filter reference ?s2)" using sized1(3) by (simp add: caches_sized_def published)
  note cached = cache_table_index_cached [OF cache [unfolded B(5) snd_conv] this I(2) entries]
  have reading: "read_table_bytes cfg dev ?slot (ucast (table_index_offset (snd w'))) (unat (table_block_bytes (snd w'))) w' = Inr index_block"
    using I(1) read_table_bytes_cong [OF w'] w'(2) by (simp add: F(5,6) table_index_offset_def table_footer_offset_def table_block_bytes_def)
  have "blocks_ok cfg dev ?slot (tr_generation reference) (tr_max_sequence reference) w'
      [0..<unat (tr_data_block_count reference)] ies ess"
    using B(2) block_ok_cong [OF w'] by (simp add: blocks_ok_def F)
  then have "table_validated cfg dev reference w' ies ess"
    using active(1) index_entries_offsets [OF entries] B(3,4) totals cached contains reading I(2-4) entries
    by (auto simp: table_validated_def table_totals_match_def F)
  then show ?thesis using w1 w' by metis
qed

text \<open>C8: Equivalence. A table that passes validation, with whatever its bytes are, is a map. Its blocks, read one after the
  other, decode to entries with strictly ascending keys and as many as its reference says; the lookup of any key,
  through the stored or the cached index and one data block, finds exactly what a linear search through all entries
  finds; no key of an entry is turned away by the key filter, and no entry is newer than the reference says.
  Validation writes nothing and leaves the manifest alone.\<close>

theorem validated_table_is_map:
  assumes "validate_table cfg dev reference value_bank w = (ESP_OK, w')" "errors_reported dev"
    and "filters_sized (snd w)" "caches_sized (snd w)"
  shows "fst w' = fst w \<and> db_manifest (snd w') = db_manifest (snd w) \<and>
    (\<exists>es. table_contents cfg dev reference w' = Some es \<and> sorted_wrt (<) (map entry_key es) \<and>
       of_nat (length es) = tr_entry_count reference \<and>
       (\<forall>key. lookup_table cfg dev reference key w' = found_entry (find (\<lambda>e. entry_key e = key) es)) \<and>
       (\<forall>e \<in> set es. table_key_filter_may_contain (snd w') reference (entry_key e) \<and>
          te_transaction_sequence e \<le> tr_max_sequence reference))"
proof -
  from validate_table_validated [OF assms] obtain ies ess where same: "fst w' = fst w" "db_manifest (snd w') = db_manifest (snd w)"
    and table: "table_validated cfg dev reference w' ies ess" by blast
  have newest: "te_transaction_sequence e \<le> tr_max_sequence reference" if e: "e \<in> set (concat ess)" for e
  proof -
    have blocks: "blocks_ok cfg dev (tr_slot reference) (tr_generation reference) (tr_max_sequence reference) w'
        [0..<unat (tr_data_block_count reference)] ies ess"
      using table unfolding table_validated_def by blast
    obtain es where "es \<in> set ess" "e \<in> set es" using e by auto
    then obtain j where "j < length ess" "e \<in> set (ess ! j)" by (metis in_set_conv_nth)
    then show ?thesis using blocks by (auto simp: blocks_ok_def block_ok_def)
  qed
  have facts: "sorted_wrt (<) (map entry_key (concat ess))" "of_nat (length (concat ess)) = tr_entry_count reference"
    "\<forall>e \<in> set (concat ess). table_key_filter_may_contain (snd w') reference (entry_key e)"
    using table unfolding table_validated_def by blast+
  show ?thesis
    using same facts newest table_validated_contents [OF table] table_validated_lookup [OF table]
    unfolding find_entry_def by blast
qed

text \<open>C36: Equivalence. The in-place heap sort that orders the records of a flush or a compaction is a sort: the keys it
  leaves are the sorted keys of the records, and no record is lost or duplicated.\<close>

theorem sort_memtable_offsets_sorts:
  "map (memtable_composite_key s) (sort_memtable_offsets s offsets (length offsets)) = sort (map (memtable_composite_key s) offsets) \<and>
   mset (sort_memtable_offsets s offsets (length offsets)) = mset offsets"
proof -
  let ?sorted = "sort_memtable_offsets s offsets (length offsets)"
  note S = memtable_order.sort_offsets_sorted [where s = s and xs = offsets, OF order_refl, folded sort_memtable_offsets_def]
  have len: "length ?sorted = length offsets" using S(1) by (metis size_mset)
  have "sorted (map (memtable_composite_key s) ?sorted)"
    using S(2) by (simp add: sorted_iff_nth_mono_less len compare_memtable_records_def compare_keys)
  then show ?thesis using S(1) by (metis mset_map properties_for_sort)
qed

end
