(* ===== verification/Sample_Table.thy ===== *)
theory Sample_Table
  imports Table_Lookup
begin

text \<open>
  A concrete table for the examples: one data block with one entry, its index, the two headers and the
  footer, written by the encoders into slot 2 of the host image.
\<close>

section \<open>Decoders look only behind their offset\<close>

lemma same_behind:
  assumes "drop off b = drop off b'" "length b = length b'" "off \<le> length b"
  shows "get b (off + i) n = get b' (off + i) n" "b ! (off + i) = b' ! (off + i)"
    "is_zero_range b (off + i) n = is_zero_range b' (off + i) n"
proof -
  show "get b (off + i) n = get b' (off + i) n"
    using arg_cong [OF assms(1), of "drop i"] by (simp add: get_def add.commute)
  have same: "b ! (off + j) = b' ! (off + j)" for j
    using arg_cong [OF assms(1), of "\<lambda>x. x ! j"] assms(2,3) by simp
  show "b ! (off + i) = b' ! (off + i)" by (rule same)
  show "is_zero_range b (off + i) n = is_zero_range b' (off + i) n"
    using same by (simp add: is_zero_range_def add.assoc)
qed

lemma decode_table_entry_cong:
  assumes "drop off b = drop off b'" "length b = length b'"
  shows "decode_table_entry b off = decode_table_entry b' off"
proof (cases "is_range_valid (length b') off table_entry_header_size")
  case True
  then have len: "off + 24 \<le> length b'" by (simp add: is_range_valid_iff format_consts)
  note same = same_behind [OF assms]
  have "get b off 4 = get b' off 4" using same(1) [of 0 4] len assms(2) by simp
  then show ?thesis using len True assms same
    by (simp add: decode_table_entry_def format_consts buffer_simps Let_def add.assoc)
next
  case False
  then show ?thesis by (simp add: decode_table_entry_def assms(2))
qed

lemma decode_table_index_entry_cong:
  assumes "drop off b = drop off b'" "length b = length b'"
  shows "decode_table_index_entry b off = decode_table_index_entry b' off"
proof (cases "is_range_valid (length b') off table_index_entry_header_size")
  case True
  then have len: "off + 16 \<le> length b'" by (simp add: is_range_valid_iff format_consts)
  note same = same_behind [OF assms]
  have "get b off 2 = get b' off 2" using same(1) [of 0 2] len assms(2) by simp
  then show ?thesis using len True assms(2) same same(2) [of 2]
    by (simp add: decode_table_index_entry_def format_consts buffer_simps Let_def add.assoc)
next
  case False
  then show ?thesis by (simp add: decode_table_index_entry_def assms(2))
qed

section \<open>The blocks\<close>

definition sample_data_block :: bytes where
  "sample_data_block =
     the (encode_table_block_header (fst (the (encode_table_entry (zeroes 16384) 64 sample_entry)))
       \<lparr>tb_generation = 2, tb_block_index = 0, tb_entry_count = 1, tb_payload_size = 32\<rparr>)"

definition sample_index_entry :: table_index_entry where
  "sample_index_entry = \<lparr>tx_first_sequence = 5, tx_block_offset = 16384, tx_total_size = 0, tx_namespace = [97], tx_key = [98, 99]\<rparr>"

definition sample_index_block :: bytes where
  "sample_index_block =
     the (encode_table_index_header (fst (the (encode_table_index_entry (zeroes 16384) 64 sample_index_entry)))
       \<lparr>ti_generation = 2, ti_entry_count = 1, ti_payload_size = 20, ti_data_block_count = 1\<rparr>)"

lemma drop_get: "length b = off + n \<Longrightarrow> drop off b = get b off n"
  by (simp add: get_def)

lemma sample_data_block:
  "length sample_data_block = 16384"
  "decode_table_block_header sample_data_block =
     Inr \<lparr>tb_generation = 2, tb_block_index = 0, tb_entry_count = 1, tb_payload_size = 32\<rparr>"
  "decode_table_entry sample_data_block 64 = Inr (sample_entry\<lparr>te_total_size := 32\<rparr>)"
proof -
  let ?h = "\<lparr>tb_generation = 2, tb_block_index = 0, tb_entry_count = 1, tb_payload_size = 32\<rparr> :: table_block_header"
  obtain b where b: "encode_table_entry (zeroes 16384) 64 sample_entry = Some (b, 32)" "length b = 16384"
    "decode_table_entry b 64 = Inr (sample_entry\<lparr>te_total_size := 32\<rparr>)"
    "\<forall>i n. i + n \<le> 64 \<or> 96 \<le> i \<longrightarrow> get b i n = get (zeroes 16384) i n"
    using table_entry_roundtrip [OF sample_entry_valid(1), of 64 "zeroes 16384"] by (auto simp: sample_entry_valid(2))
  have "padded_block b 32" using b(2,4) by (simp add: padded_block_def get_zeroes)
  then obtain c where c: "encode_table_block_header b ?h = Some c" "length c = 16384" "decode_table_block_header c = Inr ?h"
    "get c 64 16320 = get b 64 16320"
    using table_block_header_roundtrip [of b ?h] b(2) by (auto simp: valid_table_block_header_def)
  have eq: "sample_data_block = c" by (simp add: sample_data_block_def b(1) c(1))
  have "drop 64 c = drop 64 b" using c(2,4) b(2) by (simp add: drop_get [where n = 16320])
  from decode_table_entry_cong [OF this] b(2,3) c show "length sample_data_block = 16384"
    "decode_table_block_header sample_data_block = Inr ?h"
    "decode_table_entry sample_data_block 64 = Inr (sample_entry\<lparr>te_total_size := 32\<rparr>)"
    by (simp_all add: eq)
qed

lemma sample_index_block:
  "length sample_index_block = 16384"
  "decode_table_index_header sample_index_block =
     Inr \<lparr>ti_generation = 2, ti_entry_count = 1, ti_payload_size = 20, ti_data_block_count = 1\<rparr>"
  "decode_table_index_entry sample_index_block 64 = Inr (sample_index_entry\<lparr>tx_total_size := 20\<rparr>)"
proof -
  let ?h = "\<lparr>ti_generation = 2, ti_entry_count = 1, ti_payload_size = 20, ti_data_block_count = 1\<rparr> :: table_index_header"
  have valid: "valid_table_index_entry sample_index_entry" "index_entry_size sample_index_entry = 20"
    by (simp_all add: valid_table_index_entry_def sample_index_entry_def index_entry_size_def valid_name_length format_consts align4_def)
  obtain b where b: "encode_table_index_entry (zeroes 16384) 64 sample_index_entry = Some (b, 20)" "length b = 16384"
    "decode_table_index_entry b 64 = Inr (sample_index_entry\<lparr>tx_total_size := 20\<rparr>)"
    "\<forall>i n. i + n \<le> 64 \<or> 84 \<le> i \<longrightarrow> get b i n = get (zeroes 16384) i n"
    using table_index_entry_roundtrip [OF valid(1), of 64 "zeroes 16384"] by (auto simp: valid(2))
  have "padded_block b 20" using b(2,4) by (simp add: padded_block_def get_zeroes)
  then obtain c where c: "encode_table_index_header b ?h = Some c" "length c = 16384" "decode_table_index_header c = Inr ?h"
    "get c 64 16320 = get b 64 16320"
    using table_index_header_roundtrip [of b ?h] b(2) by (auto simp: valid_table_index_header_def)
  have eq: "sample_index_block = c" by (simp add: sample_index_block_def b(1) c(1))
  have "drop 64 c = drop 64 b" using c(2,4) b(2) by (simp add: drop_get [where n = 16320])
  from decode_table_index_entry_cong [OF this] b(2,3) c show "length sample_index_block = 16384"
    "decode_table_index_header sample_index_block = Inr ?h"
    "decode_table_index_entry sample_index_block 64 = Inr (sample_index_entry\<lparr>tx_total_size := 20\<rparr>)"
    by (simp_all add: eq)
qed

section \<open>The table\<close>

definition sample_footer :: table_metadata where
  "sample_footer = sample_metadata\<lparr>tm_slot := 2, tm_entry_count := 1, tm_data_bytes := 32,
     tm_content_checksum := NOT (calc_crc32_update (calc_crc32_update (- 1) sample_data_block) sample_index_block)\<rparr>"

definition sample_table_file :: bytes where
  "sample_table_file =
     (let header = the (encode_table_metadata (zeroes 640) table_header_magic sample_footer);
          footer = the (encode_table_metadata (zeroes 640) table_footer_magic sample_footer) in
      put (put (put (put (put (zeroes 118784) 8192 header) 12288 header) 16384 sample_data_block) 98304 sample_index_block)
        114688 footer)"

lemma sample_table_file:
  "length sample_table_file = 118784"
  "decode_table_metadata (get sample_table_file 8192 640) table_header_magic = Inr sample_footer"
  "decode_table_metadata (get sample_table_file 12288 640) table_header_magic = Inr sample_footer"
  "decode_table_metadata (get sample_table_file 114688 640) table_footer_magic = Inr sample_footer"
  "get sample_table_file 16384 16384 = sample_data_block"
  "get sample_table_file 98304 16384 = sample_index_block"
proof -
  have valid: "valid_table_metadata sample_footer"
    by (simp add: sample_footer_def valid_table_metadata_def sample_metadata_def format_consts checked_mul_def
        checked_add_def valid_composite_key_def validate_bytes_def compare_composite_key_def memcmp_def)
  obtain h where h: "encode_table_metadata (zeroes 640) table_header_magic sample_footer = Some h" "length h = 640"
    "decode_table_metadata h table_header_magic = Inr sample_footer"
    using table_metadata_roundtrip [OF valid, of table_header_magic "zeroes 640"] by auto
  obtain f where f: "encode_table_metadata (zeroes 640) table_footer_magic sample_footer = Some f" "length f = 640"
    "decode_table_metadata f table_footer_magic = Inr sample_footer"
    using table_metadata_roundtrip [OF valid, of table_footer_magic "zeroes 640"] by auto
  note facts = sample_table_file_def h f sample_data_block(1) sample_index_block(1)
  show "length sample_table_file = 118784"
    "decode_table_metadata (get sample_table_file 8192 640) table_header_magic = Inr sample_footer"
    "decode_table_metadata (get sample_table_file 12288 640) table_header_magic = Inr sample_footer"
    "decode_table_metadata (get sample_table_file 114688 640) table_footer_magic = Inr sample_footer"
    "get sample_table_file 16384 16384 = sample_data_block"
    "get sample_table_file 98304 16384 = sample_index_block"
    by (simp_all add: facts buffer_simps)
qed

definition sample_table_image :: bytes where
  "sample_table_image = put host_image (region_start (get_build_geometry host_config) kind_table 2) sample_table_file"

text \<open>The table is read in every state with the geometry of the sample manifest.\<close>

lemma sample_table_bytes:
  assumes "mr_geometry (db_manifest s) = get_build_geometry host_config" "unat offset + n \<le> 118784"
  shows "read_table_bytes host_config sample_device 2 offset n (sample_table_image, s) = Inr (get sample_table_file (unat offset) n)"
proof -
  let ?w = "(sample_table_image, s)" and ?g = "get_build_geometry host_config"
  have geo: "db_geometry host_config s = ?g" "mr_geometry (db_manifest s) = ?g"
    using assms(1) by (simp_all add: db_geometry_def)
  have start: "region_start ?g kind_table 2 = 376832" "region_size ?g kind_table = 118784" "region_exists ?g kind_table 2"
    by (simp_all add: region_start_def region_size_def region_exists_def wal_bytes_def get_build_geometry_def host_config_def format_consts)
  have image: "length sample_table_image = 1155072" "get sample_table_image 376832 118784 = sample_table_file"
    by (simp_all add: sample_table_image_def start host_image_def sample_table_file(1) buffer_simps)
  have "working_store host_config sample_device id ?w"
    using host_storage image(1)
    by (simp add: working_store_def working_storage_def geo host_image_def sample_device_def)
  from read_store_ok [OF this, of kind_table 2 offset n] show ?thesis
    using assms(2) start image
    by (simp add: read_table_bytes_def store_exists_def store_size_def geo store_bytes_def region_bytes_def)
       (simp add: get_build_geometry_def host_config_def)
qed

lemma sample_table_read:
  assumes "db_manifest s = sample_manifest" "unat offset + n \<le> 118784"
  shows "read_table_bytes host_config sample_device 2 offset n (sample_table_image, s) = Inr (get sample_table_file (unat offset) n)"
  using assms by (intro sample_table_bytes) (simp_all add: sample_manifest_def)

section \<open>Its validation\<close>

lemma sample_load_footer:
  assumes "db_manifest s = sample_manifest"
  shows "load_table_footer host_config sample_device (make_table_reference sample_footer) (sample_table_image, s) = Inr sample_footer"
proof -
  have offset: "table_footer_offset s = 114688" "table_block_bytes s = 16384"
    using assms by (simp_all add: table_footer_offset_def table_block_bytes_def sample_manifest_def get_build_geometry_def
        get_build_limits_def host_config_def format_consts)
  have equal: "table_reference_equal r r" for r by (simp add: table_reference_equal_def)
  have fields: "tr_slot (make_table_reference sample_footer) = 2" "tm_block_size sample_footer = 16384" "tm_footer_offset sample_footer = 114688"
    by (simp_all add: make_table_reference_def sample_footer_def sample_metadata_def)
  show ?thesis
    using sample_table_read [OF assms, of 114688 640] sample_table_file(4)
    by (simp add: load_table_footer_def fields offset format_consts then_read_def require_that_def equal)
qed

lemma sample_count_headers:
  assumes "db_manifest s = sample_manifest"
  shows "count_valid_headers host_config sample_device 2 sample_footer [0..<table_header_slot_count] 0 (sample_table_image, s) = Inr 2"
  using sample_table_read [OF assms, of 8192 640] sample_table_read [OF assms, of 12288 640] sample_table_file(2,3)
  by (simp add: format_consts upt_rec table_metadata_equal_iff)

lemma sample_load_index:
  assumes "db_manifest s = sample_manifest"
  shows "load_table_index host_config sample_device 2 sample_footer (sample_table_image, s) =
    Inr (sample_index_block, \<lparr>ti_generation = 2, ti_entry_count = 1, ti_payload_size = 20, ti_data_block_count = 1\<rparr>)"
  using sample_table_read [OF assms, of 98304 16384] sample_table_file(6) sample_index_block(2)
  by (simp add: load_table_index_def then_read_def require_that_def sample_footer_def sample_metadata_def)

lemma sample_validate_blocks:
  assumes "db_manifest s = sample_manifest"
  shows "validate_blocks host_config sample_device ok sample_footer 2 sample_index_block [0..<unat (tm_data_block_count sample_footer)]
      \<lparr>sc_content_crc = - 1, sc_index_entry_offset = table_index_header_size, sc_total_entries = 0,
       sc_total_data_bytes = 0, sc_previous_key = None\<rparr> (sample_table_image, s) =
    (Inr \<lparr>sc_content_crc = calc_crc32_update (- 1) sample_data_block, sc_index_entry_offset = 84, sc_total_entries = 1,
       sc_total_data_bytes = 32, sc_previous_key = Some (entry_key sample_entry)\<rparr>,
     sample_table_image, add_table_key_filter 2 (entry_key sample_entry) s)"
proof -
  have fields: "unat (tm_data_block_count sample_footer) = 1" "tm_generation sample_footer = 2" "tm_block_size sample_footer = 16384"
    "tm_min_sequence sample_footer = 1" "tm_max_sequence sample_footer = 9"
    by (simp_all add: sample_footer_def sample_metadata_def)
  have offset: "expected_block_offset s 0 = 16384" by (simp add: expected_block_offset_def format_consts)
  have entry: "\<not> table_entry_invalid ok sample_footer (sample_index_entry\<lparr>tx_total_size := 20\<rparr>) True None (sample_entry\<lparr>te_total_size := 32\<rparr>)"
    by (simp add: table_entry_invalid_def fields sample_entry_def sample_index_entry_def valid_table_value_def te_external_def
        te_tombstone_def memcmp_def)
  have key: "entry_key (sample_entry\<lparr>te_total_size := 32\<rparr>) = entry_key sample_entry" by (simp add: entry_key_def)
  have size: "tx_block_offset sample_index_entry = 16384" by (simp add: sample_index_entry_def)
  show ?thesis
    using sample_table_read [OF assms, of 16384 16384] sample_table_file(5) sample_data_block sample_index_block entry
    by (simp add: fields offset format_consts key size)
qed

lemma sample_table_validates:
  "\<exists>w'. validate_table host_config sample_device (make_table_reference sample_footer) (Some (0, 1, 8192))
     (sample_table_image, host_db) = (ESP_OK, w')"
proof -
  let ?r = "make_table_reference sample_footer"
  define s where "s = snd (validation_start 2 (sample_table_image, host_db))"
  have w: "validation_start 2 (sample_table_image, host_db) = (sample_table_image, s)"
    by (metis s_def fst_conv prod.collapse validation_start_simps(1))
  have manifest: "db_manifest s = sample_manifest" "db_manifest host_db = sample_manifest"
    by (simp_all add: s_def host_db_def)
  have slot: "tr_slot ?r = 2" "tr_active ?r" "tr_data_block_count ?r = 1" "tr_generation ?r = 2"
    by (simp_all add: make_table_reference_def sample_footer_def sample_metadata_def)
  have exists: "table_slot_exists s' 2" if "db_manifest s' = sample_manifest" for s'
    using that by (simp add: table_slot_exists_def sample_manifest_def get_build_geometry_def host_config_def)
  have bank: "resolve_value_bank s (Some (0, 1, 8192)) = Inr (0, 1, 8192)"
    by (simp add: resolve_value_bank_def manifest then_read_def require_that_def sample_manifest_def get_build_geometry_def
        host_config_def format_consts)
  let ?scan = "\<lparr>sc_content_crc = calc_crc32_update (- 1) sample_data_block, sc_index_entry_offset = 84, sc_total_entries = 1,
       sc_total_data_bytes = 32, sc_previous_key = Some (entry_key sample_entry)\<rparr>"
  let ?header = "\<lparr>ti_generation = 2, ti_entry_count = 1, ti_payload_size = 20, ti_data_block_count = 1\<rparr> :: table_index_header"
  have totals: "table_totals_match ?scan sample_index_block sample_footer ?header"
    by (simp add: table_totals_match_def sample_footer_def format_consts)
  let ?s = "publish_table_key_filter ?r (add_table_key_filter 2 (entry_key sample_entry) s)"
  have same: "db_manifest ?s = sample_manifest"
    using manifest by (simp add: publish_table_key_filter_def add_table_key_filter_def Let_def)
  have "maximum_table_data_blocks host_config = 5"
    by (simp add: maximum_table_data_blocks_def host_config_def format_consts)
  then have "fst (cache_table_index host_config ?r sample_index_block ?s) = ESP_OK"
    using exists [OF same] slot sample_index_block by (simp add: cache_table_index_def format_consts Let_def)
  then obtain s' where cache: "cache_table_index host_config ?r sample_index_block ?s = (ESP_OK, s')"
    by (metis prod.collapse)
  show ?thesis
    unfolding validate_table_def Let_def slot(1) validation_start_def [symmetric] w
    using slot exists [OF manifest(2)] cache totals bank sample_load_footer [OF manifest(1)] sample_count_headers [OF manifest(1)]
      sample_load_index [OF manifest(1)] sample_validate_blocks [OF manifest(1)]
    by (simp add: on_value_def on_result_def update_db_def)
qed

lemma sample_device_reports: "errors_reported sample_device"
  by (simp add: errors_reported_def sample_device_def memory_device_def)

theorem validated_table_is_map_witness:
  "\<exists>w' es. validate_table host_config sample_device (make_table_reference sample_footer) (Some (0, 1, 8192))
       (sample_table_image, host_db) = (ESP_OK, w') \<and>
     table_contents host_config sample_device (make_table_reference sample_footer) w' = Some es \<and>
     (\<forall>key. lookup_table host_config sample_device (make_table_reference sample_footer) key w' =
        found_entry (find (\<lambda>e. entry_key e = key) es))"
proof -
  obtain w' where w': "validate_table host_config sample_device (make_table_reference sample_footer) (Some (0, 1, 8192))
      (sample_table_image, host_db) = (ESP_OK, w')"
    using sample_table_validates by blast
  have "filters_sized host_db" "caches_sized host_db"
    by (simp_all add: filters_sized_def caches_sized_def host_db_def initial_db_def sample_manifest_def get_build_geometry_def host_config_def)
  then show ?thesis
    using validated_table_is_map [OF w' sample_device_reports] w' by fastforce
qed

end
