(* ===== verification/Write_Confinement.thy ===== *)
theory Write_Confinement
  imports Untouched Sample_State
begin

text \<open>
  Where maintenance writes. The device of this theory may fail, tear writes or stop for ever: all that is
  asked of it is that a write changes no block it does not name. On such a device, flushing the memtable and
  compacting the tables, with every outcome they can have, write only the manifest, table slots no manifest
  uses and the inactive value bank. The proofs walk through the operations with one rule per combinator, as
  the ones of \<open>Untouched\<close> do for the state.
\<close>

section \<open>A device that writes where it is told\<close>

definition writes_confined :: "'d block_device \<Rightarrow> ('d \<Rightarrow> bytes) \<Rightarrow> bool" where
  "writes_confined dev img \<longleftrightarrow>
     (\<forall>d start src count.
        let d' = snd (bd_write_blocks dev d start src count); bs = unat (bd_block_size dev) in
        take (unat start * bs) (img d') = take (unat start * bs) (img d) \<and>
        drop ((unat start + unat count) * bs) (img d') = drop ((unat start + unat count) * bs) (img d)) \<and>
     (\<forall>d. img (snd (bd_sync dev d)) = img d)"

lemma memory_device_confined: "writes_confined (memory_device bs) id"
proof -
  have "take a (put b a xs) = take a b" "drop (a + n) (put b a xs) = drop (a + n) b"
    if "a + n \<le> length b" "length xs = n" for a n and b xs :: bytes
    using that by (simp_all add: put_def)
  then show ?thesis
    by (auto simp: writes_confined_def memory_device_def Let_def add_mult_distrib)
qed

lemma get_unchanged:
  assumes "take a b' = take a b" "drop e b' = drop e b" "i + n \<le> a \<or> e \<le> i"
  shows "get b' i n = get b i n"
  using assms(3)
proof
  assume "i + n \<le> a"
  then have "get c i n = take n (drop i (take a c))" for c by (simp add: get_def drop_take min_def)
  then show ?thesis using assms(1) by simp
next
  assume e: "e \<le> i"
  then have "get c i n = take n (drop (i - e) (drop e c))" for c by (simp add: get_def)
  then show ?thesis by (simp only: assms(2))
qed

text \<open>A write that changes the device is one access to the blocks of its range.\<close>

lemma write_storage_effect:
  assumes "snd (write_storage_bytes dev g d kind slot offset src) \<noteq> d"
  obtains ro rl absolute where "get_storage_region g kind slot = Inr (ro, rl)" "offset \<le> rl" "length src \<le> unat (rl - offset)"
    "block_size_supported (bd_block_size dev)" "unat offset mod unat (bd_block_size dev) = 0"
    "length src mod unat (bd_block_size dev) = 0" "checked_add ro offset = Some absolute"
    "length src div unat (bd_block_size dev) \<le> 0xFFFFFFFF"
    "snd (write_storage_bytes dev g d kind slot offset src) =
       snd (bd_write_blocks dev d (absolute div of_nat (unat (bd_block_size dev))) src (of_nat (length src div unat (bd_block_size dev))))"
proof -
  obtain ro rl where r: "get_storage_region g kind slot = Inr (ro, rl)"
    using assms by (cases "get_storage_region g kind slot") (auto simp: write_storage_bytes_def)
  note run = assms [unfolded write_storage_bytes_def Let_def r sum.case prod.case]
  obtain absolute where c: "checked_add ro offset = Some absolute"
    using run by (cases "checked_add ro offset") (simp_all split: if_splits)
  show thesis
    using run by (intro that [OF r _ _ _ _ _ c]) (simp_all add: c write_storage_bytes_def Let_def r split: if_splits)
qed

lemma write_storage_confined:
  assumes dev: "writes_confined dev img" and valid: "validate_storage_geometry g"
    and other: "region_exists g k s" "(k, s) \<noteq> (kind, slot)"
  shows "region_bytes g k s (img (snd (write_storage_bytes dev g d kind slot offset src))) = region_bytes g k s (img d)"
proof (cases "snd (write_storage_bytes dev g d kind slot offset src) = d")
  case False
  let ?bs = "unat (bd_block_size dev)" and ?n = "length src"
  obtain ro rl absolute where r: "get_storage_region g kind slot = Inr (ro, rl)" "offset \<le> rl" "?n \<le> unat (rl - offset)"
    and sup: "block_size_supported (bd_block_size dev)" and mods: "unat offset mod ?bs = 0" "?n mod ?bs = 0"
    and c: "checked_add ro offset = Some absolute" and few: "?n div ?bs \<le> 0xFFFFFFFF"
    and run: "snd (write_storage_bytes dev g d kind slot offset src) =
      snd (bd_write_blocks dev d (absolute div of_nat ?bs) src (of_nat (?n div ?bs)))"
    using write_storage_effect [OF False] by metis
  note bs = block_size_supported_D [OF sup]
  have ex: "region_exists g kind slot" by (rule get_storage_region_InrD [OF r(1)])
  have region: "unat ro = region_start g kind slot" "unat rl = region_size g kind"
    using get_storage_region_exact [OF valid ex] r(1) by auto
  define a where "a = region_start g kind slot + unat offset"
  have fits: "unat offset + ?n \<le> region_size g kind" using r(2,3) region(2) by (simp add: unat_sub word_le_nat_alt)
  have absolute: "unat absolute = a"
    using c region(1) by (auto simp: checked_add_eq a_def unat_add_exact split: if_splits)
  have "?bs dvd region_start g kind slot" by (rule dvd_trans [OF bs(3) region_alignment(1) [OF valid]])
  then have dvds: "?bs dvd a" "?bs dvd ?n" using mods by (simp_all add: a_def dvd_eq_mod_eq_0 [symmetric])
  have un: "unat (of_nat (?n div ?bs) :: u32) = ?n div ?bs" using few by simp
  have start: "unat (absolute div of_nat ?bs) = a div ?bs" using unat_div_block [OF bs(2,1), of absolute] absolute by simp
  have mult: "a div ?bs * ?bs = a" "(a div ?bs + ?n div ?bs) * ?bs = a + ?n" using dvds by (simp_all add: add_mult_distrib)
  note D = dev [unfolded writes_confined_def Let_def, THEN conjunct1, rule_format, of "absolute div of_nat ?bs" d src "of_nat (?n div ?bs)"]
  have "region_start g k s + region_size g k \<le> a \<or> a + ?n \<le> region_start g k s"
    using regions_disjoint [OF valid other(1) ex other(2)] fits unfolding a_def by linarith
  then show ?thesis
    using get_unchanged [OF D [THEN conjunct1, unfolded start un mult] D [THEN conjunct2, unfolded start un mult]]
    by (simp add: region_bytes_def run)
qed simp

section \<open>Writing only some regions\<close>

definition same_outside ::
  "config \<Rightarrow> ('d \<Rightarrow> bytes) \<Rightarrow> (file_kind \<times> u32) set \<Rightarrow> 'd world \<Rightarrow> 'd world \<Rightarrow> bool" where
  "same_outside cfg img A w' w \<longleftrightarrow>
     (\<forall>kind slot. store_exists cfg w kind slot \<longrightarrow> (kind, slot) \<notin> A \<longrightarrow>
        store_bytes cfg img w' kind slot = store_bytes cfg img w kind slot)"

text \<open>The result satisfies \<open>Q\<close>, the geometry is kept, and only the regions in \<open>A\<close> were written.\<close>

definition writes_only ::
  "config \<Rightarrow> 'd block_device \<Rightarrow> ('d \<Rightarrow> bytes) \<Rightarrow> (file_kind \<times> u32) set \<Rightarrow> ('e \<Rightarrow> bool) \<Rightarrow> 'e \<times> 'd world \<Rightarrow> 'd world \<Rightarrow> bool" where
  "writes_only cfg dev img A Q r w \<longleftrightarrow> Q (fst r) \<and>
     mr_geometry (db_manifest (snd (snd r))) = mr_geometry (db_manifest (snd w)) \<and>
     (writes_confined dev img \<and> validate_storage_geometry (db_geometry cfg (snd w)) \<longrightarrow> same_outside cfg img A (snd r) w)"

lemma same_outside_refl: "same_outside cfg img A w w"
  by (simp add: same_outside_def)

lemma same_outside_trans:
  assumes "same_outside cfg img A w2 w1" "same_outside cfg img A w1 w"
    and "mr_geometry (db_manifest (snd w1)) = mr_geometry (db_manifest (snd w))"
  shows "same_outside cfg img A w2 w"
  using assms by (simp add: same_outside_def store_exists_def db_geometry_def)

lemma same_outside_state:
  "fst w' = fst w \<Longrightarrow> mr_geometry (db_manifest (snd w')) = mr_geometry (db_manifest (snd w)) \<Longrightarrow> same_outside cfg img A w' w"
  by (cases w; cases w') (simp add: same_outside_def store_bytes_def db_geometry_def)

subsection \<open>Combinators\<close>

lemma writes_only_refl: "Q e \<Longrightarrow> writes_only cfg dev img A Q (e, w) w"
  by (simp add: writes_only_def same_outside_refl)

lemma writes_only_any: "writes_only cfg dev img A Q r w \<Longrightarrow> writes_only cfg dev img A (\<lambda>_. True) r w"
  by (simp add: writes_only_def)

text \<open>A step that leaves the device alone.\<close>

lemma writes_only_moved:
  "Q e \<Longrightarrow> fst w' = fst w \<Longrightarrow> mr_geometry (db_manifest (snd w')) = mr_geometry (db_manifest (snd w)) \<Longrightarrow>
     writes_only cfg dev img A Q (e, w') w"
  by (simp add: writes_only_def same_outside_state)

lemma writes_only_trans:
  assumes "writes_only cfg dev img A Q r w'" "writes_only cfg dev img A P (e, w') w"
  shows "writes_only cfg dev img A Q r w"
  using assms same_outside_trans [of cfg img A "snd r" w' w] by (auto simp: writes_only_def db_geometry_def)

lemma writes_only_update:
  "writes_only cfg dev img A Q r (update_db f w) \<Longrightarrow>
     mr_geometry (db_manifest (f (snd w))) = mr_geometry (db_manifest (snd w)) \<Longrightarrow> writes_only cfg dev img A Q r w"
  by (erule writes_only_trans [where P = "\<lambda>_. True" and e = "()"]) (simp add: writes_only_moved)

text \<open>A step, then a case distinction on its result.\<close>

lemma writes_only_then_geometry:
  assumes "writes_only cfg dev img A P r w"
    and "\<And>e w'. P e \<Longrightarrow> mr_geometry (db_manifest (snd w')) = mr_geometry (db_manifest (snd w)) \<Longrightarrow> writes_only cfg dev img A Q (k e w') w'"
  shows "writes_only cfg dev img A Q (case r of (e, w') \<Rightarrow> k e w') w"
proof -
  obtain e w' where r: "r = (e, w')" by (rule prod.exhaust)
  then have "writes_only cfg dev img A Q (k e w') w'" using assms by (simp add: writes_only_def)
  from writes_only_trans [OF this assms(1) [unfolded r]] show ?thesis by (simp add: r)
qed

lemma writes_only_then:
  assumes "writes_only cfg dev img A P r w" "\<And>e w'. P e \<Longrightarrow> writes_only cfg dev img A Q (k e w') w'"
  shows "writes_only cfg dev img A Q (case r of (e, w') \<Rightarrow> k e w') w"
  by (rule writes_only_then_geometry [OF assms(1)]) (rule assms(2))

lemma writes_only_on_ok:
  "writes_only cfg dev img A (\<lambda>_. True) r w \<Longrightarrow> (\<And>w'. writes_only cfg dev img A (\<lambda>_. True) (k w') w') \<Longrightarrow>
     writes_only cfg dev img A (\<lambda>_. True) (on_ok r k) w"
  unfolding on_ok_def by (rule writes_only_then [where P = "\<lambda>_. True"]) (auto intro: writes_only_any writes_only_refl)

lemma writes_only_on_value:
  "(\<And>x. writes_only cfg dev img A (\<lambda>_. True) (k x) w) \<Longrightarrow> writes_only cfg dev img A (\<lambda>_. True) (on_value r w k) w"
  by (cases r) (simp_all add: writes_only_refl)

text \<open>What a result that is no error satisfies.\<close>

definition yields :: "('a \<Rightarrow> bool) \<Rightarrow> 'e + 'a \<Rightarrow> bool" where
  "yields Q r \<longleftrightarrow> (\<forall>x. r = Inr x \<longrightarrow> Q x)"

lemma yields_simps [simp]: "yields Q (Inl e)" "yields Q (Inr x) \<longleftrightarrow> Q x"
  by (simp_all add: yields_def)

lemma writes_only_sum:
  "yields P r \<Longrightarrow> (\<And>e. writes_only cfg dev img A Q (a e) w) \<Longrightarrow> (\<And>x. P x \<Longrightarrow> writes_only cfg dev img A Q (b x) w) \<Longrightarrow>
     writes_only cfg dev img A Q (case r of Inl e \<Rightarrow> a e | Inr x \<Rightarrow> b x) w"
  by (cases r) simp_all

lemma writes_only_seq:
  assumes "writes_only cfg dev img A (yields P) r w" "\<And>e w'. writes_only cfg dev img A Q (a e w') w'"
    and "\<And>x w'. P x \<Longrightarrow> writes_only cfg dev img A Q (b x w') w'"
  shows "writes_only cfg dev img A Q (case r of (y, w') \<Rightarrow> case y of Inl e \<Rightarrow> a e w' | Inr x \<Rightarrow> b x w') w"
  by (rule writes_only_then [OF assms(1)]) (erule writes_only_sum, rule assms(2), erule assms(3))

lemma writes_only_either:
  "(\<And>e. writes_only cfg dev img A Q (a e) w) \<Longrightarrow> (\<And>x. writes_only cfg dev img A Q (b x) w) \<Longrightarrow>
     writes_only cfg dev img A Q (case r of Inl e \<Rightarrow> a e | Inr x \<Rightarrow> b x) w"
  by (cases r) simp_all

lemma writes_only_result:
  assumes "writes_only cfg dev img A (yields P) r w" "\<And>x w'. P x \<Longrightarrow> writes_only cfg dev img A (\<lambda>_. True) (k x w') w'"
  shows "writes_only cfg dev img A (\<lambda>_. True) (on_result r k) w"
proof -
  have "on_result r k = (case r of (e, w) \<Rightarrow> case e of Inl e \<Rightarrow> (e, w) | Inr x \<Rightarrow> k x w)"
    by (simp add: on_result_def split: prod.split sum.split)
  then show ?thesis
    by (auto intro!: writes_only_then [OF assms(1)] writes_only_sum writes_only_refl assms(2))
qed

lemma writes_only_if:
  "(c \<Longrightarrow> writes_only cfg dev img A Q a w) \<Longrightarrow> (\<not> c \<Longrightarrow> writes_only cfg dev img A Q b w) \<Longrightarrow>
     writes_only cfg dev img A Q (if c then a else b) w"
  by simp

lemma writes_only_option:
  "(r = None \<Longrightarrow> writes_only cfg dev img A Q a w) \<Longrightarrow> (\<And>x. r = Some x \<Longrightarrow> writes_only cfg dev img A Q (b x) w) \<Longrightarrow>
     writes_only cfg dev img A Q (case r of None \<Rightarrow> a | Some x \<Rightarrow> b x) w"
  by (cases r) simp_all

lemma writes_only_pair: "(\<And>x y. r = (x, y) \<Longrightarrow> writes_only cfg dev img A Q (b x y) w) \<Longrightarrow> writes_only cfg dev img A Q (case r of (x, y) \<Rightarrow> b x y) w"
  by (cases r) simp_all

lemmas writes_only_cases = writes_only_refl writes_only_if writes_only_option

subsection \<open>Device accesses\<close>

lemma writes_only_write_store:
  assumes "(kind, slot) \<in> A"
  shows "writes_only cfg dev img A (\<lambda>_. True) (write_store cfg dev kind slot offset source w) w"
proof (cases "write_storage_bytes dev (db_geometry cfg (snd w)) (fst w) kind slot offset source")
  case (Pair ret d)
  have "store_bytes cfg img (d, snd w) k s = store_bytes cfg img w k s"
    if "writes_confined dev img" "validate_storage_geometry (db_geometry cfg (snd w))" "store_exists cfg w k s" "(k, s) \<notin> A" for k s
  proof -
    have "(k, s) \<noteq> (kind, slot)" using assms that(4) by auto
    then show ?thesis
      using write_storage_confined [OF that(1,2), of k s kind slot "fst w" offset source] that(3) Pair
      by (simp add: store_bytes_def store_exists_def)
  qed
  then show ?thesis by (simp add: writes_only_def same_outside_def write_store_def Pair)
qed

lemma writes_only_sync_store: "writes_only cfg dev img A (\<lambda>_. True) (sync_store dev w) w"
proof (cases "bd_sync dev (fst w)")
  case (Pair ret d)
  have "img d = img (fst w)" if "writes_confined dev img"
    using that Pair unfolding writes_confined_def by (metis snd_conv)
  then show ?thesis
    by (simp add: writes_only_def same_outside_def sync_store_def sync_storage_def Pair store_bytes_def)
qed

lemma writes_only_write_table_bytes:
  "(kind_table, slot) \<in> A \<Longrightarrow> writes_only cfg dev img A (\<lambda>_. True) (write_table_bytes cfg dev slot offset source w) w"
  unfolding write_table_bytes_def by (intro writes_only_if writes_only_refl writes_only_write_store TrueI)

section \<open>Building a table\<close>

text \<open>An output under construction fills a table slot of \<open>A\<close>.\<close>

definition output_in :: "(file_kind \<times> u32) set \<Rightarrow> table_output \<Rightarrow> bool" where
  "output_in A out \<longleftrightarrow> (kind_table, bs_slot (to_build out)) \<in> A \<and> tm_slot (to_metadata out) = bs_slot (to_build out)"

lemma output_in_update [simp]:
  "bs_slot state = bs_slot (to_build out) \<Longrightarrow> output_in A (out\<lparr>to_build := state\<rparr>) = output_in A out"
  by (simp add: output_in_def)

lemma output_in_start: "(kind_table, slot) \<in> A \<Longrightarrow> output_in A (start_table_output s slot generation)"
  by (simp add: output_in_def start_table_output_def empty_table_metadata_def)

lemma output_in_account: "output_in A out \<Longrightarrow> output_in A (account_entry key sequence block n out)"
  by (simp add: output_in_def account_entry_def extend_metadata_def Let_def)

lemma writes_only_finish_table_data_block:
  assumes "(kind_table, bs_slot state) \<in> A"
  shows "writes_only cfg dev img A (yields (\<lambda>state'. bs_slot state' = bs_slot state)) (finish_table_data_block cfg dev state w) w"
  unfolding finish_table_data_block_def Let_def
  by (intro writes_only_cases writes_only_then [OF writes_only_write_table_bytes [OF assms]]) simp_all

lemma enter_index_slot: "yields (\<lambda>state'. bs_slot state' = bs_slot state) (enter_index s key sequence n state)"
  by (simp add: enter_index_def Let_def split: option.split prod.split)

lemma writes_only_full_block:
  assumes "(kind_table, bs_slot state) \<in> A"
  shows "writes_only cfg dev img A (yields (\<lambda>state'. bs_slot state' = bs_slot state))
    (if full then finish_table_data_block cfg dev state w else (Inr state, w)) w"
  by (intro writes_only_if writes_only_finish_table_data_block assms writes_only_refl) simp

lemma writes_only_make_room:
  assumes "output_in A out"
  shows "writes_only cfg dev img A (yields (output_in A)) (make_room cfg dev key sequence n out w) w"
proof -
  have slot: "(kind_table, bs_slot (to_build out)) \<in> A" using assms by (simp add: output_in_def)
  show ?thesis
    unfolding make_room_def
    by (intro writes_only_seq [OF writes_only_full_block [OF slot]] writes_only_sum [OF enter_index_slot] writes_only_refl)
       (simp_all add: assms)
qed

lemma writes_only_append_record_entry:
  assumes "output_in A out"
  shows "writes_only cfg dev img A (yields (output_in A)) (append_record_entry cfg dev header out w) w"
  unfolding append_record_entry_def Let_def
  by (intro writes_only_seq [OF writes_only_make_room [OF assms]] writes_only_option writes_only_pair writes_only_refl)
     (simp_all add: output_in_account)

lemma writes_only_write_metadata_slot:
  "(kind_table, slot) \<in> A \<Longrightarrow> writes_only cfg dev img A (\<lambda>_. True) (write_metadata_slot cfg dev slot offset magic metadata w) w"
  unfolding write_metadata_slot_def by (intro writes_only_cases writes_only_write_store TrueI)

lemma writes_only_write_table_metadata:
  "(kind_table, tm_slot metadata) \<in> A \<Longrightarrow> writes_only cfg dev img A (\<lambda>_. True) (write_table_metadata cfg dev metadata w) w"
  unfolding write_table_metadata_def Let_def
  by (intro writes_only_on_ok writes_only_write_metadata_slot writes_only_sync_store)

lemma writes_only_finish_table_output:
  assumes "output_in A out"
  shows "writes_only cfg dev img A (yields (\<lambda>metadata. (kind_table, tm_slot metadata) \<in> A)) (finish_table_output cfg dev out w) w"
proof -
  have slot: "(kind_table, bs_slot (to_build out)) \<in> A" "(kind_table, tm_slot (to_metadata out)) \<in> A"
    using assms by (simp_all add: output_in_def)
  show ?thesis
    unfolding finish_table_output_def Let_def
    by (intro writes_only_cases writes_only_then [OF writes_only_write_table_bytes [OF slot(1)]]
          writes_only_then [OF writes_only_write_table_metadata]) (simp_all add: slot)
qed

lemma writes_only_append_records:
  "output_in A out \<Longrightarrow> writes_only cfg dev img A (yields (output_in A)) (append_records cfg dev offsets out w) w"
proof (induction offsets arbitrary: out w)
  case (Cons offset offsets)
  show ?case
    by (subst append_records.simps)
       (intro writes_only_seq [OF writes_only_append_record_entry [OF Cons.prems]] Cons.IH writes_only_refl, simp_all)
qed (simp add: writes_only_refl)

lemma writes_only_write_flush_table:
  assumes "(kind_table, slot) \<in> A"
  shows "writes_only cfg dev img A (yields (\<lambda>_. True)) (write_flush_table cfg dev slot offsets w) w"
proof -
  have finish: "writes_only cfg dev img A (yields (\<lambda>_. True)) (finish_table_output cfg dev out w) w" if "output_in A out" for out w
    using writes_only_finish_table_output [OF that, of cfg dev img w] by (simp add: writes_only_def yields_def)
  show ?thesis
    unfolding write_flush_table_def
    by (intro writes_only_seq [OF writes_only_append_records [OF output_in_start [OF assms]]]
          writes_only_seq [OF writes_only_finish_table_data_block] writes_only_refl finish)
       (simp_all add: output_in_def)
qed

section \<open>Validation\<close>

text \<open>Validation writes nothing and leaves the manifest alone, so it may come anywhere.\<close>

interpretation manifest: writer_view db_manifest
  by unfold_locales simp_all

lemma validate_blocks_device: "fst (snd (validate_blocks cfg dev ok footer slot index_block indices scan w)) = fst w"
proof (induction indices arbitrary: scan w)
  case (Cons i indices)
  show ?case by (simp add: Cons.IH split: sum.split prod.split)
qed simp

lemma writes_only_validate_blocks:
  "writes_only cfg dev img A (yields (\<lambda>_. True)) (validate_blocks cfg dev ok footer slot index_block indices scan w) w"
  using manifest.keeps_validate_blocks [of cfg dev ok footer slot index_block indices scan w]
  by (simp add: writes_only_def keeps_def same_outside_state validate_blocks_device yields_def)

lemma writes_only_validate_table:
  fixes w :: "'d world"
  shows "writes_only cfg dev img A (\<lambda>_. True) (validate_table cfg dev reference value_bank w) w"
proof -
  let ?s = "\<lambda>s. reset_table_key_filter (tr_slot reference) (invalidate_table_index_cache (tr_slot reference) s)"
  have cached: "db_manifest s' = db_manifest s" if "cache_table_index cfg reference index_block s = (ret, s')" for index_block s ret s'
    using manifest.view_table_caches(6) [of cfg reference index_block s] by (simp add: that)
  have last: "writes_only cfg dev img A (\<lambda>_. True)
      (case cache_table_index cfg reference index_block (snd (update_db (publish_table_key_filter reference) w)) of
         (ret, s) \<Rightarrow> (ret, fst (update_db (publish_table_key_filter reference) w), s)) w"
    for index_block :: bytes and w :: "'d world"
    by (intro writes_only_pair writes_only_moved) (auto simp: manifest.view_table_caches dest!: cached)
  have reset: "writes_only cfg dev img A (\<lambda>_. True) r w" if "writes_only cfg dev img A (\<lambda>_. True) r (update_db ?s w)"
    for r :: "esp_err \<times> 'd world"
    using that by (rule writes_only_update) (simp add: manifest.view_table_caches)
  show ?thesis
    unfolding validate_table_def Let_def
    by (rule writes_only_if, rule writes_only_refl, rule TrueI, rule reset)
       (intro writes_only_on_value writes_only_if writes_only_pair writes_only_result [OF writes_only_validate_blocks] last writes_only_refl TrueI)
qed

section \<open>Relocating values\<close>

lemma writes_only_set_writer:
  "writes_only cfg dev img A Q r (set_writer writer w) \<Longrightarrow> writes_only cfg dev img A Q r w"
  unfolding set_writer_def by (erule writes_only_update) simp

lemma writes_only_copy_chunks:
  assumes "(kind_value_bank, ucast (vr_bank_slot destination)) \<in> A"
  shows "writes_only cfg dev img A (yields (\<lambda>_. True))
    (copy_chunks cfg dev source destination chunk_count indices checksum_state output_offset w) w"
proof (induction indices arbitrary: checksum_state output_offset w)
  case (Cons i indices)
  have step: "writes_only cfg dev img A (yields (\<lambda>_. True))
      (case write_store cfg dev kind_value_bank (ucast (vr_bank_slot destination)) offset buffer (set_writer writer w) of
         (ret, w) \<Rightarrow>
           if ret \<noteq> ESP_OK then (Inl ret, w)
           else copy_chunks cfg dev source destination chunk_count indices (crc w) (off w) w) w"
    for offset buffer writer crc off and w :: "'a world"
    by (rule writes_only_set_writer [where writer = writer])
       (intro writes_only_then [OF writes_only_write_store [OF assms]] writes_only_if Cons.IH writes_only_refl, simp)
  show ?case
    by (subst copy_chunks.simps)
       (unfold Let_def, intro writes_only_either writes_only_pair writes_only_cases step; simp)
qed (simp add: writes_only_refl)

lemma below_two: "unat (bank :: u32) < 2 \<Longrightarrow> bank = 0 \<or> bank = 1"
  by (auto simp: word_unat_eq_iff less_2_cases_iff)

lemma writes_only_copy_external_value:
  assumes "(kind_value_bank, bank) \<in> A"
  shows "writes_only cfg dev img A (yields (\<lambda>_. True)) (copy_external_value cfg dev source bank generation tail w) w"
proof (cases "unat bank < value_bank_count")
  case True
  then have "bank = 0 \<or> bank = 1" by (intro below_two) (simp add: format_consts)
  then have slot: "(kind_value_bank, ucast (vr_bank_slot (source\<lparr>vr_bank_slot := ucast bank, vr_bank_generation := generation,
      vr_first_chunk_offset := tail\<rparr>))) \<in> A"
    using assms by auto
  show ?thesis
    unfolding copy_external_value_def Let_def
    by (intro writes_only_if writes_only_seq [OF writes_only_copy_chunks [OF slot]] writes_only_pair writes_only_refl) simp_all
next
  case False
  then show ?thesis by (simp add: copy_external_value_def Let_def writes_only_refl)
qed

text \<open>What a compaction may write: the output tables and the destination bank of its plan.\<close>

definition plan_in :: "(file_kind \<times> u32) set \<Rightarrow> compaction_plan \<Rightarrow> bool" where
  "plan_in A plan \<longleftrightarrow> (kind_value_bank, cp_destination_bank plan) \<in> A \<and>
     (\<forall>i < cp_bank_size plan. (kind_table, of_nat (cp_output_start plan + i)) \<in> A)"

definition state_in :: "(file_kind \<times> u32) set \<Rightarrow> compaction_state \<Rightarrow> bool" where
  "state_in A state \<longleftrightarrow> (\<forall>out. co_output state = Some out \<longrightarrow> output_in A out)"

lemma writes_only_place_source:
  assumes "(kind_value_bank, bank) \<in> A"
  shows "writes_only cfg dev img A (\<lambda>_. True) (place_source cfg dev source out bank generation tail w) w"
proof (cases source)
  case (From_Cursor cursor)
  show ?thesis
    unfolding place_source_def Let_def From_Cursor merge_source.case
    by (intro writes_only_either writes_only_if writes_only_seq [OF writes_only_copy_external_value [OF assms]]
          writes_only_option writes_only_pair writes_only_refl TrueI)
next
  case (From_Record header)
  have copied: "writes_only cfg dev img A (yields (\<lambda>_. True))
      (if c then copy_external_value cfg dev r bank generation tail w else (Inr x, w)) w" for c r x
    by (intro writes_only_if writes_only_copy_external_value assms writes_only_refl) simp
  show ?thesis
    unfolding place_source_def Let_def From_Record merge_source.case
    by (intro writes_only_seq [OF copied] writes_only_option writes_only_pair writes_only_refl TrueI)
qed

lemma writes_only_append_compaction_entry:
  assumes bank: "(kind_value_bank, bank) \<in> A" and out: "output_in A out"
  shows "writes_only cfg dev img A (\<lambda>(_, out, _). output_in A out)
    (append_compaction_entry cfg dev source bank generation (out, tail) w) w"
proof -
  have slot: "(kind_table, bs_slot (to_build out)) \<in> A" using out by (simp add: output_in_def)
  show ?thesis
    unfolding append_compaction_entry_def Let_def prod.case
    by (intro writes_only_seq [OF writes_only_full_block [OF slot]] writes_only_sum [OF enter_index_slot]
          writes_only_then [OF writes_only_place_source [OF bank]] writes_only_pair writes_only_if writes_only_refl)
       (simp_all add: out output_in_account)
qed

lemma writes_only_finish_compaction_output:
  assumes "output_in A out"
  shows "writes_only cfg dev img A (yields (\<lambda>_. True)) (finish_compaction_output cfg dev out value_bank w) w"
proof -
  have slot: "(kind_table, bs_slot (to_build out)) \<in> A" using assms by (simp add: output_in_def)
  show ?thesis
    unfolding finish_compaction_output_def
    by (intro writes_only_if writes_only_seq [OF writes_only_full_block [OF slot]] writes_only_seq [OF writes_only_finish_table_output]
          writes_only_then [OF writes_only_validate_table] writes_only_refl) (simp_all add: assms)
qed

section \<open>Flush and compaction\<close>

lemma set_table_kept:
  "mr_geometry (db_manifest (snd (set_table slot reference w))) = mr_geometry (db_manifest (snd w))"
  "fst (set_table slot reference w) = fst w"
  by (simp_all add: set_table_def)

lemma clear_tables_kept:
  "mr_geometry (db_manifest (snd (clear_tables start n w))) = mr_geometry (db_manifest (snd w))"
  "fst (clear_tables start n w) = fst w"
proof -
  have "mr_geometry (db_manifest (snd (fold (\<lambda>slot. set_table slot empty_table_reference) slots w))) = mr_geometry (db_manifest (snd w)) \<and>
      fst (fold (\<lambda>slot. set_table slot empty_table_reference) slots w) = fst w" for slots
    by (induction slots arbitrary: w) (simp_all add: set_table_kept)
  then show "mr_geometry (db_manifest (snd (clear_tables start n w))) = mr_geometry (db_manifest (snd w))"
    "fst (clear_tables start n w) = fst w"
    by (simp_all add: clear_tables_def)
qed

lemma writes_only_start_plan_output:
  assumes "plan_in A plan" "co_output_count state < cp_bank_size plan"
  shows "writes_only cfg dev img A (yields (output_in A)) (start_plan_output plan state w) w"
  unfolding start_plan_output_def start_compaction_output_def
  using assms
  by (intro writes_only_if writes_only_refl writes_only_moved)
     (simp_all add: output_in_start plan_in_def manifest.view_table_caches)

lemma writes_only_finish_plan_output:
  assumes "output_in A out"
  shows "writes_only cfg dev img A (yields (state_in A)) (finish_plan_output cfg dev plan out state w) w"
  unfolding finish_plan_output_def
  by (intro writes_only_seq [OF writes_only_finish_compaction_output [OF assms]] writes_only_refl writes_only_moved)
     (simp_all add: state_in_def set_table_kept)

lemma writes_only_append_to_plan:
  assumes "plan_in A plan" "output_in A out"
  shows "writes_only cfg dev img A (\<lambda>(_, state). state_in A state \<and> output_in A (the (co_output state)))
    (append_to_plan cfg dev plan source out state w) w"
proof -
  have bank: "(kind_value_bank, cp_destination_bank plan) \<in> A" using assms(1) by (simp add: plan_in_def)
  show ?thesis
    unfolding append_to_plan_def
    by (intro writes_only_then [OF writes_only_append_compaction_entry [OF bank assms(2)]] writes_only_pair writes_only_refl)
       (auto simp: state_in_def)
qed

lemma writes_only_emit_winner:
  assumes plan: "plan_in A plan" and state: "state_in A state"
  shows "writes_only cfg dev img A (yields (state_in A)) (emit_winner cfg dev plan source state w) w"
proof -
  have current: "writes_only cfg dev img A (yields (output_in A))
      (case co_output (state\<lparr>co_logical_state_bytes := n\<rparr>) of
         Some out \<Rightarrow> (Inr out, w)
       | None \<Rightarrow> if co_output_count (state\<lparr>co_logical_state_bytes := n\<rparr>) \<ge> cp_bank_size plan then (Inl ESP_ERR_NO_MEM, w)
           else start_plan_output plan (state\<lparr>co_logical_state_bytes := n\<rparr>) w) w" for n
    using state
    by (intro writes_only_option writes_only_if writes_only_refl writes_only_start_plan_output plan) (simp_all add: state_in_def)
  have again: "writes_only cfg dev img A (yields (state_in A))
      (case append_to_plan cfg dev plan source out state w of ((ret, state), w) \<Rightarrow> (if ret = ESP_OK then Inr state else Inl ret, w)) w"
    if "output_in A out" for out state and w :: "'a world"
    by (intro writes_only_then [OF writes_only_append_to_plan [OF plan that]] writes_only_pair writes_only_refl) auto
  show ?thesis
    unfolding emit_winner_def Let_def
    by (intro writes_only_if writes_only_seq [OF current] writes_only_then [OF writes_only_append_to_plan [OF plan]] writes_only_pair
          writes_only_seq [OF writes_only_finish_plan_output] writes_only_seq [OF writes_only_start_plan_output [OF plan]] again
          writes_only_refl) auto
qed

lemma writes_only_emit_unless_tombstone:
  assumes "plan_in A plan" "state_in A state"
  shows "writes_only cfg dev img A (yields (state_in A)) (emit_unless_tombstone cfg dev plan winner state w) w"
  unfolding emit_unless_tombstone_def Let_def
  using assms by (intro writes_only_if writes_only_refl writes_only_emit_winner) (simp_all add: state_in_def)

lemma writes_only_merge_tables:
  assumes "merge_tables cfg dev plan offsets cursors state w = Some r" "plan_in A plan" "state_in A state"
  shows "writes_only cfg dev img A (yields (state_in A)) r w"
  using assms
proof (induction rule: merge_tables.raw_induct [rotated, consumes 1, case_names turn])
  case (turn merge cfg dev plan offsets cursors state w r)
  let ?ok = "writes_only cfg dev img A (yields (state_in A)) r"
  have stop: "writes_only cfg dev img A (yields (state_in A)) (Inl e, w) w" for e and w :: "'a world"
    by (simp add: writes_only_refl)
  have emit: "?ok w"
    if "(case emit_unless_tombstone cfg dev plan winner state w of
          (Inl e, w) \<Rightarrow> Some (Inl e, w)
        | (Inr state, w) \<Rightarrow>
            (case advance_matching cfg dev False key cursors w of
               Inl e \<Rightarrow> Some (Inl e, w)
             | Inr cursors \<Rightarrow> merge cfg dev plan (consume_record (snd w) key offsets) (drop_finished cursors) state w)) = Some r"
    for winner key
  proof -
    obtain x w' where e: "emit_unless_tombstone cfg dev plan winner state w = (x, w')" by (rule prod.exhaust)
    have first: "writes_only cfg dev img A (yields (state_in A)) (x, w') w"
      using writes_only_emit_unless_tombstone [OF turn.prems] by (metis e)
    then have "yields (state_in A) x" by (simp add: writes_only_def)
    then have "?ok w'"
      using that turn.prems(1)
      by (cases x; cases "advance_matching cfg dev False key cursors w'") (auto simp: e stop intro: turn.IH)
    then show ?thesis using first by (rule writes_only_trans)
  qed
  have done_with: "writes_only cfg dev img A (yields (state_in A)) (Inr state, w) w"
    using turn.prems(2) by (simp add: writes_only_refl)
  show ?case
    using turn.hyps by (auto simp: Let_def stop done_with split: if_splits sum.splits option.splits intro: emit)
qed

lemma writes_only_relocate_staged:
  assumes "plan_in A plan"
  shows "writes_only cfg dev img A (yields (\<lambda>_. True)) (relocate_staged cfg dev plan ms tail w) w"
proof (induction ms arbitrary: tail w)
  case (Cons m ms)
  have bank: "(kind_value_bank, cp_destination_bank plan) \<in> A" using assms by (simp add: plan_in_def)
  show ?case
    by (subst relocate_staged.simps)
       (unfold Let_def, intro writes_only_if writes_only_seq [OF writes_only_copy_external_value [OF bank]]
         writes_only_seq [OF Cons.IH] writes_only_pair writes_only_refl; simp)
qed (simp add: writes_only_refl)

lemma writes_only_merge_into_bank:
  assumes plan: "plan_in A plan"
  shows "writes_only cfg dev img A (yields (\<lambda>_. True)) (merge_into_bank cfg dev plan offsets cursors w) w"
proof -
  have dropped: "writes_only cfg dev img A (yields (\<lambda>_. True)) (Inl e, clear_tables start n w) w" for e :: esp_err and start n w
    by (simp add: writes_only_moved clear_tables_kept)
  have rest: "writes_only cfg dev img A (yields (state_in A))
      (case co_output state of None \<Rightarrow> (Inr state, w) | Some out \<Rightarrow> finish_plan_output cfg dev plan out state w) w"
    if "state_in A state" for state w
    using that by (intro writes_only_option writes_only_refl writes_only_finish_plan_output) (simp_all add: state_in_def)
  have start: "state_in A \<lparr>co_output = None, co_output_count = 0, co_destination_tail = t, co_logical_state_bytes = 0,
      co_greatest_sequence = 0\<rparr>" for t
    by (simp add: state_in_def)
  have merged: "writes_only cfg dev img A (yields (state_in A))
      (case merge_tables cfg dev plan offsets cursors \<lparr>co_output = None, co_output_count = 0, co_destination_tail = t,
         co_logical_state_bytes = 0, co_greatest_sequence = 0\<rparr> w of None \<Rightarrow> (Inl ESP_FAIL, w) | Some r \<Rightarrow> r) w" for t
    by (rule writes_only_option) (simp add: writes_only_refl, erule writes_only_merge_tables [OF _ plan start])
  show ?thesis
    unfolding merge_into_bank_def Let_def
    by (intro writes_only_seq [OF merged] writes_only_seq [OF rest] writes_only_if dropped
          writes_only_seq [OF writes_only_relocate_staged [OF plan]] writes_only_pair writes_only_refl) simp_all
qed

lemma writes_only_write_manifest_copy:
  assumes "(kind_manifest, 0) \<in> A"
  shows "writes_only cfg dev img A (\<lambda>_. True) (write_manifest_copy cfg dev generation state w) w"
proof -
  have io: "writes_only cfg dev img A (\<lambda>_. True) (on_ok (write_store cfg dev kind_manifest 0 off buf w) (sync_store dev)) w" for off buf w
    by (intro writes_only_on_ok writes_only_write_store writes_only_sync_store assms)
  have written: "writes_only cfg dev img A (\<lambda>_. True)
      (case on_ok (write_store cfg dev kind_manifest 0 off buf w) (sync_store dev) of (ret, w') \<Rightarrow>
         if ret = ESP_OK then (ret, update_db (\<lambda>s. s\<lparr>db_manifest := m, db_manifest_slot := n\<rparr>) w')
         else (ret, update_db (\<lambda>s. s\<lparr>db_storage_faulted := True\<rparr>) w')) w"
    if "mr_geometry m = mr_geometry (db_manifest (snd w))" for off buf m n w
    by (intro writes_only_then_geometry [OF io] writes_only_if writes_only_moved) (simp_all add: that)
  show ?thesis
    unfolding write_manifest_copy_def Let_def
    by (intro writes_only_cases written TrueI) simp
qed

lemma writes_only_stabilize_manifest:
  assumes "(kind_manifest, 0) \<in> A"
  shows "writes_only cfg dev img A (\<lambda>_. True) (stabilize_manifest cfg dev w) w"
  unfolding stabilize_manifest_def Let_def
  by (intro writes_only_cases writes_only_on_ok writes_only_write_manifest_copy assms TrueI writes_only_moved) simp_all

lemma writes_only_publish_compaction:
  assumes manifest: "(kind_manifest, 0) \<in> A"
  shows "writes_only cfg dev img A (\<lambda>_. True) (publish_compaction cfg dev clock plan state references n w) w"
proof -
  have io: "writes_only cfg dev img A (\<lambda>_. True) (on_ok (sync_store dev w) (\<lambda>w. write_manifest_copy cfg dev (g w) st w)) w" for g st w
    by (intro writes_only_on_ok writes_only_sync_store writes_only_write_manifest_copy manifest)
  have published: "mr_geometry (db_manifest (published_state cfg plan state references s)) = mr_geometry (db_manifest s)" for s
    by (simp add: published_state_def Let_def reset_memtable_def set_staged_references_def)
  have stable: "writes_only cfg dev img A (\<lambda>_. True)
      (case stabilize_manifest cfg dev (update_db (published_state cfg plan state references) w) of
         (ret, w) \<Rightarrow> (ret, update_db (compaction_statistics elapsed n k) w)) w" for elapsed k w
    by (rule writes_only_update [where f = "published_state cfg plan state references"])
       (intro writes_only_then [OF writes_only_stabilize_manifest [OF manifest]] writes_only_moved TrueI,
        simp_all add: published compaction_statistics_def Let_def)
  show ?thesis
    unfolding publish_compaction_def Let_def
    by (rule writes_only_update [where f = "\<lambda>s. s\<lparr>db_manifest :=
          swapped_manifest plan state (co_destination_tail state) (db_manifest (snd w))\<rparr>"])
       (intro writes_only_then_geometry [OF io] writes_only_if writes_only_moved stable TrueI,
        simp_all add: clear_tables_kept swapped_manifest_def)
qed

text \<open>What no manifest refers to, and the manifest itself.\<close>

definition free_space :: "db \<Rightarrow> (file_kind \<times> u32) set" where
  "free_space s = {(kind_manifest, 0)} \<union> {(kind_table, slot) | slot. \<not> tr_active (mr_tables (db_manifest s) ! unat slot)} \<union>
     {(kind_value_bank, bank) | bank. bank \<noteq> mr_active_value_bank (db_manifest s)}"

lemma bank_slot:
  assumes "(bank :: u32) \<le> 1" "n \<le> unat (k :: u32) div 2" "i < n"
  shows "unat (of_nat (unat (bank * of_nat n) + i) :: u32) = unat (bank * of_nat n) + i"
proof -
  have "n < 2 ^ 32" using assms(2) unat_bound32 [of k] by simp
  have "unat bank < 2" using assms(1) by (simp add: word_le_nat_alt)
  then have "bank = 0 \<or> bank = 1" by (rule below_two)
  then have "unat (bank * of_nat n) \<le> n" using \<open>n < 2 ^ 32\<close> by auto
  then have "unat (bank * of_nat n) + i < 2 ^ 32" using assms(2,3) unat_bound32 [of k] by linarith
  then show ?thesis by (intro unat_of_nat_eq) simp
qed

lemma plan_in_free_space:
  assumes "mr_active_table_bank (db_manifest s) \<le> 1" "compaction_refused cfg s = None"
    and "db_manifest s' = db_manifest s"
    and "active_slots s' (cp_output_start (make_plan s)) (cp_bank_size (make_plan s)) = []"
  shows "plan_in (free_space s) (make_plan s)"
proof -
  let ?m = "db_manifest s"
  have "unat (mr_active_value_bank ?m) < 2"
    using assms(2) by (simp add: compaction_refused_def Let_def format_consts split: if_splits)
  then have "1 - mr_active_value_bank ?m \<noteq> mr_active_value_bank ?m" using below_two by fastforce
  then have bank: "(kind_value_bank, cp_destination_bank (make_plan s)) \<in> free_space s"
    by (simp add: free_space_def make_plan_def Let_def)
  have le: "1 - mr_active_table_bank ?m \<le> 1"
    using assms(1) by (auto simp: word_le_nat_alt unat_sub)
  show ?thesis
    using assms(3,4) bank bank_slot [OF le, of _ "sg_table_count (mr_geometry ?m)"]
    by (auto simp: plan_in_def free_space_def active_slots_def filter_empty_conv make_plan_def Let_def unat_div)
qed

lemma writes_only_compact_tables:
  assumes "mr_active_table_bank (db_manifest (snd w)) \<le> 1"
  shows "writes_only cfg dev img (free_space (snd w)) (\<lambda>_. True) (compact_tables cfg dev clock w) w"
proof (cases "compaction_refused cfg (snd w)")
  case None
  let ?plan = "make_plan (snd w)" and ?A = "free_space (snd w)"
  have manifest_in: "(kind_manifest, 0) \<in> ?A" by (simp add: free_space_def)
  have validated: "writes_only cfg dev img ?A (\<lambda>_. True) (validate_inputs cfg dev slots w') w'" for slots w'
  proof (induction slots arbitrary: w')
    case (Cons slot slots)
    show ?case by (subst validate_inputs.simps) (intro writes_only_on_ok writes_only_validate_table Cons.IH)
  qed (simp add: writes_only_refl)
  have merged: "writes_only cfg dev img ?A (\<lambda>_. True)
      (case merge_into_bank cfg dev ?plan offsets cursors w' of (Inl e, w) \<Rightarrow> (e, w)
       | (Inr (state, references), w) \<Rightarrow> publish_compaction cfg dev clock ?plan state references n w) w'"
    if "plan_in ?A ?plan" for offsets cursors n w'
    by (intro writes_only_seq [OF writes_only_merge_into_bank [OF that]] writes_only_pair writes_only_refl TrueI
          writes_only_publish_compaction manifest_in)
  obtain ret w1 where run: "validate_inputs cfg dev (active_slots (snd w) (cp_input_start ?plan) (cp_bank_size ?plan)) w = (ret, w1)"
    by (rule prod.exhaust)
  have same: "db_manifest (snd w1) = db_manifest (snd w)"
    using manifest.keeps_validate_inputs [of cfg dev _ w] run by (metis keepsD)
  have rest: "writes_only cfg dev img ?A (\<lambda>_. True) r w" if "writes_only cfg dev img ?A (\<lambda>_. True) r w1" for r :: "esp_err \<times> 'a world"
    using writes_only_trans [OF that] validated [of _ w] run by metis
  show ?thesis
    unfolding compact_tables_def None option.case Let_def run on_ok_def prod.case
    using plan_in_free_space [OF assms None same]
    by (intro rest writes_only_if writes_only_on_value merged writes_only_refl TrueI) simp_all
qed (simp add: compact_tables_def writes_only_refl)

lemma writes_only_publish_flush:
  assumes "(kind_manifest, 0) \<in> A"
  shows "writes_only cfg dev img A (\<lambda>_. True) (publish_flush cfg dev slot metadata w) w"
  unfolding publish_flush_def Let_def
  by (rule writes_only_update [where f = "\<lambda>s. s\<lparr>db_manifest := flushed_manifest slot metadata (db_manifest (snd w))\<rparr>"])
     (intro writes_only_then [OF writes_only_write_manifest_copy [OF assms]] writes_only_if writes_only_moved TrueI,
      simp_all add: flushed_manifest_def unflushed_manifest_def reset_memtable_def)

lemma writes_only_flush_memtable:
  fixes w :: "'d world"
  assumes "mr_active_table_bank (db_manifest (snd w)) \<le> 1"
  shows "writes_only cfg dev img (free_space (snd w)) (\<lambda>_. True) (flush_memtable cfg dev clock w) w"
proof -
  let ?A = "free_space (snd w)"
  have manifest_in: "(kind_manifest, 0) \<in> ?A" by (simp add: free_space_def)
  have flush: "writes_only cfg dev img ?A (\<lambda>_. True) (on_value (collect_flush_offsets cfg s) w' (\<lambda>offsets.
      on_result (write_flush_table cfg dev slot (sort_memtable_offsets s offsets (length offsets)) w') (\<lambda>metadata w.
      on_ok (validate_table cfg dev (make_table_reference metadata) None w) (publish_flush cfg dev slot metadata)))) w"
    if "w' = update_db (invalidate_table_index_cache slot) w" "(kind_table, slot) \<in> ?A" for s slot w'
    unfolding that(1)
    by (rule writes_only_update [where f = "invalidate_table_index_cache slot"])
       (intro writes_only_on_value writes_only_result [OF writes_only_write_flush_table [OF that(2)]] writes_only_on_ok
          writes_only_validate_table writes_only_publish_flush manifest_in, simp add: manifest.view_table_caches)
  have free: "(kind_table, of_nat slot) \<in> ?A" if found: "free_table_slot (snd w) = Some slot" for slot
  proof -
    let ?m = "db_manifest (snd w)" and ?plan = "make_plan (snd w)"
    obtain i where i: "slot = cp_input_start ?plan + i" "i < cp_bank_size ?plan" "\<not> tr_active (mr_tables ?m ! slot)"
      using found by (auto simp: free_table_slot_def Let_def find_Some_iff nth_upt)
    then show ?thesis
      using bank_slot [OF assms, of _ "sg_table_count (mr_geometry ?m)"]
      by (auto simp: free_space_def make_plan_def Let_def unat_div)
  qed
  show ?thesis
    unfolding flush_memtable_def Let_def
    by (intro writes_only_if writes_only_option writes_only_compact_tables assms flush refl free writes_only_refl TrueI) simp_all
qed

text \<open>C6: Safety. A flush and a compaction never endanger what is live. On a device that may fail, tear writes or stop
  at any point, as long as it writes no block it was not told to, and whatever the outcome of the operation, every
  byte of both write-ahead logs, of every table the manifest refers to and of the active value bank is what it was
  before. So a failure or a loss of power in the middle of maintenance leaves everything the old manifest needs.\<close>

theorem maintenance_keeps_live_data:
  assumes "writes_confined dev img" "validate_storage_geometry (db_geometry cfg (snd w))"
    and "mr_active_table_bank (db_manifest (snd w)) \<le> 1" "store_exists cfg w kind slot"
    and "kind = kind_wal \<or> kind = kind_table \<and> tr_active (mr_tables (db_manifest (snd w)) ! unat slot) \<or>
      kind = kind_value_bank \<and> slot = mr_active_value_bank (db_manifest (snd w))"
  shows "store_bytes cfg img (snd (flush_memtable cfg dev clock w)) kind slot = store_bytes cfg img w kind slot \<and>
    store_bytes cfg img (snd (compact_tables cfg dev clock w)) kind slot = store_bytes cfg img w kind slot"
proof -
  have "(kind, slot) \<notin> free_space (snd w)" using assms(5) by (auto simp: free_space_def)
  then show ?thesis
    using writes_only_flush_memtable [OF assms(3), of cfg dev img clock] writes_only_compact_tables [OF assms(3), of cfg dev img clock]
      assms(1,2,4)
    by (simp add: writes_only_def same_outside_def)
qed

theorem maintenance_keeps_live_data_witness:
  "store_bytes host_config id (snd (flush_memtable host_config sample_device (\<lambda>_. 7) sample_world)) kind_table 2 =
     store_bytes host_config id sample_world kind_table 2 \<and>
   store_bytes host_config id (snd (compact_tables host_config sample_device (\<lambda>_. 7) sample_world)) kind_table 2 =
     store_bytes host_config id sample_world kind_table 2"
proof (rule maintenance_keeps_live_data)
  show "writes_confined sample_device id" unfolding sample_device_def by (rule memory_device_confined)
  show "validate_storage_geometry (db_geometry host_config (snd sample_world))"
    using host_geometry_valid by (simp add: sample_world_def sample_geometry)
  show "mr_active_table_bank (db_manifest (snd sample_world)) \<le> 1"
    by (simp add: sample_fields) (simp add: sample_manifest_def)
  show "store_exists host_config sample_world kind_table 2"
    by (simp add: store_exists_def sample_world_def sample_geometry region_exists_def)
       (simp add: get_build_geometry_def host_config_def)
  show "kind_table = kind_wal \<or> kind_table = kind_table \<and> tr_active (mr_tables (db_manifest (snd sample_world)) ! unat (2 :: u32)) \<or>
      kind_table = kind_value_bank \<and> 2 = mr_active_value_bank (db_manifest (snd sample_world))"
    by (simp add: sample_fields) (simp add: sample_manifest_def sample_table_def)
qed

end
