(* ===== verification/Value_Stream.thy ===== *)
theory Value_Stream
  imports Untouched Sample_State
begin

text \<open>
  A value in a bank is one byte stream. The chunks on storage are slices of it, the writer holds the slice that
  is not full yet, and a reader walks over it with its cursor: the writer turns any sequence of pieces into the
  chunks of their concatenation, and a reader that starts at the first byte gives them back.
\<close>

section \<open>Small numbers at their width\<close>

lemma small_word:
  assumes "n < 2 ^ 32"
  shows "unat (of_nat n :: u32) = n" "unat (ucast (of_nat n :: u32) :: u64) = n"
    "m < 2 ^ 32 \<Longrightarrow> of_nat n = (of_nat m :: u32) \<longleftrightarrow> n = m" "m < 2 ^ 32 \<Longrightarrow> of_nat n \<le> (of_nat m :: u32) \<longleftrightarrow> n \<le> m"
    "m < 2 ^ 32 \<Longrightarrow> of_nat n < (of_nat m :: u32) \<longleftrightarrow> n < m" "m \<le> n \<Longrightarrow> of_nat n - of_nat m = (of_nat (n - m) :: u32)"
    "ucast (of_nat n :: u32) = (of_nat n :: u64)"
proof -
  have u: "unat (of_nat k :: u32) = k" if "k < 2 ^ 32" for k using that by (intro unat_of_nat_eq) simp
  show "unat (of_nat n :: u32) = n" using assms by (rule u)
  show "unat (ucast (of_nat n :: u32) :: u64) = n"
    using assms by (simp add: unsigned_ucast_eq u take_bit_nat_eq_self)
  then show "ucast (of_nat n :: u32) = (of_nat n :: u64)"
    unfolding word_unat_eq_iff using assms by (subst unat_of_nat_eq) simp_all
  show "m < 2 ^ 32 \<Longrightarrow> of_nat n = (of_nat m :: u32) \<longleftrightarrow> n = m" by (simp add: word_unat_eq_iff u [OF assms] u)
  show "m < 2 ^ 32 \<Longrightarrow> of_nat n \<le> (of_nat m :: u32) \<longleftrightarrow> n \<le> m" by (simp add: word_le_nat_alt u [OF assms] u)
  show "m < 2 ^ 32 \<Longrightarrow> of_nat n < (of_nat m :: u32) \<longleftrightarrow> n < m" by (simp add: word_less_nat_alt u [OF assms] u)
  show "m \<le> n \<Longrightarrow> of_nat n - of_nat m = (of_nat (n - m) :: u32)" by (simp add: of_nat_diff)
qed

lemma widened_word: "ucast (ucast (x :: u32) :: u64) = x"
  by (rule bit_word_eqI) (auto simp: bit_simps)

section \<open>The chunks of a value\<close>

definition chunk_slice :: "bytes \<Rightarrow> nat \<Rightarrow> bytes" where
  "chunk_slice data i = take 4032 (drop (i * 4032) data)"

definition slice_header :: "u64 \<Rightarrow> value_ref \<Rightarrow> bytes \<Rightarrow> nat \<Rightarrow> value_chunk_header" where
  "slice_header database_id r data i = \<lparr>vc_database_id = database_id, vc_bank_generation = vr_bank_generation r,
     vc_first_chunk_offset = vr_first_chunk_offset r, vc_value_size = of_nat (length data),
     vc_value_offset = of_nat (i * 4032), vc_payload_size = of_nat (length (chunk_slice data i)),
     vc_flags = (if i * 4032 + length (chunk_slice data i) = length data then 1 else 0),
     vc_payload_checksum = calc_crc32 (chunk_slice data i)\<rparr>"

definition chunk_stored :: "config \<Rightarrow> ('d \<Rightarrow> bytes) \<Rightarrow> 'd world \<Rightarrow> value_ref \<Rightarrow> bytes \<Rightarrow> nat \<Rightarrow> bool" where
  "chunk_stored cfg img w r data i \<longleftrightarrow>
     decode_value_chunk (get (store_bytes cfg img w kind_value_bank (ucast (vr_bank_slot r)))
         (unat (vr_first_chunk_offset r) + i * 4096) 4096) =
       Inr (slice_header (mr_database_id (db_manifest (snd w))) r data i, chunk_slice data i)"

text \<open>A bank on a working device with room for the value under the reference \<open>r\<close>.\<close>

definition bank_open :: "config \<Rightarrow> 'd block_device \<Rightarrow> ('d \<Rightarrow> bytes) \<Rightarrow> value_ref \<Rightarrow> bytes \<Rightarrow> 'd world \<Rightarrow> bool" where
  "bank_open cfg dev img r data w \<longleftrightarrow> working_store cfg dev img w \<and>
     db_geometry cfg (snd w) = mr_geometry (db_manifest (snd w)) \<and>
     store_exists cfg w kind_value_bank (ucast (vr_bank_slot r)) \<and> mr_database_id (db_manifest (snd w)) \<noteq> 0 \<and>
     value_ref_is_valid r (sg_value_bank_size (mr_geometry (db_manifest (snd w)))) \<and> length data = unat (vr_value_size r)"

lemma bank_open_cong:
  "mr_geometry (db_manifest s') = mr_geometry (db_manifest s) \<Longrightarrow> mr_database_id (db_manifest s') = mr_database_id (db_manifest s) \<Longrightarrow>
   bank_open cfg dev img r data (d, s') = bank_open cfg dev img r data (d, s)"
  by (simp add: bank_open_def db_geometry_def store_cong [where s' = s' and s = s])

lemma chunk_stored_cong:
  "mr_geometry (db_manifest s') = mr_geometry (db_manifest s) \<Longrightarrow> mr_database_id (db_manifest s') = mr_database_id (db_manifest s) \<Longrightarrow>
   chunk_stored cfg img (d, s') r data i = chunk_stored cfg img (d, s) r data i"
  by (simp add: chunk_stored_def store_cong [where s' = s' and s = s])

lemma bank_open_D:
  assumes "bank_open cfg dev img r data w"
  shows "0 < length data" "length data < 2 ^ 32" "vr_value_size r = of_nat (length data)"
    "8192 \<le> unat (vr_first_chunk_offset r)" "4096 dvd unat (vr_first_chunk_offset r)" "vr_bank_generation r \<noteq> 0"
    "unat (vr_first_chunk_offset r) + chunk_count_nat (length data) * 4096 \<le> store_size cfg w kind_value_bank"
    "store_size cfg w kind_value_bank = unat (sg_value_bank_size (mr_geometry (db_manifest (snd w))))"
    "vr_value_size r \<le> max_value_len"
proof -
  have valid: "value_ref_is_valid r (sg_value_bank_size (mr_geometry (db_manifest (snd w))))" and len: "length data = unat (vr_value_size r)"
    using assms by (simp_all add: bank_open_def)
  note V = value_ref_is_valid_D [OF valid]
  show "0 < length data" "length data < 2 ^ 32" "vr_value_size r = of_nat (length data)"
    "8192 \<le> unat (vr_first_chunk_offset r)" "4096 dvd unat (vr_first_chunk_offset r)" "vr_bank_generation r \<noteq> 0"
    using V len unat_bound32 [of "vr_value_size r"] by simp_all
  show size: "store_size cfg w kind_value_bank = unat (sg_value_bank_size (mr_geometry (db_manifest (snd w))))"
    using assms by (simp add: bank_open_def store_size_def region_size_def)
  show "unat (vr_first_chunk_offset r) + chunk_count_nat (length data) * 4096 \<le> store_size cfg w kind_value_bank"
    using V(6) len size by simp
  show "vr_value_size r \<le> max_value_len" using valid by (auto simp: value_ref_is_valid_def split: if_splits)
qed

lemma chunk_in_value: "i * 4032 < n \<Longrightarrow> Suc i \<le> chunk_count_nat n"
  by (simp add: chunk_count_nat_def)

text \<open>Each chunk lies in the bank, at an offset that fits the width of the source.\<close>

lemma chunk_offset:
  assumes "bank_open cfg dev img r data w" "i * 4032 < length data"
  shows "unat (vr_first_chunk_offset r) + i * 4096 + 4096 \<le> store_size cfg w kind_value_bank"
    "unat (vr_first_chunk_offset r) + i * 4096 + 4096 < 2 ^ 32"
proof -
  have "Suc i * 4096 \<le> chunk_count_nat (length data) * 4096" using chunk_in_value [OF assms(2)] by (rule mult_le_mono1)
  then show *: "unat (vr_first_chunk_offset r) + i * 4096 + 4096 \<le> store_size cfg w kind_value_bank"
    using bank_open_D(7) [OF assms(1)] by simp
  show "unat (vr_first_chunk_offset r) + i * 4096 + 4096 < 2 ^ 32"
    using * bank_open_D(8) [OF assms(1)] unat_bound32 [of "sg_value_bank_size (mr_geometry (db_manifest (snd w)))"] by linarith
qed

lemma slice_length: "length (chunk_slice data i) = min 4032 (length data - i * 4032)"
  by (simp add: chunk_slice_def min_def)

lemma slice_header_valid:
  assumes "bank_open cfg dev img r data w" "i * 4032 < length data"
  shows "\<not> value_chunk_invalid ((slice_header (mr_database_id (db_manifest (snd w))) r data i)\<lparr>vc_payload_checksum := c\<rparr>)"
proof -
  note B = bank_open_D [OF assms(1)]
  let ?n = "length (chunk_slice data i)"
  have n: "0 < ?n" "?n \<le> 4032" "i * 4032 + ?n \<le> length data" using assms(2) by (auto simp: slice_length)
  have u: "unat (of_nat (length data) :: u32) = length data" "unat (of_nat (i * 4032) :: u32) = i * 4032"
    using B(2) assms(2) by (intro unat_of_nat_eq; simp)+
  have p: "unat (of_nat ?n :: u16) = ?n" "unat (ucast (of_nat ?n :: u16) :: u32) = ?n"
    using n(2) by (simp_all add: unat_of_nat_eq unsigned_ucast_eq take_bit_nat_eq_self)
  have less: "of_nat (i * 4032) < (of_nat (length data) :: u32)" using assms(2) u by (simp only: word_less_nat_alt)
  then have rest: "unat (of_nat (length data) - of_nat (i * 4032) :: u32) = length data - i * 4032"
    by (simp only: unat_sub order_less_imp_le u)
  have last: "ucast (of_nat ?n :: u16) = (of_nat (length data) - of_nat (i * 4032) :: u32) \<longleftrightarrow> i * 4032 + ?n = length data"
    using assms(2) by (auto simp only: word_unat_eq_iff rest p(2))
  have db: "mr_database_id (db_manifest (snd w)) \<noteq> 0" using assms(1) by (simp add: bank_open_def)
  have nonzero: "of_nat (length data) \<noteq> (0 :: u32)" "of_nat ?n \<noteq> (0 :: u16)"
    using n(1) u(1) p(1) assms(2) by (auto simp only: word_unat_eq_iff unat_0)
  have fits: "ucast (of_nat ?n :: u16) \<le> (of_nat (length data) - of_nat (i * 4032) :: u32)"
    using n(3) by (simp only: word_le_nat_alt rest p(2))
  have flags: "(if c then 1 else 0) AND NOT 1 = (0 :: u16)" "((if c then 1 else 0) AND 1 \<noteq> (0 :: u16)) = c" for c by simp_all
  have size: "of_nat (length data) \<le> max_value_len" using B(3,9) by simp
  show ?thesis
    unfolding value_chunk_invalid_def chunk_final_def slice_header_def value_chunk_header.simps value_chunk_flag_final_def last flags
    using db B(4,5,6) less nonzero fits size p(1) n(2)
    by (simp add: not_le not_less format_consts dvd_eq_mod_eq_0 order_less_imp_le del: of_nat_mult)
qed

lemma encode_value_chunk_prefix:
  "unat (vc_payload_size h) = n \<Longrightarrow> encode_value_chunk c h payload = encode_value_chunk c h (get payload 0 n)"
  by (simp add: encode_value_chunk_def get_get)

section \<open>The writer\<close>

text \<open>What the writer puts out for a full or final slice.\<close>

definition slice_ready :: "value_ref \<Rightarrow> bytes \<Rightarrow> nat \<Rightarrow> value_writer_slot \<Rightarrow> bool" where
  "slice_ready r data i writer \<longleftrightarrow>
     ww_active writer \<and> ww_reference writer = r \<and> ww_expected_size writer = of_nat (length data) \<and> i * 4032 < length data \<and>
     ww_chunk_payload_size writer = of_nat (length (chunk_slice data i)) \<and>
     ww_written_size writer = of_nat (i * 4032 + length (chunk_slice data i)) \<and>
     ww_next_chunk_offset writer = of_nat (unat (vr_first_chunk_offset r) + i * 4096) \<and>
     get (ww_buffer writer) 0 (length (chunk_slice data i)) = chunk_slice data i"

lemma flush_header:
  assumes B: "bank_open cfg dev img r data w" and ready: "slice_ready r data i writer"
  shows "\<lparr>vc_database_id = mr_database_id (db_manifest (snd w)), vc_bank_generation = vr_bank_generation (ww_reference writer),
      vc_first_chunk_offset = vr_first_chunk_offset (ww_reference writer), vc_value_size = ww_expected_size writer,
      vc_value_offset = ww_written_size writer - ww_chunk_payload_size writer,
      vc_payload_size = ucast (ww_chunk_payload_size writer),
      vc_flags = (if ww_written_size writer = ww_expected_size writer then value_chunk_flag_final else 0), vc_payload_checksum = 0\<rparr> =
    (slice_header (mr_database_id (db_manifest (snd w))) r data i)\<lparr>vc_payload_checksum := 0\<rparr>"
proof -
  let ?n = "length (chunk_slice data i)"
  have n: "?n \<le> 4032" "i * 4032 + ?n \<le> length data" using ready by (auto simp: slice_length slice_ready_def)
  have "(of_nat (i * 4032 + ?n) = (of_nat (length data) :: u32)) = (i * 4032 + ?n = length data)"
    using bank_open_D(2) [OF B] n(2) by (intro small_word(3)) simp_all
  moreover have "ucast (of_nat ?n :: u32) = (of_nat ?n :: u16)"
    using n(1) by (simp add: word_unat_eq_iff unsigned_ucast_eq take_bit_nat_eq_self unat_of_nat_eq)
  ultimately show ?thesis using ready by (simp add: slice_header_def slice_ready_def value_chunk_flag_final_def)
qed

lemma flush_stores_slice:
  assumes B: "bank_open cfg dev img r data w" and ready: "slice_ready r data i (db_value_writer (snd w))"
    and final: "final = (ww_written_size (db_value_writer (snd w)) = ww_expected_size (db_value_writer (snd w)))"
  shows "\<exists>d. flush_value_writer_chunk cfg dev final w = (ESP_OK, set_writer ((db_value_writer (snd w))
      \<lparr>ww_next_chunk_offset := of_nat (unat (vr_first_chunk_offset r) + Suc i * 4096), ww_chunk_payload_size := 0,
       ww_buffer := zeroes value_chunk_size\<rparr>) (d, snd w)) \<and> bank_open cfg dev img r data (d, snd w) \<and>
    chunk_stored cfg img (d, snd w) r data i \<and>
    (\<forall>j < i. chunk_stored cfg img w r data j \<longrightarrow> chunk_stored cfg img (d, snd w) r data j)"
proof -
  let ?n = "length (chunk_slice data i)" and ?writer = "db_value_writer (snd w)" and ?id = "mr_database_id (db_manifest (snd w))"
  let ?bank = "ucast (vr_bank_slot r) :: u32"
  define at where "at = unat (vr_first_chunk_offset r) + i * 4096"
  have i: "i * 4032 < length data" using ready by (simp add: slice_ready_def)
  have n: "0 < ?n" "?n \<le> 4032" using i by (auto simp: slice_length)
  note B' = bank_open_D [OF B] and off = chunk_offset [OF B i, folded at_def]
  have un: "unat (of_nat ?n :: u32) = ?n" "unat (of_nat ?n :: u16) = ?n" using n(2) by (simp_all add: unat_of_nat_eq)
  obtain b where b: "encode_value_chunk (zeroes value_chunk_size) ((slice_header ?id r data i)\<lparr>vc_payload_checksum := 0\<rparr>)
      (ww_buffer ?writer) = Some b" "length b = 4096" "decode_value_chunk b = Inr (slice_header ?id r data i, chunk_slice data i)"
  proof -
    have "length (chunk_slice data i) = unat (vc_payload_size ((slice_header ?id r data i)\<lparr>vc_payload_checksum := 0\<rparr>))"
      by (simp add: slice_header_def un)
    from value_chunk_roundtrip [OF slice_header_valid [OF B i] this, of "zeroes value_chunk_size"]
      encode_value_chunk_prefix [of "(slice_header ?id r data i)\<lparr>vc_payload_checksum := 0\<rparr>" ?n _ "ww_buffer ?writer"]
    show thesis using that ready by (auto simp: slice_header_def un format_consts slice_ready_def)
  qed
  have offset: "unat (ucast (of_nat at :: u32) :: u64) = at" "unat (of_nat at :: u32) = at"
    using off(2) by (intro small_word(1,2); simp)+
  have aligned: "4096 dvd at" using B'(5) by (simp add: at_def)
  obtain d where d: "write_store cfg dev kind_value_bank ?bank (ucast (of_nat at :: u32)) b w = (ESP_OK, d, snd w)"
    "working_store cfg dev img (d, snd w)"
    "store_bytes cfg img (d, snd w) kind_value_bank ?bank = put (store_bytes cfg img w kind_value_bank ?bank) at b"
  proof (rule write_store_ok [of cfg dev img w kind_value_bank ?bank "ucast (of_nat at :: u32)" b, unfolded offset(1)])
    show "working_store cfg dev img w" "store_exists cfg w kind_value_bank ?bank" using B by (simp_all add: bank_open_def)
  qed (use b(2) off(1) aligned in simp_all)
  have open': "bank_open cfg dev img r data (d, snd w)"
    using B d(2) by (simp add: bank_open_def)
  have len: "length (store_bytes cfg img w kind_value_bank ?bank) = store_size cfg w kind_value_bank"
    using B by (intro length_store_bytes [where dev = dev]) (simp_all add: bank_open_def)
  have stored: "chunk_stored cfg img (d, snd w) r data i"
    using b(2,3) off(1) len by (simp add: chunk_stored_def d(3) at_def [symmetric] buffer_simps)
  have others: "chunk_stored cfg img (d, snd w) r data j" if "j < i" "chunk_stored cfg img w r data j" for j
  proof -
    have "j * 4096 + 4096 \<le> i * 4096" using that(1) by auto
    then show ?thesis using that(2) by (simp add: chunk_stored_def d(3) at_def get_put_before)
  qed
  have after: "of_nat at + of_nat value_chunk_size = (of_nat (unat (vr_first_chunk_offset r) + Suc i * 4096) :: u32)"
    by (simp add: at_def format_consts)
  have room: "\<not> of_nat at > sg_value_bank_size (mr_geometry (db_manifest (snd w))) - of_nat value_chunk_size"
  proof -
    let ?size = "sg_value_bank_size (mr_geometry (db_manifest (snd w)))"
    have "4096 \<le> unat ?size" "at \<le> unat ?size - 4096" using off(1) B'(8) by simp_all
    then have "unat (?size - of_nat value_chunk_size) = unat ?size - 4096" by (simp add: unat_sub word_le_nat_alt format_consts)
    then show ?thesis using \<open>at \<le> unat ?size - 4096\<close> off(2) by (simp add: word_less_nat_alt not_less small_word(1))
  qed
  have nonzero: "ww_chunk_payload_size ?writer \<noteq> 0" using ready n un(1) by (auto simp: slice_ready_def word_unat_eq_iff)
  have R: "ww_active ?writer" "ww_reference ?writer = r" "ww_next_chunk_offset ?writer = of_nat at"
    using ready by (simp_all add: slice_ready_def at_def)
  have "flush_value_writer_chunk cfg dev final w = (ESP_OK, set_writer (?writer
      \<lparr>ww_next_chunk_offset := of_nat (unat (vr_first_chunk_offset r) + Suc i * 4096), ww_chunk_payload_size := 0,
       ww_buffer := zeroes value_chunk_size\<rparr>) (d, snd w))"
    unfolding flush_value_writer_chunk_def Let_def final flush_header [OF B ready] b(1) option.case R(3) after [symmetric]
    using nonzero R(1,2) room d(1) by (simp add: not_less del: of_nat_add)
  then show ?thesis using open' stored others by blast
qed

text \<open>After \<open>k\<close> bytes of the value: the chunks put out, the bytes waiting in the buffer.\<close>

definition filled :: "bytes \<Rightarrow> nat \<Rightarrow> nat" where
  "filled data k = (if k = length data then chunk_count_nat k else k div 4032)"

definition pending :: "bytes \<Rightarrow> nat \<Rightarrow> nat" where
  "pending data k = (if k = length data then 0 else k mod 4032)"

definition writer_at :: "bytes \<Rightarrow> nat \<Rightarrow> value_ref \<Rightarrow> value_writer_slot \<Rightarrow> bool" where
  "writer_at data k r writer \<longleftrightarrow> ww_active writer \<and> \<not> ww_inline_value writer \<and> ww_reference writer = r \<and>
     ww_expected_size writer = of_nat (length data) \<and> ww_written_size writer = of_nat k \<and>
     ww_chunk_payload_size writer = of_nat (pending data k) \<and>
     ww_next_chunk_offset writer = of_nat (unat (vr_first_chunk_offset r) + filled data k * 4096) \<and>
     length (ww_buffer writer) = 4096 \<and>
     get (ww_buffer writer) 0 (pending data k) = get data (filled data k * 4032) (pending data k) \<and>
     (ucast (ww_checksum_state writer) :: u32) = calc_crc32_update (- 1) (take k data)"

definition stream_at :: "config \<Rightarrow> 'd block_device \<Rightarrow> ('d \<Rightarrow> bytes) \<Rightarrow> value_ref \<Rightarrow> bytes \<Rightarrow> nat \<Rightarrow> 'd world \<Rightarrow> bool" where
  "stream_at cfg dev img r data k w \<longleftrightarrow> bank_open cfg dev img r data w \<and> k \<le> length data \<and>
     writer_at data k r (db_value_writer (snd w)) \<and> (\<forall>i < filled data k. chunk_stored cfg img w r data i)"

lemma set_writer_stored: "chunk_stored cfg img (set_writer writer w) r data i = chunk_stored cfg img w r data i"
  "bank_open cfg dev img r data (set_writer writer w) = bank_open cfg dev img r data w"
proof -
  obtain d s where w: "w = (d, s)" by (rule prod.exhaust)
  show "chunk_stored cfg img (set_writer writer w) r data i = chunk_stored cfg img w r data i"
    unfolding w set_writer_def update_db_def fst_conv snd_conv by (rule chunk_stored_cong) simp_all
  show "bank_open cfg dev img r data (set_writer writer w) = bank_open cfg dev img r data w"
    unfolding w set_writer_def update_db_def fst_conv snd_conv by (rule bank_open_cong) simp_all
qed

text \<open>A part of the value that fits into the buffer.\<close>

lemma buffered_part:
  assumes at: "writer_at data k r writer" and k: "k < length data" and p: "k mod 4032 + p \<le> 4032" "k + p \<le> length data"
    and len: "length data < 2 ^ 32"
  defines "writer' \<equiv> buffer_part (get data k p) writer"
  shows "ww_chunk_payload_size writer' = of_nat (k mod 4032 + p)" "ww_written_size writer' = of_nat (k + p)"
    "get (ww_buffer writer') 0 (k mod 4032 + p) = get data (k div 4032 * 4032) (k mod 4032 + p)" "length (ww_buffer writer') = 4096"
    "(ucast (ww_checksum_state writer') :: u32) = calc_crc32_update (- 1) (take (k + p) data)"
    "ww_active writer'" "\<not> ww_inline_value writer'" "ww_reference writer' = r" "ww_expected_size writer' = of_nat (length data)"
    "ww_next_chunk_offset writer' = of_nat (unat (vr_first_chunk_offset r) + k div 4032 * 4096)"
proof -
  let ?m = "k mod 4032" and ?part = "get data k p"
  have W: "ww_chunk_payload_size writer = of_nat ?m" "ww_written_size writer = of_nat k" "length (ww_buffer writer) = 4096"
    "get (ww_buffer writer) 0 ?m = get data (k div 4032 * 4032) ?m"
    "(ucast (ww_checksum_state writer) :: u32) = calc_crc32_update (- 1) (take k data)"
    using at k by (simp_all add: writer_at_def pending_def filled_def)
  have part: "length ?part = p" using p(2) by simp
  have m: "unat (of_nat ?m :: u32) = ?m" by (intro small_word(1)) simp
  show "ww_chunk_payload_size writer' = of_nat (?m + p)" "ww_written_size writer' = of_nat (k + p)"
    using W part by (simp_all add: writer'_def buffer_part_def)
  show "length (ww_buffer writer') = 4096" using W part p(1) by (simp add: writer'_def buffer_part_def m)
  have "get (put (ww_buffer writer) ?m ?part) 0 (?m + p) = get (ww_buffer writer) 0 ?m @ ?part"
    using W(3) part p(1) by (subst get_append) (simp_all add: buffer_simps)
  also have "\<dots> = get data (k div 4032 * 4032) (?m + p)"
    using p(2) by (subst get_append) (simp_all add: W(4))
  finally show "get (ww_buffer writer') 0 (?m + p) = get data (k div 4032 * 4032) (?m + p)"
    by (simp add: writer'_def buffer_part_def W(1) m)
  have "take (k + p) data = take k data @ ?part" by (simp add: take_add get_def)
  then show "(ucast (ww_checksum_state writer') :: u32) = calc_crc32_update (- 1) (take (k + p) data)"
    by (simp add: writer'_def buffer_part_def W(5) calc_crc32_update_append widened_word)
  show "ww_active writer'" "\<not> ww_inline_value writer'" "ww_reference writer' = r" "ww_expected_size writer' = of_nat (length data)"
    "ww_next_chunk_offset writer' = of_nat (unat (vr_first_chunk_offset r) + k div 4032 * 4096)"
    using at k by (simp_all add: writer'_def buffer_part_def writer_at_def filled_def)
qed

lemma last_slice: "k div 4032 * 4032 + n = len \<Longrightarrow> 0 < n \<Longrightarrow> n \<le> 4032 \<Longrightarrow> chunk_count_nat len = Suc (k div 4032)"
proof -
  assume len: "k div 4032 * 4032 + n = len" and n: "0 < n" "n \<le> 4032"
  have "(k div 4032 * 4032 + (n + 4031)) div 4032 = k div 4032 + (n + 4031) div 4032" by simp
  moreover have "(n + 4031) div 4032 = 1" using n by (intro div_nat_eqI) simp_all
  ultimately show ?thesis using len by (simp add: chunk_count_nat_def add.assoc)
qed

text \<open>One turn of the loop: up to the end of the slice or of the data.\<close>

lemma write_slice:
  assumes at: "stream_at cfg dev img r data k w" and k: "k < length data" and p: "0 < p" "k mod 4032 + p \<le> 4032" "k + p \<le> length data"
    and full: "k mod 4032 + p = 4032 \<or> k + p = length data"
  defines "writer \<equiv> buffer_part (get data k p) (db_value_writer (snd w))"
  shows "\<exists>w'. flush_value_writer_chunk cfg dev (ww_written_size writer = ww_expected_size writer) (set_writer writer w) = (ESP_OK, w') \<and>
    stream_at cfg dev img r data (k + p) w' \<and> snd w' = (snd w)\<lparr>db_value_writer := db_value_writer (snd w')\<rparr>"
proof -
  let ?i = "k div 4032" and ?n = "k mod 4032 + p" and ?w = "set_writer writer w"
  have B: "bank_open cfg dev img r data w" using at by (simp add: stream_at_def)
  note W = buffered_part [OF _ k p(2,3) bank_open_D(2) [OF B], of r "db_value_writer (snd w)", folded writer_def]
  have W: "ww_chunk_payload_size writer = of_nat ?n" "ww_written_size writer = of_nat (k + p)"
    "get (ww_buffer writer) 0 ?n = get data (?i * 4032) ?n"
    "(ucast (ww_checksum_state writer) :: u32) = calc_crc32_update (- 1) (take (k + p) data)"
    "ww_active writer" "\<not> ww_inline_value writer" "ww_reference writer = r" "ww_expected_size writer = of_nat (length data)"
    "ww_next_chunk_offset writer = of_nat (unat (vr_first_chunk_offset r) + ?i * 4096)"
    using W at by (simp_all add: stream_at_def)
  have split: "?i * 4032 + ?n = k + p" by simp
  have n: "?n = length (chunk_slice data ?i)"
    using full p(2,3) split unfolding slice_length min_def by (cases "4032 \<le> length data - ?i * 4032") (simp_all only: if_True if_False; linarith)+
  have slice: "get data (?i * 4032) ?n = chunk_slice data ?i"
    unfolding n by (simp add: get_def chunk_slice_def min_def)
  have i: "?i * 4032 < length data" using k by (meson div_times_less_eq_dividend le_less_trans)
  have ready: "slice_ready r data ?i (db_value_writer (snd ?w))"
    using W i slice split by (simp add: slice_ready_def set_writer_def n [symmetric] del: of_nat_add)
  have open': "bank_open cfg dev img r data ?w" using B by (simp add: set_writer_stored)
  obtain d where d: "flush_value_writer_chunk cfg dev (ww_written_size writer = ww_expected_size writer) ?w = (ESP_OK, set_writer (writer
      \<lparr>ww_next_chunk_offset := of_nat (unat (vr_first_chunk_offset r) + Suc ?i * 4096), ww_chunk_payload_size := 0,
       ww_buffer := zeroes value_chunk_size\<rparr>) (d, snd ?w))" (is "_ = (_, ?w')")
    "bank_open cfg dev img r data (d, snd ?w)" "chunk_stored cfg img (d, snd ?w) r data ?i"
    "\<forall>j < ?i. chunk_stored cfg img ?w r data j \<longrightarrow> chunk_stored cfg img (d, snd ?w) r data j"
    using flush_stores_slice [OF open' ready refl] by (auto simp: set_writer_def)
  have filled: "filled data k = ?i" "filled data (k + p) = Suc ?i" "pending data (k + p) = 0"
  proof -
    show "filled data k = ?i" using k by (simp add: filled_def)
    have rest: "(k + p) div 4032 = Suc ?i \<and> (k + p) mod 4032 = 0" if "k + p \<noteq> length data"
    proof -
      have "k + p = Suc ?i * 4032" using full that split by simp
      then show ?thesis by simp
    qed
    show "filled data (k + p) = Suc ?i" "pending data (k + p) = 0"
      using rest last_slice [OF split _ p(2)] p(1) by (auto simp: filled_def pending_def)
  qed
  have "stream_at cfg dev img r data (k + p) ?w'"
    using d(2-4) at p(3) W filled set_writer_stored [where w = w] set_writer_stored [where w = "(d, snd ?w)"]
    by (simp add: stream_at_def writer_at_def less_Suc_eq)
       (simp add: set_writer_def format_consts)
  moreover have "snd ?w' = (snd w)\<lparr>db_value_writer := db_value_writer (snd ?w')\<rparr>" by (simp add: set_writer_def)
  ultimately show ?thesis using d(1) by blast
qed

text \<open>A part that leaves the slice open only moves the writer.\<close>

lemma buffer_slice:
  assumes at: "stream_at cfg dev img r data k w" and p: "k mod 4032 + p < 4032" "k + p < length data"
  defines "writer \<equiv> buffer_part (get data k p) (db_value_writer (snd w))"
  shows "stream_at cfg dev img r data (k + p) (set_writer writer w)"
proof -
  have B: "bank_open cfg dev img r data w" and k: "k < length data" using at p by (simp_all add: stream_at_def)
  note W = buffered_part [OF _ k _ _ bank_open_D(2) [OF B], of r "db_value_writer (snd w)" p, folded writer_def]
  have W: "writer_at data k r (db_value_writer (snd w))" using at by (simp add: stream_at_def)
  have pos: "(k + p) div 4032 = k div 4032" "(k + p) mod 4032 = k mod 4032 + p"
  proof -
    have "k + p = k div 4032 * 4032 + (k mod 4032 + p)" by simp
    then show "(k + p) div 4032 = k div 4032" "(k + p) mod 4032 = k mod 4032 + p"
      using p(1) by (metis div_mult_self3 div_less add.right_neutral zero_neq_numeral, metis mod_mult_self3 mod_less)
  qed
  have "writer_at data (k + p) r writer"
    using buffered_part [OF W k _ _ bank_open_D(2) [OF B], of p, folded writer_def] p pos
    by (simp add: writer_at_def filled_def pending_def del: of_nat_add of_nat_mult)
  then show ?thesis
    using at p k pos by (simp add: stream_at_def set_writer_stored filled_def) (simp add: set_writer_def)
qed

lemma write_stream:
  assumes "stream_at cfg dev img r data k w" "k + n \<le> length data"
  shows "\<exists>w'. write_value_chunks cfg dev (get data k n) w = (ESP_OK, w') \<and> stream_at cfg dev img r data (k + n) w' \<and>
    snd w' = (snd w)\<lparr>db_value_writer := db_value_writer (snd w')\<rparr>"
  using assms
proof (induction n arbitrary: k w rule: less_induct)
  case (less n)
  show ?case
  proof (cases "n = 0")
    case True
    then show ?thesis using less.prems by (intro exI [of _ w]) (simp add: write_value_chunks.simps)
  next
    case False
    let ?data = "get data k n" and ?room = "4032 - k mod 4032"
    define p where "p = min n ?room"
    have k: "k < length data" using False less.prems by simp
    have "ww_chunk_payload_size (db_value_writer (snd w)) = of_nat (k mod 4032)"
      using less.prems(1) k by (simp add: stream_at_def writer_at_def pending_def)
    moreover have "(4032 :: u32) - of_nat (k mod 4032) = of_nat ?room" using small_word(6) [of 4032 "k mod 4032"] by simp
    moreover have "unat (of_nat ?room :: u32) = ?room" by (intro small_word(1)) simp
    ultimately have "unat (chunk_room (db_value_writer (snd w))) = ?room" by (simp add: chunk_room_def format_consts)
    then have part: "next_part (db_value_writer (snd w)) ?data = p"
      using less.prems(2) by (simp add: next_part_def p_def min_def)
    have p: "0 < p" "p \<le> n" "k mod 4032 + p \<le> 4032" using False by (auto simp: p_def)
    have cut: "take p ?data = get data k p" "drop p ?data = get data (k + p) (n - p)"
      using p(2) by (simp_all add: get_def min_def drop_take add.commute)
    let ?writer = "buffer_part (get data k p) (db_value_writer (snd w))"
    have W: "writer_at data k r (db_value_writer (snd w))" "bank_open cfg dev img r data w"
      using less.prems(1) by (simp_all add: stream_at_def)
    note W' = buffered_part [OF W(1) k p(3) _ bank_open_D(2) [OF W(2)]]
    have len: "length data < 2 ^ 32" "k + p \<le> length data" using bank_open_D(2) [OF W(2)] p(2) less.prems(2) by simp_all
    have "unat (of_nat (k mod 4032 + p) :: u32) = k mod 4032 + p" using p(3) by (intro small_word(1)) simp
    then have complete: "chunk_complete ?writer \<longleftrightarrow> k mod 4032 + p = 4032 \<or> k + p = length data"
      using W'(1,2,9) [OF len(2)] small_word(3) [of "k + p" "length data"] len
      by (simp add: chunk_complete_def format_consts del: of_nat_add)
    have nonempty: "?data \<noteq> []" using False less.prems(2) by (metis length_get list.size(3))
    have rest: "\<exists>w''. write_value_chunks cfg dev (drop p ?data) w' = (ESP_OK, w'') \<and> stream_at cfg dev img r data (k + n) w'' \<and>
        snd w'' = (snd w)\<lparr>db_value_writer := db_value_writer (snd w'')\<rparr>"
      if w': "stream_at cfg dev img r data (k + p) w'" "snd w' = (snd w)\<lparr>db_value_writer := db_value_writer (snd w')\<rparr>" for w'
    proof -
      obtain w'' where "write_value_chunks cfg dev (drop p ?data) w' = (ESP_OK, w'')" "stream_at cfg dev img r data (k + n) w''"
        "snd w'' = (snd w')\<lparr>db_value_writer := db_value_writer (snd w'')\<rparr>"
        using less.IH [of "n - p", OF _ w'(1)] p(1,2) less.prems(2) by (auto simp: cut(2))
      moreover have "(snd w')\<lparr>db_value_writer := x\<rparr> = (snd w)\<lparr>db_value_writer := x\<rparr>" for x by (subst w'(2)) simp
      ultimately show ?thesis by auto
    qed
    show ?thesis
    proof (cases "chunk_complete ?writer")
      case True
      then obtain w' where w': "flush_value_writer_chunk cfg dev (ww_written_size ?writer = ww_expected_size ?writer) (set_writer ?writer w) = (ESP_OK, w')"
        "stream_at cfg dev img r data (k + p) w'" "snd w' = (snd w)\<lparr>db_value_writer := db_value_writer (snd w')\<rparr>"
        using write_slice [OF less.prems(1) k p(1,3) len(2)] complete by blast
      show ?thesis
        using rest [OF w'(2,3)] nonempty True w'(1)
        by (subst write_value_chunks.simps) (simp add: Let_def part cut(1))
    next
      case False
      then have "stream_at cfg dev img r data (k + p) (set_writer ?writer w)"
        using complete p(3) len(2) by (intro buffer_slice [OF less.prems(1)]) auto
      then show ?thesis
        using rest [of "set_writer ?writer w"] nonempty False
        by (subst write_value_chunks.simps) (simp add: Let_def part cut(1) set_writer_def)
    qed
  qed
qed

section \<open>The reader\<close>

text \<open>A reader at byte \<open>c\<close> of the value, with the bytes from \<open>off\<close> to \<open>off + n\<close> in its buffer.\<close>

definition reading :: "bytes \<Rightarrow> value_ref \<Rightarrow> nat \<Rightarrow> nat \<Rightarrow> nat \<Rightarrow> value_reader_slot \<Rightarrow> bool" where
  "reading data r c off n reader \<longleftrightarrow> rd_used reader \<and> rd_external reader \<and> rd_external_value reader = r \<and>
     rd_value_size reader = of_nat (length data) \<and> rd_cursor reader = of_nat c \<and> c \<le> length data \<and>
     rd_checksum_enabled reader \<and> rd_checksum_state reader = calc_crc32_update (- 1) (take c data) \<and>
     rd_buffer_value_offset reader = of_nat off \<and> rd_buffer_size reader = of_nat n \<and> off + n \<le> length data \<and>
     n \<le> length (rd_buffer reader) \<and> get (rd_buffer reader) 0 n = get data off n"

definition value_stored :: "config \<Rightarrow> 'd block_device \<Rightarrow> ('d \<Rightarrow> bytes) \<Rightarrow> value_ref \<Rightarrow> bytes \<Rightarrow> 'd world \<Rightarrow> bool" where
  "value_stored cfg dev img r data w \<longleftrightarrow> bank_open cfg dev img r data w \<and>
     (\<forall>i. i * 4032 < length data \<longrightarrow> chunk_stored cfg img w r data i)"

lemma value_stored_cong:
  "mr_geometry (db_manifest s') = mr_geometry (db_manifest s) \<Longrightarrow> mr_database_id (db_manifest s') = mr_database_id (db_manifest s) \<Longrightarrow>
   value_stored cfg dev img r data (d, s') = value_stored cfg dev img r data (d, s)"
  unfolding value_stored_def using bank_open_cong chunk_stored_cong by metis

lemma set_reader_simps:
  "index < length (db_value_readers (snd w)) \<Longrightarrow> reader_at index (set_reader index reader w) = reader"
  "fst (set_reader index reader w) = fst w" "db_manifest (snd (set_reader index reader w)) = db_manifest (snd w)"
  "length (db_value_readers (snd (set_reader index reader w))) = length (db_value_readers (snd w))"
  "set_reader index reader (set_reader index reader' w) = set_reader index reader w"
  by (simp_all add: reader_at_def set_reader_def update_db_def)

lemma set_reader_stored: "value_stored cfg dev img r data (set_reader index reader w) = value_stored cfg dev img r data w"
proof -
  obtain d s where w: "w = (d, s)" by (rule prod.exhaust)
  show ?thesis unfolding w set_reader_def update_db_def fst_conv snd_conv by (rule value_stored_cong) simp_all
qed

lemma reader_chunk:
  assumes "c < length data" "length data < 2 ^ 32"
  shows "(of_nat c :: u32) div of_nat value_chunk_payload_size = of_nat (c div 4032)"
    "(of_nat c :: u32) mod of_nat value_chunk_payload_size = of_nat (c mod 4032)"
    "chunk_expected_payload (of_nat (length data)) (of_nat (c div 4032 * 4032)) = of_nat (length (chunk_slice data (c div 4032)))"
proof -
  have c: "c < 2 ^ 32" using assms by simp
  show "(of_nat c :: u32) div of_nat value_chunk_payload_size = of_nat (c div 4032)"
    using small_word(1) [OF c] small_word(1) [of "c div 4032"] c by (simp add: word_unat_eq_iff unat_div format_consts)
  show "(of_nat c :: u32) mod of_nat value_chunk_payload_size = of_nat (c mod 4032)"
    using small_word(1) [OF c] small_word(1) [of "c mod 4032"] c by (simp add: word_unat_eq_iff unat_mod format_consts)
  have le: "c div 4032 * 4032 \<le> length data" using assms(1) by (meson div_times_less_eq_dividend le_trans less_imp_le)
  have "(of_nat (length data) - of_nat (c div 4032 * 4032) :: u32) = of_nat (length data - c div 4032 * 4032)"
    using small_word(6) [OF assms(2) le] .
  then show "chunk_expected_payload (of_nat (length data)) (of_nat (c div 4032 * 4032)) = of_nat (length (chunk_slice data (c div 4032)))"
    using small_word(5) [of "length data - c div 4032 * 4032" 4032] assms(2)
    by (simp add: chunk_expected_payload_def format_consts slice_length min_def del: of_nat_mult)
qed

lemma fill_reader:
  assumes V: "value_stored cfg dev img r data w" and R: "reading data r c off n (reader_at index w)" and c: "c < length data"
    and index: "index < length (db_value_readers (snd w))"
  shows "\<exists>reader n'. fill_reader_buffer cfg dev index w = (ESP_OK, set_reader index reader w) \<and> 0 < n' \<and> reading data r c c n' reader"
proof -
  let ?i = "c div 4032" and ?m = "c mod 4032" and ?reader = "reader_at index w"
  let ?n = "length (chunk_slice data ?i)" and ?id = "mr_database_id (db_manifest (snd w))"
  have B: "bank_open cfg dev img r data w" using V by (simp add: value_stored_def)
  note B' = bank_open_D [OF B] and K = reader_chunk [OF c B'(2)]
  have i: "?i * 4032 < length data" using c by (meson div_times_less_eq_dividend le_less_trans)
  note off = chunk_offset [OF B i]
  have stored: "chunk_stored cfg img w r data ?i" using V i by (simp add: value_stored_def)
  have n: "?m < ?n" "?n \<le> 4032" "?i * 4032 + ?n \<le> length data" "c - ?m = ?i * 4032" "c + (?n - ?m) = ?i * 4032 + ?n"
  proof -
    have split: "c = ?i * 4032 + ?m" by simp
    show "?n \<le> 4032" "?i * 4032 + ?n \<le> length data" "c - ?m = ?i * 4032"
      using i by (auto simp: slice_length minus_mod_eq_div_mult)
    have "?m < 4032" by simp
    then show "?m < ?n" using c split unfolding slice_length by linarith
    then show "c + (?n - ?m) = ?i * 4032 + ?n" using split by linarith
  qed
  have u: "unat (of_nat ?m :: u32) = ?m" "unat (of_nat ?n :: u16) = ?n" "unat (ucast (of_nat ?n :: u16) :: u32) = ?n"
    "unat (of_nat ?n :: u32) = ?n" using n(2) by (simp_all add: unsigned_ucast_eq take_bit_nat_eq_self small_word(1))
  have wide: "ucast (of_nat ?n :: u16) = (of_nat ?n :: u32)" using u by (simp add: word_unat_eq_iff)
  have available: "(of_nat ?n :: u32) - of_nat ?m = of_nat (?n - ?m)" using n(1,2) by (intro small_word(6)) simp_all
  let ?size = "sg_value_bank_size (mr_geometry (db_manifest (snd w)))"
  let ?offset = "ucast (vr_first_chunk_offset r) + ucast (of_nat ?i :: u32) * of_nat value_chunk_size :: u64"
  have offset: "unat ?offset = unat (vr_first_chunk_offset r) + ?i * 4096"
  proof -
    have "?i < 2 ^ 32" using off(2) by simp
    then have "ucast (of_nat ?i :: u32) = (of_nat ?i :: u64)" by (rule small_word(7))
    then have "?offset = of_nat (unat (vr_first_chunk_offset r) + ?i * 4096)" by (simp add: format_consts)
    then show ?thesis using off(2) by (simp only:) (intro unat_of_nat_eq; simp)
  qed
  have room: "\<not> ?offset > ucast (?size - of_nat value_chunk_size)"
  proof -
    have "4096 \<le> unat ?size" "unat (vr_first_chunk_offset r) + ?i * 4096 \<le> unat ?size - 4096" using off(1) B'(8) by simp_all
    moreover then have "unat (?size - of_nat value_chunk_size) = unat ?size - 4096" by (simp add: unat_sub word_le_nat_alt format_consts)
    ultimately show ?thesis by (simp add: word_less_nat_alt not_less offset)
  qed
  obtain buffer where read: "read_store cfg dev kind_value_bank (ucast (vr_bank_slot r)) ?offset value_chunk_size w = Inr buffer"
    "length buffer = 4096" "decode_value_chunk buffer = Inr (slice_header ?id r data ?i, chunk_slice data ?i)"
  proof
    let ?bytes = "store_bytes cfg img w kind_value_bank (ucast (vr_bank_slot r))"
    have W: "working_store cfg dev img w" "store_exists cfg w kind_value_bank (ucast (vr_bank_slot r))"
      using B by (simp_all add: bank_open_def)
    show "read_store cfg dev kind_value_bank (ucast (vr_bank_slot r)) ?offset value_chunk_size w =
        Inr (get ?bytes (unat (vr_first_chunk_offset r) + ?i * 4096) 4096)"
      using read_store_ok [OF W, of ?offset value_chunk_size] off(1) by (simp only: offset) (simp add: format_consts)
    show "length (get ?bytes (unat (vr_first_chunk_offset r) + ?i * 4096) 4096) = 4096"
      using off(1) length_store_bytes [OF W] by simp
    show "decode_value_chunk (get ?bytes (unat (vr_first_chunk_offset r) + ?i * 4096) 4096) =
        Inr (slice_header ?id r data ?i, chunk_slice data ?i)"
      using stored by (simp add: chunk_stored_def)
  qed
  have final: "(of_nat (?i * 4032) + of_nat ?n = (of_nat (length data) :: u32)) = (?i * 4032 + ?n = length data)"
    using small_word(3) [of "?i * 4032 + ?n" "length data"] n(3) B'(2) by (simp del: of_nat_mult)
  have logical: "of_nat ?i * of_nat value_chunk_payload_size = (of_nat (?i * 4032) :: u32)" by (simp add: format_consts)
  have matches: "chunk_matches ?id r (of_nat (length data)) (of_nat (?i * 4032)) (of_nat ?n) (?i * 4032 + ?n = length data)
      (slice_header ?id r data ?i)"
    by (simp add: chunk_matches_def slice_header_def wide value_chunk_flag_final_def)
  have payload: "vc_payload_size (slice_header ?id r data ?i) = of_nat ?n" by (simp add: slice_header_def)
  define reader where "reader = ?reader\<lparr>rd_buffer := put buffer 0 (get (chunk_slice data ?i) ?m (?n - ?m)),
      rd_buffer_value_offset := of_nat c, rd_buffer_size := of_nat (?n - ?m)\<rparr>"
  have fields: "rd_used ?reader" "rd_external ?reader" "rd_external_value ?reader = r" "rd_value_size ?reader = of_nat (length data)"
    "rd_cursor ?reader = of_nat c"
    using R by (simp_all add: reading_def)
  have valid: "value_ref_is_valid r ?size" using B by (simp add: bank_open_def)
  have inside: "\<not> of_nat (length data) \<le> (of_nat c :: u32)" using small_word(4) [OF B'(2), of c] B'(2) c by simp
  have u': "unat (of_nat (?n - ?m) :: u32) = ?n - ?m" using n(2) by (intro small_word(1)) simp
  have "fill_reader_buffer cfg dev index w = (ESP_OK, set_reader index reader w)"
    unfolding fill_reader_buffer_def Let_def fields K(1,2) logical K(3) final read(1)
    using inside room valid n(1)
    by (simp only: fields(1,2) not_True_eq_False read(3) matches payload wide available u u' set_reader_simps reader_def sum.case prod.case if_False simp_thms
        not_less [symmetric] not_le)
  moreover have "reading data r c c (?n - ?m) reader"
  proof -
    have slice: "get (chunk_slice data ?i) ?m (?n - ?m) = get data c (?n - ?m)"
    proof -
      have "get (chunk_slice data ?i) ?m (?n - ?m) = get (get data (?i * 4032) ?n) ?m (?n - ?m)"
        by (simp add: chunk_slice_def get_def min_def)
      then show ?thesis using n(1) by (simp add: get_get)
    qed
    have len: "length (get data c (?n - ?m)) = ?n - ?m" using n by simp
    have "get (put buffer 0 (get data c (?n - ?m))) 0 (?n - ?m) = get data c (?n - ?m)"
      by (rule get_put_same [OF len [symmetric]]) (use read(2) n(2) in linarith)
    moreover have "?n - ?m \<le> 4096" using n(2) by linarith
    ultimately show ?thesis using R c n read(2) len by (simp add: reading_def reader_def slice)
  qed
  ultimately show ?thesis using n(1) by (intro exI [of _ reader] exI [of _ "?n - ?m"]) simp
qed

text \<open>A refill leaves the cursor inside the buffered part.\<close>

lemma refill_reading:
  assumes V: "value_stored cfg dev img r data w" and R: "reading data r c off n (reader_at index w)" and c: "c < length data"
    and index: "index < length (db_value_readers (snd w))"
  obtains reader off' n' where "refill_reader cfg dev index w = (ESP_OK, set_reader index reader w)"
    "reading data r c off' n' reader" "off' \<le> c" "c < off' + n'"
proof (cases "off \<le> c \<and> c < off + n")
  case True
  have len: "length data < 2 ^ 32" by (rule bank_open_D(2)) (use V in \<open>auto simp: value_stored_def\<close>)
  have "of_nat off + of_nat n = (of_nat (off + n) :: u32)" by simp
  then have "\<not> reader_unbuffered (reader_at index w)"
    using R True len c small_word(5) [of c off] small_word(4) [of "off + n" c]
    by (simp add: reader_unbuffered_def reading_def del: of_nat_add)
  moreover have "set_reader index (reader_at index w) w = w"
    by (simp add: set_reader_def reader_at_def update_db_def)
  ultimately have "refill_reader cfg dev index w = (ESP_OK, set_reader index (reader_at index w) w)"
    by (simp add: refill_reader_def)
  then show thesis using R True by (auto intro: that)
next
  case False
  have len: "length data < 2 ^ 32" by (rule bank_open_D(2)) (use V in \<open>auto simp: value_stored_def\<close>)
  have "of_nat off + of_nat n = (of_nat (off + n) :: u32)" by simp
  then have "reader_unbuffered (reader_at index w)"
    using R False len c small_word(5) [of c off] small_word(4) [of "off + n" c]
    by (auto simp: reader_unbuffered_def reading_def simp del: of_nat_add)
  then have "refill_reader cfg dev index w = fill_reader_buffer cfg dev index w"
    using R by (simp add: refill_reader_def reading_def)
  then show thesis using fill_reader [OF V R c index] by (auto intro: that)
qed

lemma advance_reading:
  fixes m :: nat
  assumes R: "reading data r c off n reader" and c: "off \<le> c" "c < off + n" and len: "length data < 2 ^ 32"
  defines "p \<equiv> reader_part reader m"
  shows "p = min (off + n - c) m" "take p (reader_data reader) = get data c p" "reading data r (c + p) off n (advance_reader p reader)"
proof -
  have D: "off + n \<le> length data" "n \<le> length (rd_buffer reader)" "get (rd_buffer reader) 0 n = get data off n"
    using R by (simp_all add: reading_def)
  have at: "rd_cursor reader - rd_buffer_value_offset reader = of_nat (c - off)"
    using R c small_word(6) [of c off] len D(1) by (simp add: reading_def)
  have rest: "rd_buffer_size reader - of_nat (c - off) = of_nat (off + n - c)"
    using R c small_word(6) [of n "c - off"] len D(1) by (simp add: reading_def)
  have u: "unat (of_nat (c - off) :: u32) = c - off" "unat (of_nat (off + n - c) :: u32) = off + n - c"
    using len D(1) c by (intro small_word(1); linarith)+
  show p: "p = min (off + n - c) m" by (simp add: p_def reader_part_def at rest u)
  have bytes: "get (rd_buffer reader) (c - off) q = get data c q" if "q \<le> off + n - c" for q
  proof -
    have "get (get (rd_buffer reader) 0 n) (c - off) q = get (get data off n) (c - off) q" by (simp add: D(3))
    then show ?thesis using that c by (simp add: get_get)
  qed
  have "reader_data reader = get data c (off + n - c)" by (simp add: reader_data_def Let_def at rest u bytes)
  then show "take p (reader_data reader) = get data c p" by (simp add: p get_def min_def)
  have "take (c + p) data = take c data @ get data c p" by (simp add: take_add get_def)
  then have crc: "calc_crc32_update (- 1) (take (c + p) data) = calc_crc32_update (calc_crc32_update (- 1) (take c data)) (get data c p)"
    by (simp add: calc_crc32_update_append)
  have "get (rd_buffer reader) (unat (rd_cursor reader - rd_buffer_value_offset reader)) p = get data c p"
    unfolding at u by (rule bytes) (simp add: p)
  moreover have "c + p \<le> length data" using p c D(1) by simp
  ultimately show "reading data r (c + p) off n (advance_reader p reader)"
    using R unfolding reading_def advance_reader_def Let_def by (simp add: crc)
qed

lemma read_loop_reading:
  assumes "value_stored cfg dev img r data w" "reading data r c off n (reader_at index w)"
    "index < length (db_value_readers (snd w))" "length out \<le> wanted" "wanted - length out \<le> fuel"
  shows "\<exists>reader off' n'. read_loop cfg dev fuel index wanted out w =
      ((ESP_OK, out @ get data c (min (wanted - length out) (length data - c))), set_reader index reader w) \<and>
    reading data r (c + min (wanted - length out) (length data - c)) off' n' reader"
  using assms
proof (induction fuel arbitrary: c off n w out)
  case 0
  have "set_reader index (reader_at index w) w = w" by (simp add: set_reader_def reader_at_def update_db_def)
  moreover have "get data c 0 = []" by (simp add: get_def)
  ultimately show ?case using 0 by (intro exI [of _ "reader_at index w"] exI) (auto simp: get_def)
next
  case (Suc fuel)
  note V = Suc.prems(1) and R = Suc.prems(2) and index = Suc.prems(3)
  have len: "length data < 2 ^ 32" by (rule bank_open_D(2)) (use V in \<open>auto simp: value_stored_def\<close>)
  have same: "set_reader index (reader_at index w) w = w" by (simp add: set_reader_def reader_at_def update_db_def)
  have more: "rd_cursor (reader_at index w) < rd_value_size (reader_at index w) \<longleftrightarrow> c < length data"
    using R len small_word(5) [of c "length data"] by (simp add: reading_def)
  show ?case
  proof (cases "length out < wanted \<and> c < length data")
    case False
    then have "min (wanted - length out) (length data - c) = 0" by auto
    then show ?thesis using False R same more
      by (intro exI [of _ "reader_at index w"] exI [of _ off] exI [of _ n]) (auto simp: get_def)
  next
    case True
    then obtain reader off' n' where reader: "refill_reader cfg dev index w = (ESP_OK, set_reader index reader w)"
      "reading data r c off' n' reader" "off' \<le> c" "c < off' + n'"
      using refill_reading [OF V R _ index] by blast
    define p where "p = reader_part reader (wanted - length out)"
    let ?w = "set_reader index (advance_reader p reader) w"
    note A = advance_reading [OF reader(2-4) len, of "wanted - length out", folded p_def]
    have p: "0 < p" "p \<le> wanted - length out" "c + p \<le> length data"
      using A(1) True reader(2,4) by (auto simp: reading_def)
    have "length (get data c p) = p" using p(3) by simp
    moreover define out' where "out' = out @ get data c p"
    ultimately have out': "length out' = length out + p" by simp
    have "value_stored cfg dev img r data ?w" "reading data r (c + p) off' n' (reader_at index ?w)"
      "index < length (db_value_readers (snd ?w))" "length out' \<le> wanted" "wanted - length out' \<le> fuel"
      using V A(3) index p Suc.prems(4,5) out' by (simp_all add: set_reader_stored set_reader_simps)
    from Suc.IH [OF this] obtain reader'' off'' n'' where rest: "read_loop cfg dev fuel index wanted out' ?w =
        ((ESP_OK, out' @ get data (c + p) (min (wanted - length out') (length data - (c + p)))), set_reader index reader'' ?w)"
      "reading data r (c + p + min (wanted - length out') (length data - (c + p))) off'' n'' reader''" by blast
    define m where "m = min (wanted - length out) (length data - c)"
    have m: "min (wanted - length out') (length data - (c + p)) = m - p" "p \<le> m" "c + m \<le> length data"
      using p by (auto simp: m_def out')
    have "get data c p @ get data (c + p) (m - p) = get data c m" 
      using get_append [of c p "m - p" data] m(2,3) by simp
    then have bytes: "out' @ get data (c + p) (m - p) = out @ get data c m" by (simp add: out'_def)
    have "read_loop cfg dev (Suc fuel) index wanted out w = read_loop cfg dev fuel index wanted out' ?w"
      using True more index by (simp add: reader(1) set_reader_simps p_def [symmetric] A(2) out'_def Let_def)
    then show ?thesis
      using rest m(2) by (simp add: m bytes set_reader_simps m_def [symmetric]) blast
  qed
qed

section \<open>From the pieces to the bytes read\<close>

fun write_pieces :: "config \<Rightarrow> 'd block_device \<Rightarrow> bytes list \<Rightarrow> 'd world \<Rightarrow> esp_err \<times> 'd world" where
  "write_pieces cfg dev [] w = (ESP_OK, w)"
| "write_pieces cfg dev (piece # pieces) w = on_ok (write_value_bytes cfg dev piece w) (write_pieces cfg dev pieces)"

lemma write_pieces_stream:
  assumes "stream_at cfg dev img r data k w" "drop k data = concat pieces"
  shows "\<exists>w'. write_pieces cfg dev pieces w = (ESP_OK, w') \<and> stream_at cfg dev img r data (length data) w' \<and>
    snd w' = (snd w)\<lparr>db_value_writer := db_value_writer (snd w')\<rparr>"
  using assms
proof (induction pieces arbitrary: k w)
  case Nil
  then have "k = length data" by (simp add: stream_at_def)
  then show ?case using Nil by (intro exI [of _ w]) simp
next
  case (Cons piece pieces)
  let ?n = "length piece" and ?writer = "db_value_writer (snd w)"
  have B: "bank_open cfg dev img r data w" and W: "writer_at data k r ?writer" and k: "k \<le> length data"
    using Cons.prems(1) by (simp_all add: stream_at_def)
  have len: "length data < 2 ^ 32" by (rule bank_open_D(2) [OF B])
  have "length (drop k data) = ?n + length (concat pieces)" by (simp add: Cons.prems(2))
  then have n: "k + ?n \<le> length data" using k by simp
  have piece: "get data k ?n = piece" by (simp add: get_def Cons.prems(2))
  have "drop (k + ?n) data = drop ?n (drop k data)" by (simp add: add.commute)
  then have rest: "drop (k + ?n) data = concat pieces" by (simp add: Cons.prems(2))
  have "ww_expected_size ?writer - ww_written_size ?writer = of_nat (length data - k)"
    using W small_word(6) [OF len k] by (simp add: writer_at_def)
  moreover have "unat (of_nat (length data - k) :: u32) = length data - k" using len by (intro small_word(1)) simp
  moreover have "\<not> length data - k < length piece" using n by linarith
  ultimately have "write_value_bytes cfg dev piece w = write_value_chunks cfg dev piece w"
    using W by (simp add: write_value_bytes_def writer_at_def Let_def)
  moreover obtain w' where w': "write_value_chunks cfg dev piece w = (ESP_OK, w')" "stream_at cfg dev img r data (k + ?n) w'"
    "snd w' = (snd w)\<lparr>db_value_writer := db_value_writer (snd w')\<rparr>"
    using write_stream [OF Cons.prems(1) n] unfolding piece by blast
  ultimately have "write_pieces cfg dev (piece # pieces) w = write_pieces cfg dev pieces w'" by (simp add: on_ok_def)
  moreover have "(snd w')\<lparr>db_value_writer := x\<rparr> = (snd w)\<lparr>db_value_writer := x\<rparr>" for x by (subst w'(3)) simp
  ultimately show ?case using Cons.IH [OF w'(2) rest] by auto
qed

text \<open>The transaction and the key the writer was opened for stay.\<close>

definition writer_target :: "db \<Rightarrow> u64 \<times> bytes" where
  "writer_target s = (ww_transaction_handle_raw (db_value_writer s), ww_key (db_value_writer s))"

lemma flush_keeps_target: "keeps writer_target (flush_value_writer_chunk cfg dev final w) w"
proof -
  have written: "keeps writer_target (on_ok (write_store cfg dev kind slot offset bytes w)
      (\<lambda>w. (ESP_OK, set_writer ((db_value_writer (snd w))\<lparr>ww_next_chunk_offset := n, ww_chunk_payload_size := k, ww_buffer := b\<rparr>) w))) w"
    for kind slot offset bytes n k b
    by (intro keeps_on_ok keeps_write_store) (simp add: keeps_def set_writer_def writer_target_def)
  show ?thesis
    unfolding flush_value_writer_chunk_def Let_def
    by (intro keeps_cases) (use written in \<open>simp add: keeps_def set_writer_def writer_target_def on_ok_def write_store_def split: prod.split\<close>)
qed

lemma write_chunks_keeps_target: "keeps writer_target (write_value_chunks cfg dev data w) w"
proof (induction cfg dev data w rule: write_value_chunks.induct)
  case (1 cfg dev data w)
  have set: "writer_target (snd (set_writer (buffer_part part (db_value_writer (snd w))) w)) = writer_target (snd w)" for part
    by (simp add: writer_target_def set_writer_def buffer_part_def)
  let ?part = "next_part (db_value_writer (snd w)) data"
  let ?writer = "buffer_part (take ?part data) (db_value_writer (snd w))"
  show ?case
  proof (cases "data = []")
    case True
    then show ?thesis by (subst write_value_chunks.simps) (simp add: keeps_refl)
  next
    case False
    obtain ret w' where flush: "flush_value_writer_chunk cfg dev (ww_written_size ?writer = ww_expected_size ?writer) (set_writer ?writer w) = (ret, w')"
      by (rule prod.exhaust)
    have kept: "writer_target (snd w') = writer_target (snd w)"
      using flush_keeps_target [of cfg dev _ "set_writer ?writer w"] by (metis flush keepsD set)
    have "keeps writer_target (write_value_chunks cfg dev (drop ?part data) w') w" if "chunk_complete ?writer" "ret = ESP_OK"
      using "1.IH"(1) [OF False refl refl that(1) flush [symmetric]] that(2) kept by (auto intro: keeps_trans)
    moreover have "keeps writer_target (write_value_chunks cfg dev (drop ?part data) (set_writer ?writer w)) w" if "\<not> chunk_complete ?writer"
      using "1.IH"(2) [OF False refl refl that] set by (rule keeps_trans)
    moreover have "keeps writer_target (ret, w') w" using kept by (simp add: keeps_def)
    ultimately show ?thesis
      using False by (subst write_value_chunks.simps) (simp add: Let_def flush)
  qed
qed

lemma write_pieces_keeps_target: "keeps writer_target (write_pieces cfg dev pieces w) w"
proof (induction pieces arbitrary: w)
  case (Cons piece pieces)
  have "keeps writer_target (write_value_bytes cfg dev piece w) w"
    unfolding write_value_bytes_def Let_def
    by (intro keeps_cases write_chunks_keeps_target) (simp add: keeps_def writer_target_def set_writer_def)
  then show ?case by (simp add: keeps_on_ok Cons.IH)
qed (simp add: keeps_refl)

lemma fresh_writer_stream:
  assumes B: "bank_open cfg dev img (ww_reference writer) data w"
    and writer: "writer = db_value_writer (snd w)" "writer = fresh_writer raw key (of_nat (length data)) generation False s"
  shows "stream_at cfg dev img (ww_reference writer) data 0 w"
proof -
  note D = bank_open_D [OF B]
  have "ww_next_chunk_offset writer = vr_first_chunk_offset (ww_reference writer)"
    by (simp add: writer(2) fresh_writer_def Let_def)
  then have "writer_at data 0 (ww_reference writer) writer"
    using D(1) by (simp add: writer_at_def pending_def filled_def get_def calc_crc32_update_def)
       (simp add: writer(2) fresh_writer_def Let_def empty_writer_def format_consts)
  then show ?thesis using B D(1) by (simp add: stream_at_def filled_def writer(1))
qed

text \<open>The reference of a finished writer.\<close>

definition finished_reference :: "value_writer_slot \<Rightarrow> value_ref" where
  "finished_reference writer = (ww_reference writer)\<lparr>vr_value_checksum := NOT (ucast (ww_checksum_state writer))\<rparr>"

lemma checksum_free:
  "bank_open cfg dev img (r\<lparr>vr_value_checksum := c\<rparr>) data w = bank_open cfg dev img r data w"
  "chunk_stored cfg img w (r\<lparr>vr_value_checksum := c\<rparr>) data i = chunk_stored cfg img w r data i"
proof -
  have "value_ref_is_valid (r\<lparr>vr_value_checksum := c\<rparr>) n = value_ref_is_valid r n" for n
    by (simp add: value_ref_is_valid_def)
  then show "bank_open cfg dev img (r\<lparr>vr_value_checksum := c\<rparr>) data w = bank_open cfg dev img r data w"
    by (simp add: bank_open_def)
  show "chunk_stored cfg img w (r\<lparr>vr_value_checksum := c\<rparr>) data i = chunk_stored cfg img w r data i"
    by (simp add: chunk_stored_def slice_header_def)
qed

lemma stream_complete:
  assumes at: "stream_at cfg dev img r data (length data) w"
  defines "r' \<equiv> finished_reference (db_value_writer (snd w))"
  shows "value_stored cfg dev img r' data w" "vr_value_checksum r' = NOT (calc_crc32_update (- 1) data)"
    "ww_chunk_payload_size (db_value_writer (snd w)) = 0"
    "ww_written_size (db_value_writer (snd w)) = ww_expected_size (db_value_writer (snd w))"
proof -
  have W: "writer_at data (length data) r (db_value_writer (snd w))" using at by (simp add: stream_at_def)
  then have r': "r' = r\<lparr>vr_value_checksum := NOT (calc_crc32_update (- 1) data)\<rparr>"
    by (simp add: r'_def finished_reference_def writer_at_def)
  have "chunk_stored cfg img w r data i" if "i * 4032 < length data" for i
    using at chunk_in_value [OF that] by (simp add: stream_at_def filled_def)
  then show "value_stored cfg dev img r' data w"
    using at by (simp add: r' value_stored_def stream_at_def checksum_free)
  show "vr_value_checksum r' = NOT (calc_crc32_update (- 1) data)" by (simp add: r')
  show "ww_chunk_payload_size (db_value_writer (snd w)) = 0"
    "ww_written_size (db_value_writer (snd w)) = ww_expected_size (db_value_writer (snd w))"
    using W by (simp_all add: writer_at_def pending_def)
qed

text \<open>The token of an opened external value leads to a reader at its first byte.\<close>

lemma open_external:
  assumes open': "open_value_unsafe cfg view w = (Inr raw, w')"
    and view: "vv_is_external view" "vv_value_size view = of_nat (length data)" "vv_external_value view = r"
    and readers: "length (db_value_readers (snd w)) = unat (cfg_max_value_readers cfg)" "unat (cfg_max_value_readers cfg) \<le> 256"
    and counter: "db_handle_generation_counter (snd w) \<le> max_handle_generation"
  obtains index where "get_value_reader cfg (snd w') raw = Inr index" "index < length (db_value_readers (snd w'))"
    "reading data r 0 0 0 (reader_at index w')" "db_manifest (snd w') = db_manifest (snd w)" "fst w' = fst w"
    "operation_allowed (snd w') = operation_allowed (snd w)"
proof -
  let ?find = "find (\<lambda>index. \<not> rd_used (reader_at index w)) [0..<unat (cfg_max_value_readers cfg)]"
  let ?counter = "db_handle_generation_counter (snd w)"
  have some: "?find \<noteq> None" "?counter \<noteq> 0"
    using open' by (auto simp: open_value_unsafe_def split: if_splits option.splits)
  then obtain index where index: "?find = Some index" by blast
  then have less: "index < unat (cfg_max_value_readers cfg)" by (auto simp: find_Some_iff)
  define s where "s = snd (take_handle_generation (snd w))"
  have s: "take_handle_generation (snd w) = (?counter, s)" "db_value_readers s = db_value_readers (snd w)"
    "db_manifest s = db_manifest (snd w)" "operation_allowed s = operation_allowed (snd w)"
    by (simp_all add: s_def take_handle_generation_def Let_def operation_allowed_def diagnostics_allowed_def)
  define reader where "reader = (fresh_reader (reader_at index (fst w, s)))\<lparr>rd_generation := ?counter, rd_value_size := of_nat (length data),
      rd_used := True, rd_external := True, rd_checksum_enabled := True, rd_checksum_state := - 1, rd_external_value := r\<rparr>"
  have w': "raw = make_handle_value (of_nat index) ?counter" "w' = set_reader index reader (fst w, s)"
    using open' view index some(2)
    by (auto simp: open_value_unsafe_def s(1) reader_def Let_def split: if_splits)
  have at: "reader_at index w' = reader" "length (db_value_readers (snd w')) = unat (cfg_max_value_readers cfg)"
    using less readers(1) by (simp_all add: w'(2) set_reader_simps s(2))
  have slot: "unat (of_nat index :: u16) = index" using less readers(2) by (intro unat_of_nat_eq) simp
  have "valid_handle_parts (of_nat index) ?counter"
    using less readers(2) counter some(2) slot
    by (simp add: valid_handle_parts_def word_less_nat_alt handle_consts)
  then have token: "decode_handle_value raw = Some (of_nat index, ?counter)" unfolding w'(1) by (rule decode_make_handle)
  have "take_bit 32 index = index" using less readers(2) by (simp add: take_bit_nat_eq_self)
  then have "\<not> ucast (of_nat index :: u16) \<ge> cfg_max_value_readers cfg"
    using less slot by (simp add: word_le_nat_alt unsigned_ucast_eq)
  then have "get_value_reader cfg (snd w') raw = Inr index"
    using at slot by (simp add: get_value_reader_def token reader_at_def [symmetric]) (simp add: reader_def)
  moreover have "reading data r 0 0 0 (reader_at index w')"
    unfolding at(1) by (simp add: reading_def reader_def fresh_reader_def empty_reader_def get_def)
  moreover have "operation_allowed (snd w') = operation_allowed (snd w)"
    using s(4) by (simp add: w'(2) set_reader_def update_db_def operation_allowed_def diagnostics_allowed_def)
  moreover have "db_manifest (snd w') = db_manifest (snd w)" "fst w' = fst w"
    by (simp_all add: w'(2) set_reader_simps s(3))
  moreover have "index < length (db_value_readers (snd w'))" using less at(2) by simp
  ultimately show thesis by (intro that)
qed

text \<open>What the readers and the store depend on is left alone when the writer is finished.\<close>

definition reading_state :: "db \<Rightarrow> storage_geometry \<times> u64 \<times> value_reader_slot list \<times> u64 \<times> bool" where
  "reading_state s = (mr_geometry (db_manifest s), mr_database_id (db_manifest s), db_value_readers s,
     db_handle_generation_counter s, operation_allowed s)"

interpretation reading_staging: staging_view reading_state
  by unfold_locales (simp_all add: reading_state_def operation_allowed_def diagnostics_allowed_def)

lemma finish_keeps_reading:
  assumes "finish_value_write_unsafe cfg w = (ret, w')"
  shows "fst w' = fst w" "reading_state (snd w') = reading_state (snd w)"
proof -
  have set: "reading_state (snd (set_writer x (d, s))) = reading_state s" "fst (set_writer x (d, s)) = d"
    "reading_state (s\<lparr>db_manifest := (db_manifest s)\<lparr>mr_value_bank_tail := ts\<rparr>, db_value_bank_dirty_mask := bits\<rparr>) = reading_state s"
    for x d s ts bits
    by (simp_all add: reading_state_def operation_allowed_def diagnostics_allowed_def set_writer_def update_db_def)
  have staged: "stage_value cfg raw key val kind (snd w) = (e, s) \<Longrightarrow> reading_state s = reading_state (snd w)"
    "stage_external_value cfg raw key r (snd w) = (e, s) \<Longrightarrow> reading_state s = reading_state (snd w)" for raw key val kind r e s
    using reading_staging.view_stage_value [of cfg raw key val kind "snd w"]
      reading_staging.view_stage_external_value [of cfg raw key r "snd w"] by simp_all
  show "fst w' = fst w" "reading_state (snd w') = reading_state (snd w)"
    using assms by (auto simp: finish_value_write_unsafe_def Let_def set staged split: if_splits prod.splits)
qed

text \<open>
  C7: A value streamed into a bank in any pieces is read back unchanged. A fresh writer on a bank with room takes
  all pieces and has put out its last chunk. Once the writer is finished, any reader opened on its reference
  returns the first bytes of the concatenated pieces, as many as asked for, and accepts the checksum.
\<close>

theorem streamed_value_read_back:
  assumes fresh: "db_value_writer (snd w) = fresh_writer transaction_raw key (of_nat (length data)) generation False s"
    and room: "bank_open cfg dev img (ww_reference (db_value_writer (snd w))) data w"
    and pieces: "concat pieces = data"
    and written: "write_pieces cfg dev pieces w = (ret, w')"
    and finished: "finish_value_write_unsafe cfg w' = (ESP_OK, u)"
    and opened: "open_value_unsafe cfg view u = (Inr raw, u')" "vv_is_external view"
      "vv_value_size view = of_nat (length data)" "vv_external_value view = finished_reference (db_value_writer (snd w'))"
    and allowed: "operation_allowed (snd w)"
    and readers: "length (db_value_readers (snd w)) = unat (cfg_max_value_readers cfg)" "unat (cfg_max_value_readers cfg) \<le> 256"
    and counter: "db_handle_generation_counter (snd w) \<le> max_handle_generation"
  shows "ret = ESP_OK \<and> ww_written_size (db_value_writer (snd w')) = ww_expected_size (db_value_writer (snd w')) \<and>
    ww_chunk_payload_size (db_value_writer (snd w')) = 0 \<and>
    fst (read_value_into cfg dev raw n u') = (ESP_OK, take (unat n) data)"
proof -
  let ?r = "finished_reference (db_value_writer (snd w'))"
  have "stream_at cfg dev img (ww_reference (db_value_writer (snd w))) data 0 w"
    by (rule fresh_writer_stream [OF room refl fresh])
  from write_pieces_stream [OF this, of pieces] have ok: "ret = ESP_OK"
    "stream_at cfg dev img (ww_reference (db_value_writer (snd w))) data (length data) w'"
    and db: "snd w' = (snd w)\<lparr>db_value_writer := db_value_writer (snd w')\<rparr>"
    unfolding written by (auto simp: pieces)
  note complete = stream_complete [OF ok(2)]
  have "reading_state (snd w') = reading_state (snd w)"
    by (subst db) (simp add: reading_state_def operation_allowed_def diagnostics_allowed_def)
  then have u: "fst u = fst w'" "reading_state (snd u) = reading_state (snd w')" "reading_state (snd u) = reading_state (snd w)"
    using finish_keeps_reading [OF finished] by simp_all
  obtain index where index: "get_value_reader cfg (snd u') raw = Inr index" "index < length (db_value_readers (snd u'))"
    "reading data ?r 0 0 0 (reader_at index u')" "db_manifest (snd u') = db_manifest (snd u)" "fst u' = fst u"
    "operation_allowed (snd u')"
  proof (rule open_external [OF opened _ readers(2)])
    show "length (db_value_readers (snd u)) = unat (cfg_max_value_readers cfg)"
      "db_handle_generation_counter (snd u) \<le> max_handle_generation"
      using u(3) readers(1) counter by (simp_all add: reading_state_def)
  qed (use that u(3) allowed in \<open>simp add: reading_state_def\<close>)
  have stored: "value_stored cfg dev img ?r data u'"
    using complete(1) value_stored_cong [of "snd u'" "snd w'" cfg dev img ?r data "fst w'"] u(1,2) index(4,5)
    by (simp add: reading_state_def) (metis prod.collapse)
  obtain reader off n' where loop: "read_loop cfg dev (unat n) index (unat n) [] u' =
      ((ESP_OK, get data 0 (min (unat n) (length data))), set_reader index reader u')"
    "reading data ?r (min (unat n) (length data)) off n' reader"
    using read_loop_reading [OF stored index(3,2), of "[]" "unat n" "unat n"] by auto
  have len: "length data < 2 ^ 32" by (rule bank_open_D(2) [OF room])
  have "\<not> reader_checksum_wrong reader"
  proof
    assume wrong: "reader_checksum_wrong reader"
    then have "of_nat (min (unat n) (length data)) = (of_nat (length data) :: u32)"
      using loop(2) unfolding reader_checksum_wrong_def reading_def by metis
    then have "min (unat n) (length data) = length data"
      using small_word(3) [of "min (unat n) (length data)" "length data"] len by simp
    then show False using wrong loop(2) complete(2) by (auto simp: reader_checksum_wrong_def reading_def)
  qed
  then have "fst (read_value_into cfg dev raw n u') = (ESP_OK, take (unat n) data)"
    using loop(1) index by (simp add: read_value_into_def set_reader_simps) (simp add: get_def min_def)
  then show ?thesis using ok(1) complete(3,4) by simp
qed

section \<open>An example\<close>

text \<open>A value of two chunks in three pieces, in the current transaction of the sample state.\<close>

definition stream_pieces :: "bytes list" where
  "stream_pieces = [replicate 4000 7, [], replicate 500 9]"

definition stream_begun :: "bytes world" where
  "stream_begun = (host_image, sample_db\<lparr>db_value_writer := fresh_writer 513 [99] 4500 1 False sample_db\<rparr>)"

definition stream_written :: "bytes world" where
  "stream_written = snd (write_pieces host_config sample_device stream_pieces stream_begun)"

definition stream_finished :: "bytes world" where
  "stream_finished = snd (finish_value_write_unsafe host_config stream_written)"

definition stream_view :: value_view where
  "stream_view = \<lparr>vv_value = None, vv_transaction_sequence = 21, vv_value_size = 4500,
     vv_external_value = finished_reference (db_value_writer (snd stream_written)), vv_tombstone = False, vv_is_external = True\<rparr>"

definition stream_opened :: "(esp_err + u64) \<times> bytes world" where
  "stream_opened = open_value_unsafe host_config stream_view stream_finished"

definition stream_reference :: value_ref where
  "stream_reference = empty_value_ref\<lparr>vr_bank_slot := 0, vr_bank_generation := 1, vr_first_chunk_offset := 8192, vr_value_size := 4500\<rparr>"

lemma stream_writer: "ww_reference (db_value_writer (snd stream_begun)) = stream_reference"
  by (simp add: stream_begun_def fresh_writer_def Let_def sample_fields stream_reference_def) (simp add: sample_manifest_def)

lemma stream_reference_fields:
  "vr_bank_slot stream_reference = 0" "vr_bank_generation stream_reference = 1" "vr_first_chunk_offset stream_reference = 8192"
  "vr_value_size stream_reference = 4500"
  by (simp_all add: stream_reference_def)

lemma stream_reference_valid: "value_ref_is_valid (stream_reference\<lparr>vr_value_checksum := c\<rparr>) 270336"
  by (simp add: value_ref_is_valid_def stream_reference_fields format_consts chunk_count_of_def checked_mul_def checked_add_def)

lemma stream_reference_matches:
  "tail = 16384 \<or> tail = 270336 \<Longrightarrow>
   value_ref_matches_bank host_config (get_build_geometry host_config) (stream_reference\<lparr>vr_value_checksum := c\<rparr>) 0 1 tail"
  using stream_reference_valid [of c]
  by (auto simp: value_ref_matches_bank_def stream_reference_fields format_consts chunk_count_of_def checked_mul_def checked_add_def
      get_build_geometry_def host_config_def)

lemma stream_open: "bank_open host_config sample_device id stream_reference (concat stream_pieces) stream_begun"
proof -
  have "value_ref_is_valid stream_reference 270336" using stream_reference_valid [of "vr_value_checksum stream_reference"] by simp
  moreover have "working_store host_config sample_device id stream_begun"
    using sample_store store_cong(1) [of "snd stream_begun" sample_db host_config sample_device id host_image]
    by (simp add: stream_begun_def sample_world_def)
  ultimately show ?thesis
    by (simp add: bank_open_def stream_reference_fields stream_pieces_def stream_begun_def db_geometry_def store_exists_def region_exists_def
        sample_fields) (simp add: get_build_geometry_def host_config_def format_consts)
qed

lemma stream_written:
  "stream_at host_config sample_device id stream_reference (concat stream_pieces) (length (concat stream_pieces)) stream_written"
  "snd stream_written = sample_db\<lparr>db_value_writer := db_value_writer (snd stream_written)\<rparr>"
proof -
  have "db_value_writer (snd stream_begun) = fresh_writer 513 [99] (of_nat (length (concat stream_pieces))) 1 False sample_db"
    by (simp add: stream_begun_def stream_pieces_def)
  from fresh_writer_stream [OF stream_open [folded stream_writer] refl this]
  have "stream_at host_config sample_device id stream_reference (concat stream_pieces) 0 stream_begun"
    by (simp add: stream_writer)
  from write_pieces_stream [OF this, of stream_pieces]
  show "stream_at host_config sample_device id stream_reference (concat stream_pieces) (length (concat stream_pieces)) stream_written"
    "snd stream_written = sample_db\<lparr>db_value_writer := db_value_writer (snd stream_written)\<rparr>"
    by (auto simp: stream_written_def stream_begun_def)
qed

lemma stream_new_key: "find_staged_mutation (db_transaction sample_db) [99] = None"
  by (simp add: find_staged_mutation_def sample_transaction_open valid_name_length)
     (simp add: sample_staged_def memcmp_def)

lemma stream_staged:
  "\<exists>s'. stage_external_value host_config 513 [99] (stream_reference\<lparr>vr_value_checksum := c\<rparr>) (sample_db\<lparr>db_value_writer := x\<rparr>) = (ESP_OK, s')"
proof -
  let ?s = "sample_db\<lparr>db_value_writer := x\<rparr>"
  have t: "get_transaction host_config ?s 513 = Inr (db_transaction sample_db)"
    using sample_get_transaction by (subst get_transaction_cong [of _ sample_db]) simp_all
  obtain s' where s': "stage_value host_config 513 [99] [] mutation_kind_set ?s = (ESP_OK, s')"
    "s' = enter_staged_value [99] [] mutation_kind_set 3 1 (snd (add_mutation ?s))"
  proof
    have limits: "\<not> (3 :: u32) > cfg_transaction_staging_size host_config" "\<not> 0 > unat (cfg_inline_value_size host_config)"
      "\<not> ucast (1 :: u16) \<ge> cfg_max_transaction_mutations host_config"
      by (simp_all add: host_config_def word_le_nat_alt)
    show "stage_value host_config 513 [99] [] mutation_kind_set ?s =
        (ESP_OK, enter_staged_value [99] [] mutation_kind_set 3 1 (snd (add_mutation ?s)))"
      using limits by (simp add: stage_value_def t stream_new_key Let_def sample_transaction_open valid_name_length add_mutation_def)
  qed simp
  have t': "get_transaction host_config s' 513 = Inr (db_transaction s')"
    using t by (auto simp: get_transaction_def s'(2) enter_staged_value_def add_mutation_def Let_def sample_token split: if_splits)
  have "mu_key (tx_mutations (db_transaction s') ! 1) = [99]" "tx_mutation_count (db_transaction s') = 2"
    using sample_transaction_open(5)
    by (simp_all add: s'(2) enter_staged_value_def add_mutation_def Let_def sample_transaction_open(1) max_transaction_mutations_def)
  then have "find_staged_mutation (db_transaction s') [99] \<noteq> None"
    by (auto simp: find_staged_mutation_find find_None_iff valid_name_length intro!: exI [of _ 1])
  moreover have bank: "mr_active_value_bank sample_manifest = 0" "mr_value_bank_generation sample_manifest = [1, 1]"
    "sg_value_bank_size (get_build_geometry host_config) = 270336"
    by (simp_all add: sample_manifest_def get_build_geometry_def host_config_def)
  ultimately show ?thesis
    using stream_reference_matches [of 270336 c]
    by (auto simp: stage_external_value_def Let_def on_ok_def s'(1) t' sample_fields bank)
qed

interpretation stream_manifest: staging_view db_manifest
  by unfold_locales simp_all

lemma stream_opened: "\<exists>raw u. finish_value_write_unsafe host_config stream_written = (ESP_OK, stream_finished) \<and> stream_opened = (Inr raw, u)"
proof -
  let ?writer = "db_value_writer (snd stream_written)" and ?n = "length (concat stream_pieces)"
  have W: "writer_at (concat stream_pieces) ?n stream_reference ?writer"
    using stream_written(1) by (simp add: stream_at_def)
  have len: "?n = 4500" by (simp add: stream_pieces_def)
  have fields: "ww_active ?writer" "\<not> ww_inline_value ?writer" "ww_reference ?writer = stream_reference"
    "ww_written_size ?writer = ww_expected_size ?writer" "ww_chunk_payload_size ?writer = 0" "ww_next_chunk_offset ?writer = 16384"
    using W unfolding len by (simp_all add: writer_at_def pending_def filled_def len chunk_count_nat_def stream_reference_fields)
  have target: "ww_transaction_handle_raw ?writer = 513" "ww_key ?writer = [99]"
    using write_pieces_keeps_target [of host_config sample_device stream_pieces stream_begun]
    by (simp_all add: keeps_def writer_target_def stream_written_def [symmetric]) (simp_all add: stream_begun_def fresh_writer_def Let_def)
  let ?r = "stream_reference\<lparr>vr_value_checksum := NOT (ucast (ww_checksum_state ?writer))\<rparr>"
  obtain s where s: "stage_external_value host_config 513 [99] ?r (snd stream_written) = (ESP_OK, s)"
    using stream_staged stream_written(2) by metis
  have db: "reading_state (snd stream_written) = reading_state sample_db" "db_manifest (snd stream_written) = sample_manifest"
    by (subst stream_written(2); simp add: reading_state_def operation_allowed_def diagnostics_allowed_def sample_fields)+
  have kept: "reading_state s = reading_state sample_db" "db_manifest s = sample_manifest"
    using reading_staging.view_stage_external_value [of host_config 513 "[99]" ?r "snd stream_written"]
      stream_manifest.view_stage_external_value [of host_config 513 "[99]" ?r "snd stream_written"]
    by (simp_all add: s db)
  have finished: "finish_value_write_unsafe host_config stream_written = (ESP_OK, stream_finished)"
    "stream_finished = set_writer (clear_writer ?writer) (fst stream_written, s\<lparr>db_manifest := sample_manifest\<lparr>mr_value_bank_tail := [16384, 12288]\<rparr>,
       db_value_bank_dirty_mask := db_value_bank_dirty_mask s OR 1\<rparr>)"
    unfolding stream_finished_def
    by (simp_all add: finish_value_write_unsafe_def Let_def fields target s kept(2) stream_reference_fields)
       (simp add: sample_manifest_def)
  have "active_bank_ref host_config (snd stream_finished) ?r"
    using stream_reference_matches [of 16384] by (simp add: finished(2) set_writer_def active_bank_ref_def) (simp add: sample_manifest_def)
  moreover have "vv_external_value stream_view = ?r" "\<not> vv_tombstone stream_view" "vv_is_external stream_view"
    by (simp_all add: stream_view_def finished_reference_def fields(3))
  moreover have "db_handle_generation_counter (snd stream_finished) = 2" "\<not> rd_used (reader_at 0 stream_finished)"
    using finish_keeps_reading(2) [OF finished(1)] db(1)
    by (simp_all add: reading_state_def reader_at_def)
       (simp_all add: sample_db_def host_db_def initial_db_def host_config_def empty_reader_def)
  moreover have "[0..<unat (cfg_max_value_readers host_config)] = [0, 1]" by (simp add: host_config_def upt_rec)
  ultimately show ?thesis
    using finished(1) by (simp add: stream_opened_def open_value_unsafe_def Let_def split: prod.split)
qed

theorem streamed_value_read_back_witness:
  "fst (read_value_into host_config sample_device (projr (fst stream_opened)) 4100 (snd stream_opened)) =
     (ESP_OK, replicate 4000 7 @ replicate 100 9)"
proof -
  obtain raw u where opened: "stream_opened = (Inr raw, u)" "finish_value_write_unsafe host_config stream_written = (ESP_OK, stream_finished)"
    using stream_opened by blast
  obtain ret where written: "write_pieces host_config sample_device stream_pieces stream_begun = (ret, stream_written)"
    unfolding stream_written_def by (metis prod.collapse)
  have len: "length (concat stream_pieces) = 4500" by (simp add: stream_pieces_def)
  have "fst (read_value_into host_config sample_device raw 4100 u) = (ESP_OK, take (unat (4100 :: u32)) (concat stream_pieces))"
  proof (rule conjunct2 [OF conjunct2 [OF conjunct2 [OF streamed_value_read_back [OF _ stream_open [folded stream_writer] refl written opened(2) opened(1) [unfolded stream_opened_def]]]]])
    show "db_value_writer (snd stream_begun) = fresh_writer 513 [99] (of_nat (length (concat stream_pieces))) 1 False sample_db"
      unfolding len by (simp add: stream_begun_def)
    show "vv_is_external stream_view" "vv_value_size stream_view = of_nat (length (concat stream_pieces))"
      "vv_external_value stream_view = finished_reference (db_value_writer (snd stream_written))"
      unfolding len by (simp_all add: stream_view_def)
    show "operation_allowed (snd stream_begun)"
      using sample_allowed by (simp add: stream_begun_def operation_allowed_def diagnostics_allowed_def)
    show "length (db_value_readers (snd stream_begun)) = unat (cfg_max_value_readers host_config)"
      "unat (cfg_max_value_readers host_config) \<le> 256" "db_handle_generation_counter (snd stream_begun) \<le> max_handle_generation"
      by (simp_all add: stream_begun_def sample_db_def host_db_def initial_db_def host_config_def max_handle_generation_eq)
  qed
  then show ?thesis by (simp add: opened(1) stream_pieces_def)
qed

end
