(* ===== verification/Merge_Termination.thy ===== *)
theory Merge_Termination
  imports Untouched Sample_Table
begin

text \<open>
  The two merges return. Every turn of the merge at recovery and of the merge of a compaction consumes a memtable
  record or moves a cursor forward, and a cursor never has more entries in front of it than its table can hold: their
  number, with the number of records, is a measure that goes down with every turn.
\<close>

section \<open>Computations that return\<close>

definition returns :: "'a option \<Rightarrow> bool" where
  "returns r \<longleftrightarrow> r \<noteq> None"

lemma returns_Some: "returns (Some x)"
  by (simp add: returns_def)

lemma returns_if: "(c \<Longrightarrow> returns a) \<Longrightarrow> (\<not> c \<Longrightarrow> returns b) \<Longrightarrow> returns (if c then a else b)"
  by simp

lemma returns_option: "(r = None \<Longrightarrow> returns a) \<Longrightarrow> (\<And>x. r = Some x \<Longrightarrow> returns (b x)) \<Longrightarrow> returns (case r of None \<Rightarrow> a | Some x \<Rightarrow> b x)"
  by (cases r) simp_all

lemma returns_sum: "(\<And>x. r = Inl x \<Longrightarrow> returns (a x)) \<Longrightarrow> (\<And>x. r = Inr x \<Longrightarrow> returns (b x)) \<Longrightarrow> returns (case r of Inl x \<Rightarrow> a x | Inr x \<Rightarrow> b x)"
  by (cases r) simp_all

lemma returns_pair: "(\<And>x y. r = (x, y) \<Longrightarrow> returns (b x y)) \<Longrightarrow> returns (case r of (x, y) \<Rightarrow> b x y)"
  by (cases r) simp_all

lemmas returns_cases = returns_Some returns_if returns_option returns_sum returns_pair

section \<open>The entries in front of a cursor\<close>

definition cursor_blocks :: "db \<Rightarrow> compaction_cursor \<Rightarrow> nat" where
  "cursor_blocks s c = unat (tr_data_block_count (cursor_reference s c))"

definition cursor_inside :: "db \<Rightarrow> compaction_cursor \<Rightarrow> bool" where
  "cursor_inside s c \<longleftrightarrow> (cc_active c \<longrightarrow> unat (cc_block_index c) < cursor_blocks s c)"

definition entries_left :: "db \<Rightarrow> compaction_cursor \<Rightarrow> nat" where
  "entries_left s c =
     (if cc_active c then cursor_blocks s c * 2 ^ 16 - (unat (cc_block_index c) * 2 ^ 16 + unat (cc_entry_index c)) else 0)"

lemma load_cursor_entry_Inr:
  assumes "load_cursor_entry cfg dev c w = Inr c'"
  shows "cc_active c' \<and> cc_source_slot c' = cc_source_slot c \<and> cc_block_index c' = cc_block_index c \<and> cc_entry_index c' = cc_entry_index c"
  using assms
  by (auto simp: load_cursor_entry_def Let_def then_read_def require_that_def split: sum.splits option.splits prod.splits if_splits)

lemma load_compaction_cursor_Inr:
  assumes "load_compaction_cursor cfg dev validate c w = Inr c'"
  shows "cc_source_slot c' = cc_source_slot c"
    "cc_active c' \<Longrightarrow> cc_block_index c' = cc_block_index c \<and>
      cc_entry_index c' = (if cc_block_entry_count c = 0 then 0 else cc_entry_index c) \<and>
      (cc_block_entry_count c = 0 \<longrightarrow> unat (cc_block_index c) < cursor_blocks (snd w) c)"
  using assms
  by (auto simp: load_compaction_cursor_def cursor_blocks_def word_less_nat_alt not_le then_read_def
      dest!: load_cursor_entry_Inr split: if_splits sum.splits prod.splits)

lemma unat_bound16: "unat (x :: u16) < 2 ^ 16"
  using unat_less_pow [of x] by simp

lemma advance_cursor:
  assumes inside: "cursor_inside (snd w) c" and step: "advance_compaction_cursor cfg dev validate c w = Inr c'"
  shows "cc_source_slot c' = cc_source_slot c" "cursor_inside (snd w) c'" "entries_left (snd w) c' < entries_left (snd w) c"
proof -
  let ?n = "cursor_blocks (snd w) c" and ?i = "unat (cc_block_index c)" and ?e = "unat (cc_entry_index c)"
  have e: "cc_active c" "cc_entry_index c < cc_block_entry_count c"
    using step by (auto simp: advance_compaction_cursor_def not_le split: if_splits)
  have i: "?i < ?n" using inside e(1) by (simp add: cursor_inside_def)
  have e': "unat (cc_entry_index c + 1) = ?e + 1"
  proof -
    have "?e < unat (cc_block_entry_count c)" using e(2) by (simp add: word_less_nat_alt)
    then have "?e + 1 < 2 ^ 16" using unat_bound16 [of "cc_block_entry_count c"] by simp
    then show ?thesis by (simp add: unat_word_ariths)
  qed
  have i': "unat (cc_block_index c + 1) = ?i + 1"
  proof -
    have "?n < 2 ^ 32" unfolding cursor_blocks_def by (rule unat_bound32)
    then have "?i + 1 < 2 ^ 32" using i by linarith
    then show ?thesis by (simp add: unat_word_ariths)
  qed
  have small: "?e < 2 ^ 16" using unat_bound16 [of "cc_entry_index c"] by simp
  have same: "cursor_blocks (snd w) d = ?n" if "cc_source_slot d = cc_source_slot c" for d
    using that by (simp add: cursor_blocks_def cursor_reference_def)
  have left: "entries_left (snd w) c = ?n * 2 ^ 16 - (?i * 2 ^ 16 + ?e)" using e(1) by (simp add: entries_left_def)
  have room: "?i * 2 ^ 16 + 2 ^ 16 \<le> ?n * 2 ^ 16" using i by simp
  let ?c = "c\<lparr>cc_entry_offset := cc_entry_offset c + cc_total_size c, cc_entry_index := cc_entry_index c + 1\<rparr>"
  show "cc_source_slot c' = cc_source_slot c" "cursor_inside (snd w) c'" "entries_left (snd w) c' < entries_left (snd w) c"
  proof (atomize (full), cases "cc_entry_index c + 1 = cc_block_entry_count c")
    case True
    let ?d = "?c\<lparr>cc_block_index := cc_block_index c + 1, cc_block_entry_count := 0\<rparr>"
    have load: "load_compaction_cursor cfg dev validate ?d w = Inr c'"
      using step e True by (auto simp: advance_compaction_cursor_def Let_def not_le split: if_splits)
    note L = load_compaction_cursor_Inr [OF load]
    have slot: "cc_source_slot c' = cc_source_slot c" using L(1) by simp
    have "cc_active c' \<Longrightarrow> unat (cc_block_index c') = ?i + 1 \<and> unat (cc_entry_index c') = 0 \<and> ?i + 1 < ?n"
      using L(2) i' same [of ?d] by simp
    then show "cc_source_slot c' = cc_source_slot c \<and> cursor_inside (snd w) c' \<and> entries_left (snd w) c' < entries_left (snd w) c"
      using slot same [OF slot] left small room by (auto simp: cursor_inside_def entries_left_def)
  next
    case False
    have load: "load_compaction_cursor cfg dev validate ?c w = Inr c'"
      using step e False by (auto simp: advance_compaction_cursor_def Let_def not_le split: if_splits)
    note L = load_compaction_cursor_Inr [OF load]
    have slot: "cc_source_slot c' = cc_source_slot c" using L(1) by simp
    have "cc_block_entry_count c \<noteq> 0" using e(2) by auto
    then have "cc_active c' \<Longrightarrow> unat (cc_block_index c') = ?i \<and> unat (cc_entry_index c') = ?e + 1"
      using L(2) e' by simp
    then show "cc_source_slot c' = cc_source_slot c \<and> cursor_inside (snd w) c' \<and> entries_left (snd w) c' < entries_left (snd w) c"
      using slot same [OF slot] left small room i by (auto simp: cursor_inside_def entries_left_def)
  qed
qed

section \<open>All cursors of a merge\<close>

definition all_left :: "db \<Rightarrow> compaction_cursor list \<Rightarrow> nat" where
  "all_left s cs = sum_list (map (entries_left s) cs)"

lemma advance_all:
  assumes "advance_matching cfg dev validate key cs w = Inr cs'" "list_all (cursor_inside (snd w)) cs"
  shows "map cc_source_slot cs' = map cc_source_slot cs \<and> list_all (cursor_inside (snd w)) cs' \<and> all_left (snd w) cs' \<le> all_left (snd w) cs \<and>
    (list_ex (cursor_matches key) cs \<longrightarrow> all_left (snd w) cs' < all_left (snd w) cs)"
  using assms
proof (induction cs arbitrary: cs')
  case (Cons c cs)
  obtain d ds where d: "cs' = d # ds" "advance_matching cfg dev validate key cs w = Inr ds"
    "(if cursor_matches key c then advance_compaction_cursor cfg dev validate c w else Inr c) = Inr d"
    using Cons.prems(1) by (auto simp: then_read_def split: sum.splits)
  have "cc_source_slot d = cc_source_slot c \<and> cursor_inside (snd w) d \<and> entries_left (snd w) d \<le> entries_left (snd w) c \<and>
      (cursor_matches key c \<longrightarrow> entries_left (snd w) d < entries_left (snd w) c)"
    using d(3) Cons.prems(2) advance_cursor [where w = w and c = c and c' = d and validate = validate and cfg = cfg and dev = dev] by (auto split: if_splits)
  then show ?case using Cons.IH [OF d(2)] Cons.prems(2) by (auto simp: d(1) all_left_def)
qed (simp add: all_left_def)

lemma drop_finished_left:
  "all_left s (drop_finished cs) = all_left s cs" "set (drop_finished cs) \<subseteq> set cs"
proof -
  have "sum_list (map (entries_left s) (dropWhile (\<lambda>c. \<not> cc_active c) ds)) = sum_list (map (entries_left s) ds)" for ds
    by (induction ds) (auto simp: entries_left_def)
  then show "all_left s (drop_finished cs) = all_left s cs"
    by (simp add: all_left_def drop_finished_def rev_map [symmetric])
  show "set (drop_finished cs) \<subseteq> set cs" using set_dropWhileD by (fastforce simp: drop_finished_def)
qed

lemma smallest_key_source:
  "smallest_cursor_key cs k = Some key \<Longrightarrow> k = Some key \<or> list_ex (cursor_matches key) cs"
  by (induction cs arbitrary: k) (auto simp: cursor_matches_def split: if_splits option.splits)

text \<open>The entries left depend on the tables of the manifest only.\<close>

lemma left_cong:
  assumes "map (cursor_reference s') cs = map (cursor_reference s) cs"
  shows "list_all (cursor_inside s') cs = list_all (cursor_inside s) cs" "all_left s' cs = all_left s cs"
  using assms
  by (auto simp: list_all_iff cursor_inside_def all_left_def entries_left_def cursor_blocks_def intro!: arg_cong [of _ _ sum_list])

section \<open>The merge at recovery\<close>

lemma ensure_namespace_manifest: "db_manifest (snd (ensure_namespace_capacity cfg s name publish)) = db_manifest s"
  by (simp add: ensure_namespace_capacity_def split: sum.split option.split)

lemma merge_recovery_returns:
  "list_all (cursor_inside (snd w)) cs \<Longrightarrow> returns (merge_recovery cfg dev cs w)"
proof (induction "all_left (snd w) cs" arbitrary: cs w rule: less_induct)
  case less
  have next_turn: "returns (merge_recovery cfg dev (drop_finished cs') w')"
    if "smallest_cursor_key cs None = Some key" "advance_matching cfg dev True key cs w' = Inr cs'"
      "db_manifest (snd w') = db_manifest (snd w)" for key w' cs'
  proof (rule less.hyps)
    have cong: "cursor_inside (snd w') = cursor_inside (snd w)" "all_left (snd w') = all_left (snd w)"
      using that(3) by (auto simp: fun_eq_iff cursor_inside_def all_left_def entries_left_def cursor_blocks_def cursor_reference_def
          intro!: arg_cong [of _ _ sum_list])
    have "list_all (cursor_inside (snd w')) cs' \<and> all_left (snd w') cs' < all_left (snd w') cs"
      using advance_all [OF that(2)] smallest_key_source [OF that(1)] less.prems by (auto simp: cong)
    then show "list_all (cursor_inside (snd w')) (drop_finished cs')" "all_left (snd w') (drop_finished cs') < all_left (snd w) cs"
      using drop_finished_left(1) [of "snd w'" cs'] drop_finished_left(2) [of cs'] by (auto simp: list_all_iff cong)
  qed
  have named: "db_manifest s = db_manifest (snd w)" if "ensure_namespace_capacity cfg (snd w) name True = (x, s)" for name x s
    using ensure_namespace_manifest [of cfg "snd w" name True] that by simp
  show ?case
    by (subst merge_recovery.simps)
       (unfold Let_def, intro returns_cases; erule (1) next_turn; simp add: named)
qed

section \<open>The merge of a compaction\<close>

text \<open>What the merge reads of the state: the tables of the input bank and the memtable records.\<close>

definition input_slots :: "compaction_plan \<Rightarrow> nat list" where
  "input_slots plan = [cp_input_start plan..<cp_input_start plan + cp_bank_size plan]"

definition merge_state :: "db \<Rightarrow> manifest_record \<times> namespace_slot list \<times> (nat \<Rightarrow> memtable_record option)" where
  "merge_state s = (db_manifest s, db_namespaces s, db_memtable_data s)"

interpretation merging: writer_view merge_state
  by unfold_locales (simp_all add: merge_state_def)

definition merge_inputs :: "compaction_plan \<Rightarrow> db \<Rightarrow> table_reference list \<times> namespace_slot list \<times> (nat \<Rightarrow> memtable_record option)" where
  "merge_inputs plan s = (map (\<lambda>slot. mr_tables (db_manifest s) ! slot) (input_slots plan), db_namespaces s, db_memtable_data s)"

lemma merge_inputs_cong: "merge_state s' = merge_state s \<Longrightarrow> merge_inputs plan s' = merge_inputs plan s"
  by (simp add: merge_inputs_def merge_state_def)

text \<open>The outputs go to slots outside the input bank, as long as there is one left.\<close>

definition outputs_apart :: "compaction_plan \<Rightarrow> bool" where
  "outputs_apart plan \<longleftrightarrow> (\<forall>i < cp_bank_size plan. cp_output_start plan + i \<notin> set (input_slots plan))"

definition output_slot_left :: "compaction_plan \<Rightarrow> compaction_state \<Rightarrow> bool" where
  "output_slot_left plan state \<longleftrightarrow> (co_output state \<noteq> None \<longrightarrow> co_output_count state < cp_bank_size plan)"

lemma start_plan_merges: "start_plan_output plan state w = (r, w') \<Longrightarrow> merge_inputs plan' (snd w') = merge_inputs plan' (snd w)"
  by (auto simp: start_plan_output_def start_compaction_output_def merging.view_table_caches split: if_splits intro!: merge_inputs_cong)

lemma append_plan_merges:
  assumes "append_to_plan cfg dev plan source out state w = ((ret, state'), w')"
  shows "merge_inputs plan' (snd w') = merge_inputs plan' (snd w)" "co_output_count state' = co_output_count state"
proof -
  obtain r where r: "append_compaction_entry cfg dev source (cp_destination_bank plan) (cp_destination_generation plan)
      (out, co_destination_tail state) w = (r, w')"
    using assms by (auto simp: append_to_plan_def split: prod.splits)
  show "merge_inputs plan' (snd w') = merge_inputs plan' (snd w)"
    using merging.keeps_append_compaction_entry keepsD r by (metis merge_inputs_cong)
  show "co_output_count state' = co_output_count state"
    using assms by (auto simp: append_to_plan_def split: prod.splits)
qed

lemma finish_plan_merges:
  assumes apart: "outputs_apart plan" and left: "co_output_count state < cp_bank_size plan"
    and finish: "finish_plan_output cfg dev plan out state w = (r, w')"
  shows "merge_inputs plan (snd w') = merge_inputs plan (snd w)" "r = Inr state' \<Longrightarrow> co_output state' = None"
proof -
  obtain r1 w1 where r1: "finish_compaction_output cfg dev out
      (cp_destination_bank plan, cp_destination_generation plan, co_destination_tail state) w = (r1, w1)"
    by (rule prod.exhaust)
  have kept: "merge_inputs plan (snd w1) = merge_inputs plan (snd w)"
    using merging.keeps_finish_compaction_output keepsD r1 by (metis merge_inputs_cong)
  have "cp_output_start plan + co_output_count state \<notin> set (input_slots plan)"
    using apart left by (simp add: outputs_apart_def)
  then have table: "merge_inputs plan (snd (set_table (cp_output_start plan + co_output_count state) x w1)) = merge_inputs plan (snd w1)" for x
    by (auto simp: merge_inputs_def set_table_def intro!: nth_list_update_neq)
  show "merge_inputs plan (snd w') = merge_inputs plan (snd w)"
    using finish kept table by (auto simp: finish_plan_output_def r1 split: sum.splits)
  show "r = Inr state' \<Longrightarrow> co_output state' = None"
    using finish by (auto simp: finish_plan_output_def r1 split: sum.splits)
qed

lemma emit_merges:
  assumes apart: "outputs_apart plan" and left: "output_slot_left plan state"
    and emit: "emit_winner cfg dev plan source state w = (r, w')"
  shows "merge_inputs plan (snd w') = merge_inputs plan (snd w) \<and> (\<forall>state'. r = Inr state' \<longrightarrow> output_slot_left plan state')"
proof -
  let ?logical = "source_logical_size (snd w) source"
  let ?state = "state\<lparr>co_logical_state_bytes := co_logical_state_bytes state + ?logical\<rparr>"
  define current where "current = (case co_output ?state of
      Some out \<Rightarrow> (Inr out, w)
    | None \<Rightarrow> if co_output_count ?state \<ge> cp_bank_size plan then (Inl ESP_ERR_NO_MEM, w) else start_plan_output plan ?state w)"
  obtain c w1 where c: "current = (c, w1)" by (rule prod.exhaust)
  have c1: "merge_inputs plan (snd w1) = merge_inputs plan (snd w)" "c = Inr out \<Longrightarrow> co_output_count state < cp_bank_size plan" for out
    using c left start_plan_merges [of plan ?state w c w1 plan]
    by (auto simp: current_def output_slot_left_def split: option.splits if_splits)
  note emit = emit [unfolded emit_winner_def Let_def, folded current_def, unfolded c prod.case]
  show ?thesis
  proof (cases "?logical > sg_max_live_bytes (mr_geometry (db_manifest (snd w))) - co_logical_state_bytes state \<or> (\<exists>e. c = Inl e)")
    case True
    then show ?thesis using emit c1(1) by (auto split: if_splits)
  next
    case False
    then obtain out where out: "c = Inr out" by (cases c) auto
    obtain ret st w2 where a: "append_to_plan cfg dev plan source out ?state w1 = ((ret, st), w2)" by (metis prod.exhaust)
    note A = append_plan_merges(1) [OF a, of plan] append_plan_merges(2) [OF a]
    have n: "co_output_count st < cp_bank_size plan" using A(2) c1(2) [OF out] by simp
    obtain f w3 where f: "finish_plan_output cfg dev plan (the (co_output st)) st w2 = (f, w3)" by (rule prod.exhaust)
    note F = finish_plan_merges [OF apart n f]
    show ?thesis
    proof (cases "ret = ESP_OK \<or> ret \<noteq> ESP_ERR_NO_MEM \<or> (\<exists>e. f = Inl e)")
      case True
      then show ?thesis using emit False out a f A(1) F(1) c1(1) n by (auto simp: output_slot_left_def split: if_splits)
    next
      case more: False
      then obtain st' where st': "f = Inr st'" by (cases f) auto
      obtain g w4 where g: "start_plan_output plan st' w3 = (g, w4)" by (rule prod.exhaust)
      have started: "merge_inputs plan (snd w4) = merge_inputs plan (snd w)"
        using start_plan_merges [OF g, of plan] F(1) A(1) c1(1) by simp
      show ?thesis
      proof (cases g)
        case (Inl e)
        then show ?thesis using emit False out a f more st' g started F(1) A(1) c1(1) by (auto split: if_splits)
      next
        case (Inr out')
        obtain ret' st'' w5 where last: "append_to_plan cfg dev plan source out' st' w4 = ((ret', st''), w5)" by (metis prod.exhaust)
        note L = append_plan_merges(1) [OF last, of plan] append_plan_merges(2) [OF last]
        show ?thesis
          using emit False out a f more st' g started F(1) A(1) c1(1) Inr last L
          by (auto simp: output_slot_left_def split: if_splits)
      qed
    qed
  qed
qed

lemma emit_unless_tombstone_merges:
  assumes "outputs_apart plan" "output_slot_left plan state" "emit_unless_tombstone cfg dev plan winner state w = (r, w')"
  shows "merge_inputs plan (snd w') = merge_inputs plan (snd w) \<and> (\<forall>state'. r = Inr state' \<longrightarrow> output_slot_left plan state')"
proof -
  define state1 where "state1 = (if source_sequence winner > co_greatest_sequence state
    then state\<lparr>co_greatest_sequence := source_sequence winner\<rparr> else state)"
  have left: "output_slot_left plan state1" using assms(2) by (simp add: state1_def output_slot_left_def)
  show ?thesis
    using assms(3) left emit_merges [OF assms(1) left, of cfg dev winner w r w']
    unfolding emit_unless_tombstone_def Let_def state1_def [symmetric] by (auto split: if_splits)
qed

lemma merge_inputs_same:
  assumes "merge_inputs plan s' = merge_inputs plan s"
  shows "record_composite_key s' header = record_composite_key s header" "offset_record s' off = offset_record s off"
    "front_record cfg s' offsets = front_record cfg s offsets"
    "list_all (\<lambda>c. unat (cc_source_slot c) \<in> set (input_slots plan)) cs \<Longrightarrow> map (cursor_reference s') cs = map (cursor_reference s) cs"
  using assms
  by (auto simp: merge_inputs_def record_composite_key_def offset_record_def front_record_def record_namespace_invalid_def
      list_all_iff cursor_reference_def split: list.split)

lemma consume_record_front:
  assumes "front_record cfg s offsets = Inr (Some header)" "record_composite_key s header = key"
  shows "length (consume_record s key offsets) < length offsets"
  using assms by (auto simp: front_record_def consume_record_def split: list.splits if_splits)

lemma consume_record_length: "length (consume_record s key offsets) \<le> length offsets"
  by (simp add: consume_record_def split: list.split)

lemma merge_tables_return:
  assumes apart: "outputs_apart plan"
  shows "output_slot_left plan state \<Longrightarrow> list_all (\<lambda>c. unat (cc_source_slot c) \<in> set (input_slots plan)) cs \<Longrightarrow>
    list_all (cursor_inside (snd w)) cs \<Longrightarrow> returns (merge_tables cfg dev plan offsets cs state w)"
proof (induction "length offsets + all_left (snd w) cs" arbitrary: offsets cs state w rule: less_induct)
  case less
  have next_turn: "returns (merge_tables cfg dev plan (consume_record (snd w') key offsets) (drop_finished cs') state' w')"
    if front: "front_record cfg (snd w) offsets = Inr front"
      and smallest: "smallest_cursor_key cs (map_option (record_composite_key (snd w)) front) = Some key"
      and emit: "emit_unless_tombstone cfg dev plan winner state w = (Inr state', w')"
      and step: "advance_matching cfg dev False key cs w' = Inr cs'"
    for front key winner state' w' cs'
  proof (rule less.hyps)
    have E: "merge_inputs plan (snd w') = merge_inputs plan (snd w)" "output_slot_left plan state'"
      using emit_unless_tombstone_merges [OF apart less.prems(1) emit] by simp_all
    show "output_slot_left plan state'" by (rule E(2))
    note same = merge_inputs_same [OF E(1)]
    note left = left_cong [OF same(4) [OF less.prems(2)]]
    have A: "map cc_source_slot cs' = map cc_source_slot cs" "list_all (cursor_inside (snd w')) cs'"
      "all_left (snd w') cs' \<le> all_left (snd w) cs" "list_ex (cursor_matches key) cs \<Longrightarrow> all_left (snd w') cs' < all_left (snd w) cs"
      using advance_all [OF step] less.prems(3) by (auto simp: left)
    note D = drop_finished_left(1) [of "snd w'" cs'] drop_finished_left(2) [of cs']
    have "cc_source_slot c \<in> cc_source_slot ` set cs" if "c \<in> set (drop_finished cs')" for c
      using that D(2) A(1) by (metis image_eqI image_set subsetD)
    then show "list_all (\<lambda>c. unat (cc_source_slot c) \<in> set (input_slots plan)) (drop_finished cs')"
      using less.prems(2) by (fastforce simp: list_all_iff)
    show "list_all (cursor_inside (snd w')) (drop_finished cs')" using A(2) D(2) by (auto simp: list_all_iff)
    have "length (consume_record (snd w') key offsets) + all_left (snd w') cs' < length offsets + all_left (snd w) cs"
      using smallest_key_source [OF smallest]
    proof
      assume "map_option (record_composite_key (snd w)) front = Some key"
      then obtain header where "front = Some header" "record_composite_key (snd w') header = key" by (auto simp: same(1))
      then have "length (consume_record (snd w') key offsets) < length offsets"
        using front by (intro consume_record_front) (simp_all add: same(3))
      then show ?thesis using A(3) by linarith
    next
      assume "list_ex (cursor_matches key) cs"
      then show ?thesis using A(4) consume_record_length [of "snd w'" key offsets] by linarith
    qed
    then show "length (consume_record (snd w') key offsets) + all_left (snd w') (drop_finished cs') < length offsets + all_left (snd w) cs"
      by (simp add: D(1))
  qed
  show ?case
    by (subst merge_tables.simps)
       (unfold Let_def, intro returns_cases; simp; erule (3) next_turn)
qed

section \<open>The cursors at the start\<close>

lemma load_new_cursor:
  assumes load: "load_compaction_cursor cfg dev validate (new_cursor (of_nat slot)) w = Inr c" and slot: "slot < 2 ^ 32"
  shows "unat (cc_source_slot c) = slot" "cursor_inside (snd w) c"
proof -
  note L = load_compaction_cursor_Inr [OF load]
  have u: "unat (of_nat slot :: u32) = slot" using slot by (intro unat_of_nat_eq) simp
  show at: "unat (cc_source_slot c) = slot" using L(1) u by (simp add: new_cursor_def)
  have blocks: "cursor_blocks (snd w) (new_cursor (of_nat slot)) = cursor_blocks (snd w) c"
    using u by (simp_all add: cursor_blocks_def cursor_reference_def new_cursor_def at)
  show "cursor_inside (snd w) c"
    using L(2) blocks by (auto simp: cursor_inside_def) (auto simp: new_cursor_def)
qed

lemma open_recovery_inside:
  assumes "open_recovery_cursors cfg dev slots limit w = Inr cs" "\<forall>slot \<in> set slots. slot < 2 ^ 32"
  shows "list_all (cursor_inside (snd w)) cs"
  using assms
proof (induction slots arbitrary: limit cs)
  case (Cons slot slots)
  show ?case
  proof (cases "tr_active (mr_tables (db_manifest (snd w)) ! slot)")
    case False
    then show ?thesis using Cons.IH [of limit cs] Cons.prems by simp
  next
    case True
    then obtain c ds where c: "load_compaction_cursor cfg dev True (new_cursor (of_nat slot)) w = Inr c" "cs = c # ds"
      "open_recovery_cursors cfg dev slots (limit - 1) w = Inr ds"
      using Cons.prems(1) by (auto simp: then_read_def require_that_def split: if_splits sum.splits)
    then show ?thesis
      using Cons.IH [OF c(3)] Cons.prems(2) load_new_cursor [OF c(1)] by simp
  qed
qed simp

lemma open_compaction_inside:
  assumes "open_compaction_cursors cfg dev slots w = Inr cs" "\<forall>slot \<in> set slots. slot < 2 ^ 32"
  shows "list_all (cursor_inside (snd w)) cs \<and> map (\<lambda>c. unat (cc_source_slot c)) cs = slots"
  using assms
proof (induction slots arbitrary: cs)
  case (Cons slot slots)
  obtain c ds where c: "load_compaction_cursor cfg dev False (new_cursor (of_nat slot)) w = Inr c" "cs = c # ds"
    "open_compaction_cursors cfg dev slots w = Inr ds"
    using Cons.prems(1) by (auto simp: then_read_def split: sum.splits)
  then show ?case
    using Cons.IH [OF c(3)] Cons.prems(2) load_new_cursor [OF c(1)] by simp
qed simp

lemma plan_banks:
  assumes "mr_active_table_bank (db_manifest s) \<le> 1"
  shows "outputs_apart (make_plan s)"
    "cp_input_start (make_plan s) + cp_bank_size (make_plan s) \<le> unat (sg_table_count (mr_geometry (db_manifest s)))"
proof -
  let ?n = "unat (sg_table_count (mr_geometry (db_manifest s)) div 2)" and ?bank = "mr_active_table_bank (db_manifest s)"
  have n: "?n * 2 \<le> unat (sg_table_count (mr_geometry (db_manifest s)))" by (simp add: unat_div)
  have bank: "?bank = 0 \<or> ?bank = 1" using assms by (auto simp: word_le_nat_alt word_unat_eq_iff le_Suc_eq)
  have "cp_bank_size (make_plan s) = ?n \<and>
    (cp_input_start (make_plan s) = 0 \<and> cp_output_start (make_plan s) = ?n \<or>
     cp_input_start (make_plan s) = ?n \<and> cp_output_start (make_plan s) = 0)"
    using bank by (auto simp: make_plan_def Let_def)
  then show "outputs_apart (make_plan s)"
    "cp_input_start (make_plan s) + cp_bank_size (make_plan s) \<le> unat (sg_table_count (mr_geometry (db_manifest s)))"
    using n by (auto simp: outputs_apart_def input_slots_def)
qed

text \<open>
  C18: The merges return. Once its cursors are opened, the merge that recovers the tables returns, from every state, and
  so does the merge of a compaction, from every state whose active table bank is 0 or 1, for every list of memtable records, every
  tail of the destination bank and every device: neither loop runs for ever.
\<close>

theorem merges_return:
  "(open_recovery_cursors cfg dev [0..<unat (sg_table_count (mr_geometry (db_manifest (snd w))))] limit w = Inr recovery \<longrightarrow>
      (\<exists>ret w'. merge_recovery cfg dev recovery w = Some (ret, w'))) \<and>
    (mr_active_table_bank (db_manifest (snd w)) \<le> 1 \<longrightarrow> open_compaction_cursors cfg dev (active_slots (snd w) (cp_input_start (make_plan (snd w))) (cp_bank_size (make_plan (snd w)))) w = Inr inputs \<longrightarrow>
      (\<exists>r w'. merge_tables cfg dev (make_plan (snd w)) offsets inputs
        \<lparr>co_output = None, co_output_count = 0, co_destination_tail = tail, co_logical_state_bytes = 0, co_greatest_sequence = 0\<rparr> w = Some (r, w')))"
proof (intro conjI impI)
  let ?n = "unat (sg_table_count (mr_geometry (db_manifest (snd w))))" and ?plan = "make_plan (snd w)"
  have few: "?n < 2 ^ 32" by (rule unat_bound32)
  show "\<exists>ret w'. merge_recovery cfg dev recovery w = Some (ret, w')"
    if opened: "open_recovery_cursors cfg dev [0..<?n] limit w = Inr recovery"
  proof -
    have "list_all (cursor_inside (snd w)) recovery" using few by (intro open_recovery_inside [OF opened]) auto
    then show ?thesis using merge_recovery_returns by (fastforce simp: returns_def)
  qed
  let ?slots = "active_slots (snd w) (cp_input_start ?plan) (cp_bank_size ?plan)"
  show "\<exists>r w'. merge_tables cfg dev ?plan offsets inputs \<lparr>co_output = None, co_output_count = 0, co_destination_tail = tail,
      co_logical_state_bytes = 0, co_greatest_sequence = 0\<rparr> w = Some (r, w')"
    if bank: "mr_active_table_bank (db_manifest (snd w)) \<le> 1" and opened: "open_compaction_cursors cfg dev ?slots w = Inr inputs"
  proof -
    note plan = plan_banks [OF bank]
    have inside: "slot < 2 ^ 32 \<and> slot \<in> set (input_slots ?plan)" if "slot \<in> set ?slots" for slot
      using that plan(2) few by (auto simp: active_slots_def input_slots_def)
    have cs: "list_all (cursor_inside (snd w)) inputs" "map (\<lambda>c. unat (cc_source_slot c)) inputs = ?slots"
      using open_compaction_inside [OF opened] inside by blast+
    have "list_all (\<lambda>c. unat (cc_source_slot c) \<in> set (input_slots ?plan)) inputs"
      using inside cs(2) by (metis (no_types, lifting) list_all_iff list.set_map image_eqI)
    then show ?thesis
      using merge_tables_return [OF plan(1) _ _ cs(1)] by (fastforce simp: output_slot_left_def returns_def)
  qed
qed

section \<open>A merge of the sample table\<close>

definition merge_db :: db where
  "merge_db = host_db\<lparr>db_manifest := sample_manifest\<lparr>mr_tables :=
     (replicate 16 empty_table_reference)[2 := make_table_reference sample_footer]\<rparr>\<rparr>"

lemma merge_db_fields:
  "mr_geometry (db_manifest merge_db) = get_build_geometry host_config"
  "mr_limits (db_manifest merge_db) = get_build_limits host_config"
  "mr_active_table_bank (db_manifest merge_db) = 1" "mr_active_value_bank (db_manifest merge_db) = 0"
  "mr_tables (db_manifest merge_db) = (replicate 16 empty_table_reference)[2 := make_table_reference sample_footer]"
  "unat (sg_table_count (get_build_geometry host_config)) = 4" "sg_table_count (get_build_geometry host_config) = 4"
  by (simp_all add: merge_db_def sample_manifest_def get_build_geometry_def host_config_def)

text \<open>What the cursor reads of the entry and of the header of its block, taken from what the decoders found there.\<close>

lemma sample_entry_fields:
  "read_u32_le (get sample_data_block 64 24) 0 = Some 32" "read_u32_le (get sample_data_block 64 24) 4 = Some 3"
  "read_u64_le (get sample_data_block 64 24) 8 = Some 5"
  "get sample_data_block 64 24 ! 16 = 1" "get sample_data_block 64 24 ! 17 = 2"
  "get sample_data_block 64 24 ! 18 = 0" "get sample_data_block 64 24 ! 19 = 0"
proof -
  let ?b = sample_data_block
  have fields: "le_value (get ?b 64 4) = (32 :: u32)" "le_value (get ?b 68 4) = (3 :: u32)" "le_value (get ?b 72 8) = (5 :: u64)"
    "?b ! 82 = 0" "?b ! 83 = 0" "get ?b 88 (unat (?b ! 80)) = [97]"
    "get ?b (88 + unat (?b ! 80)) (unat (?b ! 81)) = [98, 99]"
    using sample_data_block(1,3)
    by (auto simp: decode_table_entry_def decoded_or_Inr format_consts buffer_simps Let_def sample_entry_def split: if_splits)
  have small: "unat (?b ! i) < 256" for i using unat_less_pow [of "?b ! i"] by simp
  have one: "unat (?b ! 80) = 1"
    using arg_cong [OF fields(6), of length] small [of 80] by (simp add: sample_data_block(1))
  have two: "unat (?b ! 81) = 2"
    using arg_cong [OF fields(7), of length] small [of 81] by (simp add: sample_data_block(1) one)
  have sizes: "?b ! 80 = 1" "?b ! 81 = 2" by (rule word_unat_eq_iff [THEN iffD2], simp add: one two)+
  show "read_u32_le (get ?b 64 24) 0 = Some 32" "read_u32_le (get ?b 64 24) 4 = Some 3" "read_u64_le (get ?b 64 24) 8 = Some 5"
    "get ?b 64 24 ! 16 = 1" "get ?b 64 24 ! 17 = 2" "get ?b 64 24 ! 18 = 0" "get ?b 64 24 ! 19 = 0"
    using fields sizes by (simp_all add: buffer_simps sample_data_block(1) get_get nth_get)
qed

lemma sample_header_fields:
  "read_u32_le (get sample_data_block 0 64) 0 = Some table_block_magic"
  "read_u16_le (get sample_data_block 0 64) 4 = Some table_block_revision"
  "read_u16_le (get sample_data_block 0 64) 6 = Some 64" "read_u64_le (get sample_data_block 0 64) 8 = Some 2"
  "read_u32_le (get sample_data_block 0 64) 16 = Some 0" "read_u16_le (get sample_data_block 0 64) 20 = Some 1"
  "read_u16_le (get sample_data_block 0 64) 22 = Some 0" "read_u32_le (get sample_data_block 0 64) 24 = Some 32"
proof -
  let ?b = sample_data_block
  have fields: "le_value (get ?b 0 4) = table_block_magic" "le_value (get ?b 4 2) = table_block_revision"
    "unat (le_value (get ?b 6 2) :: u16) = 64" "le_value (get ?b 8 8) = (2 :: u64)" "le_value (get ?b 16 4) = (0 :: u32)"
    "le_value (get ?b 20 2) = (1 :: u16)" "le_value (get ?b 22 2) = (0 :: u16)" "le_value (get ?b 24 4) = (32 :: u32)"
    using sample_data_block(1,2)
    by (auto simp: decode_table_block_header_def format_consts buffer_simps Let_def split: if_splits option.splits)
  then show "read_u32_le (get ?b 0 64) 0 = Some table_block_magic" "read_u16_le (get ?b 0 64) 4 = Some table_block_revision"
    "read_u16_le (get ?b 0 64) 6 = Some 64" "read_u64_le (get ?b 0 64) 8 = Some 2"
    "read_u32_le (get ?b 0 64) 16 = Some 0" "read_u16_le (get ?b 0 64) 20 = Some 1"
    "read_u16_le (get ?b 0 64) 22 = Some 0" "read_u32_le (get ?b 0 64) 24 = Some 32"
    by (simp_all add: buffer_simps sample_data_block(1) get_get word_unat_eq_iff)
qed

lemma merge_db_reads:
  "off + n \<le> 16384 \<Longrightarrow> offset = of_nat (16384 + off) \<Longrightarrow>
   read_table_bytes host_config sample_device 2 offset n (sample_table_image, merge_db) = Inr (get sample_data_block off n)"
proof -
  assume off: "off + n \<le> 16384" "offset = of_nat (16384 + off)"
  have "unat offset = 16384 + off" unfolding off(2) using off(1) by (intro unat_of_nat_eq) simp
  then show ?thesis
    using sample_table_bytes [of merge_db offset n] off(1) sample_table_file(5) get_get [of off n 16384 sample_table_file 16384]
    by (simp add: merge_db_fields)
qed

lemma merge_db_cursor:
  "\<exists>c. load_compaction_cursor host_config sample_device validate (new_cursor 2) (sample_table_image, merge_db) = Inr c \<and> cc_active c"
proof -
  have reference: "mr_tables (db_manifest merge_db) ! 2 = make_table_reference sample_footer" "table_block_bytes merge_db = 16384"
    by (simp_all add: merge_db_fields table_block_bytes_def) (simp add: get_build_limits_def host_config_def)
  have fields: "tr_active (make_table_reference sample_footer)" "tr_generation (make_table_reference sample_footer) = 2"
    "tr_data_block_count (make_table_reference sample_footer) = 1"
    by (simp_all add: make_table_reference_def sample_footer_def sample_metadata_def)
  have block: "load_cursor_block host_config sample_device validate (new_cursor 2) (sample_table_image, merge_db) = Inr (1, 32)"
    using merge_db_reads [of 0 16384 16384] merge_db_reads [of 0 64 16384] sample_header_fields sample_data_block(1,2) get_all
    by (simp add: load_cursor_block_def Let_def cursor_block_offset_def cursor_reference_def new_cursor_def reference fields
        format_consts then_read_def require_that_def is_zero_range_def)
  have cursor: "cc_source_slot (new_cursor 2) = 2" "cc_block_index (new_cursor 2) = 0" "cc_block_entry_count (new_cursor 2) = 0"
    by (simp_all add: new_cursor_def)
  have valid: "\<not> 32 < entry_meaningful_size 1 2 0 3" by (simp add: entry_meaningful_size_def format_consts te_external_def)
  show ?thesis
    using merge_db_reads [of 64 24 16448] merge_db_reads [of 88 3 16472] sample_entry_fields valid
    by (simp add: load_compaction_cursor_def block then_read_def load_cursor_entry_def table_slot_exists_def merge_db_fields
        cursor_reference_def reference fields cursor cursor_block_offset_def format_consts require_that_def
        cursor_entry_invalid_def te_external_def te_tombstone_def te_unknown_flags_def Let_def numeral_3_eq_3)
qed

text \<open>Both merges are started on the cursor of the sample table, and return.\<close>

theorem merges_return_witness:
  "\<exists>recovery inputs. recovery \<noteq> [] \<and> inputs \<noteq> [] \<and>
     open_recovery_cursors host_config sample_device [0..<4] 2 (sample_table_image, merge_db) = Inr recovery \<and>
     (\<exists>ret w'. merge_recovery host_config sample_device recovery (sample_table_image, merge_db) = Some (ret, w')) \<and>
     open_compaction_cursors host_config sample_device [2] (sample_table_image, merge_db) = Inr inputs \<and>
     (\<exists>r w'. merge_tables host_config sample_device (make_plan merge_db) [] inputs
        \<lparr>co_output = None, co_output_count = 0, co_destination_tail = 8192, co_logical_state_bytes = 0, co_greatest_sequence = 0\<rparr>
        (sample_table_image, merge_db) = Some (r, w'))"
proof -
  let ?w = "(sample_table_image, merge_db)"
  have active: "tr_active (mr_tables (db_manifest merge_db) ! slot) = (slot = 2)" if "slot < 4" for slot
    using that by (simp add: merge_db_fields nth_list_update make_table_reference_def empty_table_reference_def)
  obtain c where c: "load_compaction_cursor host_config sample_device True (new_cursor 2) ?w = Inr c" "cc_active c"
    using merge_db_cursor by blast
  obtain d where d: "load_compaction_cursor host_config sample_device False (new_cursor 2) ?w = Inr d" "cc_active d"
    using merge_db_cursor by blast
  have slots: "[0..<4] = [0, 1, 2, 3 :: nat]" by (simp add: upt_rec)
  have recovery: "open_recovery_cursors host_config sample_device [0..<4] 2 ?w = Inr [c]"
    unfolding slots using c by (simp add: active then_read_def require_that_def)
  have inputs: "open_compaction_cursors host_config sample_device [2] ?w = Inr [d]"
    using d by (simp add: then_read_def)
  have plan: "cp_input_start (make_plan merge_db) = 2" "cp_bank_size (make_plan merge_db) = 2"
    by (simp_all add: make_plan_def merge_db_fields Let_def)
  have "[2..<2 + 2] = [2, 3 :: nat]" by (simp add: upt_rec)
  then have used: "active_slots merge_db 2 2 = [2]" by (simp add: active_slots_def active)
  have "mr_active_table_bank (db_manifest (snd ?w)) \<le> 1" by (simp add: merge_db_fields)
  with merges_return [of host_config sample_device ?w 2 "[c]" "[d]" "[]" 8192] show ?thesis
    using recovery inputs by (simp add: merge_db_fields plan used)
qed

end
