(* ===== verification/Spec2Isabelle.thy ===== *)
theory Spec2Isabelle
  imports Format_Correctness Storage_Correctness Memtable_Correctness Manifest_Correctness Wal_Header
    Wal_Payload Provisioning Wal_Correctness Session_Correctness Io_Fatfs Io_Sdmmc Runtime_Memory
    Staging_Correctness Sample_Table Write_Confinement Value_Stream Merge_Termination
begin

text \<open>
  On9KVDB, a transactional key-value store for microcontrollers (\<open>src/on9kvdb*.cpp\<close> and the headers beside
  them), and what makes it correct.

  \<^bold>\<open>The program.\<close> The database owns one raw range of a block device, split into fixed regions: two manifest
  slots, two slots of a write-ahead log, two banks of sorted table files and two banks of large values. A client
  opens namespace handles, begins the one transaction there can be, stages small values in a bounded arena or
  streams large ones into the active value bank, and commits. A commit checks that the memtable has room (or
  flushes it), appends the transaction to the log as 4096-byte frames, and applies it to the memtable, an
  open-addressing index over a record arena. A full log rotates to the other slot, a full memtable is flushed into
  a free table of the active bank, and when there is none a compaction merges memtable and tables into the other
  bank and relocates the large values. Every such step is published by writing a new manifest over the older of
  its two copies. A lookup asks the staged values, the memtable, and the tables from the newest to the oldest. The
  start loads the newest consistent manifest, validates and counts the tables, replays the log and drops a torn
  tail. All memory is carved out of one arena at the start.

  \<^bold>\<open>The theories and the sources.\<close>

  \<^item> \<open>Prelude\<close>: integers of the C++ widths, byte buffers, the codes of \<open>esp_err_t\<close>. \<open>Format_Defs\<close>,
    \<open>Geometry\<close>: the constants, the build configuration and the storage geometry (\<open>on9kvdb_defs.hpp\<close>,
    \<open>on9kvdb_format.cpp\<close>, \<open>on9kvdb.cpp\<close>). \<open>Database_State\<close>: the members of the class (\<open>on9kvdb.hpp\<close>).
  \<^item> \<open>Byte_Codec\<close>, \<open>Crc32\<close>, \<open>File_Format\<close>, \<open>Manifest_Format\<close>, \<open>Wal_Format\<close>, \<open>Table_Format\<close>,
    \<open>Value_Format\<close>: every encoder, decoder and validity rule of \<open>on9kvdb_format.cpp\<close>. \<open>Composite_Key\<close>: keys
    and their order (\<open>on9kvdb_defs.hpp\<close>).
  \<^item> \<open>Storage\<close>: regions and bytes over a block device (\<open>on9kvdb_io.cpp\<close>, \<open>on9kvdb_io.hpp\<close>). \<open>Io_Fatfs\<close>,
    \<open>Io_Sdmmc\<close>: the two devices (\<open>on9kvdb_io_fatfs.cpp\<close>, \<open>on9kvdb_io_sdmmc.cpp\<close>). \<open>Store\<close>: the pair of
    device and database state all other operations pass on, and the early returns.
  \<^item> \<open>Manifest_Store\<close>, \<open>Provisioning\<close>: manifest copies, identities, creation and start
    (\<open>on9kvdb_manifest.cpp\<close>, \<open>init\<close> and \<open>deinit\<close> of \<open>on9kvdb.cpp\<close>). \<open>Runtime_Memory\<close>: the budget and the
    arena (\<open>on9kvdb.cpp\<close>).
  \<^item> \<open>Wal_Header\<close>, \<open>Wal_Payload\<close>, \<open>Wal_Log\<close>: the log (\<open>on9kvdb_wal.cpp\<close>).
  \<^item> \<open>Memtable\<close>: namespaces, lookup, preflight and application (\<open>on9kvdb_memtable.cpp\<close>).
  \<^item> \<open>Heap_Sort\<close>, \<open>Key_Filter\<close>, \<open>Table_Build\<close>, \<open>Table_Store\<close>, \<open>Flush\<close>: sorted tables
    (\<open>on9kvdb_table.cpp\<close>). \<open>Table_Cursor\<close>, \<open>Compaction\<close>: the merge at the start and the compaction
    (\<open>on9kvdb_table.cpp\<close>, \<open>on9kvdb_compaction.cpp\<close>).
  \<^item> \<open>Value_Store\<close>: writer, readers and relocation of large values (\<open>on9kvdb_value.cpp\<close>).
  \<^item> \<open>Transaction\<close>, \<open>Api\<close>: tokens, staging and the public operations (\<open>on9kvdb_api.cpp\<close>,
    \<open>on9kvdb_value.cpp\<close>).

  A definition carries the name of the function it translates. An operation takes the configuration, the block
  device and the pair of device and database state, and returns its \<open>esp_err_t\<close> or result with the new pair; every
  early return is a branch. Structs are records, arrays lists whose lengths \<open>wf_arrays\<close> states, buffers lists of
  bytes, integers words of their width wherever the source computes with them. The arena of the memtable is a map
  from offsets to decoded records. The configuration is a parameter; \<open>host_config\<close> is the one of the host tests.

  \<^bold>\<open>The contracts.\<close> Locales state what one part needs of another: \<open>open_addressing\<close> (a probe sequence;
  the hash of the memtable), \<open>comparison\<close> (a comparison function; the one of the memtable records),
  \<open>redundant_record\<close> (two copies; the WAL header), and the views \<open>table_view\<close>, \<open>writer_view\<close>,
  \<open>maintenance_view\<close>, \<open>reader_view\<close>, \<open>staging_view\<close> of \<open>Untouched\<close> (what an operation leaves alone; the
  session, the manifest, the state a reader or a merge depends on). Abstract specifications are the session machine
  of \<open>Session\<close>, the map of staged mutations of \<open>Staging\<close>, the list of entries of a table in \<open>Table_Lookup\<close>, the
  maps of the memtable in \<open>Memtable\<close>, the file and the card as block devices in \<open>Io_Fatfs\<close> and \<open>Io_Sdmmc\<close>.

  \<^bold>\<open>What is shown.\<close>

  \<^item> Format (\<open>Format_Correctness\<close>): decoders undo encoders, accepted records meet the content rules, the
    checksum is CRC-32 and a record with one changed byte is refused; a wrapping sum in \<open>decode_table_entry\<close>.
  \<^item> Storage (\<open>Storage_Correctness\<close>, \<open>Io_Fatfs\<close>, \<open>Io_Sdmmc\<close>): regions partition the range, accesses
    stay inside, writes are read back and isolated; both adapters refine the block device, the card adapter refuses every
    access outside its range, and the file adapter opens only a checked file.
  \<^item> Crash safety: a manifest is replaced atomically (\<open>Manifest_Correctness\<close>); an appended transaction is
    durable, a torn one is never replayed, whatever frames of it arrived (a prefix is dropped, a gap in front of a frame is
    reported), and what is recovered stages the same map (\<open>Wal_Frames\<close>, \<open>Wal_Correctness\<close>); flush and compaction write nothing a manifest uses, on a device that may fail at any
    point (\<open>Write_Confinement\<close>).
  \<^item> Content: preflight and application make exactly the mutations of a transaction visible
    (\<open>Memtable_Correctness\<close>); staging is an update of a map and a transaction reads its own writes
    (\<open>Staging\<close>, \<open>Staging_Correctness\<close>); a validated table is a map and the heap sort sorts
    (\<open>Table_Lookup\<close>); a streamed value is read back (\<open>Value_Stream\<close>); no lookup turns an error into a
    success (\<open>Lookup_Errors\<close>).
  \<^item> Life cycle: every public operation makes at most one move of the session machine, whose invariant holds in
    every reachable state, and a token given back is refused for ever (\<open>Session\<close>, \<open>Lifecycle\<close>,
    \<open>Session_Correctness\<close>); the blocks carved out of the arena are disjoint, and an accepted memory budget suffices when
    the inline value size keeps the alignment of 64-bit words and may not when it does not (\<open>Runtime_Memory\<close>).
  \<^item> Ends: the merges (\<open>Merge_Termination\<close>), the transfers of the file adapter (\<open>Io_Fatfs\<close>).

  \<open>Sample_State\<close> and \<open>Sample_Table\<close> hold the concrete state and the concrete table the witnesses use.

  \<^bold>\<open>Bounds and fuel.\<close> Most loops are structural or have a measure. \<open>merge_recovery\<close>, \<open>merge_tables\<close>, the
  retries of \<open>Io_Fatfs\<close> and the draw of a random database id are partial functions whose value is \<open>None\<close> when they do not
  return; \<open>Merge_Termination\<close> shows that both merges return, the second with an active table bank of 0 or 1, as every
  decoded manifest has, so the branches of their callers for \<open>None\<close> are never taken, and \<open>Io_Fatfs\<close> that the
  transfers return when calls are not interrupted for ever. \<open>read_loop\<close> and \<open>consume_loop\<close> have the number of bytes
  asked for as fuel, since every turn moves the cursor; \<open>Value_Stream\<close>
  shows that \<open>read_loop\<close> delivers all of them.

  \<^bold>\<open>Parameters.\<close> The block device (\<open>device_image\<close>, or less: \<open>errors_reported\<close>, \<open>writes_confined\<close>), the POSIX
  calls, the FATFS volume and the card driver, the clock of the statistics, the random words, the allocator and the
  sizes the compiler gives the structs. Hypotheses state their documented behaviour and are met by a concrete device.

  \<^bold>\<open>Not modelled.\<close> The FreeRTOS locks: their creation (\<open>create_locks\<close>), timed acquisition and the destructor,
  which only serialise the calls taken as atomic here; delays that yield to other tasks; logging; checks of null
  pointers; the typed getters that are compiled out after line 437 of \<open>on9kvdb_memtable.cpp\<close>; the tests and the host
  stubs. A power loss is modelled at the level of what it leaves on the device for the manifest, the frames of the log
  and maintenance, not as one crash semantics of all operations together. That the tables a flush or a compaction
  writes are valid and hold the merged content is not proved: the code validates each table it wrote before it
  publishes it, and validation is what \<open>Table_Lookup\<close> relies on.
\<close>

end
